(* ===== verification/RC2_Prelude.thy ===== *)
theory RC2_Prelude
  imports Main "HOL-Library.Word"
begin

text \<open>
  Shared vocabulary of the development: the machine types of the Go sources, the byte
  order conversions of \<open>encoding/binary\<close>, the byte image of \<open>math/big\<close> integers, Go's
  error values, and the generic lemmas on lists, words and options the components share.

  \<^item> \<open>uint8\<close>, \<open>uint32\<close>, \<open>uint64\<close> and \<open>int64\<close> are words of that width.
  \<^item> A fixed array \<open>[32]byte\<close> (a hash or an address) is the 256-bit word whose big-endian
    bytes are the elements of the array; \<open>[SHash]byte\<close>, with \<open>SHash = 31\<close>, is a 248-bit
    word. \<open>be_bytes\<close> and \<open>be_word\<close> convert between the word and its bytes, and are
    inverse to each other (\<open>be_word_bytes\<close>, \<open>be_bytes_word\<close>).
  \<^item> A slice is a list; \<open>nil\<close> and the empty slice are both the empty list.
  \<^item> A run-time panic (index out of range, nil dereference) is \<open>None\<close>.
\<close>

type_synonym byte = "8 word"
type_synonym bytes = "byte list"
type_synonym u32 = "32 word"
type_synonym u64 = "64 word"
type_synonym i64 = "64 word"
type_synonym hash = "256 word"
type_synonym shash = "248 word"

text \<open>Errors made by \<open>fmt.Errorf\<close>: a message, a message with the wrapped cause, and a
  message with the index of the loop it was raised in and the cause.\<close>

datatype error = Msg string | Wrap string error | WrapAt string nat error

named_theorems codec_simps \<open>evaluation of the encoders and decoders on encoded data\<close>
named_theorems wire_defs \<open>definitions of the wire formats\<close>
named_theorems len_simps \<open>lengths of encodings and hashes\<close>

section \<open>Little- and big-endian bytes of a word\<close>

definition le_bytes :: "nat \<Rightarrow> 'a::len word \<Rightarrow> bytes" where
  "le_bytes n w = map (\<lambda>i. ucast (drop_bit (8 * i) w)) [0..<n]"

definition le_word :: "bytes \<Rightarrow> 'a::len word" where
  "le_word bs = foldr (\<lambda>b acc. or (ucast b) (push_bit 8 acc)) bs 0"

definition be_bytes :: "nat \<Rightarrow> 'a::len word \<Rightarrow> bytes" where
  "be_bytes n w = rev (le_bytes n w)"

definition be_word :: "bytes \<Rightarrow> 'a::len word" where
  "be_word bs = le_word (rev bs)"

lemma length_le_bytes [simp, len_simps]: "length (le_bytes n w) = n"
  by (simp add: le_bytes_def)

lemma length_be_bytes [simp, len_simps]: "length (be_bytes n w) = n"
  by (simp add: be_bytes_def)

lemma bit_le_word:
  "bit (le_word bs :: 'a::len word) n \<longleftrightarrow>
     n < LENGTH('a) \<and> n div 8 < length bs \<and> bit (bs ! (n div 8)) (n mod 8)"
proof (induction bs arbitrary: n)
  case Nil
  then show ?case by (simp add: le_word_def)
next
  case (Cons b bs)
  have step: "le_word (b # bs) = (or (ucast b) (push_bit 8 (le_word bs)) :: 'a word)"
    by (simp add: le_word_def)
  show ?case
  proof (cases "n < 8")
    case True
    then show ?thesis by (auto simp: step bit_simps)
  next
    case False
    then have "n div 8 = Suc ((n - 8) div 8)" and "(n - 8) mod 8 = n mod 8"
      by (simp_all add: le_div_geq le_mod_geq)
    with False show ?thesis
      using Cons.IH [of "n - 8"] by (auto simp: step bit_simps dest: bit_imp_le_length)
  qed
qed

lemma le_word_bytes:
  assumes "LENGTH('a::len) \<le> 8 * n"
  shows "le_word (le_bytes n (w :: 'a word)) = w"
proof (rule bit_word_eqI)
  fix k assume k: "k < LENGTH('a)"
  then have "k div 8 < n" and "8 * (k div 8) + k mod 8 = k"
    using assms by (simp_all add: less_mult_imp_div_less mult.commute)
  with k show "bit (le_word (le_bytes n w) :: 'a word) k \<longleftrightarrow> bit w k"
    by (simp add: bit_le_word le_bytes_def bit_simps)
qed

lemma le_bytes_word:
  assumes "8 * length bs \<le> LENGTH('a::len)"
  shows "le_bytes (length bs) (le_word bs :: 'a word) = bs"
proof (rule nth_equalityI)
  show "length (le_bytes (length bs) (le_word bs :: 'a word)) = length bs" by simp
next
  fix i assume "i < length (le_bytes (length bs) (le_word bs :: 'a word))"
  then have i: "i < length bs" by simp
  show "le_bytes (length bs) (le_word bs :: 'a word) ! i = bs ! i"
  proof (rule bit_word_eqI)
    fix k assume k: "k < LENGTH(8)"
    then have "(8 * i + k) div 8 = i" "(8 * i + k) mod 8 = k" "8 * i + k < LENGTH('a)"
      using assms i by auto
    with i k show "bit (le_bytes (length bs) (le_word bs :: 'a word) ! i) k \<longleftrightarrow> bit (bs ! i) k"
      by (simp add: le_bytes_def bit_simps bit_le_word)
  qed
qed

lemma be_word_bytes:
  "LENGTH('a::len) \<le> 8 * n \<Longrightarrow> be_word (be_bytes n (w :: 'a word)) = w"
  by (simp add: be_word_def be_bytes_def le_word_bytes)

lemma be_bytes_word:
  "8 * length bs \<le> LENGTH('a::len) \<Longrightarrow> be_bytes (length bs) (be_word bs :: 'a word) = bs"
  using le_bytes_word [of "rev bs", where 'a = 'a] by (simp add: be_word_def be_bytes_def)

lemma be_bytes_inj:
  "LENGTH('a::len) \<le> 8 * n \<Longrightarrow> be_bytes n (v :: 'a word) = be_bytes n w \<longleftrightarrow> v = w"
  by (metis be_word_bytes)

lemma le_bytes_inj:
  "LENGTH('a::len) \<le> 8 * n \<Longrightarrow> le_bytes n (v :: 'a word) = le_bytes n w \<longleftrightarrow> v = w"
  by (metis le_word_bytes)

lemma le_word_bytes_32 [simp]: "le_word (le_bytes 4 (w :: u32)) = w"
  by (rule le_word_bytes) simp

lemma le_word_bytes_64 [simp]: "le_word (le_bytes 8 (w :: u64)) = w"
  by (rule le_word_bytes) simp

lemma be_word_bytes_hash [simp]: "be_word (be_bytes 32 (w :: hash)) = w"
  by (rule be_word_bytes) simp

lemma be_word_bytes_shash [simp]: "be_word (be_bytes 31 (w :: shash)) = w"
  by (rule be_word_bytes) simp

lemma be_bytes_hash_inj [simp]: "be_bytes 32 (v :: hash) = be_bytes 32 w \<longleftrightarrow> v = w"
  by (rule be_bytes_inj) simp

lemma le_bytes_32_inj [simp]: "le_bytes 4 (v :: u32) = le_bytes 4 w \<longleftrightarrow> v = w"
  by (rule le_bytes_inj) simp

lemma le_bytes_64_inj [simp]: "le_bytes 8 (v :: u64) = le_bytes 8 w \<longleftrightarrow> v = w"
  by (rule le_bytes_inj) simp

section \<open>Big-endian bytes of a natural number: \<open>big.Int\<close>\<close>

text \<open>\<open>x.Bytes()\<close> is the big-endian representation of the absolute value without leading
  zero bytes, \<open>x.SetBytes(b)\<close> reads one back.\<close>

fun nat_bytes :: "nat \<Rightarrow> bytes" where
  "nat_bytes n = (if n = 0 then [] else nat_bytes (n div 256) @ [of_nat (n mod 256)])"

declare nat_bytes.simps [simp del]

definition bytes_nat :: "bytes \<Rightarrow> nat" where
  "bytes_nat bs = foldl (\<lambda>a b. a * 256 + unat b) 0 bs"

lemma bytes_nat_Nil [simp]: "bytes_nat [] = 0"
  by (simp add: bytes_nat_def)

lemma bytes_nat_snoc [simp]: "bytes_nat (bs @ [b]) = bytes_nat bs * 256 + unat b"
  by (simp add: bytes_nat_def)

lemma nat_bytes_0 [simp]: "nat_bytes 0 = []"
  by (simp add: nat_bytes.simps)

lemma unat_of_nat_byte [simp]: "unat (of_nat (n mod 256) :: byte) = n mod 256"
  by (simp add: unat_of_nat)

lemma bytes_nat_bytes [simp]: "bytes_nat (nat_bytes n) = n"
proof (induction n rule: nat_bytes.induct)
  case (1 n)
  then show ?case by (cases "n = 0") (simp_all add: nat_bytes.simps [of n])
qed

lemma bytes_nat_Cons: "bytes_nat (b # bs) = unat b * 256 ^ length bs + bytes_nat bs"
  by (induction bs rule: rev_induct) (simp_all add: bytes_nat_def algebra_simps)

lemma bytes_nat_bound: "bytes_nat bs < 256 ^ length bs"
proof (induction bs rule: rev_induct)
  case (snoc b bs)
  have "unat b < 256" using unsigned_less [of b, where ?'a = nat] by simp
  with snoc show ?case by simp
qed simp

lemma nat_bytes_bytes_nat: "bs \<noteq> [] \<Longrightarrow> hd bs \<noteq> 0 \<Longrightarrow> nat_bytes (bytes_nat bs) = bs"
proof (induction bs rule: rev_induct)
  case (snoc b bs)
  have b: "unat b < 256" using unsigned_less [of b, where ?'a = nat] by simp
  show ?case
  proof (cases "bs = []")
    case True
    with snoc.prems have "unat b \<noteq> 0" by (simp add: unat_eq_zero)
    with True b show ?thesis by (simp add: nat_bytes.simps bytes_nat_def)
  next
    case False
    with snoc have IH: "nat_bytes (bytes_nat bs) = bs" by simp
    then have "bytes_nat bs \<noteq> 0" using False by (metis nat_bytes_0)
    with IH b show ?thesis
      by (simp add: nat_bytes.simps [of "bytes_nat bs * 256 + unat b"])
  qed
qed simp

lemma hd_nat_bytes: "n \<noteq> 0 \<Longrightarrow> nat_bytes n \<noteq> [] \<and> hd (nat_bytes n) \<noteq> 0"
proof (induction n rule: nat_bytes.induct)
  case (1 n)
  show ?case
  proof (cases "n div 256 = 0")
    case True
    then have "n < 256" by simp
    then have "(of_nat n :: byte) \<noteq> 0"
      using 1 by (metis mod_less unat_0 unat_of_nat_byte)
    with True 1 \<open>n < 256\<close> show ?thesis by (simp add: nat_bytes.simps [of n])
  next
    case False
    with 1 show ?thesis by (simp add: nat_bytes.simps [of n])
  qed
qed

section \<open>Sequencing of optional results\<close>

text \<open>\<open>seq_opt\<close> concatenates the pieces a function appends to its output; one piece that
  panics makes the whole call panic.\<close>

fun seq_opt :: "'a list option list \<Rightarrow> 'a list option" where
  "seq_opt [] = Some []"
| "seq_opt (None # xs) = None"
| "seq_opt (Some a # xs) = map_option (\<lambda>r. a @ r) (seq_opt xs)"

lemma seq_opt_Cons_Some:
  "seq_opt (x # xs) = Some e \<longleftrightarrow> (\<exists>a r. x = Some a \<and> seq_opt xs = Some r \<and> e = a @ r)"
  by (cases x) auto

lemma seq_opt_append_Some:
  "seq_opt (xs @ ys) = Some e \<longleftrightarrow> (\<exists>a r. seq_opt xs = Some a \<and> seq_opt ys = Some r \<and> e = a @ r)"
  by (induction xs arbitrary: e) (auto simp: seq_opt_Cons_Some)

lemma seq_opt_map_Some [simp]: "seq_opt (map (\<lambda>x. Some (f x)) xs) = Some (concat (map f xs))"
  by (induction xs) auto

lemma seq_opt_total: "\<forall>x \<in> set xs. x \<noteq> None \<Longrightarrow> \<exists>e. seq_opt xs = Some e"
  by (induction xs) auto

text \<open>\<open>for i := 0; i < n; i++ { f(a[i]) }\<close>: the loop panics when \<open>n\<close> passes the length of
  the slice, and ignores the elements behind \<open>n\<close>.\<close>

definition for_upto :: "('a \<Rightarrow> 'b list option) \<Rightarrow> nat \<Rightarrow> 'a list \<Rightarrow> 'b list option" where
  "for_upto f n xs = (if n \<le> length xs then seq_opt (map f (take n xs)) else None)"

lemma for_upto_all [simp]: "for_upto f (length xs) xs = seq_opt (map f xs)"
  by (simp add: for_upto_def)

text \<open>\<open>a[i]\<close> with Go's bounds check.\<close>

definition idx :: "'a list \<Rightarrow> nat \<Rightarrow> 'a option" where
  "idx xs i = (if i < length xs then Some (xs ! i) else None)"

lemma idx_Some [simp]: "idx xs i = Some x \<longleftrightarrow> i < length xs \<and> xs ! i = x"
  by (auto simp: idx_def)

lemma idx_None [simp]: "idx xs i = None \<longleftrightarrow> length xs \<le> i"
  by (auto simp: idx_def)

lemma unat_of_nat_u32: "n < 2 ^ 32 \<Longrightarrow> unat (of_nat n :: u32) = n"
  by (simp add: unat_of_nat)

text \<open>A loop whose body may panic.\<close>

fun ofold :: "('a \<Rightarrow> 's \<Rightarrow> 's option) \<Rightarrow> 'a list \<Rightarrow> 's \<Rightarrow> 's option" where
  "ofold f [] s = Some s"
| "ofold f (x # xs) s = (case f x s of None \<Rightarrow> None | Some t \<Rightarrow> ofold f xs t)"

lemma ofold_append: "ofold f (xs @ ys) s = (case ofold f xs s of None \<Rightarrow> None | Some t \<Rightarrow> ofold f ys t)"
  by (induction xs arbitrary: s) (auto split: option.splits)

lemma ofold_inv:
  "ofold f xs s = Some t \<Longrightarrow> P s \<Longrightarrow> (\<And>x s t. x \<in> set xs \<Longrightarrow> P s \<Longrightarrow> f x s = Some t \<Longrightarrow> P t) \<Longrightarrow> P t"
proof (induction xs arbitrary: s)
  case (Cons x xs)
  then obtain u where u: "f x s = Some u" "ofold f xs u = Some t" by (auto split: option.splits)
  have "P u" using Cons.prems(3) [OF _ Cons.prems(2) u(1)] by simp
  then show ?case by (rule Cons.IH [OF u(2)]) (use Cons.prems(3) in auto)
qed simp

lemma ofold_total:
  "P s \<Longrightarrow> (\<And>x s. x \<in> set xs \<Longrightarrow> P s \<Longrightarrow> \<exists>t. f x s = Some t \<and> P t) \<Longrightarrow> \<exists>t. ofold f xs s = Some t \<and> P t"
  by (induction xs arbitrary: s) fastforce+

lemma ofold_fold: "(\<And>x s. x \<in> set xs \<Longrightarrow> f x s = Some (g x s)) \<Longrightarrow> ofold f xs s = Some (fold g xs s)"
  by (induction xs arbitrary: s) auto

text \<open>\<open>a[i] = v\<close> with Go's bounds check.\<close>

definition put_idx :: "'a list \<Rightarrow> nat \<Rightarrow> 'a \<Rightarrow> 'a list option" where
  "put_idx xs i v = (if i < length xs then Some (xs[i := v]) else None)"

lemma put_idx_Some [simp]: "put_idx xs i v = Some ys \<longleftrightarrow> i < length xs \<and> ys = xs[i := v]"
  by (auto simp: put_idx_def)

lemma put_idx_None [simp]: "put_idx xs i v = None \<longleftrightarrow> length xs \<le> i"
  by (auto simp: put_idx_def)

text \<open>A loop runs to its end exactly when every round can, if that does not depend on the state
  reached so far.\<close>

lemma ofold_iff:
  assumes "\<And>x s. x \<in> set xs \<Longrightarrow> I s \<Longrightarrow> f x s \<noteq> None \<longleftrightarrow> P x"
    and "\<And>x s t. x \<in> set xs \<Longrightarrow> I s \<Longrightarrow> f x s = Some t \<Longrightarrow> I t" and "I s"
  shows "ofold f xs s \<noteq> None \<longleftrightarrow> (\<forall>x \<in> set xs. P x)"
  using assms
proof (induction xs arbitrary: s)
  case Nil
  then show ?case by simp
next
  case (Cons x xs)
  show ?case
  proof (cases "f x s")
    case None
    then show ?thesis using Cons.prems(1) [of x s] Cons.prems(3) by simp
  next
    case (Some t)
    then have "P x" "I t" using Cons.prems(1) [of x s] Cons.prems(2) [of x s t] Cons.prems(3) by auto
    moreover have "ofold f xs t \<noteq> None \<longleftrightarrow> (\<forall>x \<in> set xs. P x)"
      by (rule Cons.IH [OF Cons.prems(1) Cons.prems(2) \<open>I t\<close>]) simp_all
    ultimately show ?thesis using Some by simp
  qed
qed

end
