(* ===== verification/Sha256.thy ===== *)
theory Sha256
  imports RC2_Prelude
begin

text \<open>
  SHA-256 (FIPS 180-4), the standard-library function \<open>sha256.Sum256\<close> the program hashes
  with. The definitions compute: a closed message can be hashed by \<open>code_simp\<close>. No theorem
  of the development assumes the function to be injective; where a property depends on
  collision resistance, its statement exhibits the two colliding messages instead
  (\<open>collision\<close>).
\<close>

unbundle bit_operations_syntax

definition rotr :: "nat \<Rightarrow> u32 \<Rightarrow> u32" where
  "rotr n x = drop_bit n x OR push_bit (32 - n) x"

definition big_sigma0 :: "u32 \<Rightarrow> u32" where
  "big_sigma0 x = rotr 2 x XOR rotr 13 x XOR rotr 22 x"

definition big_sigma1 :: "u32 \<Rightarrow> u32" where
  "big_sigma1 x = rotr 6 x XOR rotr 11 x XOR rotr 25 x"

definition small_sigma0 :: "u32 \<Rightarrow> u32" where
  "small_sigma0 x = rotr 7 x XOR rotr 18 x XOR drop_bit 3 x"

definition small_sigma1 :: "u32 \<Rightarrow> u32" where
  "small_sigma1 x = rotr 17 x XOR rotr 19 x XOR drop_bit 10 x"

definition sha_ch :: "u32 \<Rightarrow> u32 \<Rightarrow> u32 \<Rightarrow> u32" where
  "sha_ch x y z = (x AND y) XOR (NOT x AND z)"

definition sha_maj :: "u32 \<Rightarrow> u32 \<Rightarrow> u32 \<Rightarrow> u32" where
  "sha_maj x y z = (x AND y) XOR (x AND z) XOR (y AND z)"

definition sha_k :: "u32 list" where
  "sha_k =
   map word_of_int [
      1116352408, 1899447441, 3049323471, 3921009573, 961987163, 1508970993, 2453635748,
      2870763221, 3624381080, 310598401, 607225278, 1426881987, 1925078388, 2162078206,
      2614888103, 3248222580, 3835390401, 4022224774, 264347078, 604807628, 770255983,
      1249150122, 1555081692, 1996064986, 2554220882, 2821834349, 2952996808, 3210313671,
      3336571891, 3584528711, 113926993, 338241895, 666307205, 773529912, 1294757372,
      1396182291, 1695183700, 1986661051, 2177026350, 2456956037, 2730485921, 2820302411,
      3259730800, 3345764771, 3516065817, 3600352804, 4094571909, 275423344, 430227734,
      506948616, 659060556, 883997877, 958139571, 1322822218, 1537002063, 1747873779,
      1955562222, 2024104815, 2227730452, 2361852424, 2428436474, 2756734187, 3204031479,
      3329325298]"

text \<open>The eight working variables.\<close>

datatype sha_state = ShaState u32 u32 u32 u32 u32 u32 u32 u32

definition sha_init :: sha_state where
  "sha_init = ShaState 1779033703 3144134277 1013904242 2773480762
                       1359893119 2600822924 528734635 1541459225"

text \<open>The message schedule, with the last sixteen words in a window, newest last.\<close>

fun sha_schedule :: "nat \<Rightarrow> u32 list \<Rightarrow> u32 list" where
  "sha_schedule 0 w = w"
| "sha_schedule (Suc n) w =
     (let t = w @ [small_sigma1 (w ! 14) + w ! 9 + small_sigma0 (w ! 1) + w ! 0]
      in w ! 0 # sha_schedule n (tl t))"

fun sha_round :: "sha_state \<Rightarrow> u32 \<times> u32 \<Rightarrow> sha_state" where
  "sha_round (ShaState a b c d e f g h) (k, w) =
     (let t1 = h + big_sigma1 e + sha_ch e f g + k + w;
          t2 = big_sigma0 a + sha_maj a b c
      in ShaState (t1 + t2) a b c (d + t1) e f g)"

fun sha_add :: "sha_state \<Rightarrow> sha_state \<Rightarrow> sha_state" where
  "sha_add (ShaState a b c d e f g h) (ShaState a' b' c' d' e' f' g' h') =
     ShaState (a + a') (b + b') (c + c') (d + d') (e + e') (f + f') (g + g') (h + h')"

function chunks :: "nat \<Rightarrow> 'a list \<Rightarrow> 'a list list" where
  "chunks n xs = (if n = 0 \<or> length xs < n then [] else take n xs # chunks n (drop n xs))"
  by pat_completeness auto
termination
  by (relation "measure (\<lambda>(n, xs). length xs)") auto

declare chunks.simps [simp del]

definition sha_block :: "sha_state \<Rightarrow> bytes \<Rightarrow> sha_state" where
  "sha_block s blk =
     sha_add s (foldl sha_round s
       (zip sha_k (sha_schedule 48 (map be_word (chunks 4 blk)))))"

text \<open>Padding: the bit 1, zeros, and the length in bits as a 64-bit number.\<close>

definition sha_pad :: "bytes \<Rightarrow> bytes" where
  "sha_pad m = m @ [0x80] @ replicate ((119 - length m mod 64) mod 64) 0
                @ be_bytes 8 (of_nat (8 * length m) :: u64)"

fun sha_out :: "sha_state \<Rightarrow> bytes" where
  "sha_out (ShaState a b c d e f g h) = concat (map (be_bytes 4) [a, b, c, d, e, f, g, h])"

definition Sum256 :: "bytes \<Rightarrow> hash" where
  "Sum256 m = be_word (sha_out (foldl sha_block sha_init (chunks 64 (sha_pad m))))"

text \<open>Two distinct messages with the same hash.\<close>

definition collision :: "bytes \<Rightarrow> bytes \<Rightarrow> bool" where
  "collision x y \<longleftrightarrow> x \<noteq> y \<and> Sum256 x = Sum256 y"

lemma Sum256_eqD: "Sum256 x = Sum256 y \<Longrightarrow> x = y \<or> collision x y"
  by (auto simp: collision_def)

lemma length_sha_out: "length (sha_out s) = 32"
  by (cases s) (simp add: le_bytes_def be_bytes_def)

text \<open>Padding always gives whole blocks.\<close>

lemma length_sha_pad: "64 dvd length (sha_pad m)"
proof -
  define q r where "q = length m div 64" and "r = length m mod 64"
  have m: "length m = 64 * q + r" and r: "r < 64" by (simp_all add: q_def r_def)
  have "(119 - r) mod 64 = (if r \<le> 55 then 55 - r else 119 - r)"
    using r by (simp add: mod_if)
  then have "length (sha_pad m) = 64 * (if r \<le> 55 then q + 1 else q + 2)"
    using m r by (simp add: sha_pad_def r_def [symmetric])
  then show ?thesis by simp
qed

lemma length_sha_schedule: "length w = 16 \<Longrightarrow> length (sha_schedule n w) = 16 + n"
  by (induction n arbitrary: w) (auto simp: Let_def)

end
