(* ===== verification/Codec.thy ===== *)
theory Codec
  imports Sha256
begin

text \<open>
  The wire format of \<open>basic/tool.go\<close> and \<open>basic/sign.go\<close>.

  Encoding: every \<open>Encode\<close> function appends to a buffer; its model returns the bytes it
  appends, or \<open>None\<close> where the call panics (a nil \<open>*big.Int\<close>, an index out of range).
  \<open>goval\<close> is the dynamic type the type switch of the generic \<open>Encode\<close> inspects.

  Decoding: \<open>Decode(buf *[]byte, out)\<close> writes the target and the remaining buffer even when
  it fails, and some callers look at the target after an error; a decoder is therefore a
  function of the target's old value and the buffer, and its failure carries both. Buffers
  come from \<open>make([]byte, n)\<close> followed by \<open>copy\<close> in every message handler, so the capacity
  of a buffer is its length, and slicing past the length panics.

  The locale \<open>codec\<close> is the contract between an encoder and a decoder; it is interpreted on
  the program's pairs here and in the theories of the message types.
\<close>

section \<open>Signatures (\<open>basic/struct.go\<close>)\<close>

text \<open>The fields of \<open>RCSign\<close> are pointers to \<open>big.Int\<close>; \<open>None\<close> is nil.\<close>

record RCSign =
  sig_R :: "int option"
  sig_S :: "int option"

definition RCSign_zero :: RCSign where
  "RCSign_zero = \<lparr>sig_R = None, sig_S = None\<rparr>"

section \<open>Encoding (\<open>basic/tool.go\<close>)\<close>

text \<open>\<open>VU32\<close> to \<open>VArr32\<close> are passed by value or by a pointer to an integer and reach
  \<open>binary.Write\<close> through the default case; the \<open>P\<close> constructors are the pointer types the
  type switch names. \<open>VInt\<close> is Go's \<open>int\<close>, whose size is not fixed.\<close>

datatype goval =
    VU32 u32 | VU64 u64 | VI64 i64 | VBool bool | VInt int | VSlice bytes | VArr32 hash
  | PSlice bytes | P32 hash | PShash shash | PSign RCSign | PBig "int option"

definition EncodeByte :: "bytes \<Rightarrow> bytes" where
  "EncodeByte d = le_bytes 4 (of_nat (length d) :: u32) @ d"

definition EncodeByteL :: "bytes \<Rightarrow> nat \<Rightarrow> error + bytes" where
  "EncodeByteL d l =
     (if length d \<noteq> l then Inl (Msg ''Basic.EncodeByteL length is not right'') else Inr d)"

text \<open>\<open>binary.Write\<close> refuses values without a fixed size, such as an \<open>int\<close>.\<close>

fun EncodeInt :: "goval \<Rightarrow> error + bytes" where
  "EncodeInt (VU32 x) = Inr (le_bytes 4 x)"
| "EncodeInt (VU64 x) = Inr (le_bytes 8 x)"
| "EncodeInt (VI64 x) = Inr (le_bytes 8 x)"
| "EncodeInt (VBool b) = Inr [if b then 1 else 0]"
| "EncodeInt (VSlice d) = Inr d"
| "EncodeInt (VArr32 h) = Inr (be_bytes 32 h)"
| "EncodeInt _ = Inl (Wrap ''Basic.EncodeInt write failed'' (Msg ''binary.Write: invalid type''))"

text \<open>\<open>d.Bytes()\<close> on a nil \<open>*big.Int\<close> dereferences nil.\<close>

fun EncodeBig :: "int option \<Rightarrow> bytes option" where
  "EncodeBig None = None"
| "EncodeBig (Some x) =
     (let b = nat_bytes (nat \<bar>x\<bar>) in Some (le_bytes 4 (of_nat (length b) :: u32) @ b))"

definition EncodeDoubleBig :: "int option \<Rightarrow> int option \<Rightarrow> bytes option" where
  "EncodeDoubleBig a b = seq_opt [EncodeBig a, EncodeBig b]"

definition SignToData :: "RCSign \<Rightarrow> bytes option" where
  "SignToData s = EncodeDoubleBig (sig_R s) (sig_S s)"

text \<open>The generic \<open>Encode\<close> drops the error of the function it dispatches to; nothing is
  appended in that case.\<close>

definition append_or_drop :: "error + bytes \<Rightarrow> bytes" where
  "append_or_drop r = (case r of Inl _ \<Rightarrow> [] | Inr b \<Rightarrow> b)"

fun Encode :: "goval \<Rightarrow> bytes option" where
  "Encode (PSlice d) = Some (EncodeByte d)"
| "Encode (P32 h) = Some (append_or_drop (EncodeByteL (be_bytes 32 h) 32))"
| "Encode (PShash h) = Some (append_or_drop (EncodeByteL (be_bytes 31 h) 31))"
| "Encode (PSign s) = SignToData s"
| "Encode (PBig x) = EncodeBig x"
| "Encode v = Some (append_or_drop (EncodeInt v))"

definition byteSlice :: "u32 \<Rightarrow> bytes" where
  "byteSlice x = append_or_drop (EncodeInt (VU32 x))"

definition HashCut :: "hash \<Rightarrow> shash" where
  "HashCut x = be_word (take 31 (be_bytes 32 x))"

text \<open>Despite its name the function hashes once: the second application is commented out in
  the source.\<close>

definition DoubleHash256 :: "bytes \<Rightarrow> hash" where
  "DoubleHash256 a = Sum256 a"

declare Encode.simps [simp del]

lemma Encode_fixed [simp, codec_simps]:
  "Encode (VU32 x) = Some (le_bytes 4 x)"
  "Encode (VU64 y) = Some (le_bytes 8 y)"
  "Encode (VI64 y) = Some (le_bytes 8 y)"
  "Encode (VArr32 h) = Some (be_bytes 32 h)"
  "Encode (P32 h) = Some (be_bytes 32 h)"
  "Encode (PShash s) = Some (be_bytes 31 s)"
  "Encode (PSlice d) = Some (EncodeByte d)"
  "Encode (PSign g) = SignToData g"
  "Encode (PBig n) = EncodeBig n"
  "Encode (VSlice d) = Some d"
  "Encode (VBool c) = Some [if c then 1 else 0]"
  by (simp_all add: Encode.simps append_or_drop_def EncodeByteL_def)

text \<open>An \<open>int\<close> is silently left out of the message.\<close>

lemma Encode_int [simp, codec_simps]: "Encode (VInt i) = Some []"
  by (simp add: Encode.simps append_or_drop_def)

lemma length_EncodeByte [simp, len_simps]: "length (EncodeByte d) = 4 + length d"
  by (simp add: EncodeByte_def)

lemma byteSlice_eq [simp, codec_simps]: "byteSlice x = le_bytes 4 x"
  by (simp add: byteSlice_def append_or_drop_def)

section \<open>Decoders\<close>

datatype 's dres = DOk 's bytes | DErr 's bytes error | DPanic

type_synonym 's dec = "'s \<Rightarrow> bytes \<Rightarrow> 's dres"

text \<open>A struct is decoded field by field: \<open>steps\<close> runs the decoders of the fields in the
  order of the source and stops at the first that fails, \<open>fieldS\<close> lifts a decoder that
  depends on the fields read so far to the struct, \<open>field\<close> adds the message the source wraps
  the error in, and \<open>whenD\<close> is a conditional field.\<close>

fun steps :: "'s dec list \<Rightarrow> 's dec" where
  "steps [] s b = DOk s b"
| "steps (d # ds) s b =
     (case d s b of DOk s' b' \<Rightarrow> steps ds s' b' | DErr s' b' e \<Rightarrow> DErr s' b' e | DPanic \<Rightarrow> DPanic)"

definition fieldS ::
  "('s \<Rightarrow> 'v) \<Rightarrow> (('v \<Rightarrow> 'v) \<Rightarrow> 's \<Rightarrow> 's) \<Rightarrow> ('s \<Rightarrow> 'v dec) \<Rightarrow> 's dec" where
  "fieldS g u d s b =
     (case d s (g s) b of
        DOk v b' \<Rightarrow> DOk (u (\<lambda>_. v) s) b'
      | DErr v b' e \<Rightarrow> DErr (u (\<lambda>_. v) s) b' e
      | DPanic \<Rightarrow> DPanic)"

definition wrapD :: "string \<Rightarrow> 'v dec \<Rightarrow> 'v dec" where
  "wrapD l d v b =
     (case d v b of DOk v' b' \<Rightarrow> DOk v' b' | DErr v' b' e \<Rightarrow> DErr v' b' (Wrap l e) | DPanic \<Rightarrow> DPanic)"

definition field ::
  "('s \<Rightarrow> 'v) \<Rightarrow> (('v \<Rightarrow> 'v) \<Rightarrow> 's \<Rightarrow> 's) \<Rightarrow> string \<Rightarrow> 'v dec \<Rightarrow> 's dec" where
  "field g u l d = fieldS g u (\<lambda>_. wrapD l d)"

definition whenD :: "('s \<Rightarrow> bool) \<Rightarrow> 's dec \<Rightarrow> 's dec" where
  "whenD p d s b = (if p s then d s b else DOk s b)"

definition setD :: "('s \<Rightarrow> 's) \<Rightarrow> 's dec" where
  "setD f s b = DOk (f s) b"

text \<open>\<open>a := make([]T, n); for i { a[i].Decode(buf) }\<close>: the elements behind the failing one
  keep their zero value.\<close>

fun dec_list :: "(nat \<Rightarrow> error \<Rightarrow> error) \<Rightarrow> nat \<Rightarrow> 'v dec \<Rightarrow> 'v list dec" where
  "dec_list wr i d [] b = DOk [] b"
| "dec_list wr i d (x # xs) b =
     (case d x b of
        DOk x' b' \<Rightarrow>
          (case dec_list wr (Suc i) d xs b' of
             DOk ys b'' \<Rightarrow> DOk (x' # ys) b''
           | DErr ys b'' e \<Rightarrow> DErr (x' # ys) b'' e
           | DPanic \<Rightarrow> DPanic)
      | DErr x' b' e \<Rightarrow> DErr (x' # xs) b' (wr i e)
      | DPanic \<Rightarrow> DPanic)"

definition make_array :: "(nat \<Rightarrow> error \<Rightarrow> error) \<Rightarrow> nat \<Rightarrow> 'v \<Rightarrow> 'v dec \<Rightarrow> 'v list dec" where
  "make_array wr n z d old b = dec_list wr 0 d (replicate n z) b"

text \<open>\<open>a := make([]T, 0, n); for i { var t T; t.Decode(buf); a = append(a, t) }\<close>: the
  failing element is not appended.\<close>

fun dec_append :: "(nat \<Rightarrow> error \<Rightarrow> error) \<Rightarrow> 'v dec \<Rightarrow> 'v \<Rightarrow> nat \<Rightarrow> nat \<Rightarrow> 'v list dec" where
  "dec_append wr d z i 0 acc b = DOk acc b"
| "dec_append wr d z i (Suc n) acc b =
     (case d z b of
        DOk v b' \<Rightarrow> dec_append wr d z (Suc i) n (acc @ [v]) b'
      | DErr _ b' e \<Rightarrow> DErr acc b' (wr i e)
      | DPanic \<Rightarrow> DPanic)"

definition append_array :: "(nat \<Rightarrow> error \<Rightarrow> error) \<Rightarrow> nat \<Rightarrow> 'v \<Rightarrow> 'v dec \<Rightarrow> 'v list dec" where
  "append_array wr n z d old b = dec_append wr d z 0 n [] b"

text \<open>The trailing check of a message decoder that owns its buffer.\<close>

definition no_extra :: "string \<Rightarrow> 's dec" where
  "no_extra l s b = (if b = [] then DOk s b else DErr s b (Msg l))"

subsection \<open>The cases of the generic \<open>Decode\<close>\<close>

text \<open>\<open>DecodeInt\<close> compares the width with \<open>uint32(len( *d))\<close>, which drops the upper bits of
  the length.\<close>

definition DecodeInt :: "u32 \<Rightarrow> (bytes \<Rightarrow> 'v) \<Rightarrow> 'v dec" where
  "DecodeInt bitlen conv old d =
     (if bitlen > of_nat (length d) then DErr old d (Msg ''Basic.DecodeInt length not enough'')
      else DOk (conv (take (unat bitlen) d)) (drop (unat bitlen) d))"

definition Decode_u32 :: "u32 dec" where "Decode_u32 = DecodeInt 4 le_word"

definition Decode_i64 :: "i64 dec" where "Decode_i64 = DecodeInt 8 le_word"

definition Decode_u64 :: "u64 dec" where "Decode_u64 = DecodeInt 8 le_word"

definition Decode_bool :: "bool dec" where "Decode_bool = DecodeInt 1 (\<lambda>b. b \<noteq> [0])"

text \<open>Any other pointer type, such as \<open>*int\<close>.\<close>

definition Decode_other :: "'v dec" where
  "Decode_other old d = DErr old d (Msg ''Basic.DecodeInt not known type'')"

definition DecodeByteL :: "nat \<Rightarrow> bytes dec" where
  "DecodeByteL l old d =
     (if length d < l then DErr old d (Msg ''Basic.DecodeByteL length not enough'')
      else DOk (take l d) (drop l d))"

definition Decode_arr :: "nat \<Rightarrow> 'a::len word dec" where
  "Decode_arr l old d =
     (case DecodeByteL l [] d of
        DOk x d' \<Rightarrow> DOk (be_word x) d' | DErr _ d' e \<Rightarrow> DErr old d' e | DPanic \<Rightarrow> DPanic)"

abbreviation Decode_hash :: "hash dec" where "Decode_hash \<equiv> Decode_arr 32"
abbreviation Decode_shash :: "shash dec" where "Decode_shash \<equiv> Decode_arr 31"

text \<open>\<open>DecodeByte\<close> reads the length without checking that four bytes are there, and adds 4
  to it in \<open>uint32\<close> arithmetic; a sum that wraps makes the slice bounds cross.\<close>

definition DecodeByte :: "bytes dec" where
  "DecodeByte old d =
     (if length d < 4 then DPanic
      else let tmpBit = le_word (take 4 d) :: u32 in
        if 4 + tmpBit > of_nat (length d) then DErr old d (Msg ''Basic.DecodeByte length not enough'')
        else if 4 + tmpBit < 4 then DPanic
        else DOk (take (unat tmpBit) (drop 4 d)) (drop (unat (4 + tmpBit)) d))"

definition DecodeBig :: "int dec" where
  "DecodeBig old d =
     (case Decode_u32 0 d of
        DOk bitlen d' \<Rightarrow>
          (if of_nat (length d') < bitlen then DErr old d' (Msg ''Basic.DecodeBig not enough length'')
           else DOk (int (bytes_nat (take (unat bitlen) d'))) (drop (unat bitlen) d'))
      | DErr _ d' e \<Rightarrow> DErr old d' e
      | DPanic \<Rightarrow> DPanic)"

text \<open>A \<open>*big.Int\<close> target: writing through nil panics.\<close>

fun Decode_pbig :: "int option dec" where
  "Decode_pbig None d = DPanic"
| "Decode_pbig (Some x) d =
     (case DecodeBig x d of DOk y d' \<Rightarrow> DOk (Some y) d' | DErr y d' e \<Rightarrow> DErr (Some y) d' e
      | DPanic \<Rightarrow> DPanic)"

definition DecodeDoubleBig :: "RCSign dec" where
  "DecodeDoubleBig = steps [fieldS sig_R sig_R_update (\<lambda>_. Decode_pbig),
                            fieldS sig_S sig_S_update (\<lambda>_. Decode_pbig)]"

definition DataToSign :: "RCSign dec" where
  "DataToSign old = wrapD ''RCSign Signature decode failed'' DecodeDoubleBig
                      \<lparr>sig_R = Some 0, sig_S = Some 0\<rparr>"

lemmas decoder_defs = fieldS_def field_def wrapD_def whenD_def setD_def make_array_def append_array_def

section \<open>The contract between an encoder and a decoder\<close>

text \<open>
  \<open>wf\<close> are the values that can be encoded, \<open>z\<close> is the zero value a message is decoded into,
  and \<open>view x\<close> is what the receiver sees of \<open>x\<close>: the fields that are not transmitted hold
  their zero value. The decoder reads back an encoding followed by any other bytes, as long
  as the buffer is shorter than 4 GiB (\<open>DecodeInt\<close> reads its length as a \<open>uint32\<close>).
\<close>

locale codec =
  fixes wf :: "'s \<Rightarrow> bool"
    and enc :: "'s \<Rightarrow> bytes option"
    and dec :: "'s dec"
    and view :: "'s \<Rightarrow> 's"
    and z :: 's
  assumes enc_wf: "wf x \<Longrightarrow> \<exists>e. enc x = Some e"
    and dec_enc: "wf x \<Longrightarrow> enc x = Some e \<Longrightarrow> length (e @ r) < 2 ^ 32 \<Longrightarrow> dec z (e @ r) = DOk (view x) r"
begin

lemma enc_list_wf: "list_all wf xs \<Longrightarrow> \<exists>e. seq_opt (map enc xs) = Some e"
  by (rule seq_opt_total) (auto simp: list_all_iff dest: enc_wf)

lemma dec_list_enc:
  "list_all wf xs \<Longrightarrow> seq_opt (map enc xs) = Some e \<Longrightarrow> length (e @ r) < 2 ^ 32 \<Longrightarrow>
   dec_list wr i dec (replicate (length xs) z) (e @ r) = DOk (map view xs) r"
proof (induction xs arbitrary: e i)
  case Nil
  then show ?case by simp
next
  case (Cons x xs)
  then obtain a e' where a: "enc x = Some a" and e': "seq_opt (map enc xs) = Some e'"
    and e: "e = a @ e'"
    by (auto simp: seq_opt_Cons_Some)
  have "dec z (a @ (e' @ r)) = DOk (view x) (e' @ r)"
    by (rule dec_enc) (use Cons.prems a e in auto)
  moreover have "dec_list wr (Suc i) dec (replicate (length xs) z) (e' @ r) = DOk (map view xs) r"
    by (rule Cons.IH) (use Cons.prems e' e in auto)
  ultimately show ?case by (simp add: e)
qed

lemma dec_append_list:
  "dec_list wr i dec (replicate n z) b = DOk ys r \<Longrightarrow> dec_append wr dec z i n acc b = DOk (acc @ ys) r"
  by (induction n arbitrary: i acc b ys) (auto split: dres.splits)

lemma make_array_enc:
  assumes "list_all wf xs" and "seq_opt (map enc xs) = Some e" and "length (e @ r) < 2 ^ 32"
  shows "make_array wr (length xs) z dec old (e @ r) = DOk (map view xs) r"
  using dec_list_enc [OF assms] by (simp add: make_array_def)

lemma append_array_enc:
  assumes "list_all wf xs" and "seq_opt (map enc xs) = Some e" and "length (e @ r) < 2 ^ 32"
  shows "append_array wr (length xs) z dec old (e @ r) = DOk (map view xs) r"
  using dec_append_list [OF dec_list_enc [OF assms]] by (simp add: append_array_def)

end

text \<open>The decoders of single fields succeed in the same way whatever the target holds.\<close>

locale field_codec = codec +
  assumes dec_old: "dec z b = DOk v r \<Longrightarrow> dec old b = DOk v r"
begin

lemma dec_any:
  "wf x \<Longrightarrow> enc x = Some e \<Longrightarrow> length (e @ r) < 2 ^ 32 \<Longrightarrow> dec old (e @ r) = DOk (view x) r"
  by (rule dec_old) (rule dec_enc)

end

subsection \<open>The program's field codecs\<close>

lemma of_nat_len_less: "length (d :: bytes) < 2 ^ 32 \<Longrightarrow> (of_nat (length d) < (w :: u32)) \<longleftrightarrow> length d < unat w"
  by (simp add: word_less_nat_alt unat_of_nat_u32)

text \<open>Below 4 GiB the width check of \<open>DecodeInt\<close> is a check of the length.\<close>

lemma DecodeInt_small:
  "length d < 2 ^ 32 \<Longrightarrow> DecodeInt n conv old d =
     (if length d < unat n then DErr old d (Msg ''Basic.DecodeInt length not enough'')
      else DOk (conv (take (unat n) d)) (drop (unat n) d))"
  by (simp add: DecodeInt_def of_nat_len_less)

lemma Decode_u32_le [simp, codec_simps]:
  "length r + 4 < 2 ^ 32 \<Longrightarrow> Decode_u32 old (le_bytes 4 w @ r) = DOk w r"
  by (simp add: Decode_u32_def DecodeInt_small)

lemma Decode_u64_le [simp, codec_simps]:
  "length r + 8 < 2 ^ 32 \<Longrightarrow> Decode_u64 old (le_bytes 8 w @ r) = DOk w r"
  by (simp add: Decode_u64_def DecodeInt_small)

lemma Decode_i64_le [simp, codec_simps]:
  "length r + 8 < 2 ^ 32 \<Longrightarrow> Decode_i64 old (le_bytes 8 w @ r) = DOk w r"
  by (simp add: Decode_i64_def DecodeInt_small)

lemma Decode_hash_be [simp, codec_simps]: "Decode_hash old (be_bytes 32 h @ r) = DOk h r"
  by (simp add: Decode_arr_def DecodeByteL_def)

lemma Decode_shash_be [simp, codec_simps]: "Decode_shash old (be_bytes 31 h @ r) = DOk h r"
  by (simp add: Decode_arr_def DecodeByteL_def)

lemma DecodeByte_enc [simp, codec_simps]:
  assumes "length d + length r + 4 < 2 ^ 32"
  shows "DecodeByte old (EncodeByte d @ r) = DOk d r"
proof -
  have u: "unat (of_nat (length d) :: u32) = length d"
    and v: "unat (of_nat (4 + length d) :: u32) = 4 + length d"
    and w: "unat (of_nat (4 + length d + length r) :: u32) = 4 + length d + length r"
    using assms by (simp_all add: unat_of_nat del: of_nat_add)
  have "(4 :: u32) + of_nat (length d) = of_nat (4 + length d)" by simp
  moreover have "\<not> (of_nat (4 + length d) :: u32) < 4"
    by (simp add: word_less_nat_alt v del: of_nat_add)
  moreover have "\<not> (of_nat (4 + length d + length r) :: u32) < of_nat (4 + length d)"
    by (simp add: word_less_nat_alt v w del: of_nat_add)
  ultimately show ?thesis
    using u v by (simp add: DecodeByte_def EncodeByte_def Let_def add.assoc del: of_nat_add)
qed

lemma DecodeBig_enc:
  assumes "0 \<le> x" and "EncodeBig (Some x) = Some e" and "length (e @ r) < 2 ^ 32"
  shows "DecodeBig old (e @ r) = DOk x r"
proof -
  let ?b = "nat_bytes (nat x)"
  have e: "e = le_bytes 4 (of_nat (length ?b) :: u32) @ ?b"
    using assms(1,2) by (simp add: Let_def)
  have "unat (of_nat (length ?b) :: u32) = length ?b"
    using assms(3) e by (simp add: unat_of_nat)
  moreover have "\<not> (of_nat (length ?b + length r) :: u32) < of_nat (length ?b)"
    using assms(3) e by (simp add: word_less_nat_alt unat_of_nat del: of_nat_add)
  ultimately show ?thesis
    using assms e by (simp add: DecodeBig_def)
qed

lemma Decode_pbig_enc:
  "0 \<le> x \<Longrightarrow> EncodeBig (Some x) = Some e \<Longrightarrow> length (e @ r) < 2 ^ 32 \<Longrightarrow>
   Decode_pbig (Some old) (e @ r) = DOk (Some x) r"
  using DecodeBig_enc [of x e r old] by simp

text \<open>A signature can be encoded when both numbers are there; \<open>ecdsa.Sign\<close> makes them
  positive.\<close>

definition RCSign_wf :: "RCSign \<Rightarrow> bool" where
  "RCSign_wf s \<longleftrightarrow> (\<exists>r t. sig_R s = Some r \<and> sig_S s = Some t \<and> 0 \<le> r \<and> 0 \<le> t)"

lemma SignToData_wf: "RCSign_wf s \<Longrightarrow> \<exists>e. SignToData s = Some e"
  by (auto simp: RCSign_wf_def SignToData_def EncodeDoubleBig_def Let_def)

lemma DataToSign_enc:
  assumes "RCSign_wf s" and "SignToData s = Some e" and "length (e @ r) < 2 ^ 32"
  shows "DataToSign old (e @ r) = DOk s r"
proof -
  from assms(1) obtain x y where xy: "sig_R s = Some x" "sig_S s = Some y" "0 \<le> x" "0 \<le> y"
    by (auto simp: RCSign_wf_def)
  from assms(2) xy obtain a b where ab: "EncodeBig (Some x) = Some a" "EncodeBig (Some y) = Some b"
    and e: "e = a @ b"
    by (auto simp: SignToData_def EncodeDoubleBig_def seq_opt_Cons_Some simp del: EncodeBig.simps)
  have "Decode_pbig (Some 0) (a @ b @ r) = DOk (Some x) (b @ r)"
    by (rule Decode_pbig_enc) (use assms xy ab e in auto)
  moreover have "Decode_pbig (Some 0) (b @ r) = DOk (Some y) r"
    by (rule Decode_pbig_enc) (use assms xy ab e in auto)
  ultimately show ?thesis
    using xy by (simp add: DataToSign_def DecodeDoubleBig_def decoder_defs e del: Decode_pbig.simps)
qed

lemma DecodeInt_old: "DecodeInt n c old b = DOk v r \<Longrightarrow> DecodeInt n c old' b = DOk v r"
  by (simp add: DecodeInt_def split: if_splits)

lemma Decode_arr_old: "Decode_arr l old b = DOk v r \<Longrightarrow> Decode_arr l old' b = DOk v r"
  by (simp add: Decode_arr_def DecodeByteL_def split: if_splits)

interpretation u32_codec: field_codec "\<lambda>_. True" "\<lambda>x. Encode (VU32 x)" Decode_u32 id 0
  by unfold_locales (auto simp: Decode_u32_def DecodeInt_small dest: DecodeInt_old)

interpretation hash_codec: field_codec "\<lambda>_. True" "\<lambda>h. Encode (P32 h)" Decode_hash id 0
  by unfold_locales (auto dest: Decode_arr_old)

interpretation shash_codec: field_codec "\<lambda>_. True" "\<lambda>h. Encode (PShash h)" Decode_shash id 0
  by unfold_locales (auto dest: Decode_arr_old)

interpretation sign_codec: field_codec RCSign_wf "\<lambda>s. Encode (PSign s)" DataToSign id RCSign_zero
proof
  fix s e r
  assume "RCSign_wf s" and "Encode (PSign s) = Some e" and "length (e @ r) < 2 ^ 32"
  then show "DataToSign RCSign_zero (e @ r) = DOk (id s) r"
    by (simp add: DataToSign_enc)
next
  fix b v r old
  assume "DataToSign RCSign_zero b = DOk v r"
  then show "DataToSign old b = DOk v r" by (simp add: DataToSign_def)
qed (simp add: SignToData_wf)

section \<open>Decoders that never panic\<close>

definition safe_dec :: "'s dec \<Rightarrow> bool" where
  "safe_dec d \<longleftrightarrow> (\<forall>s b. d s b \<noteq> DPanic)"

named_theorems safe_intros \<open>decoders that return an error instead of panicking\<close>

lemma safe_steps [safe_intros]: "list_all safe_dec ds \<Longrightarrow> safe_dec (steps ds)"
proof (induction ds)
  case (Cons d ds)
  then show ?case by (auto simp: safe_dec_def split: dres.splits)
qed (simp add: safe_dec_def)

lemma safe_fieldS [safe_intros]: "(\<And>s. safe_dec (d s)) \<Longrightarrow> safe_dec (fieldS g u d)"
  by (auto simp: safe_dec_def fieldS_def split: dres.splits)

lemma safe_wrapD [safe_intros]: "safe_dec d \<Longrightarrow> safe_dec (wrapD l d)"
  by (auto simp: safe_dec_def wrapD_def split: dres.splits)

lemma safe_field [safe_intros]: "safe_dec d \<Longrightarrow> safe_dec (field g u l d)"
  by (simp add: field_def safe_fieldS safe_wrapD)

lemma safe_whenD [safe_intros]: "safe_dec d \<Longrightarrow> safe_dec (whenD p d)"
  by (auto simp: safe_dec_def whenD_def)

lemma safe_setD [safe_intros]: "safe_dec (setD f)"
  by (simp add: safe_dec_def setD_def)

lemma safe_no_extra [safe_intros]: "safe_dec (no_extra l)"
  by (simp add: safe_dec_def no_extra_def)

lemma dec_list_safe: "safe_dec d \<Longrightarrow> dec_list wr i d xs b \<noteq> DPanic"
  by (induction xs arbitrary: i b) (auto simp: safe_dec_def split: dres.splits)

lemma dec_append_safe: "safe_dec d \<Longrightarrow> dec_append wr d z i n acc b \<noteq> DPanic"
  by (induction n arbitrary: i acc b) (auto simp: safe_dec_def split: dres.splits)

lemma safe_make_array [safe_intros]: "safe_dec d \<Longrightarrow> safe_dec (make_array wr n z d)"
  by (simp add: safe_dec_def make_array_def dec_list_safe [unfolded safe_dec_def])

lemma safe_append_array [safe_intros]: "safe_dec d \<Longrightarrow> safe_dec (append_array wr n z d)"
  by (simp add: safe_dec_def append_array_def dec_append_safe [unfolded safe_dec_def])

lemma safe_DecodeInt: "safe_dec (DecodeInt n c)"
  by (simp add: safe_dec_def DecodeInt_def)

lemma safe_prims [safe_intros]:
  "safe_dec Decode_u32" "safe_dec Decode_u64" "safe_dec Decode_i64" "safe_dec Decode_bool"
  "safe_dec (Decode_arr l)" "safe_dec Decode_other" "safe_dec DecodeBig"
  by (simp_all add: Decode_u32_def Decode_u64_def Decode_i64_def Decode_bool_def safe_DecodeInt)
     (simp_all add: safe_dec_def Decode_arr_def DecodeByteL_def DecodeBig_def Decode_u32_def
        DecodeInt_def Decode_other_def split: dres.splits)

lemma safe_DataToSign [safe_intros]: "safe_dec DataToSign"
proof -
  have "safe_dec DecodeBig" by (rule safe_prims)
  then show ?thesis
    by (auto simp: safe_dec_def DataToSign_def DecodeDoubleBig_def decoder_defs split: dres.splits)
qed

section \<open>Decoders whose error the caller drops\<close>

definition ignoreD :: "'v dec \<Rightarrow> 'v dec" where
  "ignoreD d v b = (case d v b of DErr v' b' e \<Rightarrow> DOk v' b' | r \<Rightarrow> r)"

text \<open>The target after a call, whatever it returned.\<close>

fun dres_val :: "'s dres \<Rightarrow> 's option" where
  "dres_val (DOk v b) = Some v"
| "dres_val (DErr v b e) = Some v"
| "dres_val DPanic = None"

lemma ignoreD_ok: "d v b = DOk v' b' \<Longrightarrow> ignoreD d v b = DOk v' b'"
  by (simp add: ignoreD_def)

lemma safe_ignoreD [safe_intros]: "safe_dec d \<Longrightarrow> safe_dec (ignoreD d)"
  by (auto simp: safe_dec_def ignoreD_def split: dres.splits)

end
