(* ===== verification/Tx.thy ===== *)
theory Tx
  imports Codec
begin

text \<open>
  Transactions: the structs of \<open>basic/struct.go\<close>, the inputs and outputs of
  \<open>basic/utxo.go\<close>, the transaction and the transaction batch of \<open>basic/tx.go\<close>, and the
  addresses of \<open>cryptonew\<close>. The wall clock is a parameter (\<open>now\<close>). ECDSA over P-256 is a
  parameter as well: \<open>sg rnd sk m\<close> is the signature of \<open>m\<close> under \<open>sk\<close> with the randomness
  \<open>rnd\<close>, \<open>vf pk m r s\<close> is the verification; \<open>ecdsa_ok\<close> is the documented contract of the two.
\<close>

section \<open>Keys, signatures and addresses\<close>

record PublicKey =
  pk_X :: "int option"
  pk_Y :: "int option"

record PrivateKey =
  sk_Puk :: PublicKey
  sk_D :: int

type_synonym signer = "nat \<Rightarrow> PrivateKey \<Rightarrow> bytes \<Rightarrow> int \<times> int"
type_synonym verifier = "PublicKey \<Rightarrow> bytes \<Rightarrow> int \<Rightarrow> int \<Rightarrow> bool"

text \<open>A signature verifies under the public key of its private key, and its numbers are
  not negative.\<close>

definition ecdsa_ok :: "signer \<Rightarrow> verifier \<Rightarrow> bool" where
  "ecdsa_ok sg vf \<longleftrightarrow> (\<forall>rnd sk m r s. sg rnd sk m = (r, s) \<longrightarrow>
     vf (sk_Puk sk) m r s \<and> 0 \<le> r \<and> 0 \<le> s)"

definition RCSign_Sign :: "signer \<Rightarrow> nat \<Rightarrow> bytes \<Rightarrow> PrivateKey \<Rightarrow> RCSign" where
  "RCSign_Sign sg rnd b prk =
     (case sg rnd prk b of (r, s) \<Rightarrow> \<lparr>sig_R = Some r, sig_S = Some s\<rparr>)"

text \<open>\<open>ecdsa.Verify\<close> dereferences both numbers.\<close>

definition RCSign_Verify :: "verifier \<Rightarrow> RCSign \<Rightarrow> bytes \<Rightarrow> PublicKey \<Rightarrow> bool option" where
  "RCSign_Verify vf a b puk =
     (case (sig_R a, sig_S a) of (Some r, Some s) \<Rightarrow> Some (vf puk b r s) | _ \<Rightarrow> None)"

text \<open>\<open>a.New(b)\<close> copies the numbers, dereferencing both pointers of \<open>b\<close>.\<close>

definition RCSign_New :: "RCSign \<Rightarrow> RCSign option" where
  "RCSign_New b = (case (sig_R b, sig_S b) of (Some r, Some s) \<Rightarrow> Some b | _ \<Rightarrow> None)"

definition big_Bytes :: "int option \<Rightarrow> bytes option" where
  "big_Bytes x = map_option (\<lambda>v. nat_bytes (nat \<bar>v\<bar>)) x"

definition GenerateAddr :: "PublicKey \<Rightarrow> hash option" where
  "GenerateAddr puk = map_option Sum256 (seq_opt [big_Bytes (pk_X puk), big_Bytes (pk_Y puk)])"

definition AddressGenerate :: "PrivateKey \<Rightarrow> hash option" where
  "AddressGenerate priv = GenerateAddr (sk_Puk priv)"

definition cryptonew_Verify :: "PublicKey \<Rightarrow> hash \<Rightarrow> bool option" where
  "cryptonew_Verify puk addr = map_option (\<lambda>tmp. tmp = addr) (GenerateAddr puk)"

lemma RCSign_Sign_wf: "ecdsa_ok sg vf \<Longrightarrow> RCSign_wf (RCSign_Sign sg rnd b sk)"
  by (auto simp: ecdsa_ok_def RCSign_wf_def RCSign_Sign_def split: prod.splits)

lemma RCSign_Verify_Sign:
  "ecdsa_ok sg vf \<Longrightarrow> RCSign_Verify vf (RCSign_Sign sg rnd b sk) b (sk_Puk sk) = Some True"
  by (auto simp: ecdsa_ok_def RCSign_Sign_def RCSign_Verify_def split: prod.splits)

lemma RCSign_New_Sign [simp]:
  "RCSign_New (RCSign_Sign sg rnd b sk) = Some (RCSign_Sign sg rnd b sk)"
  by (simp add: RCSign_New_def RCSign_Sign_def split: prod.splits)

section \<open>Inputs and outputs (\<open>basic/utxo.go\<close>)\<close>

record OutType =
  out_Value :: u32
  out_Address :: hash

record InType =
  in_PrevTx :: hash
  in_Index :: u32
  in_Sig :: RCSign
  in_PukX :: "int option"
  in_PukY :: "int option"

definition OutType_zero :: OutType where
  "OutType_zero = \<lparr>out_Value = 0, out_Address = 0\<rparr>"

definition InType_zero :: InType where
  "InType_zero = \<lparr>in_PrevTx = 0, in_Index = 0, in_Sig = RCSign_zero, in_PukX = None, in_PukY = None\<rparr>"

definition InType_Init :: "InType \<Rightarrow> InType" where
  "InType_Init a = a\<lparr>in_PukX := Some 0, in_PukY := Some 0\<rparr>"

definition InType_Acc :: "InType \<Rightarrow> bool" where
  "InType_Acc a = True"

text \<open>The number of shards and the size of a shard (\<open>gVar/global_variable.go\<close>).\<close>

definition ShardCnt :: u32 where "ShardCnt = 1"

definition ShardSize :: u32 where "ShardSize = 20"

text \<open>\<open>str[0]\<close>, the first byte of an address.\<close>

definition byte0 :: "hash \<Rightarrow> byte" where
  "byte0 h = ucast (drop_bit 248 h)"

definition ShardIndex :: "hash \<Rightarrow> u32" where
  "ShardIndex str = ucast (byte0 str) mod ShardCnt"

definition InType_ShardIndex :: "InType \<Rightarrow> u32" where
  "InType_ShardIndex a = ucast (byte0 (in_PrevTx a)) mod ShardCnt"

definition OutType_ShardIndex :: "OutType \<Rightarrow> u32" where
  "OutType_ShardIndex a = ucast (byte0 (out_Address a)) mod ShardCnt"

definition InType_Byte :: "InType \<Rightarrow> bytes" where
  "InType_Byte a = append_or_drop (EncodeByteL (be_bytes 32 (in_PrevTx a)) 32)
                   @ append_or_drop (EncodeInt (VU32 (in_Index a)))"

definition InType_Puk :: "InType \<Rightarrow> PublicKey" where
  "InType_Puk a = \<lparr>pk_X = in_PukX a, pk_Y = in_PukY a\<rparr>"

definition VerifyIn :: "verifier \<Rightarrow> InType \<Rightarrow> OutType \<Rightarrow> hash \<Rightarrow> bool option" where
  "VerifyIn vf a b h =
     (case cryptonew_Verify (InType_Puk a) (out_Address b) of
        None \<Rightarrow> None
      | Some False \<Rightarrow> Some False
      | Some True \<Rightarrow> RCSign_Verify vf (in_Sig a) (be_bytes 32 h) (InType_Puk a))"

text \<open>\<open>a.PukX.Set(prk.X)\<close> writes through the pointers of the input and reads those of the
  key.\<close>

definition SignTxIn :: "signer \<Rightarrow> nat \<Rightarrow> InType \<Rightarrow> PrivateKey \<Rightarrow> hash \<Rightarrow> InType option" where
  "SignTxIn sg rnd a prk h =
     (case (in_PukX a, in_PukY a, pk_X (sk_Puk prk), pk_Y (sk_Puk prk)) of
        (Some _, Some _, Some x, Some y) \<Rightarrow>
          Some (a\<lparr>in_PukX := Some x, in_PukY := Some y,
                  in_Sig := RCSign_Sign sg rnd (be_bytes 32 h) prk\<rparr>)
      | _ \<Rightarrow> None)"

definition OutToData :: "OutType \<Rightarrow> bytes" where
  "OutToData a = le_bytes 4 (out_Value a) @ be_bytes 32 (out_Address a)"

definition DataToOut :: "OutType dec" where
  "DataToOut = steps
    [field out_Value out_Value_update ''Out Value read failed'' Decode_u32,
     field out_Address out_Address_update ''Out Address read failed'' Decode_hash]"

definition InToData :: "InType \<Rightarrow> bytes option" where
  "InToData a = seq_opt (map Encode
     [P32 (in_PrevTx a), VU32 (in_Index a), PSign (in_Sig a), PBig (in_PukX a), PBig (in_PukY a)])"

definition DataToIn :: "InType dec" where
  "DataToIn = steps
    [setD InType_Init,
     field in_PrevTx in_PrevTx_update ''Input PrevHash read failed'' Decode_hash,
     field in_Index in_Index_update ''Input Index read failed'' Decode_u32,
     field in_Sig in_Sig_update ''Input Signature read failed'' DataToSign,
     field in_PukX in_PukX_update ''Input Publick Key read failed'' Decode_pbig,
     field in_PukY in_PukY_update ''Input Publick Key read failed'' Decode_pbig]"

text \<open>An input that can be sent: signed, with both coordinates of the key.\<close>

definition InType_wf :: "InType \<Rightarrow> bool" where
  "InType_wf a \<longleftrightarrow> RCSign_wf (in_Sig a)
     \<and> (\<exists>x y. in_PukX a = Some x \<and> in_PukY a = Some y \<and> 0 \<le> x \<and> 0 \<le> y)"

lemma length_InType_Byte [simp]: "length (InType_Byte a) = 36"
  by (simp add: InType_Byte_def EncodeByteL_def append_or_drop_def)

lemma InType_Byte_eq: "InType_Byte a = be_bytes 32 (in_PrevTx a) @ le_bytes 4 (in_Index a)"
  by (simp add: InType_Byte_def EncodeByteL_def append_or_drop_def)

lemma InType_Byte_inj: "InType_Byte a = InType_Byte b \<longleftrightarrow> in_PrevTx a = in_PrevTx b \<and> in_Index a = in_Index b"
  by (simp add: InType_Byte_eq)

lemma length_OutToData [simp]: "length (OutToData a) = 36"
  by (simp add: OutToData_def)

lemma OutToData_inj: "OutToData a = OutToData b \<longleftrightarrow> a = b"
  by (cases a; cases b) (auto simp: OutToData_def)

interpretation out_codec: codec "\<lambda>_. True" "\<lambda>a. Some (OutToData a)" DataToOut id OutType_zero
  by unfold_locales (auto simp: DataToOut_def OutToData_def decoder_defs)

lemma InToData_wf: "InType_wf a \<Longrightarrow> \<exists>e. InToData a = Some e"
  unfolding InToData_def
  by (rule seq_opt_total) (auto simp: InType_wf_def Let_def dest: SignToData_wf)

lemma DataToIn_enc:
  assumes wf: "InType_wf a" and enc: "InToData a = Some e" and len: "length (e @ r) < 2 ^ 32"
  shows "DataToIn InType_zero (e @ r) = DOk a r"
proof -
  from wf obtain x y where xy: "in_PukX a = Some x" "in_PukY a = Some y" "0 \<le> x" "0 \<le> y"
    and rs: "RCSign_wf (in_Sig a)" by (auto simp: InType_wf_def)
  from enc xy obtain s px py where s: "SignToData (in_Sig a) = Some s"
    and px: "EncodeBig (Some x) = Some px" and py: "EncodeBig (Some y) = Some py"
    and e: "e = be_bytes 32 (in_PrevTx a) @ le_bytes 4 (in_Index a) @ s @ px @ py"
    by (auto simp: InToData_def seq_opt_Cons_Some simp del: EncodeBig.simps)
  have "DataToSign old (s @ px @ py @ r) = DOk (in_Sig a) (px @ py @ r)" for old
    by (rule DataToSign_enc [OF rs s]) (use len e in simp)
  moreover have "Decode_pbig (Some 0) (px @ py @ r) = DOk (Some x) (py @ r)"
    by (rule Decode_pbig_enc [OF xy(3) px]) (use len e in simp)
  moreover have "Decode_pbig (Some 0) (py @ r) = DOk (Some y) r"
    by (rule Decode_pbig_enc [OF xy(4) py]) (use len e in simp)
  ultimately show ?thesis
    using len xy by (simp add: DataToIn_def decoder_defs e InType_Init_def del: Decode_pbig.simps)
qed

interpretation in_codec: codec InType_wf InToData DataToIn id InType_zero
  by unfold_locales (simp_all add: InToData_wf DataToIn_enc del: length_append)

lemma safe_DataToOut [safe_intros]: "safe_dec DataToOut"
  by (auto simp: DataToOut_def intro!: safe_intros)

text \<open>Both key pointers are set before they are written through, so \<open>DataToIn\<close> cannot
  panic although the decoder of a \<open>*big.Int\<close> can.\<close>

lemma safe_DataToIn [safe_intros]: "safe_dec DataToIn"
proof -
  have "safe_dec DataToSign" "safe_dec Decode_u32" "safe_dec Decode_hash" "safe_dec DecodeBig"
    by (intro safe_intros)+
  then show ?thesis
    by (auto simp: safe_dec_def DataToIn_def decoder_defs InType_Init_def split: dres.splits)
qed

section \<open>Transactions (\<open>basic/tx.go\<close>)\<close>

record Transaction =
  tx_Timestamp :: u64
  tx_TxinCnt :: u32
  tx_In :: "InType list"
  tx_TxoutCnt :: u32
  tx_Out :: "OutType list"
  tx_Kind :: u32
  tx_Locktime :: u32
  tx_Hash :: hash

definition Transaction_zero :: Transaction where
  "Transaction_zero = \<lparr>tx_Timestamp = 0, tx_TxinCnt = 0, tx_In = [], tx_TxoutCnt = 0, tx_Out = [],
     tx_Kind = 0, tx_Locktime = 0, tx_Hash = 0\<rparr>"

text \<open>What the hash of a transaction is taken of; \<open>None\<close> is an index out of range when a
  count is larger than its slice.\<close>

definition HashTx_data :: "Transaction \<Rightarrow> bytes option" where
  "HashTx_data a = seq_opt
    [Some (append_or_drop (EncodeInt (VU64 (tx_Timestamp a)))),
     Some (append_or_drop (EncodeInt (VU32 (tx_TxinCnt a)))),
     Some (append_or_drop (EncodeInt (VU32 (tx_TxoutCnt a)))),
     Some (append_or_drop (EncodeInt (VU32 (tx_Kind a)))),
     Some (append_or_drop (EncodeInt (VU32 (tx_Locktime a)))),
     for_upto (\<lambda>x. Some (InType_Byte x)) (unat (tx_TxinCnt a)) (tx_In a),
     for_upto (\<lambda>x. Some (OutToData x)) (unat (tx_TxoutCnt a)) (tx_Out a)]"

definition HashTx :: "Transaction \<Rightarrow> hash option" where
  "HashTx a = map_option DoubleHash256 (HashTx_data a)"

text \<open>Methods that return an error and change the receiver: the error and the new state,
  or \<open>None\<close> for a panic.\<close>

definition SignTx :: "signer \<Rightarrow> nat \<Rightarrow> Transaction \<Rightarrow> u32 \<Rightarrow> PrivateKey \<Rightarrow> (error option \<times> Transaction) option" where
  "SignTx sg rnd a i prk =
     (if tx_TxinCnt a \<le> i then Some (Some (Msg ''Tx.SignTx in-address outrange''), a)
      else case idx (tx_In a) (unat i) of
        None \<Rightarrow> None
      | Some x \<Rightarrow> map_option (\<lambda>y. (None, a\<lparr>tx_In := (tx_In a)[unat i := y]\<rparr>))
                    (SignTxIn sg rnd x prk (tx_Hash a)))"

definition VerifyTx :: "verifier \<Rightarrow> Transaction \<Rightarrow> u32 \<Rightarrow> OutType \<Rightarrow> bool option" where
  "VerifyTx vf a i b =
     (if tx_TxinCnt a \<le> i then Some False
      else case idx (tx_In a) (unat i) of None \<Rightarrow> None | Some x \<Rightarrow> VerifyIn vf x b (tx_Hash a))"

definition Transaction_Encode :: "Transaction \<Rightarrow> bytes option" where
  "Transaction_Encode a = seq_opt
    (map Encode [VU64 (tx_Timestamp a), VU32 (tx_TxinCnt a), VU32 (tx_TxoutCnt a),
                 VU32 (tx_Kind a), VU32 (tx_Locktime a), P32 (tx_Hash a)]
     @ [for_upto InToData (unat (tx_TxinCnt a)) (tx_In a),
        for_upto (\<lambda>x. Some (OutToData x)) (unat (tx_TxoutCnt a)) (tx_Out a)])"

definition Transaction_Decode :: "Transaction dec" where
  "Transaction_Decode = steps
    [field tx_Timestamp tx_Timestamp_update ''TX timestamp Read failed'' Decode_u64,
     field tx_TxinCnt tx_TxinCnt_update ''TX TxinCnt Read failed'' Decode_u32,
     field tx_TxoutCnt tx_TxoutCnt_update ''TX TxoutCnt Read failed'' Decode_u32,
     field tx_Kind tx_Kind_update ''TX Kind Read failed'' Decode_u32,
     field tx_Locktime tx_Locktime_update ''TX Locktime Read failed'' Decode_u32,
     field tx_Hash tx_Hash_update ''TX hash Read failed'' Decode_hash,
     fieldS tx_In tx_In_update (\<lambda>a. append_array (WrapAt ''Input Address Read failed'')
       (unat (tx_TxinCnt a)) InType_zero DataToIn),
     fieldS tx_Out tx_Out_update (\<lambda>a. append_array (WrapAt ''Output Address Read failed'')
       (unat (tx_TxoutCnt a)) OutType_zero DataToOut)]"

text \<open>\<open>Transaction.New\<close>: the time in seconds and the first 64-bit output of the seeded
  generator are parameters.\<close>

definition Transaction_New :: "Transaction \<Rightarrow> u64 \<Rightarrow> u64 \<Rightarrow> u32 \<Rightarrow> u32 \<Rightarrow> Transaction" where
  "Transaction_New a now rnd kind writer =
     a\<lparr>tx_Timestamp := now + rnd, tx_Locktime := writer * 10, tx_TxinCnt := 0, tx_TxoutCnt := 0,
       tx_Kind := kind\<rparr>"

text \<open>\<open>MakeTx\<close> on a non-nil target. The counts are \<open>uint32\<close>, and the loops copy that many
  elements.\<close>

definition MakeTx :: "u64 \<Rightarrow> InType list \<Rightarrow> OutType list \<Rightarrow> Transaction \<Rightarrow> u32 \<Rightarrow> Transaction option" where
  "MakeTx now a b out kind =
     (let o1 = out\<lparr>tx_Timestamp := now, tx_TxinCnt := of_nat (length a),
                   tx_TxoutCnt := of_nat (length b), tx_Kind := kind\<rparr>;
          o2 = o1\<lparr>tx_In := take (unat (tx_TxinCnt o1)) a, tx_Out := take (unat (tx_TxoutCnt o1)) b\<rparr>
      in map_option (\<lambda>h. o2\<lparr>tx_Hash := h\<rparr>) (HashTx o2))"

definition AddIn :: "Transaction \<Rightarrow> InType \<Rightarrow> Transaction" where
  "AddIn a b = a\<lparr>tx_TxinCnt := tx_TxinCnt a + 1, tx_In := tx_In a @ [b]\<rparr>"

definition AddOut :: "Transaction \<Rightarrow> OutType \<Rightarrow> Transaction" where
  "AddOut a b = a\<lparr>tx_TxoutCnt := tx_TxoutCnt a + 1, tx_Out := tx_Out a @ [b]\<rparr>"

record TransactionBatch =
  batch_TxCnt :: u32
  batch_TxArray :: "Transaction list"

definition TransactionBatch_zero :: TransactionBatch where
  "TransactionBatch_zero = \<lparr>batch_TxCnt = 0, batch_TxArray = []\<rparr>"

text \<open>\<open>make([]Transaction, a.TxCnt)\<close> and \<open>copy\<close>, with the count reduced to 32 bits.\<close>

definition TransactionBatch_New :: "Transaction list \<Rightarrow> TransactionBatch" where
  "TransactionBatch_New b =
     (let n = of_nat (length b) :: u32 in \<lparr>batch_TxCnt = n, batch_TxArray = take (unat n) b\<rparr>)"

definition TransactionBatch_Add :: "TransactionBatch \<Rightarrow> Transaction \<Rightarrow> TransactionBatch" where
  "TransactionBatch_Add a b = \<lparr>batch_TxCnt = batch_TxCnt a + 1, batch_TxArray = batch_TxArray a @ [b]\<rparr>"

definition TransactionBatch_Encode :: "TransactionBatch \<Rightarrow> bytes option" where
  "TransactionBatch_Encode a = seq_opt
    [Encode (VU32 (batch_TxCnt a)),
     for_upto Transaction_Encode (unat (batch_TxCnt a)) (batch_TxArray a)]"

definition TransactionBatch_Decode :: "TransactionBatch dec" where
  "TransactionBatch_Decode = steps
    [field batch_TxCnt batch_TxCnt_update ''TxBatch failed'' Decode_u32,
     fieldS batch_TxArray batch_TxArray_update (\<lambda>a. make_array (\<lambda>_. Wrap ''TxBatch failed'')
       (unat (batch_TxCnt a)) Transaction_zero Transaction_Decode)]"

subsection \<open>Well-formed transactions\<close>

definition Transaction_wf :: "Transaction \<Rightarrow> bool" where
  "Transaction_wf a \<longleftrightarrow> length (tx_In a) = unat (tx_TxinCnt a) \<and> length (tx_Out a) = unat (tx_TxoutCnt a)
     \<and> list_all InType_wf (tx_In a)"

definition TransactionBatch_wf :: "TransactionBatch \<Rightarrow> bool" where
  "TransactionBatch_wf a \<longleftrightarrow> length (batch_TxArray a) = unat (batch_TxCnt a)
     \<and> list_all Transaction_wf (batch_TxArray a)"

text \<open>The counts alone, which is what hashing needs.\<close>

definition Transaction_cnt :: "Transaction \<Rightarrow> bool" where
  "Transaction_cnt a \<longleftrightarrow> length (tx_In a) = unat (tx_TxinCnt a) \<and> length (tx_Out a) = unat (tx_TxoutCnt a)"

lemma Transaction_wf_cnt: "Transaction_wf a \<Longrightarrow> Transaction_cnt a"
  by (simp add: Transaction_wf_def Transaction_cnt_def)

lemma for_upto_unat:
  "length xs = unat n \<Longrightarrow> for_upto f (unat n) xs = seq_opt (map f xs)"
  by (metis for_upto_all)

lemma unat_Suc_word: "length xs = unat (n :: 'a::len word) \<Longrightarrow> Suc (length xs) < 2 ^ LENGTH('a) \<Longrightarrow> unat (n + 1) = Suc (length xs)"
  by (simp add: unat_word_ariths)

lemma AddIn_cnt: "Transaction_cnt a \<Longrightarrow> Suc (length (tx_In a)) < 2 ^ 32 \<Longrightarrow> Transaction_cnt (AddIn a x)"
  using unat_Suc_word [of "tx_In a" "tx_TxinCnt a"] by (simp add: Transaction_cnt_def AddIn_def)

lemma AddOut_cnt: "Transaction_cnt a \<Longrightarrow> Suc (length (tx_Out a)) < 2 ^ 32 \<Longrightarrow> Transaction_cnt (AddOut a x)"
  using unat_Suc_word [of "tx_Out a" "tx_TxoutCnt a"] by (simp add: Transaction_cnt_def AddOut_def)

lemma TransactionBatch_New_wf:
  "list_all Transaction_wf b \<Longrightarrow> length b < 2 ^ 32 \<Longrightarrow> TransactionBatch_wf (TransactionBatch_New b)"
  by (simp add: TransactionBatch_wf_def TransactionBatch_New_def Let_def unat_of_nat)

lemma Transaction_Encode_wf: "Transaction_wf a \<Longrightarrow> \<exists>e. Transaction_Encode a = Some e"
  using in_codec.enc_list_wf [of "tx_In a"]
  by (auto simp: Transaction_wf_def Transaction_Encode_def for_upto_unat)

lemma Transaction_Decode_enc:
  assumes wf: "Transaction_wf a" and enc: "Transaction_Encode a = Some e" and len: "length (e @ r) < 2 ^ 32"
  shows "Transaction_Decode old (e @ r) = DOk a r"
proof -
  from wf have cnt: "length (tx_In a) = unat (tx_TxinCnt a)" "length (tx_Out a) = unat (tx_TxoutCnt a)"
    and ins: "list_all InType_wf (tx_In a)" by (auto simp: Transaction_wf_def)
  from enc cnt obtain i where i: "seq_opt (map InToData (tx_In a)) = Some i"
    and e: "e = le_bytes 8 (tx_Timestamp a) @ le_bytes 4 (tx_TxinCnt a) @ le_bytes 4 (tx_TxoutCnt a)
      @ le_bytes 4 (tx_Kind a) @ le_bytes 4 (tx_Locktime a) @ be_bytes 32 (tx_Hash a)
      @ i @ concat (map OutToData (tx_Out a))"
    by (auto simp: Transaction_Encode_def for_upto_unat seq_opt_Cons_Some)
  have "append_array wr (unat (tx_TxinCnt a)) InType_zero DataToIn x
          (i @ concat (map OutToData (tx_Out a)) @ r) = DOk (tx_In a) (concat (map OutToData (tx_Out a)) @ r)" for wr x
    using in_codec.append_array_enc [OF ins i] len e cnt by simp
  moreover have "append_array wr (unat (tx_TxoutCnt a)) OutType_zero DataToOut x
          (concat (map OutToData (tx_Out a)) @ r) = DOk (tx_Out a) r" for wr x
    using out_codec.append_array_enc [of "tx_Out a"] len e cnt by (simp add: list_all_iff)
  ultimately show ?thesis
    using len by (simp add: Transaction_Decode_def fieldS_def field_def wrapD_def e)
qed

interpretation tx_codec: codec Transaction_wf Transaction_Encode Transaction_Decode id Transaction_zero
  by unfold_locales (simp_all add: Transaction_Encode_wf Transaction_Decode_enc del: length_append)

lemma TransactionBatch_Encode_wf: "TransactionBatch_wf a \<Longrightarrow> \<exists>e. TransactionBatch_Encode a = Some e"
  using tx_codec.enc_list_wf [of "batch_TxArray a"]
  by (auto simp: TransactionBatch_wf_def TransactionBatch_Encode_def for_upto_unat)

lemma TransactionBatch_Decode_enc:
  assumes wf: "TransactionBatch_wf a" and enc: "TransactionBatch_Encode a = Some e"
    and len: "length (e @ r) < 2 ^ 32"
  shows "TransactionBatch_Decode old (e @ r) = DOk a r"
proof -
  from wf have cnt: "length (batch_TxArray a) = unat (batch_TxCnt a)"
    and txs: "list_all Transaction_wf (batch_TxArray a)" by (auto simp: TransactionBatch_wf_def)
  from enc cnt obtain t where t: "seq_opt (map Transaction_Encode (batch_TxArray a)) = Some t"
    and e: "e = le_bytes 4 (batch_TxCnt a) @ t"
    by (auto simp: TransactionBatch_Encode_def for_upto_unat seq_opt_Cons_Some)
  have "make_array wr (unat (batch_TxCnt a)) Transaction_zero Transaction_Decode x (t @ r)
          = DOk (batch_TxArray a) r" for wr x
    using tx_codec.make_array_enc [OF txs t] len e cnt by simp
  then show ?thesis
    using len by (simp add: TransactionBatch_Decode_def fieldS_def field_def wrapD_def e)
qed

interpretation batch_codec: codec TransactionBatch_wf TransactionBatch_Encode TransactionBatch_Decode id
    TransactionBatch_zero
  by unfold_locales (simp_all add: TransactionBatch_Encode_wf TransactionBatch_Decode_enc del: length_append)

lemma safe_Transaction_Decode [safe_intros]: "safe_dec Transaction_Decode"
  unfolding Transaction_Decode_def by (auto intro!: safe_intros)

lemma safe_TransactionBatch_Decode [safe_intros]: "safe_dec TransactionBatch_Decode"
  unfolding TransactionBatch_Decode_def by (auto intro!: safe_intros)

subsection \<open>What the hash of a transaction binds\<close>

text \<open>The fields the hash covers: everything but the signatures and the public keys.\<close>

definition tx_payload ::
  "Transaction \<Rightarrow> u64 \<times> u32 \<times> u32 \<times> (hash \<times> u32) list \<times> OutType list" where
  "tx_payload a = (tx_Timestamp a, tx_Kind a, tx_Locktime a,
     map (\<lambda>i. (in_PrevTx i, in_Index i)) (tx_In a), tx_Out a)"

lemma HashTx_data_cnt:
  "Transaction_cnt a \<Longrightarrow> HashTx_data a = Some (le_bytes 8 (tx_Timestamp a) @ le_bytes 4 (tx_TxinCnt a)
     @ le_bytes 4 (tx_TxoutCnt a) @ le_bytes 4 (tx_Kind a) @ le_bytes 4 (tx_Locktime a)
     @ concat (map InType_Byte (tx_In a)) @ concat (map OutToData (tx_Out a)))"
  by (simp add: HashTx_data_def Transaction_cnt_def for_upto_unat append_or_drop_def)

lemma concat_map_eq:
  assumes "length xs = length ys" and "\<And>x. length (f x) = n"
  shows "concat (map f xs) = concat (map f ys) \<longleftrightarrow> map f xs = map f ys"
  by (rule concat_eq_concat_iff) (use assms in \<open>auto simp: set_zip\<close>)

lemma map_InType_Byte_eq:
  "map InType_Byte xs = map InType_Byte ys \<Longrightarrow>
   map (\<lambda>i. (in_PrevTx i, in_Index i)) xs = map (\<lambda>i. (in_PrevTx i, in_Index i)) ys"
proof (rule nth_equalityI)
  assume m: "map InType_Byte xs = map InType_Byte ys"
  then have l: "length xs = length ys" by (rule map_eq_imp_length_eq)
  then show "length (map (\<lambda>i. (in_PrevTx i, in_Index i)) xs) = length (map (\<lambda>i. (in_PrevTx i, in_Index i)) ys)"
    by simp
  fix i assume "i < length (map (\<lambda>i. (in_PrevTx i, in_Index i)) xs)"
  then have i: "i < length xs" by simp
  with l arg_cong [OF m, of "\<lambda>l. l ! i"] have "InType_Byte (xs ! i) = InType_Byte (ys ! i)" by simp
  with i l show "map (\<lambda>i. (in_PrevTx i, in_Index i)) xs ! i = map (\<lambda>i. (in_PrevTx i, in_Index i)) ys ! i"
    by (simp add: InType_Byte_inj)
qed

lemma HashTx_data_inj:
  assumes "Transaction_cnt a" and "Transaction_cnt b" and "HashTx_data a = HashTx_data b"
  shows "tx_payload a = tx_payload b"
proof -
  have eqs: "tx_Timestamp a = tx_Timestamp b" "tx_TxinCnt a = tx_TxinCnt b" "tx_TxoutCnt a = tx_TxoutCnt b"
    "tx_Kind a = tx_Kind b" "tx_Locktime a = tx_Locktime b"
    and c: "concat (map InType_Byte (tx_In a)) @ concat (map OutToData (tx_Out a))
      = concat (map InType_Byte (tx_In b)) @ concat (map OutToData (tx_Out b))"
    using assms(3) unfolding HashTx_data_cnt [OF assms(1)] HashTx_data_cnt [OF assms(2)]
    by (auto simp: append_eq_append_conv)
  have len: "length (tx_In a) = length (tx_In b)" "length (tx_Out a) = length (tx_Out b)"
    using assms(1,2) eqs by (simp_all add: Transaction_cnt_def)
  have fixed: "length (concat (map InType_Byte xs)) = 36 * length xs" for xs
    by (induction xs) auto
  from c len have "concat (map InType_Byte (tx_In a)) = concat (map InType_Byte (tx_In b))"
    "concat (map OutToData (tx_Out a)) = concat (map OutToData (tx_Out b))"
    by (simp_all add: append_eq_append_conv fixed)
  with len have "map InType_Byte (tx_In a) = map InType_Byte (tx_In b)"
    "map OutToData (tx_Out a) = map OutToData (tx_Out b)"
    by (simp_all add: concat_map_eq [where n = 36])
  then have "map (\<lambda>i. (in_PrevTx i, in_Index i)) (tx_In a) = map (\<lambda>i. (in_PrevTx i, in_Index i)) (tx_In b)"
    and "tx_Out a = tx_Out b"
    by (blast intro: map_InType_Byte_eq, simp add: inj_map_eq_map inj_def OutToData_inj)
  with eqs show ?thesis by (simp add: tx_payload_def)
qed

lemma HashTx_data_some: "Transaction_cnt a \<Longrightarrow> \<exists>m. HashTx_data a = Some m"
  by (simp add: HashTx_data_cnt)

section \<open>Properties\<close>

text \<open>A well-formed transaction survives the wire: decoding the bytes \<open>Encode\<close> wrote,
  followed by any other bytes of the packet, gives back the same transaction (whatever the
  target held before) and leaves exactly the other bytes in the buffer.\<close>

theorem Transaction_roundtrip:
  assumes "Transaction_wf a"
  shows "\<exists>e. Transaction_Encode a = Some e \<and>
    (\<forall>r old. length (e @ r) < 2 ^ 32 \<longrightarrow> Transaction_Decode old (e @ r) = DOk a r)"
  using Transaction_Encode_wf [OF assms] Transaction_Decode_enc [OF assms] by blast

definition sample_in :: InType where
  "sample_in = \<lparr>in_PrevTx = 7, in_Index = 3, in_Sig = \<lparr>sig_R = Some 300, sig_S = Some 5\<rparr>,
     in_PukX = Some 70000, in_PukY = Some 0\<rparr>"

definition sample_tx :: Transaction where
  "sample_tx = \<lparr>tx_Timestamp = 9, tx_TxinCnt = 1, tx_In = [sample_in], tx_TxoutCnt = 1,
     tx_Out = [\<lparr>out_Value = 3, out_Address = 11\<rparr>], tx_Kind = 0, tx_Locktime = 0, tx_Hash = 0\<rparr>"

lemma sample_tx_wf: "Transaction_wf sample_tx"
  by (simp add: Transaction_wf_def sample_tx_def sample_in_def InType_wf_def RCSign_wf_def)

theorem Transaction_roundtrip_witness:
  "Transaction_wf sample_tx \<and> (\<exists>e. Transaction_Encode sample_tx = Some e \<and>
    (\<forall>r old. length (e @ r) < 2 ^ 32 \<longrightarrow> Transaction_Decode old (e @ r) = DOk sample_tx r))"
  using sample_tx_wf Transaction_roundtrip [OF sample_tx_wf] by blast

text \<open>A batch of well-formed transactions survives the wire.\<close>

theorem TransactionBatch_roundtrip:
  assumes "list_all Transaction_wf txs" and "length txs < 2 ^ 32"
  shows "\<exists>e. TransactionBatch_Encode (TransactionBatch_New txs) = Some e \<and>
    (\<forall>r old. length (e @ r) < 2 ^ 32 \<longrightarrow>
      (\<exists>b. TransactionBatch_Decode old (e @ r) = DOk b r \<and> batch_TxArray b = txs
           \<and> unat (batch_TxCnt b) = length txs))"
proof -
  let ?b = "TransactionBatch_New txs"
  have wf: "TransactionBatch_wf ?b" using assms by (rule TransactionBatch_New_wf)
  obtain e where e: "TransactionBatch_Encode ?b = Some e"
    using TransactionBatch_Encode_wf [OF wf] by blast
  have "batch_TxArray ?b = txs" and "unat (batch_TxCnt ?b) = length txs"
    using assms(2) by (simp_all add: TransactionBatch_New_def Let_def unat_of_nat)
  with TransactionBatch_Decode_enc [OF wf e] e show ?thesis by blast
qed

theorem TransactionBatch_roundtrip_witness:
  "list_all Transaction_wf [sample_tx, sample_tx] \<and>
   (\<exists>e. TransactionBatch_Encode (TransactionBatch_New [sample_tx, sample_tx]) = Some e)"
proof -
  have w: "list_all Transaction_wf [sample_tx, sample_tx]" using sample_tx_wf by simp
  have l: "length [sample_tx, sample_tx] < 2 ^ 32" by simp
  show ?thesis using w TransactionBatch_roundtrip [OF w l] by blast
qed

text \<open>No packet, however malformed, makes the decoder of a transaction batch panic: it
  returns an error or a batch. (The decoders of transactions, inputs and outputs it runs on
  the buffer are covered by the same argument.)\<close>

theorem TransactionBatch_Decode_no_panic:
  "TransactionBatch_Decode old buf \<noteq> DPanic"
  using safe_TransactionBatch_Decode by (simp add: safe_dec_def)

text \<open>C5: The hash of a transaction binds its time, kind, lock time, the account and amount of
  every input and every output: two transactions with the same hash agree on all of them, or
  the two encodings that were hashed are a SHA-256 collision.\<close>

theorem HashTx_binding:
  assumes "Transaction_cnt a" and "Transaction_cnt b" and "HashTx a = HashTx b"
  shows "tx_payload a = tx_payload b \<or>
    (\<exists>x y. HashTx_data a = Some x \<and> HashTx_data b = Some y \<and> collision x y)"
proof -
  obtain x y where xy: "HashTx_data a = Some x" "HashTx_data b = Some y"
    using HashTx_data_some assms(1,2) by blast
  with assms(3) have "Sum256 x = Sum256 y" by (simp add: HashTx_def DoubleHash256_def)
  with xy HashTx_data_inj [OF assms(1,2)] Sum256_eqD show ?thesis by fastforce
qed

theorem HashTx_binding_witness:
  "Transaction_cnt sample_tx \<and> Transaction_cnt (sample_tx\<lparr>tx_Hash := 1\<rparr>) \<and>
   HashTx sample_tx = HashTx (sample_tx\<lparr>tx_Hash := 1\<rparr>) \<and>
   (tx_payload sample_tx = tx_payload (sample_tx\<lparr>tx_Hash := 1\<rparr>) \<or>
    (\<exists>x y. HashTx_data sample_tx = Some x \<and> HashTx_data (sample_tx\<lparr>tx_Hash := 1\<rparr>) = Some y \<and> collision x y))"
proof -
  have c: "Transaction_cnt sample_tx" "Transaction_cnt (sample_tx\<lparr>tx_Hash := 1\<rparr>)"
    by (simp_all add: Transaction_cnt_def sample_tx_def)
  have h: "HashTx sample_tx = HashTx (sample_tx\<lparr>tx_Hash := 1\<rparr>)"
    by (simp add: HashTx_def HashTx_data_def)
  show ?thesis using c h HashTx_binding [OF c h] by blast
qed

end
