(* ===== verification/Shard.thy ===== *)
theory Shard
  imports Tx "HOL-Library.List_Lexorder" "HOL-Library.Product_Lexorder" "HOL-Library.Multiset"
begin

text \<open>
  Members, their reputation and the assignment of members to shards (\<open>shard/\<close>, and the
  accounts of \<open>account/account.go\<close>). Go's \<open>int\<close> is an \<open>int\<close> here where it is an index, and
  \<open>int64\<close> values are 64-bit words read with \<open>sint\<close>. The random generator is a parameter: a
  function from its state to the next 64 bits and the new state. Scores of the leader election
  are \<open>float32\<close> values; their type, and the comparison \<open>>\<close> on them, which is false on NaN, are
  parameters of \<open>LeaderSort\<close>.
\<close>

unbundle bit_operations_syntax

section \<open>Accounts\<close>

record RcAcc =
  rc_Pri :: PrivateKey
  rc_Puk :: PublicKey
  rc_CosiPri :: bytes
  rc_CosiPuk :: bytes
  rc_Addr :: string
  rc_AddrReal :: hash
  rc_ID :: string
  rc_Rep :: int

text \<open>The freshly generated keys are parameters. \<open>base58\<close> renders the address for people.\<close>

definition RcAcc_New :: "(bytes \<Rightarrow> string) \<Rightarrow> PrivateKey \<Rightarrow> RcAcc \<Rightarrow> RcAcc option" where
  "RcAcc_New base58 key acc = map_option (\<lambda>addr. acc\<lparr>rc_Pri := key, rc_Puk := sk_Puk key,
     rc_AddrReal := addr, rc_Addr := base58 (be_bytes 32 addr)\<rparr>) (AddressGenerate key)"

definition RcAcc_NewCosi :: "bytes \<Rightarrow> bytes \<Rightarrow> RcAcc \<Rightarrow> RcAcc" where
  "RcAcc_NewCosi pubKey priKey acc = acc\<lparr>rc_CosiPri := priKey, rc_CosiPuk := pubKey\<rparr>"

definition RetPri :: "RcAcc \<Rightarrow> PrivateKey" where
  "RetPri acc = rc_Pri acc"

section \<open>Members\<close>

record MemShard =
  mem_Address :: string
  mem_PrivateAddress :: string
  mem_PublicAddress :: string
  mem_Rep :: i64
  mem_TotalRep :: "i64 list"
  mem_CosiPub :: bytes
  mem_Shard :: int
  mem_InShardId :: int
  mem_Role :: byte
  mem_Legal :: byte
  mem_RealAccount :: RcAcc
  mem_PreShard :: int
  mem_Bandwidth :: int

definition SlidingWindows :: nat where "SlidingWindows = 20"

definition NewMemShard :: "MemShard \<Rightarrow> RcAcc \<Rightarrow> string \<Rightarrow> int \<Rightarrow> MemShard" where
  "NewMemShard ms acc addr band = ms\<lparr>mem_Address := addr, mem_PrivateAddress := addr, mem_RealAccount := acc,
     mem_CosiPub := rc_CosiPuk acc, mem_Legal := 0, mem_Role := 1, mem_Rep := 0, mem_Bandwidth := band\<rparr>"

definition NewTotalRep :: "MemShard \<Rightarrow> MemShard" where
  "NewTotalRep ms = ms\<lparr>mem_TotalRep := []\<rparr>"

definition CopyTotalRepFromSB :: "MemShard \<Rightarrow> i64 list \<Rightarrow> MemShard" where
  "CopyTotalRepFromSB ms value = ms\<lparr>mem_TotalRep := value\<rparr>"

definition ClearTotalRep :: "MemShard \<Rightarrow> MemShard" where
  "ClearTotalRep ms = ms\<lparr>mem_TotalRep := map (\<lambda>_. 0) (mem_TotalRep ms)\<rparr>"

definition SetTotalRep :: "MemShard \<Rightarrow> i64 \<Rightarrow> MemShard" where
  "SetTotalRep ms value =
     (let w = (if length (mem_TotalRep ms) = SlidingWindows then drop 1 (mem_TotalRep ms) else mem_TotalRep ms)
      in ms\<lparr>mem_TotalRep := w @ [value]\<rparr>)"

definition AddRep :: "MemShard \<Rightarrow> i64 \<Rightarrow> MemShard" where
  "AddRep ms value = ms\<lparr>mem_Rep := mem_Rep ms + value\<rparr>"

definition CalTotalRep :: "MemShard \<Rightarrow> i64" where
  "CalTotalRep ms = foldl (+) 0 (mem_TotalRep ms)"

definition ClearRep :: "MemShard \<Rightarrow> MemShard" where
  "ClearRep ms = ms\<lparr>mem_Rep := 0\<rparr>"

section \<open>Sorting by reputation\<close>

record sortType =
  st_ID :: u32
  st_Rep :: i64
  st_Address :: string

text \<open>\<open>strings.Compare\<close>: lexicographic order of the bytes.\<close>

definition addr_key :: "string \<Rightarrow> nat list" where
  "addr_key s = map of_char s"

definition strings_Compare :: "string \<Rightarrow> string \<Rightarrow> int" where
  "strings_Compare a b = (if a = b then 0 else if addr_key a < addr_key b then - 1 else 1)"

definition CompareRep :: "sortType \<Rightarrow> sortType \<Rightarrow> int" where
  "CompareRep a b = (if sint (st_Rep a) > sint (st_Rep b) then 1
     else if sint (st_Rep b) > sint (st_Rep a) then - 1
     else strings_Compare (st_Address a) (st_Address b))"

text \<open>Indices are \<open>int\<close>; \<open>at\<close> is \<open>a[i]\<close> with the bounds check, \<open>quot2\<close> is the division by 2 that
  rounds to zero.\<close>

definition at :: "'a list \<Rightarrow> int \<Rightarrow> 'a option" where
  "at a i = (if 0 \<le> i then idx a (nat i) else None)"

definition quot2 :: "int \<Rightarrow> int" where
  "quot2 s = (if s < 0 then - ((- s) div 2) else s div 2)"

function scan_up :: "sortType list \<Rightarrow> sortType \<Rightarrow> int \<Rightarrow> int \<Rightarrow> int option" where
  "scan_up a x r i =
     (if i < r
      then case at a i of None \<Rightarrow> None
           | Some v \<Rightarrow> if CompareRep v x > 0 then scan_up a x r (i + 1) else Some i
      else Some i)"
  by pat_completeness auto
termination by (relation "measure (\<lambda>(a, x, r, i). nat (r - i))") auto

function scan_down :: "sortType list \<Rightarrow> sortType \<Rightarrow> int \<Rightarrow> int option" where
  "scan_down a x j =
     (if j > 0
      then case at a j of None \<Rightarrow> None
           | Some v \<Rightarrow> if CompareRep x v > 0 then scan_down a x (j - 1) else Some j
      else Some j)"
  by pat_completeness auto
termination by (relation "measure (\<lambda>(a, x, j). nat j)") auto

declare scan_up.simps [simp del] scan_down.simps [simp del]

definition swap :: "'a list \<Rightarrow> int \<Rightarrow> int \<Rightarrow> 'a list option" where
  "swap a i j = (case (at a i, at a j) of (Some y, Some z) \<Rightarrow> Some (a[nat i := z, nat j := y]) | _ \<Rightarrow> None)"

lemma scan_up_ge: "scan_up a x r i = Some i' \<Longrightarrow> i \<le> i'"
proof (induction a x r i rule: scan_up.induct)
  case (1 a x r i)
  show ?case using 1(2) by (subst (asm) scan_up.simps) (auto dest: 1(1) split: if_splits option.splits)
qed

lemma scan_down_le: "scan_down a x j = Some j' \<Longrightarrow> j' \<le> j"
proof (induction a x j rule: scan_down.induct)
  case (1 a x j)
  show ?case using 1(2) by (subst (asm) scan_down.simps) (auto dest: 1(1) split: if_splits option.splits)
qed

text \<open>The loop of the partition: the array and the two indices when they have crossed.\<close>

function partition_loop ::
  "sortType list \<Rightarrow> sortType \<Rightarrow> int \<Rightarrow> int \<Rightarrow> int \<Rightarrow> (sortType list \<times> int \<times> int) option" where
  "partition_loop a x r i j =
     (if i \<le> j
      then case scan_up a x r i of None \<Rightarrow> None
        | Some i' \<Rightarrow> (case scan_down a x j of None \<Rightarrow> None
          | Some j' \<Rightarrow> if i' \<le> j'
              then (case swap a i' j' of None \<Rightarrow> None | Some b \<Rightarrow> partition_loop b x r (i' + 1) (j' - 1))
              else Some (a, i', j'))
      else Some (a, i, j))"
  by pat_completeness auto
termination
  by (relation "measure (\<lambda>(a, x, r, i, j). nat (j - i + 1))") (auto dest!: scan_up_ge scan_down_le)

declare partition_loop.simps [simp del]

lemma partition_loop_cases:
  assumes "partition_loop a x r i j = Some (b, i', j')"
  obtains (over) "j < i" "b = a" "i' = i" "j' = j"
    | (crossed) "i \<le> j" "scan_up a x r i = Some i'" "scan_down a x j = Some j'" "j' < i'" "b = a"
    | (swapped) u d c where "i \<le> j" "scan_up a x r i = Some u" "scan_down a x j = Some d" "u \<le> d"
        "swap a u d = Some c" "partition_loop c x r (u + 1) (d - 1) = Some (b, i', j')"
  using assms by (subst (asm) partition_loop.simps) (auto split: if_splits option.splits)

lemma partition_loop_mono: "partition_loop a x r i j = Some (b, i', j') \<Longrightarrow> i \<le> i' \<and> j' \<le> j"
proof (induction a x r i j rule: partition_loop.induct)
  case (1 a x r i j)
  from 1(2) show ?case
  proof (cases rule: partition_loop_cases)
    case crossed
    then show ?thesis using scan_up_ge scan_down_le by blast
  next
    case (swapped u d c)
    then have "u + 1 \<le> i' \<and> j' \<le> d - 1" using 1(1) by blast
    then show ?thesis using scan_up_ge [OF swapped(2)] scan_down_le [OF swapped(3)] by simp
  qed simp
qed

lemma CompareRep_refl [simp]: "CompareRep x x = 0"
  by (simp add: CompareRep_def strings_Compare_def)

text \<open>The scans stop at an element that does not compare greater.\<close>

lemma scan_up_stop:
  "scan_up a x r i = Some i' \<Longrightarrow> i \<le> m \<Longrightarrow> at a m = Some v \<Longrightarrow> \<not> CompareRep v x > 0 \<Longrightarrow> i' \<le> m"
proof (induction a x r i rule: scan_up.induct)
  case (1 a x r i)
  from 1(2) consider "i' = i" | w where "i < r" "at a i = Some w" "CompareRep w x > 0" "scan_up a x r (i + 1) = Some i'"
    by (subst (asm) scan_up.simps) (auto split: if_splits option.splits)
  then show ?case
  proof cases
    case 2
    then have "i \<noteq> m" using 1(4,5) by auto
    with 1(1) [OF 2(1,2,3,4)] 1(3,4,5) show ?thesis by simp
  qed (use 1(3) in simp)
qed

lemma scan_down_stop:
  "scan_down a x j = Some j' \<Longrightarrow> m \<le> j \<Longrightarrow> at a m = Some v \<Longrightarrow> \<not> CompareRep x v > 0 \<Longrightarrow> m \<le> j'"
proof (induction a x j rule: scan_down.induct)
  case (1 a x j)
  from 1(2) consider "j' = j" | w where "0 < j" "at a j = Some w" "CompareRep x w > 0" "scan_down a x (j - 1) = Some j'"
    by (subst (asm) scan_down.simps) (auto split: if_splits option.splits)
  then show ?case
  proof cases
    case 2
    then have "j \<noteq> m" using 1(4,5) by auto
    with 1(1) [OF 2(1,2,3,4)] 1(3,4,5) show ?thesis by simp
  qed (use 1(3) in simp)
qed

lemma quot2_between: "0 \<le> l \<Longrightarrow> l < r \<Longrightarrow> l \<le> quot2 (l + r) \<and> quot2 (l + r) \<le> r"
  by (simp add: quot2_def) linarith

text \<open>The pivot stops both scans of the first round, so that each side gets shorter.\<close>

lemma partition_progress:
  assumes x: "at a (quot2 (l + r)) = Some x" and lr: "l < r" and p: "partition_loop a x r l r = Some (b, i, j)"
  shows "0 \<le> l \<and> l < i \<and> j < r"
proof -
  have "0 \<le> l"
  proof (rule ccontr)
    assume "\<not> 0 \<le> l"
    then have "scan_up a x r l = None" using lr by (subst scan_up.simps) (simp add: at_def)
    with p lr show False by (subst (asm) partition_loop.simps) simp
  qed
  note m = quot2_between [OF this lr]
  from p show ?thesis
  proof (cases rule: partition_loop_cases)
    case over
    with lr show ?thesis by simp
  next
    case crossed
    with scan_up_stop [OF crossed(2) _ x] scan_down_stop [OF crossed(3) _ x] m show ?thesis by simp
  next
    case (swapped u d c)
    with partition_loop_mono [OF swapped(6)] scan_up_ge [OF swapped(2)] scan_down_le [OF swapped(3)] \<open>0 \<le> l\<close>
    show ?thesis by simp
  qed
qed

function SortRep :: "sortType list \<Rightarrow> int \<Rightarrow> int \<Rightarrow> sortType list option" where
  "SortRep a l r =
     (case at a (quot2 (l + r)) of None \<Rightarrow> None
      | Some x \<Rightarrow>
          if l \<ge> r then Some a
          else case partition_loop a x r l r of None \<Rightarrow> None
          | Some (b, i, j) \<Rightarrow>
              (case (if i < r then SortRep b i r else Some b) of None \<Rightarrow> None
               | Some c \<Rightarrow> if l < j then SortRep c l j else Some c))"
  by pat_completeness auto
termination
  by (relation "measure (\<lambda>(a, l, r). nat (r - l))") (auto dest: partition_progress)

declare SortRep.simps [simp del]

section \<open>The sort is correct\<close>

definition rank :: "sortType \<Rightarrow> int \<times> nat list" where
  "rank a = (sint (st_Rep a), addr_key (st_Address a))"

lemma addr_key_inj: "addr_key a = addr_key b \<longleftrightarrow> a = b"
  by (simp add: addr_key_def inj_map_eq_map inj_def)

lemma CompareRep_rank: "CompareRep a b > 0 \<longleftrightarrow> rank b < rank a"
  by (auto simp: CompareRep_def strings_Compare_def rank_def addr_key_inj [symmetric] less_prod_def)

lemma at_Some: "at a i = Some v \<longleftrightarrow> 0 \<le> i \<and> nat i < length a \<and> a ! nat i = v"
  by (auto simp: at_def)

lemma at_in: "0 \<le> i \<Longrightarrow> i < int (length a) \<Longrightarrow> at a i = Some (a ! nat i)"
  by (simp add: at_Some nat_less_iff)

lemma scan_up_spec:
  assumes "0 \<le> i" and "r < int (length a)" and "i \<le> m" and "m \<le> r" and "rank (a ! nat m) \<le> rank x"
  shows "\<exists>u. scan_up a x r i = Some u \<and> i \<le> u \<and> u \<le> m \<and> rank (a ! nat u) \<le> rank x
    \<and> (\<forall>k. i \<le> k \<longrightarrow> k < u \<longrightarrow> rank x \<le> rank (a ! nat k))"
  using assms
proof (induction a x r i rule: scan_up.induct)
  case (1 a x r i)
  show ?case
  proof (cases "i < r \<and> rank x < rank (a ! nat i)")
    case True
    then have at: "at a i = Some (a ! nat i)" and gt: "CompareRep (a ! nat i) x > 0" and "i \<noteq> m"
      using 1(2,3,6) by (auto simp: at_in CompareRep_rank)
    then obtain u where "scan_up a x r (i + 1) = Some u" "i + 1 \<le> u" "u \<le> m" "rank (a ! nat u) \<le> rank x"
      "\<forall>k. i + 1 \<le> k \<longrightarrow> k < u \<longrightarrow> rank x \<le> rank (a ! nat k)"
      using 1(1) [OF _ at gt] True 1(2-6) by auto
    moreover from this have "rank x \<le> rank (a ! nat k)" if "i \<le> k" "k < u" for k
      using that True by (cases "k = i") auto
    ultimately show ?thesis using True at gt by (subst scan_up.simps) auto
  next
    case False
    then have "scan_up a x r i = Some i"
      using 1(2,3) by (subst scan_up.simps) (auto simp: at_in CompareRep_rank)
    moreover have "rank (a ! nat i) \<le> rank x" using False 1(4-6) by (cases "i = r") auto
    ultimately show ?thesis using 1(4) by auto
  qed
qed

lemma scan_down_spec:
  assumes "j < int (length a)" and "0 \<le> m" and "m \<le> j" and "rank x \<le> rank (a ! nat m)"
  shows "\<exists>d. scan_down a x j = Some d \<and> d \<le> j \<and> m \<le> d \<and> rank x \<le> rank (a ! nat d)
    \<and> (\<forall>k. d < k \<longrightarrow> k \<le> j \<longrightarrow> rank (a ! nat k) \<le> rank x)"
  using assms
proof (induction a x j rule: scan_down.induct)
  case (1 a x j)
  show ?case
  proof (cases "0 < j \<and> rank (a ! nat j) < rank x")
    case True
    then have at: "at a j = Some (a ! nat j)" and gt: "CompareRep x (a ! nat j) > 0" and "j \<noteq> m"
      using 1(2,5) by (auto simp: at_in CompareRep_rank)
    then obtain d where "scan_down a x (j - 1) = Some d" "d \<le> j - 1" "m \<le> d" "rank x \<le> rank (a ! nat d)"
      "\<forall>k. d < k \<longrightarrow> k \<le> j - 1 \<longrightarrow> rank (a ! nat k) \<le> rank x"
      using 1(1) [OF _ at gt] True 1(2-5) by auto
    moreover from this have "rank (a ! nat k) \<le> rank x" if "d < k" "k \<le> j" for k
      using that True by (cases "k = j") auto
    ultimately show ?thesis using True at gt by (subst scan_down.simps) auto
  next
    case False
    then have "scan_down a x j = Some j"
      using 1(2-4) by (subst scan_down.simps) (auto simp: at_in CompareRep_rank)
    moreover have "rank x \<le> rank (a ! nat j)" using False 1(3-5) by (cases "j = 0") auto
    ultimately show ?thesis using 1(4) by auto
  qed
qed

lemma swap_ok:
  assumes "0 \<le> i" and "i < int (length a)" and "0 \<le> j" and "j < int (length a)"
  obtains b where "swap a i j = Some b" "length b = length a" "mset b = mset a" "b ! nat i = a ! nat j"
    "b ! nat j = a ! nat i" "\<And>k. k \<noteq> nat i \<Longrightarrow> k \<noteq> nat j \<Longrightarrow> b ! k = a ! k"
proof -
  let ?b = "a[nat i := a ! nat j, nat j := a ! nat i]"
  have l: "nat i < length a" "nat j < length a" using assms by (simp_all add: nat_less_iff)
  show ?thesis
    by (rule that [of ?b]) (use assms l in \<open>auto simp: swap_def at_in mset_swap nth_list_update\<close>)
qed

definition rest_same :: "int \<Rightarrow> int \<Rightarrow> 'a list \<Rightarrow> 'a list \<Rightarrow> bool" where
  "rest_same l r a b \<longleftrightarrow> length b = length a \<and> mset b = mset a
     \<and> (\<forall>k. (k < l \<or> r < k) \<longrightarrow> 0 \<le> k \<longrightarrow> b ! nat k = a ! nat k)"

lemma rest_same_refl [simp]: "rest_same l r a a"
  by (simp add: rest_same_def)

lemma rest_same_trans: "rest_same l r a b \<Longrightarrow> rest_same l r b c \<Longrightarrow> rest_same l r a c"
  by (simp add: rest_same_def)

lemma rest_same_sub: "rest_same l' r' a b \<Longrightarrow> l \<le> l' \<Longrightarrow> r' \<le> r \<Longrightarrow> rest_same l r a b"
  by (auto simp: rest_same_def)

text \<open>What holds of all elements of a range holds after the range was permuted.\<close>

lemma rest_same_range:
  assumes "rest_same l r a b" and "0 \<le> l" and "r < int (length a)"
    and "\<forall>k. l \<le> k \<longrightarrow> k \<le> r \<longrightarrow> Q (a ! nat k)" and "l \<le> k" and "k \<le> r"
  shows "Q (b ! nat k)"
proof -
  let ?mid = "\<lambda>xs. take (nat (r - l + 1)) (drop (nat l) xs)"
  have len: "length b = length a" and ms: "mset b = mset a"
    and same: "\<And>k. k < l \<or> r < k \<Longrightarrow> 0 \<le> k \<Longrightarrow> b ! nat k = a ! nat k"
    using assms(1) by (auto simp: rest_same_def)
  have split: "xs = take (nat l) xs @ ?mid xs @ drop (nat (r + 1)) xs" for xs :: "'a list"
  proof -
    have "drop (nat (r - l + 1)) (drop (nat l) xs) = drop (nat (r + 1)) xs"
      using assms(2,5,6) by (simp add: nat_add_distrib [symmetric])
    then show ?thesis by (metis append_take_drop_id)
  qed
  have "take (nat l) b = take (nat l) a"
  proof (rule nth_equalityI)
    fix i assume "i < length (take (nat l) b)"
    then show "take (nat l) b ! i = take (nat l) a ! i" using same [of "int i"] len by (simp add: zless_nat_eq_int_zless)
  qed (simp add: len)
  moreover have "drop (nat (r + 1)) b = drop (nat (r + 1)) a"
  proof (rule nth_equalityI)
    fix i assume "i < length (drop (nat (r + 1)) b)"
    then show "drop (nat (r + 1)) b ! i = drop (nat (r + 1)) a ! i"
      using same [of "r + 1 + int i"] len assms(2,5,6) by (simp add: nat_add_distrib add.commute)
  qed (simp add: len)
  ultimately have "mset (?mid b) = mset (?mid a)"
    using ms arg_cong [OF split [of a], of mset] arg_cong [OF split [of b], of mset] by simp
  then have set: "set (?mid b) = set (?mid a)" by (metis set_mset_mset)
  have midlen: "length (?mid xs) = nat (r - l + 1)" if "length xs = length a" for xs :: "'a list"
    using that assms(2,3,5,6) by (simp add: nat_diff_distrib)
  have midnth: "?mid xs ! i = xs ! nat (l + int i)" if "i < nat (r - l + 1)" "length xs = length a" for xs :: "'a list" and i
    using that assms(2,3) by (simp add: nat_add_distrib)
  have "b ! nat k = ?mid b ! nat (k - l)" using midnth [of "nat (k - l)" b] assms(5,6) len by simp
  moreover have "nat (k - l) < length (?mid b)"
    using midlen [of b] len assms(5,6) by (simp add: nat_mono_iff)
  ultimately have "b ! nat k \<in> set (?mid a)" unfolding set [symmetric] by (metis nth_mem)
  then obtain i where "i < nat (r - l + 1)" "b ! nat k = a ! nat (l + int i)"
    using midlen [of a] midnth [of _ a] by (auto simp: in_set_conv_nth)
  then show ?thesis using assms(4) by simp
qed

lemma partition_loop_spec:
  assumes "0 \<le> l" and "r < int (length a)" and "l \<le> i" and "j \<le> r" and "i \<le> r + 1" and "l \<le> j + 1"
    and "\<forall>k. l \<le> k \<longrightarrow> k < i \<longrightarrow> rank x \<le> rank (a ! nat k)" and "\<forall>k. j < k \<longrightarrow> k \<le> r \<longrightarrow> rank (a ! nat k) \<le> rank x"
    and "i \<le> j \<longrightarrow> (\<exists>m. i \<le> m \<and> m \<le> r \<and> rank (a ! nat m) \<le> rank x)"
    and "i \<le> j \<longrightarrow> (\<exists>m. l \<le> m \<and> m \<le> j \<and> rank x \<le> rank (a ! nat m))"
  shows "\<exists>b u d. partition_loop a x r i j = Some (b, u, d) \<and> d < u \<and> rest_same l r a b \<and> l \<le> u \<and> d \<le> r
    \<and> (\<forall>k. l \<le> k \<longrightarrow> k < u \<longrightarrow> rank x \<le> rank (b ! nat k)) \<and> (\<forall>k. d < k \<longrightarrow> k \<le> r \<longrightarrow> rank (b ! nat k) \<le> rank x)"
  using assms
proof (induction a x r i j rule: partition_loop.induct)
  case (1 a x r i j)
  note len = \<open>0 \<le> l\<close> \<open>r < int (length a)\<close> and bounds = \<open>l \<le> i\<close> \<open>j \<le> r\<close> \<open>i \<le> r + 1\<close> \<open>l \<le> j + 1\<close>
    and left = 1(8) and right = 1(9)
  show ?case
  proof (cases "i \<le> j")
    case False
    then show ?thesis using left right bounds by (subst partition_loop.simps) auto
  next
    case True
    from 1(10) True obtain m where m: "i \<le> m" "m \<le> r" "rank (a ! nat m) \<le> rank x" by blast
    from 1(11) True obtain m' where m': "l \<le> m'" "m' \<le> j" "rank x \<le> rank (a ! nat m')" by blast
    obtain u where u: "scan_up a x r i = Some u" "i \<le> u" "u \<le> m" "rank (a ! nat u) \<le> rank x"
      "\<And>k. i \<le> k \<Longrightarrow> k < u \<Longrightarrow> rank x \<le> rank (a ! nat k)"
      using scan_up_spec [OF _ len(2) m] len(1) bounds(1) by auto
    have "j < int (length a)" "0 \<le> m'" using len bounds m' by simp_all
    then obtain d where d: "scan_down a x j = Some d" "d \<le> j" "m' \<le> d" "rank x \<le> rank (a ! nat d)"
      "\<And>k. d < k \<Longrightarrow> k \<le> j \<Longrightarrow> rank (a ! nat k) \<le> rank x"
      using scan_down_spec [OF _ _ m'(2,3)] by blast
    have left': "rank x \<le> rank (a ! nat k)" if "l \<le> k" "k < u" for k
      using left u(5) that by (cases "k < i") auto
    have right': "rank (a ! nat k) \<le> rank x" if "d < k" "k \<le> r" for k
      using right d(5) that by (cases "j < k") auto
    show ?thesis
    proof (cases "u \<le> d")
      case False
      then show ?thesis
        using True u(1,2) d(1,2) left' right' bounds by (subst partition_loop.simps) auto
    next
      case ud: True
      have b0: "0 \<le> u" "u < int (length a)" "0 \<le> d" "d < int (length a)"
        using len bounds u d m m' ud by simp_all
      then obtain c where c: "swap a u d = Some c" "length c = length a" "mset c = mset a"
        "c ! nat u = a ! nat d" "c ! nat d = a ! nat u" "\<And>k. k \<noteq> nat u \<Longrightarrow> k \<noteq> nat d \<Longrightarrow> c ! k = a ! k"
        using swap_ok [of u a d] by metis
      have cn: "c ! nat k = a ! nat k" if "k \<noteq> u" "k \<noteq> d" "0 \<le> k" for k
        using that c(6) [of "nat k"] b0 by simp
      have same: "rest_same l r a c"
        using c(2,3) cn u(2) d(2) bounds ud unfolding rest_same_def by force
      have L: "\<forall>k. l \<le> k \<longrightarrow> k < u + 1 \<longrightarrow> rank x \<le> rank (c ! nat k)"
        using left' cn c(4) d(4) len(1) ud by (metis order_trans zle_add1_eq_le order_le_less not_less)
      have R: "\<forall>k. d - 1 < k \<longrightarrow> k \<le> r \<longrightarrow> rank (c ! nat k) \<le> rank x"
        using right' cn c(5) u(4) b0 ud by (metis diff_add_cancel zless_add1_eq order_less_le_trans order_less_imp_le not_less add.commute le_less less_le_trans zle_diff1_eq)
      have "\<exists>b u' d'. partition_loop c x r (u + 1) (d - 1) = Some (b, u', d') \<and> d' < u' \<and> rest_same l r c b \<and> l \<le> u' \<and> d' \<le> r
        \<and> (\<forall>k. l \<le> k \<longrightarrow> k < u' \<longrightarrow> rank x \<le> rank (b ! nat k)) \<and> (\<forall>k. d' < k \<longrightarrow> k \<le> r \<longrightarrow> rank (b ! nat k) \<le> rank x)"
      proof (rule 1(1) [OF True u(1) d(1) ud c(1) len(1)])
        show "u + 1 \<le> d - 1 \<longrightarrow> (\<exists>m. u + 1 \<le> m \<and> m \<le> r \<and> rank (c ! nat m) \<le> rank x)"
          using R d(2) bounds(2) by (intro impI exI [of _ d]) simp
        show "u + 1 \<le> d - 1 \<longrightarrow> (\<exists>m. l \<le> m \<and> m \<le> d - 1 \<and> rank x \<le> rank (c ! nat m))"
          using L u(2) bounds(1) by (intro impI exI [of _ u]) simp
      qed (use L R len c(2) bounds u d m m' ud in auto)
      then show ?thesis
        using True u(1) d(1) ud c(1) same by (subst partition_loop.simps) (auto intro: rest_same_trans)
    qed
  qed
qed

definition desc :: "sortType list \<Rightarrow> int \<Rightarrow> int \<Rightarrow> bool" where
  "desc a l r \<longleftrightarrow> (\<forall>p q. l \<le> p \<longrightarrow> p \<le> q \<longrightarrow> q \<le> r \<longrightarrow> rank (a ! nat q) \<le> rank (a ! nat p))"

lemma desc_same: "rest_same l' r' a b \<Longrightarrow> desc a l r \<Longrightarrow> r' < l \<Longrightarrow> 0 \<le> l \<Longrightarrow> desc b l r"
  by (auto simp: desc_def rest_same_def)

lemma desc_single: "r \<le> l \<Longrightarrow> desc a l r"
  unfolding desc_def
proof (intro allI impI)
  fix p q assume "r \<le> l" "l \<le> p" "p \<le> q" "q \<le> r"
  then have "p = q" by linarith
  then show "rank (a ! nat q) \<le> rank (a ! nat p)" by simp
qed

text \<open>Two sorted ranges with the pivot between them.\<close>

lemma desc_join:
  assumes "desc a l j" and "desc a i r" and "j < i" and "\<And>k. l \<le> k \<Longrightarrow> k < i \<Longrightarrow> rank x \<le> rank (a ! nat k)"
    and "\<And>k. l \<le> k \<Longrightarrow> j < k \<Longrightarrow> k \<le> r \<Longrightarrow> rank (a ! nat k) \<le> rank x"
  shows "desc a l r"
  unfolding desc_def
proof (intro allI impI)
  fix p q assume pq: "l \<le> p" "p \<le> q" "q \<le> r"
  consider "q \<le> j" | "i \<le> p" | "j < q" "p < i" by linarith
  then show "rank (a ! nat q) \<le> rank (a ! nat p)"
  proof cases
    case 3
    with assms(4) [of p] assms(5) [of q] pq show ?thesis by (meson order_trans)
  qed (use assms(1,2) pq in \<open>auto simp: desc_def\<close>)
qed

lemma SortRep_spec:
  assumes "0 \<le> l" and "l \<le> r" and "r < int (length a)"
  shows "\<exists>c. SortRep a l r = Some c \<and> rest_same l r a c \<and> desc c l r"
  using assms
proof (induction a l r rule: SortRep.induct)
  case (1 a l r)
  note len = \<open>0 \<le> l\<close> \<open>l \<le> r\<close> \<open>r < int (length a)\<close>
  let ?m = "quot2 (l + r)"
  have m: "l \<le> ?m" "?m \<le> r" using quot2_between [of l r] len by (cases "l = r"; simp add: quot2_def)+
  then have at: "at a ?m = Some (a ! nat ?m)" using len by (simp add: at_in)
  let ?x = "a ! nat ?m"
  show ?case
  proof (cases "r \<le> l")
    case True
    then show ?thesis using at len by (subst SortRep.simps) (auto simp: desc_single)
  next
    case False
    obtain b i j where p: "partition_loop a ?x r l r = Some (b, i, j)" "j < i" "rest_same l r a b"
      and hi: "\<And>k. l \<le> k \<Longrightarrow> k < i \<Longrightarrow> rank ?x \<le> rank (b ! nat k)"
      and lo: "\<And>k. j < k \<Longrightarrow> k \<le> r \<Longrightarrow> rank (b ! nat k) \<le> rank ?x"
    proof -
      have "\<exists>m. l \<le> m \<and> m \<le> r \<and> rank (a ! nat m) \<le> rank ?x" "\<exists>m. l \<le> m \<and> m \<le> r \<and> rank ?x \<le> rank (a ! nat m)"
        using m by (auto intro!: exI [of _ ?m])
      then show ?thesis
        using partition_loop_spec [OF len(1,3) order_refl order_refl, of ?x] len(2) that by auto
    qed
    have prog: "l < i" "j < r" using partition_progress [OF at _ p(1)] False by simp_all
    have bl: "int (length b) = int (length a)" using p(3) by (simp add: rest_same_def)
    have ri: "\<exists>c. (if i < r then SortRep b i r else Some b) = Some c \<and> rest_same i r b c \<and> desc c i r"
    proof (cases "i < r")
      case True
      then show ?thesis using 1(1) [OF at _ p(1) refl _ True] False len prog bl by auto
    next
      case False
      then show ?thesis by (auto simp: desc_single)
    qed
    then obtain c where c: "(if i < r then SortRep b i r else Some b) = Some c" "rest_same i r b c" "desc c i r" by blast
    have cl: "int (length c) = int (length a)" using c(2) bl by (simp add: rest_same_def)
    have "\<exists>e. (if l < j then SortRep c l j else Some c) = Some e \<and> rest_same l j c e \<and> desc e l j"
    proof (cases "l < j")
      case True
      then show ?thesis using 1(2) [OF at _ p(1) refl _ c(1) True] False len prog cl by auto
    next
      case False
      then show ?thesis by (auto simp: desc_single)
    qed
    then obtain e where e: "(if l < j then SortRep c l j else Some c) = Some e" "rest_same l j c e" "desc e l j" by blast
    have run: "SortRep a l r = Some e"
      using at p(1) c(1) e(1) False by (subst SortRep.simps) simp
    have same: "rest_same l r a e"
      using p(3) c(2) e(2) prog by (meson rest_same_sub rest_same_trans order_less_imp_le order_refl)
    have c_hi: "rank ?x \<le> rank (c ! nat k)" if "l \<le> k" "k < i" for k
      using hi [OF that] c(2) that len(1) by (simp add: rest_same_def)
    have c_lo: "rank (c ! nat k) \<le> rank ?x" if "l \<le> k" "j < k" "k \<le> r" for k
    proof (cases "k < i")
      case True
      then show ?thesis using lo [OF that(2,3)] c(2) that len(1) by (simp add: rest_same_def)
    next
      case False
      then show ?thesis
        using rest_same_range [OF c(2) _ _ _ _ that(3), of "\<lambda>v. rank v \<le> rank ?x"] lo p(2) prog len bl by auto
    qed
    have "desc e l r"
    proof (rule desc_join [OF e(3) desc_same [OF e(2) c(3)] p(2)])
      fix k assume k: "l \<le> k" "k < i"
      show "rank ?x \<le> rank (e ! nat k)"
      proof (cases "k \<le> j")
        case True
        then show ?thesis
          using rest_same_range [OF e(2) len(1) _ _ k(1), of "\<lambda>v. rank ?x \<le> rank v"] c_hi p(2) prog len cl by auto
      next
        case False
        then show ?thesis using c_hi [OF k] e(2) k len(1) by (simp add: rest_same_def)
      qed
    next
      fix k assume k: "l \<le> k" "j < k" "k \<le> r"
      then show "rank (e ! nat k) \<le> rank ?x" using c_lo [OF k] e(2) len(1) by (simp add: rest_same_def)
    qed (use p(2) prog len in auto)
    with run same show ?thesis by blast
  qed
qed

section \<open>Sharding\<close>

record 'r rng =
  r_Int :: "'r \<Rightarrow> u64 \<times> 'r"
  r_New :: "u64 \<Rightarrow> 'r"

record ('r, 'f) float32 =
  f_rand :: "'r \<Rightarrow> 'f \<times> 'r"
  f_of_int :: "i64 \<Rightarrow> 'f"
  f_div :: "'f \<Rightarrow> 'f \<Rightarrow> 'f"
  f_gt :: "'f \<Rightarrow> 'f \<Rightarrow> bool"

definition GenerateSeed :: "'r rng \<Rightarrow> hash list \<Rightarrow> 'r" where
  "GenerateSeed R a = r_New R (be_word (take 8 (be_bytes 32 (Sum256 (concat (map (be_bytes 32) a))))))"

text \<open>\<open>(*a)[(*b)[xx][i]].CalTotalRep()\<close>\<close>

definition total_of :: "MemShard list \<Rightarrow> int \<Rightarrow> i64 option" where
  "total_of a i = map_option CalTotalRep (at a i)"

text \<open>The score of the \<open>i\<close>-th member; the first half draws a random number.\<close>

definition leader_score ::
  "('r, 'f) float32 \<Rightarrow> MemShard list \<Rightarrow> int list \<Rightarrow> nat \<Rightarrow> 'f list \<times> 'r \<Rightarrow> ('f list \<times> 'r) option" where
  "leader_score F a row i tr =
     (let (tmp, r) = tr in
      if i < length row div 2
      then case total_of a (row ! i) of None \<Rightarrow> None
        | Some t \<Rightarrow> (case f_rand F r of (x, r') \<Rightarrow> Some (tmp @ [f_div F x (f_of_int F (t + 1))], r'))
      else case (total_of a (row ! 0), total_of a (row ! i)) of
          (Some t0, Some t) \<Rightarrow> Some (tmp @ [f_div F (f_of_int F t0) (f_of_int F t)], r)
        | _ \<Rightarrow> None)"

definition exchange :: "('f \<Rightarrow> 'f \<Rightarrow> bool) \<Rightarrow> nat \<times> nat \<Rightarrow> 'f list \<times> int list \<Rightarrow> 'f list \<times> int list" where
  "exchange gt ij s = (case (ij, s) of ((i, j), (t, row)) \<Rightarrow>
     if gt (t ! i) (t ! j) then (t[i := t ! j, j := t ! i], row[i := row ! j, j := row ! i]) else (t, row))"

definition exchange_sort :: "('f \<Rightarrow> 'f \<Rightarrow> bool) \<Rightarrow> 'f list \<times> int list \<Rightarrow> 'f list \<times> int list" where
  "exchange_sort gt s = fold (exchange gt)
     (concat (map (\<lambda>i. map (\<lambda>j. (i, j)) [Suc i..<length (fst s)]) [0..<length (fst s)])) s"

definition LeaderSort ::
  "('r, 'f) float32 \<Rightarrow> MemShard list \<Rightarrow> u32 \<Rightarrow> int list list \<times> 'r \<Rightarrow> (int list list \<times> 'r) option" where
  "LeaderSort F a xx br =
     (let (b, r) = br in
      case idx b (unat xx) of None \<Rightarrow> None
      | Some row \<Rightarrow>
          (case ofold (leader_score F a row) [0..<length row] ([], r) of None \<Rightarrow> None
           | Some (tmp, r') \<Rightarrow> Some (b[unat xx := snd (exchange_sort (f_gt F) (tmp, row))], r')))"

definition put2 :: "'a list list \<Rightarrow> nat \<Rightarrow> nat \<Rightarrow> 'a \<Rightarrow> 'a list list option" where
  "put2 b x i v = (case idx b x of None \<Rightarrow> None | Some row \<Rightarrow> map_option (\<lambda>row'. b[x := row']) (put_idx row i v))"

text \<open>One member for every shard: a shard that has its member already is drawn again.\<close>

partial_function (option) pick_row ::
  "'r rng \<Rightarrow> MemShard list \<Rightarrow> sortType list \<Rightarrow> nat \<Rightarrow> u32 \<Rightarrow> bool list \<Rightarrow> 'r \<times> nat \<times> int list list
     \<Rightarrow> ('r \<times> nat \<times> int list list) option" where
  "pick_row R a sd i j check s =
     (if ShardCnt \<le> j then Some s
      else case s of (r, now, b) \<Rightarrow>
        (case idx sd now of None \<Rightarrow> None
         | Some e \<Rightarrow>
           (case idx a (unat (st_ID e)) of None \<Rightarrow> None
            | Some m \<Rightarrow>
              (case r_Int R r of (v, r') \<Rightarrow>
                let x = (ucast (v XOR CalTotalRep m) :: u32) mod ShardCnt in
                if \<not> check ! unat x
                then (case put2 b (unat x) i (int (unat (st_ID e))) of None \<Rightarrow> None
                  | Some b' \<Rightarrow> pick_row R a sd i (j + 1) (check[unat x := True]) (r', now + 1, b'))
                else pick_row R a sd i j check (r', now, b)))))"

definition sort_data :: "MemShard list \<Rightarrow> sortType list" where
  "sort_data a = map (\<lambda>(i, m). \<lparr>st_ID = of_nat i, st_Rep = CalTotalRep m, st_Address = mem_PrivateAddress m\<rparr>)
     (enumerate 0 a)"

text \<open>The place of a member in its shard; the first of every shard leads it.\<close>

definition place :: "nat \<Rightarrow> nat \<Rightarrow> MemShard \<Rightarrow> MemShard" where
  "place i j m = m\<lparr>mem_InShardId := int j, mem_Shard := int i, mem_Role := (if j = 0 then 0 else 1)\<rparr>"

definition place_at :: "int list list \<Rightarrow> nat \<times> nat \<Rightarrow> MemShard list \<Rightarrow> MemShard list option" where
  "place_at b ij a = (case idx b (fst ij) of None \<Rightarrow> None
     | Some row \<Rightarrow> (case idx row (snd ij) of None \<Rightarrow> None
       | Some k \<Rightarrow> map_option (\<lambda>m. a[nat k := place (fst ij) (snd ij) m]) (at a k)))"

definition Sharding ::
  "'r rng \<Rightarrow> ('r, 'f) float32 \<Rightarrow> 'r \<Rightarrow> MemShard list \<Rightarrow> int list list \<Rightarrow> (MemShard list \<times> int list list \<times> 'r) option" where
  "Sharding R F r a0 b0 =
     (let a = map (\<lambda>m. m\<lparr>mem_PreShard := mem_Shard m\<rparr>) a0;
          rows = [0..<unat ShardSize]; shs = [0..<unat ShardCnt] in
      case SortRep (sort_data a) 0 (int (length a) - 1) of None \<Rightarrow> None
      | Some sd \<Rightarrow>
        (case ofold (\<lambda>i b. ofold (\<lambda>j b. put2 b j i (- 1)) shs b) rows b0 of None \<Rightarrow> None
         | Some b1 \<Rightarrow>
           (case ofold (\<lambda>i. pick_row R a sd i 0 (replicate (unat ShardCnt) False)) rows (r, 0, b1) of None \<Rightarrow> None
            | Some (r1, now, b2) \<Rightarrow>
              (case ofold (\<lambda>i. LeaderSort F a (of_nat i)) shs (b2, r1) of None \<Rightarrow> None
               | Some (b3, r2) \<Rightarrow>
                 map_option (\<lambda>a'. (a', b3, r2))
                   (ofold (place_at b3) (concat (map (\<lambda>i. map (\<lambda>j. (i, j)) rows) shs)) a)))))"

text \<open>The members and the table of the running node.\<close>

record Group =
  gr_Mems :: "MemShard list"
  gr_ShardToGlobal :: "int list list"

definition ReturnRepData :: "Group \<Rightarrow> u32 \<Rightarrow> i64 list option" where
  "ReturnRepData G shardID =
     (case idx (gr_ShardToGlobal G) (unat shardID) of None \<Rightarrow> None
      | Some row \<Rightarrow> ofold (\<lambda>i tmp. case idx row i of None \<Rightarrow> None
          | Some k \<Rightarrow> map_option (\<lambda>m. tmp @ [mem_Rep m]) (at (gr_Mems G) k)) [0..<unat ShardSize] [])"

subsection \<open>The steps of the assignment\<close>

lemma unat_consts [simp]: "unat ShardCnt = 1" "unat ShardSize = 20"
  by (simp_all add: ShardCnt_def ShardSize_def)

lemma one_upt: "[0..<1] = [0]" "replicate 1 x = [x]"
  by simp_all

lemma ofold_one: "ofold f [x] s = f x s"
  by (simp split: option.splits)

lemma ofold_upt_inv:
  assumes "P 0 s" and "\<And>i s. i < n \<Longrightarrow> P i s \<Longrightarrow> \<exists>t. f i s = Some t \<and> P (Suc i) t"
  shows "\<exists>t. ofold f [0..<n] s = Some t \<and> P n t"
  using assms
proof (induction n)
  case (Suc n)
  then obtain t where "ofold f [0..<n] s = Some t" "P n t" by force
  with Suc.prems(2) [of n t] show ?case by (auto simp: ofold_append)
qed simp

lemma init_rows:
  assumes "length row = n"
  shows "ofold (\<lambda>i b. ofold (\<lambda>j b. put2 b j i (- 1)) [0] b) [0..<n] [row] = Some [replicate n (- 1)]"
proof -
  have "\<exists>t. ofold (\<lambda>i b. ofold (\<lambda>j b. put2 b j i (- 1)) [0] b) [0..<n] [row] = Some t
      \<and> t = [replicate n (- 1) @ drop n row]"
  proof (rule ofold_upt_inv)
    fix i b assume i: "i < n" and b: "b = [replicate i (- 1) @ drop i row]"
    have "drop i row = row ! i # drop (Suc i) row" using i assms by (simp add: Cons_nth_drop_Suc)
    then have "(replicate i (- 1) @ drop i row)[i := - 1] = replicate (Suc i) (- 1) @ drop (Suc i) row"
      by (simp add: list_update_append replicate_append_same)
    then show "\<exists>t. ofold (\<lambda>j b. put2 b j i (- 1)) [0] b = Some t \<and> t = [replicate (Suc i) (- 1) @ drop (Suc i) row]"
      using i assms b by (simp add: put2_def idx_def put_idx_def)
  qed simp
  with assms show ?thesis by simp
qed

abbreviation st_idx :: "sortType \<Rightarrow> nat" where "st_idx e \<equiv> unat (st_ID e)"

lemma pick_row_one:
  assumes "i < length sd" and "st_idx (sd ! i) < length a" and "i < length row"
  shows "\<exists>r'. pick_row R a sd i 0 [False] (r, i, [row]) = Some (r', Suc i, [row[i := int (st_idx (sd ! i))]])"
proof -
  have m: "(x :: u32) mod ShardCnt = 0" for x by (simp add: ShardCnt_def)
  obtain v r' where v: "r_Int R r = (v, r')" by fastforce
  have "pick_row R a sd i 0 [False] (r, i, [row])
      = pick_row R a sd i (0 + 1) [True] (r', i + 1, [row[i := int (st_idx (sd ! i))]])"
    using assms v by (subst pick_row.simps) (simp add: idx_def m put2_def put_idx_def ShardCnt_def)
  also have "\<dots> = Some (r', Suc i, [row[i := int (st_idx (sd ! i))]])"
    by (subst pick_row.simps) (simp add: ShardCnt_def)
  finally show ?thesis by blast
qed

lemma pick_rows:
  fixes R :: "'r rng" and r :: 'r
  assumes "n \<le> length sd" and "\<forall>e \<in> set sd. st_idx e < length a"
  shows "\<exists>r'. ofold (\<lambda>i. pick_row R a sd i 0 [False]) [0..<n] (r, 0, [replicate n (- 1)])
    = Some (r', n, [map (int \<circ> st_idx) (take n sd)])"
proof -
  let ?P = "\<lambda>i s. \<exists>r' :: 'r. s = (r', i, [map (int \<circ> st_idx) (take i sd) @ replicate (n - i) (- 1)])"
  have "\<exists>t. ofold (\<lambda>i. pick_row R a sd i 0 [False]) [0..<n] (r, 0, [replicate n (- 1)]) = Some t \<and> ?P n t"
  proof (rule ofold_upt_inv [where P = ?P])
    fix i and s :: "'r \<times> nat \<times> int list list"
    assume i: "i < n" and "?P i s"
    then obtain r1 where s: "s = (r1, i, [map (int \<circ> st_idx) (take i sd) @ replicate (n - i) (- 1)])" by blast
    let ?row = "map (int \<circ> st_idx) (take i sd) @ replicate (n - i) (- 1)"
    have isd: "i < length sd" using i assms(1) by simp
    then have "st_idx (sd ! i) < length a" using assms(2) by simp
    then obtain r2 where p: "pick_row R a sd i 0 [False] s = Some (r2, Suc i, [?row[i := int (st_idx (sd ! i))]])"
      using pick_row_one [of i sd a ?row R r1] isd i s by auto
    have "replicate (n - i) (- 1 :: int) = - 1 # replicate (n - Suc i) (- 1)"
      using i by (metis Suc_diff_Suc replicate_Suc)
    then have "?row[i := int (st_idx (sd ! i))] = map (int \<circ> st_idx) (take (Suc i) sd) @ replicate (n - Suc i) (- 1)"
      using isd by (simp add: list_update_append take_Suc_conv_app_nth min_def)
    with p show "\<exists>t. pick_row R a sd i 0 [False] s = Some t \<and> ?P (Suc i) t" by auto
  qed auto
  then show ?thesis by auto
qed

lemma exchange_mset:
  assumes "i < length row" and "j < length row" and "length t = length row"
  shows "mset (snd (exchange gt (i, j) (t, row))) = mset row \<and> length (snd (exchange gt (i, j) (t, row))) = length row
    \<and> length (fst (exchange gt (i, j) (t, row))) = length row"
  using assms by (simp add: exchange_def mset_swap)

lemma exchange_sort_mset:
  assumes "length t = length row"
  shows "mset (snd (exchange_sort gt (t, row))) = mset row"
proof -
  have "mset (snd (fold (exchange gt) ps s)) = mset (snd s)"
    if "\<forall>(i, j) \<in> set ps. i < length (snd s) \<and> j < length (snd s)" "length (fst s) = length (snd s)" for ps s
    using that
  proof (induction ps arbitrary: s)
    case (Cons p ps)
    obtain i j t row where [simp]: "p = (i, j)" "s = (t, row)" by (cases p; cases s) auto
    note e = exchange_mset [of i row j t gt]
    have "mset (snd (fold (exchange gt) ps (exchange gt p s))) = mset (snd (exchange gt p s))"
      by (rule Cons.IH) (use Cons.prems e in auto)
    with e Cons.prems show ?case by simp
  qed simp
  from this [of "concat (map (\<lambda>i. map (\<lambda>j. (i, j)) [Suc i..<length t]) [0..<length t])" "(t, row)"] assms
  show ?thesis by (auto simp: exchange_sort_def)
qed

lemma LeaderSort_ok:
  fixes F :: "('r, 'f) float32" and r :: 'r
  assumes "\<forall>k \<in> set row. 0 \<le> k \<and> k < int (length a)"
  shows "\<exists>row' r'. LeaderSort F a 0 ([row], r) = Some ([row'], r') \<and> mset row' = mset row"
proof -
  have tot: "\<exists>t. total_of a (row ! i) = Some t" if "i < length row" for i
    using assms that by (auto simp: total_of_def at_in)
  have "\<exists>t. ofold (leader_score F a row) [0..<length row] ([], r) = Some t \<and> length (fst t) = length row"
  proof (rule ofold_upt_inv)
    fix i and s :: "'f list \<times> 'r"
    assume i: "i < length row" and s: "length (fst s) = i"
    obtain tmp r1 where sr: "s = (tmp, r1)" by fastforce
    obtain t t0 where t: "total_of a (row ! i) = Some t" and t0: "total_of a (row ! 0) = Some t0"
      using tot [OF i] tot [of 0] i by (metis gr_implies_not0 gr0I)
    obtain y r2 where y: "f_rand F r1 = (y, r2)" by fastforce
    show "\<exists>t. leader_score F a row i s = Some t \<and> length (fst t) = Suc i"
      using s sr t t0 y by (simp add: leader_score_def)
  qed simp
  then obtain tmp r1 where sc: "ofold (leader_score F a row) [0..<length row] ([], r) = Some (tmp, r1)"
    and "length tmp = length row" by auto
  then show ?thesis using exchange_sort_mset [of tmp row] by (simp add: LeaderSort_def idx_def)
qed

lemma place_rows:
  assumes "distinct row" and "\<forall>k \<in> set row. 0 \<le> k \<and> k < int (length a)" and "n \<le> length row"
  shows "\<exists>a'. ofold (place_at [row]) (map (\<lambda>j. (0, j)) [0..<n]) a = Some a' \<and> length a' = length a
    \<and> (\<forall>j < n. a' ! nat (row ! j) = place 0 j (a ! nat (row ! j)))
    \<and> (\<forall>k. (\<forall>j < n. nat (row ! j) \<noteq> k) \<longrightarrow> a' ! k = a ! k)"
  using assms(3)
proof (induction n)
  case (Suc n)
  then obtain a1 where a1: "ofold (place_at [row]) (map (\<lambda>j. (0, j)) [0..<n]) a = Some a1" "length a1 = length a"
    "\<And>j. j < n \<Longrightarrow> a1 ! nat (row ! j) = place 0 j (a ! nat (row ! j))"
    "\<And>k. (\<forall>j < n. nat (row ! j) \<noteq> k) \<Longrightarrow> a1 ! k = a ! k" by auto
  have n: "n < length row" using Suc.prems by simp
  then have k: "0 \<le> row ! n" "row ! n < int (length a)" using assms(2) by simp_all
  have new: "nat (row ! j) \<noteq> nat (row ! n)" if "j < n" for j
  proof -
    have "row ! j \<noteq> row ! n" using that n assms(1) by (simp add: nth_eq_iff_index_eq)
    moreover have "0 \<le> row ! j" using that n assms(2) by simp
    ultimately show ?thesis using k by simp
  qed
  let ?a = "a1[nat (row ! n) := place 0 n (a1 ! nat (row ! n))]"
  have st: "place_at [row] (0, n) a1 = Some ?a"
    using n k a1(2) by (simp add: place_at_def idx_def at_in)
  have old: "a1 ! nat (row ! n) = a ! nat (row ! n)" by (rule a1(4)) (use new in blast)
  have "ofold (place_at [row]) (map (\<lambda>j. (0, j)) [0..<Suc n]) a = Some ?a"
    using a1(1) st by (simp add: ofold_append)
  moreover have "?a ! nat (row ! j) = place 0 j (a ! nat (row ! j))" if "j < Suc n" for j
    using that new [of j] a1(2,3) old k by (cases "j = n") (auto simp: nat_less_iff)
  moreover have "?a ! k = a ! k" if "\<forall>j < Suc n. nat (row ! j) \<noteq> k" for k
    using that a1(4) by (metis less_Suc_eq nth_list_update_neq)
  ultimately show ?case using a1(2) by (intro exI [of _ ?a]) simp
qed simp

lemma sort_data_nth: "i < length a \<Longrightarrow> sort_data a ! i = \<lparr>st_ID = of_nat i, st_Rep = CalTotalRep (a ! i), st_Address = mem_PrivateAddress (a ! i)\<rparr>"
  by (simp add: sort_data_def nth_enumerate_eq)

lemma sort_data_ids: "length a < 2 ^ 32 \<Longrightarrow> map st_idx (sort_data a) = [0..<length a]"
  by (rule nth_equalityI) (simp_all add: sort_data_nth sort_data_def nth_enumerate_eq unat_of_nat_u32)

lemma length_sort_data [simp]: "length (sort_data a) = length a"
  by (simp add: sort_data_def)

lemma SortRep_full:
  assumes "a \<noteq> []"
  shows "\<exists>c. SortRep a 0 (int (length a) - 1) = Some c \<and> mset c = mset a \<and> length c = length a
    \<and> sorted_wrt (\<lambda>x y. rank y \<le> rank x) c"
proof -
  obtain c where c: "SortRep a 0 (int (length a) - 1) = Some c" "rest_same 0 (int (length a) - 1) a c"
    "desc c 0 (int (length a) - 1)"
    using SortRep_spec [of 0 "int (length a) - 1" a] assms by (cases a) auto
  have "sorted_wrt (\<lambda>x y. rank y \<le> rank x) c"
    unfolding sorted_wrt_iff_nth_less
  proof (intro allI impI)
    fix i j assume ij: "i < j" "j < length c"
    have "length c = length a" using c(2) by (simp add: rest_same_def)
    then have "rank (c ! nat (int j)) \<le> rank (c ! nat (int i))"
      using c(3) [unfolded desc_def, rule_format, of "int i" "int j"] ij by simp
    then show "rank (c ! j) \<le> rank (c ! i)" by simp
  qed
  with c show ?thesis by (auto simp: rest_same_def)
qed

lemma Sharding_ok:
  fixes F :: "('r, 'f) float32" and R :: "'r rng" and r :: 'r
  assumes "20 \<le> length a0" and "length a0 < 2 ^ 32" and "length row0 = 20"
  defines "a \<equiv> map (\<lambda>m. m\<lparr>mem_PreShard := mem_Shard m\<rparr>) a0"
  shows "\<exists>sd a' row r'. Sharding R F r a0 [row0] = Some (a', [row], r') \<and> length a' = length a0
    \<and> mset sd = mset (sort_data a) \<and> sorted_wrt (\<lambda>x y. rank y \<le> rank x) sd
    \<and> mset row = mset (map (int \<circ> st_idx) (take 20 sd)) \<and> length row = 20 \<and> distinct row
    \<and> (\<forall>j < 20. a' ! nat (row ! j) = place 0 j (a ! nat (row ! j)))
    \<and> (\<forall>k. int k \<notin> set row \<longrightarrow> a' ! k = a ! k)"
proof -
  have len: "length a = length a0" by (simp add: a_def)
  have ne: "sort_data a \<noteq> []" using assms(1) len by (cases a) (auto simp: sort_data_def)
  obtain sd where sd: "SortRep (sort_data a) 0 (int (length (sort_data a)) - 1) = Some sd" "mset sd = mset (sort_data a)"
    "length sd = length (sort_data a)" "sorted_wrt (\<lambda>x y. rank y \<le> rank x) sd"
    using SortRep_full [OF ne] by blast
  have "mset (map st_idx sd) = mset (map st_idx (sort_data a))" using sd(2) by (simp only: mset_map)
  then have ids: "mset (map st_idx sd) = mset [0..<length a]" using assms(2) len sort_data_ids [of a] by (simp only:)
  then have "set (map st_idx sd) = {0..<length a}" by (metis set_mset_mset atLeastLessThan_upt)
  then have idx: "\<forall>e \<in> set sd. st_idx e < length a" by auto
  have "distinct (map st_idx sd)" using ids by (metis distinct_upt mset_eq_imp_distinct_iff)
  then have "distinct (map int (map st_idx sd))" using distinct_map [of int "map st_idx sd"] by (simp only: inj_on_of_nat)
  then have "distinct (map (int \<circ> st_idx) sd)" by (simp only: map_map)
  then have dist: "distinct (map (int \<circ> st_idx) (take 20 sd))" by (simp flip: take_map add: distinct_take)
  obtain r1 where p: "ofold (\<lambda>i. pick_row R a sd i 0 [False]) [0..<20] (r, 0, [replicate 20 (- 1)])
      = Some (r1, 20, [map (int \<circ> st_idx) (take 20 sd)])"
    using pick_rows [of 20 sd a R r] assms(1) len sd(3) idx by auto
  have in_a: "\<forall>k \<in> set (map (int \<circ> st_idx) (take 20 sd)). 0 \<le> k \<and> k < int (length a)"
  proof
    fix k assume "k \<in> set (map (int \<circ> st_idx) (take 20 sd))"
    then obtain e where "e \<in> set sd" and k: "k = int (st_idx e)" by (auto dest: in_set_takeD)
    with idx have "st_idx e < length a" by blast
    then show "0 \<le> k \<and> k < int (length a)" unfolding k by linarith
  qed
  obtain row r2 where row: "LeaderSort F a 0 ([map (int \<circ> st_idx) (take 20 sd)], r1) = Some ([row], r2)"
    "mset row = mset (map (int \<circ> st_idx) (take 20 sd))"
    using LeaderSort_ok [OF in_a, of F r1] by metis
  have rl: "length row = 20" using row(2) sd(3) assms(1) len by (metis length_map length_sort_data length_take min.absorb2 size_mset)
  have rd: "distinct row" using row(2) dist by (metis mset_eq_imp_distinct_iff)
  have rin: "\<forall>k \<in> set row. 0 \<le> k \<and> k < int (length a)" using row(2) in_a by (metis set_mset_mset)
  obtain a' where a': "ofold (place_at [row]) (map (\<lambda>j. (0, j)) [0..<20]) a = Some a'" "length a' = length a"
    "\<And>j. j < 20 \<Longrightarrow> a' ! nat (row ! j) = place 0 j (a ! nat (row ! j))"
    "\<And>k. (\<forall>j < 20. nat (row ! j) \<noteq> k) \<Longrightarrow> a' ! k = a ! k"
    using place_rows [OF rd rin, of 20] rl by auto
  have out: "a' ! k = a ! k" if "int k \<notin> set row" for k
  proof (rule a'(4), intro allI impI)
    fix j :: nat assume "j < 20"
    then have "row ! j \<in> set row" using rl by simp
    then show "nat (row ! j) \<noteq> k" using that rin by auto
  qed
  have "Sharding R F r a0 [row0] = Some (a', [row], r2)"
    unfolding Sharding_def Let_def a_def [symmetric] unat_consts one_upt
    using sd(1) by (simp add: init_rows [OF assms(3)] p ofold_one row(1) a'(1) del: ofold.simps)
  then show ?thesis using sd(2,4) row(2) rl rd a'(2,3) out len by auto
qed

lemma foldl_SetTotalRep:
  "length (mem_TotalRep ms) \<le> SlidingWindows \<Longrightarrow> foldl SetTotalRep ms vs
     = ms\<lparr>mem_TotalRep := drop (length (mem_TotalRep ms) + length vs - SlidingWindows) (mem_TotalRep ms @ vs)\<rparr>"
proof (induction vs arbitrary: ms)
  case (Cons v vs)
  let ?t = "mem_TotalRep ms"
  let ?w = "if length ?t = SlidingWindows then drop 1 ?t else ?t"
  have s: "SetTotalRep ms v = ms\<lparr>mem_TotalRep := ?w @ [v]\<rparr>" by (simp add: SetTotalRep_def Let_def)
  have "length (?w @ [v]) \<le> SlidingWindows" using Cons.prems by (simp add: SlidingWindows_def)
  then have "foldl SetTotalRep (SetTotalRep ms v) vs = ms\<lparr>mem_TotalRep :=
      drop (length (?w @ [v]) + length vs - SlidingWindows) ((?w @ [v]) @ vs)\<rparr>"
    using Cons.IH [of "SetTotalRep ms v"] by (simp only: s MemShard.select_convs MemShard.surjective) (simp add: s)
  moreover have "drop (length (?w @ [v]) + length vs - SlidingWindows) ((?w @ [v]) @ vs)
      = drop (length ?t + length (v # vs) - SlidingWindows) (?t @ v # vs)"
  proof (cases "length ?t = SlidingWindows")
    case True
    then obtain h t where "?t = h # t" by (cases ?t) (auto simp: SlidingWindows_def)
    with True show ?thesis by (simp add: SlidingWindows_def)
  qed simp
  ultimately show ?case by simp
qed simp

lemma foldl_plus: "foldl (+) s xs = s + sum_list (xs :: i64 list)"
  by (induction xs arbitrary: s) (simp_all add: add.assoc)

section \<open>Properties\<close>

text \<open>C13: Sorting the members by reputation ends, and gives the same members in descending order
  of reputation, and of the address where the reputations are equal; the sort of no members at
  all panics.\<close>

theorem SortRep_sorts:
  "SortRep [] 0 (int (length ([] :: sortType list)) - 1) = None
   \<and> (a \<noteq> [] \<longrightarrow> (\<exists>c. SortRep a 0 (int (length a) - 1) = Some c \<and> mset c = mset a
        \<and> sorted_wrt (\<lambda>x y. rank y \<le> rank x) c))"
proof -
  have "SortRep [] 0 (int (length ([] :: sortType list)) - 1) = None"
    by (subst SortRep.simps) (simp add: at_def quot2_def idx_def)
  then show ?thesis using SortRep_full by blast
qed

definition st_lo :: sortType where "st_lo = \<lparr>st_ID = 0, st_Rep = - 1, st_Address = ''a''\<rparr>"
definition st_hi :: sortType where "st_hi = \<lparr>st_ID = 1, st_Rep = 5, st_Address = ''b''\<rparr>"

theorem SortRep_sorts_witness:
  "[st_lo, st_hi] \<noteq> [] \<and> (\<exists>c. SortRep [st_lo, st_hi] 0 1 = Some c \<and> mset c = mset [st_lo, st_hi]
     \<and> sorted_wrt (\<lambda>x y. rank y \<le> rank x) c)"
  using SortRep_sorts [of "[st_lo, st_hi]"] by simp

text \<open>C14: Sharding at least twenty members always succeeds. It picks the twenty members that come
  first in the order of reputation, gives each of them exactly one place in the shard, makes the
  member in place 0 and only that one the leader, whatever the scores of the election are, and
  changes nothing else but the record of the previous shard.\<close>

theorem Sharding_assigns:
  fixes F :: "('r, 'f) float32" and R :: "'r rng" and r :: 'r
  assumes "20 \<le> length a0" and "length a0 < 2 ^ 32" and "length row0 = 20"
  shows "\<exists>a' row r' sd. Sharding R F r a0 [row0] = Some (a', [row], r') \<and> length a' = length a0
    \<and> mset sd = mset (sort_data a0) \<and> sorted_wrt (\<lambda>x y. rank y \<le> rank x) sd
    \<and> mset row = mset (map (int \<circ> st_idx) (take 20 sd)) \<and> distinct row
    \<and> (\<forall>j < 20. let m = a' ! nat (row ! j) in mem_InShardId m = int j \<and> mem_Shard m = 0
         \<and> (mem_Role m = 0 \<longleftrightarrow> j = 0))
    \<and> (\<forall>k < length a0. mem_Rep (a' ! k) = mem_Rep (a0 ! k) \<and> mem_PreShard (a' ! k) = mem_Shard (a0 ! k)
         \<and> (int k \<notin> set row \<longrightarrow> mem_Shard (a' ! k) = mem_Shard (a0 ! k)))"
proof -
  let ?a = "map (\<lambda>m. m\<lparr>mem_PreShard := mem_Shard m\<rparr>) a0"
  obtain sd a' row r' where S: "Sharding R F r a0 [row0] = Some (a', [row], r')" "length a' = length a0"
    "mset sd = mset (sort_data ?a)" "sorted_wrt (\<lambda>x y. rank y \<le> rank x) sd"
    "mset row = mset (map (int \<circ> st_idx) (take 20 sd))" "length row = 20" "distinct row"
    and pl: "\<And>j. j < 20 \<Longrightarrow> a' ! nat (row ! j) = place 0 j (?a ! nat (row ! j))"
    and out: "\<And>k. int k \<notin> set row \<Longrightarrow> a' ! k = ?a ! k"
    using Sharding_ok [OF assms, of R F r] by auto
  have sd: "sort_data ?a = sort_data a0"
    by (rule nth_equalityI) (simp_all add: sort_data_nth CalTotalRep_def)
  have new: "let m = a' ! nat (row ! j) in mem_InShardId m = int j \<and> mem_Shard m = 0 \<and> (mem_Role m = 0 \<longleftrightarrow> j = 0)"
    if "j < 20" for j
    using pl [OF that] by (simp add: place_def)
  have "mem_Rep (a' ! k) = mem_Rep (a0 ! k) \<and> mem_PreShard (a' ! k) = mem_Shard (a0 ! k)
      \<and> (int k \<notin> set row \<longrightarrow> mem_Shard (a' ! k) = mem_Shard (a0 ! k))" if k: "k < length a0" for k
  proof (cases "int k \<in> set row")
    case True
    then obtain j where "j < 20" "row ! j = int k" using S(6) by (auto simp: in_set_conv_nth)
    then show ?thesis using pl [of j] True k by (simp add: place_def)
  next
    case False
    then show ?thesis using out [of k] k by simp
  qed
  with S(1-5,7) new show ?thesis unfolding sd by blast
qed

definition mem_zero :: MemShard where
  "mem_zero = \<lparr>mem_Address = [], mem_PrivateAddress = [], mem_PublicAddress = [], mem_Rep = 0, mem_TotalRep = [],
     mem_CosiPub = [], mem_Shard = 0, mem_InShardId = 0, mem_Role = 1, mem_Legal = 0,
     mem_RealAccount = \<lparr>rc_Pri = \<lparr>sk_Puk = \<lparr>pk_X = None, pk_Y = None\<rparr>, sk_D = 0\<rparr>,
       rc_Puk = \<lparr>pk_X = None, pk_Y = None\<rparr>, rc_CosiPri = [], rc_CosiPuk = [], rc_Addr = [],
       rc_AddrReal = 0, rc_ID = [], rc_Rep = 0\<rparr>, mem_PreShard = 0, mem_Bandwidth = 0\<rparr>"

definition toy_rng :: "nat rng" where
  "toy_rng = \<lparr>r_Int = (\<lambda>s. (of_nat s, Suc s)), r_New = unat\<rparr>"

definition toy_float :: "(nat, int) float32" where
  "toy_float = \<lparr>f_rand = (\<lambda>s. (int s, Suc s)), f_of_int = sint, f_div = (\<lambda>x y. x div y), f_gt = (>)\<rparr>"

theorem Sharding_assigns_witness:
  "\<exists>a' row r'. Sharding toy_rng toy_float 0 (replicate 20 mem_zero) [replicate 20 0] = Some (a', [row], r') \<and> distinct row"
proof -
  have h: "20 \<le> length (replicate 20 mem_zero)" "length (replicate 20 mem_zero) < 2 ^ 32"
    "length (replicate 20 (0 :: int)) = 20" by simp_all
  show ?thesis using Sharding_assigns [OF h, of toy_rng toy_float 0] by blast
qed

text \<open>The total reputation of a member is a sliding window: after any sequence of epochs it
  holds the reputations of the last twenty of them, in order, and \<open>CalTotalRep\<close> is their sum in
  64-bit arithmetic.\<close>

theorem total_rep_window:
  "mem_TotalRep (foldl SetTotalRep (NewTotalRep ms) vs) = drop (length vs - 20) vs
   \<and> CalTotalRep (foldl SetTotalRep (NewTotalRep ms) vs) = sum_list (drop (length vs - 20) vs)"
  using foldl_SetTotalRep [of "NewTotalRep ms" vs]
  by (simp add: NewTotalRep_def CalTotalRep_def foldl_plus SlidingWindows_def)

end
