(* ===== verification/Sha512.thy ===== *)
theory Sha512
  imports Sha256
begin

text \<open>
  SHA-512 (FIPS 180-4), the standard-library package \<open>crypto/sha512\<close> the collective signatures
  hash with. Same structure as \<open>Sha256\<close>, on words of 64 bits. The definitions compute.
\<close>

definition rotr64 :: "nat \<Rightarrow> u64 \<Rightarrow> u64" where
  "rotr64 n x = drop_bit n x OR push_bit (64 - n) x"

definition sum512_0 :: "u64 \<Rightarrow> u64" where
  "sum512_0 x = rotr64 28 x XOR rotr64 34 x XOR rotr64 39 x"

definition sum512_1 :: "u64 \<Rightarrow> u64" where
  "sum512_1 x = rotr64 14 x XOR rotr64 18 x XOR rotr64 41 x"

definition sig512_0 :: "u64 \<Rightarrow> u64" where
  "sig512_0 x = rotr64 1 x XOR rotr64 8 x XOR drop_bit 7 x"

definition sig512_1 :: "u64 \<Rightarrow> u64" where
  "sig512_1 x = rotr64 19 x XOR rotr64 61 x XOR drop_bit 6 x"

definition sha512_k :: "u64 list" where
  "sha512_k =
   map word_of_int [
     4794697086780616226, 8158064640168781261, 13096744586834688815, 16840607885511220156,
      4131703408338449720, 6480981068601479193, 10538285296894168987, 12329834152419229976,
      15566598209576043074, 1334009975649890238, 2608012711638119052, 6128411473006802146,
      8268148722764581231, 9286055187155687089, 11230858885718282805, 13951009754708518548,
      16472876342353939154, 17275323862435702243, 1135362057144423861, 2597628984639134821,
      3308224258029322869, 5365058923640841347, 6679025012923562964, 8573033837759648693,
      10970295158949994411, 12119686244451234320, 12683024718118986047, 13788192230050041572,
      14330467153632333762, 15395433587784984357, 489312712824947311, 1452737877330783856,
      2861767655752347644, 3322285676063803686, 5560940570517711597, 5996557281743188959,
      7280758554555802590, 8532644243296465576, 9350256976987008742, 10552545826968843579,
      11727347734174303076, 12113106623233404929, 14000437183269869457, 14369950271660146224,
      15101387698204529176, 15463397548674623760, 17586052441742319658, 1182934255886127544,
      1847814050463011016, 2177327727835720531, 2830643537854262169, 3796741975233480872,
      4115178125766777443, 5681478168544905931, 6601373596472566643, 7507060721942968483,
      8399075790359081724, 8693463985226723168, 9568029438360202098, 10144078919501101548,
      10430055236837252648, 11840083180663258601, 13761210420658862357, 14299343276471374635,
      14566680578165727644, 15097957966210449927, 16922976911328602910, 17689382322260857208,
      500013540394364858, 748580250866718886, 1242879168328830382, 1977374033974150939,
      2944078676154940804, 3659926193048069267, 4368137639120453308, 4836135668995329356,
      5532061633213252278, 6448918945643986474, 6902733635092675308, 7801388544844847127]"

datatype sha512_state = Sha512State u64 u64 u64 u64 u64 u64 u64 u64

definition sha512_init :: sha512_state where
  "sha512_init = Sha512State
    7640891576956012808 13503953896175478587 4354685564936845355 11912009170470909681
    5840696475078001361 11170449401992604703 2270897969802886507 6620516959819538809"

fun sha512_schedule :: "nat \<Rightarrow> u64 list \<Rightarrow> u64 list" where
  "sha512_schedule 0 w = w"
| "sha512_schedule (Suc n) w =
     (let t = w @ [sig512_1 (w ! 14) + w ! 9 + sig512_0 (w ! 1) + w ! 0]
      in w ! 0 # sha512_schedule n (tl t))"

fun sha512_round :: "sha512_state \<Rightarrow> u64 \<times> u64 \<Rightarrow> sha512_state" where
  "sha512_round (Sha512State a b c d e f g h) (k, w) =
     (let t1 = h + sum512_1 e + ((e AND f) XOR (NOT e AND g)) + k + w;
          t2 = sum512_0 a + ((a AND b) XOR (a AND c) XOR (b AND c))
      in Sha512State (t1 + t2) a b c (d + t1) e f g)"

fun sha512_add :: "sha512_state \<Rightarrow> sha512_state \<Rightarrow> sha512_state" where
  "sha512_add (Sha512State a b c d e f g h) (Sha512State a' b' c' d' e' f' g' h') =
     Sha512State (a + a') (b + b') (c + c') (d + d') (e + e') (f + f') (g + g') (h + h')"

definition sha512_block :: "sha512_state \<Rightarrow> bytes \<Rightarrow> sha512_state" where
  "sha512_block s blk =
     sha512_add s (foldl sha512_round s (zip sha512_k (sha512_schedule 64 (map be_word (chunks 8 blk)))))"

text \<open>The length is a number of 128 bits.\<close>

definition sha512_pad :: "bytes \<Rightarrow> bytes" where
  "sha512_pad m = m @ [0x80] @ replicate ((239 - length m mod 128) mod 128) 0
                @ be_bytes 16 (of_nat (8 * length m) :: 128 word)"

fun sha512_out :: "sha512_state \<Rightarrow> bytes" where
  "sha512_out (Sha512State a b c d e f g h) = concat (map (be_bytes 8) [a, b, c, d, e, f, g, h])"

definition Sum512 :: "bytes \<Rightarrow> bytes" where
  "Sum512 m = sha512_out (foldl sha512_block sha512_init (chunks 128 (sha512_pad m)))"

lemma length_Sum512 [simp]: "length (Sum512 m) = 64"
  by (cases "foldl sha512_block sha512_init (chunks 128 (sha512_pad m))") (simp add: Sum512_def)

end
