(* ===== verification/Limbs.thy ===== *)
theory Limbs
  imports RC2_Prelude
begin

unbundle bit_operations_syntax

text \<open>
  Straight-line arithmetic on limbs. The functions of \<open>edwards25519\<close> keep a number as a list of machine
  integers, each with a weight, and move carries between them. The steps they take are the
  constructors of \<open>limb_op\<close>; \<open>exec\<close> runs a step on machine integers of any width. A step has an image
  on integers (\<open>iexec\<close>) and one on intervals (\<open>bexec\<close>), which also checks that nothing the code
  then reads has overflowed. \<open>run_sound\<close>: if the intervals go through, then the result lies in them
  and has the same value modulo \<open>M\<close>.
\<close>

section \<open>The steps\<close>

text \<open>
  \<open>Carry i n r j m\<close> is \<open>c = (s[i] + r) >> n; s[j] += c * m; s[i] -= c << n\<close>;
  \<open>Fold i jms\<close> is \<open>s[j] += s[i] * m\<close> for every \<open>(j, m)\<close>, then \<open>s[i] = 0\<close>.
\<close>

datatype limb_op = Carry nat nat int nat int | Fold nat "(nat \<times> int) list"

fun exec :: "limb_op \<Rightarrow> ('a::len) word list \<Rightarrow> 'a word list" where
  "exec (Carry i n r j m) s =
     (let c = signed_drop_bit n (s ! i + of_int r); s1 = s[j := s ! j + c * of_int m]
      in s1[i := s1 ! i - push_bit n c])"
| "exec (Fold i jms) s = (foldl (\<lambda>s1 (j, m). s1[j := s1 ! j + s1 ! i * of_int m]) s jms)[i := 0]"

definition run :: "limb_op list \<Rightarrow> ('a::len) word list \<Rightarrow> 'a word list" where
  "run ops s = foldl (\<lambda>s op. exec op s) s ops"

section \<open>Their images on integers and on intervals\<close>

fun iexec :: "limb_op \<Rightarrow> int list \<Rightarrow> int list" where
  "iexec (Carry i n r j m) s =
     (let c = (s ! i + r) div 2 ^ n; s1 = s[j := s ! j + c * m] in s1[i := s1 ! i - c * 2 ^ n])"
| "iexec (Fold i jms) s = (foldl (\<lambda>s1 (j, m). s1[j := s1 ! j + s1 ! i * m]) s jms)[i := 0]"

type_synonym bounds = "(int \<times> int) list"

definition fits :: "nat \<Rightarrow> int \<times> int \<Rightarrow> bool" where
  "fits w b \<longleftrightarrow> - (2 ^ (w - 1)) \<le> fst b \<and> snd b < 2 ^ (w - 1)"

definition plus_mult :: "int \<times> int \<Rightarrow> int \<times> int \<Rightarrow> int \<Rightarrow> int \<times> int" where
  "plus_mult b c m = (if 0 \<le> m then (fst b + fst c * m, snd b + snd c * m) else (fst b + snd c * m, snd b + fst c * m))"

fun bexec :: "nat \<Rightarrow> limb_op \<Rightarrow> bounds \<Rightarrow> bounds option" where
  "bexec w (Carry i n r j m) bs =
     (if i < length bs \<and> j < length bs \<and> i \<noteq> j then
        let b = bs ! i; t = (fst b + r, snd b + r); c = (fst t div 2 ^ n, snd t div 2 ^ n);
            bs' = bs[j := plus_mult (bs ! j) c m, i := (- r, 2 ^ n - 1 - r)]
        in if fits w t \<and> list_all (fits w) bs' then Some bs' else None
      else None)"
| "bexec w (Fold i jms) bs =
     (if i < length bs \<and> list_all (\<lambda>(j, m). j < length bs \<and> i \<noteq> j) jms then
        let bs' = (foldl (\<lambda>b1 (j, m). b1[j := plus_mult (b1 ! j) (b1 ! i) m]) bs jms)[i := (0, 0)]
        in if list_all (fits w) bs' then Some bs' else None
      else None)"

fun brun :: "nat \<Rightarrow> limb_op list \<Rightarrow> bounds \<Rightarrow> bounds option" where
  "brun w [] bs = Some bs"
| "brun w (op # ops) bs = (case bexec w op bs of None \<Rightarrow> None | Some bs' \<Rightarrow> brun w ops bs')"

definition within :: "bounds \<Rightarrow> int list \<Rightarrow> bool" where
  "within = list_all2 (\<lambda>b x. fst b \<le> x \<and> x \<le> snd b)"

definition value_of :: "int list \<Rightarrow> int list \<Rightarrow> int" where
  "value_of ws xs = (\<Sum>i<length ws. ws ! i * xs ! i)"

fun keeps :: "int \<Rightarrow> int list \<Rightarrow> limb_op \<Rightarrow> bool" where
  "keeps M ws (Carry i n r j m) \<longleftrightarrow> M dvd ws ! j * m - 2 ^ n * ws ! i"
| "keeps M ws (Fold i jms) \<longleftrightarrow> M dvd sum_list (map (\<lambda>(j, m). ws ! j * m) jms) - ws ! i"

fun op_ok :: "nat \<Rightarrow> limb_op \<Rightarrow> int list \<Rightarrow> bool" where
  "op_ok w (Carry i n r j m) xs \<longleftrightarrow> i < length xs \<and> j < length xs \<and> i \<noteq> j \<and> - (2 ^ (w - 1)) \<le> xs ! i + r \<and> xs ! i + r < 2 ^ (w - 1)"
| "op_ok w (Fold i jms) xs \<longleftrightarrow> i < length xs \<and> list_all (\<lambda>(j, m). j < length xs \<and> i \<noteq> j) jms"

section \<open>Soundness\<close>

lemma sint_of_int:
  assumes "- (2 ^ (LENGTH('a) - 1)) \<le> k" and "k < 2 ^ (LENGTH('a) - 1)"
  shows "sint (of_int k :: 'a::len word) = k"
  using assms signed_take_bit_int_eq_self [of "LENGTH('a) - 1" k] by (simp add: signed_of_int)

lemma sints_of_ints:
  assumes "list_all (fits LENGTH('a)) bs" and "within bs xs"
  shows "map sint (map of_int xs :: 'a::len word list) = xs"
  using assms(2,1) unfolding within_def
  by (induction rule: list_all2_induct) (auto simp: fits_def intro: sint_of_int)

lemma word_of_sint: "word_of_int (sint w) = (w :: 'a::len word)"
  by simp

lemma of_ints_sints: "map of_int (map sint s) = s"
  by (simp add: comp_def)

lemma within_update:
  assumes "within bs xs" and "fst b \<le> x" and "x \<le> snd b"
  shows "within (bs[i := b]) (xs[i := x])"
  using list_all2_update_cong [of _ bs xs b x i] assms unfolding within_def by blast

lemma within_nth:
  assumes "within bs xs" and "i < length bs"
  shows "fst (bs ! i) \<le> xs ! i" and "xs ! i \<le> snd (bs ! i)"
  using assms by (auto simp: within_def list_all2_conv_all_nth)

lemma within_length: "within bs xs \<Longrightarrow> length xs = length bs"
  by (simp add: within_def list_all2_lengthD)

lemma plus_mult_ok:
  assumes "fst b \<le> x" and "x \<le> snd b" and "fst c \<le> y" and "y \<le> snd c"
  shows "fst (plus_mult b c m) \<le> x + y * m" and "x + y * m \<le> snd (plus_mult b c m)"
  using assms mult_right_mono [OF assms(3), of m] mult_right_mono [OF assms(4), of m]
    mult_right_mono_neg [OF assms(3), of m] mult_right_mono_neg [OF assms(4), of m]
  unfolding plus_mult_def by (cases "0 \<le> m"; simp; linarith)+

lemma exec_iexec:
  assumes "op_ok LENGTH('a) op (map sint s)"
  shows "exec op s = map of_int (iexec op (map sint (s :: 'a::len word list)))"
proof (cases op)
  case (Carry i n r j m)
  have a: "i < length s" "j < length s" "i \<noteq> j" "- (2 ^ (LENGTH('a) - 1)) \<le> sint (s ! i) + r" "sint (s ! i) + r < 2 ^ (LENGTH('a) - 1)"
    using assms by (auto simp: Carry)
  have "s ! i + of_int r = of_int (sint (s ! i) + r)" by simp
  then have "sint (signed_drop_bit n (s ! i + of_int r)) = (sint (s ! i) + r) div 2 ^ n"
    using sint_of_int [OF a(4,5)] by (simp only: sint_signed_drop_bit_eq drop_bit_eq_div)
  then have c: "signed_drop_bit n (s ! i + of_int r) = of_int ((sint (s ! i) + r) div 2 ^ n)"
    using word_of_sint [of "signed_drop_bit n (s ! i + of_int r)"] by simp
  show ?thesis using a by (simp add: Carry c Let_def map_update push_bit_eq_mult comp_def)
next
  case (Fold i jms)
  have a: "i < length s" "list_all (\<lambda>(j, m). j < length s \<and> i \<noteq> j) jms" using assms by (simp_all add: Fold)
  have "foldl (\<lambda>s1 (j, m). s1[j := s1 ! j + s1 ! i * of_int m]) (map of_int xs :: 'a word list) jms
      = map of_int (foldl (\<lambda>s1 (j, m). s1[j := s1 ! j + s1 ! i * m]) xs jms)" if "length xs = length s" for xs
    using a(2) that
  proof (induction jms arbitrary: xs)
    case (Cons p jms)
    obtain j m where p: "p = (j, m)" "j < length s" using Cons.prems(1) by (cases p) auto
    have "(map of_int xs :: 'a word list)[j := map of_int xs ! j + map of_int xs ! i * of_int m] = map of_int (xs[j := xs ! j + xs ! i * m])"
      using p a(1) Cons.prems by (simp add: map_update)
    then show ?case using Cons.IH [of "xs[j := xs ! j + xs ! i * m]"] Cons.prems by (simp add: p)
  qed simp
  from this [of "map sint s"] show ?thesis by (simp add: Fold map_update comp_def)
qed

lemma bexec_sound:
  assumes "bexec w op bs = Some bs'" and "within bs xs"
  shows "within bs' (iexec op xs)" and "list_all (fits w) bs'" and "length bs' = length bs"
    and "op_ok w op xs"
proof -
  note l = within_length [OF assms(2)]
  have "within bs' (iexec op xs) \<and> list_all (fits w) bs' \<and> length bs' = length bs \<and> op_ok w op xs"
  proof (cases op)
    case (Carry i n r j m)
    let ?b = "bs ! i" and ?c = "(xs ! i + r) div 2 ^ n"
    let ?t = "(fst ?b + r, snd ?b + r)"
    let ?cb = "(fst ?t div 2 ^ n, snd ?t div 2 ^ n)"
    have a: "i < length bs" "j < length bs" "i \<noteq> j" "fits w ?t" "list_all (fits w) bs'"
      "bs' = bs[j := plus_mult (bs ! j) ?cb m, i := (- r, 2 ^ n - 1 - r)]"
      using assms(1) by (auto simp: Carry Let_def split: if_splits)
    have x: "fst ?b \<le> xs ! i" "xs ! i \<le> snd ?b" using within_nth [OF assms(2) a(1)] .
    have c: "fst ?cb \<le> ?c" "?c \<le> snd ?cb" using x by (simp_all add: zdiv_mono1)
    have "xs ! i - ?c * 2 ^ n = (xs ! i + r) mod 2 ^ n - r" by (simp add: minus_div_mult_eq_mod [symmetric])
    moreover have "0 \<le> (xs ! i + r) mod 2 ^ n" "(xs ! i + r) mod 2 ^ n < 2 ^ n" by simp_all
    ultimately have i: "- r \<le> xs ! i - ?c * 2 ^ n" "xs ! i - ?c * 2 ^ n \<le> 2 ^ n - 1 - r" by linarith+
    have "within bs' (xs[j := xs ! j + ?c * m, i := xs ! i - ?c * 2 ^ n])"
      unfolding a(6) using plus_mult_ok [OF within_nth [OF assms(2) a(2)] c] i
      by (intro within_update [OF within_update [OF assms(2)]]) simp_all
    then show ?thesis using a x l by (simp add: Carry Let_def fits_def)
  next
    case (Fold i jms)
    have a: "i < length bs" "list_all (\<lambda>(j, m). j < length bs \<and> i \<noteq> j) jms" "list_all (fits w) bs'"
      "bs' = (foldl (\<lambda>b1 (j, m). b1[j := plus_mult (b1 ! j) (b1 ! i) m]) bs jms)[i := (0, 0)]"
      using assms(1) by (auto simp: Fold Let_def split: if_splits)
    have "within (foldl (\<lambda>b1 (j, m). b1[j := plus_mult (b1 ! j) (b1 ! i) m]) bs1 jms)
        (foldl (\<lambda>s1 (j, m). s1[j := s1 ! j + s1 ! i * m]) xs1 jms)
      \<and> length (foldl (\<lambda>b1 (j, m). b1[j := plus_mult (b1 ! j) (b1 ! i) m]) bs1 jms) = length bs1"
      if "within bs1 xs1" "length bs1 = length bs" for bs1 xs1
      using a(2) that
    proof (induction jms arbitrary: bs1 xs1)
      case (Cons p jms)
      obtain j m where p: "p = (j, m)" "j < length bs" using Cons.prems(1) by (cases p) auto
      have "within (bs1[j := plus_mult (bs1 ! j) (bs1 ! i) m]) (xs1[j := xs1 ! j + xs1 ! i * m])"
        using plus_mult_ok [OF within_nth [OF Cons.prems(2)] within_nth [OF Cons.prems(2)]] p a(1) Cons.prems(3)
        by (intro within_update [OF Cons.prems(2)]) simp_all
      from Cons.IH [OF _ this] show ?case using Cons.prems by (simp add: p)
    qed simp
    from this [OF assms(2) refl] show ?thesis using a l by (simp add: Fold within_update)
  qed
  then show "within bs' (iexec op xs)" "list_all (fits w) bs'" "length bs' = length bs" "op_ok w op xs"
    by blast+
qed

lemma value_of_update:
  assumes "i < length ws" and "length xs = length ws"
  shows "value_of ws (xs[i := x]) = value_of ws xs + ws ! i * (x - xs ! i)"
proof -
  have "value_of ws (xs[i := x]) - value_of ws xs = (\<Sum>k<length ws. ws ! k * (xs[i := x] ! k - xs ! k))"
    by (simp add: value_of_def sum_subtractf right_diff_distrib)
  also have "\<dots> = (\<Sum>k \<in> {i}. ws ! k * (xs[i := x] ! k - xs ! k))"
    using assms by (intro sum.mono_neutral_right) auto
  finally show ?thesis using assms by simp
qed

lemma iexec_keeps:
  assumes "keeps M ws op" and "length xs = length ws"
    and "op_ok w op xs"
  shows "M dvd value_of ws (iexec op xs) - value_of ws xs \<and> length (iexec op xs) = length ws"
proof (cases op)
  case (Carry i n r j m)
  let ?c = "(xs ! i + r) div 2 ^ n"
  have a: "i < length ws" "j < length ws" "i \<noteq> j" using assms(2,3) by (simp_all add: Carry)
  have "value_of ws (iexec op xs) - value_of ws xs = ?c * (ws ! j * m - 2 ^ n * ws ! i)"
    using a assms(2) by (simp add: Carry Let_def value_of_update algebra_simps)
  then show ?thesis using assms(1,2) by (simp add: Carry Let_def)
next
  case (Fold i jms)
  have a: "i < length ws" "list_all (\<lambda>(j, m). j < length ws \<and> i \<noteq> j) jms" using assms(2,3) by (simp_all add: Fold)
  have *: "value_of ws (foldl (\<lambda>s1 (j, m). s1[j := s1 ! j + s1 ! i * m]) ys jms) = value_of ws ys + ys ! i * sum_list (map (\<lambda>(j, m). ws ! j * m) jms)
      \<and> foldl (\<lambda>s1 (j, m). s1[j := s1 ! j + s1 ! i * m]) ys jms ! i = ys ! i
      \<and> length (foldl (\<lambda>s1 (j, m). s1[j := s1 ! j + s1 ! i * m]) ys jms) = length ws" if "length ys = length ws" for ys
    using a(2) that
  proof (induction jms arbitrary: ys)
    case (Cons p jms)
    obtain j m where p: "p = (j, m)" "j < length ws" "i \<noteq> j" using Cons.prems(1) by (cases p) auto
    have "length (ys[j := ys ! j + ys ! i * m]) = length ws" using Cons.prems(2) by simp
    from Cons.IH [OF _ this] Cons.prems p show ?case by (simp add: value_of_update algebra_simps)
  qed simp
  have "value_of ws (iexec op xs) - value_of ws xs = xs ! i * (sum_list (map (\<lambda>(j, m). ws ! j * m) jms) - ws ! i)"
    using * [OF assms(2)] a(1) by (simp add: Fold value_of_update right_diff_distrib mult.commute)
  then show ?thesis using assms(1) * [OF assms(2)] by (simp add: Fold)
qed

theorem run_sound:
  assumes "brun LENGTH('a) ops bs = Some bs'" and "within bs (map sint s)"
    and "list_all (keeps M ws) ops" and "length ws = length s"
  shows "within bs' (map sint (run ops (s :: 'a::len word list)))
    \<and> M dvd value_of ws (map sint (run ops s)) - value_of ws (map sint s)"
  using assms
proof (induction ops arbitrary: bs s)
  case Nil
  then show ?case by (simp add: run_def)
next
  case (Cons op ops)
  obtain bs1 where b: "bexec LENGTH('a) op bs = Some bs1" "brun LENGTH('a) ops bs1 = Some bs'"
    using Cons.prems(1) by (auto split: option.splits)
  note B = bexec_sound [OF b(1) Cons.prems(2)]
  have e: "exec op s = map of_int (iexec op (map sint s))"
    by (rule exec_iexec [OF B(4)])
  have k: "M dvd value_of ws (iexec op (map sint s)) - value_of ws (map sint s)" "length (iexec op (map sint s)) = length ws"
    using iexec_keeps [OF _ _ B(4), of M ws] Cons.prems(3,4) by simp_all
  have s: "map sint (exec op s) = iexec op (map sint s)" unfolding e by (rule sints_of_ints [OF B(2,1)])
  have "within bs' (map sint (run ops (exec op s))) \<and> M dvd value_of ws (map sint (run ops (exec op s))) - value_of ws (map sint (exec op s))"
    using Cons.IH [OF b(2), of "exec op s"] B(1) Cons.prems(3) k(2) by (simp add: s [symmetric] del: map_map)
  then show ?case using k(1) dvd_add [of M "value_of ws (map sint (run ops (exec op s))) - value_of ws (map sint (exec op s))"
      "value_of ws (iexec op (map sint s)) - value_of ws (map sint s)"]
    by (simp add: run_def s)
qed

section \<open>Numbers, bytes and digits\<close>

definition le_nat :: "bytes \<Rightarrow> nat" where "le_nat bs = bytes_nat (rev bs)"

lemma le_nat_Nil [simp]: "le_nat [] = 0"
  by (simp add: le_nat_def)

lemma le_nat_Cons [simp]: "le_nat (b # bs) = unat b + 256 * le_nat bs"
  by (simp add: le_nat_def)

lemma le_nat_zeros: "le_nat (replicate n 0) = 0"
  by (induction n) simp_all

lemma le_nat_bound: "le_nat bs < 256 ^ length bs"
  using bytes_nat_bound [of "rev bs"] by (simp add: le_nat_def)

lemma byte_bound: "unat (w :: byte) < 256"
  using unsigned_less [of w, where ?'a = nat] by simp

lemma le_nat_drop: "le_nat (drop k bs) = le_nat bs div 256 ^ k"
proof (induction k arbitrary: bs)
  case (Suc k)
  show ?case
  proof (cases bs)
    case (Cons b bs')
    have "(unat b + 256 * le_nat bs') div 256 = le_nat bs'" using byte_bound [of b] by simp
    then show ?thesis using Suc.IH [of bs'] by (simp add: Cons div_mult2_eq)
  qed simp
qed simp

lemma le_nat_take: "le_nat (take k bs) = le_nat bs mod 256 ^ k"
proof (induction k arbitrary: bs)
  case (Suc k)
  show ?case
  proof (cases bs)
    case (Cons b bs')
    have "(unat b + 256 * le_nat bs') mod (256 * 256 ^ k) = unat b + 256 * (le_nat bs' mod 256 ^ k)"
      using byte_bound [of b] mod_mult2_eq [of "unat b + 256 * le_nat bs'" 256 "256 ^ k"] by simp
    then show ?thesis using Suc.IH [of bs'] by (simp add: Cons)
  qed simp
qed simp

lemma le_word_le_nat: "(le_word bs :: 'a::len word) = of_nat (le_nat bs)"
proof (induction bs)
  case Nil
  then show ?case by (simp add: le_word_def le_nat_def)
next
  case (Cons b bs)
  have "(le_word (b # bs) :: 'a word) = or (ucast b) (push_bit 8 (le_word bs))" by (simp add: le_word_def)
  also have "\<dots> = ucast b + push_bit 8 (le_word bs)"
    by (rule disjunctive_add [symmetric]) (auto simp: bit_simps dest: bit_imp_le_length)
  also have "\<dots> = of_nat (unat b + 256 * le_nat bs)" by (simp add: Cons push_bit_eq_mult mult.commute)
  finally show ?case by simp
qed

lemma le_nat_of_digits: "le_nat (map (\<lambda>k. of_nat (N div 256 ^ k)) [0..<n]) = N mod 256 ^ n"
proof (induction n arbitrary: N)
  case (Suc n)
  have "map (\<lambda>k. of_nat (N div 256 ^ k)) [0..<Suc n] = (of_nat N :: byte) # map (\<lambda>k. of_nat (N div 256 div 256 ^ k)) [0..<n]"
    by (simp only: upt_conv_Cons zero_less_Suc map_Suc_upt [symmetric]) (simp add: comp_def div_mult2_eq)
  then show ?case using Suc.IH [of "N div 256"] mod_mult2_eq [of N 256 "256 ^ n"] by (simp add: unat_of_nat)
qed simp

text \<open>A number is the sum of its digits of \<open>k\<close> bits.\<close>

lemma sum_of_digits: "(\<Sum>i<n. B ^ i * (N div B ^ i mod B)) + B ^ n * (N div B ^ n) = (N :: nat)"
proof (induction n)
  case (Suc n)
  have "N div B ^ Suc n = N div B ^ n div B" by (simp only: power_Suc2 div_mult2_eq)
  then have "B ^ n * (N div B ^ n mod B) + B ^ Suc n * (N div B ^ Suc n) = B ^ n * (N div B ^ n mod B + B * (N div B ^ n div B))"
    by (simp only: power_Suc2 distrib_left mult.assoc)
  also have "\<dots> = B ^ n * (N div B ^ n)" by simp
  finally show ?case using Suc.IH by simp
qed simp

section \<open>Loads\<close>

definition load3 :: "bytes \<Rightarrow> i64" where
  "load3 b = ucast (b ! 0) OR push_bit 8 (ucast (b ! 1)) OR push_bit 16 (ucast (b ! 2))"

definition load4 :: "bytes \<Rightarrow> i64" where
  "load4 b = ucast (b ! 0) OR push_bit 8 (ucast (b ! 1)) OR push_bit 16 (ucast (b ! 2)) OR push_bit 24 (ucast (b ! 3))"

lemma load3_eq:
  assumes "3 \<le> length b"
  shows "load3 b = of_nat (le_nat b mod 2 ^ 24)"
proof -
  obtain x y z r where b: "b = x # y # z # r" using assms by (auto simp: numeral_3_eq_3 Suc_le_length_iff)
  have "load3 b = le_word (take 3 b)" by (simp add: b load3_def le_word_def push_bit_or or.assoc)
  then show ?thesis unfolding le_word_le_nat le_nat_take by simp
qed

lemma load4_eq:
  assumes "4 \<le> length b"
  shows "load4 b = of_nat (le_nat b mod 2 ^ 32)"
proof -
  obtain x y z w r where b: "b = x # y # z # w # r" using assms by (auto simp: eval_nat_numeral Suc_le_length_iff)
  have "load4 b = le_word (take 4 b)" by (simp add: b load4_def le_word_def push_bit_or or.assoc)
  then show ?thesis unfolding le_word_le_nat le_nat_take by simp
qed

lemma shift_of_nat:
  assumes "M < 2 ^ (LENGTH('a) - 1)"
  shows "signed_drop_bit r (of_nat M :: 'a::len word) = of_nat (M div 2 ^ r)" and "sint (of_nat M :: 'a word) = int M"
proof -
  have "(- (2 ^ (LENGTH('a) - 1)) :: int) \<le> int M" by (rule order_trans [of _ 0]) simp_all
  moreover have "int M < 2 ^ (LENGTH('a) - 1)" using assms by (metis of_nat_less_iff of_nat_numeral of_nat_power)
  ultimately have s: "sint (of_nat M :: 'a word) = int M" using sint_of_int [of "int M", where ?'a = 'a] by simp
  have "sint (signed_drop_bit r (of_nat M :: 'a word)) = int (M div 2 ^ r)"
    by (simp add: sint_signed_drop_bit_eq s drop_bit_eq_div zdiv_int)
  then show "signed_drop_bit r (of_nat M :: 'a word) = of_nat (M div 2 ^ r)"
    using word_of_sint [of "signed_drop_bit r (of_nat M :: 'a word)"] by simp
  show "sint (of_nat M :: 'a word) = int M" by fact
qed

lemma shift64:
  assumes "M < 2 ^ 63"
  shows "signed_drop_bit r (of_nat M :: i64) = of_nat (M div 2 ^ r)" and "sint (of_nat M :: i64) = int M"
  using shift_of_nat [of M, where ?'a = 64] assms by simp_all

lemma and_mask_of_nat: "2097151 AND (of_nat M :: i64) = of_nat (M mod 2 ^ 21)"
proof -
  have "(2097151 :: i64) = mask 21" by (simp add: mask_eq_exp_minus_1)
  then have "2097151 AND (of_nat M :: i64) = take_bit 21 (of_nat M)" by (simp only: take_bit_eq_mask and.commute)
  also have "\<dots> = of_nat (take_bit 21 M)" by (rule take_bit_of_nat)
  finally show ?thesis by (simp only: take_bit_eq_mod)
qed


section \<open>Stores\<close>

text \<open>A list of digits with their numbers of bits, joined; the bytes that are cut out of it.\<close>

definition joinb :: "(nat \<times> nat) list \<Rightarrow> nat" where "joinb bds = foldr (\<lambda>(b, d) a. d + 2 ^ b * a) bds 0"

definition offs :: "(nat \<times> nat) list \<Rightarrow> nat \<Rightarrow> nat" where "offs bds i = sum_list (map fst (take i bds))"

definition digits_ok :: "(nat \<times> nat) list \<Rightarrow> bool" where "digits_ok = list_all (\<lambda>(b, d). d < 2 ^ b)"

lemma digits_okD: "digits_ok bds \<Longrightarrow> j < length bds \<Longrightarrow> snd (bds ! j) < 2 ^ fst (bds ! j)"
  by (auto simp: digits_ok_def list_all_length split_beta)

lemma joinb_div:
  assumes "i < length bds" and "digits_ok (take i bds)"
  shows "joinb bds div 2 ^ offs bds i = snd (bds ! i) + 2 ^ fst (bds ! i) * joinb (drop (Suc i) bds)"
  using assms
proof (induction i arbitrary: bds)
  case 0
  then show ?case by (cases bds) (auto simp: joinb_def offs_def)
next
  case (Suc i)
  then obtain b d bds' where bds: "bds = (b, d) # bds'" by (cases bds) auto
  have "d < 2 ^ b" using Suc.prems(2) by (simp add: bds digits_ok_def)
  then have "(d + 2 ^ b * joinb bds') div 2 ^ b = joinb bds'" by simp
  moreover have "joinb bds' div 2 ^ offs bds' i = snd (bds' ! i) + 2 ^ fst (bds' ! i) * joinb (drop (Suc i) bds')"
    using Suc.prems by (intro Suc.IH) (simp_all add: bds digits_ok_def)
  ultimately show ?case by (simp add: bds power_add div_mult2_eq joinb_def offs_def)
qed

lemma bit_join:
  assumes "d < 2 ^ m"
  shows "bit (d + 2 ^ m * R :: nat) n \<longleftrightarrow> (if n < m then bit d n else bit R (n - m))"
proof -
  have d: "\<not> bit d k" if "m \<le> k" for k
    using that assms by (metis bit_take_bit_iff not_le take_bit_nat_eq_self)
  have "d + push_bit m R = or d (push_bit m R)" using d by (intro disjunctive_add) (auto simp: bit_simps)
  then have "d + 2 ^ m * R = or d (push_bit m R)" by (simp add: push_bit_eq_mult mult.commute)
  then show ?thesis using d by (auto simp: bit_simps)
qed

lemma joinb_byte:
  assumes "8 * k = offs bds i + r" and "i < length bds" and "digits_ok (take i bds)"
  shows "joinb bds div 256 ^ k = drop_bit r (snd (bds ! i) + 2 ^ fst (bds ! i) * joinb (drop (Suc i) bds))"
proof -
  have "(256 :: nat) ^ k = 2 ^ (8 * k)" by (simp only: power_mult) simp
  then have "joinb bds div 256 ^ k = joinb bds div 2 ^ offs bds i div 2 ^ r" by (simp only: assms(1) power_add div_mult2_eq)
  also have "joinb bds div 2 ^ offs bds i = snd (bds ! i) + 2 ^ fst (bds ! i) * joinb (drop (Suc i) bds)"
    by (rule joinb_div) (use assms in simp_all)
  finally show ?thesis by (simp only: drop_bit_eq_div)
qed

lemma ucast_of_nat_byte:
  assumes "8 \<le> LENGTH('a)"
  shows "(ucast (of_nat n :: 'a::len word) :: byte) = of_nat n"
  by (rule bit_word_eqI) (use assms in \<open>auto simp: bit_simps\<close>)

lemma store_byte:
  assumes "8 * k = offs bds i + r" and "i < length bds" and "digits_ok (take i bds)"
    and "snd (bds ! i) < 2 ^ (LENGTH('a) - 1)" and "8 \<le> LENGTH('a)"
    and "r + 8 \<le> fst (bds ! i) \<and> snd (bds ! i) < 2 ^ fst (bds ! i) \<or> drop (Suc i) bds = []"
  shows "(ucast (signed_drop_bit r (of_nat (snd (bds ! i)) :: 'a::len word)) :: byte) = of_nat (joinb bds div 256 ^ k)"
proof -
  let ?d = "snd (bds ! i)" and ?b = "fst (bds ! i)"
  have "(ucast (signed_drop_bit r (of_nat ?d :: 'a word)) :: byte) = of_nat (drop_bit r ?d)"
    by (simp only: shift_of_nat(1) [OF assms(4)] ucast_of_nat_byte [OF assms(5)] drop_bit_eq_div)
  also have "\<dots> = (of_nat (drop_bit r (?d + 2 ^ ?b * joinb (drop (Suc i) bds))) :: byte)"
    using assms(6)
  proof
    assume "r + 8 \<le> ?b \<and> ?d < 2 ^ ?b"
    then show ?thesis by (intro bit_word_eqI) (simp add: bit_simps bit_join)
  qed (simp add: joinb_def)
  finally show ?thesis by (simp only: joinb_byte [OF assms(1-3)])
qed

lemma store_byte2:
  assumes "8 * k = offs bds i + r" and "Suc i < length bds" and "digits_ok (take (Suc i) bds)"
    and "fst (bds ! i) < LENGTH('a)" and "8 \<le> LENGTH('a)" and "r < fst (bds ! i)" and "t = fst (bds ! i) - r"
    and "8 - t \<le> fst (bds ! Suc i) \<and> snd (bds ! Suc i) < 2 ^ fst (bds ! Suc i) \<or> drop (Suc (Suc i)) bds = []"
  shows "(ucast (signed_drop_bit r (of_nat (snd (bds ! i)) :: 'a::len word) OR push_bit t (of_nat (snd (bds ! Suc i)))) :: byte)
    = of_nat (joinb bds div 256 ^ k)"
proof -
  let ?d = "snd (bds ! i)" and ?b = "fst (bds ! i)" and ?e = "snd (bds ! Suc i)" and ?R = "joinb (drop (Suc i) bds)"
  have d: "?d < 2 ^ ?b" using digits_okD [OF assms(3), of i] assms(2) by simp
  have cons: "drop (Suc i) bds = bds ! Suc i # drop (Suc (Suc i)) bds" using assms(2) by (simp add: Cons_nth_drop_Suc)
  have R: "bit ?R n = bit ?e n" if "n < 8 - t" for n
    using assms(8)
  proof
    assume e: "8 - t \<le> fst (bds ! Suc i) \<and> ?e < 2 ^ fst (bds ! Suc i)"
    have "?R = ?e + 2 ^ fst (bds ! Suc i) * joinb (drop (Suc (Suc i)) bds)" unfolding cons by (simp add: joinb_def split_beta)
    then show ?thesis using e that bit_join [of ?e] by simp
  qed (simp add: cons joinb_def split_beta)
  have "(2 :: nat) ^ ?b \<le> 2 ^ (LENGTH('a) - 1)" using assms(4) by (intro power_increasing) simp_all
  with d have "?d < 2 ^ (LENGTH('a) - 1)" by (rule less_le_trans)
  then have s: "signed_drop_bit r (of_nat ?d :: 'a word) = of_nat (drop_bit r ?d)" by (simp only: shift_of_nat(1) drop_bit_eq_div)
  have high: "\<not> bit ?d m" if "?b \<le> m" for m
    using d that by (metis bit_take_bit_iff not_le take_bit_nat_eq_self)
  have "(ucast (signed_drop_bit r (of_nat ?d :: 'a word) OR push_bit t (of_nat ?e)) :: byte) = of_nat (drop_bit r (?d + 2 ^ ?b * ?R))"
    unfolding s
  proof (rule bit_word_eqI)
    fix n assume "n < LENGTH(8)"
    then have n: "n < 8" by simp
    then show "bit (ucast (of_nat (drop_bit r ?d) OR push_bit t (of_nat ?e) :: 'a word) :: byte) n
        = bit (of_nat (drop_bit r (?d + 2 ^ ?b * ?R)) :: byte) n"
      using assms(5,6,7) R [of "n - t"] high [of "r + n"] by (auto simp: bit_simps bit_join [OF d] add.commute [of n r])
  qed
  also have "drop_bit r (?d + 2 ^ ?b * ?R) = joinb bds div 256 ^ k"
    by (rule joinb_byte [symmetric, OF assms(1)]) (use assms(2,3) in \<open>simp_all add: digits_ok_def list_all_length\<close>)
  finally show ?thesis .
qed

end
