(* ===== verification/Sc25519.thy ===== *)
theory Sc25519
  imports Limbs
begin

text \<open>
  Arithmetic modulo the order of the base point (\<open>ScReduce\<close> and \<open>ScMulAdd\<close> of
  \<open>ed25519/edwards25519/edwards25519.go\<close>). Scalars are read as limbs of 21 bits in \<open>int64\<close>,
  multiplied, folded with \<open>2 ^ 252 = - 27742317777372353535851937790883648493\<close>
  modulo the sc_order, and written back.
\<close>

unbundle bit_operations_syntax

definition sc_order :: nat where "sc_order = 2 ^ 252 + 27742317777372353535851937790883648493"

section \<open>The steps\<close>

text \<open>The carries with and without rounding, and \<open>s[i-12] += s[i] * 666643; ...; s[i] = 0\<close>.\<close>

definition sc_round :: "nat \<Rightarrow> limb_op" where "sc_round i = Carry i 21 (2 ^ 20) (i + 1) 1"

definition sc_floor :: "nat \<Rightarrow> limb_op" where "sc_floor i = Carry i 21 0 (i + 1) 1"

definition sc_fold :: "nat \<Rightarrow> limb_op" where
  "sc_fold i = Fold i [(i - 12, 666643), (i - 11, 470296), (i - 10, 654183), (i - 9, - 997805), (i - 8, 136657), (i - 7, - 683901)]"

definition sc_load :: "bytes \<Rightarrow> i64 list" where
  "sc_load a =
     [2097151 AND load3 a,
      2097151 AND signed_drop_bit 5 (load4 (drop 2 a)),
      2097151 AND signed_drop_bit 2 (load3 (drop 5 a)),
      2097151 AND signed_drop_bit 7 (load4 (drop 7 a)),
      2097151 AND signed_drop_bit 4 (load4 (drop 10 a)),
      2097151 AND signed_drop_bit 1 (load3 (drop 13 a)),
      2097151 AND signed_drop_bit 6 (load4 (drop 15 a)),
      2097151 AND signed_drop_bit 3 (load3 (drop 18 a)),
      2097151 AND load3 (drop 21 a),
      2097151 AND signed_drop_bit 5 (load4 (drop 23 a)),
      2097151 AND signed_drop_bit 2 (load3 (drop 26 a)),
      signed_drop_bit 7 (load4 (drop 28 a))]"

definition sc_load64 :: "bytes \<Rightarrow> i64 list" where
  "sc_load64 s =
     [2097151 AND load3 s,
      2097151 AND signed_drop_bit 5 (load4 (drop 2 s)),
      2097151 AND signed_drop_bit 2 (load3 (drop 5 s)),
      2097151 AND signed_drop_bit 7 (load4 (drop 7 s)),
      2097151 AND signed_drop_bit 4 (load4 (drop 10 s)),
      2097151 AND signed_drop_bit 1 (load3 (drop 13 s)),
      2097151 AND signed_drop_bit 6 (load4 (drop 15 s)),
      2097151 AND signed_drop_bit 3 (load3 (drop 18 s)),
      2097151 AND load3 (drop 21 s),
      2097151 AND signed_drop_bit 5 (load4 (drop 23 s)),
      2097151 AND signed_drop_bit 2 (load3 (drop 26 s)),
      2097151 AND signed_drop_bit 7 (load4 (drop 28 s)),
      2097151 AND signed_drop_bit 4 (load4 (drop 31 s)),
      2097151 AND signed_drop_bit 1 (load3 (drop 34 s)),
      2097151 AND signed_drop_bit 6 (load4 (drop 36 s)),
      2097151 AND signed_drop_bit 3 (load3 (drop 39 s)),
      2097151 AND load3 (drop 42 s),
      2097151 AND signed_drop_bit 5 (load4 (drop 44 s)),
      2097151 AND signed_drop_bit 2 (load3 (drop 47 s)),
      2097151 AND signed_drop_bit 7 (load4 (drop 49 s)),
      2097151 AND signed_drop_bit 4 (load4 (drop 52 s)),
      2097151 AND signed_drop_bit 1 (load3 (drop 55 s)),
      2097151 AND signed_drop_bit 6 (load4 (drop 57 s)),
      signed_drop_bit 3 (load4 (drop 60 s))]"

text \<open>\<open>s[k] = c[k] + a[0]*b[k] + ... + a[k]*b[0]\<close>, over the limbs that exist; \<open>s[23] = 0\<close>.\<close>

definition sc_products :: "i64 list \<Rightarrow> i64 list \<Rightarrow> i64 list \<Rightarrow> i64 list" where
  "sc_products a b c =
     map (\<lambda>k. (if k < 12 then c ! k else 0) + sum_list (map (\<lambda>i. a ! i * b ! (k - i)) (filter (\<lambda>i. i \<le> k \<and> k < i + 12) [0..<12]))) [0..<24]"

definition sc_carries :: "limb_op list" where
  "sc_carries = map sc_round [0, 2, 4, 6, 8, 10, 12, 14, 16, 18, 20, 22] @ map sc_round [1, 3, 5, 7, 9, 11, 13, 15, 17, 19, 21]"

definition sc_fold_high :: "limb_op list" where "sc_fold_high = map sc_fold [23, 22, 21, 20, 19, 18]"

definition sc_fold_low :: "limb_op list" where
  "sc_fold_low = map sc_round [6, 8, 10, 12, 14, 16] @ map sc_round [7, 9, 11, 13, 15] @ map sc_fold [17, 16, 15, 14, 13, 12]"

definition sc_last_round :: "limb_op list" where
  "sc_last_round = map sc_round [0, 2, 4, 6, 8, 10] @ map sc_round [1, 3, 5, 7, 9, 11] @ [sc_fold 12]"

definition sc_finish1 :: "limb_op list" where "sc_finish1 = map sc_floor [0, 1, 2, 3, 4, 5, 6, 7, 8, 9, 10, 11]"

definition sc_finish2 :: "limb_op list" where "sc_finish2 = sc_fold 12 # map sc_floor [0, 1, 2, 3, 4, 5, 6, 7, 8, 9, 10]"

definition sc_store :: "i64 list \<Rightarrow> bytes" where
  "sc_store s = map ucast
     [s ! 0, signed_drop_bit 8 (s ! 0), signed_drop_bit 16 (s ! 0) OR push_bit 5 (s ! 1),
      signed_drop_bit 3 (s ! 1), signed_drop_bit 11 (s ! 1), signed_drop_bit 19 (s ! 1) OR push_bit 2 (s ! 2),
      signed_drop_bit 6 (s ! 2), signed_drop_bit 14 (s ! 2) OR push_bit 7 (s ! 3),
      signed_drop_bit 1 (s ! 3), signed_drop_bit 9 (s ! 3), signed_drop_bit 17 (s ! 3) OR push_bit 4 (s ! 4),
      signed_drop_bit 4 (s ! 4), signed_drop_bit 12 (s ! 4), signed_drop_bit 20 (s ! 4) OR push_bit 1 (s ! 5),
      signed_drop_bit 7 (s ! 5), signed_drop_bit 15 (s ! 5) OR push_bit 6 (s ! 6),
      signed_drop_bit 2 (s ! 6), signed_drop_bit 10 (s ! 6), signed_drop_bit 18 (s ! 6) OR push_bit 3 (s ! 7),
      signed_drop_bit 5 (s ! 7), signed_drop_bit 13 (s ! 7),
      s ! 8, signed_drop_bit 8 (s ! 8), signed_drop_bit 16 (s ! 8) OR push_bit 5 (s ! 9),
      signed_drop_bit 3 (s ! 9), signed_drop_bit 11 (s ! 9), signed_drop_bit 19 (s ! 9) OR push_bit 2 (s ! 10),
      signed_drop_bit 6 (s ! 10), signed_drop_bit 14 (s ! 10) OR push_bit 7 (s ! 11),
      signed_drop_bit 1 (s ! 11), signed_drop_bit 9 (s ! 11), signed_drop_bit 17 (s ! 11)]"

definition ScReduce :: "bytes \<Rightarrow> bytes" where
  "ScReduce s = sc_store (run (sc_fold_high @ sc_fold_low @ sc_last_round @ sc_finish1 @ sc_finish2) (sc_load64 s))"

definition ScMulAdd :: "bytes \<Rightarrow> bytes \<Rightarrow> bytes \<Rightarrow> bytes" where
  "ScMulAdd a b c = sc_store (run (sc_carries @ sc_fold_high @ sc_fold_low @ sc_last_round @ sc_finish1 @ sc_finish2)
     (sc_products (sc_load a) (sc_load b) (sc_load c)))"

section \<open>Loading\<close>

definition digit :: "nat \<Rightarrow> nat \<Rightarrow> nat" where "digit N i = N div (2 ^ 21) ^ i mod 2 ^ 21"

lemma limb_mod:
  assumes "8 * k + r = 21 * i" and "r + 21 \<le> m" and "m \<le> 32" and "x = (of_nat (le_nat (drop k b) mod 2 ^ m) :: i64)"
  shows "2097151 AND signed_drop_bit r x = of_nat (digit (le_nat b) i)"
proof -
  let ?M = "le_nat (drop k b) mod 2 ^ m"
  have "(2 :: nat) ^ m \<le> 2 ^ 32" using assms(3) by (rule power_increasing) simp
  then have "?M < 2 ^ 63" using mod_less_divisor [of "2 ^ m" "le_nat (drop k b)"] by (simp del: mod_less_divisor)
  then have "signed_drop_bit r (of_nat ?M :: i64) = of_nat (?M div 2 ^ r)" by (rule shift64(1))
  then have "2097151 AND signed_drop_bit r x = of_nat (?M div 2 ^ r mod 2 ^ 21)"
    unfolding assms(4) by (simp only: and_mask_of_nat)
  also have "?M div 2 ^ r mod 2 ^ 21 = take_bit 21 (drop_bit r (take_bit m (drop_bit (8 * k) (le_nat b))))"
    by (simp add: le_nat_drop take_bit_eq_mod drop_bit_eq_div power_mult)
  also have "\<dots> = take_bit 21 (drop_bit (21 * i) (le_nat b))"
    using assms(1,2) by (auto intro!: bit_eqI simp: bit_simps add_ac)
  finally show ?thesis by (simp add: digit_def take_bit_eq_mod drop_bit_eq_div power_mult)
qed

lemma limb3:
  assumes "k + 3 \<le> length b" and "8 * k + r = 21 * i" and "r + 21 \<le> 24"
  shows "2097151 AND signed_drop_bit r (load3 (drop k b)) = of_nat (digit (le_nat b) i)"
  by (rule limb_mod [where m = 24, OF _ _ _ load3_eq]) (use assms in simp_all)

lemma limb4:
  assumes "k + 4 \<le> length b" and "8 * k + r = 21 * i" and "r + 21 \<le> 32"
  shows "2097151 AND signed_drop_bit r (load4 (drop k b)) = of_nat (digit (le_nat b) i)"
  by (rule limb_mod [where m = 32, OF _ _ _ load4_eq]) (use assms in simp_all)

lemma limb_top:
  assumes "length b = k + 4" and "8 * k + r = 21 * i"
  shows "signed_drop_bit r (load4 (drop k b)) = of_nat (le_nat b div (2 ^ 21) ^ i)"
proof -
  let ?M = "le_nat (drop k b)"
  have M: "?M < 2 ^ 32" using le_nat_bound [of "drop k b"] assms(1) by simp
  have "load4 (drop k b) = of_nat ?M" using load4_eq [of "drop k b"] assms(1) M by simp
  moreover have "?M < 2 ^ 63" by (rule less_trans [OF M]) simp
  ultimately have "signed_drop_bit r (load4 (drop k b)) = of_nat (?M div 2 ^ r)" by (simp only: shift64)
  also have "?M div 2 ^ r = le_nat b div 2 ^ (8 * k + r)"
    by (simp add: le_nat_drop power_add power_mult div_mult2_eq)
  finally show ?thesis by (simp add: assms(2) power_mult)
qed

lemma limb_3_0:
  assumes "k + 3 \<le> length b" and "8 * k = 21 * i"
  shows "2097151 AND load3 (drop k b) = of_nat (digit (le_nat b) i)"
  using limb3 [of k b 0 i] assms by simp

lemmas sc_limbs = limb4 [where i = 1] limb3 [where i = 2] limb4 [where i = 3] limb4 [where i = 4]
  limb3 [where i = 5] limb4 [where i = 6] limb3 [where i = 7] limb_3_0 [where i = 8] limb4 [where i = 9] limb3 [where i = 10]
  limb4 [where i = 11] limb4 [where i = 12] limb3 [where i = 13] limb4 [where i = 14] limb3 [where i = 15] limb_3_0 [where i = 16]
  limb4 [where i = 17] limb3 [where i = 18] limb4 [where i = 19] limb4 [where i = 20] limb3 [where i = 21] limb4 [where i = 22]
  limb_top [where i = 11] limb_top [where i = 23]

lemma upto11: "[0..<11] = [0, 1, 2, 3, 4, 5, 6, 7, 8, 9, 10]"
  by code_simp

lemma upto23: "[0..<23] = [0, 1, 2, 3, 4, 5, 6, 7, 8, 9, 10, 11, 12, 13, 14, 15, 16, 17, 18, 19, 20, 21, 22]"
  by code_simp

lemma sc_load_eq:
  assumes "length b = 32"
  shows "sc_load b = map of_nat (map (digit (le_nat b)) [0..<11] @ [le_nat b div (2 ^ 21) ^ 11])"
  by (simp add: sc_load_def upto11 assms sc_limbs limb_3_0 [of 0 b 0, simplified])

lemma sc_load64_eq:
  assumes "length b = 64"
  shows "sc_load64 b = map of_nat (map (digit (le_nat b)) [0..<23] @ [le_nat b div (2 ^ 21) ^ 23])"
  by (simp add: sc_load64_def upto23 assms sc_limbs limb_3_0 [of 0 b 0, simplified])

section \<open>Bounds and values\<close>

definition sc_weights :: "int list" where "sc_weights = map (\<lambda>i. (2 ^ 21) ^ i) [0..<24]"

lemma sc_value_digits:
  assumes "n < 24" and "xs = map int (map (digit N) [0..<n] @ [N div (2 ^ 21) ^ n] @ replicate (23 - n) 0)"
  shows "value_of sc_weights xs = int N"
proof -
  let ?B = "2 ^ 21 :: nat"
  let ?d = "map (digit N) [0..<n] @ [N div ?B ^ n] @ replicate (23 - n) 0"
  have "length ?d = 24" using assms(1) by simp
  then have "value_of sc_weights xs = int (\<Sum>i<24. ?B ^ i * ?d ! i)"
    unfolding assms(2) value_of_def sc_weights_def by (simp del: map_append append.simps map_map)
  also have "(\<Sum>i<24. ?B ^ i * ?d ! i) = (\<Sum>i<Suc n. ?B ^ i * ?d ! i)"
    using assms(1) by (intro sum.mono_neutral_right) (auto simp: nth_append)
  also have "\<dots> = N" using sum_of_digits [of ?B N n] by (simp add: nth_append digit_def)
  finally show ?thesis .
qed

lemma keeps_floor: "i < 23 \<Longrightarrow> keeps M sc_weights (sc_round i) \<and> keeps M sc_weights (sc_floor i)"
  by (simp add: sc_round_def sc_floor_def sc_weights_def)

lemma keeps_fold:
  assumes "12 \<le> i" and "i < 24"
  shows "keeps (int sc_order) sc_weights (sc_fold i)"
proof -
  let ?B = "2 ^ 21 :: int"
  obtain j where i: "i = j + 12" using assms(1) le_Suc_ex by (metis add.commute)
  have "(\<Sum>(j, m) \<leftarrow> [(i - 12, 666643), (i - 11, 470296), (i - 10, 654183), (i - 9, - 997805), (i - 8, 136657), (i - 7, - 683901)]. sc_weights ! j * m) - sc_weights ! i
      = ?B ^ j * (666643 + ?B * 470296 + ?B ^ 2 * 654183 - ?B ^ 3 * 997805 + ?B ^ 4 * 136657 - ?B ^ 5 * 683901 - ?B ^ 12)"
    using assms(2) by (simp add: i sc_weights_def power_add algebra_simps)
  also have "666643 + ?B * 470296 + ?B ^ 2 * 654183 - ?B ^ 3 * 997805 + ?B ^ 4 * 136657 - ?B ^ 5 * 683901 - ?B ^ 12 = - int sc_order"
    by (simp add: sc_order_def)
  finally show ?thesis by (simp add: sc_fold_def)
qed

lemmas sc_programs = sc_carries_def sc_fold_high_def sc_fold_low_def sc_last_round_def sc_finish1_def sc_finish2_def

lemma keeps_sc:
  "list_all (keeps (int sc_order) sc_weights) (sc_carries @ sc_fold_high @ sc_fold_low @ sc_last_round @ sc_finish1)"
  by (simp add: sc_programs keeps_fold keeps_floor)

definition sc_mid :: bounds where "sc_mid = replicate 12 (0, 2097151) @ (- 1, 0) # replicate 11 (0, 0)"

definition sc_out :: bounds where "sc_out = replicate 11 (0, 2097151) @ (- 1, 2097152) # replicate 12 (0, 0)"

definition sc_in :: bounds where "sc_in = replicate 23 (0, 2 ^ 21 - 1) @ [(0, 2 ^ 29 - 1)]"

lemma brun_reduce: "brun 64 (sc_fold_high @ sc_fold_low @ sc_last_round @ sc_finish1) sc_in = Some sc_mid"
  by code_simp

lemma brun_finish: "brun 64 sc_finish2 sc_mid = Some sc_out"
  by code_simp


section \<open>Finishing\<close>

text \<open>After the last carry the value is congruent and above \<open>- 2 ^ 252\<close>; the last fold brings it into range.\<close>

lemma sc_mid_value:
  assumes "within sc_mid xs"
  shows "0 \<le> value_of sc_weights xs - (2 ^ 21) ^ 12 * xs ! 12 \<and> value_of sc_weights xs - (2 ^ 21) ^ 12 * xs ! 12 < (2 ^ 21) ^ 12"
proof -
  let ?B = "2 ^ 21 :: int"
  have l: "length xs = 24" using within_length [OF assms] by (simp add: sc_mid_def)
  have x: "fst (sc_mid ! i) \<le> xs ! i" "xs ! i \<le> snd (sc_mid ! i)" if "i < 24" for i
    using within_nth [OF assms, of i] that by (simp_all add: sc_mid_def)
  have "value_of sc_weights xs = (\<Sum>i<24. ?B ^ i * xs ! i)" by (simp add: value_of_def sc_weights_def)
  also have "\<dots> = (\<Sum>i<13. ?B ^ i * xs ! i)"
  proof (intro sum.mono_neutral_right ballI)
    fix i assume i: "i \<in> {..<24} - {..<13 :: nat}"
    then have "sc_mid ! i = (0, 0)" by (auto simp: sc_mid_def nth_append nth_Cons' )
    then show "?B ^ i * xs ! i = 0" using x [of i] i by simp
  qed auto
  also have "\<dots> = (\<Sum>i<12. ?B ^ i * xs ! i) + ?B ^ 12 * xs ! 12"
    using sum.lessThan_Suc [of "\<lambda>i. ?B ^ i * xs ! i" 12] by simp
  finally have v: "value_of sc_weights xs - ?B ^ 12 * xs ! 12 = (\<Sum>i<12. ?B ^ i * xs ! i)" by simp
  have d: "0 \<le> xs ! i \<and> xs ! i \<le> ?B - 1" if "i < 12" for i
    using x [of i] that by (simp add: sc_mid_def nth_append)
  have "(\<Sum>i<n. ?B ^ i * xs ! i) < ?B ^ n \<and> 0 \<le> (\<Sum>i<n. ?B ^ i * xs ! i)" if "n \<le> 12" for n
    using that
  proof (induction n)
    case (Suc n)
    have "?B ^ n * xs ! n \<le> ?B ^ n * (?B - 1)" "0 \<le> ?B ^ n * xs ! n" using d [of n] Suc.prems by (simp_all add: mult_left_mono)
    moreover have "?B ^ n * (?B - 1) + ?B ^ n = ?B ^ Suc n" by (simp add: algebra_simps)
    ultimately show ?case using Suc unfolding sum.lessThan_Suc by linarith
  qed simp
  then show ?thesis unfolding v by blast
qed

lemma sc_finish:
  assumes "within sc_mid (map sint s)" and "int sc_order dvd value_of sc_weights (map sint (s :: i64 list)) - int N"
  shows "\<exists>ds. length ds = 12 \<and> (\<forall>i < 11. ds ! i < 2 ^ 21) \<and> ds ! 11 \<le> 2 ^ 21
    \<and> take 12 (run sc_finish2 s) = map of_nat ds \<and> (\<Sum>i<12. (2 ^ 21) ^ i * ds ! i) = N mod sc_order"
proof -
  let ?B = "2 ^ 21 :: int" and ?r = "map sint (run sc_finish2 s)"
  let ?w = "sc_weights[12 := (2 ^ 21) ^ 12 - int sc_order]"
  define xs where "xs = map sint s"
  have l: "length s = 24" using within_length [OF assms(1)] by (simp add: sc_mid_def)
  have xl: "length xs = 24" using l by (simp add: xs_def)
  have "list_all (keeps 0 ?w) sc_finish2"
    by (simp add: sc_finish2_def sc_fold_def sc_floor_def sc_weights_def sc_order_def)
  from run_sound [where ?'a = 64, OF _ assms(1) this, of sc_out]
  have R: "within sc_out ?r" "value_of ?w ?r = value_of ?w xs"
    using brun_finish l by (simp_all add: sc_weights_def xs_def)
  have rl: "length ?r = 24" using within_length [OF R(1)] by (simp add: sc_out_def)
  have x12: "- 1 \<le> xs ! 12" "xs ! 12 \<le> 0" using within_nth [OF assms(1), of 12] by (simp_all add: sc_mid_def xs_def nth_append)
  have w: "value_of ?w ys = value_of sc_weights ys - int sc_order * ys ! 12" if "length ys = 24" for ys
  proof -
    have "value_of ?w ys - value_of sc_weights ys = (\<Sum>i<24. (?w ! i - sc_weights ! i) * ys ! i)"
      by (simp add: value_of_def sc_weights_def sum_subtractf left_diff_distrib)
    also have "\<dots> = (\<Sum>i\<in>{12}. (?w ! i - sc_weights ! i) * ys ! i)"
      by (intro sum.mono_neutral_right) (auto simp: sc_weights_def)
    finally show ?thesis by (simp add: sc_weights_def)
  qed
  have V: "value_of sc_weights ?r = value_of sc_weights xs - int sc_order * xs ! 12"
  proof -
    have "?r ! 12 = 0" using within_nth [OF R(1), of 12] by (simp add: sc_out_def nth_append)
    then show ?thesis using w [OF rl] w [OF xl] R(2) by simp
  qed
  have m: "0 \<le> value_of sc_weights xs - ?B ^ 12 * xs ! 12" "value_of sc_weights xs - ?B ^ 12 * xs ! 12 < ?B ^ 12"
    using sc_mid_value [OF assms(1)] by (simp_all add: xs_def)
  have o: "int sc_order = ?B ^ 12 + 27742317777372353535851937790883648493" by (simp add: sc_order_def)
  have range: "0 \<le> value_of sc_weights ?r" "value_of sc_weights ?r < int sc_order"
  proof -
    consider "xs ! 12 = - 1" | "xs ! 12 = 0" using x12 by linarith
    then have "0 \<le> value_of sc_weights ?r \<and> value_of sc_weights ?r < int sc_order"
      by cases (use m V o in simp_all)
    then show "0 \<le> value_of sc_weights ?r" "value_of sc_weights ?r < int sc_order" by simp_all
  qed
  have "value_of sc_weights ?r - int N = (value_of sc_weights (map sint s) - int N) - int sc_order * xs ! 12"
    using V by (simp add: xs_def)
  then have "int sc_order dvd value_of sc_weights ?r - int N"
    using dvd_diff [OF assms(2) dvd_triv_left [of "int sc_order" "xs ! 12"]] by (simp only:)
  then have "value_of sc_weights ?r mod int sc_order = int N mod int sc_order" by (simp add: mod_eq_dvd_iff)
  then have val: "value_of sc_weights ?r = int (N mod sc_order)" using range by (simp add: zmod_int)
  have b: "fst (sc_out ! i) \<le> ?r ! i" "?r ! i \<le> snd (sc_out ! i)" if "i < 24" for i
    using within_nth [OF R(1), of i] that by (simp_all add: sc_out_def)
  have small: "0 \<le> ?r ! i \<and> ?r ! i < ?B" if "i < 11" for i using b [of i] that by (simp add: sc_out_def nth_append)
  have zero: "?r ! i = 0" if "12 \<le> i" "i < 24" for i
  proof -
    have "sc_out ! i = (0, 0)" using that by (auto simp: sc_out_def nth_append nth_Cons')
    then show ?thesis using b [of i] that by simp
  qed
  have v12: "value_of sc_weights ?r = (\<Sum>i<12. ?B ^ i * ?r ! i)"
  proof -
    have "value_of sc_weights ?r = (\<Sum>i<24. ?B ^ i * ?r ! i)" by (simp add: value_of_def sc_weights_def)
    also have "\<dots> = (\<Sum>i<12. ?B ^ i * ?r ! i)" using zero by (intro sum.mono_neutral_right) auto
    finally show ?thesis .
  qed
  have "(\<Sum>i<n. ?B ^ i * ?r ! i) < ?B ^ n" if "n \<le> 11" for n
    using that
  proof (induction n)
    case (Suc n)
    have "?B ^ n * ?r ! n \<le> ?B ^ n * (?B - 1)" using small [of n] Suc.prems by (intro mult_left_mono) simp_all
    moreover have "?B ^ n * (?B - 1) + ?B ^ n = ?B ^ Suc n" by (simp add: algebra_simps)
    ultimately show ?case using Suc unfolding sum.lessThan_Suc by linarith
  qed simp
  from this [of 11] have "- (?B ^ 11) < ?B ^ 11 * ?r ! 11"
    using range(1) sum.lessThan_Suc [of "\<lambda>i. ?B ^ i * ?r ! i" 11] by (simp add: v12)
  then have top: "0 \<le> ?r ! 11" by simp
  have top2: "?r ! 11 \<le> ?B" using b [of 11] by (simp add: sc_out_def nth_append)
  let ?ds = "map nat (take 12 ?r)"
  have n: "int (?ds ! i) = ?r ! i" if "i < 12" for i
    using small [of i] top that rl by (cases "i < 11") (auto simp: not_less less_Suc_eq eval_nat_numeral)
  have t: "take 12 (run sc_finish2 s) = map of_nat ?ds"
  proof (rule nth_equalityI)
    show "length (take 12 (run sc_finish2 s)) = length (map of_nat ?ds)" by simp
    fix i assume "i < length (take 12 (run sc_finish2 s))"
    then have i: "i < 12" "i < length (run sc_finish2 s)" using rl by auto
    have "(of_nat (?ds ! i) :: i64) = of_int (int (?ds ! i))" by simp
    also have "\<dots> = run sc_finish2 s ! i" unfolding n [OF i(1)] using i(2) by simp
    finally show "take 12 (run sc_finish2 s) ! i = map of_nat ?ds ! i" using i rl by simp
  qed
  have "int (\<Sum>i<12. (2 ^ 21) ^ i * ?ds ! i) = (\<Sum>i<12. ?B ^ i * int (?ds ! i))" by simp
  also have "\<dots> = (\<Sum>i<12. ?B ^ i * ?r ! i)" using n by (intro sum.cong) auto
  also have "\<dots> = int (N mod sc_order)" using val v12 by simp
  finally have "(\<Sum>i<12. (2 ^ 21) ^ i * ?ds ! i) = N mod sc_order" by linarith
  moreover have "length ?ds = 12" using rl by simp
  moreover have "\<forall>i < 11. ?ds ! i < 2 ^ 21"
  proof (intro allI impI)
    fix i :: nat assume "i < 11"
    then have "int (?ds ! i) < int (2 ^ 21)" using n [of i] small [of i] by simp
    then show "?ds ! i < 2 ^ 21" by (simp only: of_nat_less_iff)
  qed
  moreover have "?ds ! 11 \<le> 2 ^ 21" using top2 rl by simp
  ultimately show ?thesis using t by blast
qed


section \<open>Storing\<close>

lemma joinb21: "joinb (map (Pair 21) ds) = (\<Sum>i<length ds. (2 ^ 21) ^ i * ds ! i)"
proof (induction ds)
  case (Cons d ds)
  have "(\<Sum>i<length (d # ds). (2 ^ 21) ^ i * (d # ds) ! i) = d + (\<Sum>i<length ds. (2 ^ 21) ^ Suc i * ds ! i)"
    by (simp add: sum.lessThan_Suc_shift del: sum.lessThan_Suc)
  then show ?case using Cons by (simp add: joinb_def sum_distrib_left mult.assoc)
qed (simp add: joinb_def)

lemma offs21: "i \<le> length ds \<Longrightarrow> offs (map (Pair 21) ds) i = 21 * i"
  by (simp add: offs_def take_map comp_def sum_list_triv)

lemma sc_store_ok:
  assumes "take 12 s = map of_nat ds" and "length ds = 12" and "\<forall>i < 11. ds ! i < 2 ^ 21" and "ds ! 11 \<le> 2 ^ 21"
  shows "length (sc_store s) = 32 \<and> le_nat (sc_store s) = joinb (map (Pair 21) ds) mod 2 ^ 256"
proof -
  let ?b = "\<lambda>k. of_nat (joinb (map (Pair 21) ds) div 256 ^ k) :: byte"
  have d: "ds ! i \<le> 2 ^ 21" if "i < 12" for i
  proof (cases "i < 11")
    case False
    then have "i = 11" using that by linarith
    then show ?thesis using assms(4) by (simp only:)
  qed (use assms(3) less_imp_le in blast)
  have "s ! i = of_nat (ds ! i)" if "i < 12" for i
    using arg_cong [OF assms(1), of "\<lambda>xs. xs ! i"] that assms(2) by simp
  then have n: "s ! 0 = of_nat (ds ! 0)" "s ! 1 = of_nat (ds ! 1)" "s ! 2 = of_nat (ds ! 2)" "s ! 3 = of_nat (ds ! 3)"
    "s ! 4 = of_nat (ds ! 4)" "s ! 5 = of_nat (ds ! 5)" "s ! 6 = of_nat (ds ! 6)" "s ! 7 = of_nat (ds ! 7)"
    "s ! 8 = of_nat (ds ! 8)" "s ! 9 = of_nat (ds ! 9)" "s ! 10 = of_nat (ds ! 10)" "s ! 11 = of_nat (ds ! 11)" by simp_all
  let ?l = "map (Pair 21) ds"
  have ok: "digits_ok (take i ?l)" if "i < 12" for i
    using that assms(2,3) by (auto simp: digits_ok_def list_all_length take_map)
  note S = store_byte [where bds = ?l and 'a = 64] store_byte2 [where bds = ?l and 'a = 64]
  have A: "(ucast (signed_drop_bit r (of_nat (ds ! i) :: i64)) :: byte) = ?b k"
    if "8 * k = 21 * i + r" "i < 11" "r < 14" for k i r
    using S(1) [of k i r] that d [of i] ok [of i] assms(2,3) by (simp add: offs21)
  have L: "(ucast (signed_drop_bit r (of_nat (ds ! 11) :: i64)) :: byte) = ?b k" if "8 * k = 231 + r" for k r
    using S(1) [of k 11 r] that d [of 11] ok [of 11] assms(2) by (simp add: offs21)
  have B: "(ucast (signed_drop_bit r (of_nat (ds ! i) :: i64) OR push_bit t (of_nat (ds ! j))) :: byte) = ?b k"
    if "8 * k = 21 * i + r" "13 < r" "r < 21" "j = Suc i" "t = 21 - r" "i < 11" for k i r j t
    using S(2) [of k i r t] that ok [of "Suc i"] assms(2,3) by (cases "Suc i < 11") (simp_all add: offs21)
  have "sc_store s = map ?b [0, 1, 2, 3, 4, 5, 6, 7, 8, 9, 10, 11, 12, 13, 14, 15, 16, 17, 18, 19, 20, 21, 22, 23, 24, 25, 26, 27, 28, 29, 30, 31]"
    unfolding sc_store_def n list.map
    by (simp only: A [of 1 0 8] A [of 3 1 3] A [of 4 1 11] A [of 6 2 6] A [of 8 3 1] A [of 9 3 9] A [of 11 4 4] A [of 12 4 12] A [of 14 5 7] A [of 16 6 2] A [of 17 6 10] A [of 19 7 5] A [of 20 7 13] A [of 22 8 8] A [of 24 9 3] A [of 25 9 11] A [of 27 10 6] L [of 29 1] L [of 30 9] L [of 31 17]
        A [of 0 0 0, unfolded signed_drop_bit_0] A [of 21 8 0, unfolded signed_drop_bit_0]
        B [of 2 0 16 1 5] B [of 5 1 19 2 2] B [of 7 2 14 3 7] B [of 10 3 17 4 4] B [of 13 4 20 5 1] B [of 15 5 15 6 6] B [of 18 6 18 7 3] B [of 23 8 16 9 5] B [of 26 9 19 10 2] B [of 28 10 14 11 7])
  also have "[0, 1, 2, 3, 4, 5, 6, 7, 8, 9, 10, 11, 12, 13, 14, 15, 16, 17, 18, 19, 20, 21, 22, 23, 24, 25, 26, 27, 28, 29, 30, 31] = [0..<32 :: nat]"
    by code_simp
  finally show ?thesis by (simp add: le_nat_of_digits)
qed


section \<open>The functions\<close>

lemma sc_last_steps:
  assumes "within sc_mid (map sint s)" and "int sc_order dvd value_of sc_weights (map sint s) - int N"
  shows "length (sc_store (run sc_finish2 s)) = 32 \<and> le_nat (sc_store (run sc_finish2 s)) = N mod sc_order"
proof -
  obtain ds where ds: "length ds = 12" "\<forall>i < 11. ds ! i < 2 ^ 21" "ds ! 11 \<le> 2 ^ 21"
    "take 12 (run sc_finish2 s) = map of_nat ds" "(\<Sum>i<12. (2 ^ 21) ^ i * ds ! i) = N mod sc_order"
    using sc_finish [OF assms] by blast
  have j: "joinb (map (Pair 21) ds) = N mod sc_order" unfolding joinb21 ds(1,5) by (rule refl)
  have "N mod sc_order < sc_order" by (rule mod_less_divisor) (simp add: sc_order_def)
  also have "sc_order \<le> 2 ^ 256" by (simp add: sc_order_def)
  finally show ?thesis using sc_store_ok [OF ds(4,1-3)] by (simp add: j)
qed

lemma run_append: "run (ops1 @ ops2) s = run ops2 (run ops1 s)"
  by (simp add: run_def)

theorem ScReduce_ok:
  assumes "length s = 64"
  shows "length (ScReduce s) = 32 \<and> le_nat (ScReduce s) = le_nat s mod sc_order"
proof -
  let ?ds = "map (digit (le_nat s)) [0..<23] @ [le_nat s div (2 ^ 21) ^ 23]"
  let ?ops = "sc_fold_high @ sc_fold_low @ sc_last_round @ sc_finish1"
  have "le_nat s < 2 ^ 512" using le_nat_bound [of s] assms by simp
  then have top: "le_nat s div (2 ^ 21) ^ 23 < 2 ^ 29" by (intro less_mult_imp_div_less) simp
  have dig: "digit N i < 2 ^ 21" for N i unfolding digit_def by (rule mod_less_divisor) simp
  have "map sint (map of_nat ?ds :: i64 list) = map int ?ds"
    unfolding map_map o_def
  proof (rule map_cong [OF refl])
    fix x assume "x \<in> set ?ds"
    then have "x < 2 ^ 29" using top dig less_trans [OF dig, of "2 ^ 29"] by auto
    then show "sint (of_nat x :: i64) = int x" by (intro shift64) simp
  qed
  then have l: "map sint (sc_load64 s) = map int ?ds" using sc_load64_eq [OF assms] by simp
  have w: "within sc_in (map sint (sc_load64 s))"
  proof -
    have "int (digit N i) \<le> 2097151" for N i using dig [of N i] by simp
    moreover have "int (le_nat s div (2 ^ 21) ^ 23) < int (2 ^ 29)" using top by (simp only: of_nat_less_iff)
    ultimately show ?thesis unfolding l within_def sc_in_def list_all2_conv_all_nth by (auto simp: nth_append less_Suc_eq)
  qed
  have v: "value_of sc_weights (map sint (sc_load64 s)) = int (le_nat s)"
    unfolding l by (rule sc_value_digits [of 23]) simp_all
  have len: "length (sc_load64 s) = 24" using within_length [OF w] by (simp add: sc_in_def)
  note R = run_sound [where ?'a = 64, OF _ w, of ?ops sc_mid "int sc_order" sc_weights]
  have "within sc_mid (map sint (run ?ops (sc_load64 s)))"
    "int sc_order dvd value_of sc_weights (map sint (run ?ops (sc_load64 s))) - int (le_nat s)"
    using R brun_reduce keeps_sc len v by (simp_all add: sc_weights_def)
  from sc_last_steps [OF this] show ?thesis by (simp add: ScReduce_def run_append)
qed


text \<open>The products, on natural numbers.\<close>

definition nat_products :: "nat list \<Rightarrow> nat list \<Rightarrow> nat list \<Rightarrow> nat list" where
  "nat_products a b c =
     map (\<lambda>k. (if k < 12 then c ! k else 0) + sum_list (map (\<lambda>i. a ! i * b ! (k - i)) (filter (\<lambda>i. i \<le> k \<and> k < i + 12) [0..<12]))) [0..<24]"

lemma sc_products_nat:
  assumes "length a = 12" and "length b = 12" and "length c = 12"
  shows "sc_products (map of_nat a) (map of_nat b) (map of_nat c) = map of_nat (nat_products a b c)"
proof -
  have s: "(\<Sum>i\<leftarrow>is. map of_nat a ! i * map of_nat b ! (k - i)) = (of_nat (\<Sum>i\<leftarrow>is. a ! i * b ! (k - i)) :: i64)"
    if "set is \<subseteq> {i. i < 12 \<and> i \<le> k \<and> k < i + 12}" for "is" k
    using that assms by (induction "is") auto
  show ?thesis unfolding sc_products_def nat_products_def map_map
  proof (rule map_cong [OF refl])
    fix k assume "k \<in> set [0..<24]"
    show "(if k < 12 then map of_nat c ! k else 0) + (\<Sum>i\<leftarrow>filter (\<lambda>i. i \<le> k \<and> k < i + 12) [0..<12]. map of_nat a ! i * map of_nat b ! (k - i))
      = ((of_nat :: nat \<Rightarrow> i64) \<circ> (\<lambda>k. (if k < 12 then c ! k else 0) + (\<Sum>i\<leftarrow>filter (\<lambda>i. i \<le> k \<and> k < i + 12) [0..<12]. a ! i * b ! (k - i)))) k"
      by (subst s) (use assms in auto)
  qed
qed

lemma convolution:
  fixes f :: "nat \<Rightarrow> nat \<Rightarrow> nat"
  shows "(\<Sum>k<24. \<Sum>i\<in>{i. i < 12 \<and> i \<le> k \<and> k < i + 12}. f i (k - i)) = (\<Sum>i<12. \<Sum>j<12. f i j)"
proof -
  have "(\<Sum>i\<in>{i. i < 12 \<and> i \<le> k \<and> k < i + 12}. f i (k - i)) = (\<Sum>i<12. if i \<le> k \<and> k < i + 12 then f i (k - i) else 0)" for k
    by (rule sum.mono_neutral_cong_left) auto
  then have "(\<Sum>k<24. \<Sum>i\<in>{i. i < 12 \<and> i \<le> k \<and> k < i + 12}. f i (k - i))
      = (\<Sum>i<12. \<Sum>k<24. if i \<le> k \<and> k < i + 12 then f i (k - i) else 0)"
    by (simp only:) (rule sum.swap)
  also have "\<dots> = (\<Sum>i<12. \<Sum>j<12. f i j)"
  proof (rule sum.cong [OF refl])
    fix i :: nat assume i: "i \<in> {..<12}"
    have "(\<Sum>k<24. if i \<le> k \<and> k < i + 12 then f i (k - i) else 0) = (\<Sum>k\<in>{i..<i + 12}. f i (k - i))"
      by (rule sum.mono_neutral_cong_right) (use i in auto)
    also have "\<dots> = (\<Sum>j<12. f i j)" by (rule sum.reindex_bij_witness [of _ "\<lambda>j. i + j" "\<lambda>k. k - i"]) auto
    finally show "(\<Sum>k<24. if i \<le> k \<and> k < i + 12 then f i (k - i) else 0) = (\<Sum>j<12. f i j)" .
  qed
  finally show ?thesis .
qed

lemma nat_products_nth:
  assumes "k < 24"
  shows "nat_products a b c ! k = (if k < 12 then c ! k else 0) + (\<Sum>i\<in>{i. i < 12 \<and> i \<le> k \<and> k < i + 12}. a ! i * b ! (k - i))"
proof -
  have "set (filter (\<lambda>i. i \<le> k \<and> k < i + 12) [0..<12]) = {i. i < 12 \<and> i \<le> k \<and> k < i + 12}" by auto
  then show ?thesis using assms by (simp add: nat_products_def sum_list_distinct_conv_sum_set)
qed

lemma nat_products_value:
  "(\<Sum>k<24. B ^ k * nat_products a b c ! k) = (\<Sum>i<12. B ^ i * a ! i) * (\<Sum>j<12. B ^ j * b ! j) + (\<Sum>i<12. B ^ i * c ! i)"
proof -
  have "(\<Sum>k<24. B ^ k * nat_products a b c ! k)
      = (\<Sum>k<24. B ^ k * (if k < 12 then c ! k else 0)) + (\<Sum>k<24. \<Sum>i\<in>{i. i < 12 \<and> i \<le> k \<and> k < i + 12}. B ^ k * (a ! i * b ! (k - i)))"
    by (simp add: nat_products_nth distrib_left sum.distrib sum_distrib_left)
  also have "(\<Sum>k<24. B ^ k * (if k < 12 then c ! k else 0)) = (\<Sum>i<12. B ^ i * c ! i)"
    by (rule sum.mono_neutral_cong_right) auto
  also have "(\<Sum>k<24. \<Sum>i\<in>{i. i < 12 \<and> i \<le> k \<and> k < i + 12}. B ^ k * (a ! i * b ! (k - i)))
      = (\<Sum>k<24. \<Sum>i\<in>{i. i < 12 \<and> i \<le> k \<and> k < i + 12}. B ^ i * a ! i * (B ^ (k - i) * b ! (k - i)))"
  proof (intro sum.cong refl)
    fix k i :: nat assume "i \<in> {i. i < 12 \<and> i \<le> k \<and> k < i + 12}"
    then have "B ^ k = B ^ i * B ^ (k - i)" by (simp flip: power_add)
    then show "B ^ k * (a ! i * b ! (k - i)) = B ^ i * a ! i * (B ^ (k - i) * b ! (k - i))" by simp
  qed
  also have "\<dots> = (\<Sum>i<12. \<Sum>j<12. B ^ i * a ! i * (B ^ j * b ! j))" by (rule convolution)
  also have "\<dots> = (\<Sum>i<12. B ^ i * a ! i) * (\<Sum>j<12. B ^ j * b ! j)" by (simp only: sum_product)
  finally show ?thesis by simp
qed

definition sc_max :: "nat list" where "sc_max = [2097152, 2097152, 2097152, 2097152, 2097152, 2097152, 2097152, 2097152, 2097152, 2097152, 2097152, 33554432]"

lemma nat_products_mono:
  assumes "list_all2 (\<le>) a sc_max" and "list_all2 (\<le>) b sc_max" and "list_all2 (\<le>) c sc_max" and "k < 24"
  shows "nat_products a b c ! k \<le> nat_products sc_max sc_max sc_max ! k"
proof -
  have m: "xs ! i \<le> sc_max ! i" if "list_all2 (\<le>) xs sc_max" "i < 12" for xs i
    using that by (simp add: list_all2_conv_all_nth sc_max_def)
  show ?thesis unfolding nat_products_nth [OF assms(4)]
  proof (rule add_mono)
    show "(if k < 12 then c ! k else 0) \<le> (if k < 12 then sc_max ! k else 0)" using m [OF assms(3)] by simp
    show "(\<Sum>i\<in>{i. i < 12 \<and> i \<le> k \<and> k < i + 12}. a ! i * b ! (k - i)) \<le> (\<Sum>i\<in>{i. i < 12 \<and> i \<le> k \<and> k < i + 12}. sc_max ! i * sc_max ! (k - i))"
      by (rule sum_mono, rule mult_mono) (use m [OF assms(1)] m [OF assms(2)] in auto)
  qed
qed

definition sc_products_in :: bounds where
  "sc_products_in = map (Pair 0)
    [4398048608256, 8796095119360, 13194141630464, 17592188141568, 21990234652672, 26388281163776,
     30786327674880, 35184374185984, 39582420697088, 43980467208192, 48378513719296, 184717987020800,
     180319906955264, 175921860444160, 171523813933056, 167125767421952, 162727720910848, 158329674399744,
     153931627888640, 149533581377536, 145135534866432, 140737488355328, 1125899906842624, 0]"

lemma sc_products_max: "map (\<lambda>x. (0, int x)) (nat_products sc_max sc_max sc_max) = sc_products_in"
  by (simp add: nat_products_def sc_max_def sc_products_in_def upt_rec)

lemma brun_products:
  "brun 64 (sc_carries @ sc_fold_high @ sc_fold_low @ sc_last_round @ sc_finish1) sc_products_in = Some sc_mid"
  by code_simp


definition digits12 :: "nat \<Rightarrow> nat list" where "digits12 N = map (digit N) [0..<11] @ [N div (2 ^ 21) ^ 11]"

lemma digits12_sum: "(\<Sum>i<12. (2 ^ 21) ^ i * digits12 N ! i) = N"
proof -
  have "(\<Sum>i<12. (2 ^ 21) ^ i * digits12 N ! i) = (\<Sum>i<11. (2 ^ 21) ^ i * digits12 N ! i) + (2 ^ 21) ^ 11 * digits12 N ! 11"
    using sum.lessThan_Suc [of "\<lambda>i. (2 ^ 21) ^ i * digits12 N ! i" 11] by simp
  also have "(\<Sum>i<11. (2 ^ 21) ^ i * digits12 N ! i) = (\<Sum>i<11. (2 ^ 21) ^ i * digit N i)"
    by (rule sum.cong) (simp_all add: digits12_def nth_append)
  also have "digits12 N ! 11 = N div (2 ^ 21) ^ 11" by (simp add: digits12_def nth_append)
  finally show ?thesis using sum_of_digits [of "2 ^ 21" N 11] by (simp only: digit_def)
qed

lemma digits12_max:
  assumes "N < 2 ^ 256"
  shows "list_all2 (\<le>) (digits12 N) sc_max"
proof -
  have "N div (2 ^ 21) ^ 11 < 2 ^ 25" using assms by (intro less_mult_imp_div_less) simp
  moreover have "digit N i < 2097152" for i by (simp add: digit_def)
  ultimately show ?thesis by (simp add: digits12_def sc_max_def upto11 less_imp_le)
qed

theorem ScMulAdd_ok:
  assumes "length a = 32" and "length b = 32" and "length c = 32"
  shows "length (ScMulAdd a b c) = 32 \<and> le_nat (ScMulAdd a b c) = (le_nat a * le_nat b + le_nat c) mod sc_order"
proof -
  let ?ds = "nat_products (digits12 (le_nat a)) (digits12 (le_nat b)) (digits12 (le_nat c))"
  let ?s = "sc_products (sc_load a) (sc_load b) (sc_load c)" and ?N = "le_nat a * le_nat b + le_nat c"
  let ?ops = "sc_carries @ sc_fold_high @ sc_fold_low @ sc_last_round @ sc_finish1"
  have small: "le_nat x < 2 ^ 256" if "length x = 32" for x using le_nat_bound [of x] that by simp
  have len: "length ?ds = 24" by (simp add: nat_products_def)
  have s: "?s = map of_nat ?ds"
    unfolding sc_load_eq [OF assms(1)] sc_load_eq [OF assms(2)] sc_load_eq [OF assms(3)] digits12_def [symmetric]
    by (rule sc_products_nat) (simp_all add: digits12_def)
  have le: "?ds ! k \<le> nat_products sc_max sc_max sc_max ! k" if "k < 24" for k
    using assms small that by (intro nat_products_mono digits12_max) simp_all
  have lm: "length (nat_products sc_max sc_max sc_max) = 24" by (simp add: nat_products_def)
  have "list_all (\<lambda>x. x < 2 ^ 63) (nat_products sc_max sc_max sc_max)"
  proof -
    have "list_all (\<lambda>b. snd b < 2 ^ 63) (map (\<lambda>x. (0 :: int, int x)) (nat_products sc_max sc_max sc_max))"
      unfolding sc_products_max by (simp add: sc_products_in_def)
    then show ?thesis by (simp add: list.pred_map comp_def)
  qed
  then have "?ds ! k < 2 ^ 63" if "k < 24" for k
    using le [OF that] that lm by (auto simp: list_all_length intro: le_less_trans)
  then have sint: "map sint ?s = map int ?ds"
    unfolding s by (intro nth_equalityI) (simp_all add: len shift64)
  have w: "within sc_products_in (map sint ?s)"
    unfolding sint sc_products_max [symmetric] within_def using le len lm by (auto simp: list_all2_conv_all_nth)
  have ln: "length ?s = 24" by (simp add: sc_products_def)
  have v: "value_of sc_weights (map sint ?s) = int ?N"
  proof -
    have "value_of sc_weights (map sint ?s) = int (\<Sum>k<24. (2 ^ 21) ^ k * ?ds ! k)"
      unfolding sint by (simp add: value_of_def sc_weights_def len)
    also have "(\<Sum>k<24. (2 ^ 21) ^ k * ?ds ! k) = ?N" by (simp only: nat_products_value digits12_sum)
    finally show ?thesis .
  qed
  note R = run_sound [where ?'a = 64, OF _ w, of ?ops sc_mid "int sc_order" sc_weights]
  have "within sc_mid (map sint (run ?ops ?s))" "int sc_order dvd value_of sc_weights (map sint (run ?ops ?s)) - int ?N"
    using R brun_products keeps_sc ln v by (simp_all add: sc_weights_def del: of_nat_add of_nat_mult)
  from sc_last_steps [OF this] show ?thesis by (simp add: ScMulAdd_def run_append)
qed

end
