(* ===== verification/Cosi.thy ===== *)
theory Cosi
  imports Shard Sha512 Sc25519
begin

text \<open>
  Collective signatures (\<open>Reputation/cosi\<close>) and the participation masks of the network code
  (\<open>testforclient/network/client_func.go\<close>).

  The curve is a parameter: its points are a type with the operations of a commutative group
  (\<open>Add\<close>, \<open>Sub\<close>, \<open>Zero\<close> and the two \<open>FeNeg\<close> of \<open>verify\<close> are \<open>+\<close>, \<open>-\<close>, \<open>0\<close> and unary minus),
  and \<open>curve\<close> holds the encodings and the multiplications of \<open>edwards25519\<close> the package calls.
  \<open>curve_ok\<close> states their documented behaviour. The scalars are not a parameter: \<open>ScReduce\<close> and
  \<open>ScMulAdd\<close> are those of \<open>Sc25519\<close>. SHA-512 is the one of the standard library.
\<close>

section \<open>Masks\<close>

type_synonym MaskBit = bool

definition Enabled :: MaskBit where [simp]: "Enabled = False"
definition Disabled :: MaskBit where [simp]: "Disabled = True"

text \<open>\<open>byte(1) << uint(signer&7)\<close>, the bit of a signer in the byte \<open>signer>>3\<close>.\<close>

definition sbit :: "int \<Rightarrow> byte" where
  "sbit signer = push_bit (nat (signer mod 8)) 1"

definition intilizeMaskBit :: "nat \<Rightarrow> MaskBit \<Rightarrow> bytes" where
  "intilizeMaskBit len value = replicate len (if value = Disabled then 0xff else 0x00)"

definition setMaskBit :: "int \<Rightarrow> MaskBit \<Rightarrow> bytes \<Rightarrow> bytes option" where
  "setMaskBit signer value mk =
     (case at mk (signer div 8) of None \<Rightarrow> None
      | Some w \<Rightarrow>
        Some (if value = Disabled
              then (if w AND sbit signer = 0 then mk[nat (signer div 8) := w OR sbit signer] else mk)
              else (if w AND sbit signer \<noteq> 0 then mk[nat (signer div 8) := w AND NOT (sbit signer)] else mk)))"

definition maskBit :: "int \<Rightarrow> bytes \<Rightarrow> MaskBit option" where
  "maskBit signer mk = map_option (\<lambda>w. w AND sbit signer \<noteq> 0) (at mk (signer div 8))"

section \<open>The curve\<close>

record 'g curve =
  cv_FromBytes :: "bytes \<Rightarrow> 'g option"
  cv_ToBytes :: "'g \<Rightarrow> bytes"
  cv_Base :: "bytes \<Rightarrow> 'g"
  cv_Double :: "bytes \<Rightarrow> 'g \<Rightarrow> bytes \<Rightarrow> 'g"

text \<open>Scalars are 32 bytes, little-endian.\<close>

definition scOne :: bytes where "scOne = 1 # replicate 31 0"

primrec smul :: "nat \<Rightarrow> 'g::ab_group_add \<Rightarrow> 'g" where
  "smul 0 P = 0"
| "smul (Suc n) P = P + smul n P"

text \<open>A point is encoded in 32 bytes; \<open>GeScalarMultBase\<close> and \<open>GeDoubleScalarMultVartime\<close> compute
  multiples of the base point and of a point, and \<open>sc_order\<close> is a multiple of the order of the base point.\<close>

definition curve_ok :: "('g::ab_group_add) curve \<Rightarrow> bool" where
  "curve_ok C \<longleftrightarrow>
     (\<forall>P. length (cv_ToBytes C P) = 32 \<and> cv_FromBytes C (cv_ToBytes C P) = Some P)
   \<and> (\<forall>s. length s = 32 \<and> le_nat s < 2 ^ 255 \<longrightarrow> cv_Base C s = smul (le_nat s) (cv_Base C scOne))
   \<and> (\<forall>a P b. length a = 32 \<and> le_nat a < 2 ^ 255 \<and> length b = 32 \<and> le_nat b < 2 ^ 255 \<longrightarrow>
        cv_Double C a P b = smul (le_nat a) P + smul (le_nat b) (cv_Base C scOne))
   \<and> smul sc_order (cv_Base C scOne) = 0"

section \<open>Cosigners (\<open>cosi.go\<close>, \<open>verify.go\<close>)\<close>

datatype Policy = fullPolicy | thresPolicy int

definition ThresholdPolicy :: "int \<Rightarrow> Policy" where "ThresholdPolicy t = thresPolicy t"

record 'g Cosigners =
  cos_keys :: "'g list"
  cos_mask :: bytes
  cos_aggr :: 'g
  cos_policy :: Policy

definition CountTotal :: "'g Cosigners \<Rightarrow> nat" where "CountTotal cos = length (cos_keys cos)"

definition CountEnabled :: "'g Cosigners \<Rightarrow> nat option" where
  "CountEnabled cos = ofold (\<lambda>i count. map_option (\<lambda>w. if w AND sbit (int i) = 0 then count + 1 else count)
     (idx (cos_mask cos) (i div 8))) [0..<length (cos_keys cos)] 0"

definition Check :: "Policy \<Rightarrow> 'g Cosigners \<Rightarrow> bool option" where
  "Check p cos = (case p of
     fullPolicy \<Rightarrow> map_option (\<lambda>c. c = CountTotal cos) (CountEnabled cos)
   | thresPolicy t \<Rightarrow> map_option (\<lambda>c. t \<le> int c) (CountEnabled cos))"

definition MaskLen :: "'g Cosigners \<Rightarrow> nat" where "MaskLen cos = (length (cos_keys cos) + 7) div 8"

text \<open>\<open>SetMaskBit\<close> keeps the aggregate in step with the mask.\<close>

definition disable :: "nat \<Rightarrow> ('g::ab_group_add) Cosigners \<Rightarrow> 'g Cosigners option" where
  "disable i cos = (case (idx (cos_mask cos) (i div 8), idx (cos_keys cos) i) of
     (Some w, Some k) \<Rightarrow> Some (if w AND sbit (int i) = 0
        then cos\<lparr>cos_mask := (cos_mask cos)[i div 8 := w OR sbit (int i)], cos_aggr := cos_aggr cos - k\<rparr> else cos)
   | _ \<Rightarrow> None)"

definition enable :: "nat \<Rightarrow> ('g::ab_group_add) Cosigners \<Rightarrow> 'g Cosigners option" where
  "enable i cos = (case (idx (cos_mask cos) (i div 8), idx (cos_keys cos) i) of
     (Some w, Some k) \<Rightarrow> Some (if w AND sbit (int i) \<noteq> 0
        then cos\<lparr>cos_mask := (cos_mask cos)[i div 8 := w AND NOT (sbit (int i))], cos_aggr := cos_aggr cos + k\<rparr> else cos)
   | _ \<Rightarrow> None)"

definition SetMask :: "bytes \<Rightarrow> ('g::ab_group_add) Cosigners \<Rightarrow> 'g Cosigners option" where
  "SetMask mk cos = ofold (\<lambda>i. if i div 8 < length mk \<and> mk ! (i div 8) AND sbit (int i) \<noteq> 0
     then disable i else enable i) [0..<length (cos_keys cos)] cos"

definition SetMaskBit :: "nat \<Rightarrow> MaskBit \<Rightarrow> ('g::ab_group_add) Cosigners \<Rightarrow> 'g Cosigners option" where
  "SetMaskBit signer value = (if value = Disabled then disable signer else enable signer)"

definition MaskBit_of :: "'g Cosigners \<Rightarrow> nat \<Rightarrow> MaskBit option" where
  "MaskBit_of cos signer = map_option (\<lambda>w. w AND sbit (int signer) \<noteq> 0) (idx (cos_mask cos) (signer div 8))"

text \<open>The keys are copied into one array after the other: a key that is shorter than 32 bytes keeps
  the tail of the key before.\<close>

definition copy_into :: "bytes \<Rightarrow> bytes \<Rightarrow> bytes" where
  "copy_into buf src = take (length buf) src @ drop (length src) buf"

fun load_keys :: "'g curve \<Rightarrow> bytes \<Rightarrow> bytes list \<Rightarrow> 'g list option" where
  "load_keys C buf [] = Some []"
| "load_keys C buf (pk # pks) =
     (case cv_FromBytes C (copy_into buf pk) of None \<Rightarrow> None
      | Some k \<Rightarrow> map_option ((#) k) (load_keys C (copy_into buf pk) pks))"

text \<open>The inner \<open>None\<close> is the nil result.\<close>

definition NewCosigners :: "('g::ab_group_add) curve \<Rightarrow> bytes list \<Rightarrow> bytes \<Rightarrow> 'g Cosigners option option" where
  "NewCosigners C publicKeys mk =
     (case load_keys C (replicate 32 0) publicKeys of None \<Rightarrow> Some None
      | Some ks \<Rightarrow> map_option (\<lambda>cos. Some (cos\<lparr>cos_policy := fullPolicy\<rparr>))
          (SetMask mk \<lparr>cos_keys = ks, cos_mask = replicate ((length ks + 7) div 8) 0xff, cos_aggr = 0, cos_policy = fullPolicy\<rparr>))"

definition SetPolicy :: "Policy option \<Rightarrow> 'g Cosigners \<Rightarrow> 'g Cosigners" where
  "SetPolicy p cos = cos\<lparr>cos_policy := (case p of None \<Rightarrow> fullPolicy | Some p \<Rightarrow> p)\<rparr>"

definition verify_part :: "('g::ab_group_add) curve \<Rightarrow> 'g Cosigners \<Rightarrow> bytes \<Rightarrow> bytes \<Rightarrow> bytes \<Rightarrow> bytes \<Rightarrow> 'g \<Rightarrow> bool" where
  "verify_part C cos message aggR sigR sigS sigA =
     (if length sigR \<noteq> 32 \<or> length sigS \<noteq> 32 \<or> sigS ! 31 AND 224 \<noteq> 0 then False
      else let hReduced = ScReduce (Sum512 (aggR @ cv_ToBytes C (cos_aggr cos) @ message))
           in sigR = cv_ToBytes C (cv_Double C hReduced (- sigA) sigS))"

definition VerifyPart :: "('g::ab_group_add) curve \<Rightarrow> 'g Cosigners \<Rightarrow> bytes \<Rightarrow> bytes \<Rightarrow> nat \<Rightarrow> bytes \<Rightarrow> bytes \<Rightarrow> bool option" where
  "VerifyPart C cos message aggR signer indR indS =
     map_option (verify_part C cos message aggR indR indS) (idx (cos_keys cos) signer)"

definition Cosigners_Verify :: "('g::ab_group_add) curve \<Rightarrow> 'g Cosigners \<Rightarrow> bytes \<Rightarrow> bytes \<Rightarrow> (bool \<times> 'g Cosigners) option" where
  "Cosigners_Verify C cos message sig =
     (if length sig \<noteq> 64 + MaskLen cos then Some (False, cos)
      else case SetMask (drop 64 sig) cos of None \<Rightarrow> None
      | Some cos1 \<Rightarrow>
        (case Check (cos_policy cos1) cos1 of None \<Rightarrow> None
         | Some False \<Rightarrow> Some (False, cos1)
         | Some True \<Rightarrow> Some (verify_part C cos1 message (take 32 sig) (take 32 sig) (take 32 (drop 32 sig)) (cos_aggr cos1), cos1)))"

text \<open>\<open>SetPolicy\<close> on the nil result of \<open>NewCosigners\<close> panics.\<close>

definition cosi_Verify :: "('g::ab_group_add) curve \<Rightarrow> bytes list \<Rightarrow> Policy option \<Rightarrow> bytes \<Rightarrow> bytes \<Rightarrow> bool option" where
  "cosi_Verify C publicKeys policy message sig =
     (if length sig < 64 then Some False
      else case NewCosigners C publicKeys (drop 64 sig) of
        Some (Some cos) \<Rightarrow> map_option fst (Cosigners_Verify C (SetPolicy policy cos) message sig)
      | _ \<Rightarrow> None)"

section \<open>Signing (\<open>sign.go\<close>)\<close>

record Secret =
  sec_reduced :: bytes
  sec_valid :: bool

text \<open>\<open>rand\<close> is what \<open>io.ReadFull\<close> gives: 64 bytes or an error.\<close>

definition Commit :: "'g curve \<Rightarrow> error + bytes \<Rightarrow> error + (bytes \<times> Secret)" where
  "Commit C rand = (case rand of Inl e \<Rightarrow> Inl e
     | Inr secretFull \<Rightarrow> let r = ScReduce secretFull in Inr (cv_ToBytes C (cv_Base C r), \<lparr>sec_reduced = r, sec_valid = True\<rparr>))"

definition clamp :: "bytes \<Rightarrow> bytes" where
  "clamp k = (let k = k[0 := k ! 0 AND 248]; k = k[31 := k ! 31 AND 63] in k[31 := k ! 31 OR 64])"

definition expandedSecretKey :: "bytes \<Rightarrow> bytes" where
  "expandedSecretKey privateKey = clamp (take 32 (Sum512 (take 32 privateKey)))"

definition Cosign :: "'g curve \<Rightarrow> bytes \<Rightarrow> Secret \<Rightarrow> bytes \<Rightarrow> bytes \<Rightarrow> bytes \<Rightarrow> (bytes \<times> Secret) option" where
  "Cosign C privateKey secret message aggregateK aggregateR =
     (if length privateKey \<noteq> 64 \<or> length aggregateR \<noteq> 32 \<or> \<not> sec_valid secret then None
      else Some (ScMulAdd (ScReduce (Sum512 (aggregateR @ aggregateK @ message)))
                   (expandedSecretKey privateKey) (sec_reduced secret),
                 \<lparr>sec_reduced = replicate 32 0, sec_valid = False\<rparr>))"

definition AggregatePublicKey :: "'g curve \<Rightarrow> 'g Cosigners \<Rightarrow> bytes" where
  "AggregatePublicKey C cos = cv_ToBytes C (cos_aggr cos)"

text \<open>In the two loops over the cosigners \<open>None\<close> as the state stands for the early return of nil.\<close>

definition AggregateCommit :: "('g::ab_group_add) curve \<Rightarrow> 'g Cosigners \<Rightarrow> bytes list \<Rightarrow> bytes option option" where
  "AggregateCommit C cos commits = map_option (map_option (cv_ToBytes C))
     (ofold (\<lambda>i st. case st of None \<Rightarrow> Some None
        | Some aggR \<Rightarrow>
          (case MaskBit_of cos i of None \<Rightarrow> None
           | Some b \<Rightarrow> if b = Disabled then Some st
               else map_option (\<lambda>c. if length c \<noteq> 32 then None else map_option (\<lambda>P. aggR + P) (cv_FromBytes C c)) (idx commits i)))
        [0..<length (cos_keys cos)] (Some 0))"

definition AggregateSignature :: "('g::ab_group_add) curve \<Rightarrow> 'g Cosigners \<Rightarrow> bytes \<Rightarrow> bytes list \<Rightarrow> bytes option option" where
  "AggregateSignature C cos aggregateR sigParts =
     (if length aggregateR \<noteq> 32 then None
      else map_option (map_option (\<lambda>aggS. aggregateR @ aggS @ cos_mask cos))
        (ofold (\<lambda>i st. case st of None \<Rightarrow> Some None
           | Some aggS \<Rightarrow>
             (case MaskBit_of cos i of None \<Rightarrow> None
              | Some b \<Rightarrow> if b = Disabled then Some st
                  else map_option (\<lambda>c. if length c \<noteq> 32 then None else Some (ScMulAdd aggS scOne c)) (idx sigParts i)))
           [0..<length (cos_keys cos)] (Some (replicate 32 0))))"

text \<open>Key pairs (\<open>ed25519.GenerateKey\<close>), from 32 random bytes: public key and private key.\<close>

definition GenerateKey :: "'g curve \<Rightarrow> bytes \<Rightarrow> bytes \<times> bytes" where
  "GenerateKey C rand =
     (let digest = Sum512 rand; d = digest[0 := digest ! 0 AND 248]; d = d[31 := d ! 31 AND 127]; d = d[31 := d ! 31 OR 64];
          publicKey = cv_ToBytes C (cv_Base C (take 32 d))
      in (publicKey, rand @ publicKey))"

section \<open>Masks as sets of signers\<close>

text \<open>A mask stands for the set of signers that are disabled.\<close>

definition disabled :: "bytes \<Rightarrow> nat \<Rightarrow> bool" where
  "disabled m i \<longleftrightarrow> i div 8 < length m \<and> bit (m ! (i div 8)) (i mod 8)"

lemma sbit_int: "sbit (int i) = push_bit (i mod 8) 1"
  by (simp add: sbit_def nat_mod_distrib)

lemma bit_sbit: "bit (sbit (int i)) j \<longleftrightarrow> j = i mod 8"
  by (auto simp: sbit_int bit_simps)

lemma and_sbit [simp]: "w AND sbit (int i) = 0 \<longleftrightarrow> \<not> bit w (i mod 8)"
proof
  assume "w AND sbit (int i) = 0"
  then have "\<not> bit (w AND sbit (int i)) (i mod 8)" by simp
  then show "\<not> bit w (i mod 8)" by (simp add: bit_and_iff bit_sbit)
next
  assume "\<not> bit w (i mod 8)"
  then show "w AND sbit (int i) = 0" by (auto intro!: bit_word_eqI simp: bit_and_iff bit_sbit)
qed

lemma pos_eq: "(j::nat) div 8 = i div 8 \<Longrightarrow> j mod 8 = i mod 8 \<longleftrightarrow> j = i"
  by (metis div_mult_mod_eq)

lemma disabled_or: "i div 8 < length m \<Longrightarrow>
    disabled (m[i div 8 := m ! (i div 8) OR sbit (int i)]) j \<longleftrightarrow> j = i \<or> disabled m j"
  using pos_eq [of j i] by (cases "j div 8 = i div 8") (auto simp: disabled_def bit_or_iff bit_sbit)

lemma disabled_andnot: "i div 8 < length m \<Longrightarrow>
    disabled (m[i div 8 := m ! (i div 8) AND NOT (sbit (int i))]) j \<longleftrightarrow> j \<noteq> i \<and> disabled m j"
  using pos_eq [of j i] by (cases "j div 8 = i div 8") (auto simp: disabled_def bit_and_iff bit_not_iff bit_sbit)

lemma at_div [simp]: "at m (int i div 8) = idx m (i div 8)"
proof -
  have "int i div 8 = int (i div 8)" by (simp add: zdiv_int)
  then show ?thesis by (simp only: at_def of_nat_0_le_iff if_True nat_int)
qed

lemma maskBit_disabled: "i div 8 < length m \<Longrightarrow> maskBit (int i) m = Some (disabled m i)"
  by (simp add: maskBit_def disabled_def idx_def)

lemma setMaskBit_disabled:
  assumes "i div 8 < length m"
  shows "\<exists>m'. setMaskBit (int i) v m = Some m' \<and> length m' = length m \<and> (\<forall>j. disabled m' j \<longleftrightarrow> (if j = i then v else disabled m j))"
proof -
  have d: "bit (m ! (i div 8)) (i mod 8) \<longleftrightarrow> disabled m i" using assms by (simp add: disabled_def)
  have n: "nat (int i div 8) = i div 8" by (simp add: nat_div_distrib)
  show ?thesis
    using assms by (auto simp: setMaskBit_def idx_def n d disabled_or disabled_andnot)
qed

lemma intilizeMaskBit_disabled: "disabled (intilizeMaskBit len v) i \<longleftrightarrow> v \<and> i < 8 * len"
proof -
  have "i mod 8 = 0 \<or> i mod 8 = 1 \<or> i mod 8 = 2 \<or> i mod 8 = 3 \<or> i mod 8 = 4 \<or> i mod 8 = 5 \<or> i mod 8 = 6 \<or> i mod 8 = 7"
    by arith
  then have "bit (255 :: byte) (i mod 8)" by (elim disjE) simp_all
  then show ?thesis by (auto simp: disabled_def intilizeMaskBit_def div_less_iff_less_mult mult.commute)
qed

section \<open>The cached aggregate\<close>

definition on :: "'g Cosigners \<Rightarrow> nat set" where
  "on cos = {i. i < length (cos_keys cos) \<and> \<not> disabled (cos_mask cos) i}"

definition cos_inv :: "('g::ab_group_add) Cosigners \<Rightarrow> bool" where
  "cos_inv cos \<longleftrightarrow> length (cos_mask cos) = MaskLen cos \<and> cos_aggr cos = (\<Sum>i \<in> on cos. cos_keys cos ! i)"

lemma finite_on [simp]: "finite (on cos)"
  by (simp add: on_def)

lemma in_mask: "cos_inv cos \<Longrightarrow> i < length (cos_keys cos) \<Longrightarrow> i div 8 < length (cos_mask cos)"
  by (simp add: cos_inv_def MaskLen_def)

lemma disable_ok:
  assumes inv: "cos_inv cos" and i: "i < length (cos_keys cos)"
  shows "\<exists>c. disable i cos = Some c \<and> cos_inv c \<and> cos_keys c = cos_keys cos \<and> cos_policy c = cos_policy cos
    \<and> (\<forall>j. disabled (cos_mask c) j \<longleftrightarrow> j = i \<or> disabled (cos_mask cos) j)"
proof (cases "disabled (cos_mask cos) i")
  case True
  then show ?thesis using inv i in_mask [OF inv i] by (auto simp: disable_def idx_def disabled_def)
next
  case False
  let ?c = "cos\<lparr>cos_mask := (cos_mask cos)[i div 8 := cos_mask cos ! (i div 8) OR sbit (int i)], cos_aggr := cos_aggr cos - cos_keys cos ! i\<rparr>"
  have c: "disable i cos = Some ?c" using False i in_mask [OF inv i] by (simp add: disable_def idx_def disabled_def)
  have d: "disabled (cos_mask ?c) j \<longleftrightarrow> j = i \<or> disabled (cos_mask cos) j" for j
    using disabled_or [OF in_mask [OF inv i]] by simp
  have "i \<in> on cos" using False i by (simp add: on_def)
  moreover have "on ?c = on cos - {i}" using d by (auto simp: on_def )
  ultimately have "cos_inv ?c" using inv by (simp add: cos_inv_def MaskLen_def sum_diff1)
  with c d show ?thesis by auto
qed

lemma enable_ok:
  assumes inv: "cos_inv cos" and i: "i < length (cos_keys cos)"
  shows "\<exists>c. enable i cos = Some c \<and> cos_inv c \<and> cos_keys c = cos_keys cos \<and> cos_policy c = cos_policy cos
    \<and> (\<forall>j. disabled (cos_mask c) j \<longleftrightarrow> j \<noteq> i \<and> disabled (cos_mask cos) j)"
proof (cases "disabled (cos_mask cos) i")
  case False
  then show ?thesis using inv i in_mask [OF inv i] by (auto simp: enable_def idx_def disabled_def)
next
  case True
  let ?c = "cos\<lparr>cos_mask := (cos_mask cos)[i div 8 := cos_mask cos ! (i div 8) AND NOT (sbit (int i))], cos_aggr := cos_aggr cos + cos_keys cos ! i\<rparr>"
  have c: "enable i cos = Some ?c" using True i in_mask [OF inv i] by (simp add: enable_def idx_def disabled_def)
  have d: "disabled (cos_mask ?c) j \<longleftrightarrow> j \<noteq> i \<and> disabled (cos_mask cos) j" for j
    using disabled_andnot [OF in_mask [OF inv i]] by simp
  have "i \<notin> on cos" using True by (simp add: on_def)
  moreover have "on ?c = insert i (on cos)" using d i by (auto simp: on_def)
  ultimately have "cos_inv ?c" using inv by (simp add: cos_inv_def MaskLen_def add.commute)
  with c d show ?thesis by auto
qed

lemma SetMask_upto:
  assumes "cos_inv cos" and "k \<le> length (cos_keys cos)"
  shows "\<exists>c. ofold (\<lambda>i. if i div 8 < length m \<and> m ! (i div 8) AND sbit (int i) \<noteq> 0 then disable i else enable i) [0..<k] cos = Some c
    \<and> cos_inv c \<and> cos_keys c = cos_keys cos \<and> cos_policy c = cos_policy cos
    \<and> (\<forall>j. disabled (cos_mask c) j \<longleftrightarrow> (if j < k then disabled m j else disabled (cos_mask cos) j))"
  using assms(2)
proof (induction k)
  case 0
  then show ?case using assms(1) by simp
next
  case (Suc k)
  then obtain c where c: "ofold (\<lambda>i. if i div 8 < length m \<and> m ! (i div 8) AND sbit (int i) \<noteq> 0 then disable i else enable i) [0..<k] cos = Some c"
    "cos_inv c" "cos_keys c = cos_keys cos" "cos_policy c = cos_policy cos"
    "\<forall>j. disabled (cos_mask c) j \<longleftrightarrow> (if j < k then disabled m j else disabled (cos_mask cos) j)" by auto
  have k: "k < length (cos_keys c)" using Suc.prems c(3) by simp
  show ?case
  proof (cases "disabled m k")
    case True
    then show ?thesis using disable_ok [OF c(2) k] c by (auto simp: ofold_append disabled_def less_Suc_eq)
  next
    case False
    then show ?thesis using enable_ok [OF c(2) k] c by (auto simp: ofold_append disabled_def less_Suc_eq)
  qed
qed

lemma SetMask_ok:
  assumes "cos_inv cos"
  shows "\<exists>c. SetMask m cos = Some c \<and> cos_inv c \<and> cos_keys c = cos_keys cos \<and> cos_policy c = cos_policy cos
    \<and> on c = {i. i < length (cos_keys cos) \<and> \<not> disabled m i}
    \<and> (\<forall>j \<ge> length (cos_keys cos). disabled (cos_mask c) j \<longleftrightarrow> disabled (cos_mask cos) j)"
  using SetMask_upto [OF assms order_refl, of m] by (fastforce simp: SetMask_def on_def)

section \<open>Verification\<close>

lemma SetMask_total: "cos_inv cos \<Longrightarrow> SetMask m cos \<noteq> None"
  using SetMask_ok [of cos m] by auto

lemma CountEnabled_on:
  assumes "cos_inv cos"
  shows "CountEnabled cos = Some (card (on cos))"
proof -
  have "ofold (\<lambda>i count. map_option (\<lambda>w. if w AND sbit (int i) = 0 then count + 1 else count) (idx (cos_mask cos) (i div 8))) [0..<k] 0
      = Some (card {i. i < k \<and> \<not> disabled (cos_mask cos) i})" if "k \<le> length (cos_keys cos)" for k
    using that
  proof (induction k)
    case (Suc k)
    have "k div 8 < length (cos_mask cos)" using in_mask [OF assms] Suc.prems by simp
    moreover have "{i. i < Suc k \<and> \<not> disabled (cos_mask cos) i}
        = (if disabled (cos_mask cos) k then {} else {k}) \<union> {i. i < k \<and> \<not> disabled (cos_mask cos) i}"
      by (auto simp: less_Suc_eq)
    ultimately show ?case using Suc by (simp add: ofold_append idx_def disabled_def)
  qed simp
  from this [of "length (cos_keys cos)"] show ?thesis by (simp add: CountEnabled_def on_def)
qed

lemma length_load_keys: "load_keys C buf pks = Some ks \<Longrightarrow> length ks = length pks"
  by (induction pks arbitrary: buf ks) (auto split: option.splits)

lemma NewCosigners_ok:
  assumes "load_keys C (replicate 32 0) pks = Some ks"
  shows "\<exists>cos. NewCosigners C pks m = Some (Some cos) \<and> cos_inv cos \<and> cos_keys cos = ks
    \<and> on cos = {i. i < length ks \<and> \<not> disabled m i}"
proof -
  let ?L = "(length ks + 7) div 8"
  let ?c = "\<lparr>cos_keys = ks, cos_mask = replicate ?L 0xff, cos_aggr = 0, cos_policy = fullPolicy\<rparr>"
  have "disabled (replicate ?L 0xff) i" if "i < length ks" for i
    using intilizeMaskBit_disabled [of ?L True i] that by (simp add: intilizeMaskBit_def)
  then have "on ?c = {}" by (auto simp: on_def)
  then have "cos_inv ?c" by (simp add: cos_inv_def MaskLen_def)
  from SetMask_ok [OF this, of m] obtain c where "SetMask m ?c = Some c" "cos_inv c" "cos_keys c = ks"
    "on c = {i. i < length ks \<and> \<not> disabled m i}" by auto
  then show ?thesis
    using assms by (intro exI [of _ "c\<lparr>cos_policy := fullPolicy\<rparr>"]) (auto simp: NewCosigners_def cos_inv_def MaskLen_def on_def)
qed

text \<open>What a collective signature is: a Schnorr signature for the sum of the keys the mask names.\<close>

definition signers :: "nat \<Rightarrow> bytes \<Rightarrow> nat set" where
  "signers n m = {i. i < n \<and> \<not> disabled m i}"

definition policy_holds :: "Policy option \<Rightarrow> nat \<Rightarrow> nat \<Rightarrow> bool" where
  "policy_holds p e n \<longleftrightarrow> (case p of Some (thresPolicy t) \<Rightarrow> t \<le> int e | _ \<Rightarrow> e = n)"

definition schnorr :: "('g::ab_group_add) curve \<Rightarrow> 'g \<Rightarrow> bytes \<Rightarrow> bytes \<Rightarrow> bytes \<Rightarrow> bool" where
  "schnorr C A message R s \<longleftrightarrow> s ! 31 AND 224 = 0
     \<and> R = cv_ToBytes C (cv_Double C (ScReduce (Sum512 (R @ cv_ToBytes C A @ message))) (- A) s)"

lemma cosi_Verify_direct:
  "cosi_Verify C pks policy message sig =
     (if length sig < 64 then Some False
      else case load_keys C (replicate 32 0) pks of None \<Rightarrow> None
      | Some ks \<Rightarrow> let S = signers (length ks) (drop 64 sig) in
          Some (length sig = 64 + (length ks + 7) div 8 \<and> policy_holds policy (card S) (length ks)
            \<and> schnorr C (\<Sum>i \<in> S. ks ! i) message (take 32 sig) (take 32 (drop 32 sig))))"
proof (cases "length sig < 64 \<or> load_keys C (replicate 32 0) pks = None")
  case True
  then show ?thesis by (auto simp: cosi_Verify_def NewCosigners_def)
next
  case False
  then obtain ks where ks: "load_keys C (replicate 32 0) pks = Some ks" and l: "64 \<le> length sig" by auto
  let ?m = "drop 64 sig"
  obtain cos where c: "NewCosigners C pks ?m = Some (Some cos)" "cos_inv cos" "cos_keys cos = ks" using NewCosigners_ok [OF ks] by blast
  let ?c = "SetPolicy policy cos"
  have i: "cos_inv ?c" using c(2) by (simp add: SetPolicy_def cos_inv_def MaskLen_def on_def)
  obtain c1 where c1: "SetMask ?m ?c = Some c1" "cos_inv c1" "cos_keys c1 = ks" "cos_policy c1 = cos_policy ?c"
    and on: "on c1 = signers (length ks) ?m"
    using SetMask_ok [OF i, of ?m] c(3) by (auto simp: SetPolicy_def signers_def)
  have chk: "Check (cos_policy c1) c1 = Some (policy_holds policy (card (signers (length ks) ?m)) (length ks))"
    by (auto simp: Check_def CountEnabled_on [OF c1(2)] on c1(3,4) SetPolicy_def policy_holds_def CountTotal_def
        split: option.splits Policy.splits)
  have ver: "verify_part C c1 message (take 32 sig) (take 32 sig) (take 32 (drop 32 sig)) (cos_aggr c1)
      \<longleftrightarrow> schnorr C (\<Sum>i \<in> signers (length ks) ?m. ks ! i) message (take 32 sig) (take 32 (drop 32 sig))"
    using c1(2) l by (auto simp: verify_part_def schnorr_def Let_def cos_inv_def on c1(3))
  have M: "MaskLen ?c = (length ks + 7) div 8" using c(3) by (simp add: MaskLen_def SetPolicy_def)
  show ?thesis
    using l by (cases "policy_holds policy (card (signers (length ks) ?m)) (length ks)")
      (auto simp: cosi_Verify_def ks c(1) Cosigners_Verify_def M c1(1) chk ver Let_def)
qed

text \<open>C31: Verification is the direct check: with the keys decoded, a signature is accepted exactly when
  it has the length for this number of keys, the policy holds for the number of signers the mask
  names, and it is a Schnorr signature under the sum of their keys. The cached aggregate and the
  incremental update of the mask never show. A key that does not decode panics.\<close>

theorem cosi_Verify_spec:
  "cosi_Verify C pks policy message sig =
     (if length sig < 64 then Some False
      else case load_keys C (replicate 32 0) pks of None \<Rightarrow> None
      | Some ks \<Rightarrow> let S = signers (length ks) (drop 64 sig) in
          Some (length sig = 64 + (length ks + 7) div 8 \<and> policy_holds policy (card S) (length ks)
            \<and> schnorr C (\<Sum>i \<in> S. ks ! i) message (take 32 sig) (take 32 (drop 32 sig))))"
  by (rule cosi_Verify_direct)

text \<open>The states of a group of cosigners.\<close>

inductive cosigners_reach :: "('g::ab_group_add) curve \<Rightarrow> bytes list \<Rightarrow> 'g Cosigners \<Rightarrow> bool" for C :: "('g::ab_group_add) curve" and pks :: "bytes list" where
  new: "NewCosigners C pks m = Some (Some cos) \<Longrightarrow> cosigners_reach C pks cos"
| set_mask: "cosigners_reach C pks cos \<Longrightarrow> SetMask m cos = Some c \<Longrightarrow> cosigners_reach C pks c"
| set_bit: "cosigners_reach C pks cos \<Longrightarrow> SetMaskBit i v cos = Some c \<Longrightarrow> cosigners_reach C pks c"
| set_policy: "cosigners_reach C pks cos \<Longrightarrow> cosigners_reach C pks (SetPolicy p cos)"
| verify: "cosigners_reach C pks cos \<Longrightarrow> Cosigners_Verify C cos msg sig = Some (b, c) \<Longrightarrow> cosigners_reach C pks c"

lemma SetMaskBit_ok:
  assumes "cos_inv cos" and "SetMaskBit i v cos = Some c"
  shows "cos_inv c \<and> cos_keys c = cos_keys cos"
proof -
  have "i < length (cos_keys cos)"
    using assms(2) by (cases "i < length (cos_keys cos)") (auto simp: SetMaskBit_def disable_def enable_def idx_def split: if_splits option.splits)
  then show ?thesis
    using assms disable_ok [OF assms(1), of i] enable_ok [OF assms(1), of i] by (auto simp: SetMaskBit_def split: if_splits)
qed

lemma cosigners_reach_inv:
  "cosigners_reach C pks cos \<Longrightarrow> cos_inv cos \<and> load_keys C (replicate 32 0) pks = Some (cos_keys cos)"
proof (induction rule: cosigners_reach.induct)
  case (new m cos)
  show ?case
  proof (cases "load_keys C (replicate 32 0) pks")
    case None
    then show ?thesis using new by (simp add: NewCosigners_def)
  next
    case (Some ks)
    then show ?thesis using NewCosigners_ok [OF Some, of m] new by auto
  qed
next
  case (set_mask cos m c)
  then show ?case using SetMask_ok [of cos m] by auto
next
  case (set_bit cos i v c)
  then show ?case using SetMaskBit_ok by metis
next
  case (set_policy cos p)
  then show ?case by (simp add: SetPolicy_def cos_inv_def MaskLen_def on_def)
next
  case (verify cos msg sig b c)
  obtain c1 where "SetMask (drop 64 sig) cos = Some c1" "cos_inv c1" "cos_keys c1 = cos_keys cos"
    using SetMask_ok [of cos "drop 64 sig"] verify.IH by blast
  then have "c = cos \<or> c = c1" using verify.hyps(2) by (auto simp: Cosigners_Verify_def split: if_splits option.splits bool.splits)
  then show ?case using verify.IH \<open>cos_inv c1\<close> \<open>cos_keys c1 = cos_keys cos\<close> by auto
qed

text \<open>C32: In every state the operations of a group of cosigners reach, the mask has one bit for every
  signer, the cached aggregate is the sum of the keys of the enabled ones, and their count is
  between zero and the total.\<close>

theorem cosigners_invariant:
  assumes "cosigners_reach C pks cos"
  shows "length (cos_mask cos) = MaskLen cos
    \<and> AggregatePublicKey C cos = cv_ToBytes C (\<Sum>i \<in> signers (CountTotal cos) (cos_mask cos). cos_keys cos ! i)
    \<and> CountEnabled cos = Some (card (signers (CountTotal cos) (cos_mask cos)))
    \<and> card (signers (CountTotal cos) (cos_mask cos)) \<le> length pks"
proof -
  have inv: "cos_inv cos" and k: "load_keys C (replicate 32 0) pks = Some (cos_keys cos)"
    using cosigners_reach_inv [OF assms] by auto
  have s: "signers (CountTotal cos) (cos_mask cos) = on cos" by (simp add: signers_def CountTotal_def on_def)
  have "on cos \<subseteq> {..<length pks}" using length_load_keys [OF k] by (auto simp: on_def)
  then have "card (on cos) \<le> length pks" by (metis card_lessThan card_mono finite_lessThan)
  then show ?thesis
    unfolding s using inv CountEnabled_on [OF inv] by (simp add: cos_inv_def AggregatePublicKey_def)
qed

section \<open>Scalars\<close>

lemma smul_add: "smul (m + n) P = smul m P + smul n P"
  by (induction m) (simp_all add: add.assoc)

lemma smul_mult: "smul (m * n) P = smul m (smul n P)"
  by (induction m) (simp_all add: smul_add)

lemma smul_zero [simp]: "smul n 0 = 0"
  by (induction n) simp_all

lemma smul_dist: "smul n (P + Q) = smul n P + smul n Q"
  by (induction n) (simp_all add: algebra_simps)

lemma smul_neg: "smul n (- P) = - smul n P"
  by (induction n) (simp_all add: algebra_simps)

lemma smul_sum: "smul n (\<Sum>i \<in> A. f i) = (\<Sum>i \<in> A. smul n (f i))"
  by (induction A rule: infinite_finite_induct) (simp_all add: smul_dist)

lemma smul_sum_nat: "smul (\<Sum>i \<in> A. f i) P = (\<Sum>i \<in> A. smul (f i) P)"
  by (induction A rule: infinite_finite_induct) (simp_all add: smul_add)

lemma smul_mod: "smul l P = 0 \<Longrightarrow> smul (n mod l) P = smul n P"
  using smul_add [of "(n div l) * l" "n mod l" P] by (simp add: smul_mult)

text \<open>The equation of the signature, in scalars.\<close>

lemma schnorr_equation:
  assumes "smul l B = 0" and "\<And>i. i \<in> I \<Longrightarrow> s i = (h * x i + r i) mod l" and "S = (\<Sum>i \<in> I. s i) mod l"
  shows "smul h (- (\<Sum>i \<in> I. smul (x i) B)) + smul S B = (\<Sum>i \<in> I. smul (r i) B)"
proof -
  have "smul (s i) B = smul h (smul (x i) B) + smul (r i) B" if "i \<in> I" for i
    using assms(2) [OF that] by (simp add: smul_mod [OF assms(1)] smul_add smul_mult)
  then have "smul S B = (\<Sum>i \<in> I. smul h (smul (x i) B)) + (\<Sum>i \<in> I. smul (r i) B)"
    by (simp add: assms(3) smul_mod [OF assms(1)] smul_sum_nat sum.distrib)
  then show ?thesis by (simp add: smul_neg smul_sum)
qed

lemma le_nat_last:
  assumes "length s = Suc n"
  shows "le_nat s = unat (s ! n) * 256 ^ n + le_nat (take n s)" "le_nat (take n s) < 256 ^ n"
proof -
  have "s = take n s @ [s ! n]" using assms take_Suc_conv_app_nth [of n s] by simp
  then have "rev s = s ! n # rev (take n s)" by (metis rev.simps(2) rev_rev_ident rev_append rev_singleton_conv append_Cons append_Nil)
  moreover have "length (rev (take n s)) = n" using assms by simp
  ultimately show "le_nat s = unat (s ! n) * 256 ^ n + le_nat (take n s)" by (simp only: le_nat_def bytes_nat_Cons)
  show "le_nat (take n s) < 256 ^ n" using bytes_nat_bound [of "rev (take n s)"] assms by (simp add: le_nat_def)
qed

lemma le_nat_scOne: "le_nat scOne = 1"
proof -
  have "rev scOne = replicate 31 0 @ [1]" by (simp add: scOne_def)
  then show ?thesis using le_nat_zeros [of 31] by (simp add: le_nat_def)
qed

lemma small_and_224:
  assumes "unat (w :: byte) < 32"
  shows "w AND 224 = 0"
proof -
  have "list_all (\<lambda>k. (word_of_nat k :: byte) AND 224 = 0) [0..<32]" by code_simp
  then have "\<forall>k < 32. (word_of_nat k :: byte) AND 224 = 0" by (simp add: list_all_iff)
  with assms have "(word_of_nat (unat w) :: byte) AND 224 = 0" by blast
  then show ?thesis by simp
qed

lemma le_nat_bounds:
  assumes "length s = 32"
  shows "unat (s ! 31) < 128 \<Longrightarrow> le_nat s < 2 ^ 255" "le_nat s < 2 ^ 253 \<Longrightarrow> s ! 31 AND 224 = 0"
proof -
  have s: "le_nat s = unat (s ! 31) * 256 ^ 31 + le_nat (take 31 s)" "le_nat (take 31 s) < 256 ^ 31"
    using le_nat_last [of s 31] assms by simp_all
  show "le_nat s < 2 ^ 255" if "unat (s ! 31) < 128" using s that by simp
  show "s ! 31 AND 224 = 0" if "le_nat s < 2 ^ 253"
  proof (rule small_and_224, rule ccontr)
    assume "\<not> unat (s ! 31) < 32"
    then have "32 * 256 ^ 31 \<le> unat (s ! 31) * (256 :: nat) ^ 31" by simp
    with s that show False by simp
  qed
qed

text \<open>\<open>GenerateKey\<close> and \<open>Cosign\<close> clear different bits of the last byte, with the same result.\<close>

lemma clamp_top: "(w :: byte) AND 127 OR 64 = w AND 63 OR 64" "unat (w AND 63 OR 64) < 128"
proof -
  have "list_all (\<lambda>k. (word_of_nat k :: byte) AND 127 OR 64 = word_of_nat k AND 63 OR 64 \<and> unat ((word_of_nat k :: byte) AND 63 OR 64) < 128) [0..<256]"
    by code_simp
  then have "\<forall>k < 256. (word_of_nat k :: byte) AND 127 OR 64 = word_of_nat k AND 63 OR 64 \<and> unat ((word_of_nat k :: byte) AND 63 OR 64) < 128"
    by (simp add: list_all_iff)
  then have "(word_of_nat (unat w) :: byte) AND 127 OR 64 = word_of_nat (unat w) AND 63 OR 64 \<and> unat ((word_of_nat (unat w) :: byte) AND 63 OR 64) < 128"
    using byte_bound by blast
  then show "w AND 127 OR 64 = w AND 63 OR 64" "unat (w AND 63 OR 64) < 128" by simp_all
qed

lemma clamp_ok:
  assumes "length k = 32"
  shows "length (clamp k) = 32" "le_nat (clamp k) < 2 ^ 255"
proof -
  show l: "length (clamp k) = 32" using assms by (simp add: clamp_def Let_def)
  have "clamp k ! 31 = k ! 31 AND 63 OR 64" using assms by (simp add: clamp_def Let_def)
  then show "le_nat (clamp k) < 2 ^ 255" using le_nat_bounds(1) [OF l] clamp_top(2) by simp
qed

text \<open>The scalar behind a seed, and the key pair made of it.\<close>

definition key_scalar :: "bytes \<Rightarrow> bytes" where "key_scalar seed = clamp (take 32 (Sum512 seed))"

lemma key_scalar_ok: "length (key_scalar seed) = 32" "le_nat (key_scalar seed) < 2 ^ 255"
  using clamp_ok [of "take 32 (Sum512 seed)"] by (simp_all add: key_scalar_def)

lemma GenerateKey_scalar:
  "GenerateKey C seed = (cv_ToBytes C (cv_Base C (key_scalar seed)), seed @ cv_ToBytes C (cv_Base C (key_scalar seed)))"
proof -
  let ?d = "Sum512 seed"
  have "take 32 (?d[0 := ?d ! 0 AND 248, 31 := ?d ! 31 AND 127, 31 := ?d ! 31 AND 127 OR 64]) = key_scalar seed"
    by (simp add: key_scalar_def clamp_def Let_def take_update_swap clamp_top(1))
  then show ?thesis by (simp add: GenerateKey_def Let_def)
qed

lemma expandedSecretKey_seed: "length seed = 32 \<Longrightarrow> expandedSecretKey (seed @ k) = key_scalar seed"
  by (simp add: expandedSecretKey_def key_scalar_def)

section \<open>Honest signers\<close>

lemma MaskBit_of_disabled: "cos_inv cos \<Longrightarrow> i < length (cos_keys cos) \<Longrightarrow> MaskBit_of cos i = Some (disabled (cos_mask cos) i)"
  using in_mask [of cos i] by (simp add: MaskBit_of_def disabled_def idx_def)

lemma on_Suc: "{i \<in> on cos. i < Suc k} = (if k \<in> on cos then insert k {i \<in> on cos. i < k} else {i \<in> on cos. i < k})"
  by (auto simp: less_Suc_eq)

lemma sc_order_bounds: "0 < sc_order" "sc_order \<le> 2 ^ 253"
  by (simp_all add: sc_order_def)

lemma length_scOne: "length scOne = 32"
  by (simp add: scOne_def)

lemma AggregateCommit_ok:
  assumes "curve_ok C" and "cos_inv cos" and "length commits = length (cos_keys cos)"
    and "\<And>i. i \<in> on cos \<Longrightarrow> commits ! i = cv_ToBytes C (P i)"
  shows "AggregateCommit C cos commits = Some (Some (cv_ToBytes C (\<Sum>i \<in> on cos. P i)))"
proof -
  let ?f = "\<lambda>i st. case st of None \<Rightarrow> Some None
        | Some aggR \<Rightarrow>
          (case MaskBit_of cos i of None \<Rightarrow> None
           | Some b \<Rightarrow> if b = Disabled then Some st
               else map_option (\<lambda>c. if length c \<noteq> 32 then None else map_option (\<lambda>P. aggR + P) (cv_FromBytes C c)) (idx commits i))"
  have cv: "length (cv_ToBytes C Q) = 32" "cv_FromBytes C (cv_ToBytes C Q) = Some Q" for Q
    using assms(1) by (simp_all add: curve_ok_def)
  have "ofold ?f [0..<k] (Some 0) = Some (Some (\<Sum>i \<in> {i \<in> on cos. i < k}. P i))" if "k \<le> length (cos_keys cos)" for k
    using that
  proof (induction k)
    case (Suc k)
    then have k: "k < length (cos_keys cos)" "MaskBit_of cos k = Some (disabled (cos_mask cos) k)"
      using MaskBit_of_disabled [OF assms(2)] by simp_all
    then have "k \<in> on cos \<longleftrightarrow> \<not> disabled (cos_mask cos) k" by (simp add: on_def)
    then show ?case
      using Suc k assms(3) assms(4) [of k] cv by (auto simp: ofold_append on_Suc idx_def add.commute)
  qed simp
  from this [of "length (cos_keys cos)"] have "ofold ?f [0..<length (cos_keys cos)] (Some 0) = Some (Some (\<Sum>i \<in> {i \<in> on cos. i < length (cos_keys cos)}. P i))" by simp
  moreover have "{i \<in> on cos. i < length (cos_keys cos)} = on cos" by (auto simp: on_def)
  ultimately show ?thesis by (simp add: AggregateCommit_def)
qed

lemma AggregateSignature_ok:
  assumes "cos_inv cos" and "length R = 32" and "length parts = length (cos_keys cos)"
    and "\<And>i. i \<in> on cos \<Longrightarrow> length (parts ! i) = 32"
  shows "\<exists>s. AggregateSignature C cos R parts = Some (Some (R @ s @ cos_mask cos)) \<and> length s = 32
    \<and> le_nat s = (\<Sum>i \<in> on cos. le_nat (parts ! i)) mod sc_order"
proof -
  let ?f = "\<lambda>i st. case st of None \<Rightarrow> Some None
           | Some aggS \<Rightarrow>
             (case MaskBit_of cos i of None \<Rightarrow> None
              | Some b \<Rightarrow> if b = Disabled then Some st
                  else map_option (\<lambda>c. if length c \<noteq> 32 then None else Some (ScMulAdd aggS scOne c)) (idx parts i))"
  have "\<exists>s. ofold ?f [0..<k] (Some (replicate 32 0)) = Some (Some s) \<and> length s = 32
      \<and> le_nat s = (\<Sum>i \<in> {i \<in> on cos. i < k}. le_nat (parts ! i)) mod sc_order" if "k \<le> length (cos_keys cos)" for k
    using that
  proof (induction k)
    case 0
    then show ?case by (simp add: le_nat_zeros)
  next
    case (Suc k)
    then obtain s where s: "ofold ?f [0..<k] (Some (replicate 32 0)) = Some (Some s)" "length s = 32"
      "le_nat s = (\<Sum>i \<in> {i \<in> on cos. i < k}. le_nat (parts ! i)) mod sc_order" by auto
    have k: "k < length (cos_keys cos)" "MaskBit_of cos k = Some (disabled (cos_mask cos) k)"
      using MaskBit_of_disabled [OF assms(1)] Suc.prems by simp_all
    then have kon: "k \<in> on cos \<longleftrightarrow> \<not> disabled (cos_mask cos) k" by (simp add: on_def)
    show ?case
    proof (cases "k \<in> on cos")
      case False
      then show ?thesis using s k(2) kon by (auto simp: ofold_append on_Suc)
    next
      case True
      have m: "length (ScMulAdd s scOne (parts ! k)) = 32 \<and> le_nat (ScMulAdd s scOne (parts ! k)) = (le_nat s * 1 + le_nat (parts ! k)) mod sc_order"
        using ScMulAdd_ok [of s scOne "parts ! k"] s(2) assms(4) [OF True] by (simp add: le_nat_scOne length_scOne)
      then show ?thesis
        using s k True kon assms(3) assms(4) [OF True]
        by (simp add: ofold_append on_Suc idx_def) (simp add: add.commute mod_add_right_eq)
    qed
  qed
  from this [of "length (cos_keys cos)"] obtain s where s: "ofold ?f [0..<length (cos_keys cos)] (Some (replicate 32 0)) = Some (Some s)" "length s = 32"
      "le_nat s = (\<Sum>i \<in> {i \<in> on cos. i < length (cos_keys cos)}. le_nat (parts ! i)) mod sc_order" by auto
  moreover have "{i \<in> on cos. i < length (cos_keys cos)} = on cos" by (auto simp: on_def)
  ultimately show ?thesis using assms(2) by (intro exI [of _ s]) (simp add: AggregateSignature_def)
qed

lemma copy_into_full: "length buf = length src \<Longrightarrow> copy_into buf src = src"
  by (simp add: copy_into_def)

lemma load_keys_points:
  assumes "curve_ok C" and "length buf = 32"
  shows "load_keys C buf (map (\<lambda>s. cv_ToBytes C (P s)) xs) = Some (map P xs)"
  using assms(2)
proof (induction xs arbitrary: buf)
  case (Cons x xs)
  have "length (cv_ToBytes C (P x)) = 32" "cv_FromBytes C (cv_ToBytes C (P x)) = Some (P x)"
    using assms(1) by (simp_all add: curve_ok_def)
  then show ?case using Cons by (simp add: copy_into_full)
qed simp

text \<open>A signature made of the scalars of an honest set of signers is one for the sum of their keys.\<close>

lemma honest_equation:
  assumes C: "curve_ok C" and h: "length h = 32" "le_nat h < 2 ^ 255" and s: "length s = 32" "le_nat s = (\<Sum>i \<in> I. t i) mod l"
    and l: "0 < l" "l \<le> 2 ^ 253" "smul l (cv_Base C scOne) = 0"
    and t: "\<And>i. i \<in> I \<Longrightarrow> t i = (le_nat h * x i + r i) mod l"
  shows "s ! 31 AND 224 = 0 \<and> cv_Double C h (- (\<Sum>i \<in> I. smul (x i) (cv_Base C scOne))) s = (\<Sum>i \<in> I. smul (r i) (cv_Base C scOne))"
proof -
  have b: "le_nat s < 2 ^ 253" using s(2) mod_less_divisor [OF l(1), of "\<Sum>i \<in> I. t i"] l(2) by simp
  have "cv_Double C h (- (\<Sum>i \<in> I. smul (x i) (cv_Base C scOne))) s
      = smul (le_nat h) (- (\<Sum>i \<in> I. smul (x i) (cv_Base C scOne))) + smul (le_nat s) (cv_Base C scOne)"
    using C h s(1) b by (simp add: curve_ok_def)
  then show ?thesis using schnorr_equation [OF l(3) t s(2)] le_nat_bounds(2) [OF s(1) b] by simp
qed

text \<open>The commitments of the others do not matter.\<close>

lemma cosi_honest:
  assumes C: "curve_ok C" and seeds: "\<forall>s \<in> set seeds. length s = 32"
    and cs: "length commits = length seeds" "\<And>i. i \<in> S \<Longrightarrow> length (rnds i) = 64 \<and> Commit C (Inr (rnds i)) = Inr (commits ! i, sec i)"
    and pks: "pks = map (\<lambda>s. fst (GenerateKey C s)) seeds" and S: "S = signers (length seeds) m"
  shows "\<exists>cos R. NewCosigners C pks m = Some (Some cos) \<and> AggregateCommit C cos commits = Some (Some R) \<and> length R = 32
    \<and> (\<forall>parts. length parts = length seeds
        \<and> (\<forall>i \<in> S. \<exists>s'. Cosign C (snd (GenerateKey C (seeds ! i))) (sec i) msg (AggregatePublicKey C cos) R = Some (parts ! i, s')) \<longrightarrow>
         (\<forall>i \<in> S. VerifyPart C cos msg R i (commits ! i) (parts ! i) = Some True)
       \<and> (\<exists>sig. AggregateSignature C cos R parts = Some (Some sig)
            \<and> cosi_Verify C pks p msg sig = Some (policy_holds p (card S) (length seeds))))"

proof -
  let ?n = "length seeds" and ?B = "cv_Base C scOne"
  let ?k = "\<lambda>i. key_scalar (seeds ! i)" and ?r = "\<lambda>i. ScReduce (rnds i)"
  have l: "0 < sc_order" "sc_order \<le> 2 ^ 253" "smul sc_order ?B = 0" using C sc_order_bounds by (simp_all add: curve_ok_def)
  note red = ScReduce_ok
  have base: "cv_Base C s = smul (le_nat s) ?B" if "length s = 32" "le_nat s < 2 ^ 255" for s
    using C that by (simp add: curve_ok_def)
  have tb: "length (cv_ToBytes C P) = 32" for P using C by (simp add: curve_ok_def)
  have red255: "length (ScReduce x) = 32" "le_nat (ScReduce x) < 2 ^ 255" if "length x = 64" for x
    using red [OF that] l(2) mod_less_divisor [OF l(1), of "le_nat x"] by simp_all
  have ks: "load_keys C (replicate 32 0) pks = Some (map (\<lambda>s. cv_Base C (key_scalar s)) seeds)"
    unfolding pks GenerateKey_scalar fst_conv by (rule load_keys_points [OF C]) simp
  obtain cos where cos: "NewCosigners C pks m = Some (Some cos)" "cos_inv cos"
    "cos_keys cos = map (\<lambda>s. cv_Base C (key_scalar s)) seeds" "on cos = S"
    using NewCosigners_ok [OF ks, of m] by (auto simp: S signers_def)
  have Sn: "i < ?n" if "i \<in> S" for i using that by (simp add: S signers_def)
  have key: "cos_keys cos ! i = smul (le_nat (?k i)) ?B" if "i \<in> S" for i
    using base [OF key_scalar_ok] Sn [OF that] by (simp add: cos(3))
  have ci: "commits ! i = cv_ToBytes C (smul (le_nat (?r i)) ?B)" "sec i = \<lparr>sec_reduced = ?r i, sec_valid = True\<rparr>" if "i \<in> S" for i
    using cs(2) [OF that] base [OF red255, of "rnds i"] by (auto simp: Commit_def Let_def)
  let ?R = "cv_ToBytes C (\<Sum>i \<in> S. smul (le_nat (?r i)) ?B)"
  have aggR: "AggregateCommit C cos commits = Some (Some ?R)"
    using AggregateCommit_ok [OF C cos(2), of commits] cos(3,4) ci(1) cs(1) by simp
  let ?h = "ScReduce (Sum512 (?R @ AggregatePublicKey C cos @ msg))"
  have h: "length ?h = 32" "le_nat ?h < 2 ^ 255" using red255 by simp_all
  show ?thesis
  proof (rule exI [of _ cos], rule exI [of _ ?R], rule conjI [OF cos(1) conjI [OF aggR conjI [OF tb]]], intro allI impI, elim conjE)
    fix parts
    assume parts: "length parts = ?n" "(\<forall>i \<in> S. \<exists>s'. Cosign C (snd (GenerateKey C (seeds ! i))) (sec i) msg (AggregatePublicKey C cos) ?R = Some (parts ! i, s'))"
    have part: "length (parts ! i) = 32 \<and> le_nat (parts ! i) = (le_nat ?h * le_nat (?k i) + le_nat (?r i)) mod sc_order" if i: "i \<in> S" for i
    proof -
      have s: "length (seeds ! i) = 32" "length (rnds i) = 64" using seeds cs(2) [OF i] Sn [OF i] by simp_all
      have "parts ! i = ScMulAdd ?h (?k i) (?r i)"
        using parts i ci(2) [OF i] s(1) by (fastforce simp: Cosign_def GenerateKey_scalar expandedSecretKey_seed split: if_splits)
      then show ?thesis using ScMulAdd_ok [of ?h "?k i" "?r i"] h(1) key_scalar_ok(1) red255(1) [OF s(2)] by simp
    qed
    have aggK: "AggregatePublicKey C cos = cv_ToBytes C (cos_aggr cos)" by (simp add: AggregatePublicKey_def)
    have V: "\<forall>i \<in> S. VerifyPart C cos msg ?R i (commits ! i) (parts ! i) = Some True"
    proof
      fix i assume i: "i \<in> S"
      have "parts ! i ! 31 AND 224 = 0 \<and> cv_Double C ?h (- (\<Sum>j \<in> {i}. smul (le_nat (?k j)) ?B)) (parts ! i) = (\<Sum>j \<in> {i}. smul (le_nat (?r j)) ?B)"
        by (rule honest_equation [OF C h, where t = "\<lambda>j. le_nat (parts ! j)", OF _ _ l]) (use part i in simp_all)
      then show "VerifyPart C cos msg ?R i (commits ! i) (parts ! i) = Some True"
        using part [OF i] key [OF i] ci(1) [OF i] Sn [OF i] cos(3) tb aggK by (simp add: VerifyPart_def verify_part_def idx_def Let_def)
    qed
    have p: "length parts = length (cos_keys cos)" "\<And>i. i \<in> on cos \<Longrightarrow> length (parts ! i) = 32"
      using parts part cos(3,4) by simp_all
    obtain s where s: "AggregateSignature C cos ?R parts = Some (Some (?R @ s @ cos_mask cos))" "length s = 32"
      "le_nat s = (\<Sum>i \<in> S. le_nat (parts ! i)) mod sc_order"
      using AggregateSignature_ok [OF cos(2) tb p] unfolding cos(4) by blast
    let ?sig = "?R @ s @ cos_mask cos"
    have mk: "length (cos_mask cos) = (?n + 7) div 8" "signers ?n (cos_mask cos) = S"
      using cos(2-4) by (simp_all add: cos_inv_def MaskLen_def signers_def on_def)
    have A: "(\<Sum>i \<in> S. map (\<lambda>s. cv_Base C (key_scalar s)) seeds ! i) = cos_aggr cos"
      using cos(2-4) by (simp add: cos_inv_def)
    have A': "cos_aggr cos = (\<Sum>i \<in> S. smul (le_nat (?k i)) ?B)" using cos(2,4) key by (simp add: cos_inv_def)
    have "schnorr C (cos_aggr cos) msg ?R s"
      using honest_equation [OF C h s(2,3) l, of "\<lambda>i. le_nat (?k i)" "\<lambda>i. le_nat (?r i)"] part aggK A'
      by (simp add: schnorr_def)
    then have "cosi_Verify C pks p msg ?sig = Some (policy_holds p (card S) ?n)"
      using s(2) tb mk A by (simp add: cosi_Verify_direct ks Let_def)
    with s(1) V show "(\<forall>i \<in> S. VerifyPart C cos msg ?R i (commits ! i) (parts ! i) = Some True)
      \<and> (\<exists>sig. AggregateSignature C cos ?R parts = Some (Some sig) \<and> cosi_Verify C pks p msg sig = Some (policy_holds p (card S) (length seeds)))"
      by blast
  qed
qed

text \<open>C30: Collective signing is complete. For any set of signers, when every one commits, and answers
  the challenge for the aggregate of their commitments and keys with its own key, each answer
  passes the leader's check, and the aggregate is a signature that everybody accepts, exactly if
  the set satisfies the policy.\<close>

theorem cosi_complete:
  assumes C: "curve_ok C" and seeds: "\<forall>s \<in> set seeds. length s = 32"
    and rnds: "length rnds = length seeds" "\<forall>r \<in> set rnds. length r = 64" "map (\<lambda>r. Commit C (Inr r)) rnds = map Inr cs"
    and pks: "pks = map (\<lambda>s. fst (GenerateKey C s)) seeds" and S: "S = signers (length seeds) m"
  shows "\<exists>cos R. NewCosigners C pks m = Some (Some cos) \<and> AggregateCommit C cos (map fst cs) = Some (Some R)
    \<and> (\<forall>parts. length parts = length seeds
        \<and> (\<forall>i \<in> S. \<exists>s'. Cosign C (snd (GenerateKey C (seeds ! i))) (snd (cs ! i)) msg (AggregatePublicKey C cos) R = Some (parts ! i, s')) \<longrightarrow>
         (\<forall>i \<in> S. VerifyPart C cos msg R i (fst (cs ! i)) (parts ! i) = Some True)
       \<and> (\<exists>sig. AggregateSignature C cos R parts = Some (Some sig)
            \<and> cosi_Verify C pks p msg sig = Some (policy_holds p (card S) (length seeds))))"
proof -
  have len: "length cs = length seeds" using arg_cong [OF rnds(3), of length] rnds(1) by simp
  have "length (rnds ! i) = 64 \<and> Commit C (Inr (rnds ! i)) = Inr (map fst cs ! i, snd (cs ! i))" if "i \<in> S" for i
    using arg_cong [OF rnds(3), of "\<lambda>xs. xs ! i"] rnds(1,2) len that by (simp add: S signers_def)
  from cosi_honest [OF C seeds _ this pks S, of msg p] len show ?thesis
    using S by (fastforce simp: signers_def)
qed

text \<open>A group with encodings that satisfies the laws: the numbers below \<open>sc_order\<close>, under addition.\<close>

typedef residue = "{n. n < sc_order}" morphisms nat_of abs_residue
  by (rule exI [of _ 0]) (simp add: sc_order_def)

definition residue :: "nat \<Rightarrow> residue" where "residue n = abs_residue (n mod sc_order)"

lemma nat_of_residue: "nat_of (residue n) = n mod sc_order"
  by (simp add: residue_def abs_residue_inverse sc_order_bounds)

lemma residue_nat_of: "residue (nat_of P) = P"
  using nat_of [of P] by (simp add: residue_def nat_of_inverse)

lemma residue_eq: "P = Q \<longleftrightarrow> nat_of P mod sc_order = nat_of Q mod sc_order"
  using nat_of [of P] nat_of [of Q] nat_of_inject [of P Q] by simp

instantiation residue :: ab_group_add
begin

definition "0 = residue 0"

definition "P + Q = residue (nat_of P + nat_of Q)"

definition "- P = residue (sc_order - nat_of P)"

definition "P - Q = P + - (Q :: residue)"

instance
proof
  fix P Q R :: residue
  show "P + Q + R = P + (Q + R)" by (simp add: plus_residue_def residue_eq nat_of_residue mod_simps add.assoc)
  show "P + Q = Q + P" by (simp add: plus_residue_def add.commute)
  show "0 + P = P" by (simp add: zero_residue_def plus_residue_def nat_of_residue residue_nat_of)
  have "nat_of P \<le> sc_order" using nat_of [of P] by simp
  then show "- P + P = 0" by (simp add: zero_residue_def plus_residue_def uminus_residue_def residue_eq nat_of_residue mod_simps)
  show "P - Q = P + - Q" by (rule minus_residue_def)
qed

end

lemma smul_residue: "smul n P = residue (n * nat_of P)"
  by (induction n) (auto simp: zero_residue_def plus_residue_def residue_eq nat_of_residue mod_simps intro: mod_add_cong)

definition toy_curve :: "residue curve" where
  "toy_curve = \<lparr>cv_FromBytes = \<lambda>b. Some (residue (le_nat b)), cv_ToBytes = \<lambda>P. map (\<lambda>k. of_nat (nat_of P div 256 ^ k)) [0..<32],
     cv_Base = \<lambda>s. residue (le_nat s), cv_Double = \<lambda>a P b. residue (le_nat a * nat_of P + le_nat b)\<rparr>"

lemma toy_curve_ok: "curve_ok toy_curve"
proof -
  have b: "nat_of P < 256 ^ 32" for P using nat_of [of P] sc_order_bounds(2) by simp
  have e: "le_nat (map (\<lambda>k. of_nat (nat_of P div 256 ^ k)) [0..<32]) = nat_of P" for P
    using b [of P] by (simp only: le_nat_of_digits mod_less)
  have s: "cv_Base toy_curve scOne = residue 1" by (simp add: toy_curve_def le_nat_scOne)
  have one: "sc_order \<noteq> Suc 0" by (simp add: sc_order_def)
  show ?thesis
    unfolding curve_ok_def s using one
    by (simp add: toy_curve_def e smul_residue residue_nat_of, simp add: residue_eq nat_of_residue plus_residue_def zero_residue_def mod_simps)
qed

theorem cosi_complete_witness:
  "\<exists>sig. cosi_Verify toy_curve (map (\<lambda>s. fst (GenerateKey toy_curve s)) [replicate 32 1, replicate 32 2])
      (Some (ThresholdPolicy 2)) [7] sig = Some True"
proof -
  let ?seeds = "[replicate 32 1, replicate 32 2] :: bytes list" and ?rnds = "[replicate 64 3, replicate 64 4] :: bytes list"
  let ?C = toy_curve
  let ?cs = "map (\<lambda>r. let r = ScReduce r in (cv_ToBytes ?C (cv_Base ?C r), \<lparr>sec_reduced = r, sec_valid = True\<rparr>)) ?rnds"
  have h: "\<forall>s \<in> set ?seeds. length s = 32" "length ?rnds = length ?seeds" "\<forall>r \<in> set ?rnds. length r = 64"
    "map (\<lambda>r. Commit ?C (Inr r)) ?rnds = map Inr ?cs"
    by (simp_all add: Commit_def Let_def)
  have S: "signers (length ?seeds) [] = {0, 1}" by (auto simp: signers_def disabled_def)
  from cosi_complete [OF toy_curve_ok h refl refl, of "[]" "[7]" "Some (thresPolicy 2)"] obtain cos R where
    c: "AggregateCommit ?C cos (map fst ?cs) = Some (Some R)" and
    P: "\<And>parts. length parts = length ?seeds \<Longrightarrow> (\<forall>i \<in> signers (length ?seeds) []. \<exists>s'. Cosign ?C (snd (GenerateKey ?C (?seeds ! i))) (snd (?cs ! i)) [7] (AggregatePublicKey ?C cos) R = Some (parts ! i, s'))
      \<Longrightarrow> \<exists>sig. cosi_Verify ?C (map (\<lambda>s. fst (GenerateKey ?C s)) ?seeds) (Some (thresPolicy 2)) [7] sig
            = Some (policy_holds (Some (thresPolicy 2)) (card (signers (length ?seeds) [])) (length ?seeds))" by blast
  have R: "length R = 32" using c by (auto simp: AggregateCommit_def toy_curve_def)
  let ?p = "\<lambda>i. fst (the (Cosign ?C (snd (GenerateKey ?C (?seeds ! i))) (snd (?cs ! i)) [7] (AggregatePublicKey ?C cos) R))"
  have "\<exists>sig. cosi_Verify ?C (map (\<lambda>s. fst (GenerateKey ?C s)) ?seeds) (Some (thresPolicy 2)) [7] sig
        = Some (policy_holds (Some (thresPolicy 2)) (card (signers (length ?seeds) [])) (length ?seeds))"
    by (rule P [of "[?p 0, ?p 1]"], simp, unfold S) (simp add: Cosign_def GenerateKey_scalar R Let_def, simp add: toy_curve_def)
  then show ?thesis unfolding S by (simp add: ThresholdPolicy_def policy_holds_def)
qed

text \<open>Two cosigners of which the second is disabled.\<close>

theorem cosigners_invariant_witness:
  "\<exists>cos. NewCosigners toy_curve (map (\<lambda>s. fst (GenerateKey toy_curve s)) [replicate 32 1, replicate 32 2]) [2] = Some (Some cos)
     \<and> CountEnabled cos = Some (card (signers (CountTotal cos) (cos_mask cos)))"
proof -
  let ?pks = "map (\<lambda>s. fst (GenerateKey toy_curve s)) ([replicate 32 1, replicate 32 2] :: bytes list)"
  have "load_keys toy_curve (replicate 32 0) ?pks = Some (map (\<lambda>s. cv_Base toy_curve (key_scalar s)) [replicate 32 1, replicate 32 2])"
    unfolding GenerateKey_scalar fst_conv by (rule load_keys_points [OF toy_curve_ok]) simp
  from NewCosigners_ok [OF this, of "[2]"] obtain cos where c: "NewCosigners toy_curve ?pks [2] = Some (Some cos)" by blast
  with cosigners_invariant [OF cosigners_reach.new [OF c]] show ?thesis by blast
qed

end
