(* ===== verification/Msgs.thy ===== *)
theory Msgs
  imports Tx
begin

text \<open>
  The messages of one transaction round: the list of transactions the leader proposes
  (\<open>basic/TxList.go\<close>), the decision of a miner on it (\<open>basic/TxDecision.go\<close>) and the set of
  all decisions of a shard, signed by the leader (\<open>basic/TxDecSet.go\<close>).
\<close>

unbundle bit_operations_syntax

section \<open>Transaction lists\<close>

record TxList =
  tl_ID :: u32
  tl_HashID :: hash
  tl_Round :: u32
  tl_Level :: u32
  tl_TxCnt :: u32
  tl_TxArray :: "hash list"
  tl_TxArrayX :: "shash list"
  tl_Sender :: u32
  tl_Sig :: RCSign

definition TxList_zero :: TxList where
  "TxList_zero = \<lparr>tl_ID = 0, tl_HashID = 0, tl_Round = 0, tl_Level = 0, tl_TxCnt = 0, tl_TxArray = [],
     tl_TxArrayX = [], tl_Sender = 0, tl_Sig = RCSign_zero\<rparr>"

definition TxList_data :: "TxList \<Rightarrow> bytes option" where
  "TxList_data a = seq_opt [Some (byteSlice (tl_Round a)),
     for_upto (\<lambda>h. Some (be_bytes 32 h)) (unat (tl_TxCnt a)) (tl_TxArray a)]"

definition TxList_Hash :: "TxList \<Rightarrow> hash option" where
  "TxList_Hash a = map_option Sum256 (TxList_data a)"

definition TxList_Sign :: "signer \<Rightarrow> nat \<Rightarrow> TxList \<Rightarrow> PrivateKey \<Rightarrow> TxList option" where
  "TxList_Sign sg rnd a prk =
     map_option (\<lambda>h. a\<lparr>tl_HashID := h, tl_Sig := RCSign_Sign sg rnd (be_bytes 32 h) prk\<rparr>) (TxList_Hash a)"

definition TxList_Verify :: "verifier \<Rightarrow> TxList \<Rightarrow> PublicKey \<Rightarrow> bool option" where
  "TxList_Verify vf a puk =
     (case TxList_Hash a of
        None \<Rightarrow> None
      | Some h \<Rightarrow> if h \<noteq> tl_HashID a then Some False
                 else RCSign_Verify vf (tl_Sig a) (be_bytes 32 (tl_HashID a)) puk)"

definition TxList_Set :: "TxList \<Rightarrow> u32 \<Rightarrow> u32 \<Rightarrow> TxList" where
  "TxList_Set a ID height = a\<lparr>tl_ID := ID, tl_TxCnt := 0, tl_Round := height, tl_TxArray := []\<rparr>"

definition TxList_AddTx :: "TxList \<Rightarrow> Transaction \<Rightarrow> TxList" where
  "TxList_AddTx a tx = a\<lparr>tl_TxCnt := tl_TxCnt a + 1, tl_TxArray := tl_TxArray a @ [tx_Hash tx],
     tl_TxArrayX := tl_TxArrayX a @ [HashCut (tx_Hash tx)]\<rparr>"

definition TxList_Encode :: "TxList \<Rightarrow> bytes option" where
  "TxList_Encode a = seq_opt
    (map Encode [VU32 (tl_ID a), P32 (tl_HashID a), VU32 (tl_Round a), VU32 (tl_Level a),
                 VU32 (tl_Sender a), VU32 (tl_TxCnt a)]
     @ [for_upto (\<lambda>h. Encode (VArr32 h)) (unat (tl_TxCnt a)) (tl_TxArray a), Encode (PSign (tl_Sig a))])"

definition TxList_Decode :: "TxList dec" where
  "TxList_Decode = steps
    [field tl_ID tl_ID_update ''TxList ID decode failed'' Decode_u32,
     field tl_HashID tl_HashID_update ''TxList HashID decode failed'' Decode_hash,
     field tl_Round tl_Round_update ''TxList Round decode failed'' Decode_u32,
     field tl_Level tl_Level_update ''TxList Level decode failed'' Decode_u32,
     field tl_Sender tl_Sender_update ''TxList Sender decode failed'' Decode_u32,
     field tl_TxCnt tl_TxCnt_update ''TxList TxCnt decode failed'' Decode_u32,
     fieldS tl_TxArray tl_TxArray_update (\<lambda>a. make_array (WrapAt ''TxList Tx decode failed'')
       (unat (tl_TxCnt a)) 0 Decode_hash),
     field tl_Sig tl_Sig_update ''TxList signature decode failed'' DataToSign,
     no_extra ''TxList decode failed: With extra bits'']"

definition TxList_cnt :: "TxList \<Rightarrow> bool" where
  "TxList_cnt a \<longleftrightarrow> length (tl_TxArray a) = unat (tl_TxCnt a)"

definition TxList_wf :: "TxList \<Rightarrow> bool" where
  "TxList_wf a \<longleftrightarrow> TxList_cnt a \<and> RCSign_wf (tl_Sig a)"

text \<open>The shortened hashes are not transmitted.\<close>

definition TxList_view :: "TxList \<Rightarrow> TxList" where
  "TxList_view a = a\<lparr>tl_TxArrayX := []\<rparr>"

section \<open>Decisions\<close>

record TxDecision =
  td_ID :: u32
  td_HashID :: hash
  td_TxCnt :: u32
  td_Decision :: bytes
  td_Target :: u32
  td_Single :: u32
  td_Sig :: "RCSign list"

definition TxDecision_zero :: TxDecision where
  "TxDecision_zero = \<lparr>td_ID = 0, td_HashID = 0, td_TxCnt = 0, td_Decision = [], td_Target = 0,
     td_Single = 0, td_Sig = []\<rparr>"

definition TxDecision_Set :: "TxDecision \<Rightarrow> u32 \<Rightarrow> u32 \<Rightarrow> u32 \<Rightarrow> TxDecision" where
  "TxDecision_Set a ID target single =
     a\<lparr>td_TxCnt := 0, td_ID := ID, td_Target := target, td_Single := single,
       td_Sig := (if single = 0 then replicate (unat ShardCnt) RCSign_zero else [RCSign_zero])\<rparr>"

text \<open>\<open>Add\<close> opens a new byte for every eighth decision and adds the bit into the last byte;
  \<open>a.Decision[len - 1]\<close> panics when there is none.\<close>

definition TxDecision_Add :: "TxDecision \<Rightarrow> byte \<Rightarrow> TxDecision option" where
  "TxDecision_Add a x =
     (let tmpNum = td_TxCnt a mod 8;
          dec = (if tmpNum = 0 then td_Decision a @ [0] else td_Decision a);
          tmp = length dec - 1
      in if dec = [] then None
         else Some (a\<lparr>td_TxCnt := td_TxCnt a + 1,
                      td_Decision := dec[tmp := dec ! tmp + push_bit (unat tmpNum) x]\<rparr>))"

definition TxDecision_data :: "TxDecision \<Rightarrow> bytes" where
  "TxDecision_data a = be_bytes 32 (td_HashID a) @ td_Decision a @ byteSlice (td_ID a)"

definition TxDecision_Sign :: "signer \<Rightarrow> nat \<Rightarrow> TxDecision \<Rightarrow> PrivateKey \<Rightarrow> u32 \<Rightarrow> TxDecision option" where
  "TxDecision_Sign sg rnd a prk x =
     (let tmpHash = Sum256 (TxDecision_data a) in
      case idx (td_Sig a) (unat x) of
        None \<Rightarrow> None
      | Some _ \<Rightarrow> Some (a\<lparr>td_Sig := (td_Sig a)[unat x := RCSign_Sign sg rnd (be_bytes 32 tmpHash) prk]\<rparr>))"

definition TxDecision_Verify :: "verifier \<Rightarrow> TxDecision \<Rightarrow> PublicKey \<Rightarrow> u32 \<Rightarrow> bool option" where
  "TxDecision_Verify vf a puk x =
     (let tmpHash = Sum256 (TxDecision_data a) in
      case idx (td_Sig a) (unat x) of
        None \<Rightarrow> None
      | Some s \<Rightarrow> RCSign_Verify vf s (be_bytes 32 tmpHash) puk)"

definition TxDecision_Encode :: "TxDecision \<Rightarrow> bytes option" where
  "TxDecision_Encode a = seq_opt
    (map Encode [VU32 (td_ID a), VU32 (td_TxCnt a), VU32 (td_Target a), PSlice (td_Decision a),
                 VU32 (td_Single a)]
     @ (if td_Single a = 1 then [for_upto (\<lambda>s. Encode (PSign s)) 1 (td_Sig a)]
        else [Encode (P32 (td_HashID a)),
              for_upto (\<lambda>s. Encode (PSign s)) (unat ShardCnt) (td_Sig a)]))"

definition TxDecision_Decode :: "TxDecision dec" where
  "TxDecision_Decode = steps
    [field td_ID td_ID_update ''TxDecsion ID decode failed'' Decode_u32,
     field td_TxCnt td_TxCnt_update ''TxDecsion TxCnt decode failed'' Decode_u32,
     field td_Target td_Target_update ''TxDecsion Target decode failed'' Decode_u32,
     field td_Decision td_Decision_update ''TxDecsion Decision decode failed'' DecodeByte,
     field td_Single td_Single_update ''TxDecision Single decode failed'' Decode_u32,
     whenD (\<lambda>a. td_Single a = 1)
       (fieldS td_Sig td_Sig_update (\<lambda>_. make_array (\<lambda>_. Wrap ''TxDecision Sig decode failed'') 1
          RCSign_zero DataToSign)),
     whenD (\<lambda>a. td_Single a \<noteq> 1)
       (steps [field td_HashID td_HashID_update ''TxDecsion HashID decode failed'' Decode_hash,
               fieldS td_Sig td_Sig_update (\<lambda>_. make_array (\<lambda>_. Wrap ''TxDecision Sig decode failed'')
                 (unat ShardCnt) RCSign_zero DataToSign)])]"

definition TxDecision_wf :: "TxDecision \<Rightarrow> bool" where
  "TxDecision_wf a \<longleftrightarrow> list_all RCSign_wf (td_Sig a) \<and>
     length (td_Sig a) = (if td_Single a = 1 then 1 else unat ShardCnt)"

text \<open>The single decision of a cross-shard set travels without the hash of its list: the
  receiver fills it in from the set (\<open>PreTxDecision\<close>).\<close>

definition TxDecision_view :: "TxDecision \<Rightarrow> TxDecision" where
  "TxDecision_view a = (if td_Single a = 1 then a\<lparr>td_HashID := 0\<rparr> else a)"

section \<open>Decision sets\<close>

record TxDecSet =
  tds_ID :: u32
  tds_Round :: u32
  tds_Level :: u32
  tds_HashID :: hash
  tds_MemCnt :: u32
  tds_ShardIndex :: u32
  tds_MemD :: "TxDecision list"
  tds_TxCnt :: u32
  tds_TxArray :: "hash list"
  tds_TxArrayX :: "shash list"
  tds_Sender :: u32
  tds_Sig :: RCSign

definition TxDecSet_zero :: TxDecSet where
  "TxDecSet_zero = \<lparr>tds_ID = 0, tds_Round = 0, tds_Level = 0, tds_HashID = 0, tds_MemCnt = 0,
     tds_ShardIndex = 0, tds_MemD = [], tds_TxCnt = 0, tds_TxArray = [], tds_TxArrayX = [],
     tds_Sender = 0, tds_Sig = RCSign_zero\<rparr>"

definition TxDecSet_hash_data :: "TxDecSet \<Rightarrow> bytes option" where
  "TxDecSet_hash_data a = for_upto (\<lambda>h. Some (be_bytes 32 h)) (unat (tds_TxCnt a)) (tds_TxArray a)"

definition TxDecSet_Hash :: "TxDecSet \<Rightarrow> hash option" where
  "TxDecSet_Hash a = map_option Sum256 (TxDecSet_hash_data a)"

text \<open>What the leader signs: its identity, the hash and all decision vectors.\<close>

definition TxDecSet_data :: "TxDecSet \<Rightarrow> bytes option" where
  "TxDecSet_data a = seq_opt [Some (byteSlice (tds_ID a)), Some (be_bytes 32 (tds_HashID a)),
     for_upto (\<lambda>d. Some (td_Decision d)) (unat (tds_MemCnt a)) (tds_MemD a)]"

definition TxDecSet_Sign :: "signer \<Rightarrow> nat \<Rightarrow> TxDecSet \<Rightarrow> PrivateKey \<Rightarrow> TxDecSet option" where
  "TxDecSet_Sign sg rnd a prk =
     map_option (\<lambda>tmp. a\<lparr>tds_Sig := RCSign_Sign sg rnd (be_bytes 32 (Sum256 tmp)) prk\<rparr>) (TxDecSet_data a)"

definition TxDecSet_Verify :: "verifier \<Rightarrow> TxDecSet \<Rightarrow> PublicKey \<Rightarrow> bool option" where
  "TxDecSet_Verify vf a puk =
     (case TxDecSet_hash_data a of
        None \<Rightarrow> None
      | Some tmp \<Rightarrow>
          if Sum256 tmp \<noteq> tds_HashID a then Some False
          else case TxDecSet_data a of
            None \<Rightarrow> None
          | Some tmp \<Rightarrow> RCSign_Verify vf (tds_Sig a) (be_bytes 32 (Sum256 tmp)) puk)"

definition TxDecSet_Set :: "TxDecSet \<Rightarrow> TxList \<Rightarrow> u32 \<Rightarrow> int \<Rightarrow> TxDecSet option" where
  "TxDecSet_Set a b x y =
     (let a1 = a\<lparr>tds_ID := tl_ID b, tds_HashID := tl_HashID b, tds_MemCnt := 0,
                 tds_Round := tl_Round b, tds_ShardIndex := x\<rparr>
      in if y = 1 then Some (a1\<lparr>tds_TxCnt := 0, tds_TxArray := []\<rparr>)
         else map_option (\<lambda>hs. a1\<lparr>tds_TxCnt := tl_TxCnt b, tds_TxArray := hs,
                                  tds_TxArrayX := map HashCut hs\<rparr>)
                (for_upto (\<lambda>h. Some [h]) (unat (tl_TxCnt b)) (tl_TxArray b)))"

definition TxDecSet_Add :: "TxDecSet \<Rightarrow> TxDecision \<Rightarrow> TxDecSet" where
  "TxDecSet_Add a b = a\<lparr>tds_MemCnt := tds_MemCnt a + 1, tds_MemD := tds_MemD a @ [b]\<rparr>"

definition ResultMiner :: "TxDecSet \<Rightarrow> u32 \<Rightarrow> u32 \<Rightarrow> byte option" where
  "ResultMiner a index miner =
     (case idx (tds_MemD a) (unat miner) of
        None \<Rightarrow> None
      | Some d \<Rightarrow> map_option (\<lambda>b. drop_bit (unat (index mod 8)) b AND 1)
                   (idx (td_Decision d) (unat (index div 8))))"

text \<open>The number of votes for the transaction; a short decision vector panics.\<close>

definition TxDecSet_votes :: "TxDecSet \<Rightarrow> u32 \<Rightarrow> u32 option" where
  "TxDecSet_votes a index =
     map_option (\<lambda>vs. sum_list (map ucast vs))
       (those (map (\<lambda>i. ResultMiner a index (of_nat i)) [0..<unat (tds_MemCnt a)]))"

text \<open>Both branches return true in the source: the comparison with the majority has no
  effect.\<close>

definition TxDecSet_Result :: "TxDecSet \<Rightarrow> u32 \<Rightarrow> bool option" where
  "TxDecSet_Result a index =
     (case TxDecSet_votes a index of
        None \<Rightarrow> None
      | Some ans \<Rightarrow> if ans > (ShardSize - 1) div 2 then Some True else Some True)"

definition TxDecSet_Encode :: "TxDecSet \<Rightarrow> bytes option" where
  "TxDecSet_Encode a = seq_opt
    (map Encode [VU32 (tds_ID a), VU32 (tds_Round a), VU32 (tds_Level a), VU32 (tds_Sender a),
                 P32 (tds_HashID a), VU32 (tds_MemCnt a), VU32 (tds_TxCnt a), VU32 (tds_ShardIndex a)]
     @ [for_upto TxDecision_Encode (unat (tds_MemCnt a)) (tds_MemD a),
        for_upto (\<lambda>h. Encode (P32 h)) (unat (tds_TxCnt a)) (tds_TxArray a),
        Encode (PSign (tds_Sig a))])"

definition TxDecSet_Decode :: "TxDecSet dec" where
  "TxDecSet_Decode = steps
    [field tds_ID tds_ID_update ''TxDecSet ID decode failed'' Decode_u32,
     field tds_Round tds_Round_update ''TxDecSet Round decode failed'' Decode_u32,
     field tds_Level tds_Level_update ''TxDecSet Level decode failed'' Decode_u32,
     field tds_Sender tds_Sender_update ''TxDecSet Sender decode failed'' Decode_u32,
     field tds_HashID tds_HashID_update ''TxDecSet HashID decode failed'' Decode_hash,
     field tds_MemCnt tds_MemCnt_update ''TxDecSet MemCnt decode failed'' Decode_u32,
     field tds_TxCnt tds_TxCnt_update ''TxDecSet TxCnt decode failed'' Decode_u32,
     field tds_ShardIndex tds_ShardIndex_update ''TxDecSet ShardIndex decode failed'' Decode_u32,
     fieldS tds_MemD tds_MemD_update (\<lambda>a. make_array (WrapAt ''TxDecSet MemDecision decode failed'')
       (unat (tds_MemCnt a)) TxDecision_zero TxDecision_Decode),
     fieldS tds_TxArray tds_TxArray_update (\<lambda>a. make_array (WrapAt ''TxDecSet TxArray decode failed'')
       (unat (tds_TxCnt a)) 0 Decode_hash),
     field tds_Sig tds_Sig_update ''TxDecSet Signature decode failed'' DataToSign,
     no_extra ''TxDecSet decode failed: With extra bits'']"

definition TxDecSet_wf :: "TxDecSet \<Rightarrow> bool" where
  "TxDecSet_wf a \<longleftrightarrow> length (tds_MemD a) = unat (tds_MemCnt a) \<and> length (tds_TxArray a) = unat (tds_TxCnt a)
     \<and> list_all TxDecision_wf (tds_MemD a) \<and> RCSign_wf (tds_Sig a)"

definition TxDecSet_view :: "TxDecSet \<Rightarrow> TxDecSet" where
  "TxDecSet_view a = a\<lparr>tds_TxArrayX := [], tds_MemD := map TxDecision_view (tds_MemD a)\<rparr>"

section \<open>Round trips\<close>

lemma concat_map_hash: "seq_opt (map (\<lambda>h. Some (be_bytes 32 h)) hs) = Some (concat (map (be_bytes 32) hs))"
  by simp

lemma hash_array_enc:
  assumes "length hs = unat (n :: u32)" and "length (concat (map (be_bytes 32) (hs :: hash list)) @ r) < 2 ^ 32"
  shows "make_array wr (unat n) 0 Decode_hash old (concat (map (be_bytes 32) hs) @ r) = DOk hs r"
  using hash_codec.make_array_enc [of hs "concat (map (be_bytes 32) hs)" r] assms
  by (simp add: list_all_iff)

lemma TxList_Encode_wf: "TxList_wf a \<Longrightarrow> \<exists>e. TxList_Encode a = Some e"
  using SignToData_wf [of "tl_Sig a"]
  by (auto simp: TxList_wf_def TxList_cnt_def TxList_Encode_def for_upto_unat)

text \<open>The decoder insists on the end of the packet.\<close>

lemma TxList_Decode_enc:
  assumes wf: "TxList_wf a" and enc: "TxList_Encode a = Some e" and len: "length (e @ r) < 2 ^ 32"
  shows "TxList_Decode TxList_zero (e @ r) =
    (if r = [] then DOk (TxList_view a) []
     else DErr (TxList_view a) r (Msg ''TxList decode failed: With extra bits''))"
proof -
  from wf have cnt: "length (tl_TxArray a) = unat (tl_TxCnt a)" and rs: "RCSign_wf (tl_Sig a)"
    by (auto simp: TxList_wf_def TxList_cnt_def)
  from enc cnt obtain s where s: "SignToData (tl_Sig a) = Some s"
    and e: "e = le_bytes 4 (tl_ID a) @ be_bytes 32 (tl_HashID a) @ le_bytes 4 (tl_Round a)
      @ le_bytes 4 (tl_Level a) @ le_bytes 4 (tl_Sender a) @ le_bytes 4 (tl_TxCnt a)
      @ concat (map (be_bytes 32) (tl_TxArray a)) @ s"
    by (auto simp: TxList_Encode_def for_upto_unat seq_opt_Cons_Some)
  have "make_array wr (unat (tl_TxCnt a)) 0 Decode_hash x (concat (map (be_bytes 32) (tl_TxArray a)) @ s @ r)
      = DOk (tl_TxArray a) (s @ r)" for wr x
    by (rule hash_array_enc [OF cnt]) (use len e in simp)
  moreover have "DataToSign x (s @ r) = DOk (tl_Sig a) r" for x
    by (rule DataToSign_enc [OF rs s]) (use len e in simp)
  ultimately show ?thesis
    using len by (simp add: TxList_Decode_def fieldS_def field_def wrapD_def no_extra_def e
        TxList_zero_def TxList_view_def)
qed

lemma sign_array_enc:
  assumes "list_all RCSign_wf ss" and "seq_opt (map SignToData ss) = Some e" and "length (e @ r) < 2 ^ 32"
  shows "make_array wr (length ss) RCSign_zero DataToSign old (e @ r) = DOk ss r"
  using sign_codec.make_array_enc [of ss e r] assms by simp

lemma TxDecision_Encode_wf: "TxDecision_wf a \<Longrightarrow> \<exists>e. TxDecision_Encode a = Some e"
  using sign_codec.enc_list_wf [of "td_Sig a"]
  by (auto simp: TxDecision_wf_def TxDecision_Encode_def for_upto_def split: if_splits)

lemma TxDecision_Decode_enc:
  assumes wf: "TxDecision_wf a" and enc: "TxDecision_Encode a = Some e" and len: "length (e @ r) < 2 ^ 32"
  shows "TxDecision_Decode TxDecision_zero (e @ r) = DOk (TxDecision_view a) r"
proof -
  let ?hdr = "le_bytes 4 (td_ID a) @ le_bytes 4 (td_TxCnt a) @ le_bytes 4 (td_Target a)
    @ EncodeByte (td_Decision a) @ le_bytes 4 (td_Single a)"
  from wf have sigs: "list_all RCSign_wf (td_Sig a)"
    and n: "length (td_Sig a) = (if td_Single a = 1 then 1 else unat ShardCnt)"
    by (auto simp: TxDecision_wf_def)
  from enc n obtain s where s: "seq_opt (map SignToData (td_Sig a)) = Some s"
    and e: "e = ?hdr @ (if td_Single a = 1 then [] else be_bytes 32 (td_HashID a)) @ s"
    by (auto simp: TxDecision_Encode_def for_upto_def seq_opt_Cons_Some split: if_splits)
  have "make_array wr (length (td_Sig a)) RCSign_zero DataToSign x (s @ r) = DOk (td_Sig a) r" for wr x
    by (rule sign_array_enc [OF sigs s]) (use len e in auto)
  then show ?thesis
    using len n by (auto simp: TxDecision_Decode_def fieldS_def field_def wrapD_def whenD_def e
        TxDecision_zero_def TxDecision_view_def)
qed

interpretation decision_codec: codec TxDecision_wf TxDecision_Encode TxDecision_Decode TxDecision_view
    TxDecision_zero
  by unfold_locales (simp_all add: TxDecision_Encode_wf TxDecision_Decode_enc del: length_append)

lemma TxDecSet_Encode_wf: "TxDecSet_wf a \<Longrightarrow> \<exists>e. TxDecSet_Encode a = Some e"
  using SignToData_wf [of "tds_Sig a"] decision_codec.enc_list_wf [of "tds_MemD a"]
  by (auto simp: TxDecSet_wf_def TxDecSet_Encode_def for_upto_unat)

lemma TxDecSet_Decode_enc:
  assumes wf: "TxDecSet_wf a" and enc: "TxDecSet_Encode a = Some e" and len: "length (e @ r) < 2 ^ 32"
  shows "TxDecSet_Decode TxDecSet_zero (e @ r) =
    (if r = [] then DOk (TxDecSet_view a) []
     else DErr (TxDecSet_view a) r (Msg ''TxDecSet decode failed: With extra bits''))"
proof -
  from wf have mem: "length (tds_MemD a) = unat (tds_MemCnt a)" "list_all TxDecision_wf (tds_MemD a)"
    and cnt: "length (tds_TxArray a) = unat (tds_TxCnt a)" and rs: "RCSign_wf (tds_Sig a)"
    by (auto simp: TxDecSet_wf_def)
  from enc cnt mem obtain m s where s: "SignToData (tds_Sig a) = Some s"
    and m: "seq_opt (map TxDecision_Encode (tds_MemD a)) = Some m"
    and e: "e = le_bytes 4 (tds_ID a) @ le_bytes 4 (tds_Round a) @ le_bytes 4 (tds_Level a)
      @ le_bytes 4 (tds_Sender a) @ be_bytes 32 (tds_HashID a) @ le_bytes 4 (tds_MemCnt a)
      @ le_bytes 4 (tds_TxCnt a) @ le_bytes 4 (tds_ShardIndex a)
      @ m @ concat (map (be_bytes 32) (tds_TxArray a)) @ s"
    by (auto simp: TxDecSet_Encode_def for_upto_unat seq_opt_Cons_Some)
  have "make_array wr (unat (tds_MemCnt a)) TxDecision_zero TxDecision_Decode x
      (m @ concat (map (be_bytes 32) (tds_TxArray a)) @ s @ r)
      = DOk (map TxDecision_view (tds_MemD a)) (concat (map (be_bytes 32) (tds_TxArray a)) @ s @ r)" for wr x
    using decision_codec.make_array_enc [OF mem(2) m] mem(1) len e by simp
  moreover have "make_array wr (unat (tds_TxCnt a)) 0 Decode_hash x (concat (map (be_bytes 32) (tds_TxArray a)) @ s @ r)
      = DOk (tds_TxArray a) (s @ r)" for wr x
    by (rule hash_array_enc [OF cnt]) (use len e in simp)
  moreover have "DataToSign x (s @ r) = DOk (tds_Sig a) r" for x
    by (rule DataToSign_enc [OF rs s]) (use len e in simp)
  ultimately show ?thesis
    using len by (simp add: TxDecSet_Decode_def fieldS_def field_def wrapD_def no_extra_def e
        TxDecSet_zero_def TxDecSet_view_def)
qed

lemma safe_TxList_Decode [safe_intros]: "safe_dec TxList_Decode"
  unfolding TxList_Decode_def by (auto intro!: safe_intros)

section \<open>The bit vector of decisions\<close>

text \<open>The decision vector as the sequence of votes it stands for.\<close>

definition bitvec :: "bytes \<Rightarrow> nat \<Rightarrow> bool" where
  "bitvec d k \<longleftrightarrow> k div 8 < length d \<and> bit (d ! (k div 8)) (k mod 8)"

definition td_rep :: "TxDecision \<Rightarrow> bool list \<Rightarrow> bool" where
  "td_rep a bs \<longleftrightarrow> length bs < 2 ^ 32 \<and> td_TxCnt a = of_nat (length bs)
     \<and> length (td_Decision a) = (length bs + 7) div 8
     \<and> (\<forall>k. bitvec (td_Decision a) k \<longleftrightarrow> k < length bs \<and> bs ! k)"

lemma td_rep_empty: "td_TxCnt a = 0 \<Longrightarrow> td_Decision a = [] \<Longrightarrow> td_rep a []"
  by (simp add: td_rep_def bitvec_def)

lemma bit_push_one: "x \<in> {0, 1 :: byte} \<Longrightarrow> j < 8 \<Longrightarrow> bit (push_bit m x) j \<longleftrightarrow> x = 1 \<and> j = m"
  by (auto simp: bit_simps)

text \<open>Adding a bit above all set bits does not carry.\<close>

lemma add_bit_above:
  assumes "\<forall>j. m \<le> j \<longrightarrow> \<not> bit (w :: byte) j" and "x \<in> {0, 1}"
  shows "w + push_bit m x = w OR push_bit m x"
  by (rule disjunctive_add_eq_or) (use assms in \<open>auto simp: bit_eq_iff bit_simps\<close>)

lemma bitvec_update_last:
  assumes len: "length d = Suc (n div 8)" and above: "\<forall>k \<ge> n. \<not> bitvec d k" and x: "x \<in> {0, 1}"
  shows "bitvec (d[n div 8 := d ! (n div 8) + push_bit (n mod 8) x]) k \<longleftrightarrow> bitvec d k \<or> (k = n \<and> x = 1)"
proof -
  have clear: "\<forall>j. n mod 8 \<le> j \<longrightarrow> \<not> bit (d ! (n div 8)) j"
  proof (intro allI impI notI)
    fix j assume j: "n mod 8 \<le> j" "bit (d ! (n div 8)) j"
    then have "j < 8" by (auto dest: bit_imp_le_length)
    then have "(8 * (n div 8) + j) div 8 = n div 8" "(8 * (n div 8) + j) mod 8 = j" by simp_all
    with j len have "bitvec d (8 * (n div 8) + j)" by (simp add: bitvec_def)
    moreover have "n \<le> 8 * (n div 8) + j"
      using j(1) by (metis add_le_cancel_left mult_div_mod_eq)
    ultimately show False using above by blast
  qed
  have kn: "k = n \<longleftrightarrow> k div 8 = n div 8 \<and> k mod 8 = n mod 8"
    by (metis mult_div_mod_eq)
  show ?thesis
  proof (cases "k div 8 = n div 8")
    case True
    then show ?thesis
      using len x kn bit_push_one [OF x, of "k mod 8" "n mod 8"]
      by (auto simp: bitvec_def add_bit_above [OF clear x] bit_or_iff)
  next
    case False
    then show ?thesis using kn by (auto simp: bitvec_def)
  qed
qed

lemma unat_mod8: "n < 2 ^ 32 \<Longrightarrow> unat ((of_nat n :: u32) mod 8) = n mod 8"
  by (simp add: unat_mod unat_of_nat)

lemma TxDecision_Add_rep:
  assumes rep: "td_rep a bs" and x: "x \<in> {0, 1}" and len: "length bs + 1 < 2 ^ 32"
  shows "\<exists>b. TxDecision_Add a x = Some b \<and> td_rep b (bs @ [x = 1])
    \<and> b = a\<lparr>td_TxCnt := td_TxCnt b, td_Decision := td_Decision b\<rparr>"
proof -
  let ?n = "length bs" and ?d = "td_Decision a"
  let ?dec = "if td_TxCnt a mod 8 = 0 then ?d @ [0] else ?d"
  from rep have cnt: "td_TxCnt a = of_nat ?n" and dl: "length ?d = (?n + 7) div 8"
    and bits: "\<And>k. bitvec ?d k \<longleftrightarrow> k < ?n \<and> bs ! k" by (auto simp: td_rep_def)
  have m: "unat (td_TxCnt a mod 8) = ?n mod 8"
    using len by (simp add: cnt unat_mod8)
  then have m0: "td_TxCnt a mod 8 = 0 \<longleftrightarrow> ?n mod 8 = 0" by (metis unat_eq_zero)
  have dl': "length ?dec = Suc (?n div 8)"
    using dl by (simp add: m0) presburger
  have nth: "bitvec ?dec k \<longleftrightarrow> bitvec ?d k" for k
    by (auto simp: bitvec_def nth_append less_Suc_eq)
  let ?new = "?dec[?n div 8 := ?dec ! (?n div 8) + push_bit (?n mod 8) x]"
  have upd: "bitvec ?new k \<longleftrightarrow> bitvec ?d k \<or> (k = ?n \<and> x = 1)" for k
    using bitvec_update_last [OF dl' _ x] nth bits by auto
  have ne: "?dec \<noteq> []" by (rule ccontr) (use dl' in \<open>simp only: not_not list.size(3)\<close>)
  have tmp: "length ?dec - 1 = ?n div 8" by (simp only: dl' diff_Suc_1)
  have add: "TxDecision_Add a x = Some (a\<lparr>td_TxCnt := td_TxCnt a + 1, td_Decision := ?new\<rparr>)"
    unfolding TxDecision_Add_def Let_def by (simp only: ne tmp m if_False)
  define new where "new = ?new"
  have "length new = Suc (?n div 8)"
    unfolding new_def by (simp only: length_list_update dl')
  then have nl: "length new = (length (bs @ [x = 1]) + 7) div 8" by simp
  have nb: "bitvec new k \<longleftrightarrow> k < length (bs @ [x = 1]) \<and> (bs @ [x = 1]) ! k" for k
    unfolding new_def upd bits by (auto simp: nth_append less_Suc_eq)
  have "td_rep (a\<lparr>td_TxCnt := td_TxCnt a + 1, td_Decision := new\<rparr>) (bs @ [x = 1])"
    using len by (simp add: td_rep_def cnt nl nb)
  with add show ?thesis by (auto simp: new_def [symmetric])
qed

text \<open>The loop of \<open>ProcessTL\<close> and \<open>UpdateTXCache\<close> that records one decision after the other.\<close>

fun td_adds :: "TxDecision \<Rightarrow> byte list \<Rightarrow> TxDecision option" where
  "td_adds a [] = Some a"
| "td_adds a (x # xs) = (case TxDecision_Add a x of None \<Rightarrow> None | Some b \<Rightarrow> td_adds b xs)"

lemma td_adds_rep:
  "td_rep a bs \<Longrightarrow> set xs \<subseteq> {0, 1} \<Longrightarrow> length bs + length xs < 2 ^ 32 \<Longrightarrow>
   \<exists>b. td_adds a xs = Some b \<and> td_rep b (bs @ map (\<lambda>x. x = 1) xs)
     \<and> b = a\<lparr>td_TxCnt := td_TxCnt b, td_Decision := td_Decision b\<rparr>"
proof (induction xs arbitrary: a bs)
  case Nil
  then show ?case by simp
next
  case (Cons x xs)
  from Cons.prems have x: "x \<in> {0, 1}" and l: "length bs + 1 < 2 ^ 32" by auto
  obtain b where b: "TxDecision_Add a x = Some b" "td_rep b (bs @ [x = 1])"
    "b = a\<lparr>td_TxCnt := td_TxCnt b, td_Decision := td_Decision b\<rparr>"
    using TxDecision_Add_rep [OF Cons.prems(1) x l] by blast
  obtain c where c: "td_adds b xs = Some c" "td_rep c ((bs @ [x = 1]) @ map (\<lambda>x. x = 1) xs)"
    "c = b\<lparr>td_TxCnt := td_TxCnt c, td_Decision := td_Decision c\<rparr>"
    using Cons.IH [OF b(2)] Cons.prems by auto
  have "c = a\<lparr>td_TxCnt := td_TxCnt c, td_Decision := td_Decision c\<rparr>"
    using b(3) c(3) by (metis (no_types, lifting) TxDecision.surjective TxDecision.update_convs(3,4))
  with b(1) c show ?case by auto
qed

lemma and_one_bit: "(w :: byte) AND 1 = of_bool (bit w 0)"
  by (rule bit_word_eqI) (auto simp: bit_simps bit_1_iff)

lemma ResultMiner_rep:
  assumes "unat j < length (tds_MemD a)" and "td_rep (tds_MemD a ! unat j) bs" and "unat i < length bs"
  shows "ResultMiner a i j = Some (of_bool (bs ! unat i))"
proof -
  let ?d = "td_Decision (tds_MemD a ! unat j)"
  from assms(2,3) have l: "unat i div 8 < length ?d" and b: "bitvec ?d (unat i) \<longleftrightarrow> bs ! unat i"
    by (auto simp: td_rep_def)
  then show ?thesis
    using assms(1) by (simp add: ResultMiner_def idx_def unat_div unat_mod and_one_bit bit_simps bitvec_def)
qed

section \<open>Counting votes\<close>

lemma those_map_Some: "those (map (\<lambda>i. Some (f i)) xs) = Some (map f xs)"
  by (induction xs) auto

lemma those_map_cong: "(\<And>i. i \<in> set xs \<Longrightarrow> f i = Some (g i)) \<Longrightarrow> those (map f xs) = Some (map g xs)"
  by (metis (no_types, lifting) map_cong those_map_Some)

lemma sum_list_of_bool: "sum_list (map (\<lambda>x. of_bool (p x)) xs) = (of_nat (length (filter p xs)) :: u32)"
  by (induction xs) auto

lemma ucast_of_bool: "ucast (of_bool b :: byte) = (of_bool b :: u32)"
  by (cases b) simp_all

lemma TxDecSet_votes_rep:
  assumes cnt: "length (tds_MemD a) = unat (tds_MemCnt a)" and rep: "list_all2 td_rep (tds_MemD a) bss"
    and i: "\<forall>bs \<in> set bss. unat i < length bs"
  shows "TxDecSet_votes a i = Some (of_nat (length (filter (\<lambda>bs. bs ! unat i) bss)))"
proof -
  have l: "length bss = length (tds_MemD a)" using rep by (simp add: list_all2_lengthD)
  have u: "unat (of_nat j :: u32) = j" if "j < length bss" for j
  proof -
    have "j < 2 ^ 32" using that l cnt unsigned_less [of "tds_MemCnt a", where ?'a = nat] by simp
    then show ?thesis by (rule unat_of_nat_u32)
  qed
  have "those (map (\<lambda>j. ResultMiner a i (of_nat j)) [0..<length bss])
      = Some (map (\<lambda>j. of_bool ((bss ! j) ! unat i)) [0..<length bss])"
  proof (rule those_map_cong)
    fix j assume "j \<in> set [0..<length bss]"
    then have j: "j < length bss" by simp
    have "td_rep (tds_MemD a ! j) (bss ! j)" using rep j l by (simp add: list_all2_nthD)
    moreover have "unat i < length (bss ! j)" using i j by simp
    ultimately show "ResultMiner a i (of_nat j) = Some (of_bool ((bss ! j) ! unat i))"
      using ResultMiner_rep [of "of_nat j" a "bss ! j" i] j l u by simp
  qed
  then have "TxDecSet_votes a i = Some (sum_list (map (\<lambda>j. of_bool ((bss ! j) ! unat i)) [0..<length bss]))"
    using cnt l by (simp add: TxDecSet_votes_def o_def ucast_of_bool)
  also have "map (\<lambda>j. of_bool ((bss ! j) ! unat i)) [0..<length bss]
      = (map (\<lambda>bs. of_bool (bs ! unat i)) bss :: u32 list)"
    by (rule nth_equalityI) simp_all
  finally show ?thesis by (simp add: sum_list_of_bool)
qed

section \<open>When the decoder of a decision panics\<close>

lemma DecodeByte_panic_iff:
  assumes "length d < 2 ^ 32"
  shows "DecodeByte old d = DPanic \<longleftrightarrow> length d < 4 \<or> 2 ^ 32 - 4 \<le> unat (le_word (take 4 d) :: u32)"
proof -
  let ?w = "le_word (take 4 d) :: u32"
  have s: "unat (4 + ?w) = (if unat ?w < 2 ^ 32 - 4 then 4 + unat ?w else 4 + unat ?w - 2 ^ 32)"
    using unsigned_less [of ?w, where ?'a = nat] by (simp add: unat_word_ariths mod_if)
  have l: "unat (of_nat (length d) :: u32) = length d" using assms by (rule unat_of_nat_u32)
  show ?thesis
    using unsigned_less [of ?w, where ?'a = nat]
    by (auto simp: DecodeByte_def Let_def word_less_nat_alt s l)
qed

lemma steps_append: "steps (xs @ ys) s b = (case steps xs s b of
    DOk s' b' \<Rightarrow> steps ys s' b' | DErr s' b' e \<Rightarrow> DErr s' b' e | DPanic \<Rightarrow> DPanic)"
  by (induction xs arbitrary: s b) (auto split: dres.splits)

lemma Decode_u32_small:
  "length d < 2 ^ 32 \<Longrightarrow> Decode_u32 old d =
     (if length d < 4 then DErr old d (Msg ''Basic.DecodeInt length not enough'')
      else DOk (le_word (take 4 d)) (drop 4 d))"
  by (simp add: Decode_u32_def DecodeInt_small)

lemma safe_tail:
  "safe_dec (steps
    [field td_Single td_Single_update ''TxDecision Single decode failed'' Decode_u32,
     whenD (\<lambda>a. td_Single a = 1)
       (fieldS td_Sig td_Sig_update (\<lambda>_. make_array (\<lambda>_. Wrap ''TxDecision Sig decode failed'') 1
          RCSign_zero DataToSign)),
     whenD (\<lambda>a. td_Single a \<noteq> 1)
       (steps [field td_HashID td_HashID_update ''TxDecsion HashID decode failed'' Decode_hash,
               fieldS td_Sig td_Sig_update (\<lambda>_. make_array (\<lambda>_. Wrap ''TxDecision Sig decode failed'')
                 (unat ShardCnt) RCSign_zero DataToSign)])])"
  by (auto intro!: safe_intros)

lemma TxDecision_Decode_panic_iff':
  assumes len: "length buf < 2 ^ 32"
  shows "TxDecision_Decode old buf = DPanic \<longleftrightarrow>
    12 \<le> length buf \<and> (length buf < 16 \<or> 2 ^ 32 - 4 \<le> unat (le_word (take 4 (drop 12 buf)) :: u32))"
proof -
  have "DecodeByte x (drop 12 buf) = DPanic \<longleftrightarrow>
      length (drop 12 buf) < 4 \<or> 2 ^ 32 - 4 \<le> unat (le_word (take 4 (drop 12 buf)) :: u32)" for x
    by (rule DecodeByte_panic_iff) (use len in simp)
  moreover have "length (drop 12 buf) < 4 \<longleftrightarrow> length buf < 16" if "12 \<le> length buf"
    using that by auto
  ultimately show ?thesis
    using len safe_tail
    by (auto simp: TxDecision_Decode_def safe_dec_def fieldS_def [of td_ID] field_def [of td_ID]
        fieldS_def [of td_TxCnt] field_def [of td_TxCnt] fieldS_def [of td_Target] field_def [of td_Target]
        fieldS_def [of td_Decision] field_def [of td_Decision] wrapD_def [of _ Decode_u32]
        wrapD_def [of _ DecodeByte] Decode_u32_small simp del: steps.simps(1) split: dres.splits)
qed

section \<open>Signing and verifying\<close>

lemma TxList_data_cnt:
  "TxList_cnt a \<Longrightarrow> TxList_data a = Some (le_bytes 4 (tl_Round a) @ concat (map (be_bytes 32) (tl_TxArray a)))"
  by (simp add: TxList_cnt_def TxList_data_def for_upto_unat)

lemma length_concat_hashes: "length (concat (map (be_bytes 32) (hs :: hash list))) = 32 * length hs"
  by (induction hs) auto

lemma concat_hashes_inj:
  "concat (map (be_bytes 32) hs) = concat (map (be_bytes 32) (gs :: hash list)) \<longleftrightarrow> hs = gs"
proof
  assume c: "concat (map (be_bytes 32) hs) = concat (map (be_bytes 32) gs)"
  then have "length hs = length gs"
    using length_concat_hashes [of hs] length_concat_hashes [of gs] by simp
  with c have "map (be_bytes 32) hs = map (be_bytes 32) gs" by (simp add: concat_map_eq [where n = 32])
  moreover have "inj (be_bytes 32 :: hash \<Rightarrow> bytes)" by (simp add: inj_def)
  ultimately show "hs = gs" by (simp add: inj_map_eq_map)
qed simp

lemma TxList_Sign_fields:
  "TxList_Sign sg rnd a prk = Some b \<Longrightarrow> TxList_data b = TxList_data a \<and> TxList_Hash b = Some (tl_HashID b)
     \<and> tl_Sig b = RCSign_Sign sg rnd (be_bytes 32 (tl_HashID b)) prk
     \<and> b = a\<lparr>tl_HashID := tl_HashID b, tl_Sig := tl_Sig b\<rparr>"
  by (auto simp: TxList_Sign_def TxList_Hash_def TxList_data_def)

lemma foldl_TxDecSet_Add:
  "foldl TxDecSet_Add a ds = a\<lparr>tds_MemCnt := tds_MemCnt a + of_nat (length ds), tds_MemD := tds_MemD a @ ds\<rparr>"
  by (induction ds arbitrary: a) (simp_all add: TxDecSet_Add_def add.commute add.left_commute)

lemma for_upto_singletons: "for_upto (\<lambda>h. Some [h]) n xs = (if n \<le> length xs then Some (take n xs) else None)"
  by (simp add: for_upto_def)

lemma TxDecSet_hash_data_concat:
  "TxDecSet_hash_data a = Some x \<Longrightarrow> \<exists>hs. x = concat (map (be_bytes 32) (hs :: hash list))"
  by (auto simp: TxDecSet_hash_data_def for_upto_def split: if_splits)

section \<open>Properties\<close>

text \<open>A transaction list survives the wire but for the shortened hashes, which are not
  sent; a packet with bytes behind the list is refused.\<close>

theorem TxList_roundtrip:
  assumes "TxList_wf a"
  shows "\<exists>e. TxList_Encode a = Some e \<and>
    (\<forall>r. length (e @ r) < 2 ^ 32 \<longrightarrow> TxList_Decode TxList_zero (e @ r) =
      (if r = [] then DOk (TxList_view a) []
       else DErr (TxList_view a) r (Msg ''TxList decode failed: With extra bits'')))"
  using TxList_Encode_wf [OF assms] TxList_Decode_enc [OF assms] by blast

definition sample_sig :: RCSign where
  "sample_sig = \<lparr>sig_R = Some 300, sig_S = Some 5\<rparr>"

definition sample_tl :: TxList where
  "sample_tl = TxList_zero\<lparr>tl_ID := 3, tl_Round := 2, tl_TxCnt := 2, tl_TxArray := [5, 6], tl_Sig := sample_sig\<rparr>"

definition sample_td :: TxDecision where
  "sample_td = TxDecision_zero\<lparr>td_ID := 4, td_TxCnt := 2, td_Decision := [3], td_Sig := [sample_sig]\<rparr>"

definition sample_tds :: TxDecSet where
  "sample_tds = TxDecSet_zero\<lparr>tds_ID := 3, tds_MemCnt := 1, tds_MemD := [sample_td], tds_TxCnt := 1,
     tds_TxArray := [5], tds_Sig := sample_sig\<rparr>"

lemma sample_msgs_wf: "TxList_wf sample_tl" "TxDecision_wf sample_td" "TxDecSet_wf sample_tds"
  by (simp_all add: TxList_wf_def TxList_cnt_def sample_tl_def TxList_zero_def sample_sig_def RCSign_wf_def
      TxDecision_wf_def sample_td_def TxDecision_zero_def ShardCnt_def TxDecSet_wf_def sample_tds_def
      TxDecSet_zero_def)

theorem TxList_roundtrip_witness:
  "TxList_wf sample_tl \<and> (\<exists>e. TxList_Encode sample_tl = Some e)"
  using sample_msgs_wf(1) TxList_roundtrip [OF sample_msgs_wf(1)] by blast

text \<open>A decision set survives the wire with all its decisions, but for the shortened
  hashes and the list hash of cross-shard decisions, which are not sent; a packet with bytes
  behind the set is refused.\<close>

theorem TxDecSet_roundtrip:
  assumes "TxDecSet_wf a"
  shows "\<exists>e. TxDecSet_Encode a = Some e \<and>
    (\<forall>r. length (e @ r) < 2 ^ 32 \<longrightarrow> TxDecSet_Decode TxDecSet_zero (e @ r) =
      (if r = [] then DOk (TxDecSet_view a) []
       else DErr (TxDecSet_view a) r (Msg ''TxDecSet decode failed: With extra bits'')))"
  using TxDecSet_Encode_wf [OF assms] TxDecSet_Decode_enc [OF assms] by blast

theorem TxDecSet_roundtrip_witness:
  "TxDecSet_wf sample_tds \<and> (\<exists>e. TxDecSet_Encode sample_tds = Some e)"
  using sample_msgs_wf(3) TxDecSet_roundtrip [OF sample_msgs_wf(3)] by blast

text \<open>C8: The decoder of a decision panics exactly on the packets that end inside the length
  of the decision vector, or whose length field is within four of the largest \<open>uint32\<close>: one
  malformed packet from any peer stops the node.\<close>

theorem TxDecision_Decode_panic_iff:
  assumes "length buf < 2 ^ 32"
  shows "TxDecision_Decode old buf = DPanic \<longleftrightarrow>
    12 \<le> length buf \<and> (length buf < 16 \<or> 2 ^ 32 - 4 \<le> unat (le_word (take 4 (drop 12 buf)) :: u32))"
  using assms by (rule TxDecision_Decode_panic_iff')

theorem TxDecision_Decode_panic_iff_witness:
  "length (replicate 12 (0 :: byte)) < 2 ^ 32 \<and> TxDecision_Decode TxDecision_zero (replicate 12 0) = DPanic"
proof -
  have l: "length (replicate 12 (0 :: byte)) < 2 ^ 32" by simp
  show ?thesis using TxDecision_Decode_panic_iff [OF l, of TxDecision_zero] by simp
qed

text \<open>C2: The decision vector a miner fills with \<open>Add\<close>, one vote of 0 or 1 after the other,
  has one bit per vote, and the leader reads exactly these votes back with \<open>ResultMiner\<close>
  from the set it adds the decision to.\<close>

theorem decision_vector:
  assumes "td_TxCnt a = 0" and "td_Decision a = []" and "set xs \<subseteq> {0, 1}" and "length xs < 2 ^ 32"
    and "length (tds_MemD s) = unat (tds_MemCnt s)"
  shows "\<exists>b. td_adds a xs = Some b \<and> unat (td_TxCnt b) = length xs
    \<and> length (td_Decision b) = (length xs + 7) div 8
    \<and> (\<forall>i < length xs. ResultMiner (TxDecSet_Add s b) (of_nat i) (tds_MemCnt s) = Some (xs ! i))"
proof -
  obtain b where b: "td_adds a xs = Some b" "td_rep b (map (\<lambda>x. x = 1) xs)"
    using td_adds_rep [OF td_rep_empty [OF assms(1,2)], of xs] assms(3,4) by auto
  have mem: "unat (tds_MemCnt s) < length (tds_MemD (TxDecSet_Add s b))"
    "tds_MemD (TxDecSet_Add s b) ! unat (tds_MemCnt s) = b"
    using assms(5) by (simp_all add: TxDecSet_Add_def nth_append)
  have "ResultMiner (TxDecSet_Add s b) (of_nat i) (tds_MemCnt s) = Some (xs ! i)" if i: "i < length xs" for i
  proof -
    have u: "unat (of_nat i :: u32) = i" using i assms(4) by (simp add: unat_of_nat_u32)
    have "xs ! i \<in> {0, 1}" using assms(3) i by (meson nth_mem subsetD)
    then show ?thesis
      using ResultMiner_rep [OF mem(1), of "map (\<lambda>x. x = 1) xs" "of_nat i"] b(2) mem(2) u i by auto
  qed
  moreover have "unat (td_TxCnt b) = length xs"
    using b(2) assms(4) by (simp add: td_rep_def unat_of_nat_u32)
  moreover have "length (td_Decision b) = (length xs + 7) div 8"
    using b(2) by (simp add: td_rep_def)
  ultimately show ?thesis using b(1) by blast
qed

theorem decision_vector_witness:
  "\<exists>b. td_adds TxDecision_zero [1, 0, 1, 1, 0, 0, 0, 1, 1] = Some b
    \<and> ResultMiner (TxDecSet_Add TxDecSet_zero b) (of_nat 8) 0 = Some 1"
proof -
  have "\<exists>b. td_adds TxDecision_zero [1, 0, 1, 1, 0, 0, 0, 1, 1] = Some b
    \<and> unat (td_TxCnt b) = length [1, 0, 1, 1, 0, 0, 0, 1, 1 :: byte]
    \<and> length (td_Decision b) = (length [1, 0, 1, 1, 0, 0, 0, 1, 1 :: byte] + 7) div 8
    \<and> (\<forall>i < length [1, 0, 1, 1, 0, 0, 0, 1, 1 :: byte].
         ResultMiner (TxDecSet_Add TxDecSet_zero b) (of_nat i) (tds_MemCnt TxDecSet_zero)
           = Some ([1, 0, 1, 1, 0, 0, 0, 1, 1] ! i))"
    by (rule decision_vector) (simp_all add: TxDecision_zero_def TxDecSet_zero_def)
  then obtain b where "td_adds TxDecision_zero [1, 0, 1, 1, 0, 0, 0, 1, 1] = Some b"
    and "\<forall>i < 9. ResultMiner (TxDecSet_Add TxDecSet_zero b) (of_nat i) 0 = Some ([1, 0, 1, 1, 0, 0, 0, 1, 1] ! i)"
    by (auto simp: TxDecSet_zero_def)
  moreover from this have "ResultMiner (TxDecSet_Add TxDecSet_zero b) (of_nat 8) 0 = Some 1"
    by (drule_tac spec [of _ 8]) simp
  ultimately show ?thesis by blast
qed

text \<open>The number of votes a set records for a transaction is the number of members whose
  vote for it is 1. The result the set reports is \<open>true\<close> whatever that number is, also when no
  member voted for the transaction.\<close>

theorem TxDecSet_Result_ignores_votes:
  assumes "length (tds_MemD a) = unat (tds_MemCnt a)" and "list_all2 td_rep (tds_MemD a) bss"
    and "\<forall>bs \<in> set bss. unat i < length bs"
  shows "TxDecSet_votes a i = Some (of_nat (length (filter (\<lambda>bs. bs ! unat i) bss)))
    \<and> TxDecSet_Result a i = Some True"
  using TxDecSet_votes_rep [OF assms] by (simp add: TxDecSet_Result_def)

theorem TxDecSet_Result_ignores_votes_witness:
  "TxDecSet_votes (TxDecSet_zero\<lparr>tds_MemCnt := 1, tds_MemD := [TxDecision_zero\<lparr>td_TxCnt := 1, td_Decision := [0]\<rparr>]\<rparr>) 0
     = Some 0
   \<and> TxDecSet_Result (TxDecSet_zero\<lparr>tds_MemCnt := 1, tds_MemD := [TxDecision_zero\<lparr>td_TxCnt := 1, td_Decision := [0]\<rparr>]\<rparr>) 0
     = Some True"
proof -
  let ?d = "TxDecision_zero\<lparr>td_TxCnt := 1, td_Decision := [0]\<rparr>"
  let ?a = "TxDecSet_zero\<lparr>tds_MemCnt := 1, tds_MemD := [?d]\<rparr>"
  have "td_rep ?d [False]" by (simp add: td_rep_def bitvec_def cong: conj_cong)
  then have h: "list_all2 td_rep (tds_MemD ?a) [[False]]" by simp
  show ?thesis using TxDecSet_Result_ignores_votes [OF _ h, of 0] by simp
qed

text \<open>C7: A list the leader signs is accepted under the leader's key, and stays encodable; a
  decision a miner signs in one of its signature slots is accepted in that slot.\<close>

theorem sign_verify:
  assumes "ecdsa_ok sg vf" and "TxList_cnt l" and "unat x < length (td_Sig d)"
  shows "(\<exists>l'. TxList_Sign sg rnd l prk = Some l' \<and> TxList_Verify vf l' (sk_Puk prk) = Some True \<and> TxList_wf l')
    \<and> (\<exists>d'. TxDecision_Sign sg rnd d prk x = Some d' \<and> TxDecision_Verify vf d' (sk_Puk prk) x = Some True)"
proof
  from assms(2) obtain l' where l': "TxList_Sign sg rnd l prk = Some l'"
    by (auto simp: TxList_Sign_def TxList_Hash_def TxList_data_cnt)
  note f = TxList_Sign_fields [OF l']
  have "TxList_wf l'"
    using f assms(1,2) RCSign_Sign_wf by (auto simp: TxList_wf_def TxList_cnt_def)
      (metis TxList.select_convs(5,6) TxList.surjective TxList.update_convs(2,9))+
  moreover have "TxList_Verify vf l' (sk_Puk prk) = Some True"
    using f assms(1) by (simp add: TxList_Verify_def RCSign_Verify_Sign)
  ultimately show "\<exists>l'. TxList_Sign sg rnd l prk = Some l' \<and> TxList_Verify vf l' (sk_Puk prk) = Some True \<and> TxList_wf l'"
    using l' by blast
next
  show "\<exists>d'. TxDecision_Sign sg rnd d prk x = Some d' \<and> TxDecision_Verify vf d' (sk_Puk prk) x = Some True"
    using assms(1,3) by (simp add: TxDecision_Sign_def TxDecision_Verify_def Let_def idx_def
        TxDecision_data_def RCSign_Verify_Sign)
qed

text \<open>A signer and a verifier that meet the contract of ECDSA.\<close>

definition toy_sign :: signer where "toy_sign rnd sk m = (int (length m), \<bar>sk_D sk\<bar>)"

definition toy_verify :: verifier where "toy_verify pk m r s = (r = int (length m))"

lemma toy_ecdsa: "ecdsa_ok toy_sign toy_verify"
  by (auto simp: ecdsa_ok_def toy_sign_def toy_verify_def)

theorem sign_verify_witness:
  "\<exists>l'. TxList_Sign toy_sign 0 sample_tl \<lparr>sk_Puk = \<lparr>pk_X = None, pk_Y = None\<rparr>, sk_D = 1\<rparr> = Some l'"
proof -
  have c: "TxList_cnt sample_tl" using sample_msgs_wf(1) by (simp add: TxList_wf_def)
  have x: "unat (0 :: u32) < length (td_Sig sample_td)" by (simp add: sample_td_def)
  show ?thesis using sign_verify [OF toy_ecdsa c x] by blast
qed

text \<open>C6: The hash in a verified list binds its round and the hashes of its transactions: two
  lists that verify under any keys with the same hash propose the same transactions in the
  same round, or the two messages that were hashed are a SHA-256 collision.\<close>

theorem TxList_Verify_binding:
  assumes "TxList_cnt a" and "TxList_cnt b" and "tl_HashID a = tl_HashID b"
    and "TxList_Verify vf a pa = Some True" and "TxList_Verify vf b pb = Some True"
  shows "tl_Round a = tl_Round b \<and> tl_TxArray a = tl_TxArray b
    \<or> (\<exists>x y. TxList_data a = Some x \<and> TxList_data b = Some y \<and> collision x y)"
proof -
  let ?m = "\<lambda>l. le_bytes 4 (tl_Round l) @ concat (map (be_bytes 32) (tl_TxArray l))"
  have "Sum256 (?m a) = Sum256 (?m b)"
    using assms by (auto simp: TxList_Verify_def TxList_Hash_def TxList_data_cnt split: if_splits)
  then have "?m a = ?m b \<or> collision (?m a) (?m b)" by (rule Sum256_eqD)
  then show ?thesis
    using assms(1,2) by (auto simp: TxList_data_cnt concat_hashes_inj append_eq_append_conv)
qed

theorem TxList_Verify_binding_witness:
  "\<exists>l'. TxList_Sign toy_sign 0 sample_tl \<lparr>sk_Puk = \<lparr>pk_X = None, pk_Y = None\<rparr>, sk_D = 1\<rparr> = Some l'
    \<and> TxList_Verify toy_verify l' \<lparr>pk_X = None, pk_Y = None\<rparr> = Some True
    \<and> (tl_Round l' = tl_Round l' \<and> tl_TxArray l' = tl_TxArray l'
        \<or> (\<exists>x y. TxList_data l' = Some x \<and> TxList_data l' = Some y \<and> collision x y))"
proof -
  let ?sk = "\<lparr>sk_Puk = \<lparr>pk_X = None, pk_Y = None\<rparr>, sk_D = 1\<rparr>"
  have c: "TxList_cnt sample_tl" using sample_msgs_wf(1) by (simp add: TxList_wf_def)
  obtain l' where l': "TxList_Sign toy_sign 0 sample_tl ?sk = Some l'"
    using c by (auto simp: TxList_Sign_def TxList_Hash_def TxList_data_cnt)
  then have f: "TxList_cnt l'" using c by (auto simp: TxList_Sign_def TxList_cnt_def)
  have v: "TxList_Verify toy_verify l' \<lparr>pk_X = None, pk_Y = None\<rparr> = Some True"
    using TxList_Sign_fields [OF l'] RCSign_Verify_Sign [OF toy_ecdsa, of 0 _ ?sk]
    by (simp add: TxList_Verify_def)
  show ?thesis using l' v TxList_Verify_binding [OF f f refl v v] by blast
qed

text \<open>C10: A decision set the leader builds from its own signed list is rejected by
  \<open>Verify\<close>, whatever signature it carries: the hash of the list covers the round, the hash
  \<open>Verify\<close> recomputes does not. (The set is accepted only if the two messages collide.)\<close>

theorem TxDecSet_Verify_rejects_honest:
  assumes "TxList_Sign sg rnd l prk = Some l'" and "TxDecSet_Set d l' sh y = Some s"
    and "TxDecSet_Sign sg rnd' (foldl TxDecSet_Add s ds) prk = Some t"
  shows "\<exists>x m. TxDecSet_hash_data t = Some x \<and> TxList_data l = Some m \<and>
    (TxDecSet_Verify vf t pk = Some False \<or> collision x m)"
proof -
  note f = TxList_Sign_fields [OF assms(1)]
  then obtain m where m': "TxList_data l' = Some m" and h: "tl_HashID l' = Sum256 m"
    by (metis TxList_Hash_def map_option_eq_Some)
  with f have m: "TxList_data l = Some m" by simp
  have t: "tds_HashID t = tl_HashID l'" "TxDecSet_hash_data t = TxDecSet_hash_data s"
    using assms(2,3) by (auto simp: TxDecSet_Sign_def TxDecSet_Set_def foldl_TxDecSet_Add
        TxDecSet_hash_data_def Let_def split: if_splits)
  obtain x where x: "TxDecSet_hash_data s = Some x"
    using assms(2) by (auto simp: TxDecSet_Set_def TxDecSet_hash_data_def Let_def for_upto_def
        for_upto_singletons split: if_splits)
  then obtain hs where hs: "x = concat (map (be_bytes 32) (hs :: hash list))"
    using TxDecSet_hash_data_concat by blast
  obtain gs where gs: "m = le_bytes 4 (tl_Round l) @ concat (map (be_bytes 32) (gs :: hash list))"
    using m by (auto simp: TxList_data_def for_upto_def split: if_splits)
  have "length x = 32 * length hs" "length m = 4 + 32 * length gs"
    by (simp_all only: hs gs length_append length_concat_hashes length_le_bytes)
  then have "length x \<noteq> length m" by presburger
  then have "x \<noteq> m" by blast
  then have "TxDecSet_Verify vf t pk = Some False \<or> collision x m"
    using t x h by (auto simp: TxDecSet_Verify_def collision_def)
  with t x m show ?thesis by auto
qed

theorem TxDecSet_Verify_rejects_honest_witness:
  "\<exists>l' s t x m. TxList_Sign toy_sign 0 sample_tl \<lparr>sk_Puk = \<lparr>pk_X = None, pk_Y = None\<rparr>, sk_D = 1\<rparr> = Some l'
    \<and> TxDecSet_Set TxDecSet_zero l' 0 0 = Some s
    \<and> TxDecSet_Sign toy_sign 0 (foldl TxDecSet_Add s [sample_td])
        \<lparr>sk_Puk = \<lparr>pk_X = None, pk_Y = None\<rparr>, sk_D = 1\<rparr> = Some t
    \<and> TxDecSet_hash_data t = Some x \<and> TxList_data sample_tl = Some m
    \<and> (TxDecSet_Verify toy_verify t \<lparr>pk_X = None, pk_Y = None\<rparr> = Some False \<or> collision x m)"
proof -
  let ?sk = "\<lparr>sk_Puk = \<lparr>pk_X = None, pk_Y = None\<rparr>, sk_D = 1\<rparr>"
  have c: "TxList_cnt sample_tl" using sample_msgs_wf(1) by (simp add: TxList_wf_def)
  obtain l' where l': "TxList_Sign toy_sign 0 sample_tl ?sk = Some l'"
    using c by (auto simp: TxList_Sign_def TxList_Hash_def TxList_data_cnt)
  then have c': "length (tl_TxArray l') = unat (tl_TxCnt l')"
    using c by (auto simp: TxList_Sign_def TxList_cnt_def)
  obtain s where s: "TxDecSet_Set TxDecSet_zero l' 0 0 = Some s"
    using c' by (auto simp: TxDecSet_Set_def for_upto_unat)
  have s': "tds_TxCnt s = tl_TxCnt l'" "tds_TxArray s = tl_TxArray l'" "tds_MemCnt s = 0" "tds_MemD s = []"
    using s c' by (auto simp: TxDecSet_Set_def for_upto_unat TxDecSet_zero_def)
  obtain t where t: "TxDecSet_Sign toy_sign 0 (foldl TxDecSet_Add s [sample_td]) ?sk = Some t"
    using s' c' by (auto simp: TxDecSet_Sign_def TxDecSet_data_def TxDecSet_Add_def for_upto_def)
  show ?thesis
    using l' s t TxDecSet_Verify_rejects_honest [OF l' s t] by blast
qed

end
