(* ===== verification/Block.thy ===== *)
theory Block
  imports Msgs
begin

text \<open>
  Transaction blocks and their Merkle root (\<open>basic/block.go\<close>). A block is of kind 0 (a
  block of the leader), 1 (a final block of a shard), 2 (a start block) or 3 (a block that was
  voted down). The two genesis blocks are recognised by their hash and travel unsigned.
\<close>

section \<open>Blocks and their hash\<close>

record TxBlock =
  tb_ID :: u32
  tb_Level :: u32
  tb_PrevHash :: hash
  tb_PrevFinalHash :: hash
  tb_ShardID :: u32
  tb_HashID :: hash
  tb_MerkleRoot :: hash
  tb_Kind :: u32
  tb_Timestamp :: i64
  tb_Height :: u32
  tb_TxCnt :: u32
  tb_TxArray :: "Transaction list"
  tb_TxHash :: "hash list"
  tb_TxArrayX :: "shash list"
  tb_Sender :: u32
  tb_Sig :: RCSign

definition TxBlock_zero :: TxBlock where
  "TxBlock_zero = \<lparr>tb_ID = 0, tb_Level = 0, tb_PrevHash = 0, tb_PrevFinalHash = 0, tb_ShardID = 0,
     tb_HashID = 0, tb_MerkleRoot = 0, tb_Kind = 0, tb_Timestamp = 0, tb_Height = 0, tb_TxCnt = 0,
     tb_TxArray = [], tb_TxHash = [], tb_TxArrayX = [], tb_Sender = 0, tb_Sig = RCSign_zero\<rparr>"

definition TxBlock_data :: "TxBlock \<Rightarrow> bytes" where
  "TxBlock_data a = byteSlice (tb_ID a) @ be_bytes 32 (tb_PrevHash a)
     @ (if tb_Kind a = 0 \<or> tb_Kind a = 1 then be_bytes 32 (tb_MerkleRoot a)
        else concat (map (be_bytes 32) (tb_TxHash a)))
     @ append_or_drop (EncodeInt (VI64 (tb_Timestamp a)))"

definition TxBlock_Hash :: "TxBlock \<Rightarrow> hash" where
  "TxBlock_Hash a = DoubleHash256 (TxBlock_data a)"

text \<open>The root of no transactions is the old content of the target.\<close>

function GenMerkTree :: "Transaction list \<Rightarrow> hash \<Rightarrow> hash" where
  "GenMerkTree d out =
     (if d = [] then out
      else if length d = 1 then DoubleHash256 (be_bytes 32 (tx_Hash (hd d)))
      else let l = length d;
               out1 = GenMerkTree (take (l div 2) d) 0;
               out2 = GenMerkTree (drop (l div 2) d) 0
           in DoubleHash256 (be_bytes 32 out1 @ be_bytes 32 out2))"
  by pat_completeness auto
termination
  by (relation "measure (\<lambda>(d, out). length d)") (auto simp: neq_Nil_conv)

declare GenMerkTree.simps [simp del]

definition TxBlock_Verify :: "verifier \<Rightarrow> TxBlock \<Rightarrow> PublicKey \<Rightarrow> (bool \<times> error option) option" where
  "TxBlock_Verify vf a puk =
     (if TxBlock_Hash a \<noteq> tb_HashID a then Some (False, Some (Msg ''VerifyTxBlock Invalid parameter''))
      else case RCSign_Verify vf (tb_Sig a) (be_bytes 32 (tb_HashID a)) puk of
        None \<Rightarrow> None
      | Some False \<Rightarrow> Some (False, Some (Msg ''VerifyTxBlock Invalid signature''))
      | Some True \<Rightarrow> Some (True, None))"

section \<open>Genesis blocks\<close>

definition str_bytes :: "string \<Rightarrow> bytes" where
  "str_bytes s = map of_char s"

text \<open>\<open>strconv.Itoa\<close>\<close>

fun itoa :: "nat \<Rightarrow> bytes" where
  "itoa n = (if n < 10 then [48 + of_nat n] else itoa (n div 10) @ [48 + of_nat (n mod 10)])"

declare itoa.simps [simp del]

definition GenesisTxBlock :: bytes where
  "GenesisTxBlock = str_bytes ''First TxBlock''"

definition genesis_hash :: hash where
  "genesis_hash = Sum256 GenesisTxBlock"

definition genesis_final_hash :: "u32 \<Rightarrow> hash" where
  "genesis_final_hash shardID = Sum256 (GenesisTxBlock @ itoa (unat shardID))"

definition NewGensisTxBlock :: TxBlock where
  "NewGensisTxBlock = TxBlock_zero\<lparr>tb_ID := 0, tb_TxCnt := 0, tb_HashID := genesis_hash, tb_Height := 0\<rparr>"

definition NewGensisFinalTxBlock :: "u32 \<Rightarrow> TxBlock" where
  "NewGensisFinalTxBlock shardID = TxBlock_zero\<lparr>tb_ID := 0, tb_TxCnt := 0, tb_ShardID := shardID,
     tb_Kind := 1, tb_HashID := genesis_final_hash shardID, tb_Height := 0\<rparr>"

section \<open>Making blocks\<close>

text \<open>\<open>preFH\<close> is a pointer, dereferenced for final blocks only.\<close>

definition MakeTxBlock ::
  "signer \<Rightarrow> nat \<Rightarrow> i64 \<Rightarrow> TxBlock \<Rightarrow> u32 \<Rightarrow> Transaction list \<Rightarrow> hash \<Rightarrow> PrivateKey \<Rightarrow> u32 \<Rightarrow> u32
     \<Rightarrow> hash option \<Rightarrow> u32 \<Rightarrow> TxBlock option" where
  "MakeTxBlock sg rnd now a ID b preHash prk h kind preFH shardID =
     (let a1 = a\<lparr>tb_ID := ID, tb_Kind := kind, tb_PrevHash := preHash, tb_Timestamp := now,
                 tb_TxCnt := of_nat (length b), tb_Height := h, tb_TxArray := b\<rparr>;
          a2 = a1\<lparr>tb_TxArrayX := map (\<lambda>t. HashCut (tx_Hash t)) (take (unat (tb_TxCnt a1)) b),
                  tb_MerkleRoot := GenMerkTree b (tb_MerkleRoot a1)\<rparr>;
          fin = (\<lambda>a3. let hid = TxBlock_Hash a3 in
                   a3\<lparr>tb_HashID := hid, tb_Sig := RCSign_Sign sg rnd (be_bytes 32 hid) prk\<rparr>)
      in if kind = 1
         then map_option (\<lambda>fh. fin (a2\<lparr>tb_PrevFinalHash := fh, tb_ShardID := shardID\<rparr>)) preFH
         else Some (fin a2))"

definition MakeStartBlock ::
  "signer \<Rightarrow> nat \<Rightarrow> i64 \<Rightarrow> TxBlock \<Rightarrow> u32 \<Rightarrow> hash list \<Rightarrow> hash \<Rightarrow> PrivateKey \<Rightarrow> u32 \<Rightarrow> TxBlock" where
  "MakeStartBlock sg rnd now a ID b preHash prk h =
     (let a1 = a\<lparr>tb_ID := ID, tb_Kind := 2, tb_PrevHash := preHash, tb_Timestamp := now,
                 tb_TxCnt := 0, tb_Height := h, tb_TxHash := b\<rparr>;
          hid = TxBlock_Hash a1
      in a1\<lparr>tb_HashID := hid, tb_Sig := RCSign_Sign sg rnd (be_bytes 32 hid) prk\<rparr>)"

definition Transform :: "TxBlock \<Rightarrow> TxBlock option" where
  "Transform a = map_option (\<lambda>xs. a\<lparr>tb_TxArrayX := xs\<rparr>)
     (for_upto (\<lambda>t. Some [HashCut (tx_Hash t)]) (unat (tb_TxCnt a)) (tb_TxArray a))"

section \<open>The wire format\<close>

text \<open>The two conditions on the genesis hashes are written differently in \<open>Encode\<close> and
  \<open>Decode\<close>: for the kinds 0, 1 and 3 they agree, for start blocks they compare with
  different hashes.\<close>

definition enc_signed :: "TxBlock \<Rightarrow> bool" where
  "enc_signed a = (if tb_Kind a \<noteq> 1 then tb_HashID a \<noteq> genesis_hash
                   else tb_HashID a \<noteq> genesis_final_hash (tb_ShardID a))"

definition dec_signed :: "TxBlock \<Rightarrow> bool" where
  "dec_signed a = (if tb_Kind a = 0 \<or> tb_Kind a = 3 then tb_HashID a \<noteq> genesis_hash
                   else tb_HashID a \<noteq> genesis_final_hash (tb_ShardID a))"

definition TxBlock_Encode :: "TxBlock \<Rightarrow> int \<Rightarrow> bytes option" where
  "TxBlock_Encode a full = seq_opt
    (map Encode [VU32 (tb_ID a), VU32 (tb_Level a), VU32 (tb_Sender a), P32 (tb_PrevHash a),
                 P32 (tb_HashID a), P32 (tb_MerkleRoot a), VI64 (tb_Timestamp a), VU32 (tb_Height a),
                 VU32 (tb_TxCnt a), VU32 (tb_Kind a)]
     @ (if tb_Kind a = 1 then map Encode [P32 (tb_PrevFinalHash a), VU32 (tb_ShardID a)] else [])
     @ (if tb_Kind a = 2 then [for_upto (\<lambda>h. Encode (P32 h)) (unat ShardCnt) (tb_TxHash a)] else [])
     @ (if full = 1 then [for_upto Transaction_Encode (unat (tb_TxCnt a)) (tb_TxArray a)]
        else [for_upto (\<lambda>h. Encode (PShash h)) (unat (tb_TxCnt a)) (tb_TxArrayX a)])
     @ (if enc_signed a then [Encode (PSign (tb_Sig a))] else []))"

definition TxBlock_Decode :: "int \<Rightarrow> TxBlock dec" where
  "TxBlock_Decode full = steps
    [field tb_ID tb_ID_update ''TxBlock ID failed'' Decode_u32,
     field tb_Level tb_Level_update ''TxBlock Level failed'' Decode_u32,
     field tb_Sender tb_Sender_update ''TxBlock Sender failed'' Decode_u32,
     field tb_PrevHash tb_PrevHash_update ''TxBlock PrevHash failed'' Decode_hash,
     field tb_HashID tb_HashID_update ''TxBlock HashID failed'' Decode_hash,
     field tb_MerkleRoot tb_MerkleRoot_update ''TxBlock MerkleRoot failed'' Decode_hash,
     field tb_Timestamp tb_Timestamp_update ''TxBlock Timestamp failed'' Decode_i64,
     field tb_Height tb_Height_update ''TxBlock Height failed'' Decode_u32,
     field tb_TxCnt tb_TxCnt_update ''TxBlock TxCnt failed'' Decode_u32,
     field tb_Kind tb_Kind_update ''TxBlock Kind failed'' Decode_u32,
     whenD (\<lambda>a. tb_Kind a = 1) (steps
       [field tb_PrevFinalHash tb_PrevFinalHash_update ''TxBlock PrevFinalHash failed'' Decode_hash,
        field tb_ShardID tb_ShardID_update ''TxBlock ShardID failed'' Decode_u32]),
     whenD (\<lambda>a. tb_Kind a = 2) (fieldS tb_TxHash tb_TxHash_update (\<lambda>_. make_array
       (\<lambda>_. Wrap ''TxBlock TxHash failed'') (unat ShardCnt) 0 Decode_hash)),
     (if full = 1 then fieldS tb_TxArray tb_TxArray_update (\<lambda>a. make_array
        (WrapAt ''TxBlock decode Tx failed'') (unat (tb_TxCnt a)) Transaction_zero Transaction_Decode)
      else fieldS tb_TxArrayX tb_TxArrayX_update (\<lambda>a. make_array
        (WrapAt ''TxBlock decode Tx failed'') (unat (tb_TxCnt a)) 0 Decode_shash)),
     whenD dec_signed (field tb_Sig tb_Sig_update ''TxBlock Signature failed'' DataToSign)]"

definition TxBlock_Serial :: "TxBlock \<Rightarrow> bytes option" where
  "TxBlock_Serial a = TxBlock_Encode a 1"

text \<open>What the receiver sees: fields that are not sent are zero.\<close>

definition TxBlock_view :: "int \<Rightarrow> TxBlock \<Rightarrow> TxBlock" where
  "TxBlock_view full a = a
     \<lparr>tb_PrevFinalHash := (if tb_Kind a = 1 then tb_PrevFinalHash a else 0),
      tb_ShardID := (if tb_Kind a = 1 then tb_ShardID a else 0),
      tb_TxHash := (if tb_Kind a = 2 then tb_TxHash a else []),
      tb_TxArray := (if full = 1 then tb_TxArray a else []),
      tb_TxArrayX := (if full = 1 then [] else tb_TxArrayX a),
      tb_Sig := (if enc_signed a then tb_Sig a else RCSign_zero)\<rparr>"

definition TxBlock_wf :: "int \<Rightarrow> TxBlock \<Rightarrow> bool" where
  "TxBlock_wf full a \<longleftrightarrow>
     (tb_Kind a = 2 \<longrightarrow> length (tb_TxHash a) = unat ShardCnt)
   \<and> (if full = 1 then length (tb_TxArray a) = unat (tb_TxCnt a) \<and> list_all Transaction_wf (tb_TxArray a)
      else length (tb_TxArrayX a) = unat (tb_TxCnt a))
   \<and> (enc_signed a \<longrightarrow> RCSign_wf (tb_Sig a))
   \<and> (tb_Kind a \<in> {0, 1, 3} \<or> (tb_HashID a \<noteq> genesis_hash \<and> tb_HashID a \<noteq> genesis_final_hash 0))"

lemma TxBlock_Encode_wf: "TxBlock_wf full a \<Longrightarrow> \<exists>e. TxBlock_Encode a full = Some e"
  using SignToData_wf [of "tb_Sig a"] tx_codec.enc_list_wf [of "tb_TxArray a"]
  by (auto simp: TxBlock_wf_def TxBlock_Encode_def for_upto_def for_upto_unat)

lemma shash_array_enc:
  assumes "length hs = unat (n :: u32)" and "length (concat (map (be_bytes 31) (hs :: shash list)) @ r) < 2 ^ 32"
  shows "make_array wr (unat n) 0 Decode_shash old (concat (map (be_bytes 31) hs) @ r) = DOk hs r"
  using shash_codec.make_array_enc [of hs "concat (map (be_bytes 31) hs)" r] assms
  by (simp add: list_all_iff)

lemma tx_array_enc:
  assumes "length xs = unat (n :: u32)" and "list_all Transaction_wf xs"
    and "seq_opt (map Transaction_Encode xs) = Some e" and "length (e @ r) < 2 ^ 32"
  shows "make_array wr (unat n) Transaction_zero Transaction_Decode old (e @ r) = DOk xs r"
  using tx_codec.make_array_enc [OF assms(2,3,4)] assms(1) by simp

text \<open>The pieces of the encoding, in the order they are written.\<close>

definition TxBlock_hdr :: "TxBlock \<Rightarrow> bytes" where
  "TxBlock_hdr a = le_bytes 4 (tb_ID a) @ le_bytes 4 (tb_Level a) @ le_bytes 4 (tb_Sender a)
     @ be_bytes 32 (tb_PrevHash a) @ be_bytes 32 (tb_HashID a) @ be_bytes 32 (tb_MerkleRoot a)
     @ le_bytes 8 (tb_Timestamp a) @ le_bytes 4 (tb_Height a) @ le_bytes 4 (tb_TxCnt a)
     @ le_bytes 4 (tb_Kind a)"

definition TxBlock_fin :: "TxBlock \<Rightarrow> bytes" where
  "TxBlock_fin a = (if tb_Kind a = 1 then be_bytes 32 (tb_PrevFinalHash a) @ le_bytes 4 (tb_ShardID a) else [])
     @ (if tb_Kind a = 2 then concat (map (be_bytes 32) (tb_TxHash a)) else [])"

lemma TxBlock_Encode_parts:
  assumes wf: "TxBlock_wf full a" and enc: "TxBlock_Encode a full = Some e"
  obtains b s where "e = TxBlock_hdr a @ TxBlock_fin a @ b @ s"
    and "full = 1 \<Longrightarrow> seq_opt (map Transaction_Encode (tb_TxArray a)) = Some b"
    and "full \<noteq> 1 \<Longrightarrow> b = concat (map (be_bytes 31) (tb_TxArrayX a))"
    and "if enc_signed a then SignToData (tb_Sig a) = Some s else s = []"
proof -
  have h: "for_upto (\<lambda>h. Encode (P32 h)) (unat ShardCnt) (tb_TxHash a)
      = Some (concat (map (be_bytes 32) (tb_TxHash a)))" if "tb_Kind a = 2"
    using wf that by (simp add: TxBlock_wf_def for_upto_unat)
  have x: "for_upto Transaction_Encode (unat (tb_TxCnt a)) (tb_TxArray a)
      = seq_opt (map Transaction_Encode (tb_TxArray a))" if "full = 1"
    using wf that by (simp add: TxBlock_wf_def for_upto_unat)
  have y: "for_upto (\<lambda>h. Encode (PShash h)) (unat (tb_TxCnt a)) (tb_TxArrayX a)
      = Some (concat (map (be_bytes 31) (tb_TxArrayX a)))" if "full \<noteq> 1"
    using wf that by (simp add: TxBlock_wf_def for_upto_unat)
  show ?thesis
    by (rule that [of "if full = 1 then the (seq_opt (map Transaction_Encode (tb_TxArray a)))
          else concat (map (be_bytes 31) (tb_TxArrayX a))"
        "if enc_signed a then the (SignToData (tb_Sig a)) else []"])
      (use enc h x y in \<open>auto simp: TxBlock_Encode_def TxBlock_hdr_def TxBlock_fin_def seq_opt_Cons_Some
         seq_opt_append_Some split: if_splits\<close>)
qed

lemma TxBlock_Decode_enc:
  assumes wf: "TxBlock_wf full a" and enc: "TxBlock_Encode a full = Some e" and len: "length (e @ r) < 2 ^ 32"
  shows "TxBlock_Decode full TxBlock_zero (e @ r) = DOk (TxBlock_view full a) r"
proof -
  obtain b s where e: "e = TxBlock_hdr a @ TxBlock_fin a @ b @ s"
    and b1: "full = 1 \<Longrightarrow> seq_opt (map Transaction_Encode (tb_TxArray a)) = Some b"
    and b0: "full \<noteq> 1 \<Longrightarrow> b = concat (map (be_bytes 31) (tb_TxArrayX a))"
    and s: "if enc_signed a then SignToData (tb_Sig a) = Some s else s = []"
    using TxBlock_Encode_parts [OF wf enc] by metis
  have fin_len: "length (b @ s @ r) < 2 ^ 32" using len by (simp add: e)
  have txs: "make_array wr (unat (tb_TxCnt a)) Transaction_zero Transaction_Decode x (b @ s @ r)
      = DOk (tb_TxArray a) (s @ r)" if "full = 1" for wr x
    by (rule tx_array_enc) (use wf that b1 fin_len in \<open>simp_all add: TxBlock_wf_def\<close>)
  have xs: "make_array wr (unat (tb_TxCnt a)) 0 Decode_shash x (b @ s @ r)
      = DOk (tb_TxArrayX a) (s @ r)" if "full \<noteq> 1" for wr x
    unfolding b0 [OF that] using wf that b0 fin_len
    by (intro shash_array_enc) (simp_all add: TxBlock_wf_def)
  have hs: "make_array wr (unat ShardCnt) 0 Decode_hash x (concat (map (be_bytes 32) (tb_TxHash a)) @ b @ s @ r)
      = DOk (tb_TxHash a) (b @ s @ r)" if "tb_Kind a = 2" for wr x
    by (rule hash_array_enc) (use wf that len in \<open>simp_all add: TxBlock_wf_def e TxBlock_fin_def\<close>)
  have sg: "DataToSign x (s @ r) = DOk (tb_Sig a) r" if "enc_signed a" for x
    by (rule DataToSign_enc) (use wf s that fin_len in \<open>simp_all add: TxBlock_wf_def\<close>)
  let ?m = "TxBlock_zero\<lparr>tb_ID := tb_ID a, tb_Level := tb_Level a, tb_PrevHash := tb_PrevHash a,
      tb_HashID := tb_HashID a, tb_MerkleRoot := tb_MerkleRoot a, tb_Kind := tb_Kind a,
      tb_Timestamp := tb_Timestamp a, tb_Height := tb_Height a, tb_TxCnt := tb_TxCnt a,
      tb_Sender := tb_Sender a,
      tb_PrevFinalHash := (if tb_Kind a = 1 then tb_PrevFinalHash a else 0),
      tb_ShardID := (if tb_Kind a = 1 then tb_ShardID a else 0),
      tb_TxHash := (if tb_Kind a = 2 then tb_TxHash a else [])\<rparr>"
  have hdr: "TxBlock_Decode full TxBlock_zero (e @ r) = steps
     [(if full = 1 then fieldS tb_TxArray tb_TxArray_update (\<lambda>a. make_array
        (WrapAt ''TxBlock decode Tx failed'') (unat (tb_TxCnt a)) Transaction_zero Transaction_Decode)
      else fieldS tb_TxArrayX tb_TxArrayX_update (\<lambda>a. make_array
        (WrapAt ''TxBlock decode Tx failed'') (unat (tb_TxCnt a)) 0 Decode_shash)),
     whenD dec_signed (field tb_Sig tb_Sig_update ''TxBlock Signature failed'' DataToSign)] ?m (b @ s @ r)"
    using len hs
    by (simp add: TxBlock_Decode_def e TxBlock_hdr_def TxBlock_fin_def fieldS_def [of tb_ID]
        fieldS_def [of tb_Level] fieldS_def [of tb_Sender] fieldS_def [of tb_PrevHash]
        fieldS_def [of tb_HashID] fieldS_def [of tb_MerkleRoot] fieldS_def [of tb_Timestamp]
        fieldS_def [of tb_Height] fieldS_def [of tb_TxCnt] fieldS_def [of tb_Kind]
        fieldS_def [of tb_PrevFinalHash] fieldS_def [of tb_ShardID] fieldS_def [of tb_TxHash]
        field_def [of tb_ID] field_def [of tb_Level] field_def [of tb_Sender] field_def [of tb_PrevHash]
        field_def [of tb_HashID] field_def [of tb_MerkleRoot] field_def [of tb_Timestamp]
        field_def [of tb_Height] field_def [of tb_TxCnt] field_def [of tb_Kind]
        field_def [of tb_PrevFinalHash] field_def [of tb_ShardID]
        wrapD_def [of _ Decode_u32] wrapD_def [of _ Decode_hash] wrapD_def [of _ Decode_i64]
        whenD_def [of "\<lambda>a. tb_Kind a = _"] TxBlock_zero_def)
  define m where "m = ?m"
  have m: "tb_TxCnt m = tb_TxCnt a" by (simp add: m_def)
  have txs': "full = 1 \<Longrightarrow> fieldS tb_TxArray tb_TxArray_update (\<lambda>a. make_array
        (WrapAt ''TxBlock decode Tx failed'') (unat (tb_TxCnt a)) Transaction_zero Transaction_Decode) m (b @ s @ r)
      = DOk (m\<lparr>tb_TxArray := tb_TxArray a\<rparr>) (s @ r)"
    using txs by (simp add: fieldS_def m)
  have xs': "full \<noteq> 1 \<Longrightarrow> fieldS tb_TxArrayX tb_TxArrayX_update (\<lambda>a. make_array
        (WrapAt ''TxBlock decode Tx failed'') (unat (tb_TxCnt a)) 0 Decode_shash) m (b @ s @ r)
      = DOk (m\<lparr>tb_TxArrayX := tb_TxArrayX a\<rparr>) (s @ r)"
    using xs by (simp add: fieldS_def m)
  define n where "n = (if full = 1 then m\<lparr>tb_TxArray := tb_TxArray a\<rparr> else m\<lparr>tb_TxArrayX := tb_TxArrayX a\<rparr>)"
  have ds: "dec_signed n \<longleftrightarrow> enc_signed a"
    using wf by (auto simp: TxBlock_wf_def dec_signed_def enc_signed_def TxBlock_zero_def n_def m_def)
  have view: "TxBlock_view full a = n\<lparr>tb_Sig := (if enc_signed a then tb_Sig a else RCSign_zero)\<rparr>"
    by (cases a) (simp add: TxBlock_view_def TxBlock_zero_def n_def m_def)
  have "tb_Sig n = RCSign_zero" by (simp add: n_def m_def TxBlock_zero_def)
  then have unsigned: "n = n\<lparr>tb_Sig := RCSign_zero\<rparr>" by (cases n) simp
  have "TxBlock_Decode full TxBlock_zero (e @ r)
      = whenD dec_signed (field tb_Sig tb_Sig_update ''TxBlock Signature failed'' DataToSign) n (s @ r)"
    unfolding hdr [folded m_def] by (cases "full = 1") (simp_all add: txs' xs' n_def split: dres.splits)
  also have "\<dots> = DOk (TxBlock_view full a) r"
    using ds sg s unsigned by (simp add: whenD_def field_def fieldS_def wrapD_def view)
  finally show ?thesis .
qed

interpretation block_codec: codec "TxBlock_wf full" "\<lambda>a. TxBlock_Encode a full" "TxBlock_Decode full"
    "TxBlock_view full" TxBlock_zero for full
  by unfold_locales (simp_all add: TxBlock_Encode_wf TxBlock_Decode_enc del: length_append)

lemma safe_TxBlock_Decode [safe_intros]: "safe_dec (TxBlock_Decode full)"
  unfolding TxBlock_Decode_def by (cases "full = 1") (auto intro!: safe_intros)

section \<open>What the Merkle root binds\<close>

text \<open>The messages hashed in the tree.\<close>

function merkle_msgs :: "Transaction list \<Rightarrow> bytes list" where
  "merkle_msgs d =
     (if d = [] then []
      else if length d = 1 then [be_bytes 32 (tx_Hash (hd d))]
      else let l = take (length d div 2) d; r = drop (length d div 2) d
           in (be_bytes 32 (GenMerkTree l 0) @ be_bytes 32 (GenMerkTree r 0)) # merkle_msgs l @ merkle_msgs r)"
  by pat_completeness auto
termination
  by (relation "measure length") (auto simp: neq_Nil_conv)

declare merkle_msgs.simps [simp del]

definition merkle_top :: "Transaction list \<Rightarrow> bytes" where
  "merkle_top d = hd (merkle_msgs d)"

lemma merkle_msgs_ne: "d \<noteq> [] \<Longrightarrow> merkle_msgs d \<noteq> []"
  by (subst merkle_msgs.simps) (simp add: Let_def)

lemma merkle_top_in: "d \<noteq> [] \<Longrightarrow> merkle_top d \<in> set (merkle_msgs d)"
  by (simp add: merkle_top_def merkle_msgs_ne)

lemma GenMerkTree_top: "d \<noteq> [] \<Longrightarrow> GenMerkTree d out = Sum256 (merkle_top d)"
  by (subst GenMerkTree.simps) (simp add: merkle_top_def merkle_msgs.simps [of d] DoubleHash256_def Let_def)

lemma merkle_top_eq:
  "d \<noteq> [] \<Longrightarrow> merkle_top d = (if length d = 1 then be_bytes 32 (tx_Hash (hd d))
     else be_bytes 32 (GenMerkTree (take (length d div 2) d) 0) @ be_bytes 32 (GenMerkTree (drop (length d div 2) d) 0))"
  by (simp add: merkle_top_def merkle_msgs.simps [of d] Let_def)

lemma halves:
  assumes "d \<noteq> []" and "length d \<noteq> 1"
  shows "take (length d div 2) d \<noteq> []" "drop (length d div 2) d \<noteq> []"
    "set (merkle_msgs (take (length d div 2) d)) \<subseteq> set (merkle_msgs d)"
    "set (merkle_msgs (drop (length d div 2) d)) \<subseteq> set (merkle_msgs d)"
proof -
  have "2 \<le> length d" using assms by (cases d) (auto simp: Suc_le_eq)
  then show "take (length d div 2) d \<noteq> []" "drop (length d div 2) d \<noteq> []" by auto
  show "set (merkle_msgs (take (length d div 2) d)) \<subseteq> set (merkle_msgs d)"
    "set (merkle_msgs (drop (length d div 2) d)) \<subseteq> set (merkle_msgs d)"
    using assms by (auto simp: merkle_msgs.simps [of d] Let_def)
qed

lemma GenMerkTree_inj:
  "d \<noteq> [] \<Longrightarrow> e \<noteq> [] \<Longrightarrow> GenMerkTree d out = GenMerkTree e out' \<Longrightarrow>
   map tx_Hash d = map tx_Hash e \<or> (\<exists>x \<in> set (merkle_msgs d). \<exists>y \<in> set (merkle_msgs e). collision x y)"
proof (induction "length d" arbitrary: d e out out' rule: less_induct)
  case less
  note top = Sum256_eqD [OF less.prems(3) [unfolded GenMerkTree_top [OF less.prems(1)] GenMerkTree_top [OF less.prems(2)]]]
  show ?case
  proof (cases "merkle_top d = merkle_top e")
    case False
    with top show ?thesis using merkle_top_in less.prems by blast
  next
    case True
    have one: "length d = 1 \<longleftrightarrow> length e = 1"
      using arg_cong [OF True, of length] less.prems by (simp add: merkle_top_eq split: if_splits)
    show ?thesis
    proof (cases "length d = 1")
      case l: True
      with one True have "tx_Hash (hd d) = tx_Hash (hd e)" using less.prems by (simp add: merkle_top_eq)
      then show ?thesis using l one by (cases d; cases e) auto
    next
      case l: False
      note hd = halves [OF less.prems(1) l] and he = halves [OF less.prems(2)] and one' = l [unfolded one]
      let ?l = "\<lambda>d. take (length d div 2) d" and ?r = "\<lambda>d. drop (length d div 2) d"
      have eq: "GenMerkTree (?l d) 0 = GenMerkTree (?l e) 0" "GenMerkTree (?r d) 0 = GenMerkTree (?r e) 0"
        using True l one' less.prems by (simp_all add: merkle_top_eq)
      have len: "length (?l d) < length d" "length (?r d) < length d"
        using hd(1,2) less.prems(1) by auto
      have "map tx_Hash (?l d) = map tx_Hash (?l e) \<or> (\<exists>x \<in> set (merkle_msgs (?l d)). \<exists>y \<in> set (merkle_msgs (?l e)). collision x y)"
        by (rule less.hyps [OF len(1) hd(1) he(1) [OF one'] eq(1)])
      moreover have "map tx_Hash (?r d) = map tx_Hash (?r e) \<or> (\<exists>x \<in> set (merkle_msgs (?r d)). \<exists>y \<in> set (merkle_msgs (?r e)). collision x y)"
        by (rule less.hyps [OF len(2) hd(2) he(2) [OF one'] eq(2)])
      moreover have "map tx_Hash d = map tx_Hash e" if "map tx_Hash (?l d) = map tx_Hash (?l e)"
        "map tx_Hash (?r d) = map tx_Hash (?r e)"
        using arg_cong2 [OF that, of "(@)"] by (simp flip: map_append)
      ultimately show ?thesis using hd(3,4) he(3,4) [OF one'] by blast
    qed
  qed
qed

section \<open>Blocks the leader makes\<close>

text \<open>The text whose hash would make a block travel unsigned.\<close>

definition genesis_msg :: "TxBlock \<Rightarrow> bytes" where
  "genesis_msg a = (if tb_Kind a = 1 then GenesisTxBlock @ itoa (unat (tb_ShardID a)) else GenesisTxBlock)"

lemma enc_signed_collision:
  "tb_HashID a = Sum256 m \<Longrightarrow> m \<noteq> genesis_msg a \<Longrightarrow> \<not> enc_signed a \<Longrightarrow> collision m (genesis_msg a)"
  using Sum256_eqD [of m "genesis_msg a"]
  by (auto simp: enc_signed_def genesis_msg_def genesis_hash_def genesis_final_hash_def split: if_splits)

lemma MakeTxBlock_fields:
  assumes "MakeTxBlock sg rnd now a ID txs prev prk h kind pfh sh = Some b" and "length txs < 2 ^ 32"
  shows "tb_HashID b = TxBlock_Hash b" "tb_Sig b = RCSign_Sign sg rnd (be_bytes 32 (tb_HashID b)) prk"
    "tb_TxArray b = txs" "unat (tb_TxCnt b) = length txs" "tb_Kind b = kind" "tb_Height b = h"
    "tb_ID b = ID" "tb_PrevHash b = prev" "tb_TxArrayX b = map (\<lambda>t. HashCut (tx_Hash t)) txs"
    "tb_MerkleRoot b = GenMerkTree txs (tb_MerkleRoot a)" "tb_Timestamp b = now" "tb_Sender b = tb_Sender a"
    "tb_Level b = tb_Level a" "kind = 1 \<Longrightarrow> pfh = Some (tb_PrevFinalHash b) \<and> tb_ShardID b = sh"
    "kind \<noteq> 1 \<Longrightarrow> tb_PrevFinalHash b = tb_PrevFinalHash a \<and> tb_ShardID b = tb_ShardID a"
  using assms by (auto simp: MakeTxBlock_def Let_def TxBlock_Hash_def TxBlock_data_def unat_of_nat_u32
      split: if_splits)

lemma MakeTxBlock_total: "kind \<noteq> 1 \<or> pfh \<noteq> None \<Longrightarrow> \<exists>b. MakeTxBlock sg rnd now a ID txs prev prk h kind pfh sh = Some b"
  by (auto simp: MakeTxBlock_def Let_def)

lemma MakeTxBlock_wf:
  assumes "ecdsa_ok sg vf" and "MakeTxBlock sg rnd now a ID txs prev prk h kind pfh sh = Some b"
    and "length txs < 2 ^ 32" and "list_all Transaction_wf txs" and "kind \<in> {0, 1, 3}"
  shows "TxBlock_wf full b"
  using MakeTxBlock_fields [OF assms(2,3)] assms(4,5) RCSign_Sign_wf [OF assms(1)]
  by (auto simp: TxBlock_wf_def)

text \<open>The part of a block \<open>Verify\<close> looks at is the part the hash and the signature cover.\<close>

lemma TxBlock_Verify_cong:
  "TxBlock_data a = TxBlock_data b \<Longrightarrow> tb_HashID a = tb_HashID b \<Longrightarrow> tb_Sig a = tb_Sig b \<Longrightarrow>
   TxBlock_Verify vf a pk = TxBlock_Verify vf b pk"
  by (simp add: TxBlock_Verify_def TxBlock_Hash_def)

lemma TxBlock_data_view: "tb_Kind a \<in> {0, 1} \<or> tb_Kind a = 2 \<Longrightarrow> TxBlock_data (TxBlock_view full a) = TxBlock_data a"
  by (auto simp: TxBlock_data_def TxBlock_view_def)

lemma TxBlock_data_ne_genesis: "TxBlock_data a \<noteq> GenesisTxBlock"
proof -
  have "length (TxBlock_data a) \<ge> 36" by (simp add: TxBlock_data_def)
  moreover have "length GenesisTxBlock = 13" by (simp add: GenesisTxBlock_def str_bytes_def)
  ultimately show ?thesis by force
qed

lemma TxBlock_Verify_Sign:
  assumes "ecdsa_ok sg vf" and "tb_HashID b = TxBlock_Hash b"
    and "tb_Sig b = RCSign_Sign sg rnd (be_bytes 32 (tb_HashID b)) prk"
  shows "TxBlock_Verify vf b (sk_Puk prk) = Some (True, None)"
  using assms by (simp add: TxBlock_Verify_def RCSign_Verify_Sign)

section \<open>Properties\<close>

text \<open>C4: A block survives the wire in both modes (with the transactions, and with the
  shortened hashes that stand for them in the network), whatever follows it in the packet; the
  fields its kind does not send arrive as zero, and a genesis block arrives without a
  signature.\<close>

theorem TxBlock_roundtrip:
  assumes "TxBlock_wf full a"
  shows "\<exists>e. TxBlock_Encode a full = Some e \<and>
    (\<forall>r. length (e @ r) < 2 ^ 32 \<longrightarrow> TxBlock_Decode full TxBlock_zero (e @ r) = DOk (TxBlock_view full a) r)"
  using TxBlock_Encode_wf [OF assms] TxBlock_Decode_enc [OF assms] by blast

definition sample_prk :: PrivateKey where
  "sample_prk = \<lparr>sk_Puk = \<lparr>pk_X = Some 3, pk_Y = Some 4\<rparr>, sk_D = 1\<rparr>"

definition sample_block :: TxBlock where
  "sample_block = TxBlock_zero\<lparr>tb_ID := 4, tb_Kind := 3, tb_TxCnt := 1, tb_TxArray := [sample_tx],
     tb_TxArrayX := [9], tb_Sig := sample_sig\<rparr>"

lemma sample_block_wf: "TxBlock_wf full sample_block"
  by (simp add: TxBlock_wf_def sample_block_def TxBlock_zero_def sample_tx_wf sample_sig_def RCSign_wf_def)

theorem TxBlock_roundtrip_witness:
  "(\<exists>e. TxBlock_Encode sample_block 0 = Some e) \<and> (\<exists>e. TxBlock_Encode sample_block 1 = Some e)"
  using TxBlock_roundtrip [OF sample_block_wf] by blast

text \<open>C3: The Merkle root binds the list of transactions: two nonempty lists with the same
  root have the same transaction hashes in the same order, or two of the messages hashed in the
  two trees are a SHA-256 collision. (A leaf hashes 32 bytes and an inner node 64, so that lists
  of different lengths cannot be confused.)\<close>

theorem merkle_binding:
  assumes "d \<noteq> []" and "e \<noteq> []" and "GenMerkTree d out = GenMerkTree e out'"
  shows "map tx_Hash d = map tx_Hash e
    \<or> (\<exists>x \<in> set (merkle_msgs d). \<exists>y \<in> set (merkle_msgs e). collision x y)"
  using assms by (rule GenMerkTree_inj)

theorem merkle_binding_witness:
  "GenMerkTree [sample_tx] 0 = GenMerkTree [sample_tx] 1 \<and>
   (map tx_Hash [sample_tx] = map tx_Hash [sample_tx]
    \<or> (\<exists>x \<in> set (merkle_msgs [sample_tx]). \<exists>y \<in> set (merkle_msgs [sample_tx]). collision x y))"
proof -
  have e: "GenMerkTree [sample_tx] 0 = GenMerkTree [sample_tx] 1" by (simp add: GenMerkTree.simps)
  show ?thesis using e merkle_binding [OF _ _ e] by simp
qed

text \<open>C1: A block the leader makes from well-formed transactions and sends arrives as a block
  that verifies under the leader's key and carries the leader's transactions (or their shortened
  hashes, without the transactions) and their Merkle root; a leader's block is lost only if what
  it hashes collides with the text of the genesis block.\<close>

theorem MakeTxBlock_accepted:
  assumes "ecdsa_ok sg vf" and "list_all Transaction_wf txs" and "length txs < 2 ^ 32"
  shows "\<exists>b e. MakeTxBlock sg rnd now a ID txs prev prk h 0 None 0 = Some b \<and> TxBlock_Encode b full = Some e
    \<and> (length e < 2 ^ 32 \<longrightarrow> (\<exists>c. TxBlock_Decode full TxBlock_zero e = DOk c []
        \<and> (TxBlock_Verify vf c (sk_Puk prk) = Some (True, None) \<or> collision (TxBlock_data b) GenesisTxBlock)
        \<and> tb_MerkleRoot c = GenMerkTree txs (tb_MerkleRoot a) \<and> tb_PrevHash c = prev
        \<and> (if full = 1 then tb_TxArray c = txs
           else tb_TxArray c = [] \<and> tb_TxArrayX c = map (\<lambda>t. HashCut (tx_Hash t)) txs)))"
proof -
  obtain b where b: "MakeTxBlock sg rnd now a ID txs prev prk h 0 None 0 = Some b"
    using MakeTxBlock_total [of 0 None sg rnd now a ID txs prev prk h 0] by auto
  note f = MakeTxBlock_fields [OF b assms(3)]
  have wf: "TxBlock_wf full b" by (rule MakeTxBlock_wf [OF assms(1) b assms(3,2)]) simp
  obtain e where e: "TxBlock_Encode b full = Some e" using TxBlock_Encode_wf [OF wf] by blast
  have v: "TxBlock_Verify vf (TxBlock_view full b) (sk_Puk prk) = Some (True, None)
      \<or> collision (TxBlock_data b) GenesisTxBlock"
  proof (cases "enc_signed b")
    case True
    have "TxBlock_data (TxBlock_view full b) = TxBlock_data b"
      by (rule TxBlock_data_view) (simp add: f(5))
    then have "TxBlock_Verify vf (TxBlock_view full b) (sk_Puk prk) = TxBlock_Verify vf b (sk_Puk prk)"
      by (rule TxBlock_Verify_cong) (simp_all add: TxBlock_view_def True)
    then show ?thesis using TxBlock_Verify_Sign [OF assms(1) f(1,2)] by simp
  next
    case False
    then show ?thesis
      using enc_signed_collision [of b "TxBlock_data b"] f(1,5) TxBlock_data_ne_genesis [of b]
      by (auto simp: genesis_msg_def TxBlock_Hash_def DoubleHash256_def)
  qed
  have d: "TxBlock_Decode full TxBlock_zero e = DOk (TxBlock_view full b) []" if "length e < 2 ^ 32"
    using TxBlock_Decode_enc [OF wf e, of "[]"] that by simp
  have c: "tb_MerkleRoot (TxBlock_view full b) = GenMerkTree txs (tb_MerkleRoot a)"
    "tb_PrevHash (TxBlock_view full b) = prev"
    "if full = 1 then tb_TxArray (TxBlock_view full b) = txs
     else tb_TxArray (TxBlock_view full b) = [] \<and> tb_TxArrayX (TxBlock_view full b) = map (\<lambda>t. HashCut (tx_Hash t)) txs"
    by (simp_all add: TxBlock_view_def f)
  show ?thesis using b e d v c by blast
qed

theorem MakeTxBlock_accepted_witness:
  "\<exists>b e. MakeTxBlock toy_sign 0 5 TxBlock_zero 1 [sample_tx] 2 sample_prk 0 0 None 0 = Some b
     \<and> TxBlock_Encode b 1 = Some e"
proof -
  have w: "list_all Transaction_wf [sample_tx]" using sample_tx_wf by simp
  have l: "length [sample_tx] < 2 ^ 32" by simp
  show ?thesis using MakeTxBlock_accepted [OF toy_ecdsa w l] by blast
qed


end
