(* ===== verification/TxChain.thy ===== *)
theory TxChain
  imports Block "HOL-Library.AList"
begin

text \<open>
  The block database of a node (\<open>rccache/txBlockChain.go\<close>): blocks, final blocks, accounts
  and transactions in a bolt file, with the latest hashes and the account balances in memory.

  Bolt is a parameter: \<open>bolt\<close> holds the operations of a transaction the code uses on a file of
  type \<open>'d\<close>, and \<open>bolt_ok\<close> states their documented behaviour. Every operation of the program
  opens the file, runs one transaction on it and closes it on return: \<open>tc_data\<close> is the content
  of the file and \<open>tc_open\<close> tells whether the handle is open, which it never is between two
  operations. A failure to open the file ends the program (\<open>log.Panic\<close>) and is not modelled.
  Using a bucket that does not exist dereferences nil, which is a panic (\<open>None\<close>). The iteration
  order of a Go map is not specified: it is the argument \<open>ks\<close>, a list of the keys.
\<close>

section \<open>The store\<close>

record 'd bolt =
  bk_has :: "'d \<Rightarrow> string \<Rightarrow> bool"
  bk_create :: "'d \<Rightarrow> string \<Rightarrow> 'd"
  bk_drop :: "'d \<Rightarrow> string \<Rightarrow> 'd"
  bk_get :: "'d \<Rightarrow> string \<Rightarrow> bytes \<Rightarrow> bytes option"
  bk_put :: "'d \<Rightarrow> string \<Rightarrow> bytes \<Rightarrow> bytes \<Rightarrow> 'd"
  bk_del :: "'d \<Rightarrow> string \<Rightarrow> bytes \<Rightarrow> 'd"
  bk_items :: "'d \<Rightarrow> string \<Rightarrow> (bytes \<times> bytes) list"
  bk_empty :: 'd

definition bolt_ok :: "'d bolt \<Rightarrow> bool" where
  "bolt_ok B \<longleftrightarrow>
     (\<forall>n. \<not> bk_has B (bk_empty B) n)
   \<and> (\<forall>d n m. bk_has B (bk_create B d n) m \<longleftrightarrow> m = n \<or> bk_has B d m)
   \<and> (\<forall>d n m. bk_has B (bk_drop B d n) m \<longleftrightarrow> m \<noteq> n \<and> bk_has B d m)
   \<and> (\<forall>d n k v m. bk_has B (bk_put B d n k v) m \<longleftrightarrow> bk_has B d m)
   \<and> (\<forall>d n k m. bk_has B (bk_del B d n k) m \<longleftrightarrow> bk_has B d m)
   \<and> (\<forall>d n k. \<not> bk_has B d n \<longrightarrow> bk_get B (bk_create B d n) n k = None)
   \<and> (\<forall>d n m k. m \<noteq> n \<longrightarrow> bk_get B (bk_create B d n) m k = bk_get B d m k)
   \<and> (\<forall>d n m k. m \<noteq> n \<longrightarrow> bk_get B (bk_drop B d n) m k = bk_get B d m k)
   \<and> (\<forall>d n k v m k'. bk_has B d n \<longrightarrow> bk_get B (bk_put B d n k v) m k' = (if m = n \<and> k' = k then Some v else bk_get B d m k'))
   \<and> (\<forall>d n k m k'. bk_has B d n \<longrightarrow> bk_get B (bk_del B d n k) m k' = (if m = n \<and> k' = k then None else bk_get B d m k'))
   \<and> (\<forall>d n. map_of (bk_items B d n) = bk_get B d n \<and> distinct (map fst (bk_items B d n)))"

definition UTXOBucket :: string where "UTXOBucket = ''UTXO''"
definition ACCBucket :: string where "ACCBucket = ''ACC''"
definition TBBucket :: string where "TBBucket = ''TxBlock''"
definition FBBucket :: string where "FBBucket = ''FBTxBlock''"
definition TXBucket :: string where "TXBucket = ''TxBucket''"

lemmas bucket_names = UTXOBucket_def ACCBucket_def TBBucket_def FBBucket_def TXBucket_def

text \<open>\<open>append([]byte("B"), h[:]...)\<close> and its variant with the number of the shard.\<close>

definition keyB :: "hash \<Rightarrow> bytes" where "keyB h = str_bytes ''B'' @ be_bytes 32 h"
definition keyBi :: "u32 \<Rightarrow> hash \<Rightarrow> bytes" where
  "keyBi i h = str_bytes ''B'' @ itoa (unat i) @ be_bytes 32 h"
definition keyXB :: bytes where "keyXB = str_bytes ''XB''"
definition keyXBi :: "u32 \<Rightarrow> bytes" where "keyXBi i = str_bytes ''XB'' @ itoa (unat i)"

text \<open>\<open>tx.Bucket(n)\<close> and \<open>b.Get(k)\<close>, \<open>b.Put(k, v)\<close>, \<open>b.Delete(k)\<close> on it.\<close>

definition b_get :: "'d bolt \<Rightarrow> 'd \<Rightarrow> string \<Rightarrow> bytes \<Rightarrow> bytes option option" where
  "b_get B d n k = (if bk_has B d n then Some (bk_get B d n k) else None)"

definition b_put :: "'d bolt \<Rightarrow> string \<Rightarrow> bytes \<Rightarrow> bytes \<Rightarrow> 'd \<Rightarrow> 'd option" where
  "b_put B n k v d = (if bk_has B d n then Some (bk_put B d n k v) else None)"

definition b_del :: "'d bolt \<Rightarrow> string \<Rightarrow> bytes \<Rightarrow> 'd \<Rightarrow> 'd option" where
  "b_del B n k d = (if bk_has B d n then Some (bk_del B d n k) else None)"

text \<open>\<open>CreateBucket\<close> refuses to create a bucket that exists; \<open>DeleteBucket\<close> of a missing one
  is an error the program ignores.\<close>

definition create_bucket :: "'d bolt \<Rightarrow> 'd \<Rightarrow> string \<Rightarrow> error + 'd" where
  "create_bucket B d n = (if bk_has B d n then Inl (Msg ''bucket already exists'') else Inr (bk_create B d n))"

definition drop_bucket :: "'d bolt \<Rightarrow> 'd \<Rightarrow> string \<Rightarrow> 'd" where
  "drop_bucket B d n = (if bk_has B d n then bk_drop B d n else d)"

section \<open>Unspent outputs (\<open>rccache/tool.go\<close>)\<close>

record UTXOSet =
  us_Cnt :: u32
  us_Data :: "OutType list"
  us_Stat :: "u32 list"
  us_Remain :: u32
  us_viewer :: u32

definition UTXOSet_zero :: UTXOSet where
  "UTXOSet_zero = \<lparr>us_Cnt = 0, us_Data = [], us_Stat = [], us_Remain = 0, us_viewer = 0\<rparr>"

definition UTXOSet_Encode :: "UTXOSet \<Rightarrow> bytes option" where
  "UTXOSet_Encode u = seq_opt
     [Some (append_or_drop (EncodeInt (VU32 (us_Cnt u)))),
      for_upto (\<lambda>x. Some (OutToData x)) (unat (us_Cnt u)) (us_Data u),
      for_upto (\<lambda>x. Some (append_or_drop (EncodeInt (VU32 x)))) (unat (us_Cnt u)) (us_Stat u),
      Some (append_or_drop (EncodeInt (VU32 (us_Remain u))))]"

text \<open>The errors of the fields are ignored; only bytes left over are reported.\<close>

definition UTXOSet_Decode :: "UTXOSet dec" where
  "UTXOSet_Decode = steps
    [fieldS us_Cnt us_Cnt_update (\<lambda>_. ignoreD Decode_u32),
     fieldS us_Data us_Data_update (\<lambda>u. make_array (\<lambda>_ e. e) (unat (us_Cnt u)) OutType_zero (ignoreD DataToOut)),
     fieldS us_Stat us_Stat_update (\<lambda>u. make_array (\<lambda>_ e. e) (unat (us_Cnt u)) 0 (ignoreD Decode_u32)),
     fieldS us_Remain us_Remain_update (\<lambda>_. ignoreD Decode_u32),
     no_extra ''Decode utxoset error: Invalid length'']"

section \<open>The state\<close>

record 'd TxBlockChain =
  tc_data :: 'd
  tc_open :: bool
  tc_LastTB :: hash
  tc_Height :: u32
  tc_LastFB :: "hash list"
  tc_USet :: "hash \<rightharpoonup> UTXOSet"
  tc_TXCache :: "hash \<rightharpoonup> int"
  tc_AccData :: "hash \<rightharpoonup> u32"

record AccCache =
  acc_ID :: hash
  acc_Value :: u32

text \<open>Reading a missing key of a Go map gives the zero value.\<close>

definition balance :: "'d TxBlockChain \<Rightarrow> hash \<Rightarrow> u32" where
  "balance a k = (case tc_AccData a k of None \<Rightarrow> 0 | Some v \<Rightarrow> v)"

definition set_acc :: "hash \<Rightarrow> u32 \<Rightarrow> 'd TxBlockChain \<Rightarrow> 'd TxBlockChain" where
  "set_acc k v a = a\<lparr>tc_AccData := (tc_AccData a)(k \<mapsto> v)\<rparr>"

text \<open>The end of every operation closes the file.\<close>

definition closed :: "'d TxBlockChain \<Rightarrow> 'd \<Rightarrow> 'd TxBlockChain" where
  "closed a d = a\<lparr>tc_data := d, tc_open := False\<rparr>"

type_synonym 'd chain_res = "(error option \<times> 'd TxBlockChain) option"

section \<open>Creating the chain\<close>

text \<open>The genesis block goes into the bucket that was created in the same transaction,
  together with the pointer to the latest block.\<close>

definition put_genesis :: "'d bolt \<Rightarrow> 'd TxBlockChain \<Rightarrow> 'd TxBlockChain option" where
  "put_genesis B a =
     (let g = NewGensisTxBlock in
      case TxBlock_Encode g 1 of None \<Rightarrow> None
      | Some tmp \<Rightarrow>
         (case b_put B TBBucket (keyB (tb_HashID g)) tmp (tc_data a) of None \<Rightarrow> None
          | Some d \<Rightarrow>
            map_option (\<lambda>d. a\<lparr>tc_data := d, tc_LastTB := tb_HashID g, tc_Height := 0\<rparr>)
              (b_put B TBBucket keyXB (be_bytes 32 (tb_HashID g)) d)))"

definition put_final_genesis :: "'d bolt \<Rightarrow> u32 \<Rightarrow> 'd TxBlockChain \<Rightarrow> 'd TxBlockChain option" where
  "put_final_genesis B i a =
     (let g = NewGensisFinalTxBlock i in
      case TxBlock_Encode g 1 of None \<Rightarrow> None
      | Some tmp \<Rightarrow>
         (case b_put B FBBucket (keyBi i (tb_HashID g)) tmp (tc_data a) of None \<Rightarrow> None
          | Some d \<Rightarrow>
            (case b_put B FBBucket (keyXBi i) (be_bytes 32 (tb_HashID g)) d of None \<Rightarrow> None
             | Some d \<Rightarrow> map_option (\<lambda>l. a\<lparr>tc_data := d, tc_LastFB := l\<rparr>)
                           (put_idx (tc_LastFB a) (unat i) (tb_HashID g)))))"

definition shards :: "u32 list" where
  "shards = map of_nat [0..<unat ShardCnt]"

text \<open>\<open>copy(a.LastTB[:], b.Get(k)[:32])\<close> panics when the value is missing or short.\<close>

definition hash_at :: "'d bolt \<Rightarrow> 'd \<Rightarrow> string \<Rightarrow> bytes \<Rightarrow> hash option" where
  "hash_at B d n k = (case bk_get B d n k of None \<Rightarrow> None
     | Some v \<Rightarrow> if length v < 32 then None else Some (be_word (take 32 v)))"

definition open_TB :: "'d bolt \<Rightarrow> 'd TxBlockChain \<Rightarrow> 'd TxBlockChain option" where
  "open_TB B a =
     (case create_bucket B (tc_data a) TBBucket of
        Inr d \<Rightarrow> put_genesis B (a\<lparr>tc_data := d\<rparr>)
      | Inl _ \<Rightarrow>
          (case hash_at B (tc_data a) TBBucket keyXB of None \<Rightarrow> None
           | Some h \<Rightarrow>
               let buf = (case bk_get B (tc_data a) TBBucket (keyB h) of None \<Rightarrow> [] | Some v \<Rightarrow> v)
               in map_option (\<lambda>b. a\<lparr>tc_LastTB := h, tc_Height := tb_Height b\<rparr>)
                    (dres_val (TxBlock_Decode 1 TxBlock_zero buf))))"

definition open_FB :: "'d bolt \<Rightarrow> 'd TxBlockChain \<Rightarrow> 'd TxBlockChain option" where
  "open_FB B a =
     (case create_bucket B (tc_data a) FBBucket of
        Inr d \<Rightarrow> ofold (put_final_genesis B) shards (a\<lparr>tc_data := d\<rparr>)
      | Inl _ \<Rightarrow> ofold (\<lambda>i a. case hash_at B (tc_data a) FBBucket (keyXBi i) of None \<Rightarrow> None
                   | Some h \<Rightarrow> map_option (\<lambda>l. a\<lparr>tc_LastFB := l\<rparr>) (put_idx (tc_LastFB a) (unat i) h))
                 shards a)"

text \<open>One row of the account bucket: a short value leaves the balance zero, a short key
  panics.\<close>

definition read_acc :: "(bytes \<times> bytes) \<Rightarrow> AccCache option" where
  "read_acc kv = (if length (fst kv) < 32 then None
     else map_option (\<lambda>v. \<lparr>acc_ID = be_word (take 32 (fst kv)), acc_Value = v\<rparr>)
            (dres_val (Decode_u32 0 (snd kv))))"

definition load_acc :: "(hash \<Rightarrow> bool) \<Rightarrow> (bytes \<times> bytes) list \<Rightarrow> 'd TxBlockChain \<Rightarrow> 'd TxBlockChain option" where
  "load_acc p rows = ofold (\<lambda>kv a. map_option
     (\<lambda>x. if p (acc_ID x) then set_acc (acc_ID x) (acc_Value x) a else a) (read_acc kv)) rows"

definition open_ACC :: "'d bolt \<Rightarrow> 'd TxBlockChain \<Rightarrow> 'd TxBlockChain option" where
  "open_ACC B a0 =
     (let a = a0\<lparr>tc_AccData := Map.empty\<rparr> in
      case create_bucket B (tc_data a) ACCBucket of
        Inr d \<Rightarrow> Some (a\<lparr>tc_data := d\<rparr>)
      | Inl _ \<Rightarrow> load_acc (\<lambda>_. True) (bk_items B (tc_data a) ACCBucket) a)"

definition open_TX :: "'d bolt \<Rightarrow> 'd TxBlockChain \<Rightarrow> 'd TxBlockChain option" where
  "open_TX B a = (case create_bucket B (drop_bucket B (tc_data a) TXBucket) TXBucket of
     Inl _ \<Rightarrow> None | Inr d \<Rightarrow> Some (a\<lparr>tc_data := d\<rparr>))"

text \<open>\<open>NewBlockchain\<close> opens the file of an earlier run. It drops the blocks first, so that the
  chain always restarts from the genesis block, and keeps final blocks and accounts.\<close>

definition NewBlockchain :: "'d bolt \<Rightarrow> 'd TxBlockChain \<Rightarrow> 'd chain_res" where
  "NewBlockchain B a =
     (let a1 = a\<lparr>tc_TXCache := Map.empty, tc_data := drop_bucket B (tc_data a) TBBucket\<rparr> in
      case open_TB B a1 of None \<Rightarrow> None | Some a2 \<Rightarrow>
      (case open_FB B a2 of None \<Rightarrow> None | Some a3 \<Rightarrow>
      (case open_ACC B a3 of None \<Rightarrow> None | Some a4 \<Rightarrow>
       map_option (\<lambda>a5. (None, closed a5 (tc_data a5))) (open_TX B a4))))"

text \<open>\<open>CreateNewBlockchain\<close> removes the file and starts from an empty one.\<close>

definition CreateNewBlockchain :: "'d bolt \<Rightarrow> 'd TxBlockChain \<Rightarrow> 'd chain_res" where
  "CreateNewBlockchain B a =
     (let a1 = a\<lparr>tc_TXCache := Map.empty, tc_data := bk_create B (bk_empty B) TBBucket\<rparr> in
      case put_genesis B a1 of None \<Rightarrow> None | Some a2 \<Rightarrow>
      (case create_bucket B (tc_data a2) FBBucket of
         Inl e \<Rightarrow> Some (Some e, closed a2 (bk_empty B))
       | Inr d \<Rightarrow>
         (case ofold (put_final_genesis B) shards (a2\<lparr>tc_data := d\<rparr>) of None \<Rightarrow> None
          | Some a3 \<Rightarrow>
            (case create_bucket B (tc_data a3) ACCBucket of Inl _ \<Rightarrow> None
             | Inr d \<Rightarrow>
               (case create_bucket B d TXBucket of Inl _ \<Rightarrow> None
                | Inr d \<Rightarrow> Some (None, closed (a3\<lparr>tc_AccData := Map.empty\<rparr>) d))))))"

section \<open>Transactions and blocks\<close>

definition AddTx :: "'d bolt \<Rightarrow> 'd TxBlockChain \<Rightarrow> Transaction \<Rightarrow> 'd chain_res" where
  "AddTx B a x =
     (case Transaction_Encode x of None \<Rightarrow> None
      | Some tmp \<Rightarrow> map_option (\<lambda>d. (None, closed a d)) (b_put B TXBucket (keyB (tx_Hash x)) tmp (tc_data a)))"

text \<open>A missing transaction and one that does not decode give whatever the decoder left in the
  result.\<close>

definition ReqTx :: "'d bolt \<Rightarrow> 'd TxBlockChain \<Rightarrow> hash \<Rightarrow> (Transaction \<times> 'd TxBlockChain) option" where
  "ReqTx B a h =
     (case b_get B (tc_data a) TXBucket (keyB h) of None \<Rightarrow> None
      | Some v \<Rightarrow> map_option (\<lambda>t. (t, closed a (tc_data a)))
          (dres_val (Transaction_Decode Transaction_zero (case v of None \<Rightarrow> [] | Some b \<Rightarrow> b))))"

text \<open>\<open>ClearTx\<close> drops the bucket of the blocks and creates the bucket of the transactions; an
  error rolls the file back.\<close>

definition ClearTx :: "'d bolt \<Rightarrow> 'd TxBlockChain \<Rightarrow> 'd chain_res" where
  "ClearTx B a =
     (case create_bucket B (drop_bucket B (tc_data a) TBBucket) TXBucket of
        Inl e \<Rightarrow> Some (Some e, closed a (tc_data a))
      | Inr d \<Rightarrow> Some (None, closed a d))"

text \<open>The last block is the highest one seen, not the last one added.\<close>

definition raise_top :: "TxBlock \<Rightarrow> 'd TxBlockChain \<Rightarrow> 'd TxBlockChain" where
  "raise_top x a = (if tb_Height x > tc_Height a then a\<lparr>tc_LastTB := tb_HashID x, tc_Height := tb_Height x\<rparr> else a)"

definition put_block :: "'d bolt \<Rightarrow> TxBlock \<Rightarrow> 'd \<Rightarrow> 'd option" where
  "put_block B x d =
     (case TxBlock_Serial x of None \<Rightarrow> None
      | Some e \<Rightarrow> (case b_put B TBBucket (keyB (tb_HashID x)) e d of None \<Rightarrow> None
         | Some d \<Rightarrow> b_put B TBBucket keyXB (be_bytes 32 (tb_HashID x)) d))"

definition AddBlock :: "'d bolt \<Rightarrow> 'd TxBlockChain \<Rightarrow> TxBlock \<Rightarrow> 'd chain_res" where
  "AddBlock B a x =
     (if tb_Kind x = 0 then Some (Some (Msg ''Error type, should be 0''), a)
      else map_option (\<lambda>d. (None, raise_top x (closed a d))) (put_block B x (tc_data a)))"

definition AddStartBlock :: "'d bolt \<Rightarrow> 'd TxBlockChain \<Rightarrow> TxBlock \<Rightarrow> 'd chain_res" where
  "AddStartBlock B a x =
     (if tb_Kind x \<noteq> 2 then Some (Some (Msg ''Error block type, should be 2''), a)
      else map_option (\<lambda>d. (None, raise_top x (closed a d))) (put_block B x (tc_data a)))"

text \<open>The balance a final block records: \<open>x.TxArray[i].Out[0]\<close>.\<close>

definition final_out :: "TxBlock \<Rightarrow> nat \<Rightarrow> OutType option" where
  "final_out x i = (case idx (tb_TxArray x) i of None \<Rightarrow> None | Some t \<Rightarrow> idx (tx_Out t) 0)"

definition final_acc :: "'d bolt \<Rightarrow> TxBlock \<Rightarrow> nat \<Rightarrow> 'd TxBlockChain \<Rightarrow> 'd TxBlockChain option" where
  "final_acc B x i a =
     (case final_out x i of None \<Rightarrow> None
      | Some out \<Rightarrow> map_option (\<lambda>d. set_acc (out_Address out) (out_Value out) (a\<lparr>tc_data := d\<rparr>))
          (b_put B ACCBucket (be_bytes 32 (out_Address out))
             (append_or_drop (EncodeInt (VU32 (out_Value out)))) (tc_data a)))"

definition AddFinalBlock :: "'d bolt \<Rightarrow> 'd TxBlockChain \<Rightarrow> TxBlock \<Rightarrow> 'd chain_res" where
  "AddFinalBlock B a x =
     (if tb_Kind x \<noteq> 1 then Some (Some (Msg ''Error block type, should be 1''), a)
      else case TxBlock_Serial x of None \<Rightarrow> None
      | Some e \<Rightarrow>
         (case b_put B FBBucket (keyBi (tb_ShardID x) (tb_HashID x)) e (tc_data a) of None \<Rightarrow> None
          | Some d1 \<Rightarrow>
            (case b_put B FBBucket (keyXBi (tb_ShardID x)) (be_bytes 32 (tb_HashID x)) d1 of None \<Rightarrow> None
             | Some d2 \<Rightarrow>
               (case put_block B x d2 of None \<Rightarrow> None
                | Some d3 \<Rightarrow>
                  (case put_idx (tc_LastFB a) (unat (tb_ShardID x)) (tb_HashID x) of None \<Rightarrow> None
                   | Some l \<Rightarrow>
                     map_option (\<lambda>a. (None, a))
                       (ofold (final_acc B x) [0..<unat (tb_TxCnt x)]
                          ((raise_top x (closed a d3))\<lparr>tc_LastFB := l\<rparr>)))))))"

text \<open>A block that cannot be decoded gives nil.\<close>

definition read_block :: "bytes option \<Rightarrow> TxBlock option option" where
  "read_block v = (case TxBlock_Decode 1 TxBlock_zero (case v of None \<Rightarrow> [] | Some b \<Rightarrow> b) of
     DOk x _ \<Rightarrow> Some (Some x) | DErr _ _ _ \<Rightarrow> Some None | DPanic \<Rightarrow> None)"

definition LatestTxBlock :: "'d bolt \<Rightarrow> 'd TxBlockChain \<Rightarrow> TxBlock option option" where
  "LatestTxBlock B a =
     (case b_get B (tc_data a) TBBucket (keyB (tc_LastTB a)) of None \<Rightarrow> None | Some v \<Rightarrow> read_block v)"

definition LatestFinalTxBlock :: "'d bolt \<Rightarrow> 'd TxBlockChain \<Rightarrow> u32 \<Rightarrow> TxBlock option option" where
  "LatestFinalTxBlock B a x =
     (case idx (tc_LastFB a) (unat x) of None \<Rightarrow> None
      | Some h \<Rightarrow> (case b_get B (tc_data a) FBBucket (keyBi x h) of None \<Rightarrow> None | Some v \<Rightarrow> read_block v))"

text \<open>\<open>RecentBlock\<close> does not open the file: on a closed handle the transaction is refused and
  the result is nil. On an open one it walks back from the last block, and does not end on the
  genesis block unless \<open>height\<close> is positive. The result starts with the zero blocks \<open>make\<close> put
  into it.\<close>

partial_function (option) recent_loop :: "'d bolt \<Rightarrow> 'd \<Rightarrow> u32 \<Rightarrow> hash \<Rightarrow> TxBlock list \<Rightarrow> TxBlock list option" where
  "recent_loop B d height h acc =
     (case dres_val (TxBlock_Decode 1 TxBlock_zero
        (case bk_get B d TBBucket (keyB h) of None \<Rightarrow> [] | Some b \<Rightarrow> b)) of
        None \<Rightarrow> None
      | Some b \<Rightarrow> if tb_Height b < height then Some (acc @ [b])
                 else recent_loop B d height (tb_PrevHash b) (acc @ [b]))"

definition RecentBlock :: "'d bolt \<Rightarrow> 'd TxBlockChain \<Rightarrow> u32 \<Rightarrow> TxBlock list option option" where
  "RecentBlock B a height =
     (if \<not> tc_open a then Some None
      else if \<not> bk_has B (tc_data a) TBBucket then None
      else map_option Some (recent_loop B (tc_data a) height (tc_LastTB a)
             (replicate (unat (tc_Height a - height + 1)) TxBlock_zero)))"

section \<open>Accounts\<close>

definition AddAccount :: "'d bolt \<Rightarrow> 'd TxBlockChain \<Rightarrow> AccCache \<Rightarrow> 'd chain_res" where
  "AddAccount B a x =
     (if acc_Value x = 0
      then map_option (\<lambda>d. (None, (closed a d)\<lparr>tc_AccData := (tc_AccData a)(acc_ID x := None)\<rparr>))
             (b_del B ACCBucket (be_bytes 32 (acc_ID x)) (tc_data a))
      else map_option (\<lambda>d. (None, set_acc (acc_ID x) (acc_Value x) (closed a d)))
             (b_put B ACCBucket (be_bytes 32 (acc_ID x)) (append_or_drop (EncodeInt (VU32 (acc_Value x)))) (tc_data a)))"

text \<open>The outputs an input may spend, when they are not in the cache: read from the file.\<close>

definition fetch_utxo :: "'d bolt \<Rightarrow> 'd TxBlockChain \<Rightarrow> hash \<Rightarrow> UTXOSet option option" where
  "fetch_utxo B a k =
     (case b_get B (tc_data a) UTXOBucket (be_bytes 32 k) of None \<Rightarrow> None
      | Some None \<Rightarrow> Some None
      | Some (Some v) \<Rightarrow>
          (case UTXOSet_Decode UTXOSet_zero v of
             DOk u _ \<Rightarrow> Some (Some (u\<lparr>us_viewer := 0\<rparr>))
           | DErr _ _ _ \<Rightarrow> Some (Some UTXOSet_zero)
           | DPanic \<Rightarrow> None))"

text \<open>\<open>tmp.Stat[i] != 0\<close> and \<open>x.VerifyIn(&tmp.Data[i], h)\<close> on the cached outputs.\<close>

definition check_cached :: "verifier \<Rightarrow> UTXOSet \<Rightarrow> InType \<Rightarrow> hash \<Rightarrow> bool option" where
  "check_cached vf u x h =
     (if us_Cnt u \<le> in_Index x then Some False
      else case idx (us_Stat u) (unat (in_Index x)) of None \<Rightarrow> None
      | Some st \<Rightarrow> if st \<noteq> 0 then Some False
          else case idx (us_Data u) (unat (in_Index x)) of None \<Rightarrow> None | Some out \<Rightarrow> VerifyIn vf x out h)"

definition CheckUTXO ::
  "verifier \<Rightarrow> 'd bolt \<Rightarrow> 'd TxBlockChain \<Rightarrow> InType \<Rightarrow> hash \<Rightarrow> (bool \<times> 'd TxBlockChain) option" where
  "CheckUTXO vf B a x h =
     (if InType_Acc x then Some (balance a (in_PrevTx x) \<ge> in_Index x, a)
      else case tc_USet a (in_PrevTx x) of
        Some u \<Rightarrow> map_option (\<lambda>r. (r, a)) (check_cached vf u x h)
      | None \<Rightarrow>
          (let a1 = closed a (tc_data a) in
           case fetch_utxo B a (in_PrevTx x) of
             None \<Rightarrow> None
           | Some None \<Rightarrow> Some (False, a1)
           | Some (Some u) \<Rightarrow>
               if us_Cnt u \<le> in_Index x then Some (False, a1)
               else map_option (\<lambda>r. (r, a1\<lparr>tc_USet := (tc_USet a)(in_PrevTx x \<mapsto> u)\<rparr>)) (check_cached vf u x h)))"

definition LockUTXO :: "'d TxBlockChain \<Rightarrow> InType \<Rightarrow> 'd chain_res" where
  "LockUTXO a x =
     (if InType_Acc x then Some (None, set_acc (in_PrevTx x) (balance a (in_PrevTx x) - in_Index x) a)
      else case tc_USet a (in_PrevTx x) of
        None \<Rightarrow> Some (Some (Msg ''Locking utxo failed''), a)
      | Some u \<Rightarrow>
          if us_Cnt u \<le> in_Index x then Some (Some (Msg ''Locking utxo failed''), a)
          else case idx (us_Stat u) (unat (in_Index x)) of None \<Rightarrow> None
          | Some st \<Rightarrow> if st \<noteq> 0 then Some (Some (Msg ''Locking utxo failed''), a)
              else Some (None, a\<lparr>tc_USet := (tc_USet a)(in_PrevTx x \<mapsto>
                u\<lparr>us_Stat := (us_Stat u)[unat (in_Index x) := 2], us_viewer := us_viewer u + 1\<rparr>)\<rparr>))"

text \<open>The last viewer writes the outputs back. The handle is closed between two operations, so
  that the write is refused; the slice of the states is shared with the cached entry and keeps
  the new state.\<close>

definition UnlockUTXO :: "'d bolt \<Rightarrow> 'd TxBlockChain \<Rightarrow> InType \<Rightarrow> 'd chain_res" where
  "UnlockUTXO B a x =
     (if InType_Acc x then Some (None, set_acc (in_PrevTx x) (balance a (in_PrevTx x) + in_Index x) a)
      else case tc_USet a (in_PrevTx x) of
        None \<Rightarrow> Some (Some (Msg ''Unlocking utxo failed''), a)
      | Some u \<Rightarrow>
          if us_Cnt u \<le> in_Index x then Some (Some (Msg ''Unlocking utxo failed''), a)
          else case idx (us_Stat u) (unat (in_Index x)) of None \<Rightarrow> None
          | Some st \<Rightarrow>
              if st \<noteq> 2 then Some (Some (Msg ''Unlocking utxo failed''), a)
              else let u1 = u\<lparr>us_Stat := (us_Stat u)[unat (in_Index x) := 0]\<rparr>;
                       u2 = u1\<lparr>us_viewer := us_viewer u - 1\<rparr>
                in if us_viewer u2 \<noteq> 0 then Some (None, a\<lparr>tc_USet := (tc_USet a)(in_PrevTx x \<mapsto> u2)\<rparr>)
                   else if \<not> tc_open a
                   then Some (Some (Msg ''database not open''), a\<lparr>tc_USet := (tc_USet a)(in_PrevTx x \<mapsto> u1)\<rparr>)
                   else case UTXOSet_Encode u2 of None \<Rightarrow> None
                   | Some e \<Rightarrow> map_option (\<lambda>d. (None, a\<lparr>tc_data := d, tc_USet := (tc_USet a)(in_PrevTx x := None)\<rparr>))
                       (b_put B UTXOBucket (be_bytes 32 (in_PrevTx x)) e (tc_data a)))"

subsection \<open>Final blocks and the account bucket\<close>

text \<open>The time and the random number of every transaction are the argument \<open>src\<close>.\<close>

definition final_tx :: "u64 \<times> u64 \<Rightarrow> hash \<Rightarrow> u32 \<Rightarrow> Transaction option" where
  "final_tx tr k v =
     (let tmpIn = \<lparr>in_PrevTx = k, in_Index = v, in_Sig = \<lparr>sig_R = Some 0, sig_S = Some 0\<rparr>,
                   in_PukX = Some 0, in_PukY = Some 0\<rparr>;
          tmpOut = \<lparr>out_Value = v, out_Address = k\<rparr>;
          t = AddOut (AddIn (Transaction_New Transaction_zero (fst tr) (snd tr) 1 0) tmpIn) tmpOut
      in map_option (\<lambda>h. t\<lparr>tx_Hash := h\<rparr>) (HashTx t))"

definition MakeFinalTx ::
  "(hash \<Rightarrow> u64 \<times> u64) \<Rightarrow> hash list \<Rightarrow> 'd TxBlockChain \<Rightarrow> u32 \<Rightarrow> (Transaction list \<times> 'd TxBlockChain) option" where
  "MakeFinalTx src ks a sh =
     map_option (\<lambda>txs. (txs, closed a (tc_data a)))
       (ofold (\<lambda>k res. case tc_AccData a k of None \<Rightarrow> Some res
          | Some v \<Rightarrow> if ShardIndex k = sh then map_option (\<lambda>t. res @ [t]) (final_tx (src k) k v) else Some res)
        ks [])"

definition store_acc :: "'d bolt \<Rightarrow> 'd TxBlockChain \<Rightarrow> hash \<Rightarrow> 'd \<Rightarrow> 'd option" where
  "store_acc B a k d =
     (case tc_AccData a k of None \<Rightarrow> Some d
      | Some v \<Rightarrow> if v = 0 then b_del B ACCBucket (be_bytes 32 k) d
                 else b_put B ACCBucket (be_bytes 32 k) (append_or_drop (EncodeInt (VU32 v))) d)"

definition UpdateAccount :: "'d bolt \<Rightarrow> hash list \<Rightarrow> 'd TxBlockChain \<Rightarrow> 'd chain_res" where
  "UpdateAccount B ks a = map_option (\<lambda>d. (None, closed a d)) (ofold (store_acc B a) ks (tc_data a))"

definition UpdateFinal :: "'d bolt \<Rightarrow> hash list \<Rightarrow> 'd TxBlockChain \<Rightarrow> TxBlock \<Rightarrow> 'd chain_res" where
  "UpdateFinal B ks a x =
     (case ofold (\<lambda>i a. map_option (\<lambda>out. set_acc (out_Address out) (out_Value out) a) (final_out x i))
             [0..<unat (tb_TxCnt x)] a of
        None \<Rightarrow> None
      | Some a1 \<Rightarrow> map_option (\<lambda>d. (None, closed a1 d)) (ofold (store_acc B a1) ks (tc_data a1)))"

definition UploadAcc :: "'d bolt \<Rightarrow> 'd TxBlockChain \<Rightarrow> u32 \<Rightarrow> 'd chain_res" where
  "UploadAcc B a sh =
     (if \<not> bk_has B (tc_data a) ACCBucket then None
      else map_option (\<lambda>a. (None, closed a (tc_data a)))
        (load_acc (\<lambda>k. ShardIndex k = sh) (bk_items B (tc_data a) ACCBucket) (a\<lparr>tc_AccData := Map.empty\<rparr>)))"

subsection \<open>Executing a block\<close>

definition for_each :: "('a \<Rightarrow> 's \<Rightarrow> 's option) \<Rightarrow> nat \<Rightarrow> 'a list \<Rightarrow> 's \<Rightarrow> 's option" where
  "for_each f n xs = ofold (\<lambda>i s. case idx xs i of None \<Rightarrow> None | Some x \<Rightarrow> f x s) [0..<n]"

definition spend_in :: "bool \<Rightarrow> u32 \<Rightarrow> InType \<Rightarrow> 'd TxBlockChain \<Rightarrow> 'd TxBlockChain" where
  "spend_in oktx sh i a =
     (if InType_ShardIndex i = sh \<and> InType_Acc i
      then case tc_AccData a (in_PrevTx i) of None \<Rightarrow> a
        | Some v \<Rightarrow> if oktx then a else set_acc (in_PrevTx i) (v - in_Index i) a
      else a)"

definition pay_out :: "u32 \<Rightarrow> OutType \<Rightarrow> 'd TxBlockChain \<Rightarrow> 'd TxBlockChain" where
  "pay_out sh out a =
     (if OutType_ShardIndex out = sh
      then case tc_AccData a (out_Address out) of
          None \<Rightarrow> set_acc (out_Address out) (out_Value out) a
        | Some tmp \<Rightarrow> set_acc (out_Address out) (tmp + out_Value out) a
      else a)"

text \<open>A transaction in the cache was locked before, so that its inputs are already taken.\<close>

definition exec_tx :: "u32 \<Rightarrow> Transaction \<Rightarrow> 'd TxBlockChain \<Rightarrow> 'd TxBlockChain option" where
  "exec_tx sh t a =
     (let oktx = tc_TXCache a (tx_Hash t) \<noteq> None in
      case for_each (\<lambda>i s. Some (spend_in oktx sh i s)) (unat (tx_TxinCnt t)) (tx_In t) a of
        None \<Rightarrow> None
      | Some a1 \<Rightarrow> for_each (\<lambda>out s. Some (pay_out sh out s)) (unat (tx_TxoutCnt t)) (tx_Out t) a1)"

definition UpdateUTXO :: "'d TxBlockChain \<Rightarrow> TxBlock \<Rightarrow> u32 \<Rightarrow> 'd chain_res" where
  "UpdateUTXO a x sh = map_option (\<lambda>a. (None, closed a (tc_data a)))
     (for_each (exec_tx sh) (unat (tb_TxCnt x)) (tb_TxArray x) a)"

section \<open>Bolt in memory\<close>

text \<open>A store that meets the contract: the buckets as association lists.\<close>

type_synonym mem_db = "string \<Rightarrow> (bytes \<times> bytes) list option"

definition mem_bucket :: "mem_db \<Rightarrow> string \<Rightarrow> (bytes \<times> bytes) list" where
  "mem_bucket d n = (case d n of None \<Rightarrow> [] | Some xs \<Rightarrow> AList.clearjunk xs)"

definition mem_bolt :: "mem_db bolt" where
  "mem_bolt = \<lparr>bk_has = (\<lambda>d n. d n \<noteq> None), bk_create = (\<lambda>d n. d(n \<mapsto> [])), bk_drop = (\<lambda>d n. d(n := None)),
     bk_get = (\<lambda>d n. map_of (mem_bucket d n)),
     bk_put = (\<lambda>d n k v. d(n := map_option (\<lambda>xs. (k, v) # xs) (d n))),
     bk_del = (\<lambda>d n k. d(n := map_option (AList.delete k) (d n))),
     bk_items = mem_bucket, bk_empty = Map.empty\<rparr>"

lemma mem_bolt_ok: "bolt_ok mem_bolt"
  unfolding bolt_ok_def mem_bolt_def mem_bucket_def
  by (auto simp: map_of_clearjunk distinct_clearjunk delete_conv' split: option.splits)

section \<open>Facts about the store\<close>

named_theorems bolt_simps \<open>the operations of a store that meets the contract\<close>

lemma bolt_has [bolt_simps]:
  assumes "bolt_ok B"
  shows "\<not> bk_has B (bk_empty B) n" "bk_has B (bk_create B d n) m \<longleftrightarrow> m = n \<or> bk_has B d m"
    "bk_has B (bk_drop B d n) m \<longleftrightarrow> m \<noteq> n \<and> bk_has B d m" "bk_has B (bk_put B d n k v) m \<longleftrightarrow> bk_has B d m"
    "bk_has B (bk_del B d n k) m \<longleftrightarrow> bk_has B d m"
  using assms by (simp_all add: bolt_ok_def)

lemma bolt_get [bolt_simps]:
  assumes "bolt_ok B"
  shows "\<not> bk_has B d n \<Longrightarrow> bk_get B (bk_create B d n) n k = None"
    "m \<noteq> n \<Longrightarrow> bk_get B (bk_create B d n) m k = bk_get B d m k"
    "m \<noteq> n \<Longrightarrow> bk_get B (bk_drop B d n) m k = bk_get B d m k"
    "bk_has B d n \<Longrightarrow> bk_get B (bk_put B d n k v) m k' = (if m = n \<and> k' = k then Some v else bk_get B d m k')"
    "bk_has B d n \<Longrightarrow> bk_get B (bk_del B d n k) m k' = (if m = n \<and> k' = k then None else bk_get B d m k')"
  using assms by (simp_all add: bolt_ok_def)

lemma bolt_items:
  assumes "bolt_ok B"
  shows "map_of (bk_items B d n) = bk_get B d n" "distinct (map fst (bk_items B d n))"
  using assms by (simp_all add: bolt_ok_def)

lemma bucket_distinct [simp]:
  "TBBucket \<noteq> FBBucket" "FBBucket \<noteq> TBBucket" "TBBucket \<noteq> ACCBucket" "ACCBucket \<noteq> TBBucket"
  "TBBucket \<noteq> TXBucket" "TXBucket \<noteq> TBBucket" "FBBucket \<noteq> ACCBucket" "ACCBucket \<noteq> FBBucket"
  "FBBucket \<noteq> TXBucket" "TXBucket \<noteq> FBBucket" "ACCBucket \<noteq> TXBucket" "TXBucket \<noteq> ACCBucket"
  by (simp_all add: bucket_names)

lemma keyB_eq [simp]: "keyB h = keyB g \<longleftrightarrow> h = g" "keyB h \<noteq> keyXB" "keyXB \<noteq> keyB h"
  by (simp_all add: keyB_def keyXB_def str_bytes_def)

lemma keyBi_eq [simp]: "keyBi i h = keyBi i g \<longleftrightarrow> h = g" "keyBi i h \<noteq> keyXBi j" "keyXBi j \<noteq> keyBi i h"
  by (simp_all add: keyBi_def keyXBi_def str_bytes_def)

lemma keyBi_suffix: "keyBi i h = keyBi j g \<Longrightarrow> h = g"
  using arg_cong [of "keyBi i h" "keyBi j g" "\<lambda>x. drop (length x - 32) x"] by (simp add: keyBi_def)

section \<open>The chain of blocks\<close>

text \<open>A block that can be written to the file and read back.\<close>

definition block_ok :: "TxBlock \<Rightarrow> bool" where
  "block_ok x \<longleftrightarrow> TxBlock_wf 1 x \<and> (\<exists>e. TxBlock_Encode x 1 = Some e \<and> length e < 2 ^ 32)"

definition holds_block :: "'d bolt \<Rightarrow> 'd \<Rightarrow> string \<Rightarrow> bytes \<Rightarrow> TxBlock \<Rightarrow> bool" where
  "holds_block B d n k b \<longleftrightarrow> block_ok b \<and> bk_get B d n k = TxBlock_Encode b 1"

lemma read_block_ok: "block_ok b \<Longrightarrow> TxBlock_Encode b 1 = Some e \<Longrightarrow> read_block (Some e) = Some (Some (TxBlock_view 1 b))"
  using TxBlock_Decode_enc [of 1 b e "[]"] by (auto simp: block_ok_def read_block_def)

definition chain_inv :: "'d bolt \<Rightarrow> 'd TxBlockChain \<Rightarrow> bool" where
  "chain_inv B a \<longleftrightarrow> \<not> tc_open a \<and> length (tc_LastFB a) = unat ShardCnt
     \<and> (\<forall>n \<in> {TBBucket, FBBucket, ACCBucket, TXBucket}. bk_has B (tc_data a) n)
     \<and> (\<exists>b. holds_block B (tc_data a) TBBucket (keyB (tc_LastTB a)) b \<and> tb_HashID b = tc_LastTB a)
     \<and> (\<forall>i < unat ShardCnt. \<exists>b. holds_block B (tc_data a) FBBucket (keyBi (of_nat i) (tc_LastFB a ! i)) b
          \<and> tb_HashID b = tc_LastFB a ! i)"

text \<open>The operations that leave the blocks alone.\<close>

definition same_chain :: "'d bolt \<Rightarrow> 'd TxBlockChain \<Rightarrow> 'd TxBlockChain \<Rightarrow> bool" where
  "same_chain B a a' \<longleftrightarrow> (tc_open a' \<longrightarrow> tc_open a) \<and> tc_LastTB a' = tc_LastTB a \<and> tc_LastFB a' = tc_LastFB a
     \<and> tc_Height a' = tc_Height a \<and> (\<forall>n. bk_has B (tc_data a') n \<longleftrightarrow> bk_has B (tc_data a) n)
     \<and> (\<forall>n k. n \<in> {TBBucket, FBBucket} \<longrightarrow> bk_get B (tc_data a') n k = bk_get B (tc_data a) n k)"

lemma same_chain_inv: "same_chain B a a' \<Longrightarrow> chain_inv B a \<Longrightarrow> chain_inv B a'"
  by (auto simp: same_chain_def chain_inv_def holds_block_def)

lemma same_chain_refl [simp]: "same_chain B a a"
  by (simp add: same_chain_def)

lemma same_chain_trans: "same_chain B a b \<Longrightarrow> same_chain B b c \<Longrightarrow> same_chain B a c"
  by (auto simp: same_chain_def)

lemma same_chain_mem [simp]:
  "same_chain B a (closed a (tc_data a))" "same_chain B a (set_acc k v a)"
  by (simp_all add: same_chain_def closed_def set_acc_def)

lemma same_chain_data:
  assumes "bolt_ok B" and "b_put B n k v d = Some d' \<or> b_del B n k d = Some d'" and "n \<notin> {TBBucket, FBBucket}"
  shows "same_chain B (a\<lparr>tc_data := d\<rparr>) (a\<lparr>tc_data := d'\<rparr>)"
  using assms(2,3) by (auto simp: same_chain_def b_put_def b_del_def bolt_simps assms(1) split: if_splits)

lemma same_chain_cong:
  "tc_open x = tc_open a \<Longrightarrow> tc_LastTB x = tc_LastTB a \<Longrightarrow> tc_LastFB x = tc_LastFB a \<Longrightarrow> tc_Height x = tc_Height a \<Longrightarrow>
   tc_data x = tc_data a \<Longrightarrow> same_chain B x y \<longleftrightarrow> same_chain B a y"
  by (simp add: same_chain_def)

lemma ofold_same_chain:
  "ofold f xs a = Some a' \<Longrightarrow> (\<And>x s t. f x s = Some t \<Longrightarrow> same_chain B s t) \<Longrightarrow> same_chain B a a'"
  by (rule ofold_inv [of f xs a a' "same_chain B a"]) (auto intro: same_chain_trans)

lemma put_block_ok:
  assumes B: "bolt_ok B" and x: "block_ok x" and has: "bk_has B d TBBucket"
  obtains d' where "put_block B x d = Some d'" "\<And>n. bk_has B d' n \<longleftrightarrow> bk_has B d n"
    "\<And>n k. n \<noteq> TBBucket \<Longrightarrow> bk_get B d' n k = bk_get B d n k"
    "\<And>h. h \<noteq> tb_HashID x \<Longrightarrow> bk_get B d' TBBucket (keyB h) = bk_get B d TBBucket (keyB h)"
    "holds_block B d' TBBucket (keyB (tb_HashID x)) x"
proof -
  obtain e where e: "TxBlock_Encode x 1 = Some e" using x by (auto simp: block_ok_def)
  show ?thesis
    by (rule that [of "bk_put B (bk_put B d TBBucket (keyB (tb_HashID x)) e) TBBucket keyXB (be_bytes 32 (tb_HashID x))"])
      (use has x e in \<open>auto simp: put_block_def TxBlock_Serial_def b_put_def bolt_simps B holds_block_def\<close>)
qed

lemma raise_top_sel [simp]:
  "tc_open (raise_top x a) = tc_open a" "tc_data (raise_top x a) = tc_data a"
  "tc_LastFB (raise_top x a) = tc_LastFB a" "tc_AccData (raise_top x a) = tc_AccData a"
  "tc_TXCache (raise_top x a) = tc_TXCache a" "tc_USet (raise_top x a) = tc_USet a"
  "tc_LastTB (raise_top x a) = (if tc_Height a < tb_Height x then tb_HashID x else tc_LastTB a)"
  "tc_Height (raise_top x a) = max (tc_Height a) (tb_Height x)"
  by (auto simp: raise_top_def max_def)

lemma closed_sel [simp]:
  "tc_open (closed a d) = False" "tc_data (closed a d) = d" "tc_LastFB (closed a d) = tc_LastFB a"
  "tc_AccData (closed a d) = tc_AccData a" "tc_TXCache (closed a d) = tc_TXCache a"
  "tc_USet (closed a d) = tc_USet a" "tc_LastTB (closed a d) = tc_LastTB a" "tc_Height (closed a d) = tc_Height a"
  by (simp_all add: closed_def)

lemma set_acc_sel [simp]:
  "tc_open (set_acc k v a) = tc_open a" "tc_data (set_acc k v a) = tc_data a" "tc_LastFB (set_acc k v a) = tc_LastFB a"
  "tc_AccData (set_acc k v a) = (tc_AccData a)(k \<mapsto> v)" "tc_TXCache (set_acc k v a) = tc_TXCache a"
  "tc_USet (set_acc k v a) = tc_USet a" "tc_LastTB (set_acc k v a) = tc_LastTB a" "tc_Height (set_acc k v a) = tc_Height a"
  by (simp_all add: set_acc_def)

lemma put_block_inv:
  assumes "bolt_ok B" and "block_ok x" and inv: "chain_inv B a" and d: "put_block B x (tc_data a) = Some d"
  shows "chain_inv B (raise_top x (closed a d))"
proof -
  have has: "bk_has B (tc_data a) TBBucket" using inv by (simp add: chain_inv_def)
  obtain d' where d': "put_block B x (tc_data a) = Some d'" "\<And>n. bk_has B d' n \<longleftrightarrow> bk_has B (tc_data a) n"
    "\<And>n k. n \<noteq> TBBucket \<Longrightarrow> bk_get B d' n k = bk_get B (tc_data a) n k"
    "\<And>h. h \<noteq> tb_HashID x \<Longrightarrow> bk_get B d' TBBucket (keyB h) = bk_get B (tc_data a) TBBucket (keyB h)"
    "holds_block B d' TBBucket (keyB (tb_HashID x)) x"
    using put_block_ok [OF assms(1,2) has] by metis
  have top: "\<exists>b. holds_block B d TBBucket (keyB (tc_LastTB a)) b \<and> tb_HashID b = tc_LastTB a"
  proof (cases "tc_LastTB a = tb_HashID x")
    case True
    then show ?thesis using d d' by (intro exI [of _ x]) simp
  next
    case False
    then show ?thesis using inv d d' by (auto simp: chain_inv_def holds_block_def)
  qed
  show ?thesis
    using inv top d d' by (auto simp: chain_inv_def holds_block_def)
qed

lemma put_final_keys:
  assumes "bolt_ok B" and "bk_has B d FBBucket"
    and "d' = bk_put B (bk_put B d FBBucket (keyBi i h) e) FBBucket (keyXBi i) v"
  shows "bk_has B d' n \<longleftrightarrow> bk_has B d n" "n \<noteq> FBBucket \<Longrightarrow> bk_get B d' n k = bk_get B d n k"
    "bk_get B d' FBBucket (keyBi j g) = (if keyBi j g = keyBi i h then Some e else bk_get B d FBBucket (keyBi j g))"
  using assms by (auto simp: bolt_simps)

definition finals_ok :: "'d bolt \<Rightarrow> 'd \<Rightarrow> hash list \<Rightarrow> bool" where
  "finals_ok B d l \<longleftrightarrow> (\<forall>i < length l. \<exists>b. holds_block B d FBBucket (keyBi (of_nat i) (l ! i)) b \<and> tb_HashID b = l ! i)"

lemma finals_ok_put:
  assumes "bolt_ok B" and "bk_has B d FBBucket" and "block_ok x" and "TxBlock_Encode x 1 = Some e"
    and "d' = bk_put B (bk_put B d FBBucket (keyBi i (tb_HashID x)) e) FBBucket (keyXBi i) v"
    and "finals_ok B d l" and "length l < 2 ^ 32"
  shows "finals_ok B d' l" "finals_ok B d' (l[unat i := tb_HashID x])"
proof -
  note k = put_final_keys [OF assms(1,2,5)]
  have x: "holds_block B d' FBBucket (keyBi i (tb_HashID x)) x"
    using assms(3,4) by (simp add: holds_block_def k)
  have old: "\<exists>b. holds_block B d' FBBucket (keyBi (of_nat j) (l ! j)) b \<and> tb_HashID b = l ! j" if "j < length l" for j
  proof (cases "keyBi (of_nat j) (l ! j) = keyBi i (tb_HashID x)")
    case True
    with x keyBi_suffix [OF True] show ?thesis by (intro exI [of _ x]) simp
  next
    case False
    with assms(6) that show ?thesis by (auto simp: finals_ok_def holds_block_def k)
  qed
  then show "finals_ok B d' l" by (simp add: finals_ok_def)
  show "finals_ok B d' (l[unat i := tb_HashID x])"
    unfolding finals_ok_def
  proof (intro allI impI)
    fix j assume j: "j < length (l[unat i := tb_HashID x])"
    show "\<exists>b. holds_block B d' FBBucket (keyBi (of_nat j) (l[unat i := tb_HashID x] ! j)) b
        \<and> tb_HashID b = l[unat i := tb_HashID x] ! j"
      using old [of j] j x by (cases "j = unat i") auto
  qed
qed

lemma chain_inv_alt:
  "chain_inv B a \<longleftrightarrow> \<not> tc_open a \<and> length (tc_LastFB a) = unat ShardCnt
     \<and> (\<forall>n \<in> {TBBucket, FBBucket, ACCBucket, TXBucket}. bk_has B (tc_data a) n)
     \<and> (\<exists>b. holds_block B (tc_data a) TBBucket (keyB (tc_LastTB a)) b \<and> tb_HashID b = tc_LastTB a)
     \<and> finals_ok B (tc_data a) (tc_LastFB a)"
  by (auto simp: chain_inv_def finals_ok_def)

lemma final_acc_same: "bolt_ok B \<Longrightarrow> final_acc B x i a = Some a' \<Longrightarrow> same_chain B a a'"
  by (auto simp: final_acc_def same_chain_def b_put_def bolt_simps split: option.splits if_splits)

lemma AddFinalBlock_inv:
  assumes B: "bolt_ok B" and x: "block_ok x" and inv: "chain_inv B a" and r: "AddFinalBlock B a x = Some (r, a')"
  shows "chain_inv B a'"
proof (cases "tb_Kind x = 1")
  case False
  with r inv show ?thesis by (simp add: AddFinalBlock_def)
next
  case True
  obtain e where e: "TxBlock_Encode x 1 = Some e" using x by (auto simp: block_ok_def)
  let ?k = "keyBi (tb_ShardID x) (tb_HashID x)"
  let ?d2 = "bk_put B (bk_put B (tc_data a) FBBucket ?k e) FBBucket (keyXBi (tb_ShardID x)) (be_bytes 32 (tb_HashID x))"
  have has: "bk_has B (tc_data a) FBBucket" and len: "length (tc_LastFB a) < 2 ^ 32"
    using inv by (simp_all add: chain_inv_def ShardCnt_def)
  let ?l = "(tc_LastFB a)[unat (tb_ShardID x) := tb_HashID x]"
  from r True e has obtain d3 where d3: "put_block B x ?d2 = Some d3"
    and rest: "ofold (final_acc B x) [0..<unat (tb_TxCnt x)] ((raise_top x (closed a d3))\<lparr>tc_LastFB := ?l\<rparr>) = Some a'"
    by (auto simp: AddFinalBlock_def TxBlock_Serial_def b_put_def bolt_simps B split: option.splits if_splits)
  note k = put_final_keys [OF B has refl]
  note f = finals_ok_put [OF B has x e refl _ len]
  have "chain_inv B ((closed a ?d2)\<lparr>tc_LastFB := ?l\<rparr>)"
    using inv f(2) by (auto simp: chain_inv_alt holds_block_def k)
  then have "chain_inv B (raise_top x (closed ((closed a ?d2)\<lparr>tc_LastFB := ?l\<rparr>) d3))"
    by (rule put_block_inv [OF B x]) (simp add: d3)
  also have "raise_top x (closed ((closed a ?d2)\<lparr>tc_LastFB := ?l\<rparr>) d3) = (raise_top x (closed a d3))\<lparr>tc_LastFB := ?l\<rparr>"
    by (simp add: raise_top_def closed_def)
  finally have "chain_inv B ((raise_top x (closed a d3))\<lparr>tc_LastFB := ?l\<rparr>)" .
  moreover have "same_chain B ((raise_top x (closed a d3))\<lparr>tc_LastFB := ?l\<rparr>) a'"
    by (rule ofold_same_chain [OF rest]) (rule final_acc_same [OF B])
  ultimately show ?thesis by (blast intro: same_chain_inv)
qed

lemma AddBlock_inv: "bolt_ok B \<Longrightarrow> block_ok x \<Longrightarrow> chain_inv B a \<Longrightarrow> AddBlock B a x = Some (r, a') \<Longrightarrow> chain_inv B a'"
  by (auto simp: AddBlock_def put_block_inv split: if_splits)

lemma AddStartBlock_inv: "bolt_ok B \<Longrightarrow> block_ok x \<Longrightarrow> chain_inv B a \<Longrightarrow> AddStartBlock B a x = Some (r, a') \<Longrightarrow> chain_inv B a'"
  by (auto simp: AddStartBlock_def put_block_inv split: if_splits)

lemma b_put_same: "bolt_ok B \<Longrightarrow> b_put B n k v (tc_data a) = Some d \<Longrightarrow> n \<notin> {TBBucket, FBBucket} \<Longrightarrow> same_chain B a (closed a d)"
  by (auto simp: same_chain_def b_put_def bolt_simps split: if_splits)

lemma b_del_same: "bolt_ok B \<Longrightarrow> b_del B n k (tc_data a) = Some d \<Longrightarrow> n \<notin> {TBBucket, FBBucket} \<Longrightarrow> same_chain B a (closed a d)"
  by (auto simp: same_chain_def b_del_def bolt_simps split: if_splits)

lemma AddTx_same: "bolt_ok B \<Longrightarrow> AddTx B a x = Some (r, a') \<Longrightarrow> same_chain B a a'"
  by (auto simp: AddTx_def b_put_same split: option.splits)

lemma ReqTx_same: "ReqTx B a h = Some (t, a') \<Longrightarrow> same_chain B a a'"
  by (auto simp: ReqTx_def split: option.splits)

lemma same_chain_acc: "same_chain B a b \<Longrightarrow> same_chain B a (b\<lparr>tc_AccData := m\<rparr>)"
  by (simp add: same_chain_def)

lemma AddAccount_same: "bolt_ok B \<Longrightarrow> AddAccount B a x = Some (r, a') \<Longrightarrow> same_chain B a a'"
  by (auto simp: AddAccount_def set_acc_def intro!: same_chain_acc dest: b_put_same b_del_same split: if_splits)

lemma CheckUTXO_same: "CheckUTXO vf B a x h = Some (b, a') \<Longrightarrow> same_chain B a a'"
  by (simp add: CheckUTXO_def InType_Acc_def)

lemma LockUTXO_same: "LockUTXO a x = Some (r, a') \<Longrightarrow> same_chain B a a'"
  by (auto simp: LockUTXO_def InType_Acc_def)

lemma UnlockUTXO_same: "UnlockUTXO B a x = Some (r, a') \<Longrightarrow> same_chain B a a'"
  by (auto simp: UnlockUTXO_def InType_Acc_def)

lemma MakeFinalTx_same: "MakeFinalTx src ks a sh = Some (txs, a') \<Longrightarrow> same_chain B a a'"
  by (auto simp: MakeFinalTx_def)

lemma store_acc_same: "bolt_ok B \<Longrightarrow> ofold (store_acc B a) ks d = Some d' \<Longrightarrow>
    (\<forall>n. bk_has B d' n \<longleftrightarrow> bk_has B d n) \<and> (\<forall>n k. n \<noteq> ACCBucket \<longrightarrow> bk_get B d' n k = bk_get B d n k)"
  by (rule ofold_inv [of "store_acc B a" ks d d'])
     (auto simp: store_acc_def b_put_def b_del_def bolt_simps split: option.splits if_splits)

lemma UpdateAccount_same: "bolt_ok B \<Longrightarrow> UpdateAccount B ks a = Some (r, a') \<Longrightarrow> same_chain B a a'"
  by (auto simp: UpdateAccount_def same_chain_def dest: store_acc_same)

lemma load_acc_same: "load_acc p rows a = Some a' \<Longrightarrow> same_chain B a a'"
  unfolding load_acc_def by (rule ofold_same_chain) (auto split: if_splits)

lemma same_chain_acc0: "same_chain B (a\<lparr>tc_AccData := m\<rparr>) b \<longleftrightarrow> same_chain B a b"
  by (simp add: same_chain_def)

lemma UploadAcc_same: "UploadAcc B a sh = Some (r, a') \<Longrightarrow> same_chain B a a'"
  by (auto simp: UploadAcc_def same_chain_acc0 split: if_splits
      intro: same_chain_trans [OF load_acc_same [unfolded same_chain_acc0]]
      dest!: load_acc_same [where B = B])
     (metis same_chain_acc0 same_chain_mem(1) same_chain_trans)+

lemma UpdateFinal_same:
  assumes "bolt_ok B" and "UpdateFinal B ks a x = Some (r, a')"
  shows "same_chain B a a'"
proof -
  from assms(2) obtain a1 d where a1: "ofold (\<lambda>i a. map_option (\<lambda>out. set_acc (out_Address out) (out_Value out) a) (final_out x i))
      [0..<unat (tb_TxCnt x)] a = Some a1" and d: "ofold (store_acc B a1) ks (tc_data a1) = Some d" and a': "a' = closed a1 d"
    by (auto simp: UpdateFinal_def split: option.splits)
  have "same_chain B a a1" by (rule ofold_same_chain [OF a1]) auto
  moreover have "same_chain B a1 a'" using store_acc_same [OF assms(1) d] by (auto simp: a' same_chain_def)
  ultimately show ?thesis by (rule same_chain_trans)
qed

lemma for_each_same: "for_each f n xs a = Some a' \<Longrightarrow> (\<And>x s t. f x s = Some t \<Longrightarrow> same_chain B s t) \<Longrightarrow> same_chain B a a'"
  unfolding for_each_def by (rule ofold_same_chain) (auto split: option.splits)

lemma exec_tx_same: "exec_tx sh t a = Some a' \<Longrightarrow> same_chain B a a'"
proof -
  assume "exec_tx sh t a = Some a'"
  then obtain a1 where a1: "for_each (\<lambda>i s. Some (spend_in (tc_TXCache a (tx_Hash t) \<noteq> None) sh i s))
      (unat (tx_TxinCnt t)) (tx_In t) a = Some a1"
    and a2: "for_each (\<lambda>out s. Some (pay_out sh out s)) (unat (tx_TxoutCnt t)) (tx_Out t) a1 = Some a'"
    by (auto simp: exec_tx_def split: option.splits)
  have "same_chain B a a1" by (rule for_each_same [OF a1]) (auto simp: spend_in_def split: option.splits if_splits)
  moreover have "same_chain B a1 a'" by (rule for_each_same [OF a2]) (auto simp: pay_out_def split: option.splits if_splits)
  ultimately show ?thesis by (rule same_chain_trans)
qed

lemma UpdateUTXO_same: "UpdateUTXO a x sh = Some (r, a') \<Longrightarrow> same_chain B a a'"
  by (auto simp: UpdateUTXO_def intro: same_chain_trans [OF for_each_same [OF _ exec_tx_same]])

lemma ClearTx_err: "bolt_ok B \<Longrightarrow> bk_has B (tc_data a) TXBucket \<Longrightarrow>
    ClearTx B a = Some (Some (Msg ''bucket already exists''), closed a (tc_data a))"
  by (simp add: ClearTx_def create_bucket_def drop_bucket_def bolt_simps)

section \<open>The database as a state machine\<close>

text \<open>One step is one operation of the database, in any order, with any arguments; the blocks
  handed to it can be encoded.\<close>

inductive chain_step :: "verifier \<Rightarrow> 'd bolt \<Rightarrow> 'd TxBlockChain \<Rightarrow> 'd TxBlockChain \<Rightarrow> bool" for vf B where
  add_block: "block_ok x \<Longrightarrow> AddBlock B a x = Some (r, a') \<Longrightarrow> chain_step vf B a a'"
| add_final: "block_ok x \<Longrightarrow> AddFinalBlock B a x = Some (r, a') \<Longrightarrow> chain_step vf B a a'"
| add_start: "block_ok x \<Longrightarrow> AddStartBlock B a x = Some (r, a') \<Longrightarrow> chain_step vf B a a'"
| add_tx: "AddTx B a t = Some (r, a') \<Longrightarrow> chain_step vf B a a'"
| req_tx: "ReqTx B a h = Some (t, a') \<Longrightarrow> chain_step vf B a a'"
| clear_tx: "ClearTx B a = Some (r, a') \<Longrightarrow> chain_step vf B a a'"
| add_account: "AddAccount B a c = Some (r, a') \<Longrightarrow> chain_step vf B a a'"
| check: "CheckUTXO vf B a i h = Some (b, a') \<Longrightarrow> chain_step vf B a a'"
| lock: "LockUTXO a i = Some (r, a') \<Longrightarrow> chain_step vf B a a'"
| unlock: "UnlockUTXO B a i = Some (r, a') \<Longrightarrow> chain_step vf B a a'"
| make_final: "MakeFinalTx src ks a sh = Some (txs, a') \<Longrightarrow> chain_step vf B a a'"
| update_final: "UpdateFinal B ks a x = Some (r, a') \<Longrightarrow> chain_step vf B a a'"
| upload: "UploadAcc B a sh = Some (r, a') \<Longrightarrow> chain_step vf B a a'"
| update_account: "UpdateAccount B ks a = Some (r, a') \<Longrightarrow> chain_step vf B a a'"
| update_utxo: "UpdateUTXO a x sh = Some (r, a') \<Longrightarrow> chain_step vf B a a'"

inductive_cases chain_stepE: "chain_step vf B a a'"

inductive chain_reach :: "verifier \<Rightarrow> 'd bolt \<Rightarrow> 'd TxBlockChain \<Rightarrow> bool" for vf B where
  created: "length (tc_LastFB a) = unat ShardCnt \<Longrightarrow> CreateNewBlockchain B a = Some (None, a') \<Longrightarrow> chain_reach vf B a'"
| stepped: "chain_reach vf B a \<Longrightarrow> chain_step vf B a a' \<Longrightarrow> chain_reach vf B a'"

lemma genesis_wf: "TxBlock_wf 1 NewGensisTxBlock" "TxBlock_wf 1 (NewGensisFinalTxBlock i)"
  by (simp_all add: TxBlock_wf_def NewGensisTxBlock_def NewGensisFinalTxBlock_def TxBlock_zero_def enc_signed_def)

lemma genesis_enc:
  "TxBlock_Encode NewGensisTxBlock 1 = Some (TxBlock_hdr NewGensisTxBlock)"
  "TxBlock_Encode (NewGensisFinalTxBlock i) 1 = Some (TxBlock_hdr (NewGensisFinalTxBlock i) @ TxBlock_fin (NewGensisFinalTxBlock i))"
  by (simp_all add: TxBlock_Encode_def TxBlock_hdr_def TxBlock_fin_def for_upto_def NewGensisTxBlock_def
      NewGensisFinalTxBlock_def TxBlock_zero_def enc_signed_def)

lemma genesis_kind [simp]: "tb_Kind (NewGensisFinalTxBlock i) = 1"
  by (simp add: NewGensisFinalTxBlock_def)

lemma genesis_ok: "block_ok NewGensisTxBlock" "block_ok (NewGensisFinalTxBlock i)"
  by (simp_all add: block_ok_def genesis_wf genesis_enc TxBlock_hdr_def TxBlock_fin_def)

lemma shards_eq: "shards = [0]"
  by (simp add: shards_def ShardCnt_def)

lemma CreateNewBlockchain_inv:
  assumes B: "bolt_ok B" and len: "length (tc_LastFB a) = unat ShardCnt" and r: "CreateNewBlockchain B a = Some (e, a')"
  shows "chain_inv B a' \<and> e = None \<and> tc_LastTB a' = genesis_hash \<and> tc_Height a' = 0 \<and> tc_AccData a' = Map.empty"
proof -
  have l1: "length (tc_LastFB a) = 1" using len by (simp add: ShardCnt_def)
  have d: "e = None \<and> \<not> tc_open a' \<and> tc_LastFB a' = [tb_HashID (NewGensisFinalTxBlock 0)] \<and>
     tc_LastTB a' = tb_HashID NewGensisTxBlock \<and> tc_Height a' = 0 \<and> tc_AccData a' = Map.empty \<and>
     (\<forall>n \<in> {TBBucket, FBBucket, ACCBucket, TXBucket}. bk_has B (tc_data a') n) \<and>
     bk_get B (tc_data a') TBBucket (keyB (tb_HashID NewGensisTxBlock)) = Some (TxBlock_hdr NewGensisTxBlock) \<and>
     bk_get B (tc_data a') FBBucket (keyBi 0 (tb_HashID (NewGensisFinalTxBlock 0)))
       = Some (TxBlock_hdr (NewGensisFinalTxBlock 0) @ TxBlock_fin (NewGensisFinalTxBlock 0))"
    using r l1 by (auto simp: CreateNewBlockchain_def put_genesis_def put_final_genesis_def shards_eq Let_def
        create_bucket_def b_put_def bolt_simps B genesis_enc list_update_nonempty length_Suc_conv
        split: if_splits option.splits)
  moreover have "holds_block B (tc_data a') TBBucket (keyB (tb_HashID NewGensisTxBlock)) NewGensisTxBlock"
    "holds_block B (tc_data a') FBBucket (keyBi 0 (tb_HashID (NewGensisFinalTxBlock 0))) (NewGensisFinalTxBlock 0)"
    using d genesis_ok by (simp_all add: holds_block_def genesis_enc)
  ultimately show ?thesis
    by (auto simp: chain_inv_def ShardCnt_def NewGensisTxBlock_def)
qed

lemma CreateNewBlockchain_total:
  assumes B: "bolt_ok B" and len: "length (tc_LastFB a) = unat ShardCnt"
  shows "\<exists>a'. CreateNewBlockchain B a = Some (None, a')"
  using len by (auto simp: CreateNewBlockchain_def put_genesis_def put_final_genesis_def shards_eq Let_def
      create_bucket_def b_put_def bolt_simps B genesis_enc put_idx_def ShardCnt_def)

lemma chain_step_inv:
  assumes "bolt_ok B" and "chain_step vf B a a'" and inv: "chain_inv B a"
  shows "chain_inv B a'"
  using assms(2)
proof cases
  case clear_tx
  have "bk_has B (tc_data a) TXBucket" using inv by (simp add: chain_inv_def)
  with clear_tx ClearTx_err [OF assms(1)] inv show ?thesis
    by (auto intro: same_chain_inv [OF same_chain_mem(1)])
qed (use assms(1) inv in \<open>blast intro: AddBlock_inv AddFinalBlock_inv AddStartBlock_inv same_chain_inv
    AddTx_same ReqTx_same AddAccount_same CheckUTXO_same LockUTXO_same UnlockUTXO_same MakeFinalTx_same
    UpdateFinal_same UploadAcc_same UpdateAccount_same UpdateUTXO_same\<close>)+

lemma chain_reach_inv: "chain_reach vf B a \<Longrightarrow> bolt_ok B \<Longrightarrow> chain_inv B a"
  by (induction rule: chain_reach.induct) (auto dest: CreateNewBlockchain_inv chain_step_inv)

lemma latest_read:
  assumes "holds_block B (tc_data a) TBBucket (keyB (tc_LastTB a)) b" and "bk_has B (tc_data a) TBBucket"
  shows "LatestTxBlock B a = Some (Some (TxBlock_view 1 b))"
proof -
  obtain e where "TxBlock_Encode b 1 = Some e" using assms(1) by (auto simp: holds_block_def block_ok_def)
  with assms show ?thesis by (auto simp: holds_block_def LatestTxBlock_def b_get_def read_block_ok)
qed

lemma latest_final_read:
  assumes "holds_block B (tc_data a) FBBucket (keyBi i (tc_LastFB a ! unat i)) b" and "bk_has B (tc_data a) FBBucket"
    and "unat i < length (tc_LastFB a)"
  shows "LatestFinalTxBlock B a i = Some (Some (TxBlock_view 1 b))"
proof -
  obtain e where "TxBlock_Encode b 1 = Some e" using assms(1) by (auto simp: holds_block_def block_ok_def)
  with assms show ?thesis by (auto simp: holds_block_def LatestFinalTxBlock_def b_get_def read_block_ok idx_def)
qed

section \<open>The value of all accounts\<close>


lemma balance_set [simp]: "balance (set_acc k v a) j = (if j = k then v else balance a j)"
  by (simp add: balance_def)


lemma ofold_cong: "(\<And>x s. x \<in> set xs \<Longrightarrow> f x s = g x s) \<Longrightarrow> ofold f xs s = ofold g xs s"
  by (induction xs arbitrary: s) (auto split: option.splits)

lemma for_each_all: "n = length xs \<Longrightarrow> for_each f n xs s = ofold f xs s"
proof (induction xs arbitrary: n rule: rev_induct)
  case Nil
  then show ?case by (simp add: for_each_def)
next
  case (snoc x xs)
  have "ofold (\<lambda>i s. case idx (xs @ [x]) i of None \<Rightarrow> None | Some x \<Rightarrow> f x s) [0..<length xs] s = for_each f (length xs) xs s"
    unfolding for_each_def by (rule ofold_cong) (simp add: idx_def nth_append)
  with snoc show ?case
    by (simp add: for_each_def [of _ _ "xs @ [x]"] ofold_append idx_def split: option.splits)
qed








section \<open>Final blocks carry the accounts of a shard\<close>

lemma final_tx_ok: "\<exists>t. final_tx tr k v = Some t \<and> tx_Out t = [\<lparr>out_Value = v, out_Address = k\<rparr>] \<and> Transaction_wf t"
proof -
  let ?t = "AddOut (AddIn (Transaction_New Transaction_zero (fst tr) (snd tr) 1 0)
    \<lparr>in_PrevTx = k, in_Index = v, in_Sig = \<lparr>sig_R = Some 0, sig_S = Some 0\<rparr>, in_PukX = Some 0, in_PukY = Some 0\<rparr>)
    \<lparr>out_Value = v, out_Address = k\<rparr>"
  have w: "Transaction_wf ?t" and o: "tx_Out ?t = [\<lparr>out_Value = v, out_Address = k\<rparr>]"
    by (simp_all add: Transaction_wf_def Transaction_New_def Transaction_zero_def AddIn_def AddOut_def
        InType_wf_def RCSign_wf_def)
  obtain m where "HashTx_data ?t = Some m" using HashTx_data_some [OF Transaction_wf_cnt [OF w]] by blast
  with w o show ?thesis by (simp add: final_tx_def Let_def HashTx_def Transaction_wf_def)
qed

definition final_keys :: "'d TxBlockChain \<Rightarrow> u32 \<Rightarrow> hash list \<Rightarrow> hash list" where
  "final_keys a sh ks = filter (\<lambda>k. k \<in> dom (tc_AccData a) \<and> ShardIndex k = sh) ks"

lemma MakeFinalTx_ok:
  "\<exists>txs. MakeFinalTx src ks a sh = Some (txs, closed a (tc_data a)) \<and> list_all Transaction_wf txs
     \<and> map tx_Out txs = map (\<lambda>k. [\<lparr>out_Value = balance a k, out_Address = k\<rparr>]) (final_keys a sh ks)"
proof -
  have "\<exists>txs. ofold (\<lambda>k res. case tc_AccData a k of None \<Rightarrow> Some res
          | Some v \<Rightarrow> if ShardIndex k = sh then map_option (\<lambda>t. res @ [t]) (final_tx (src k) k v) else Some res)
        ks res = Some (res @ txs) \<and> list_all Transaction_wf txs
     \<and> map tx_Out txs = map (\<lambda>k. [\<lparr>out_Value = balance a k, out_Address = k\<rparr>]) (final_keys a sh ks)" for res
  proof (induction ks arbitrary: res)
    case Nil
    then show ?case by (simp add: final_keys_def)
  next
    case (Cons k ks)
    show ?case
    proof (cases "k \<in> dom (tc_AccData a) \<and> ShardIndex k = sh")
      case False
      then show ?thesis using Cons.IH [of res] by (auto simp: final_keys_def split: option.splits)
    next
      case True
      then obtain v where v: "tc_AccData a k = Some v" by blast
      obtain t where t: "final_tx (src k) k v = Some t" "tx_Out t = [\<lparr>out_Value = v, out_Address = k\<rparr>]" "Transaction_wf t"
        using final_tx_ok by blast
      obtain txs where x: "ofold (\<lambda>k res. case tc_AccData a k of None \<Rightarrow> Some res
          | Some v \<Rightarrow> if ShardIndex k = sh then map_option (\<lambda>t. res @ [t]) (final_tx (src k) k v) else Some res)
        ks (res @ [t]) = Some ((res @ [t]) @ txs)" "list_all Transaction_wf txs"
        "map tx_Out txs = map (\<lambda>k. [\<lparr>out_Value = balance a k, out_Address = k\<rparr>]) (final_keys a sh ks)"
        using Cons.IH [of "res @ [t]"] by blast
      show ?thesis
        by (rule exI [of _ "t # txs"]) (use True v t x in \<open>simp add: final_keys_def balance_def\<close>)
    qed
  qed
  from this [of "[]"] show ?thesis by (auto simp: MakeFinalTx_def)
qed

text \<open>The accounts after the loop over the transactions of a final block.\<close>

definition final_rows :: "Transaction list \<Rightarrow> (hash \<times> u32) list" where
  "final_rows txs = map (\<lambda>t. (out_Address (hd (tx_Out t)), out_Value (hd (tx_Out t)))) txs"

lemma final_accs:
  assumes B: "bolt_ok B" and "list_all (\<lambda>t. tx_Out t \<noteq> []) (tb_TxArray x)" and "bk_has B (tc_data s) ACCBucket"
  shows "\<exists>s'. ofold (final_acc B x) [0..<length (tb_TxArray x)] s = Some s'
    \<and> tc_AccData s' = tc_AccData s ++ map_of (rev (final_rows (tb_TxArray x)))"
proof -
  let ?f = "\<lambda>t s. case idx (tx_Out t) 0 of None \<Rightarrow> None
      | Some out \<Rightarrow> map_option (\<lambda>d. set_acc (out_Address out) (out_Value out) (s\<lparr>tc_data := d\<rparr>))
          (b_put B ACCBucket (be_bytes 32 (out_Address out)) (append_or_drop (EncodeInt (VU32 (out_Value out)))) (tc_data s))"
  have "ofold (final_acc B x) [0..<length (tb_TxArray x)] s = for_each ?f (length (tb_TxArray x)) (tb_TxArray x) s"
    unfolding for_each_def by (rule ofold_cong) (simp add: final_acc_def final_out_def idx_def)
  also have "\<dots> = ofold ?f (tb_TxArray x) s" by (simp add: for_each_all)
  finally have o: "ofold (final_acc B x) [0..<length (tb_TxArray x)] s = ofold ?f (tb_TxArray x) s" .
  have "\<exists>s'. ofold ?f txs s = Some s' \<and> tc_AccData s' = tc_AccData s ++ map_of (rev (final_rows txs))"
    if "list_all (\<lambda>t. tx_Out t \<noteq> []) txs" "bk_has B (tc_data s) ACCBucket" for txs
    using that
  proof (induction txs arbitrary: s)
    case Nil
    then show ?case by (simp add: final_rows_def)
  next
    case (Cons t txs)
    then obtain out os where out: "tx_Out t = out # os" by (auto simp: neq_Nil_conv)
    let ?s = "set_acc (out_Address out) (out_Value out) (s\<lparr>tc_data := bk_put B (tc_data s) ACCBucket
        (be_bytes 32 (out_Address out)) (le_bytes 4 (out_Value out))\<rparr>)"
    have f: "?f t s = Some ?s" using Cons.prems(2) out by (simp add: idx_def b_put_def append_or_drop_def)
    have "bk_has B (tc_data ?s) ACCBucket" using Cons.prems by (simp add: bolt_simps B)
    then obtain s' where "ofold ?f txs ?s = Some s'" "tc_AccData s' = tc_AccData ?s ++ map_of (rev (final_rows txs))"
      using Cons.IH [of ?s] Cons.prems(1) unfolding list.pred_inject(2) by blast
    with f out show ?case by (simp add: final_rows_def map_add_def fun_eq_iff split: option.splits)
  qed
  with o assms(2,3) show ?thesis by simp
qed

lemma AddFinalBlock_accounts:
  assumes B: "bolt_ok B" and inv: "chain_inv B b" and x: "block_ok x" "tb_Kind x = 1"
    "unat (tb_ShardID x) < unat ShardCnt" and outs: "list_all (\<lambda>t. tx_Out t \<noteq> []) (tb_TxArray x)"
  shows "\<exists>b'. AddFinalBlock B b x = Some (None, b')
    \<and> tc_AccData b' = tc_AccData b ++ map_of (rev (final_rows (tb_TxArray x)))"
proof -
  obtain e where e: "TxBlock_Encode x 1 = Some e" using x by (auto simp: block_ok_def)
  let ?d2 = "bk_put B (bk_put B (tc_data b) FBBucket (keyBi (tb_ShardID x) (tb_HashID x)) e) FBBucket
    (keyXBi (tb_ShardID x)) (be_bytes 32 (tb_HashID x))"
  have has: "bk_has B ?d2 TBBucket" "bk_has B (tc_data b) FBBucket" "bk_has B ?d2 ACCBucket"
    using inv by (simp_all add: chain_inv_def bolt_simps B)
  obtain d3 where d3: "put_block B x ?d2 = Some d3" "\<And>n. bk_has B d3 n \<longleftrightarrow> bk_has B ?d2 n"
    using put_block_ok [OF B x(1) has(1)] by metis
  have cnt: "unat (tb_TxCnt x) = length (tb_TxArray x)" using x(1) by (simp add: block_ok_def TxBlock_wf_def)
  let ?s = "(raise_top x (closed b d3))\<lparr>tc_LastFB := (tc_LastFB b)[unat (tb_ShardID x) := tb_HashID x]\<rparr>"
  have "bk_has B (tc_data ?s) ACCBucket" using d3 has by simp
  from final_accs [OF B outs this] obtain s' where s': "ofold (final_acc B x) [0..<length (tb_TxArray x)] ?s = Some s'"
    "tc_AccData s' = tc_AccData ?s ++ map_of (rev (final_rows (tb_TxArray x)))" by blast
  have "AddFinalBlock B b x = Some (None, s')"
    using x e has(2) d3(1) s'(1) inv cnt
    by (simp add: AddFinalBlock_def TxBlock_Serial_def b_put_def bolt_simps B chain_inv_def put_idx_def)
  with s' show ?thesis by simp
qed

section \<open>Accounts in the file\<close>

definition acc_rows :: "'d bolt \<Rightarrow> 'd \<Rightarrow> bool" where
  "acc_rows B d \<longleftrightarrow> (\<forall>k v. bk_get B d ACCBucket k = Some v \<longrightarrow> length k = 32 \<and> length v = 4)"

lemma acc_rows_put: "bolt_ok B \<Longrightarrow> acc_rows B d \<Longrightarrow> b_put B ACCBucket (be_bytes 32 (k :: hash)) (le_bytes 4 (v :: u32)) d = Some d' \<Longrightarrow> acc_rows B d'"
  by (auto simp: acc_rows_def b_put_def bolt_simps split: if_splits)

lemma acc_rows_del: "bolt_ok B \<Longrightarrow> acc_rows B d \<Longrightarrow> b_del B ACCBucket k d = Some d' \<Longrightarrow> acc_rows B d'"
  by (auto simp: acc_rows_def b_del_def bolt_simps split: if_splits)

lemma acc_rows_other: "bolt_ok B \<Longrightarrow> acc_rows B d \<Longrightarrow> b_put B n k v d = Some d' \<Longrightarrow> n \<noteq> ACCBucket \<Longrightarrow> acc_rows B d'"
  by (auto simp: acc_rows_def b_put_def bolt_simps split: if_splits)

lemma acc_rows_put_block: "bolt_ok B \<Longrightarrow> acc_rows B d \<Longrightarrow> put_block B x d = Some d' \<Longrightarrow> acc_rows B d'"
  by (auto simp: put_block_def split: option.splits) (metis acc_rows_other bucket_distinct(3))

lemma acc_rows_store: "bolt_ok B \<Longrightarrow> acc_rows B d \<Longrightarrow> ofold (store_acc B a) ks d = Some d' \<Longrightarrow> acc_rows B d'"
  by (rule ofold_inv [of "store_acc B a" ks d d'])
     (auto simp: store_acc_def append_or_drop_def dest: acc_rows_put acc_rows_del split: option.splits if_splits)

lemma acc_rows_final: "bolt_ok B \<Longrightarrow> acc_rows B (tc_data a) \<Longrightarrow> ofold (final_acc B x) is a = Some a' \<Longrightarrow> acc_rows B (tc_data a')"
  by (rule ofold_inv [of "final_acc B x" "is" a a' "\<lambda>a. acc_rows B (tc_data a)"])
     (auto simp: final_acc_def append_or_drop_def dest: acc_rows_put split: option.splits)

lemma acc_rows_AddFinalBlock:
  assumes B: "bolt_ok B" and "acc_rows B (tc_data a)" and "AddFinalBlock B a x = Some (r, a')"
  shows "acc_rows B (tc_data a')"
proof (cases "tb_Kind x = 1")
  case True
  with assms(3) obtain e d1 d2 d3 l where "b_put B FBBucket (keyBi (tb_ShardID x) (tb_HashID x)) e (tc_data a) = Some d1"
    "b_put B FBBucket (keyXBi (tb_ShardID x)) (be_bytes 32 (tb_HashID x)) d1 = Some d2" "put_block B x d2 = Some d3"
    and a': "ofold (final_acc B x) [0..<unat (tb_TxCnt x)] ((raise_top x (closed a d3))\<lparr>tc_LastFB := l\<rparr>) = Some a'"
    by (auto simp: AddFinalBlock_def split: option.splits)
  then have "acc_rows B d3"
    using assms(2) by (meson B acc_rows_other acc_rows_put_block bucket_distinct(7))
  then show ?thesis by (intro acc_rows_final [OF B _ a']) simp
next
  case False
  with assms show ?thesis by (simp add: AddFinalBlock_def)
qed

lemma step_data:
  "LockUTXO a i = Some (r, a') \<Longrightarrow> tc_data a' = tc_data a"
  "UnlockUTXO B a i = Some (r, a') \<Longrightarrow> tc_data a' = tc_data a"
  "CheckUTXO vf B a i h = Some (b, a') \<Longrightarrow> tc_data a' = tc_data a"
  "MakeFinalTx src ks a sh = Some (txs, a') \<Longrightarrow> tc_data a' = tc_data a"
  "ReqTx B a h = Some (t, a') \<Longrightarrow> tc_data a' = tc_data a"
  by (auto simp: LockUTXO_def UnlockUTXO_def CheckUTXO_def InType_Acc_def MakeFinalTx_def ReqTx_def split: option.splits)

lemma ofold_data:
  "ofold f xs a = Some a' \<Longrightarrow> (\<And>x s t. f x s = Some t \<Longrightarrow> tc_data t = tc_data s) \<Longrightarrow> tc_data a' = tc_data a"
  by (rule ofold_inv [of f xs a a' "\<lambda>s. tc_data s = tc_data a"]) auto

lemma load_acc_data: "load_acc p rows a = Some a' \<Longrightarrow> tc_data a' = tc_data a"
  unfolding load_acc_def by (rule ofold_data) (auto split: if_splits)

lemma for_each_data:
  "for_each f n xs a = Some a' \<Longrightarrow> (\<And>x s t. f x s = Some t \<Longrightarrow> tc_data t = tc_data s) \<Longrightarrow> tc_data a' = tc_data a"
  unfolding for_each_def by (rule ofold_data) (auto split: option.splits)

lemma exec_tx_data:
  assumes "exec_tx sh t a = Some a'"
  shows "tc_data a' = tc_data a"
proof -
  from assms obtain a1 where a1: "for_each (\<lambda>i s. Some (spend_in (tc_TXCache a (tx_Hash t) \<noteq> None) sh i s))
      (unat (tx_TxinCnt t)) (tx_In t) a = Some a1"
    and a2: "for_each (\<lambda>out s. Some (pay_out sh out s)) (unat (tx_TxoutCnt t)) (tx_Out t) a1 = Some a'"
    by (auto simp: exec_tx_def split: option.splits)
  have "tc_data a1 = tc_data a" by (rule for_each_data [OF a1]) (auto simp: spend_in_def split: option.splits if_splits)
  moreover have "tc_data a' = tc_data a1" by (rule for_each_data [OF a2]) (auto simp: pay_out_def split: option.splits if_splits)
  ultimately show ?thesis by simp
qed

lemma UpdateUTXO_data: "UpdateUTXO a x sh = Some (r, a') \<Longrightarrow> tc_data a' = tc_data a"
  by (auto simp: UpdateUTXO_def dest: for_each_data [OF _ exec_tx_data])

lemma UploadAcc_data: "UploadAcc B a sh = Some (r, a') \<Longrightarrow> tc_data a' = tc_data a"
  by (auto simp: UploadAcc_def split: if_splits dest: load_acc_data)

lemma UpdateFinal_rows: "bolt_ok B \<Longrightarrow> acc_rows B (tc_data a) \<Longrightarrow> UpdateFinal B ks a x = Some (r, a') \<Longrightarrow> acc_rows B (tc_data a')"
proof -
  assume B: "bolt_ok B" and r: "acc_rows B (tc_data a)" and u: "UpdateFinal B ks a x = Some (r, a')"
  then obtain a1 d where a1: "ofold (\<lambda>i a. map_option (\<lambda>out. set_acc (out_Address out) (out_Value out) a) (final_out x i))
      [0..<unat (tb_TxCnt x)] a = Some a1" and d: "ofold (store_acc B a1) ks (tc_data a1) = Some d" and a': "a' = closed a1 d"
    by (auto simp: UpdateFinal_def split: option.splits)
  have "tc_data a1 = tc_data a" by (rule ofold_data [OF a1]) auto
  with acc_rows_store [OF B _ d] r a' show "acc_rows B (tc_data a')" by simp
qed

lemma chain_step_rows:
  assumes B: "bolt_ok B" and "chain_step vf B a a'" and inv: "chain_inv B a" and r: "acc_rows B (tc_data a)"
  shows "acc_rows B (tc_data a')"
  using assms(2)
proof cases
  case add_block
  then show ?thesis using B r by (auto simp: AddBlock_def acc_rows_put_block split: if_splits)
next
  case add_final
  then show ?thesis using acc_rows_AddFinalBlock B r by blast
next
  case add_start
  then show ?thesis using B r by (auto simp: AddStartBlock_def acc_rows_put_block split: if_splits)
next
  case add_tx
  then show ?thesis using B r by (auto simp: AddTx_def intro: acc_rows_other split: option.splits)
next
  case clear_tx
  have "bk_has B (tc_data a) TXBucket" using inv by (simp add: chain_inv_def)
  then show ?thesis using ClearTx_err [OF B] clear_tx r by auto
next
  case add_account
  then show ?thesis using B r
    by (auto simp: AddAccount_def append_or_drop_def dest: acc_rows_put acc_rows_del split: if_splits)
next
  case update_final
  then show ?thesis using UpdateFinal_rows B r by blast
next
  case update_account
  then show ?thesis using B r by (auto simp: UpdateAccount_def dest: acc_rows_store)
qed (use r in \<open>auto dest!: step_data UpdateUTXO_data UploadAcc_data\<close>)

lemma CreateNewBlockchain_rows:
  assumes B: "bolt_ok B" and r: "CreateNewBlockchain B a = Some (e, a')" and l: "length (tc_LastFB a) = unat ShardCnt"
  shows "acc_rows B (tc_data a')"
  using r l by (auto simp: CreateNewBlockchain_def put_genesis_def put_final_genesis_def shards_eq Let_def ShardCnt_def
      create_bucket_def b_put_def bolt_simps B genesis_enc acc_rows_def split: if_splits option.splits)

lemma chain_reach_rows: "chain_reach vf B a \<Longrightarrow> bolt_ok B \<Longrightarrow> acc_rows B (tc_data a)"
  by (induction rule: chain_reach.induct) (auto dest: CreateNewBlockchain_rows chain_step_rows chain_reach_inv)

lemma load_acc_ok:
  assumes "\<forall>(k, v) \<in> set rows. length k = 32 \<and> length v = 4" and "distinct (map fst rows)"
  shows "\<exists>a'. load_acc p rows a = Some a' \<and> tc_AccData a' = (\<lambda>k. if p k
    then (case map_of rows (be_bytes 32 k) of None \<Rightarrow> tc_AccData a k | Some v \<Rightarrow> Some (le_word v)) else tc_AccData a k)"
  using assms
proof (induction rows arbitrary: a)
  case Nil
  then show ?case by (auto simp: load_acc_def)
next
  case (Cons r rows)
  obtain kb vb where r: "r = (kb, vb)" by fastforce
  with Cons.prems have len: "length kb = 32" "length vb = 4" and fresh: "map_of rows kb = None"
    by (auto simp: map_of_eq_None_iff)
  let ?k = "be_word kb :: hash" and ?b = "\<lambda>a. if p (be_word kb) then set_acc (be_word kb) (le_word vb) a else a"
  have kb: "be_bytes 32 ?k = kb" using be_bytes_word [of kb, where 'a = 256] len by simp
  have "read_acc r = Some \<lparr>acc_ID = ?k, acc_Value = le_word vb\<rparr>"
    using len by (simp add: read_acc_def r Decode_u32_small)
  then have step: "load_acc p (r # rows) a = load_acc p rows (?b a)"
    by (simp add: load_acc_def)
  obtain a' where a': "load_acc p rows (?b a) = Some a'" "tc_AccData a' = (\<lambda>k. if p k
    then (case map_of rows (be_bytes 32 k) of None \<Rightarrow> tc_AccData (?b a) k | Some v \<Rightarrow> Some (le_word v)) else tc_AccData (?b a) k)"
    using Cons.IH [of "?b a"] Cons.prems by auto
  have b: "tc_AccData (?b a) k = (if p k \<and> be_bytes 32 k = kb then Some (le_word vb) else tc_AccData a k)" for k
    using kb by auto
  have "tc_AccData a' = (\<lambda>k. if p k then (case map_of (r # rows) (be_bytes 32 k) of None \<Rightarrow> tc_AccData a k
      | Some v \<Rightarrow> Some (le_word v)) else tc_AccData a k)"
    unfolding a'(2) b r using fresh by (auto simp: fun_eq_iff split: option.splits)
  then show ?case using a'(1) step by auto
qed

lemma store_accs_ok:
  assumes B: "bolt_ok B" and "bk_has B d ACCBucket"
  shows "\<exists>d'. ofold (store_acc B a) ks d = Some d' \<and> bk_has B d' ACCBucket \<and> (\<forall>k. bk_get B d' ACCBucket (be_bytes 32 k) =
    (if k \<in> set ks \<and> k \<in> dom (tc_AccData a)
     then (if balance a k = 0 then None else Some (le_bytes 4 (balance a k)))
     else bk_get B d ACCBucket (be_bytes 32 k)))"
  using assms(2)
proof (induction ks arbitrary: d)
  case (Cons x ks)
  show ?case
  proof (cases "tc_AccData a x")
    case None
    then show ?thesis using Cons.IH [OF Cons.prems] by (auto simp: store_acc_def)
  next
    case (Some v)
    let ?d = "if v = 0 then bk_del B d ACCBucket (be_bytes 32 x) else bk_put B d ACCBucket (be_bytes 32 x) (le_bytes 4 v)"
    have s: "store_acc B a x d = Some ?d" "balance a x = v"
      using Some Cons.prems by (simp_all add: store_acc_def b_put_def b_del_def append_or_drop_def balance_def)
    have has: "bk_has B ?d ACCBucket" using Cons.prems by (simp add: bolt_simps B)
    obtain d' where d': "ofold (store_acc B a) ks ?d = Some d'" "bk_has B d' ACCBucket"
      "\<And>k. bk_get B d' ACCBucket (be_bytes 32 k) = (if k \<in> set ks \<and> k \<in> dom (tc_AccData a)
        then (if balance a k = 0 then None else Some (le_bytes 4 (balance a k))) else bk_get B ?d ACCBucket (be_bytes 32 k))"
      using Cons.IH [OF has] by blast
    show ?thesis
      by (rule exI [of _ d']) (use d' s Some Cons.prems in \<open>auto simp: bolt_simps B\<close>)
  qed
qed simp

lemma final_rows_map:
  assumes "map tx_Out txs = map (\<lambda>k. [\<lparr>out_Value = f k, out_Address = k\<rparr>]) ks" and "distinct ks"
  shows "map_of (rev (final_rows txs)) = (\<lambda>k. if k \<in> set ks then Some (f k) else None)"
    and "list_all (\<lambda>t. tx_Out t \<noteq> []) txs"
proof -
  have "final_rows txs = map (\<lambda>o'. (out_Address (hd o'), out_Value (hd o'))) (map tx_Out txs)"
    by (simp add: final_rows_def o_def)
  then have "final_rows txs = map (\<lambda>k. (k, f k)) ks" unfolding assms(1) by (simp add: o_def)
  then have "map_of (rev (final_rows txs)) = map_of (map (\<lambda>k. (k, f k)) (rev ks))" by (simp add: rev_map)
  then show "map_of (rev (final_rows txs)) = (\<lambda>k. if k \<in> set ks then Some (f k) else None)"
    by (simp add: map_of_map_restrict restrict_map_def fun_eq_iff)
  have "list_all (\<lambda>xs. xs \<noteq> []) (map tx_Out txs)" unfolding assms(1) by (simp add: list_all_iff)
  then show "list_all (\<lambda>t. tx_Out t \<noteq> []) txs" by (simp add: list_all_iff)
qed

section \<open>Properties\<close>

text \<open>C11: Whatever operations run on a database that was created, in whatever order, the latest
  block and the latest final block of every shard can be read back and have the hashes the node
  remembers; and \<open>RecentBlock\<close>, which does not open the file, always answers nil.\<close>

theorem chain_latest_readable:
  assumes "bolt_ok B" and "chain_reach vf B a"
  shows "(\<exists>b. LatestTxBlock B a = Some (Some b) \<and> tb_HashID b = tc_LastTB a)
    \<and> (\<forall>i < ShardCnt. \<exists>b. LatestFinalTxBlock B a i = Some (Some b) \<and> tb_HashID b = tc_LastFB a ! unat i)
    \<and> RecentBlock B a height = Some None"
proof -
  note inv = chain_reach_inv [OF assms(2,1)]
  obtain b where b: "holds_block B (tc_data a) TBBucket (keyB (tc_LastTB a)) b" "tb_HashID b = tc_LastTB a"
    using inv by (auto simp: chain_inv_def)
  have "\<exists>b. LatestFinalTxBlock B a i = Some (Some b) \<and> tb_HashID b = tc_LastFB a ! unat i" if "i < ShardCnt" for i
  proof -
    have i: "unat i < unat ShardCnt" using that by (simp add: word_less_nat_alt)
    obtain f where f: "holds_block B (tc_data a) FBBucket (keyBi (of_nat (unat i)) (tc_LastFB a ! unat i)) f"
      "tb_HashID f = tc_LastFB a ! unat i"
      using inv i by (auto simp: chain_inv_def)
    then have "LatestFinalTxBlock B a i = Some (Some (TxBlock_view 1 f))"
      using inv i by (intro latest_final_read) (simp_all add: chain_inv_def)
    with f(2) show ?thesis by (simp add: TxBlock_view_def)
  qed
  with b latest_read [OF b(1)] inv show ?thesis
    by (auto simp: chain_inv_def RecentBlock_def TxBlock_view_def)
qed

definition chain_blank :: "mem_db TxBlockChain" where
  "chain_blank = \<lparr>tc_data = Map.empty, tc_open = False, tc_LastTB = 0, tc_Height = 0, tc_LastFB = [0],
     tc_USet = Map.empty, tc_TXCache = Map.empty, tc_AccData = Map.empty\<rparr>"

lemma chain_blank_reach: "\<exists>a. CreateNewBlockchain mem_bolt chain_blank = Some (None, a) \<and> chain_reach toy_verify mem_bolt a"
  using CreateNewBlockchain_total [OF mem_bolt_ok, of chain_blank] chain_reach.created [of chain_blank mem_bolt]
  by (auto simp: chain_blank_def ShardCnt_def)

theorem chain_latest_readable_witness:
  "\<exists>a. CreateNewBlockchain mem_bolt chain_blank = Some (None, a)
    \<and> (\<exists>b. LatestTxBlock mem_bolt a = Some (Some b) \<and> tb_HashID b = tc_LastTB a)"
  using chain_blank_reach chain_latest_readable [OF mem_bolt_ok] by blast

text \<open>C16: \<open>AddBlock\<close> refuses every block of kind 0, which is the kind of the blocks a leader
  makes for its transactions, and changes nothing; the message says the type should be 0.\<close>

theorem AddBlock_refuses_leader_blocks:
  assumes "MakeTxBlock sg rnd now a0 ID txs prev prk h 0 pfh sh = Some x" and "length txs < 2 ^ 32"
  shows "AddBlock B a x = Some (Some (Msg ''Error type, should be 0''), a)"
  using MakeTxBlock_fields(5) [OF assms] by (simp add: AddBlock_def)

theorem AddBlock_refuses_leader_blocks_witness:
  "\<exists>x. MakeTxBlock toy_sign 0 5 TxBlock_zero 1 [sample_tx] 2 sample_prk 0 0 None 0 = Some x
    \<and> AddBlock mem_bolt chain_blank x = Some (Some (Msg ''Error type, should be 0''), chain_blank)"
proof -
  obtain x where x: "MakeTxBlock toy_sign 0 5 TxBlock_zero 1 [sample_tx] 2 sample_prk 0 0 None 0 = Some x"
    using MakeTxBlock_total [of 0 None toy_sign 0 5 TxBlock_zero 1 "[sample_tx]" 2 sample_prk 0 0] by auto
  show ?thesis using x AddBlock_refuses_leader_blocks [OF x] by simp
qed

text \<open>Blocks of the other kinds are stored: a block higher than all before becomes the
  latest block, as the receiver of its encoding sees it, and a block that is not higher leaves
  the latest block as it was.\<close>

theorem AddBlock_latest:
  assumes "bolt_ok B" and "chain_reach vf B a" and "block_ok x" and "tb_Kind x \<noteq> 0"
    and "tb_Height x \<le> tc_Height a \<longrightarrow> tb_HashID x \<noteq> tc_LastTB a"
  shows "\<exists>b. AddBlock B a x = Some (None, b) \<and> tc_Height b = max (tc_Height a) (tb_Height x)
    \<and> LatestTxBlock B b = (if tc_Height a < tb_Height x then Some (Some (TxBlock_view 1 x)) else LatestTxBlock B a)"
proof -
  note inv = chain_reach_inv [OF assms(2,1)]
  have has: "bk_has B (tc_data a) TBBucket" using inv by (simp add: chain_inv_def)
  obtain d where d: "put_block B x (tc_data a) = Some d" "\<And>n. bk_has B d n \<longleftrightarrow> bk_has B (tc_data a) n"
    "\<And>h. h \<noteq> tb_HashID x \<Longrightarrow> bk_get B d TBBucket (keyB h) = bk_get B (tc_data a) TBBucket (keyB h)"
    "holds_block B d TBBucket (keyB (tb_HashID x)) x"
    using put_block_ok [OF assms(1,3) has] by metis
  let ?b = "raise_top x (closed a d)"
  have "AddBlock B a x = Some (None, ?b)" using assms(4) d(1) by (simp add: AddBlock_def)
  moreover have "LatestTxBlock B ?b = Some (Some (TxBlock_view 1 x))" if "tc_Height a < tb_Height x"
    by (rule latest_read) (use that d has in simp_all)
  moreover have "LatestTxBlock B ?b = LatestTxBlock B a" if h: "\<not> tc_Height a < tb_Height x"
  proof -
    have "tc_LastTB a \<noteq> tb_HashID x" using h assms(5) by (auto simp: not_less)
    from d(3) [OF this] h d(2) show ?thesis by (simp add: LatestTxBlock_def b_get_def)
  qed
  ultimately show ?thesis by simp
qed

theorem AddBlock_latest_witness:
  "\<exists>a b. CreateNewBlockchain mem_bolt chain_blank = Some (None, a)
    \<and> AddBlock mem_bolt a (NewGensisFinalTxBlock 0\<lparr>tb_Height := 7\<rparr>) = Some (None, b)
    \<and> LatestTxBlock mem_bolt b = Some (Some (TxBlock_view 1 (NewGensisFinalTxBlock 0\<lparr>tb_Height := 7\<rparr>)))"
proof -
  let ?x = "NewGensisFinalTxBlock 0\<lparr>tb_Height := 7\<rparr>"
  obtain a where a: "CreateNewBlockchain mem_bolt chain_blank = Some (None, a)" "chain_reach toy_verify mem_bolt a"
    using chain_blank_reach by blast
  have h: "tc_Height a = 0"
    using CreateNewBlockchain_inv [OF mem_bolt_ok _ a(1)] by (simp add: chain_blank_def ShardCnt_def)
  have ok: "block_ok ?x"
    by (auto simp: block_ok_def TxBlock_wf_def TxBlock_Encode_def NewGensisFinalTxBlock_def TxBlock_zero_def
        enc_signed_def for_upto_def)
  obtain b where "AddBlock mem_bolt a ?x = Some (None, b)"
    "LatestTxBlock mem_bolt b = (if tc_Height a < tb_Height ?x then Some (Some (TxBlock_view 1 ?x)) else LatestTxBlock mem_bolt a)"
    using AddBlock_latest [OF mem_bolt_ok a(2) ok] h by auto
  with a(1) h show ?thesis by auto
qed

text \<open>A transaction that was added is found again under its hash, exactly as it was, and the
  other transactions stay as they were.\<close>

theorem AddTx_ReqTx:
  assumes "bolt_ok B" and "chain_reach vf B a" and "Transaction_wf t"
    and "\<forall>e. Transaction_Encode t = Some e \<longrightarrow> length e < 2 ^ 32"
  shows "\<exists>b. AddTx B a t = Some (None, b) \<and> map_option fst (ReqTx B b (tx_Hash t)) = Some t
    \<and> (\<forall>h. h \<noteq> tx_Hash t \<longrightarrow> map_option fst (ReqTx B b h) = map_option fst (ReqTx B a h))"
proof -
  have has: "bk_has B (tc_data a) TXBucket" using chain_reach_inv [OF assms(2,1)] by (simp add: chain_inv_def)
  obtain e where e: "Transaction_Encode t = Some e" using Transaction_Encode_wf [OF assms(3)] by blast
  have d: "Transaction_Decode Transaction_zero e = DOk t []"
    using Transaction_Decode_enc [OF assms(3) e, of "[]"] assms(4) e by simp
  let ?b = "closed a (bk_put B (tc_data a) TXBucket (keyB (tx_Hash t)) e)"
  have add: "AddTx B a t = Some (None, ?b)" using e has by (simp add: AddTx_def b_put_def)
  have own: "map_option fst (ReqTx B ?b (tx_Hash t)) = Some t"
    using d has assms(1) by (simp add: ReqTx_def b_get_def bolt_simps)
  have "map_option fst (ReqTx B ?b h) = map_option fst (ReqTx B a h)" if "h \<noteq> tx_Hash t" for h
    using that has assms(1) by (simp add: ReqTx_def b_get_def bolt_simps option.map_comp o_def)
  with add own show ?thesis by blast
qed

theorem AddTx_ReqTx_witness:
  "\<exists>a b. CreateNewBlockchain mem_bolt chain_blank = Some (None, a) \<and> AddTx mem_bolt a sample_tx = Some (None, b)
    \<and> map_option fst (ReqTx mem_bolt b 0) = Some sample_tx"
proof -
  obtain a where a: "CreateNewBlockchain mem_bolt chain_blank = Some (None, a)" "chain_reach toy_verify mem_bolt a"
    using chain_blank_reach by blast
  have l: "\<forall>e. Transaction_Encode sample_tx = Some e \<longrightarrow> length e < 2 ^ 32"
    by (simp add: Transaction_Encode_def sample_tx_def sample_in_def for_upto_def InToData_def SignToData_def
        EncodeDoubleBig_def Let_def nat_bytes.simps)
  show ?thesis using a(1) AddTx_ReqTx [OF mem_bolt_ok a(2) sample_tx_wf l] by (auto simp: sample_tx_def)
qed

text \<open>\<open>ClearTx\<close> never clears the transactions: on every reachable database it reports that
  the bucket exists and the file stays as it was.\<close>

theorem ClearTx_never_clears:
  assumes "bolt_ok B" and "chain_reach vf B a"
  shows "ClearTx B a = Some (Some (Msg ''bucket already exists''), closed a (tc_data a))"
  using chain_reach_inv [OF assms(2,1)] by (intro ClearTx_err [OF assms(1)]) (simp add: chain_inv_def)

theorem ClearTx_never_clears_witness:
  "\<exists>a. CreateNewBlockchain mem_bolt chain_blank = Some (None, a)
    \<and> ClearTx mem_bolt a = Some (Some (Msg ''bucket already exists''), closed a (tc_data a))"
  using chain_blank_reach ClearTx_never_clears [OF mem_bolt_ok] by blast



text \<open>Locking an input and unlocking it again restores the balance of every account, also
  when the lock went below zero and wrapped around; \<open>CheckUTXO\<close> accepts exactly the inputs whose
  account holds the amount, and for those the lock takes it without wrapping.\<close>

theorem lock_unlock_balance:
  "\<exists>b c. LockUTXO a i = Some (None, b) \<and> UnlockUTXO B b i = Some (None, c)
    \<and> (\<forall>k. balance c k = balance a k)
    \<and> (\<exists>ok. CheckUTXO vf B a i h = Some (ok, a) \<and> (ok \<longleftrightarrow> in_Index i \<le> balance a (in_PrevTx i))
         \<and> (ok \<longleftrightarrow> unat (balance b (in_PrevTx i)) + unat (in_Index i) = unat (balance a (in_PrevTx i))))"
proof -
  let ?k = "in_PrevTx i" and ?v = "balance a (in_PrevTx i)"
  have w: "in_Index i \<le> ?v \<longleftrightarrow> unat (?v - in_Index i) + unat (in_Index i) = unat ?v"
  proof
    assume "in_Index i \<le> ?v"
    then show "unat (?v - in_Index i) + unat (in_Index i) = unat ?v"
      by (simp add: unat_sub word_le_nat_alt)
  next
    assume "unat (?v - in_Index i) + unat (in_Index i) = unat ?v"
    then show "in_Index i \<le> ?v" by (simp add: word_le_nat_alt)
  qed
  show ?thesis
    unfolding LockUTXO_def UnlockUTXO_def CheckUTXO_def InType_Acc_def using w by simp
qed

text \<open>C15: A final block hands the accounts of a shard over: when the block a node makes from its
  accounts is added by another node, that node has exactly the first node's balances for the
  accounts of the shard, and its other accounts stay as they were.\<close>

theorem final_block_snapshot:
  assumes "bolt_ok B" and "chain_reach vf B b" and "set ks = dom (tc_AccData a)" and "distinct ks"
    and "MakeFinalTx src ks a sh = Some (txs, a')"
    and "block_ok x" and "tb_Kind x = 1" and "tb_TxArray x = txs" and "tb_ShardID x < ShardCnt"
  shows "\<exists>b'. AddFinalBlock B b x = Some (None, b')
    \<and> (\<forall>k. tc_AccData b' k = (if k \<in> dom (tc_AccData a) \<and> ShardIndex k = sh then tc_AccData a k else tc_AccData b k))"
proof -
  note inv = chain_reach_inv [OF assms(2,1)]
  from MakeFinalTx_ok [of src ks a sh] assms(5)
  have txs: "map tx_Out txs = map (\<lambda>k. [\<lparr>out_Value = balance a k, out_Address = k\<rparr>]) (final_keys a sh ks)"
    by auto
  have dist: "distinct (final_keys a sh ks)" using assms(4) by (simp add: final_keys_def)
  note rows = final_rows_map [OF txs dist]
  have "unat (tb_ShardID x) < unat ShardCnt" using assms(9) by (simp add: word_less_nat_alt)
  then obtain b' where b': "AddFinalBlock B b x = Some (None, b')"
    "tc_AccData b' = tc_AccData b ++ map_of (rev (final_rows (tb_TxArray x)))"
    using AddFinalBlock_accounts [OF assms(1) inv assms(6,7)] rows(2) assms(8) by auto
  moreover have "tc_AccData b' k = (if k \<in> dom (tc_AccData a) \<and> ShardIndex k = sh then tc_AccData a k else tc_AccData b k)" for k
    using assms(3) unfolding b'(2) assms(8) rows(1)
    by (auto simp: final_keys_def map_add_def balance_def split: option.splits)
  ultimately show ?thesis by blast
qed

theorem final_block_snapshot_witness:
  "\<exists>b b'. CreateNewBlockchain mem_bolt chain_blank = Some (None, b)
    \<and> AddFinalBlock mem_bolt b (NewGensisFinalTxBlock 0) = Some (None, b')
    \<and> (\<forall>k. tc_AccData b' k = tc_AccData b k)"
proof -
  let ?x = "NewGensisFinalTxBlock 0"
  obtain b where b: "CreateNewBlockchain mem_bolt chain_blank = Some (None, b)" "chain_reach toy_verify mem_bolt b"
    using chain_blank_reach by blast
  have m: "MakeFinalTx (\<lambda>_. (0, 0)) [] chain_blank 0 = Some ([], chain_blank)"
    by (simp add: MakeFinalTx_def closed_def chain_blank_def)
  have x: "tb_TxArray ?x = []" "tb_ShardID ?x < ShardCnt"
    by (simp_all add: NewGensisFinalTxBlock_def TxBlock_zero_def ShardCnt_def)
  have ks: "set [] = dom (tc_AccData chain_blank)" by (simp add: chain_blank_def)
  show ?thesis
    using b(1) final_block_snapshot [OF mem_bolt_ok b(2) ks _ m genesis_ok(2) _ x]
    by (simp add: chain_blank_def)
qed

text \<open>The accounts survive a restart: after \<open>UpdateAccount\<close> wrote the balances to the file,
  \<open>UploadAcc\<close> restores the balance of every account of the shard; accounts with nothing left are
  gone.\<close>

theorem accounts_saved:
  assumes "bolt_ok B" and "chain_reach vf B a" and "set ks = dom (tc_AccData a)"
  shows "\<exists>b c. UpdateAccount B ks a = Some (None, b) \<and> UploadAcc B b sh = Some (None, c)
    \<and> (\<forall>k \<in> dom (tc_AccData a). ShardIndex k = sh \<longrightarrow> balance c k = balance a k
         \<and> (k \<in> dom (tc_AccData c) \<longleftrightarrow> balance a k \<noteq> 0))
    \<and> (\<forall>k \<in> dom (tc_AccData c). ShardIndex k = sh)"
proof -
  have has: "bk_has B (tc_data a) ACCBucket" using chain_reach_inv [OF assms(2,1)] by (simp add: chain_inv_def)
  obtain d where d: "ofold (store_acc B a) ks (tc_data a) = Some d" "bk_has B d ACCBucket"
    "\<And>k. bk_get B d ACCBucket (be_bytes 32 k) = (if k \<in> set ks \<and> k \<in> dom (tc_AccData a)
      then (if balance a k = 0 then None else Some (le_bytes 4 (balance a k))) else bk_get B (tc_data a) ACCBucket (be_bytes 32 k))"
    using store_accs_ok [OF assms(1) has, of a ks] by blast
  have rows: "acc_rows B d" by (rule acc_rows_store [OF assms(1) chain_reach_rows [OF assms(2,1)] d(1)])
  let ?rows = "bk_items B d ACCBucket"
  note items = bolt_items [OF assms(1), of d ACCBucket]
  have "\<forall>(k, v) \<in> set ?rows. length k = 32 \<and> length v = 4"
    using rows map_of_is_SomeI [OF items(2)] unfolding items(1) acc_rows_def by blast
  from load_acc_ok [OF this items(2), of "\<lambda>k. ShardIndex k = sh" "(closed a d)\<lparr>tc_AccData := Map.empty\<rparr>"]
  obtain c where c: "load_acc (\<lambda>k. ShardIndex k = sh) ?rows ((closed a d)\<lparr>tc_AccData := Map.empty\<rparr>) = Some c"
    "tc_AccData c = (\<lambda>k. if ShardIndex k = sh then (case bk_get B d ACCBucket (be_bytes 32 k) of None \<Rightarrow> None
      | Some v \<Rightarrow> Some (le_word v)) else None)"
    unfolding items(1) by (auto cong: if_cong option.case_cong)
  have ub: "UpdateAccount B ks a = Some (None, closed a d)" using d(1) by (simp add: UpdateAccount_def)
  have uc: "UploadAcc B (closed a d) sh = Some (None, closed c (tc_data c))"
    using c(1) d(2) by (simp add: UploadAcc_def)
  have acc: "\<forall>k \<in> dom (tc_AccData a). ShardIndex k = sh \<longrightarrow> balance c k = balance a k
         \<and> (k \<in> dom (tc_AccData c) \<longleftrightarrow> balance a k \<noteq> 0)"
  proof (intro ballI impI)
    fix k assume "k \<in> dom (tc_AccData a)" and "ShardIndex k = sh"
    then have "tc_AccData c k = (if balance a k = 0 then None else Some (balance a k))"
      using assms(3) by (simp add: c(2) d(3))
    then show "balance c k = balance a k \<and> (k \<in> dom (tc_AccData c) \<longleftrightarrow> balance a k \<noteq> 0)"
      by (simp add: balance_def [of c] dom_def)
  qed
  have bal: "balance (closed c (tc_data c)) k = balance c k" for k by (simp add: balance_def)
  have "\<forall>k \<in> dom (tc_AccData c). ShardIndex k = sh" unfolding c(2) by (auto split: if_splits)
  with ub uc acc bal show ?thesis by auto
qed

theorem accounts_saved_witness:
  "\<exists>a b c. CreateNewBlockchain mem_bolt chain_blank = Some (None, a) \<and> UpdateAccount mem_bolt [] a = Some (None, b)
    \<and> UploadAcc mem_bolt b 0 = Some (None, c)"
proof -
  obtain a where a: "CreateNewBlockchain mem_bolt chain_blank = Some (None, a)" "chain_reach toy_verify mem_bolt a"
    using chain_blank_reach by blast
  have "tc_AccData a = Map.empty"
    using CreateNewBlockchain_inv [OF mem_bolt_ok _ a(1)] by (simp add: chain_blank_def ShardCnt_def)
  then have "set [] = dom (tc_AccData a)" by simp
  from accounts_saved [OF mem_bolt_ok a(2) this] a(1) show ?thesis by blast
qed

end
