(* ===== verification/Stores.thy ===== *)
theory Stores
  imports TxChain
begin

text \<open>
  Both chains of the program are stored the same way: a block is put under its hash, names the hash
  of the block before, and is found again by walking back from the last one. \<open>block_store\<close> is
  the contract of such a store: what is loaded after a put. The walk back over the blocks stored
  is proved once, from the contract; the theories of the two chains discharge it on their own
  operations (the one of the transaction blocks is here).
\<close>

text \<open>The blocks are linked: each names the hash of the one before.\<close>

fun linked :: "('b \<Rightarrow> hash) \<Rightarrow> ('b \<Rightarrow> hash) \<Rightarrow> 'b list \<Rightarrow> bool" where
  "linked key prev (a # b # bs) \<longleftrightarrow> prev b = key a \<and> linked key prev (b # bs)"
| "linked key prev _ \<longleftrightarrow> True"

fun walk_back :: "(hash \<Rightarrow> 'b option) \<Rightarrow> ('b \<Rightarrow> hash) \<Rightarrow> nat \<Rightarrow> hash \<Rightarrow> 'b list option" where
  "walk_back load prev 0 h = Some []"
| "walk_back load prev (Suc n) h = (case load h of None \<Rightarrow> None
     | Some b \<Rightarrow> map_option (Cons b) (walk_back load prev n (prev b)))"

lemma linked_snoc: "linked key prev (bs @ [a, b]) \<longleftrightarrow> linked key prev (bs @ [a]) \<and> prev b = key a"
  by (induction key prev bs rule: linked.induct) auto

lemma linked_butlast: "linked key prev (bs @ [b]) \<Longrightarrow> linked key prev bs"
  by (cases bs rule: rev_cases) (simp_all add: linked_snoc)

lemma walk_back_linked:
  assumes "\<And>b. b \<in> set bs \<Longrightarrow> load (key b) = Some (view b)" and "\<And>b. prev (view b) = prev b"
    and "linked key prev bs" and "bs \<noteq> []"
  shows "walk_back load prev (length bs) (key (last bs)) = Some (map view (rev bs))"
  using assms(1,3,4)
proof (induction bs rule: rev_induct)
  case (snoc b bs)
  have b: "load (key b) = Some (view b)" by (rule snoc.prems(1)) simp
  show ?case
  proof (cases "bs = []")
    case False
    then obtain as a where as: "bs = as @ [a]" by (cases bs rule: rev_cases) auto
    then have "prev b = key (last bs)" "linked key prev bs" using snoc.prems(2) by (auto simp: linked_snoc)
    then have "walk_back load prev (length bs) (prev b) = Some (map view (rev bs))"
      using snoc.IH [OF _ _ False] snoc.prems(1) by simp
    then show ?thesis using b by (simp add: assms(2))
  qed (use b in simp)
qed simp

locale block_store =
  fixes ok :: "'d \<Rightarrow> bool" and okb :: "'b \<Rightarrow> bool" and put :: "'b \<Rightarrow> 'd \<Rightarrow> 'd option"
    and load :: "'d \<Rightarrow> hash \<Rightarrow> 'b option" and key :: "'b \<Rightarrow> hash" and prev :: "'b \<Rightarrow> hash" and view :: "'b \<Rightarrow> 'b"
  assumes put_ok: "ok d \<Longrightarrow> okb b \<Longrightarrow> \<exists>d'. put b d = Some d' \<and> ok d'"
    and load_put: "ok d \<Longrightarrow> okb b \<Longrightarrow> put b d = Some d' \<Longrightarrow> load d' h = (if h = key b then Some (view b) else load d h)"
    and prev_view: "prev (view b) = prev b"
begin

lemma puts_ok: "ok d \<Longrightarrow> \<forall>b \<in> set bs. okb b \<Longrightarrow> \<exists>d'. ofold put bs d = Some d' \<and> ok d'"
  by (rule ofold_total) (auto intro: put_ok)

lemma load_other:
  "ofold put bs d = Some d' \<Longrightarrow> ok d \<Longrightarrow> \<forall>b \<in> set bs. okb b \<Longrightarrow> h \<notin> key ` set bs \<Longrightarrow> load d' h = load d h"
proof (induction bs arbitrary: d)
  case (Cons b bs)
  then obtain e where e: "put b d = Some e" "ofold put bs e = Some d'" by (auto split: option.splits)
  then show ?case using Cons put_ok [of d b] load_put [of d b e h] by auto
qed simp

lemma load_puts:
  "ofold put bs d = Some d' \<Longrightarrow> ok d \<Longrightarrow> \<forall>b \<in> set bs. okb b \<Longrightarrow> distinct (map key bs) \<Longrightarrow> b \<in> set bs \<Longrightarrow>
   load d' (key b) = Some (view b)"
proof (induction bs arbitrary: d)
  case (Cons a bs)
  then obtain e where e: "put a d = Some e" "ofold put bs e = Some d'" by (auto split: option.splits)
  then have "ok e" using Cons put_ok [of d a] by auto
  then show ?case
    using Cons e load_put [of d a e "key a"] load_other [of bs e d' "key a"] by auto
qed simp

lemma walk_puts:
  assumes "ofold put bs d = Some d'" and "ok d" and "\<forall>b \<in> set bs. okb b" and "distinct (map key bs)"
    and "linked key prev bs" and "bs \<noteq> []"
  shows "walk_back (load d') prev (length bs) (key (last bs)) = Some (map view (rev bs))"
  by (rule walk_back_linked [OF load_puts [OF assms(1-4)] prev_view assms(5,6)])

end

section \<open>The transaction blocks\<close>

definition tx_store_ok :: "'d bolt \<times> 'd \<Rightarrow> bool" where
  "tx_store_ok s \<longleftrightarrow> bolt_ok (fst s) \<and> bk_has (fst s) (snd s) TBBucket"

definition tx_put :: "TxBlock \<Rightarrow> 'd bolt \<times> 'd \<Rightarrow> ('d bolt \<times> 'd) option" where
  "tx_put b s = map_option (Pair (fst s)) (put_block (fst s) b (snd s))"

definition tx_load :: "'d bolt \<times> 'd \<Rightarrow> hash \<Rightarrow> TxBlock option" where
  "tx_load s h = dres_val (TxBlock_Decode 1 TxBlock_zero
     (case bk_get (fst s) (snd s) TBBucket (keyB h) of None \<Rightarrow> [] | Some v \<Rightarrow> v))"

interpretation tx_store: block_store tx_store_ok block_ok tx_put tx_load tb_HashID tb_PrevHash "TxBlock_view 1"
proof
  fix s :: "'d bolt \<times> 'd" and b :: TxBlock
  assume s: "tx_store_ok s" and b: "block_ok b"
  then obtain d' where d': "put_block (fst s) b (snd s) = Some d'" "\<And>n. bk_has (fst s) d' n \<longleftrightarrow> bk_has (fst s) (snd s) n"
      "\<And>h. h \<noteq> tb_HashID b \<Longrightarrow> bk_get (fst s) d' TBBucket (keyB h) = bk_get (fst s) (snd s) TBBucket (keyB h)"
      "holds_block (fst s) d' TBBucket (keyB (tb_HashID b)) b"
    using put_block_ok [of "fst s" b "snd s"] unfolding tx_store_ok_def by metis
  show "\<exists>s'. tx_put b s = Some s' \<and> tx_store_ok s'"
    using s d' by (auto simp: tx_put_def tx_store_ok_def)
  fix s' h assume "tx_put b s = Some s'"
  then have s': "s' = (fst s, d')" using d'(1) by (auto simp: tx_put_def)
  obtain e where e: "TxBlock_Encode b 1 = Some e" using b by (auto simp: block_ok_def)
  then show "tx_load s' h = (if h = tb_HashID b then Some (TxBlock_view 1 b) else tx_load s h)"
    using d'(3) [of h] d'(4) TxBlock_Decode_enc [of 1 b e "[]"] b
    by (auto simp: tx_load_def s' holds_block_def block_ok_def)
next
  fix b show "tb_PrevHash (TxBlock_view 1 b) = tb_PrevHash b" by (simp add: TxBlock_view_def)
qed

text \<open>On an open handle \<open>RecentBlock\<close> walks the same way, as far as the first block below the
  height.\<close>

lemma recent_loop_walk:
  "walk_back (tx_load (B, d)) tb_PrevHash (Suc (length bs)) h = Some (bs @ [b]) \<Longrightarrow> \<forall>x \<in> set bs. height \<le> tb_Height x \<Longrightarrow>
   tb_Height b < height \<Longrightarrow> recent_loop B d height h acc = Some (acc @ bs @ [b])"
proof (induction bs arbitrary: h acc)
  case Nil
  then show ?case by (subst recent_loop.simps) (auto simp: tx_load_def split: option.splits)
next
  case (Cons x bs)
  then obtain y where y: "tx_load (B, d) h = Some y" "y = x"
      "walk_back (tx_load (B, d)) tb_PrevHash (Suc (length bs)) (tb_PrevHash x) = Some (bs @ [b])"
    by (auto simp del: walk_back.simps simp: walk_back.simps(2) [of _ _ "Suc (length bs)"] split: option.splits)
  then show ?case
    using Cons.IH [of "tb_PrevHash x" "acc @ [x]"] Cons.prems
    by (subst recent_loop.simps) (auto simp: tx_load_def not_less)
qed

lemma RecentBlock_open:
  assumes "ofold tx_put (b # bs) (B, d) = Some (B, d')" and "tx_store_ok (B, d)" and "\<forall>x \<in> set (b # bs). block_ok x"
    and "distinct (map tb_HashID (b # bs))" and "linked tb_HashID tb_PrevHash (b # bs)"
    and "tb_Height b < height" and "\<forall>x \<in> set bs. height \<le> tb_Height x"
    and "tc_open a" and "tc_data a = d'" and "tc_LastTB a = tb_HashID (last (b # bs))" and "bk_has B d' TBBucket"
  shows "RecentBlock B a height = Some (Some (replicate (unat (tc_Height a - height + 1)) TxBlock_zero
    @ map (TxBlock_view 1) (rev (b # bs))))"
proof -
  have h: "tb_Height (TxBlock_view 1 x) = tb_Height x" for x by (simp add: TxBlock_view_def)
  have "walk_back (tx_load (B, d')) tb_PrevHash (Suc (length (map (TxBlock_view 1) (rev bs)))) (tb_HashID (last (b # bs)))
      = Some (map (TxBlock_view 1) (rev bs) @ [TxBlock_view 1 b])"
    using tx_store.walk_puts [OF assms(1-5)] by simp
  from recent_loop_walk [OF this] show ?thesis using assms(6-11) by (simp add: RecentBlock_def h)
qed

end
