(* ===== verification/RepChain.thy ===== *)
theory RepChain
  imports Cosi Stores "HOL-Library.Signed_Division" "HOL-Library.Countable"
begin

text \<open>
  The reputation chain (\<open>Reputation\<close>): reputation blocks, which the members of a shard sign
  collectively, sync blocks, with which shards exchange reputations at the end of an epoch, the
  proof of work, and the database both kinds of blocks are kept in.

  \<open>encoding/gob\<close> is a parameter: \<open>gob\<close> holds the encoders and decoders of the two blocks, and
  \<open>gob_ok\<close> states that decoding gives back what was encoded (nil and empty slices are one, as
  everywhere in the development). The database is the one of \<open>TxChain\<close>, its handle stays open.
  Locks are not modelled: every operation holds them.
\<close>

section \<open>Blocks (\<open>RepBlock.go\<close>, \<open>RepTransaction.go\<close>, \<open>Utils.go\<close>)\<close>

definition IntToHex :: "i64 \<Rightarrow> bytes" where "IntToHex num = be_bytes 8 num"

definition BoolToHex :: "bool \<Rightarrow> bytes" where "BoolToHex f = [if f then 1 else 0]"

text \<open>\<open>[32]byte{gVar.MagicNumber}\<close>\<close>

definition MagicHash :: hash where "MagicHash = be_word (66 # replicate 31 0)"

record RepTransaction =
  rt_GlobalID :: int
  rt_Rep :: i64

definition NewRepTransaction :: "int \<Rightarrow> i64 \<Rightarrow> RepTransaction" where
  "NewRepTransaction globalID rep = \<lparr>rt_GlobalID = globalID, rt_Rep = word_of_int (sint rep sdiv 10)\<rparr>"

record ReputationBlock =
  rp_Timestamp :: i64
  rp_RepTransactions :: "RepTransaction list"
  rp_StartBlock :: bool
  rp_PrevSyncBlockHash :: "hash list"
  rp_PrevTxBlockHashes :: "hash list"
  rp_PrevRepBlockHash :: hash
  rp_Hash :: hash
  rp_Nonce :: int
  rp_Cosig :: bytes

definition HashRep_data :: "ReputationBlock \<Rightarrow> bytes" where
  "HashRep_data b = concat (map (\<lambda>t. IntToHex (rt_Rep t) @ IntToHex (word_of_int (rt_GlobalID t))) (rp_RepTransactions b))"

definition HashRep :: "ReputationBlock \<Rightarrow> bytes" where
  "HashRep b = be_bytes 32 (Sum256 (HashRep_data b))"

definition hashes_data :: "hash list \<Rightarrow> bytes" where
  "hashes_data hs = concat (map (be_bytes 32) hs)"

definition HashPrevTxBlockHashes :: "ReputationBlock \<Rightarrow> bytes" where
  "HashPrevTxBlockHashes b = be_bytes 32 (Sum256 (hashes_data (rp_PrevTxBlockHashes b)))"

definition rep_prepareData :: "ReputationBlock \<Rightarrow> bytes" where
  "rep_prepareData b = HashRep b @ HashPrevTxBlockHashes b @ BoolToHex (rp_StartBlock b)
     @ be_bytes 32 (rp_PrevRepBlockHash b) @ IntToHex (word_of_int (rp_Nonce b))"

text \<open>\<open>repData\<close> and the row of the own shard are read at every member's place.\<close>

definition NewRepBlock ::
  "i64 \<Rightarrow> Group \<Rightarrow> int \<Rightarrow> i64 list \<Rightarrow> bool \<Rightarrow> hash list \<Rightarrow> hash list \<Rightarrow> hash \<Rightarrow> ReputationBlock option" where
  "NewRepBlock now G me repData startBlock prevSync prevTx prevRep =
     map_option (\<lambda>txs.
       let block = \<lparr>rp_Timestamp = now, rp_RepTransactions = txs, rp_StartBlock = startBlock,
             rp_PrevSyncBlockHash = (if startBlock then prevSync else []), rp_PrevTxBlockHashes = prevTx,
             rp_PrevRepBlockHash = (if startBlock then MagicHash else prevRep), rp_Hash = 0, rp_Nonce = 0, rp_Cosig = [0]\<rparr>
       in block\<lparr>rp_Hash := Sum256 (rep_prepareData block)\<rparr>)
     (those (map (\<lambda>i. case at (gr_ShardToGlobal G) me of None \<Rightarrow> None
        | Some row \<Rightarrow> (case (idx row i, idx repData i) of
            (Some g, Some r) \<Rightarrow> Some (NewRepTransaction g r) | _ \<Rightarrow> None)) [0..<unat ShardSize]))"

definition NewGenesisRepBlock :: "i64 \<Rightarrow> ReputationBlock" where
  "NewGenesisRepBlock now = \<lparr>rp_Timestamp = now, rp_RepTransactions = [], rp_StartBlock = True,
     rp_PrevSyncBlockHash = [MagicHash], rp_PrevTxBlockHashes = [MagicHash], rp_PrevRepBlockHash = MagicHash,
     rp_Hash = MagicHash, rp_Nonce = 66, rp_Cosig = [66]\<rparr>"

text \<open>The keys of the signers are those of the members the transactions name, in a slice of the size
  of the shard; what must be signed is the hash of the block before.\<close>

definition RepBlock_VerifyCoSignature :: "('g::ab_group_add) curve \<Rightarrow> MemShard list \<Rightarrow> ReputationBlock \<Rightarrow> bool option" where
  "RepBlock_VerifyCoSignature C ms b =
     (case ofold (\<lambda>(i, t) keys. case at ms (rt_GlobalID t) of None \<Rightarrow> None | Some m \<Rightarrow> put_idx keys i (mem_CosiPub m))
             (enumerate 0 (rp_RepTransactions b)) (replicate (unat ShardSize) []) of None \<Rightarrow> None
      | Some pubKeys \<Rightarrow> cosi_Verify C pubKeys (Some (ThresholdPolicy (int (unat ShardSize) div 2)))
          (be_bytes 32 (rp_PrevRepBlockHash b)) (rp_Cosig b))"

section \<open>Proof of work (\<open>ProofOfWork.go\<close>)\<close>

definition difficulty :: nat where "difficulty = 4"
definition maxNonce :: int where "maxNonce = 2147483647"
definition pow_Target :: nat where "pow_Target = 2 ^ (256 - difficulty)"

definition pow_prepareData :: "ReputationBlock \<Rightarrow> int \<Rightarrow> bytes" where
  "pow_prepareData b nonce = HashRep b @ HashPrevTxBlockHashes b @ BoolToHex (rp_StartBlock b)
     @ be_bytes 32 (rp_PrevRepBlockHash b) @ IntToHex (of_nat difficulty) @ IntToHex (word_of_int nonce)"

definition pow_Validate :: "ReputationBlock \<Rightarrow> int \<Rightarrow> bool" where
  "pow_Validate b nonce \<longleftrightarrow> unat (Sum256 (pow_prepareData b nonce)) < pow_Target"

record RepPowInfo =
  pw_ID :: int
  pw_Round :: int
  pw_Nonce :: int
  pw_Hash :: hash

text \<open>The loop looks for a candidate of another member in every pass, and tries a nonce when there is
  none. \<open>rx\<close> are the candidates that arrive, each before the pass it is at; the state is what the
  candidates of later rounds leave behind: the count of every nonce and the nonce of every member
  (\<open>NonceMap\<close>, \<open>IDToNonce\<close>). The result has the flag, which is true for an own nonce.\<close>

record PowState =
  po_NonceMap :: "int \<Rightarrow> int"
  po_IDToNonce :: "int list"

definition pow_note :: "Group \<Rightarrow> RepPowInfo \<Rightarrow> PowState \<Rightarrow> PowState option" where
  "pow_note G c s =
     (case at (gr_Mems G) (pw_ID c) of None \<Rightarrow> None
      | Some m \<Rightarrow> if 0 \<le> mem_InShardId m
          then map_option (\<lambda>l. \<lparr>po_NonceMap = (po_NonceMap s)(pw_Nonce c := po_NonceMap s (pw_Nonce c) + 1), po_IDToNonce = l\<rparr>)
                 (put_idx (po_IDToNonce s) (nat (mem_InShardId m)) (pw_Nonce c))
          else None)"

function pow_Run :: "Group \<Rightarrow> ReputationBlock \<Rightarrow> int \<Rightarrow> RepPowInfo option list \<Rightarrow> int \<Rightarrow> hash \<Rightarrow> PowState \<Rightarrow> (int \<times> hash \<times> bool \<times> PowState) option" where
  "pow_Run G b rnd rx nonce hash s =
     (if nonce < maxNonce
      then (case rx of
          Some c # rx' \<Rightarrow>
            if pw_Round c > rnd
            then (case pow_note G c s of None \<Rightarrow> None
              | Some s1 \<Rightarrow> if pow_Validate b (pw_Nonce c) then Some (pw_Nonce c, pw_Hash c, False, s1)
                  else pow_Run G b rnd rx' nonce hash s1)
            else pow_Run G b rnd rx' nonce hash s
        | _ \<Rightarrow>
            let h = Sum256 (pow_prepareData b nonce) in
            if unat h < pow_Target then Some (nonce, h, True, s)
            else pow_Run G b rnd (tl rx) (nonce + 1) h s)
      else Some (nonce, hash, True, s))"
  by pat_completeness auto
termination
  by (relation "measures [\<lambda>(G, b, rnd, rx, nonce, hash, s). nat (maxNonce - nonce), \<lambda>(G, b, rnd, rx, nonce, hash, s). length rx]")
    auto

declare pow_Run.simps [simp del]

section \<open>Sync blocks (\<open>SyncBlock.go\<close>)\<close>

record SyncBlock =
  sy_Timestamp :: i64
  sy_PrevRepBlockHash :: hash
  sy_PrevSyncBlockHash :: "hash list"
  sy_PrevFinalBlockHash :: hash
  sy_IDlist :: "int list"
  sy_TotalRep :: "i64 list list"
  sy_CoSignature :: bytes
  sy_Hash :: hash

definition HashTotalRep_data :: "SyncBlock \<Rightarrow> bytes" where
  "HashTotalRep_data b = concat (map (\<lambda>row. concat (map IntToHex row)) (sy_TotalRep b))"

definition HashIDList_data :: "SyncBlock \<Rightarrow> bytes" where
  "HashIDList_data b = concat (map (\<lambda>i. IntToHex (word_of_int i)) (sy_IDlist b))"

definition sync_prepareData :: "SyncBlock \<Rightarrow> bytes" where
  "sync_prepareData b = be_bytes 32 (sy_PrevRepBlockHash b) @ be_bytes 32 (Sum256 (hashes_data (sy_PrevSyncBlockHash b)))
     @ be_bytes 32 (Sum256 (HashIDList_data b)) @ be_bytes 32 (Sum256 (HashTotalRep_data b)) @ sy_CoSignature b"

text \<open>Every member's reputation of the epoch enters its window first. \<open>ExperimentBadLevel\<close> is 0.\<close>

definition enter_rep :: "Group \<Rightarrow> int \<Rightarrow> nat \<Rightarrow> MemShard list \<times> int list \<times> i64 list list \<Rightarrow> (MemShard list \<times> int list \<times> i64 list list) option" where
  "enter_rep G me i st =
     (case st of (ms, ids, reps) \<Rightarrow>
       (case at (gr_ShardToGlobal G) me of None \<Rightarrow> None
        | Some row \<Rightarrow>
          (case idx row i of None \<Rightarrow> None
           | Some g \<Rightarrow>
             (case at ms g of None \<Rightarrow> None
              | Some m \<Rightarrow> let m' = SetTotalRep m (mem_Rep m) in
                  Some (ms[nat g := m'], ids @ [g], reps @ [mem_TotalRep m'])))))"

definition NewSynBlock ::
  "i64 \<Rightarrow> Group \<Rightarrow> int \<Rightarrow> hash list \<Rightarrow> hash \<Rightarrow> hash \<Rightarrow> bytes \<Rightarrow> (SyncBlock \<times> Group) option" where
  "NewSynBlock now G me prevSync prevRep prevFB coSignature =
     map_option (\<lambda>(ms, ids, reps).
       let block = \<lparr>sy_Timestamp = now, sy_PrevRepBlockHash = prevRep, sy_PrevSyncBlockHash = prevSync,
             sy_PrevFinalBlockHash = prevFB, sy_IDlist = ids, sy_TotalRep = reps, sy_CoSignature = coSignature, sy_Hash = 0\<rparr>
       in (block\<lparr>sy_Hash := Sum256 (sync_prepareData block)\<rparr>, G\<lparr>gr_Mems := ms\<rparr>))
     (ofold (enter_rep G me) [0..<unat ShardSize] (gr_Mems G, [], []))"

definition SyncBlock_VerifyCoSignature :: "('g::ab_group_add) curve \<Rightarrow> MemShard list \<Rightarrow> SyncBlock \<Rightarrow> bool option" where
  "SyncBlock_VerifyCoSignature C ms b =
     (case those (map (\<lambda>i. case idx (sy_IDlist b) i of None \<Rightarrow> None | Some k \<Rightarrow> map_option mem_CosiPub (at ms k)) [0..<unat ShardSize]) of
        None \<Rightarrow> None
      | Some pubKeys \<Rightarrow> cosi_Verify C pubKeys (Some (ThresholdPolicy (int (unat ShardSize) div 2)))
          (be_bytes 32 (sy_PrevRepBlockHash b)) (sy_CoSignature b))"

definition UpdateTotalRepInMS :: "SyncBlock \<Rightarrow> MemShard list \<Rightarrow> MemShard list option" where
  "UpdateTotalRepInMS b ms = ofold (\<lambda>(i, k) ms. case (at ms k, idx (sy_TotalRep b) i) of
      (Some m, Some reps) \<Rightarrow> Some (ms[nat k := CopyTotalRepFromSB m reps]) | _ \<Rightarrow> None) (enumerate 0 (sy_IDlist b)) ms"

section \<open>The chain (\<open>RepBlockChain.go\<close>, \<open>rep_variable.go\<close>)\<close>

record gob =
  gb_rep_enc :: "ReputationBlock \<Rightarrow> bytes"
  gb_rep_dec :: "bytes \<Rightarrow> ReputationBlock option"
  gb_sync_enc :: "SyncBlock \<Rightarrow> bytes"
  gb_sync_dec :: "bytes \<Rightarrow> SyncBlock option"

definition gob_ok :: "gob \<Rightarrow> bool" where
  "gob_ok g \<longleftrightarrow> (\<forall>b. gb_rep_dec g (gb_rep_enc g b) = Some b) \<and> (\<forall>b. gb_sync_dec g (gb_sync_enc g b) = Some b)"

definition blocksBucket :: string where "blocksBucket = ''blocks''"

definition FormatInt :: "int \<Rightarrow> bytes" where
  "FormatInt i = (if i < 0 then 45 # itoa (nat (- i)) else itoa (nat i))"

definition key_lb :: bytes where "key_lb = str_bytes ''lb''"
definition key_lsb :: "int \<Rightarrow> bytes" where "key_lsb k = str_bytes ''lsb'' @ FormatInt k"

text \<open>The chain of a node and the global variables its operations use: \<open>CurrentRepBlock\<close>,
  \<open>CurrentSyncBlock\<close>, and of the package \<open>shard\<close> the members, the start flag and the hashes of the
  last sync blocks. \<open>ch_me\<close> is \<open>MyMenShard.Shard\<close>.\<close>

record 'd RepChain =
  ch_Tip :: hash
  ch_Db :: 'd
  ch_RepBlock :: "ReputationBlock option"
  ch_Round :: int
  ch_SyncBlock :: "SyncBlock option"
  ch_Epoch :: int
  ch_Group :: Group
  ch_me :: int
  ch_StartFlag :: bool
  ch_PrevSync :: "hash list"

definition MineRepBlock :: "i64 \<Rightarrow> i64 list \<Rightarrow> hash list \<Rightarrow> 'd RepChain \<Rightarrow> 'd RepChain option" where
  "MineRepBlock now repData cache s =
     (case ch_RepBlock s of None \<Rightarrow> None
      | Some cur \<Rightarrow> map_option (\<lambda>b. s\<lparr>ch_RepBlock := Some b, ch_Round := ch_Round s + 1, ch_StartFlag := False\<rparr>)
          (NewRepBlock now (ch_Group s) (ch_me s) repData (ch_StartFlag s) (ch_PrevSync s) cache (rp_Hash cur)))"

text \<open>The current block is stored under its hash and becomes the last.\<close>

definition store_rep :: "'d bolt \<Rightarrow> gob \<Rightarrow> ReputationBlock \<Rightarrow> 'd RepChain \<Rightarrow> 'd RepChain option" where
  "store_rep B g b s =
     (case b_put B blocksBucket (be_bytes 32 (rp_Hash b)) (gb_rep_enc g b) (ch_Db s) of None \<Rightarrow> None
      | Some d \<Rightarrow> map_option (\<lambda>d. s\<lparr>ch_Db := d, ch_RepBlock := Some b, ch_Tip := rp_Hash b\<rparr>)
          (b_put B blocksBucket key_lb (be_bytes 32 (rp_Hash b)) d))"

definition AddRepSig :: "'d bolt \<Rightarrow> gob \<Rightarrow> bytes \<Rightarrow> 'd RepChain \<Rightarrow> 'd RepChain option" where
  "AddRepSig B g cosig s = (case ch_RepBlock s of None \<Rightarrow> None | Some b \<Rightarrow> store_rep B g (b\<lparr>rp_Cosig := cosig\<rparr>) s)"

definition AddRepBlockFromOthers :: "'d bolt \<Rightarrow> gob \<Rightarrow> ReputationBlock \<Rightarrow> 'd RepChain \<Rightarrow> 'd RepChain option" where
  "AddRepBlockFromOthers B g repBlock s = store_rep B g repBlock s"

definition AddSyncBlock :: "'d bolt \<Rightarrow> gob \<Rightarrow> i64 \<Rightarrow> hash \<Rightarrow> bytes \<Rightarrow> 'd RepChain \<Rightarrow> 'd RepChain option" where
  "AddSyncBlock B g now preFBHash CoSignature s =
     (case ch_RepBlock s of None \<Rightarrow> None
      | Some cur \<Rightarrow>
        (case NewSynBlock now (ch_Group s) (ch_me s) (ch_PrevSync s) (rp_Hash cur) preFBHash CoSignature of None \<Rightarrow> None
         | Some (b, G) \<Rightarrow>
           (if ch_me s < 0 then None
            else case put_idx (replicate (unat ShardCnt) 0) (nat (ch_me s)) (sy_Hash b) of None \<Rightarrow> None
            | Some prev \<Rightarrow>
              (case b_put B blocksBucket (be_bytes 32 (sy_Hash b)) (gb_sync_enc g b) (ch_Db s) of None \<Rightarrow> None
               | Some d \<Rightarrow> map_option (\<lambda>d. s\<lparr>ch_Db := d, ch_SyncBlock := Some b, ch_Epoch := ch_Epoch s + 1, ch_Group := G,
                     ch_PrevSync := prev, ch_Tip := sy_Hash b\<rparr>)
                   (b_put B blocksBucket (key_lsb (ch_me s)) (be_bytes 32 (sy_Hash b)) d)))))"

definition AddSyncBlockFromOtherShards :: "'d bolt \<Rightarrow> gob \<Rightarrow> SyncBlock \<Rightarrow> int \<Rightarrow> 'd RepChain \<Rightarrow> 'd RepChain option" where
  "AddSyncBlockFromOtherShards B g b k s =
     (case b_put B blocksBucket (be_bytes 32 (sy_Hash b)) (gb_sync_enc g b) (ch_Db s) of None \<Rightarrow> None
      | Some d \<Rightarrow> if k < 0 then None
          else map_option (\<lambda>prev. s\<lparr>ch_Db := d, ch_PrevSync := prev\<rparr>) (put_idx (ch_PrevSync s) (nat k) (sy_Hash b)))"

text \<open>\<open>CreateRepBlockchain\<close> removes an old file. Both fail without a database only by ending the
  program. \<open>copy(tip[:], v)\<close> copies at most 32 bytes.\<close>

definition CreateRepBlockchain :: "'d bolt \<Rightarrow> gob \<Rightarrow> i64 \<Rightarrow> 'd RepChain \<Rightarrow> 'd RepChain option" where
  "CreateRepBlockchain B g now s =
     (let b = NewGenesisRepBlock now in
      case create_bucket B (bk_empty B) blocksBucket of Inl _ \<Rightarrow> None
      | Inr d \<Rightarrow> store_rep B g b (s\<lparr>ch_Db := d, ch_Round := ch_Round s + 1\<rparr>))"

definition NewRepBlockchain :: "'d bolt \<Rightarrow> gob \<Rightarrow> i64 \<Rightarrow> 'd RepChain \<Rightarrow> 'd RepChain option" where
  "NewRepBlockchain B g now s =
     (if bk_has B (ch_Db s) blocksBucket
      then let v = (case bk_get B (ch_Db s) blocksBucket key_lb of None \<Rightarrow> [] | Some v \<Rightarrow> v) in
        Some (s\<lparr>ch_Tip := be_word (take 32 (v @ replicate 32 0))\<rparr>)
      else map_option (\<lambda>s'. s'\<lparr>ch_RepBlock := ch_RepBlock s\<rparr>)
        (store_rep B g (NewGenesisRepBlock now) (s\<lparr>ch_Db := bk_create B (ch_Db s) blocksBucket\<rparr>)))"

text \<open>An iterator is the hash it is at; each step reads the block of that hash and moves to the one
  before. A hash that is not stored, or does not decode, panics.\<close>

definition Iterator :: "'d RepChain \<Rightarrow> hash" where "Iterator s = ch_Tip s"

definition stored :: "'d bolt \<Rightarrow> 'd \<Rightarrow> hash \<Rightarrow> bytes option" where
  "stored B d h = map_option (\<lambda>v. case v of None \<Rightarrow> [] | Some v \<Rightarrow> v) (b_get B d blocksBucket (be_bytes 32 h))"

definition Next :: "'d bolt \<Rightarrow> gob \<Rightarrow> 'd \<Rightarrow> hash \<Rightarrow> (ReputationBlock \<times> hash) option" where
  "Next B g d h = (case stored B d h of None \<Rightarrow> None
     | Some v \<Rightarrow> map_option (\<lambda>b. (b, rp_PrevRepBlockHash b)) (gb_rep_dec g v))"

definition NextFromSB :: "'d bolt \<Rightarrow> gob \<Rightarrow> 'd \<Rightarrow> hash \<Rightarrow> (SyncBlock \<times> hash) option" where
  "NextFromSB B g d h = (case stored B d h of None \<Rightarrow> None
     | Some v \<Rightarrow> map_option (\<lambda>b. (b, sy_PrevRepBlockHash b)) (gb_sync_dec g v))"

text \<open>\<open>None\<close> is a panic or a walk that never meets a start block.\<close>

partial_function (option) NextToStart :: "'d bolt \<Rightarrow> gob \<Rightarrow> 'd \<Rightarrow> hash \<Rightarrow> (ReputationBlock \<times> hash) option" where
  "NextToStart B g d h =
     (case Next B g d h of None \<Rightarrow> None
      | Some (b, h') \<Rightarrow> if rp_StartBlock b then Some (b, h') else NextToStart B g d h')"

section \<open>Walking back over an epoch\<close>

definition rep_store_ok :: "'d bolt \<times> gob \<times> 'd \<Rightarrow> bool" where
  "rep_store_ok s \<longleftrightarrow> (case s of (B, g, d) \<Rightarrow> bolt_ok B \<and> gob_ok g \<and> bk_has B d blocksBucket)"

text \<open>What \<open>store_rep\<close> does to the database.\<close>

definition rep_put :: "ReputationBlock \<Rightarrow> 'd bolt \<times> gob \<times> 'd \<Rightarrow> ('d bolt \<times> gob \<times> 'd) option" where
  "rep_put b s = (case s of (B, g, d) \<Rightarrow>
     (case b_put B blocksBucket (be_bytes 32 (rp_Hash b)) (gb_rep_enc g b) d of None \<Rightarrow> None
      | Some d \<Rightarrow> map_option (\<lambda>d. (B, g, d)) (b_put B blocksBucket key_lb (be_bytes 32 (rp_Hash b)) d)))"

definition rep_load :: "'d bolt \<times> gob \<times> 'd \<Rightarrow> hash \<Rightarrow> ReputationBlock option" where
  "rep_load s h = (case s of (B, g, d) \<Rightarrow> map_option fst (Next B g d h))"

lemma store_rep_put:
  "store_rep B g b s = map_option (\<lambda>(_, _, d). s\<lparr>ch_Db := d, ch_RepBlock := Some b, ch_Tip := rp_Hash b\<rparr>)
     (rep_put b (B, g, ch_Db s))"
  by (simp add: store_rep_def rep_put_def option.map_comp comp_def split: option.split)

lemma be_bytes_32_short: "length k \<noteq> 32 \<Longrightarrow> be_bytes 32 (h :: hash) \<noteq> k" "length k \<noteq> 32 \<Longrightarrow> k \<noteq> be_bytes 32 (h :: hash)"
  by auto

lemma length_key_lb [simp]: "length key_lb = 2"
  by (simp add: key_lb_def str_bytes_def)

interpretation rep_store: block_store rep_store_ok "\<lambda>_. True" rep_put rep_load rp_Hash rp_PrevRepBlockHash id
proof
  fix s :: "'d bolt \<times> gob \<times> 'd" and b
  obtain B g d where s: "s = (B, g, d)" by (cases s)
  assume "rep_store_ok s"
  then have ok: "bolt_ok B" "gob_ok g" "bk_has B d blocksBucket" by (simp_all add: s rep_store_ok_def)
  show "\<exists>s'. rep_put b s = Some s' \<and> rep_store_ok s'"
    using ok by (simp add: s rep_put_def rep_store_ok_def b_put_def bolt_simps)
  fix s' h assume "rep_put b s = Some s'"
  then have s': "s' = (B, g, bk_put B (bk_put B d blocksBucket (be_bytes 32 (rp_Hash b)) (gb_rep_enc g b)) blocksBucket key_lb (be_bytes 32 (rp_Hash b)))"
    using ok by (auto simp: s rep_put_def b_put_def bolt_simps)
  show "rep_load s' h = (if h = rp_Hash b then Some (id b) else rep_load s h)"
    using ok be_bytes_32_short [of key_lb h]
    by (auto simp: s s' rep_load_def Next_def stored_def b_get_def bolt_simps gob_ok_def split: option.split)
qed simp

lemma rep_load_Next: "rep_load (B, g, d) h = Some b \<Longrightarrow> Next B g d h = Some (b, rp_PrevRepBlockHash b)"
  by (auto simp: rep_load_def Next_def split: option.splits)

text \<open>The walk to the start of the epoch.\<close>

lemma NextToStart_walk:
  "walk_back (rep_load (B, g, d)) rp_PrevRepBlockHash (Suc (length bs)) h = Some (bs @ [b]) \<Longrightarrow>
   \<forall>x \<in> set bs. \<not> rp_StartBlock x \<Longrightarrow> rp_StartBlock b \<Longrightarrow> NextToStart B g d h = Some (b, rp_PrevRepBlockHash b)"
proof (induction bs arbitrary: h)
  case Nil
  then show ?case by (subst NextToStart.simps) (auto split: option.splits dest!: rep_load_Next)
next
  case (Cons x bs)
  then have "Next B g d h = Some (x, rp_PrevRepBlockHash x)"
      "walk_back (rep_load (B, g, d)) rp_PrevRepBlockHash (Suc (length bs)) (rp_PrevRepBlockHash x) = Some (bs @ [b])"
    by (auto simp del: walk_back.simps simp: walk_back.simps(2) [of _ _ "Suc (length bs)"] split: option.splits dest!: rep_load_Next)
  then show ?case using Cons by (subst NextToStart.simps) simp
qed

text \<open>One round: a block is mined and stored with its signature.\<close>

type_synonym rep_input = "i64 \<times> i64 list \<times> hash list \<times> bytes"

fun rep_round :: "'d bolt \<Rightarrow> gob \<Rightarrow> rep_input \<Rightarrow> 'd RepChain \<Rightarrow> 'd RepChain option" where
  "rep_round B g (now, repData, cache, cosig) s =
     (case MineRepBlock now repData cache s of None \<Rightarrow> None | Some s1 \<Rightarrow> AddRepSig B g cosig s1)"

fun rep_rounds :: "'d bolt \<Rightarrow> gob \<Rightarrow> rep_input list \<Rightarrow> 'd RepChain \<Rightarrow> ('d RepChain \<times> ReputationBlock list) option" where
  "rep_rounds B g [] s = Some (s, [])"
| "rep_rounds B g (r # rs) s =
     (case rep_round B g r s of None \<Rightarrow> None
      | Some s1 \<Rightarrow> (case ch_RepBlock s1 of None \<Rightarrow> None
         | Some b \<Rightarrow> map_option (\<lambda>(t, bs). (t, b # bs)) (rep_rounds B g rs s1)))"

text \<open>A node that has its shard's row and a current block can mine.\<close>

definition can_mine :: "'d RepChain \<Rightarrow> bool" where
  "can_mine s \<longleftrightarrow> (\<exists>row. at (gr_ShardToGlobal (ch_Group s)) (ch_me s) = Some row \<and> 20 \<le> length row) \<and> ch_RepBlock s \<noteq> None"

definition made_from :: "rep_input \<Rightarrow> ReputationBlock \<Rightarrow> bool" where
  "made_from r b \<longleftrightarrow> (case r of (now, repData, cache, cosig) \<Rightarrow> rp_Timestamp b = now \<and> rp_PrevTxBlockHashes b = cache
     \<and> rp_Cosig b = cosig \<and> map rt_Rep (rp_RepTransactions b) = map (\<lambda>r. word_of_int (sint r sdiv 10)) (take 20 repData)
     \<and> rp_Hash b = Sum256 (rep_prepareData b))"

lemma rep_prepareData_upd [simp]:
  "rep_prepareData (b\<lparr>rp_Hash := h\<rparr>) = rep_prepareData b" "rep_prepareData (b\<lparr>rp_Cosig := c\<rparr>) = rep_prepareData b"
  by (simp_all add: rep_prepareData_def HashRep_def HashRep_data_def HashPrevTxBlockHashes_def)

lemma NewRepBlock_Some:
  assumes "at (gr_ShardToGlobal G) me = Some row" and "20 \<le> length row" and "20 \<le> length repData"
  shows "\<exists>b. NewRepBlock now G me repData start prevSync cache prev = Some b \<and> made_from (now, repData, cache, [0]) b
    \<and> rp_StartBlock b = start \<and> rp_PrevRepBlockHash b = (if start then MagicHash else prev)"
proof -
  have "those (map (\<lambda>i. case at (gr_ShardToGlobal G) me of None \<Rightarrow> None
        | Some row \<Rightarrow> (case (idx row i, idx repData i) of
            (Some g, Some r) \<Rightarrow> Some (NewRepTransaction g r) | _ \<Rightarrow> None)) [0..<unat ShardSize])
      = Some (map (\<lambda>i. NewRepTransaction (row ! i) (repData ! i)) [0..<20])" (is "?t = Some ?txs")
    using assms unat_consts(2) by (auto intro!: those_map_cong simp: idx_def)
  moreover have "map rt_Rep ?txs = map (\<lambda>r. word_of_int (sint r sdiv 10)) (take 20 repData)"
    using assms(3) by (intro nth_equalityI) (simp_all add: NewRepTransaction_def)
  note txs = this
  define b where "b = \<lparr>rp_Timestamp = now, rp_RepTransactions = ?txs, rp_StartBlock = start,
    rp_PrevSyncBlockHash = (if start then prevSync else []), rp_PrevTxBlockHashes = cache,
    rp_PrevRepBlockHash = (if start then MagicHash else prev), rp_Hash = 0, rp_Nonce = 0, rp_Cosig = [0]\<rparr>"
  have "NewRepBlock now G me repData start prevSync cache prev = Some (b\<lparr>rp_Hash := Sum256 (rep_prepareData b)\<rparr>)"
    unfolding NewRepBlock_def calculation b_def by (simp add: Let_def)
  moreover have "rp_Timestamp b = now" "rp_RepTransactions b = ?txs" "rp_StartBlock b = start" "rp_PrevTxBlockHashes b = cache"
      "rp_PrevRepBlockHash b = (if start then MagicHash else prev)" "rp_Cosig b = [0]"
    by (simp_all add: b_def)
  ultimately show ?thesis using txs by (simp add: made_from_def)
qed

lemma rep_round_Some:
  assumes ok: "rep_store_ok (B, g, ch_Db s)" and can: "can_mine s" and len: "20 \<le> length (fst (snd r))"
  shows "\<exists>s1 b cur. rep_round B g r s = Some s1 \<and> ch_RepBlock s = Some cur \<and> ch_RepBlock s1 = Some b \<and> made_from r b
    \<and> rp_StartBlock b = ch_StartFlag s \<and> rp_PrevRepBlockHash b = (if ch_StartFlag s then MagicHash else rp_Hash cur)
    \<and> rep_put b (B, g, ch_Db s) = Some (B, g, ch_Db s1) \<and> rep_store_ok (B, g, ch_Db s1) \<and> can_mine s1
    \<and> ch_Tip s1 = rp_Hash b \<and> \<not> ch_StartFlag s1 \<and> ch_Round s1 = ch_Round s + 1 \<and> ch_Epoch s1 = ch_Epoch s
    \<and> ch_PrevSync s1 = ch_PrevSync s \<and> ch_Group s1 = ch_Group s \<and> ch_me s1 = ch_me s"
proof -
  obtain now repData cache cosig where r: "r = (now, repData, cache, cosig)" by (cases r) auto
  obtain row cur where s: "at (gr_ShardToGlobal (ch_Group s)) (ch_me s) = Some row" "20 \<le> length row" "ch_RepBlock s = Some cur"
    using can by (auto simp: can_mine_def)
  obtain b where b: "NewRepBlock now (ch_Group s) (ch_me s) repData (ch_StartFlag s) (ch_PrevSync s) cache (rp_Hash cur) = Some b"
      "made_from (now, repData, cache, [0]) b" "rp_StartBlock b = ch_StartFlag s"
      "rp_PrevRepBlockHash b = (if ch_StartFlag s then MagicHash else rp_Hash cur)"
    using NewRepBlock_Some [OF s(1,2), of repData now "ch_StartFlag s" "ch_PrevSync s" cache "rp_Hash cur"] len
    unfolding r by fastforce
  let ?b = "b\<lparr>rp_Cosig := cosig\<rparr>"
  obtain z where z: "rep_put ?b (B, g, ch_Db s) = Some z" "rep_store_ok z"
    using rep_store.put_ok [OF ok] by blast
  then obtain d where d: "z = (B, g, d)" by (auto simp: rep_put_def split: option.splits)
  have "rep_round B g r s = Some (s\<lparr>ch_Db := d, ch_RepBlock := Some ?b, ch_Round := ch_Round s + 1, ch_StartFlag := False,
      ch_Tip := rp_Hash b\<rparr>)"
  proof -
    have "MineRepBlock now repData cache s = Some (s\<lparr>ch_RepBlock := Some b, ch_Round := ch_Round s + 1, ch_StartFlag := False\<rparr>)"
      unfolding MineRepBlock_def s(3) option.case b(1) by simp
    moreover have "rep_put ?b (B, g, ch_Db (s\<lparr>ch_RepBlock := Some b, ch_Round := ch_Round s + 1, ch_StartFlag := False\<rparr>)) = Some (B, g, d)"
      using z(1) d by simp
    ultimately show ?thesis unfolding r rep_round.simps by (simp add: AddRepSig_def store_rep_put)
  qed
  moreover have "made_from r ?b" using b(2) by (simp add: r made_from_def)
  moreover have "can_mine (s\<lparr>ch_Db := d, ch_RepBlock := Some ?b, ch_Round := ch_Round s + 1, ch_StartFlag := False,
      ch_Tip := rp_Hash b\<rparr>)" using s by (simp add: can_mine_def)
  ultimately show ?thesis
    using b(3,4) z s(3) unfolding d by (intro exI [of _ "s\<lparr>ch_Db := d, ch_RepBlock := Some ?b, ch_Round := ch_Round s + 1,
      ch_StartFlag := False, ch_Tip := rp_Hash b\<rparr>"] exI [of _ ?b] exI [of _ cur]) simp
qed

lemma rep_put_store: "rep_put b (B, g, d) = Some z \<Longrightarrow> fst z = B \<and> fst (snd z) = g"
  by (auto simp: rep_put_def split: option.splits)

text \<open>The rounds of an epoch make a linked list of blocks and put them into the store in order.\<close>

lemma rep_rounds_Some:
  "rep_store_ok (B, g, ch_Db s) \<Longrightarrow> can_mine s \<Longrightarrow> \<forall>r \<in> set rs. 20 \<le> length (fst (snd r)) \<Longrightarrow>
   \<exists>s' bs. rep_rounds B g rs s = Some (s', bs) \<and> list_all2 made_from rs bs
     \<and> ofold rep_put bs (B, g, ch_Db s) = Some (B, g, ch_Db s') \<and> linked rp_Hash rp_PrevRepBlockHash bs
     \<and> map rp_StartBlock bs = (case rs of [] \<Rightarrow> [] | r # rs \<Rightarrow> ch_StartFlag s # map (\<lambda>_. False) rs)
     \<and> (bs \<noteq> [] \<longrightarrow> rp_PrevRepBlockHash (hd bs) = (if ch_StartFlag s then MagicHash else rp_Hash (the (ch_RepBlock s)))
          \<and> ch_Tip s' = rp_Hash (last bs) \<and> ch_RepBlock s' = Some (last bs))
     \<and> ch_Round s' = ch_Round s + int (length rs) \<and> rep_store_ok (B, g, ch_Db s') \<and> can_mine s'
     \<and> ch_Group s' = ch_Group s \<and> ch_me s' = ch_me s \<and> ch_PrevSync s' = ch_PrevSync s \<and> ch_Epoch s' = ch_Epoch s"
proof (induction rs arbitrary: s)
  case (Cons r rs)
  obtain s1 b cur where 1: "rep_round B g r s = Some s1" "ch_RepBlock s = Some cur" "ch_RepBlock s1 = Some b" "made_from r b"
      "rp_StartBlock b = ch_StartFlag s" "rp_PrevRepBlockHash b = (if ch_StartFlag s then MagicHash else rp_Hash cur)"
      "rep_put b (B, g, ch_Db s) = Some (B, g, ch_Db s1)" "rep_store_ok (B, g, ch_Db s1)" "can_mine s1"
      "ch_Tip s1 = rp_Hash b" "\<not> ch_StartFlag s1" "ch_Round s1 = ch_Round s + 1"
      "ch_Epoch s1 = ch_Epoch s" "ch_PrevSync s1 = ch_PrevSync s" "ch_Group s1 = ch_Group s" "ch_me s1 = ch_me s"
    using rep_round_Some [OF Cons.prems(1,2), of r] Cons.prems(3) by (metis list.set_intros(1))
  obtain s' bs where 2: "rep_rounds B g rs s1 = Some (s', bs)" "list_all2 made_from rs bs"
      "ofold rep_put bs (B, g, ch_Db s1) = Some (B, g, ch_Db s')" "linked rp_Hash rp_PrevRepBlockHash bs"
      "map rp_StartBlock bs = map (\<lambda>_. False) rs"
      "bs \<noteq> [] \<longrightarrow> rp_PrevRepBlockHash (hd bs) = rp_Hash b \<and> ch_Tip s' = rp_Hash (last bs) \<and> ch_RepBlock s' = Some (last bs)"
      "ch_Round s' = ch_Round s1 + int (length rs)" "rep_store_ok (B, g, ch_Db s')" "can_mine s'"
      "ch_Group s' = ch_Group s1" "ch_me s' = ch_me s1" "ch_PrevSync s' = ch_PrevSync s1" "ch_Epoch s' = ch_Epoch s1"
    using Cons.IH [OF 1(8,9)] Cons.prems(3) 1(3,11) by (cases rs) auto
  have "linked rp_Hash rp_PrevRepBlockHash (b # bs)" using 2(4,6) by (cases bs) auto
  moreover have "bs = [] \<Longrightarrow> s' = s1" using 2(1,2) by (cases rs) auto
  ultimately show ?case using 1 2 by (cases "bs = []") auto
qed simp

lemma be_bytes_i64_inj [simp]: "be_bytes 8 (v :: i64) = be_bytes 8 w \<longleftrightarrow> v = w"
  using be_bytes_inj [of 8 v w] by auto

text \<open>The parts of the hashed data that link a block.\<close>

lemma rep_prepareData_eqD:
  assumes "rep_prepareData x = rep_prepareData y"
  shows "HashRep x = HashRep y" "HashPrevTxBlockHashes x = HashPrevTxBlockHashes y" "rp_StartBlock x = rp_StartBlock y"
    "rp_PrevRepBlockHash x = rp_PrevRepBlockHash y" "word_of_int (rp_Nonce x) = (word_of_int (rp_Nonce y) :: i64)"
  using assms
  by (auto simp: rep_prepareData_def HashRep_def HashPrevTxBlockHashes_def BoolToHex_def IntToHex_def split: if_splits)

definition rep_collision :: "ReputationBlock list \<Rightarrow> bool" where
  "rep_collision bs \<longleftrightarrow> (\<exists>x \<in> set bs. \<exists>y \<in> set bs. collision (rep_prepareData x) (rep_prepareData y))"

lemma linked_nth: "linked key prev bs \<Longrightarrow> Suc i < length bs \<Longrightarrow> prev (bs ! Suc i) = key (bs ! i)"
  by (induction key prev bs arbitrary: i rule: linked.induct) (auto simp: nth_Cons split: nat.split)

text \<open>The blocks of an epoch have different hashes: only the first has the start flag.\<close>

lemma epoch_distinct:
  assumes link: "linked rp_Hash rp_PrevRepBlockHash bs" and made: "\<And>b. b \<in> set bs \<Longrightarrow> rp_Hash b = Sum256 (rep_prepareData b)"
    and start: "map rp_StartBlock bs = True # map (\<lambda>_. False) cs" and no: "\<not> rep_collision bs"
  shows "distinct (map rp_Hash bs)"
proof -
  have len: "length bs = Suc (length cs)" using arg_cong [OF start, of length] by simp
  have "rp_Hash (bs ! i) \<noteq> rp_Hash (bs ! j)" if "i < j" "j < length bs" for i j
    using that
  proof (induction i arbitrary: j)
    case 0
    have "map rp_StartBlock bs ! 0 \<noteq> map rp_StartBlock bs ! j"
      using 0 len unfolding start by (cases j) simp_all
    then have "rp_StartBlock (bs ! 0) \<noteq> rp_StartBlock (bs ! j)" using 0 len by (simp add: nth_map)
    then show ?case
      using no made 0 rep_prepareData_eqD(3) Sum256_eqD unfolding rep_collision_def
      by (metis (no_types, lifting) less_trans nth_mem)
  next
    case (Suc i)
    then obtain k where j: "j = Suc k" by (cases j) auto
    have "rp_PrevRepBlockHash (bs ! Suc i) \<noteq> rp_PrevRepBlockHash (bs ! j)"
      using Suc.IH [of k] Suc.prems linked_nth [OF link] by (simp add: j)
    then show ?case
      using no made Suc.prems rep_prepareData_eqD(4) Sum256_eqD unfolding rep_collision_def
      by (metis (no_types, lifting) less_trans nth_mem)
  qed
  then show ?thesis
    unfolding distinct_conv_nth by (metis length_map linorder_neqE_nat nth_map)
qed

text \<open>The end of the epoch: the sync block goes into the same bucket and leaves the blocks alone.\<close>

lemma NewSynBlock_fields:
  "NewSynBlock now G me prevSync prevRep prevFB cs = Some (b, G') \<Longrightarrow>
   sy_PrevRepBlockHash b = prevRep \<and> sy_PrevSyncBlockHash b = prevSync \<and> sy_PrevFinalBlockHash b = prevFB
   \<and> sy_CoSignature b = cs \<and> sy_Hash b = Sum256 (sync_prepareData b)"
  by (auto simp: NewSynBlock_def Let_def sync_prepareData_def HashIDList_data_def HashTotalRep_data_def)

lemma AddSyncBlock_db:
  assumes ok: "rep_store_ok (B, g, ch_Db s)" and cur: "ch_RepBlock s = Some cur" and t: "AddSyncBlock B g now pre cs s = Some t"
  shows "\<exists>sb. ch_SyncBlock t = Some sb \<and> sy_PrevRepBlockHash sb = rp_Hash cur \<and> sy_PrevFinalBlockHash sb = pre
    \<and> sy_CoSignature sb = cs \<and> sy_Hash sb = Sum256 (sync_prepareData sb) \<and> ch_Tip t = sy_Hash sb
    \<and> NextFromSB B g (ch_Db t) (sy_Hash sb) = Some (sb, rp_Hash cur)
    \<and> (\<forall>h. h \<noteq> sy_Hash sb \<longrightarrow> rep_load (B, g, ch_Db t) h = rep_load (B, g, ch_Db s) h)"
proof -
  have B: "bolt_ok B" "gob_ok g" "bk_has B (ch_Db s) blocksBucket" using ok by (simp_all add: rep_store_ok_def)
  obtain sb G' where sb: "NewSynBlock now (ch_Group s) (ch_me s) (ch_PrevSync s) (rp_Hash cur) pre cs = Some (sb, G')"
    using t cur by (auto simp: AddSyncBlock_def split: option.splits prod.splits)
  define d where "d = bk_put B (bk_put B (ch_Db s) blocksBucket (be_bytes 32 (sy_Hash sb)) (gb_sync_enc g sb)) blocksBucket
    (key_lsb (ch_me s)) (be_bytes 32 (sy_Hash sb))"
  have t': "0 \<le> ch_me s" "ch_me s < 1" "ch_Db t = d" "ch_SyncBlock t = Some sb" "ch_Tip t = sy_Hash sb"
    using t B by (auto simp: AddSyncBlock_def cur sb b_put_def bolt_simps d_def put_idx_def split: if_splits)
  then have me: "ch_me s = 0" by simp
  have "length (key_lsb 0) = 4" by (simp add: key_lsb_def str_bytes_def FormatInt_def itoa.simps)
  then have k: "be_bytes 32 (h :: hash) \<noteq> key_lsb 0" for h using be_bytes_32_short [of "key_lsb 0"] by simp
  have get: "stored B d h = (if h = sy_Hash sb then Some (gb_sync_enc g sb) else stored B (ch_Db s) h)" for h
    using B k [of h] by (simp add: stored_def b_get_def d_def bolt_simps me)
  show ?thesis
    using NewSynBlock_fields [OF sb] t' B by (auto simp: NextFromSB_def rep_load_def Next_def get gob_ok_def)
qed

lemma last_hd_split:
  assumes "map f bs = True # map (\<lambda>_. False) cs"
  shows "\<exists>b as. bs = b # as \<and> f b \<and> (\<forall>x \<in> set as. \<not> f x)"
proof -
  obtain b as where bs: "bs = b # as" using assms by (cases bs) auto
  then have f: "f b" "map f as = map (\<lambda>_. False) cs" using assms by simp_all
  have "f ` set as = (\<lambda>_. False) ` set cs" using arg_cong [OF f(2), of set] by simp
  then show ?thesis using bs f(1) by blast
qed

lemma made_from_hash: "made_from r b \<Longrightarrow> rp_Hash b = Sum256 (rep_prepareData b)"
  by (cases r) (simp add: made_from_def)

lemma walk_start:
  assumes "\<And>b. b \<in> set bs \<Longrightarrow> rep_load (B, g, d) (rp_Hash b) = Some b" and "linked rp_Hash rp_PrevRepBlockHash bs"
    and "map rp_StartBlock bs = True # map (\<lambda>_. False) cs" and "rp_PrevRepBlockHash (hd bs) = MagicHash"
  shows "walk_back (rep_load (B, g, d)) rp_PrevRepBlockHash (length bs) (rp_Hash (last bs)) = Some (rev bs)
    \<and> NextToStart B g d (rp_Hash (last bs)) = Some (hd bs, MagicHash)"
proof -
  obtain b as where bs: "bs = b # as" "rp_StartBlock b" "\<forall>x \<in> set as. \<not> rp_StartBlock x"
    using last_hd_split [OF assms(3)] by blast
  have "walk_back (rep_load (B, g, d)) rp_PrevRepBlockHash (length bs) (rp_Hash (last bs)) = Some (map id (rev bs))"
    by (rule walk_back_linked [where view = id]) (use assms bs in auto)
  then show ?thesis
    using NextToStart_walk [of B g d "rev as" "rp_Hash (last bs)" b] bs assms(4) by simp
qed

text \<open>C29: An epoch of the reputation chain can be walked back. From a node that has its shard's row
  and whose start flag is set, any number of rounds, each with a reputation for every member, mines
  and stores one block per round, with what the round gave it; then the iterator that starts at the
  tip visits the blocks in the opposite order, and \<open>NextToStart\<close> from the tip returns the first
  block of the epoch. After the sync block is added the tip is that block, \<open>NextFromSB\<close> leads from
  it to the last block of the epoch and from there the walk is the same. The only exceptions are
  SHA-256 collisions between data of these blocks.\<close>

theorem rep_epoch_walk:
  assumes "bolt_ok B" and "gob_ok g" and "bk_has B (ch_Db s) blocksBucket" and "can_mine s" and "ch_StartFlag s"
    and "rs \<noteq> []" and "\<forall>r \<in> set rs. 20 \<le> length (fst (snd r))"
  shows "\<exists>s' bs. rep_rounds B g rs s = Some (s', bs) \<and> list_all2 made_from rs bs
    \<and> (rep_collision bs \<or>
        (walk_back (\<lambda>h. map_option fst (Next B g (ch_Db s') h)) rp_PrevRepBlockHash (length rs) (Iterator s') = Some (rev bs)
         \<and> NextToStart B g (ch_Db s') (Iterator s') = Some (hd bs, MagicHash)
         \<and> (\<forall>now pre cs t. AddSyncBlock B g now pre cs s' = Some t \<longrightarrow>
              (\<exists>sb. ch_SyncBlock t = Some sb \<and> NextFromSB B g (ch_Db t) (Iterator t) = Some (sb, rp_Hash (last bs))
                 \<and> (NextToStart B g (ch_Db t) (rp_Hash (last bs)) = Some (hd bs, MagicHash)
                    \<or> (\<exists>b \<in> set bs. collision (rep_prepareData b) (sync_prepareData sb)))))))"
proof -
  have ok: "rep_store_ok (B, g, ch_Db s)" using assms(1-3) by (simp add: rep_store_ok_def)
  obtain s' bs where r: "rep_rounds B g rs s = Some (s', bs)" "list_all2 made_from rs bs"
      "ofold rep_put bs (B, g, ch_Db s) = Some (B, g, ch_Db s')" "linked rp_Hash rp_PrevRepBlockHash bs"
      "map rp_StartBlock bs = (case rs of [] \<Rightarrow> [] | r # rs \<Rightarrow> ch_StartFlag s # map (\<lambda>_. False) rs)"
      "bs \<noteq> [] \<longrightarrow> rp_PrevRepBlockHash (hd bs) = (if ch_StartFlag s then MagicHash else rp_Hash (the (ch_RepBlock s)))
          \<and> ch_Tip s' = rp_Hash (last bs) \<and> ch_RepBlock s' = Some (last bs)"
      "rep_store_ok (B, g, ch_Db s')"
    using rep_rounds_Some [OF ok assms(4,7)] by blast
  have len: "length rs = length bs" using r(2) by (rule list_all2_lengthD)
  then have ne: "bs \<noteq> []" using assms(6) by auto
  have start: "map rp_StartBlock bs = True # map (\<lambda>_. False) (tl rs)" using r(5) assms(5,6) by (cases rs) auto
  have made: "rp_Hash b = Sum256 (rep_prepareData b)" if "b \<in> set bs" for b
    using r(2) that by (auto simp: list_all2_conv_all_nth in_set_conv_nth intro: made_from_hash)
  show ?thesis
  proof (cases "rep_collision bs")
    case True
    then show ?thesis using r(1,2) by auto
  next
    case False
    have dist: "distinct (map rp_Hash bs)" by (rule epoch_distinct [OF r(4) made start False])
    have load: "rep_load (B, g, ch_Db s') (rp_Hash b) = Some b" if "b \<in> set bs" for b
      using rep_store.load_puts [OF r(3) ok _ dist that] by simp
    have hd: "rp_PrevRepBlockHash (hd bs) = MagicHash" using r(6) ne assms(5) by simp
    have sync: "\<exists>sb. ch_SyncBlock t = Some sb \<and> NextFromSB B g (ch_Db t) (Iterator t) = Some (sb, rp_Hash (last bs))
        \<and> (NextToStart B g (ch_Db t) (rp_Hash (last bs)) = Some (hd bs, MagicHash)
           \<or> (\<exists>b \<in> set bs. collision (rep_prepareData b) (sync_prepareData sb)))"
      if t: "AddSyncBlock B g now pre cs s' = Some t" for now pre cs t
    proof -
      obtain sb where sb: "ch_SyncBlock t = Some sb" "sy_Hash sb = Sum256 (sync_prepareData sb)" "ch_Tip t = sy_Hash sb"
          "NextFromSB B g (ch_Db t) (sy_Hash sb) = Some (sb, rp_Hash (last bs))"
          "\<forall>h. h \<noteq> sy_Hash sb \<longrightarrow> rep_load (B, g, ch_Db t) h = rep_load (B, g, ch_Db s') h"
        using AddSyncBlock_db [OF r(7) _ t] r(6) ne by blast
      have "length (rep_prepareData b) \<noteq> length (sync_prepareData sb)" for b
        by (simp add: rep_prepareData_def sync_prepareData_def HashRep_def HashPrevTxBlockHashes_def BoolToHex_def IntToHex_def)
      then have ne_msg: "rep_prepareData b \<noteq> sync_prepareData sb" for b by metis
      show ?thesis
      proof (cases "\<exists>b \<in> set bs. rp_Hash b = sy_Hash sb")
        case True
        then have "\<exists>b \<in> set bs. collision (rep_prepareData b) (sync_prepareData sb)"
          using made ne_msg by (auto simp: collision_def sb(2))
        then show ?thesis using sb by (auto simp: Iterator_def)
      next
        case False
        then have "rep_load (B, g, ch_Db t) (rp_Hash b) = Some b" if "b \<in> set bs" for b
          using sb(5) load that by auto
        from walk_start [OF this r(4) start hd] show ?thesis using sb by (auto simp: Iterator_def)
      qed
    qed
    have l: "rep_load (B, g, d) = (\<lambda>h. map_option fst (Next B g d h))" for d
      by (rule ext) (simp add: rep_load_def)
    have "walk_back (rep_load (B, g, ch_Db s')) rp_PrevRepBlockHash (length bs) (rp_Hash (last bs)) = Some (rev bs)"
        "NextToStart B g (ch_Db s') (rp_Hash (last bs)) = Some (hd bs, MagicHash)"
      using walk_start [OF load r(4) start hd] by simp_all
    then show ?thesis using r(1,2,6) ne sync len
      by (intro exI [of _ s'] exI [of _ bs]) (simp add: Iterator_def l)
  qed
qed

text \<open>A \<open>gob\<close> that keeps its contract.\<close>

definition toy_rep_code :: "ReputationBlock \<Rightarrow> nat" where
  "toy_rep_code b = to_nat (rp_Timestamp b, map (\<lambda>t. (rt_GlobalID t, rt_Rep t)) (rp_RepTransactions b), rp_StartBlock b,
     rp_PrevSyncBlockHash b, rp_PrevTxBlockHashes b, rp_PrevRepBlockHash b, rp_Hash b, rp_Nonce b, rp_Cosig b)"

definition toy_sync_code :: "SyncBlock \<Rightarrow> nat" where
  "toy_sync_code b = to_nat (sy_Timestamp b, sy_PrevRepBlockHash b, sy_PrevSyncBlockHash b, sy_PrevFinalBlockHash b, sy_IDlist b,
     sy_TotalRep b, sy_CoSignature b, sy_Hash b)"

definition toy_gob :: gob where
  "toy_gob = \<lparr>gb_rep_enc = (\<lambda>b. replicate (toy_rep_code b) 0), gb_rep_dec = (\<lambda>v. Some (inv toy_rep_code (length v))),
     gb_sync_enc = (\<lambda>b. replicate (toy_sync_code b) 0), gb_sync_dec = (\<lambda>v. Some (inv toy_sync_code (length v)))\<rparr>"

lemma inj_map_RepTransaction: "inj (map (\<lambda>t :: RepTransaction. (rt_GlobalID t, rt_Rep t)))"
  by (rule inj_mapI, rule injI) simp

lemma inj_toy_codes: "inj toy_rep_code" "inj toy_sync_code"
  by (rule injI, rule ReputationBlock.equality, auto simp: toy_rep_code_def dest: injD [OF inj_map_RepTransaction])
    (rule injI, rule SyncBlock.equality, auto simp: toy_sync_code_def)

lemma toy_gob_ok: "gob_ok toy_gob"
  by (simp add: gob_ok_def toy_gob_def inj_toy_codes)

definition toy_node :: "mem_db RepChain" where
  "toy_node = \<lparr>ch_Tip = MagicHash, ch_Db = bk_create mem_bolt (bk_empty mem_bolt) blocksBucket, ch_RepBlock = Some (NewGenesisRepBlock 0),
     ch_Round = 0, ch_SyncBlock = None, ch_Epoch = - 1,
     ch_Group = \<lparr>gr_Mems = [], gr_ShardToGlobal = [map int [0..<20]]\<rparr>, ch_me = 0, ch_StartFlag = True, ch_PrevSync = [0]\<rparr>"

lemma rep_epoch_walk_witness:
  "\<exists>s' bs. rep_rounds mem_bolt toy_gob [(1, replicate 20 10, [7], [1]), (2, replicate 20 20, [8, 9], [2])] toy_node = Some (s', bs)
    \<and> length bs = 2
    \<and> (rep_collision bs \<or> NextToStart mem_bolt toy_gob (ch_Db s') (Iterator s') = Some (hd bs, MagicHash))"
proof -
  have "bk_has mem_bolt (ch_Db toy_node) blocksBucket" using mem_bolt_ok by (simp add: toy_node_def bolt_simps)
  moreover have "can_mine toy_node" by (simp add: can_mine_def toy_node_def at_def)
  moreover have "ch_StartFlag toy_node" by (simp add: toy_node_def)
  ultimately show ?thesis
    using rep_epoch_walk [OF mem_bolt_ok toy_gob_ok, of toy_node "[(1, replicate 20 10, [7], [1]), (2, replicate 20 20, [8, 9], [2])]"]
    by (fastforce dest: list_all2_lengthD)
qed

section \<open>What hashes and signatures cover\<close>

lemma concat_map_inj:
  assumes len: "\<And>x. length (f x) = k" and "0 < k"
  shows "concat (map f xs) = concat (map f ys) \<Longrightarrow> map f xs = map f ys"
proof (induction xs arbitrary: ys)
  case Nil
  have "f y \<noteq> []" for y using len [of y] \<open>0 < k\<close> by auto
  with Nil show ?case by (cases ys) auto
next
  case (Cons x xs)
  have "f x \<noteq> []" using len [of x] \<open>0 < k\<close> by auto
  then obtain y zs where ys: "ys = y # zs" using Cons.prems by (cases ys) auto
  then show ?case using Cons len by simp
qed

lemma hashes_data_inj: "hashes_data hs = hashes_data gs \<longleftrightarrow> hs = gs"
proof
  assume "hashes_data hs = hashes_data gs"
  then have "map (be_bytes 32) hs = map (be_bytes 32) gs" unfolding hashes_data_def by (rule concat_map_inj [rotated 2, where k = 32]) simp_all
  then show "hs = gs" by (rule map_injective) (simp add: inj_on_def)
qed simp

lemma HashRep_data_eq:
  "HashRep_data a = HashRep_data b \<longleftrightarrow> map (\<lambda>t. (rt_Rep t, word_of_int (rt_GlobalID t) :: i64)) (rp_RepTransactions a)
     = map (\<lambda>t. (rt_Rep t, word_of_int (rt_GlobalID t))) (rp_RepTransactions b)" (is "?l \<longleftrightarrow> ?r")
proof
  let ?f = "\<lambda>t. IntToHex (rt_Rep t) @ IntToHex (word_of_int (rt_GlobalID t))"
  assume ?l
  then have "map ?f (rp_RepTransactions a) = map ?f (rp_RepTransactions b)"
    unfolding HashRep_data_def by (rule concat_map_inj [rotated 2, where k = 16]) (simp_all add: IntToHex_def)
  then have "map (\<lambda>v. (be_word (take 8 v) :: i64, be_word (drop 8 v) :: i64)) (map ?f (rp_RepTransactions a))
      = map (\<lambda>v. (be_word (take 8 v), be_word (drop 8 v))) (map ?f (rp_RepTransactions b))" by simp
  then show ?r by (simp add: comp_def IntToHex_def be_word_bytes)
next
  assume r: ?r
  have "HashRep_data c = concat (map (\<lambda>(r, i). IntToHex r @ IntToHex i) (map (\<lambda>t. (rt_Rep t, word_of_int (rt_GlobalID t))) (rp_RepTransactions c)))" for c
    by (simp add: HashRep_data_def comp_def)
  then show ?l by (simp only: r)
qed

text \<open>The hash of a reputation block binds its reputations, the transaction blocks it covers, its
  start flag, its predecessor and its nonce; not the sync blocks it follows, nor its time.\<close>

lemma RepBlock_binding:
  assumes "Sum256 (rep_prepareData a) = Sum256 (rep_prepareData b)"
  shows "(map (\<lambda>t. (rt_Rep t, word_of_int (rt_GlobalID t) :: i64)) (rp_RepTransactions a)
        = map (\<lambda>t. (rt_Rep t, word_of_int (rt_GlobalID t))) (rp_RepTransactions b)
      \<and> rp_PrevTxBlockHashes a = rp_PrevTxBlockHashes b \<and> rp_StartBlock a = rp_StartBlock b
      \<and> rp_PrevRepBlockHash a = rp_PrevRepBlockHash b)
    \<or> collision (rep_prepareData a) (rep_prepareData b) \<or> collision (HashRep_data a) (HashRep_data b)
    \<or> collision (hashes_data (rp_PrevTxBlockHashes a)) (hashes_data (rp_PrevTxBlockHashes b))"
proof (cases "rep_prepareData a = rep_prepareData b")
  case True
  from rep_prepareData_eqD [OF this]
  have "Sum256 (HashRep_data a) = Sum256 (HashRep_data b)" "rp_StartBlock a = rp_StartBlock b"
      "Sum256 (hashes_data (rp_PrevTxBlockHashes a)) = Sum256 (hashes_data (rp_PrevTxBlockHashes b))"
      "rp_PrevRepBlockHash a = rp_PrevRepBlockHash b"
    by (simp_all add: HashRep_def HashPrevTxBlockHashes_def)
  then show ?thesis unfolding HashRep_data_eq [symmetric] hashes_data_inj [symmetric] by (auto simp: collision_def)
qed (use assms in \<open>simp add: collision_def\<close>)

lemma RepBlock_unbound:
  "rep_prepareData (b\<lparr>rp_PrevSyncBlockHash := hs, rp_Timestamp := t\<rparr>) = rep_prepareData b"
  by (simp add: rep_prepareData_def HashRep_def HashRep_data_def HashPrevTxBlockHashes_def)

text \<open>The signature of a sync block covers the hash of the last reputation block only: with it go any
  reputations, final block and earlier sync blocks, and the hash covers the reputations without the
  borders between members.\<close>

lemma SyncBlock_unsigned:
  "SyncBlock_VerifyCoSignature C ms (b\<lparr>sy_TotalRep := reps, sy_PrevFinalBlockHash := f, sy_PrevSyncBlockHash := hs, sy_Hash := h\<rparr>)
   = SyncBlock_VerifyCoSignature C ms b"
  by (simp add: SyncBlock_VerifyCoSignature_def split: option.split)

lemma SyncBlock_rows_unbound:
  "sync_prepareData (b\<lparr>sy_TotalRep := [r1 @ r2, r3], sy_PrevFinalBlockHash := f\<rparr>) = sync_prepareData (b\<lparr>sy_TotalRep := [r1, r2 @ r3]\<rparr>)"
  by (simp add: sync_prepareData_def HashTotalRep_data_def HashIDList_data_def)

section \<open>The search for a nonce\<close>

text \<open>The search ends with an own nonce below the target and its hash, with a candidate whose nonce is
  below the target but whose hash is whatever its message said, or at \<open>maxNonce\<close> without one.\<close>

lemma pow_Run_result:
  "pow_Run G b rnd rx nonce h s = Some (n, h', own, s') \<Longrightarrow> 0 \<le> nonce \<Longrightarrow> nonce \<le> maxNonce \<Longrightarrow>
   (if own then n = maxNonce \<or> nonce \<le> n \<and> n < maxNonce \<and> pow_Validate b n \<and> h' = Sum256 (pow_prepareData b n)
    else pow_Validate b n \<and> (\<exists>c. Some c \<in> set rx \<and> pw_Round c > rnd \<and> pw_Nonce c = n \<and> pw_Hash c = h'))"
proof (induction G b rnd rx nonce h s rule: pow_Run.induct)
  case (1 G b rnd rx nonce h s)
  note run = 1(5) [unfolded pow_Run.simps [of G b rnd rx nonce h s]]
  show ?case
  proof (cases "nonce < maxNonce")
    case False
    then show ?thesis using run 1(6,7) by auto
  next
    case True
    consider c rx' where "rx = Some c # rx'" | "rx = []" | rx' where "rx = None # rx'"
      by (metis list.exhaust not_None_eq)
    then show ?thesis
    proof cases
      case c: 1
      show ?thesis
      proof (cases "pw_Round c > rnd")
        case True
        then obtain s1 where s1: "pow_note G c s = Some s1" using run \<open>nonce < maxNonce\<close> c by (auto split: option.splits)
        show ?thesis
        proof (cases "pow_Validate b (pw_Nonce c)")
          case valid: True
          then have "n = pw_Nonce c" "h' = pw_Hash c" "\<not> own" using run \<open>nonce < maxNonce\<close> c True s1 by simp_all
          then show ?thesis using valid True c by auto
        next
          case False
          then have "pow_Run G b rnd rx' nonce h s1 = Some (n, h', own, s')" using run \<open>nonce < maxNonce\<close> c True s1 by simp
          from 1(3) [OF \<open>nonce < maxNonce\<close> c refl True s1 False this 1(6,7)] show ?thesis using c by (auto split: if_splits)
        qed
      next
        case False
        then have "pow_Run G b rnd rx' nonce h s = Some (n, h', own, s')" using run \<open>nonce < maxNonce\<close> c by simp
        from 1(4) [OF \<open>nonce < maxNonce\<close> c refl False this 1(6,7)] show ?thesis using c by (auto split: if_splits)
      qed
    next
      case 2
      then show ?thesis using run True 1(1) [OF True 2 refl] 1(6,7)
        by (auto simp: Let_def pow_Validate_def split: if_splits)
    next
      case 3
      then show ?thesis using run True 1(2) [OF True 3 refl refl] 1(6,7)
        by (auto simp: Let_def pow_Validate_def split: if_splits)
    qed
  qed
qed

end
