(* ===== verification/CosiNet.thy ===== *)
theory CosiNet
  imports RepChain
begin

text \<open>
  The collective signing of a reputation block and of a sync block
  (\<open>testforclient/network/CoSiRepProtocol.go\<close>, \<open>CoSiProtocol.go\<close>): the process of the leader, the
  process of a member and the handlers that pass messages to them.

  A process is a function of the node's state and of what its channels deliver, in order: messages,
  and ticks of its timeouts. Packets are the values that are sent; \<open>encoding/gob\<close> is a parameter of
  the handlers as the decoder of their request. A process that waits for more than is delivered is
  \<open>Blocked\<close>, after it has sent some messages; one that panics is \<open>Crashed\<close>.
\<close>

section \<open>Messages (\<open>client_variable.go\<close>)\<close>

record announceInfo =
  an_ID :: int
  an_Message :: bytes
  an_Round :: int
  an_Epoch :: int

record commitInfo =
  cm_ID :: int
  cm_Commit :: bytes
  cm_Round :: int
  cm_Epoch :: int

record challengeInfo =
  cg_AggregatePublicKey :: bytes
  cg_AggregateCommit :: bytes
  cg_Round :: int
  cg_Epoch :: int

record responseInfo =
  rsp_ID :: int
  rsp_Sig :: bytes
  rsp_Round :: int
  rsp_Epoch :: int

record syncRequestInfo =
  sq_ID :: int
  sq_Round :: int
  sq_Epoch :: int

record repInfo =
  ri_Last :: bool
  ri_Hash :: "hash list"
  ri_Rep :: "i64 list"
  ri_Round :: int

datatype CosiMsg =
    CosiAnnoun announceInfo
  | CosiCommit commitInfo
  | CosiChallen challengeInfo
  | CosiRespon responseInfo
  | CosiSig responseInfo
  | ReqCosiSig syncRequestInfo

type_synonym cosi_out = "(string \<times> CosiMsg) list"

datatype 'm event = Arrive 'm | Tick

datatype ('o, 's) process = Finished 's | Blocked 'o | Crashed

primrec andThen :: "('o, 's) process \<Rightarrow> ('s \<Rightarrow> ('o, 't) process) \<Rightarrow> ('o, 't) process" where
  "andThen (Finished s) f = f s"
| "andThen (Blocked out) f = Blocked out"
| "andThen Crashed f = Crashed"

definition attempt :: "'s option \<Rightarrow> ('o, 's) process" where
  "attempt x = (case x of None \<Rightarrow> Crashed | Some s \<Rightarrow> Finished s)"

lemma attempt_simps [simp]: "attempt None = Crashed" "attempt (Some s) = Finished s"
  by (simp_all add: attempt_def)

section \<open>The node\<close>

text \<open>The chain of reputation blocks with what it uses (\<open>nd_Chain\<close>; its members are \<open>*ms\<close>), and the
  globals of the package \<open>network\<close>. \<open>nd_RepFinish\<close> says which of the channels \<open>RepFinishChan\<close>, of
  capacity 1, are full; \<open>nd_FBSent\<close> whether a sender waits on \<open>FBSent\<close>; \<open>nd_FBHash\<close> is the hash of
  \<open>CacheDbRef.FB[CacheDbRef.ShardNum]\<close>.\<close>

definition NumberRepPerEpoch :: nat where "NumberRepPerEpoch = 3"

record 'd Node =
  nd_Chain :: "'d RepChain"
  nd_MyGlobalID :: int
  nd_CurrentEpoch :: int
  nd_LeaderAddr :: string
  nd_CoSiFlag :: bool
  nd_CosiData :: "int \<rightharpoonup> bytes"
  nd_RepFinish :: "bool list"
  nd_FBSent :: bool
  nd_FBHash :: "hash option"

abbreviation nd_ms :: "'d Node \<Rightarrow> MemShard list" where "nd_ms s \<equiv> gr_Mems (ch_Group (nd_Chain s))"

text \<open>\<open>shard.MyMenShard\<close>\<close>

definition MyMenShard :: "'d Node \<Rightarrow> MemShard option" where
  "MyMenShard s = at (nd_ms s) (nd_MyGlobalID s)"

text \<open>\<open>shard.ShardToGlobal[shard.MyMenShard.Shard][i]\<close> and the member of that number\<close>

definition shard_member :: "Group \<Rightarrow> int \<Rightarrow> nat \<Rightarrow> (int \<times> MemShard) option" where
  "shard_member G me i = (case at (gr_ShardToGlobal G) me of None \<Rightarrow> None
     | Some row \<Rightarrow> (case idx row i of None \<Rightarrow> None | Some g \<Rightarrow> map_option (Pair g) (at (gr_Mems G) g)))"

definition put_at :: "'a list \<Rightarrow> int \<Rightarrow> 'a \<Rightarrow> 'a list option" where
  "put_at xs i v = (if i < 0 then None else put_idx xs (nat i) v)"

text \<open>The keys of the shard, each at its member's place.\<close>

definition cosi_pubKeys :: "Group \<Rightarrow> int \<Rightarrow> bytes list option" where
  "cosi_pubKeys G me = ofold (\<lambda>i keys. case shard_member G me i of None \<Rightarrow> None
       | Some (_, it) \<Rightarrow> put_at keys (mem_InShardId it) (mem_CosiPub it))
     [0..<unat ShardSize] (replicate (unat ShardSize) [])"

text \<open>\<open>SendCosiMessage\<close> to the members of the shard that \<open>P\<close> selects, by place, number and member.\<close>

definition cosi_send :: "Group \<Rightarrow> int \<Rightarrow> CosiMsg \<Rightarrow> (nat \<Rightarrow> int \<Rightarrow> MemShard \<Rightarrow> bool option) \<Rightarrow> cosi_out option" where
  "cosi_send G me m P = ofold (\<lambda>i out. case shard_member G me i of None \<Rightarrow> None
       | Some (k, it) \<Rightarrow> map_option (\<lambda>b. if b then out @ [(mem_Address it, m)] else out) (P i k it))
     [0..<unat ShardSize] []"

section \<open>The leader\<close>

text \<open>What the leader collects: the commitments or the signature parts, the mask of those it has, and
  how many messages it took.\<close>

record Collect =
  cl_parts :: "bytes list"
  cl_mask :: bytes
  cl_count :: nat

definition take_part :: "MemShard list \<Rightarrow> int \<Rightarrow> bytes \<Rightarrow> Collect \<Rightarrow> Collect option" where
  "take_part ms k v c =
     (case at ms k of None \<Rightarrow> None
      | Some m \<Rightarrow>
        (case (put_at (cl_parts c) (mem_InShardId m) v, setMaskBit (mem_InShardId m) Enabled (cl_mask c)) of
           (Some ps, Some mk) \<Rightarrow> Some \<lparr>cl_parts = ps, cl_mask = mk, cl_count = cl_count c + 1\<rparr>
         | _ \<Rightarrow> None))"

text \<open>After a timeout the message goes again to those whose bit is not set.\<close>

definition cosi_resend :: "Group \<Rightarrow> int \<Rightarrow> CosiMsg \<Rightarrow> bytes \<Rightarrow> cosi_out option" where
  "cosi_resend G me m mk = cosi_send G me m (\<lambda>_ _ it. map_option (\<lambda>b. b = Disabled) (maskBit (mem_InShardId it) mk))"

text \<open>The loop of the commitments ends with a message of every member or at the fifth timeout, the
  loop of the responses only when as many messages came as the first took.\<close>

fun commit_loop ::
  "Group \<Rightarrow> int \<Rightarrow> int \<Rightarrow> CosiMsg \<Rightarrow> commitInfo event list \<Rightarrow> nat \<Rightarrow> Collect \<times> cosi_out \<Rightarrow> (cosi_out, Collect \<times> cosi_out) process" where
  "commit_loop G me rnd ann evs cnt (c, out) =
     (if cnt = 5 \<or> unat ShardSize \<le> cl_count c then Finished (c, out)
      else case evs of [] \<Rightarrow> Blocked out
      | Arrive m # es \<Rightarrow>
          if cm_Round m = rnd
          then (case take_part (gr_Mems G) (cm_ID m) (cm_Commit m) c of None \<Rightarrow> Crashed
                | Some c' \<Rightarrow> commit_loop G me rnd ann es cnt (c', out))
          else commit_loop G me rnd ann es cnt (c, out)
      | Tick # es \<Rightarrow>
          (case cosi_resend G me ann (cl_mask c) of None \<Rightarrow> Crashed
           | Some o' \<Rightarrow> commit_loop G me rnd ann es (cnt + 1) (c, out @ o')))"

fun response_loop ::
  "Group \<Rightarrow> int \<Rightarrow> int \<Rightarrow> CosiMsg \<Rightarrow> nat \<Rightarrow> responseInfo event list \<Rightarrow> Collect \<times> cosi_out \<Rightarrow> (cosi_out, Collect \<times> cosi_out) process" where
  "response_loop G me rnd cha signCount evs (c, out) =
     (if signCount \<le> cl_count c then Finished (c, out)
      else case evs of [] \<Rightarrow> Blocked out
      | Arrive m # es \<Rightarrow>
          if rsp_Round m = rnd
          then (case take_part (gr_Mems G) (rsp_ID m) (rsp_Sig m) c of None \<Rightarrow> Crashed
                | Some c' \<Rightarrow> response_loop G me rnd cha signCount es (c', out))
          else response_loop G me rnd cha signCount es (c, out)
      | Tick # es \<Rightarrow>
          (case cosi_resend G me cha (cl_mask c) of None \<Rightarrow> Crashed
           | Some o' \<Rightarrow> response_loop G me rnd cha signCount es (c, out @ o')))"

declare commit_loop.simps [simp del] response_loop.simps [simp del]

text \<open>\<open>cosi.Commit(nil)\<close>: when the source of randomness fails, the commitment and the secret are nil.\<close>

definition my_commit :: "'g curve \<Rightarrow> error + bytes \<Rightarrow> bytes \<times> Secret option" where
  "my_commit C rand = (case Commit C rand of Inl _ \<Rightarrow> ([], None) | Inr (c, s) \<Rightarrow> (c, Some s))"

definition own_mask :: "MemShard \<Rightarrow> bytes option" where
  "own_mask my = setMaskBit (mem_InShardId my) Enabled (intilizeMaskBit ((unat ShardSize + 7) div 8) Disabled)"

text \<open>The own commitment and mask, the keys, and the announcement to the members \<open>P\<close> selects.\<close>

definition leader_begin ::
  "'d Node \<Rightarrow> MemShard \<Rightarrow> bytes \<Rightarrow> CosiMsg \<Rightarrow> (nat \<Rightarrow> int \<Rightarrow> bool) \<Rightarrow> (Collect \<times> bytes list \<times> cosi_out) option" where
  "leader_begin s my myCommit ann P =
     (let G = ch_Group (nd_Chain s); me = ch_me (nd_Chain s) in
      case (put_at (replicate (unat ShardSize) []) (mem_InShardId my) myCommit, own_mask my) of
        (Some ps, Some mk) \<Rightarrow>
          (case (cosi_pubKeys G me, cosi_send G me ann (\<lambda>i k _. Some (P i k))) of
             (Some keys, Some out) \<Rightarrow> Some (\<lparr>cl_parts = ps, cl_mask = mk, cl_count = 1\<rparr>, keys, out)
           | _ \<Rightarrow> None)
      | _ \<Rightarrow> None)"

text \<open>To the members that committed, except the leader.\<close>

definition send_committed :: "'d Node \<Rightarrow> MemShard \<Rightarrow> bytes \<Rightarrow> CosiMsg \<Rightarrow> cosi_out option" where
  "send_committed s my mk m = cosi_send (ch_Group (nd_Chain s)) (ch_me (nd_Chain s)) m
     (\<lambda>i _ it. map_option (\<lambda>b. b = Enabled \<and> word_of_nat i \<noteq> (word_of_int (mem_InShardId my) :: u32)) (maskBit (mem_InShardId it) mk))"

text \<open>The aggregates of the committed members. A nil commitment is the empty slice; a method of the
  nil group of cosigners panics.\<close>

definition leader_aggregate :: "('g::ab_group_add) curve \<Rightarrow> bytes list \<Rightarrow> Collect \<Rightarrow> ('g Cosigners \<times> bytes \<times> bytes) option" where
  "leader_aggregate C keys c =
     (case NewCosigners C keys (cl_mask c) of
        Some (Some cos) \<Rightarrow> map_option (\<lambda>R. (cos, AggregatePublicKey C cos, case R of None \<Rightarrow> [] | Some R \<Rightarrow> R))
          (AggregateCommit C cos (cl_parts c))
      | _ \<Rightarrow> None)"

text \<open>The own part comes last; a nil signature is the empty slice.\<close>

definition leader_signature ::
  "('g::ab_group_add) curve \<Rightarrow> MemShard \<Rightarrow> Secret option \<Rightarrow> bytes \<Rightarrow> 'g Cosigners \<Rightarrow> bytes \<Rightarrow> bytes \<Rightarrow> Collect \<Rightarrow> bytes option" where
  "leader_signature C my sec message cos pk R c =
     (case sec of None \<Rightarrow> None
      | Some sec \<Rightarrow>
        (case Cosign C (rc_CosiPri (mem_RealAccount my)) sec message pk R of None \<Rightarrow> None
         | Some (part, _) \<Rightarrow>
           (case put_at (cl_parts c) (mem_InShardId my) part of None \<Rightarrow> None
            | Some parts \<Rightarrow> map_option (\<lambda>sig. case sig of None \<Rightarrow> [] | Some sig \<Rightarrow> sig) (AggregateSignature C cos R parts))))"

text \<open>The part both processes share, from the first commitment to the signature that goes out.\<close>

definition leader_cosi ::
  "('g::ab_group_add) curve \<Rightarrow> 'd Node \<Rightarrow> int \<Rightarrow> bytes \<Rightarrow> (MemShard \<Rightarrow> nat \<Rightarrow> int \<Rightarrow> bool) \<Rightarrow> error + bytes \<Rightarrow>
   commitInfo event list \<Rightarrow> responseInfo event list \<Rightarrow> (cosi_out, bytes \<times> cosi_out) process" where
  "leader_cosi C s rnd message P rand cevs revs =
     andThen (attempt (MyMenShard s)) (\<lambda>my.
       let G = ch_Group (nd_Chain s); me = ch_me (nd_Chain s); (myCommit, sec) = my_commit C rand;
           ann = CosiAnnoun \<lparr>an_ID = nd_MyGlobalID s, an_Message = message, an_Round = rnd, an_Epoch = nd_CurrentEpoch s\<rparr>
       in andThen (attempt (leader_begin s my myCommit ann (P my))) (\<lambda>(c0, keys, out0).
          andThen (commit_loop G me rnd ann cevs 0 (c0, out0)) (\<lambda>(c, out1).
          andThen (attempt (leader_aggregate C keys c)) (\<lambda>(cos, pk, R).
            let cha = CosiChallen \<lparr>cg_AggregatePublicKey = pk, cg_AggregateCommit = R, cg_Round = rnd, cg_Epoch = nd_CurrentEpoch s\<rparr>
            in andThen (attempt (send_committed s my (cl_mask c) cha)) (\<lambda>out2.
               andThen (attempt (own_mask my)) (\<lambda>mk.
               andThen (response_loop G me rnd cha (cl_count c) revs
                   (\<lparr>cl_parts = replicate (unat ShardSize) [], cl_mask = mk, cl_count = 1\<rparr>, out1 @ out2)) (\<lambda>(r, out3).
               andThen (attempt (leader_signature C my sec message cos pk R r)) (\<lambda>sig.
               andThen (attempt (send_committed s my (cl_mask c) (CosiSig
                   \<lparr>rsp_ID = nd_MyGlobalID s, rsp_Sig = sig, rsp_Round = rnd, rsp_Epoch = nd_CurrentEpoch s\<rparr>))) (\<lambda>out4.
               Finished (sig, out3 @ out4))))))))))"

text \<open>The rounds of an epoch take turns.\<close>

definition take_turn :: "repInfo \<Rightarrow> 'd Node \<Rightarrow> (cosi_out, 'd Node) process" where
  "take_turn res s =
     (if ri_Round res = 0 then Finished s
      else case at (nd_RepFinish s) (ri_Round res - 1) of None \<Rightarrow> Crashed
      | Some b \<Rightarrow> if b then Finished (s\<lparr>nd_RepFinish := (nd_RepFinish s)[nat (ri_Round res - 1) := False]\<rparr>) else Blocked [])"

definition give_turn :: "repInfo \<Rightarrow> cosi_out \<Rightarrow> 'd Node \<Rightarrow> (cosi_out, 'd Node) process" where
  "give_turn res out s =
     (case at (nd_RepFinish s) (ri_Round res) of None \<Rightarrow> Crashed
      | Some b \<Rightarrow> if b then Blocked out else Finished (s\<lparr>nd_RepFinish := (nd_RepFinish s)[nat (ri_Round res) := True]\<rparr>))"

definition begin_round :: "i64 \<Rightarrow> repInfo \<Rightarrow> 'd Node \<Rightarrow> (cosi_out, 'd Node \<times> ReputationBlock) process" where
  "begin_round now res s =
     andThen (take_turn res s) (\<lambda>s.
     andThen (attempt (MineRepBlock now (ri_Rep res) (ri_Hash res) (nd_Chain s))) (\<lambda>ch.
     andThen (attempt (ch_RepBlock ch)) (\<lambda>b. Finished (s\<lparr>nd_Chain := ch, nd_CoSiFlag := True\<rparr>, b))))"

definition end_round :: "'d bolt \<Rightarrow> gob \<Rightarrow> repInfo \<Rightarrow> bytes \<Rightarrow> cosi_out \<Rightarrow> 'd Node \<Rightarrow> (cosi_out, 'd Node) process" where
  "end_round B g res sig out s =
     andThen (attempt (AddRepSig B g sig (nd_Chain s))) (\<lambda>ch.
       give_turn res out (s\<lparr>nd_Chain := ch, nd_CoSiFlag := False\<rparr>))"

definition LeaderCoSiRepProcess ::
  "('g::ab_group_add) curve \<Rightarrow> 'd bolt \<Rightarrow> gob \<Rightarrow> i64 \<Rightarrow> error + bytes \<Rightarrow> repInfo \<Rightarrow> commitInfo event list \<Rightarrow> responseInfo event list \<Rightarrow>
   'd Node \<Rightarrow> (cosi_out, bool \<times> bytes \<times> cosi_out \<times> 'd Node) process" where
  "LeaderCoSiRepProcess C B g now rand res cevs revs s =
     andThen (begin_round now res s) (\<lambda>(s, b). let rnd = ch_Round (nd_Chain s) in
     andThen (leader_cosi C s rnd (be_bytes 32 (rp_Hash b)) (\<lambda>_ _ k. k \<noteq> nd_MyGlobalID s) rand cevs revs) (\<lambda>(sig, out).
     andThen (end_round B g res sig out (s\<lparr>nd_CosiData := (nd_CosiData s)(rnd + nd_CurrentEpoch s * 100 \<mapsto> sig)\<rparr>)) (\<lambda>s.
     Finished (ri_Last res, sig, out, s))))"

text \<open>At the end of an epoch the hash of the last block is signed once more, in a new round. Then the
  final block must have been sent.\<close>

definition begin_sync :: "'d Node \<Rightarrow> ('d Node \<times> ReputationBlock) option" where
  "begin_sync s = map_option (\<lambda>b. (s\<lparr>nd_Chain := (nd_Chain s)\<lparr>ch_Round := ch_Round (nd_Chain s) + 1\<rparr>, nd_CoSiFlag := True\<rparr>, b))
     (ch_RepBlock (nd_Chain s))"

definition end_sync :: "'d bolt \<Rightarrow> gob \<Rightarrow> i64 \<Rightarrow> bytes \<Rightarrow> cosi_out \<Rightarrow> 'd Node \<Rightarrow> (cosi_out, 'd Node) process" where
  "end_sync B g now sig out s =
     (if \<not> nd_FBSent s then Blocked out
      else andThen (attempt (nd_FBHash s)) (\<lambda>h.
        andThen (attempt (AddSyncBlock B g now h sig (nd_Chain s))) (\<lambda>ch.
        Finished (s\<lparr>nd_Chain := ch, nd_CoSiFlag := False, nd_FBSent := False\<rparr>))))"

definition LeaderCosiProcess ::
  "('g::ab_group_add) curve \<Rightarrow> 'd bolt \<Rightarrow> gob \<Rightarrow> i64 \<Rightarrow> error + bytes \<Rightarrow> commitInfo event list \<Rightarrow> responseInfo event list \<Rightarrow>
   'd Node \<Rightarrow> (cosi_out, bytes \<times> cosi_out \<times> 'd Node) process" where
  "LeaderCosiProcess C B g now rand cevs revs s =
     andThen (attempt (begin_sync s)) (\<lambda>(s, b). let rnd = ch_Round (nd_Chain s) in
     andThen (leader_cosi C s rnd (be_bytes 32 (rp_Hash b)) (\<lambda>my i _. int i \<noteq> mem_InShardId my) rand cevs revs) (\<lambda>(sig, out).
     andThen (end_sync B g now sig out (s\<lparr>nd_CosiData := (nd_CosiData s)(rnd + nd_CurrentEpoch s * 100 \<mapsto> sig)\<rparr>)) (\<lambda>s.
     Finished (sig, out, s))))"
section \<open>A member\<close>

fun await_announce :: "int \<Rightarrow> announceInfo list \<Rightarrow> (cosi_out, announceInfo \<times> announceInfo list) process" where
  "await_announce rnd [] = Blocked []"
| "await_announce rnd (a # as) = (if an_Round a = rnd then Finished (a, as) else await_announce rnd as)"

text \<open>While it waits for the challenge, the member answers every announcement with its commitment.\<close>

datatype member_event = Announced announceInfo | Challenged challengeInfo

fun await_challenge :: "int \<Rightarrow> string \<times> CosiMsg \<Rightarrow> member_event list \<Rightarrow> cosi_out \<Rightarrow> (cosi_out, challengeInfo \<times> cosi_out) process" where
  "await_challenge rnd com [] out = Blocked out"
| "await_challenge rnd com (Announced _ # es) out = await_challenge rnd com es (out @ [com])"
| "await_challenge rnd com (Challenged c # es) out =
     (if cg_Round c = rnd then Finished (c, out) else await_challenge rnd com es out)"

fun await_sig :: "int \<Rightarrow> string \<times> CosiMsg \<Rightarrow> responseInfo event list \<Rightarrow> cosi_out \<Rightarrow> (cosi_out, responseInfo \<times> cosi_out) process" where
  "await_sig rnd req [] out = Blocked out"
| "await_sig rnd req (Arrive m # es) out = (if rsp_Round m = rnd then Finished (m, out) else await_sig rnd req es out)"
| "await_sig rnd req (Tick # es) out = await_sig rnd req es (out @ [req])"

text \<open>A message that differs from the own is only reported.\<close>

definition verifySBMessage :: "bytes option \<Rightarrow> bytes option \<Rightarrow> bool" where
  "verifySBMessage a b = (case (a, b) of
     (None, None) \<Rightarrow> True
   | (Some a, Some b) \<Rightarrow> if length a \<noteq> length b then False else list_all (\<lambda>i. a ! i = b ! i) [0..<length a]
   | _ \<Rightarrow> False)"

definition member_response ::
  "'g curve \<Rightarrow> 'd Node \<Rightarrow> MemShard \<Rightarrow> Secret option \<Rightarrow> int \<Rightarrow> bytes \<Rightarrow> challengeInfo \<Rightarrow> responseInfo option" where
  "member_response C s my sec rnd message c =
     (case sec of None \<Rightarrow> None
      | Some sec \<Rightarrow> map_option (\<lambda>(sig, _). \<lparr>rsp_ID = nd_MyGlobalID s, rsp_Sig = sig, rsp_Round = rnd, rsp_Epoch = nd_CurrentEpoch s\<rparr>)
          (Cosign C (rc_CosiPri (mem_RealAccount my)) sec message (cg_AggregatePublicKey c) (cg_AggregateCommit c)))"

text \<open>The result is whether the collective signature is valid, the signature and what was sent.\<close>

definition member_cosi ::
  "('g::ab_group_add) curve \<Rightarrow> 'd Node \<Rightarrow> int \<Rightarrow> bytes \<Rightarrow> error + bytes \<Rightarrow> announceInfo list \<Rightarrow> member_event list \<Rightarrow>
   responseInfo event list \<Rightarrow> (cosi_out, bool \<times> bytes \<times> cosi_out) process" where
  "member_cosi C s rnd message rand anns evs sevs =
     andThen (attempt (cosi_pubKeys (ch_Group (nd_Chain s)) (ch_me (nd_Chain s)))) (\<lambda>keys.
     andThen (await_announce rnd anns) (\<lambda>(ann, _).
       let (myCommit, sec) = my_commit C rand;
           com = (nd_LeaderAddr s, CosiCommit \<lparr>cm_ID = nd_MyGlobalID s, cm_Commit = myCommit, cm_Round = rnd, cm_Epoch = nd_CurrentEpoch s\<rparr>)
       in andThen (await_challenge rnd com evs [com]) (\<lambda>(c, out1).
          andThen (attempt (MyMenShard s)) (\<lambda>my.
          andThen (attempt (member_response C s my sec rnd message c)) (\<lambda>resp.
            let req = (nd_LeaderAddr s, ReqCosiSig \<lparr>sq_ID = nd_MyGlobalID s, sq_Round = rnd, sq_Epoch = nd_CurrentEpoch s\<rparr>)
            in andThen (await_sig rnd req sevs (out1 @ [(nd_LeaderAddr s, CosiRespon resp)])) (\<lambda>(m, out2).
               andThen (attempt (cosi_Verify C keys (Some (ThresholdPolicy (int (unat ShardSize) div 2))) message (rsp_Sig m))) (\<lambda>valid.
               Finished (valid, rsp_Sig m, out2))))))))"

text \<open>The signature is stored whether it is valid or not.\<close>

definition MemberCoSiRepProcess ::
  "('g::ab_group_add) curve \<Rightarrow> 'd bolt \<Rightarrow> gob \<Rightarrow> i64 \<Rightarrow> error + bytes \<Rightarrow> repInfo \<Rightarrow> announceInfo list \<Rightarrow> member_event list \<Rightarrow>
   responseInfo event list \<Rightarrow> 'd Node \<Rightarrow> (cosi_out, bool \<times> bytes \<times> cosi_out \<times> 'd Node) process" where
  "MemberCoSiRepProcess C B g now rand res anns evs sevs s =
     andThen (begin_round now res s) (\<lambda>(s, b).
     andThen (member_cosi C s (ch_Round (nd_Chain s)) (be_bytes 32 (rp_Hash b)) rand anns evs sevs) (\<lambda>(valid, sig, out).
     andThen (end_round B g res sig out s) (\<lambda>s. Finished (valid, sig, out, s))))"

definition MemberCosiProcess ::
  "('g::ab_group_add) curve \<Rightarrow> 'd bolt \<Rightarrow> gob \<Rightarrow> i64 \<Rightarrow> error + bytes \<Rightarrow> announceInfo list \<Rightarrow> member_event list \<Rightarrow>
   responseInfo event list \<Rightarrow> 'd Node \<Rightarrow> (cosi_out, bool \<times> bytes \<times> cosi_out \<times> 'd Node) process" where
  "MemberCosiProcess C B g now rand anns evs sevs s =
     andThen (attempt (begin_sync s)) (\<lambda>(s, b).
     andThen (member_cosi C s (ch_Round (nd_Chain s)) (be_bytes 32 (rp_Hash b)) rand anns evs sevs) (\<lambda>(valid, sig, out).
     andThen (end_sync B g now sig out s) (\<lambda>s. Finished (valid, sig, out, s))))"

section \<open>The handlers\<close>

text \<open>A request that does not decode panics. What is sent into a channel is the inner result; a
  channel that is closed is no panic for the challenge and the signature.\<close>

definition for_round :: "'d Node \<Rightarrow> int \<Rightarrow> int \<Rightarrow> bool" where
  "for_round s rnd epoch \<longleftrightarrow> epoch = nd_CurrentEpoch s \<and> ch_Round (nd_Chain s) \<le> rnd"

definition HandleCoSiAnnounce :: "('r \<Rightarrow> announceInfo option) \<Rightarrow> 'r \<Rightarrow> 'd Node \<Rightarrow> announceInfo option option" where
  "HandleCoSiAnnounce dec r s = map_option (\<lambda>p. if for_round s (an_Round p) (an_Epoch p) then Some p else None) (dec r)"

definition HandleCoSiCommit :: "('r \<Rightarrow> commitInfo option) \<Rightarrow> 'r \<Rightarrow> 'd Node \<Rightarrow> commitInfo option option" where
  "HandleCoSiCommit dec r s = map_option (\<lambda>p. if for_round s (cm_Round p) (cm_Epoch p) then Some p else None) (dec r)"

definition HandleCoSiResponse :: "('r \<Rightarrow> responseInfo option) \<Rightarrow> 'r \<Rightarrow> 'd Node \<Rightarrow> responseInfo option option" where
  "HandleCoSiResponse dec r s = map_option (\<lambda>p. if for_round s (rsp_Round p) (rsp_Epoch p) then Some p else None) (dec r)"

definition HandleCoSiChallenge :: "('r \<Rightarrow> challengeInfo option) \<Rightarrow> 'r \<Rightarrow> 'd Node \<Rightarrow> challengeInfo option option" where
  "HandleCoSiChallenge dec r s = map_option (\<lambda>p. if ch_Round (nd_Chain s) = cg_Round p \<and> cg_Epoch p = nd_CurrentEpoch s then Some p else None) (dec r)"

definition HandleCoSiSig :: "('r \<Rightarrow> responseInfo option) \<Rightarrow> 'r \<Rightarrow> 'd Node \<Rightarrow> responseInfo option option" where
  "HandleCoSiSig dec r s = map_option (\<lambda>p. if ch_Round (nd_Chain s) = rsp_Round p \<and> rsp_Epoch p = nd_CurrentEpoch s then Some p else None) (dec r)"

definition HandleReqCosiSig :: "('r \<Rightarrow> syncRequestInfo option) \<Rightarrow> 'r \<Rightarrow> 'd Node \<Rightarrow> cosi_out option" where
  "HandleReqCosiSig dec r s =
     (case dec r of None \<Rightarrow> None
      | Some p \<Rightarrow>
        (case nd_CosiData s (sq_Round p + sq_Epoch p * 100) of None \<Rightarrow> Some []
         | Some sig \<Rightarrow> map_option (\<lambda>m. [(mem_Address m, CosiSig \<lparr>rsp_ID = nd_MyGlobalID s, rsp_Sig = sig, rsp_Round = sq_Round p, rsp_Epoch = sq_Epoch p\<rparr>)])
             (at (nd_ms s) (sq_ID p))))"

section \<open>A shard whose members are in place\<close>

definition shard_ok :: "Group \<Rightarrow> int \<Rightarrow> bool" where
  "shard_ok G me \<longleftrightarrow> (\<forall>i < 20. \<exists>k m. shard_member G me i = Some (k, m) \<and> at (gr_Mems G) k = Some m \<and> mem_InShardId m = int i)"

definition num :: "Group \<Rightarrow> int \<Rightarrow> nat \<Rightarrow> int" where "num G me i = fst (the (shard_member G me i))"
definition mem :: "Group \<Rightarrow> int \<Rightarrow> nat \<Rightarrow> MemShard" where "mem G me i = snd (the (shard_member G me i))"

lemma shard_okD:
  assumes "shard_ok G me" and "i < 20"
  shows "shard_member G me i = Some (num G me i, mem G me i)" "at (gr_Mems G) (num G me i) = Some (mem G me i)"
    "mem_InShardId (mem G me i) = int i"
  using assms by (auto simp: shard_ok_def num_def mem_def)

lemma put_at_int [simp]: "put_at xs (int i) v = put_idx xs i v"
  by (simp add: put_at_def)

text \<open>A loop over the members puts every element at its place.\<close>

lemma ofold_put:
  assumes "\<And>i. i < n \<Longrightarrow> f i = (\<lambda>xs. put_idx xs i (g i))" and "length xs = n"
  shows "ofold f [0..<n] xs = Some (map g [0..<n])"
proof -
  have "ofold f [0..<k] xs = Some (map g [0..<k] @ drop k xs)" if "k \<le> n" for k
    using that
  proof (induction k)
    case (Suc k)
    then have "map g [0..<k] @ drop k xs = map g [0..<k] @ xs ! k # drop (Suc k) xs"
      using assms(2) by (simp add: Cons_nth_drop_Suc)
    then show ?case
      using Suc assms by (simp add: ofold_append) (simp add: put_idx_def list_update_append)
  qed simp
  from this [of n] show ?thesis using assms(2) by simp
qed

lemma cosi_pubKeys_ok: "shard_ok G me \<Longrightarrow> cosi_pubKeys G me = Some (map (\<lambda>i. mem_CosiPub (mem G me i)) [0..<20])"
  unfolding cosi_pubKeys_def unat_consts by (rule ofold_put) (simp_all add: shard_okD)

lemma cosi_send_ok:
  assumes "shard_ok G me" and "\<And>i. i < 20 \<Longrightarrow> P i (num G me i) (mem G me i) = Some (Q i)"
  shows "cosi_send G me m P = Some (map (\<lambda>i. (mem_Address (mem G me i), m)) (filter Q [0..<20]))"
proof -
  have "ofold (\<lambda>i out. case shard_member G me i of None \<Rightarrow> None
       | Some (k, it) \<Rightarrow> map_option (\<lambda>b. if b then out @ [(mem_Address it, m)] else out) (P i k it)) [0..<k] []
     = Some (map (\<lambda>i. (mem_Address (mem G me i), m)) (filter Q [0..<k]))" if "k \<le> 20" for k
    using that by (induction k) (auto simp: ofold_append shard_okD(1) [OF assms(1)] assms(2))
  from this [of 20] show ?thesis by (simp add: cosi_send_def)
qed

section \<open>The loops of the leader\<close>

text \<open>The leader has collected the value \<open>f i\<close> of exactly the members \<open>i\<close> of \<open>J\<close>.\<close>

definition coll :: "nat set \<Rightarrow> (nat \<Rightarrow> bytes) \<Rightarrow> Collect \<Rightarrow> bool" where
  "coll J f c \<longleftrightarrow> J \<subseteq> {..<20} \<and> length (cl_parts c) = 20 \<and> length (cl_mask c) = 3 \<and> cl_count c = card J
     \<and> (\<forall>i < 20. disabled (cl_mask c) i \<longleftrightarrow> i \<notin> J) \<and> (\<forall>i \<in> J. cl_parts c ! i = f i)"

lemma coll_finite: "coll J f c \<Longrightarrow> finite J"
  by (auto simp: coll_def intro: finite_subset)

lemma take_part_ok:
  assumes "shard_ok G me" and c: "coll J f c" and i: "i < 20" "i \<notin> J"
  shows "\<exists>c'. take_part (gr_Mems G) (num G me i) (f i) c = Some c' \<and> coll (insert i J) f c'"
proof -
  have "i div 8 < length (cl_mask c)" using c i by (simp add: coll_def)
  then obtain mk where mk: "setMaskBit (int i) False (cl_mask c) = Some mk" "length mk = length (cl_mask c)"
      "\<forall>j. disabled mk j \<longleftrightarrow> (if j = i then False else disabled (cl_mask c) j)"
    using setMaskBit_disabled by blast
  then have "take_part (gr_Mems G) (num G me i) (f i) c = Some \<lparr>cl_parts = (cl_parts c)[i := f i], cl_mask = mk, cl_count = cl_count c + 1\<rparr>"
    using c i shard_okD [OF assms(1) i(1)] by (simp add: take_part_def coll_def put_idx_def)
  then show ?thesis using c i mk coll_finite [OF c] by (auto simp: coll_def nth_list_update)
qed

lemma maskBit_coll: "coll J f c \<Longrightarrow> i < 20 \<Longrightarrow> maskBit (int i) (cl_mask c) = Some (i \<notin> J)"
  using maskBit_disabled [of i "cl_mask c"] by (simp add: coll_def)

lemma cosi_resend_ok:
  assumes "shard_ok G me" and "coll J f c"
  shows "cosi_resend G me m (cl_mask c) = Some (map (\<lambda>i. (mem_Address (mem G me i), m)) (filter (\<lambda>i. i \<notin> J) [0..<20]))"
  unfolding cosi_resend_def by (rule cosi_send_ok) (simp_all add: shard_okD maskBit_coll [OF assms(2)] assms(1))

text \<open>The messages of this round, and the timeouts, among the events.\<close>

fun commits_of :: "int \<Rightarrow> commitInfo event list \<Rightarrow> (int \<times> bytes) list" where
  "commits_of rnd [] = []"
| "commits_of rnd (Arrive m # es) = (if cm_Round m = rnd then [(cm_ID m, cm_Commit m)] else []) @ commits_of rnd es"
| "commits_of rnd (Tick # es) = commits_of rnd es"

fun responses_of :: "int \<Rightarrow> responseInfo event list \<Rightarrow> (int \<times> bytes) list" where
  "responses_of rnd [] = []"
| "responses_of rnd (Arrive m # es) = (if rsp_Round m = rnd then [(rsp_ID m, rsp_Sig m)] else []) @ responses_of rnd es"
| "responses_of rnd (Tick # es) = responses_of rnd es"

fun ticks :: "'m event list \<Rightarrow> nat" where
  "ticks [] = 0"
| "ticks (Arrive m # es) = ticks es"
| "ticks (Tick # es) = Suc (ticks es)"

lemma card_lt_20: "coll J f c \<Longrightarrow> card J < 20 \<or> J = {..<20}"
  using card_subset_eq [of "{..<20}" J] card_mono [of "{..<20}" J] by (force simp: coll_def)

lemma commit_loop_ok:
  assumes G: "shard_ok G me"
  shows "coll J f c \<Longrightarrow> commits_of rnd evs = map (\<lambda>j. (num G me j, f j)) js \<Longrightarrow> distinct js \<Longrightarrow> set js \<inter> J = {} \<Longrightarrow>
    set js \<subseteq> {..<20} \<Longrightarrow> cnt \<le> 5 \<Longrightarrow> 20 \<le> card J + length js \<or> 5 \<le> cnt + ticks evs \<Longrightarrow>
    \<exists>k c' out'. commit_loop G me rnd ann evs cnt (c, out) = Finished (c', out') \<and> coll (J \<union> set (take k js)) f c'
      \<and> (cnt + ticks evs < 5 \<longrightarrow> 20 \<le> cl_count c')"
proof (induction evs arbitrary: J c js cnt out)
  case Nil
  then have "cnt = 5 \<or> 20 \<le> cl_count c" by (auto simp: coll_def)
  then show ?case using Nil.prems(1) by (intro exI [of _ 0]) (auto simp: commit_loop.simps)
next
  case (Cons e es)
  show ?case
  proof (cases "cnt = 5 \<or> 20 \<le> cl_count c")
    case True
    then show ?thesis using Cons.prems(1) by (intro exI [of _ 0]) (auto simp: commit_loop.simps)
  next
    case False
    note step = commit_loop.simps [of G me rnd ann "e # es" cnt c out]
    show ?thesis
    proof (cases e)
      case Tick
      have "\<exists>o'. cosi_resend G me ann (cl_mask c) = Some o'" using cosi_resend_ok [OF G Cons.prems(1)] by blast
      then obtain o' where o': "cosi_resend G me ann (cl_mask c) = Some o'" ..
      have "\<exists>k c' out'. commit_loop G me rnd ann es (cnt + 1) (c, out @ o') = Finished (c', out') \<and> coll (J \<union> set (take k js)) f c'
          \<and> (cnt + 1 + ticks es < 5 \<longrightarrow> 20 \<le> cl_count c')"
        by (rule Cons.IH [OF Cons.prems(1)]) (use Cons.prems False Tick in auto)
      then show ?thesis using step False Tick o' by simp
    next
      case (Arrive m)
      show ?thesis
      proof (cases "cm_Round m = rnd")
        case r: True
        then obtain j js' where js: "js = j # js'" "cm_ID m = num G me j" "cm_Commit m = f j"
            "commits_of rnd es = map (\<lambda>j. (num G me j, f j)) js'"
          using Cons.prems(2) Arrive by (cases js) auto
        obtain c1 where c1: "take_part (gr_Mems G) (num G me j) (f j) c = Some c1" "coll (insert j J) f c1"
          using take_part_ok [OF G Cons.prems(1), of j] Cons.prems(4,5) js(1) by auto
        have "\<exists>k c' out'. commit_loop G me rnd ann es cnt (c1, out) = Finished (c', out') \<and> coll (insert j J \<union> set (take k js')) f c'
            \<and> (cnt + ticks es < 5 \<longrightarrow> 20 \<le> cl_count c')"
          by (rule Cons.IH [OF c1(2) js(4)]) (use Cons.prems js(1) coll_finite [OF Cons.prems(1)] Arrive in auto)
        then obtain k c' out' where k: "commit_loop G me rnd ann es cnt (c1, out) = Finished (c', out')"
            "coll (insert j J \<union> set (take k js')) f c'" "cnt + ticks es < 5 \<longrightarrow> 20 \<le> cl_count c'" by blast
        moreover have "insert j J \<union> set (take k js') = J \<union> set (take (Suc k) js)" by (simp add: js(1))
        ultimately show ?thesis using step False Arrive r js(2,3) c1(1) by (intro exI [of _ "Suc k"]) simp
      next
        case r: False
        have "\<exists>k c' out'. commit_loop G me rnd ann es cnt (c, out) = Finished (c', out') \<and> coll (J \<union> set (take k js)) f c'
            \<and> (cnt + ticks es < 5 \<longrightarrow> 20 \<le> cl_count c')"
          by (rule Cons.IH [OF Cons.prems(1)]) (use Cons.prems r Arrive in auto)
        then show ?thesis using step False Arrive r by simp
      qed
    qed
  qed
qed

lemma response_loop_ok:
  assumes G: "shard_ok G me"
  shows "coll J f c \<Longrightarrow> responses_of rnd evs = map (\<lambda>j. (num G me j, f j)) js \<Longrightarrow> distinct js \<Longrightarrow> set js \<inter> J = {} \<Longrightarrow>
    set js \<subseteq> {..<20} \<Longrightarrow>
    \<exists>c' out'. response_loop G me rnd cha (card J + length js) evs (c, out) = Finished (c', out') \<and> coll (J \<union> set js) f c'"
proof (induction evs arbitrary: J c js out)
  case Nil
  then show ?case by (auto simp: response_loop.simps coll_def)
next
  case (Cons e es)
  note step = response_loop.simps [of G me rnd cha "card J + length js" "e # es" c out]
  have cnt: "cl_count c = card J" using Cons.prems(1) by (simp add: coll_def)
  show ?case
  proof (cases "js = []")
    case True
    then show ?thesis using Cons.prems(1) step cnt by simp
  next
    case ne: False
    show ?thesis
    proof (cases e)
      case Tick
      obtain o' where o': "cosi_resend G me cha (cl_mask c) = Some o'" using cosi_resend_ok [OF G Cons.prems(1)] by blast
      have "\<exists>c' out'. response_loop G me rnd cha (card J + length js) es (c, out @ o') = Finished (c', out') \<and> coll (J \<union> set js) f c'"
        by (rule Cons.IH [OF Cons.prems(1)]) (use Cons.prems Tick in auto)
      then show ?thesis using step ne cnt Tick o' by simp
    next
      case (Arrive m)
      show ?thesis
      proof (cases "rsp_Round m = rnd")
        case r: True
        then obtain j js' where js: "js = j # js'" "rsp_ID m = num G me j" "rsp_Sig m = f j"
            "responses_of rnd es = map (\<lambda>j. (num G me j, f j)) js'"
          using Cons.prems(2) Arrive by (cases js) auto
        obtain c1 where c1: "take_part (gr_Mems G) (num G me j) (f j) c = Some c1" "coll (insert j J) f c1"
          using take_part_ok [OF G Cons.prems(1), of j] Cons.prems(4,5) js(1) by auto
        have "\<exists>c' out'. response_loop G me rnd cha (card (insert j J) + length js') es (c1, out) = Finished (c', out')
            \<and> coll (insert j J \<union> set js') f c'"
          by (rule Cons.IH [OF c1(2) js(4)]) (use Cons.prems js(1) in auto)
        moreover have "card (insert j J) + length js' = card J + length js"
          using Cons.prems(4) coll_finite [OF Cons.prems(1)] js(1) by simp
        ultimately show ?thesis using step ne cnt Arrive r js c1(1) by auto
      next
        case r: False
        have "\<exists>c' out'. response_loop G me rnd cha (card J + length js) es (c, out) = Finished (c', out') \<and> coll (J \<union> set js) f c'"
          by (rule Cons.IH [OF Cons.prems(1)]) (use Cons.prems r Arrive in auto)
        then show ?thesis using step ne cnt Arrive r by simp
      qed
    qed
  qed
qed

text \<open>A message of this round is always counted, so that the loop of the responses never ends on fewer
  messages than the loop of the commitments took.\<close>

lemma response_loop_waits:
  "cl_count c + length (responses_of rnd evs) < n \<Longrightarrow> \<forall>x. response_loop G me rnd cha n evs (c, out) \<noteq> Finished x"
proof (induction evs arbitrary: c out)
  case Nil
  then show ?case by (simp add: response_loop.simps)
next
  case (Cons e es)
  have cnt: "take_part ms k v c = Some c' \<Longrightarrow> cl_count c' = cl_count c + 1" for ms k v c'
    by (auto simp: take_part_def split: option.splits)
  show ?case
  proof (cases e)
    case (Arrive m)
    have "\<forall>x. response_loop G me rnd cha n es (c', out) \<noteq> Finished x"
      if "take_part (gr_Mems G) (rsp_ID m) (rsp_Sig m) c = Some c'" "rsp_Round m = rnd" for c'
      by (rule Cons.IH) (use Cons.prems Arrive that cnt in auto)
    then show ?thesis using Cons.prems Cons.IH [of c out] Arrive
      by (subst response_loop.simps) (auto split: option.split)
  next
    case Tick
    then show ?thesis using Cons.prems
      by (subst response_loop.simps) (auto simp: Cons.IH split: option.split)
  qed
qed

section \<open>A round with honest members\<close>

text \<open>The node is the member at place \<open>l\<close> of its shard, and everybody's keys are a pair made from a seed.\<close>

definition honest_shard :: "('g::ab_group_add) curve \<Rightarrow> bytes list \<Rightarrow> nat \<Rightarrow> 'd Node \<Rightarrow> bool" where
  "honest_shard C seeds l s \<longleftrightarrow> (let G = ch_Group (nd_Chain s); me = ch_me (nd_Chain s) in
     shard_ok G me \<and> l < 20 \<and> nd_MyGlobalID s = num G me l \<and> length seeds = 20 \<and> (\<forall>x \<in> set seeds. length x = 32)
     \<and> (\<forall>i < 20. mem_CosiPub (mem G me i) = fst (GenerateKey C (seeds ! i))
          \<and> rc_CosiPri (mem_RealAccount (mem G me i)) = snd (GenerateKey C (seeds ! i))))"

text \<open>What a member commits to, with its secret, when \<open>rnds i\<close> are its random bytes.\<close>

definition com :: "'g curve \<Rightarrow> (nat \<Rightarrow> bytes) \<Rightarrow> nat \<Rightarrow> bytes" where "com C rnds i = fst (my_commit C (Inr (rnds i)))"
definition sec :: "'g curve \<Rightarrow> (nat \<Rightarrow> bytes) \<Rightarrow> nat \<Rightarrow> Secret" where "sec C rnds i = the (snd (my_commit C (Inr (rnds i))))"

lemma my_commit_ok: "my_commit C (Inr (rnds i)) = (com C rnds i, Some (sec C rnds i))"
    "Commit C (Inr (rnds i)) = Inr (com C rnds i, sec C rnds i)"
  by (simp_all add: com_def sec_def my_commit_def Commit_def Let_def)

text \<open>The answer of a member to a challenge.\<close>

definition part :: "'g curve \<Rightarrow> bytes list \<Rightarrow> (nat \<Rightarrow> bytes) \<Rightarrow> bytes \<Rightarrow> bytes \<Rightarrow> bytes \<Rightarrow> nat \<Rightarrow> bytes" where
  "part C seeds rnds message pk R i = fst (the (Cosign C (snd (GenerateKey C (seeds ! i))) (sec C rnds i) message pk R))"

lemma Cosign_part:
  assumes "curve_ok C" and "length (seeds ! i) = 32" and "length R = 32"
  shows "\<exists>s'. Cosign C (snd (GenerateKey C (seeds ! i))) (sec C rnds i) message pk R = Some (part C seeds rnds message pk R i, s')"
proof -
  have "length (snd (GenerateKey C (seeds ! i))) = 64" using assms by (simp add: GenerateKey_def Let_def curve_ok_def)
  then show ?thesis using assms(3) by (simp add: part_def Cosign_def sec_def my_commit_def Commit_def Let_def)
qed

lemma own_mask_ok:
  assumes "l < 20" and "mem_InShardId my = int l"
  shows "\<exists>mk. own_mask my = Some mk \<and> length mk = 3 \<and> (\<forall>i < 20. disabled mk i \<longleftrightarrow> i \<noteq> l)"
proof -
  let ?m = "intilizeMaskBit 3 True"
  have "l div 8 < length ?m" using assms(1) by (simp add: intilizeMaskBit_def)
  from setMaskBit_disabled [OF this, of False] obtain mk where "setMaskBit (int l) False ?m = Some mk" "length mk = length ?m"
      "\<forall>j. disabled mk j \<longleftrightarrow> (if j = l then False else disabled ?m j)" by blast
  then show ?thesis using assms intilizeMaskBit_disabled [of 3 True]
    by (intro exI [of _ mk]) (auto simp: own_mask_def intilizeMaskBit_def)
qed

lemma coll_start:
  assumes "l < 20" and "mem_InShardId my = int l" and "own_mask my = Some mk" and "length ps = 20" and "ps ! l = f l"
  shows "coll {l} f \<lparr>cl_parts = ps, cl_mask = mk, cl_count = 1\<rparr>"
  using assms own_mask_ok [OF assms(1,2)] by (auto simp: coll_def)

lemma send_committed_ok:
  assumes "shard_ok (ch_Group (nd_Chain s)) (ch_me (nd_Chain s))" and "coll J f c" and l: "l < 20" "mem_InShardId my = int l"
  shows "send_committed s my (cl_mask c) m = Some (map (\<lambda>i. (mem_Address (mem (ch_Group (nd_Chain s)) (ch_me (nd_Chain s)) i), m))
    (filter (\<lambda>i. i \<in> J - {l}) [0..<20]))"
proof -
  have "(word_of_nat i = (word_of_int (int l) :: u32)) \<longleftrightarrow> i = l" if "i < 20" for i
    using that l(1) by (simp add: word_of_nat_eq_iff take_bit_nat_eq_self)
  then show ?thesis
    unfolding send_committed_def by (intro cosi_send_ok [OF assms(1)]) (auto simp: shard_okD assms(1) maskBit_coll [OF assms(2)] l)
qed

lemma honest_shardD:
  assumes "honest_shard C seeds l s" and "G = ch_Group (nd_Chain s)" and "me = ch_me (nd_Chain s)"
  shows "shard_ok G me" "l < 20" "nd_MyGlobalID s = num G me l" "length seeds = 20" "\<forall>x \<in> set seeds. length x = 32"
    "MyMenShard s = Some (mem G me l)"
    "cosi_pubKeys G me = Some (map (\<lambda>x. fst (GenerateKey C x)) seeds)"
    "\<And>i. i < 20 \<Longrightarrow> rc_CosiPri (mem_RealAccount (mem G me i)) = snd (GenerateKey C (seeds ! i))"
proof -
  show b: "shard_ok G me" "l < 20" "nd_MyGlobalID s = num G me l" "length seeds = 20" "\<forall>x \<in> set seeds. length x = 32"
      "\<And>i. i < 20 \<Longrightarrow> rc_CosiPri (mem_RealAccount (mem G me i)) = snd (GenerateKey C (seeds ! i))"
    using assms by (simp_all add: honest_shard_def Let_def)
  show "MyMenShard s = Some (mem G me l)" using shard_okD(2) [OF b(1,2)] b(3) assms(2) by (simp add: MyMenShard_def)
  have "map (\<lambda>i. mem_CosiPub (mem G me i)) [0..<20] = map (\<lambda>x. fst (GenerateKey C x)) seeds"
    using assms by (intro nth_equalityI) (simp_all add: honest_shard_def Let_def)
  then show "cosi_pubKeys G me = Some (map (\<lambda>x. fst (GenerateKey C x)) seeds)" using cosi_pubKeys_ok [OF b(1)] by simp
qed

text \<open>The aggregates and the signature are those of the group of the members collected.\<close>

lemma leader_crypto:
  assumes C: "curve_ok C" and seeds: "length seeds = 20" "\<forall>x \<in> set seeds. length x = 32"
    and rnds: "\<forall>i < 20. length (rnds i) = 64" and c: "coll J (com C rnds) c" and l: "l \<in> J" "mem_InShardId my = int l"
    and pri: "rc_CosiPri (mem_RealAccount my) = snd (GenerateKey C (seeds ! l))"
  shows "\<exists>cos pk R. leader_aggregate C (map (\<lambda>x. fst (GenerateKey C x)) seeds) c = Some (cos, pk, R) \<and> length R = 32
    \<and> (\<forall>r. length (cl_parts r) = 20 \<and> (\<forall>i \<in> J - {l}. cl_parts r ! i = part C seeds rnds message pk R i) \<longrightarrow>
         (\<exists>sig. leader_signature C my (Some (sec C rnds l)) message cos pk R r = Some sig
            \<and> cosi_Verify C (map (\<lambda>x. fst (GenerateKey C x)) seeds) p message sig = Some (policy_holds p (card J) 20)))"
proof -
  let ?keys = "map (\<lambda>x. fst (GenerateKey C x)) seeds"
  have J: "J = signers (length seeds) (cl_mask c)" using c seeds(1) by (auto simp: coll_def signers_def)
  have com: "length (rnds i) = 64 \<and> Commit C (Inr (rnds i)) = Inr (cl_parts c ! i, sec C rnds i)" if "i \<in> J" for i
    using rnds c that my_commit_ok(2) by (force simp: coll_def)
  have "length (cl_parts c) = length seeds" using c seeds(1) by (simp add: coll_def)
  from cosi_honest [OF C seeds(2) this com refl J, of message p] obtain cos R where
    cos: "NewCosigners C ?keys (cl_mask c) = Some (Some cos)" "AggregateCommit C cos (cl_parts c) = Some (Some R)" "length R = 32"
    and fin: "\<And>parts. length parts = length seeds \<Longrightarrow>
        (\<forall>i \<in> J. \<exists>s'. Cosign C (snd (GenerateKey C (seeds ! i))) (sec C rnds i) message (AggregatePublicKey C cos) R = Some (parts ! i, s')) \<Longrightarrow>
        \<exists>sig. AggregateSignature C cos R parts = Some (Some sig) \<and> cosi_Verify C ?keys p message sig = Some (policy_holds p (card J) (length seeds))"
    by blast
  let ?pk = "AggregatePublicKey C cos"
  have agg: "leader_aggregate C ?keys c = Some (cos, ?pk, R)" using cos by (simp add: leader_aggregate_def)
  have cs: "\<exists>s'. Cosign C (snd (GenerateKey C (seeds ! i))) (sec C rnds i) message ?pk R = Some (part C seeds rnds message ?pk R i, s')"
    if "i \<in> J" for i
    using Cosign_part [OF C _ cos(3)] that c seeds by (auto simp: coll_def)
  have "\<exists>sig. leader_signature C my (Some (sec C rnds l)) message cos ?pk R r = Some sig
      \<and> cosi_Verify C ?keys p message sig = Some (policy_holds p (card J) 20)"
    if r: "length (cl_parts r) = 20" "\<And>i. i \<in> J \<Longrightarrow> i \<noteq> l \<Longrightarrow> cl_parts r ! i = part C seeds rnds message ?pk R i" for r
  proof -
    let ?parts = "(cl_parts r)[l := part C seeds rnds message ?pk R l]"
    have "l < 20" using c l(1) by (auto simp: coll_def)
    moreover have "\<forall>i \<in> J. \<exists>s'. Cosign C (snd (GenerateKey C (seeds ! i))) (sec C rnds i) message ?pk R = Some (?parts ! i, s')"
      using cs r \<open>l < 20\<close> by (metis nth_list_update_eq nth_list_update_neq)
    ultimately obtain sig where "AggregateSignature C cos R ?parts = Some (Some sig)"
        "cosi_Verify C ?keys p message sig = Some (policy_holds p (card J) 20)"
      using fin [of ?parts] r(1) seeds(1) by auto
    then show ?thesis using cs [OF l(1)] \<open>l < 20\<close> r(1) by (auto simp: leader_signature_def pri l(2) put_idx_def)
  qed
  note sign = this
  show ?thesis
    by (intro exI [of _ cos] exI [of _ ?pk] exI [of _ R] conjI agg cos(3) allI impI sign) auto
qed

lemma leader_begin_ok:
  assumes hs: "honest_shard C seeds l s" and G: "G = ch_Group (nd_Chain s)" "me = ch_me (nd_Chain s)"
  shows "\<exists>mk out. own_mask (mem G me l) = Some mk
    \<and> leader_begin s (mem G me l) v ann P
        = Some (\<lparr>cl_parts = (replicate 20 [])[l := v], cl_mask = mk, cl_count = 1\<rparr>, map (\<lambda>x. fst (GenerateKey C x)) seeds, out)"
proof -
  note d = honest_shardD [OF hs G]
  obtain mk where mk: "own_mask (mem G me l) = Some mk" using own_mask_ok [OF d(2)] shard_okD(3) [OF d(1,2)] by blast
  have "cosi_send G me ann (\<lambda>i k _. Some (P i k))
      = Some (map (\<lambda>i. (mem_Address (mem G me i), ann)) (filter (\<lambda>i. P i (num G me i)) [0..<20]))"
    by (rule cosi_send_ok [OF d(1)]) simp
  then show ?thesis
    using mk d(2,7) shard_okD(3) [OF d(1,2)] by (simp add: leader_begin_def Let_def G [symmetric] put_idx_def)
qed

text \<open>Once the commitments of the members \<open>J\<close> are in, the answers of exactly these finish the round.\<close>

lemma leader_cosi_honest:
  fixes s :: "'d Node" and C :: "('g::ab_group_add) curve"
  assumes C: "curve_ok C" and hs: "honest_shard C seeds l s" and G: "G = ch_Group (nd_Chain s)" "me = ch_me (nd_Chain s)"
    and rnds: "\<forall>i < 20. length (rnds i) = 64"
    and cevs: "commits_of rnd cevs = map (\<lambda>j. (num G me j, com C rnds j)) js"
    and js: "distinct js" "set js \<subseteq> {..<20} - {l}" "length js = 19 \<or> 5 \<le> ticks cevs"
  shows "\<exists>k pk R. length R = 32 \<and> k \<le> length js \<and> (ticks cevs < 5 \<longrightarrow> k = 19)
    \<and> (k \<noteq> 0 \<longrightarrow> (\<exists>out. leader_cosi C s rnd message P (Inr (rnds l)) cevs [] = Blocked out
        \<and> (\<forall>j \<in> set (take k js). (mem_Address (mem G me j), CosiChallen
             \<lparr>cg_AggregatePublicKey = pk, cg_AggregateCommit = R, cg_Round = rnd, cg_Epoch = nd_CurrentEpoch s\<rparr>) \<in> set out)))
    \<and> (\<forall>revs ks. responses_of rnd revs = map (\<lambda>j. (num G me j, part C seeds rnds message pk R j)) ks
      \<and> distinct ks \<and> set ks = set (take k js) \<longrightarrow>
      (\<exists>sig out. leader_cosi C s rnd message P (Inr (rnds l)) cevs revs = Finished (sig, out)
        \<and> (\<forall>j \<in> set ks. (mem_Address (mem G me j), CosiSig \<lparr>rsp_ID = nd_MyGlobalID s, rsp_Sig = sig, rsp_Round = rnd, rsp_Epoch = nd_CurrentEpoch s\<rparr>) \<in> set out)
        \<and> cosi_Verify C (map (\<lambda>x. fst (GenerateKey C x)) seeds) (Some (ThresholdPolicy 10)) message sig = Some (9 \<le> length ks)))"
proof -
  note d = honest_shardD [OF hs G]
  let ?my = "mem G me l" and ?keys = "map (\<lambda>x. fst (GenerateKey C x)) seeds"
  let ?ann = "CosiAnnoun \<lparr>an_ID = nd_MyGlobalID s, an_Message = message, an_Round = rnd, an_Epoch = nd_CurrentEpoch s\<rparr>"
  have my: "mem_InShardId ?my = int l" by (rule shard_okD(3) [OF d(1,2)])
  obtain mk out0 where b: "own_mask ?my = Some mk" "leader_begin s ?my (com C rnds l) ?ann (P ?my)
      = Some (\<lparr>cl_parts = (replicate 20 [])[l := com C rnds l], cl_mask = mk, cl_count = 1\<rparr>, ?keys, out0)"
    using leader_begin_ok [OF hs G] by blast
  let ?c0 = "\<lparr>cl_parts = (replicate 20 [])[l := com C rnds l], cl_mask = mk, cl_count = 1\<rparr>"
  have c0: "coll {l} (com C rnds) ?c0" by (rule coll_start [OF d(2) my b(1)]) (use d(2) in simp_all)
  have js': "set js \<inter> {l} = {}" "set js \<subseteq> {..<20}" "(0::nat) \<le> 5" "20 \<le> card {l} + length js \<or> 5 \<le> 0 + ticks cevs"
    using js(2,3) by auto
  obtain k c out1 where c: "commit_loop G me rnd ?ann cevs 0 (?c0, out0) = Finished (c, out1)"
       "coll ({l} \<union> set (take k js)) (com C rnds) c" "ticks cevs < 5 \<longrightarrow> 20 \<le> cl_count c" "k \<le> length js"
    using commit_loop_ok [OF d(1) c0 cevs js(1) js', of ?ann out0] by (metis (no_types, opaque_lifting) add_0 nat_le_linear order_refl take_all)
  let ?J = "{l} \<union> set (take k js)"
  obtain cos pk R where a: "leader_aggregate C ?keys c = Some (cos, pk, R)" "length R = 32"
    and sign: "\<And>r. length (cl_parts r) = 20 \<Longrightarrow> (\<forall>i \<in> ?J - {l}. cl_parts r ! i = part C seeds rnds message pk R i) \<Longrightarrow>
         (\<exists>sig. leader_signature C ?my (Some (sec C rnds l)) message cos pk R r = Some sig
            \<and> cosi_Verify C ?keys (Some (ThresholdPolicy 10)) message sig = Some (policy_holds (Some (ThresholdPolicy 10)) (card ?J) 20))"
    using leader_crypto [OF C d(4,5) rnds c(2) _ my d(8) [OF d(2)], where p = "Some (ThresholdPolicy 10)" and message = message] by blast
  let ?cha = "CosiChallen \<lparr>cg_AggregatePublicKey = pk, cg_AggregateCommit = R, cg_Round = rnd, cg_Epoch = nd_CurrentEpoch s\<rparr>"
  note sc = send_committed_ok [OF d(1) [unfolded G] c(2) d(2) my, folded G]
  have notl: "l \<notin> set (take k js)" using js(2) set_take_subset [of k js] by auto
  have "\<exists>sig out. leader_cosi C s rnd message P (Inr (rnds l)) cevs revs = Finished (sig, out)
        \<and> (\<forall>j \<in> set ks. (mem_Address (mem G me j), CosiSig \<lparr>rsp_ID = nd_MyGlobalID s, rsp_Sig = sig, rsp_Round = rnd, rsp_Epoch = nd_CurrentEpoch s\<rparr>) \<in> set out)
        \<and> cosi_Verify C ?keys (Some (ThresholdPolicy 10)) message sig = Some (9 \<le> length ks)"
    if ks: "responses_of rnd revs = map (\<lambda>j. (num G me j, part C seeds rnds message pk R j)) ks" "distinct ks" "set ks = set (take k js)" for revs ks
  proof -
    let ?f = "\<lambda>i. if i = l then [] else part C seeds rnds message pk R i"
    let ?r0 = "\<lparr>cl_parts = replicate 20 [], cl_mask = mk, cl_count = 1\<rparr>"
    obtain out2 where out2: "send_committed s ?my (cl_mask c) ?cha = Some out2" using sc by blast
    have r0: "coll {l} ?f ?r0" by (rule coll_start [OF d(2) my b(1)]) (use d(2) in simp_all)
    have ks': "responses_of rnd revs = map (\<lambda>j. (num G me j, ?f j)) ks" using ks notl by auto
    have sub: "set ks \<inter> {l} = {}" "set ks \<subseteq> {..<20}" using ks(3) notl js(2) set_take_subset [of k js] by auto
    obtain r out3 where r: "response_loop G me rnd ?cha (card {l} + length ks) revs (?r0, out1 @ out2) = Finished (r, out3)"
        "coll ({l} \<union> set ks) ?f r"
      using response_loop_ok [OF d(1) r0 ks' ks(2) sub] by blast
    have card: "card ?J = Suc (length ks)" using ks(2,3) notl distinct_card [OF ks(2)] by simp
    then have cnt: "cl_count c = card {l} + length ks" using c(2) by (simp add: coll_def)
    obtain sig where sig: "leader_signature C ?my (Some (sec C rnds l)) message cos pk R r = Some sig"
        "cosi_Verify C ?keys (Some (ThresholdPolicy 10)) message sig = Some (policy_holds (Some (ThresholdPolicy 10)) (card ?J) 20)"
      using sign [of r] r(2) ks(3) by (auto simp: coll_def)
    let ?sig = "CosiSig \<lparr>rsp_ID = nd_MyGlobalID s, rsp_Sig = sig, rsp_Round = rnd, rsp_Epoch = nd_CurrentEpoch s\<rparr>"
    let ?out4 = "map (\<lambda>i. (mem_Address (mem G me i), ?sig)) (filter (\<lambda>i. i \<in> ?J - {l}) [0..<20])"
    have "leader_cosi C s rnd message P (Inr (rnds l)) cevs revs = Finished (sig, out3 @ ?out4)"
      using d(6) b c(1) a(1) out2 r(1) sig(1) sc [of ?sig] cnt
      by (simp add: leader_cosi_def Let_def my_commit_ok G [symmetric])
    moreover have "(mem_Address (mem G me j), ?sig) \<in> set (out3 @ ?out4)" if "j \<in> set ks" for j
      using that sub ks(3) by auto
    ultimately show ?thesis using sig(2) card by (auto simp: policy_holds_def ThresholdPolicy_def)
  qed
  note answered = this
  have card: "cl_count c = Suc k" using c(2,4) notl js(1) distinct_card [of "take k js"] by (simp add: coll_def)
  have "k = 19" if "ticks cevs < 5"
    using c(3) that card c(4) js(1,2) card_mono [of "{..<20} - {l}" "set js"] distinct_card [OF js(1)] d(2) by auto
  moreover have "\<exists>out. leader_cosi C s rnd message P (Inr (rnds l)) cevs [] = Blocked out
      \<and> (\<forall>j \<in> set (take k js). (mem_Address (mem G me j), ?cha) \<in> set out)" if "k \<noteq> 0"
  proof -
    let ?out2 = "map (\<lambda>i. (mem_Address (mem G me i), ?cha)) (filter (\<lambda>i. i \<in> ?J - {l}) [0..<20])"
    have "leader_cosi C s rnd message P (Inr (rnds l)) cevs [] = Blocked (out1 @ ?out2)"
      using d(6) b c(1) a(1) sc [of ?cha] card that
      by (simp add: leader_cosi_def Let_def my_commit_ok G [symmetric] response_loop.simps)
    moreover have "(mem_Address (mem G me j), ?cha) \<in> set (out1 @ ?out2)" if "j \<in> set (take k js)" for j
      using that js'(2) notl set_take_subset [of k js] by auto
    ultimately show ?thesis by blast
  qed
  ultimately show ?thesis using a(2) c(4) answered by blast
qed

text \<open>What a member's channels deliver in such a round, whatever else they deliver: an announcement, one
  challenge, and the signature.\<close>

definition delivered :: "int \<Rightarrow> bytes \<Rightarrow> bytes \<Rightarrow> bytes \<Rightarrow> announceInfo list \<Rightarrow> member_event list \<Rightarrow> responseInfo event list \<Rightarrow> bool" where
  "delivered rnd pk R sig anns evs sevs \<longleftrightarrow> (\<exists>a \<in> set anns. an_Round a = rnd)
     \<and> (\<exists>c. Challenged c \<in> set evs \<and> cg_Round c = rnd)
     \<and> (\<forall>c. Challenged c \<in> set evs \<and> cg_Round c = rnd \<longrightarrow> cg_AggregatePublicKey c = pk \<and> cg_AggregateCommit c = R)
     \<and> (\<exists>m. Arrive m \<in> set sevs \<and> rsp_Round m = rnd) \<and> (\<forall>m. Arrive m \<in> set sevs \<and> rsp_Round m = rnd \<longrightarrow> rsp_Sig m = sig)"

lemma await_announce_ok: "\<exists>a \<in> set anns. an_Round a = rnd \<Longrightarrow> \<exists>a as. await_announce rnd anns = Finished (a, as)"
  by (induction anns) auto

lemma await_challenge_ok:
  "\<exists>c. Challenged c \<in> set evs \<and> cg_Round c = rnd \<Longrightarrow>
   \<exists>c out'. await_challenge rnd msg evs out = Finished (c, out') \<and> Challenged c \<in> set evs \<and> cg_Round c = rnd \<and> set out \<subseteq> set out'"
proof (induction rnd msg evs out rule: await_challenge.induct)
  case (2 rnd msg a es out)
  then show ?case by auto
qed auto

lemma await_sig_ok:
  "\<exists>m. Arrive m \<in> set evs \<and> rsp_Round m = rnd \<Longrightarrow>
   \<exists>m out'. await_sig rnd msg evs out = Finished (m, out') \<and> Arrive m \<in> set evs \<and> rsp_Round m = rnd \<and> set out \<subseteq> set out'"
  by (induction rnd msg evs out rule: await_sig.induct) auto

lemma member_cosi_ok:
  assumes C: "curve_ok C" and hs: "honest_shard C seeds j s" and R: "length R = 32" and d: "delivered rnd pk R sig anns evs sevs"
    and v: "cosi_Verify C (map (\<lambda>x. fst (GenerateKey C x)) seeds) (Some (ThresholdPolicy 10)) message sig = Some valid"
  shows "\<exists>out. member_cosi C s rnd message (Inr (rnds j)) anns evs sevs = Finished (valid, sig, out)
    \<and> (nd_LeaderAddr s, CosiCommit \<lparr>cm_ID = nd_MyGlobalID s, cm_Commit = com C rnds j, cm_Round = rnd, cm_Epoch = nd_CurrentEpoch s\<rparr>) \<in> set out
    \<and> (nd_LeaderAddr s, CosiRespon \<lparr>rsp_ID = nd_MyGlobalID s, rsp_Sig = part C seeds rnds message pk R j, rsp_Round = rnd,
         rsp_Epoch = nd_CurrentEpoch s\<rparr>) \<in> set out"
proof -
  note h = honest_shardD [OF hs refl refl]
  let ?com = "(nd_LeaderAddr s, CosiCommit \<lparr>cm_ID = nd_MyGlobalID s, cm_Commit = com C rnds j, cm_Round = rnd, cm_Epoch = nd_CurrentEpoch s\<rparr>)"
  let ?resp = "\<lparr>rsp_ID = nd_MyGlobalID s, rsp_Sig = part C seeds rnds message pk R j, rsp_Round = rnd, rsp_Epoch = nd_CurrentEpoch s\<rparr>"
  let ?req = "(nd_LeaderAddr s, ReqCosiSig \<lparr>sq_ID = nd_MyGlobalID s, sq_Round = rnd, sq_Epoch = nd_CurrentEpoch s\<rparr>)"
  obtain a as where a: "await_announce rnd anns = Finished (a, as)" using await_announce_ok d unfolding delivered_def by blast
  obtain c out1 where c: "await_challenge rnd ?com evs [?com] = Finished (c, out1)" "Challenged c \<in> set evs" "cg_Round c = rnd" "set [?com] \<subseteq> set out1"
    using await_challenge_ok [of evs rnd ?com "[?com]"] d unfolding delivered_def by blast
  then have "cg_AggregatePublicKey c = pk" "cg_AggregateCommit c = R" using d unfolding delivered_def by blast+
  moreover have "length (seeds ! j) = 32" using h(2,4,5) by simp
  ultimately have resp: "member_response C s (mem (ch_Group (nd_Chain s)) (ch_me (nd_Chain s)) j) (Some (sec C rnds j)) rnd message c = Some ?resp"
    using Cosign_part [OF C _ R] h(8) [OF h(2)] by (fastforce simp: member_response_def)
  obtain m out2 where m: "await_sig rnd ?req sevs (out1 @ [(nd_LeaderAddr s, CosiRespon ?resp)]) = Finished (m, out2)"
      "Arrive m \<in> set sevs" "rsp_Round m = rnd" "set (out1 @ [(nd_LeaderAddr s, CosiRespon ?resp)]) \<subseteq> set out2"
    using await_sig_ok [of sevs rnd ?req "out1 @ [(nd_LeaderAddr s, CosiRespon ?resp)]"] d unfolding delivered_def by blast
  then have "rsp_Sig m = sig" using d unfolding delivered_def by blast
  then have "member_cosi C s rnd message (Inr (rnds j)) anns evs sevs = Finished (valid, sig, out2)"
    using h(6,7) a c(1) resp m(1) v by (simp add: member_cosi_def Let_def my_commit_ok)
  then show ?thesis using c(4) m(4) by auto
qed

text \<open>C33: A round of collective signing with honest members succeeds. Let the commitments of the round
  that reach the leader be those of different other members, all nineteen of them or fewer with the
  five timeouts, among other messages and timeouts in any order. Then the leader goes on with a
  number \<open>k\<close> of them (all, unless five timeouts came first), challenges these with the aggregates
  \<open>pk\<close> and \<open>R\<close>, and once their answers have come, in any order, it ends with a signature that it
  sends to each of them. Each of these members, whatever else it is sent, sends exactly the
  commitment and the answer the leader needs, ends with the same signature, and finds it valid
  exactly if nine other members signed with the leader, half the shard.\<close>

theorem cosi_round:
  fixes s :: "'d Node" and C :: "('g::ab_group_add) curve"
  assumes "curve_ok C" and "honest_shard C seeds l s" and "G = ch_Group (nd_Chain s)" and "me = ch_me (nd_Chain s)"
    and "\<forall>i < 20. length (rnds i) = 64"
    and "commits_of rnd cevs = map (\<lambda>j. (num G me j, com C rnds j)) js"
    and "distinct js" and "set js \<subseteq> {..<20} - {l}" and "length js = 19 \<or> 5 \<le> ticks cevs"
  shows "\<exists>k pk R. k \<le> length js \<and> (ticks cevs < 5 \<longrightarrow> k = 19)
    \<and> (k \<noteq> 0 \<longrightarrow> (\<exists>out. leader_cosi C s rnd message P (Inr (rnds l)) cevs [] = Blocked out
        \<and> (\<forall>j \<in> set (take k js). (mem_Address (mem G me j), CosiChallen
             \<lparr>cg_AggregatePublicKey = pk, cg_AggregateCommit = R, cg_Round = rnd, cg_Epoch = nd_CurrentEpoch s\<rparr>) \<in> set out)))
    \<and> (\<forall>revs ks. responses_of rnd revs = map (\<lambda>j. (num G me j, part C seeds rnds message pk R j)) ks
          \<and> distinct ks \<and> set ks = set (take k js) \<longrightarrow>
        (\<exists>sig out. leader_cosi C s rnd message P (Inr (rnds l)) cevs revs = Finished (sig, out)
          \<and> (\<forall>j \<in> set ks. (mem_Address (mem G me j), CosiSig \<lparr>rsp_ID = nd_MyGlobalID s, rsp_Sig = sig, rsp_Round = rnd,
                 rsp_Epoch = nd_CurrentEpoch s\<rparr>) \<in> set out)
          \<and> (\<forall>j (sj :: 'd Node) anns evs sevs. honest_shard C seeds j sj \<and> delivered rnd pk R sig anns evs sevs \<longrightarrow>
               (\<exists>outj. member_cosi C sj rnd message (Inr (rnds j)) anns evs sevs = Finished (9 \<le> k, sig, outj)
                 \<and> (nd_LeaderAddr sj, CosiCommit \<lparr>cm_ID = nd_MyGlobalID sj, cm_Commit = com C rnds j, cm_Round = rnd,
                      cm_Epoch = nd_CurrentEpoch sj\<rparr>) \<in> set outj
                 \<and> (nd_LeaderAddr sj, CosiRespon \<lparr>rsp_ID = nd_MyGlobalID sj, rsp_Sig = part C seeds rnds message pk R j,
                      rsp_Round = rnd, rsp_Epoch = nd_CurrentEpoch sj\<rparr>) \<in> set outj))))"
proof -
  obtain k pk R where k: "length R = 32" "k \<le> length js" "ticks cevs < 5 \<longrightarrow> k = 19"
    and cha: "k \<noteq> 0 \<longrightarrow> (\<exists>out. leader_cosi C s rnd message P (Inr (rnds l)) cevs [] = Blocked out
        \<and> (\<forall>j \<in> set (take k js). (mem_Address (mem G me j), CosiChallen
             \<lparr>cg_AggregatePublicKey = pk, cg_AggregateCommit = R, cg_Round = rnd, cg_Epoch = nd_CurrentEpoch s\<rparr>) \<in> set out))"
    and fin: "\<And>revs ks. responses_of rnd revs = map (\<lambda>j. (num G me j, part C seeds rnds message pk R j)) ks
      \<and> distinct ks \<and> set ks = set (take k js) \<Longrightarrow>
      (\<exists>sig out. leader_cosi C s rnd message P (Inr (rnds l)) cevs revs = Finished (sig, out)
        \<and> (\<forall>j \<in> set ks. (mem_Address (mem G me j), CosiSig \<lparr>rsp_ID = nd_MyGlobalID s, rsp_Sig = sig, rsp_Round = rnd, rsp_Epoch = nd_CurrentEpoch s\<rparr>) \<in> set out)
        \<and> cosi_Verify C (map (\<lambda>x. fst (GenerateKey C x)) seeds) (Some (ThresholdPolicy 10)) message sig = Some (9 \<le> length ks))"
    using leader_cosi_honest [OF assms, of message P] by blast
  have len: "length ks = k" if "distinct ks" "set ks = set (take k js)" for ks
    using that k(2) assms(7) distinct_card [of ks] distinct_card [of "take k js"] by simp
  show ?thesis
  proof (rule exI [of _ k], rule exI [of _ pk], rule exI [of _ R], intro conjI k(2,3) cha, intro allI impI)
    fix revs ks
    assume ks: "responses_of rnd revs = map (\<lambda>j. (num G me j, part C seeds rnds message pk R j)) ks \<and> distinct ks \<and> set ks = set (take k js)"
    from fin [OF this] obtain sig out where f: "leader_cosi C s rnd message P (Inr (rnds l)) cevs revs = Finished (sig, out)"
        "\<forall>j \<in> set ks. (mem_Address (mem G me j), CosiSig \<lparr>rsp_ID = nd_MyGlobalID s, rsp_Sig = sig, rsp_Round = rnd, rsp_Epoch = nd_CurrentEpoch s\<rparr>) \<in> set out"
        "cosi_Verify C (map (\<lambda>x. fst (GenerateKey C x)) seeds) (Some (ThresholdPolicy 10)) message sig = Some (9 \<le> k)"
      using len ks by auto
    show "\<exists>sig out. leader_cosi C s rnd message P (Inr (rnds l)) cevs revs = Finished (sig, out)
          \<and> (\<forall>j \<in> set ks. (mem_Address (mem G me j), CosiSig \<lparr>rsp_ID = nd_MyGlobalID s, rsp_Sig = sig, rsp_Round = rnd,
                 rsp_Epoch = nd_CurrentEpoch s\<rparr>) \<in> set out)
          \<and> (\<forall>j (sj :: 'd Node) anns evs sevs. honest_shard C seeds j sj \<and> delivered rnd pk R sig anns evs sevs \<longrightarrow>
               (\<exists>outj. member_cosi C sj rnd message (Inr (rnds j)) anns evs sevs = Finished (9 \<le> k, sig, outj)
                 \<and> (nd_LeaderAddr sj, CosiCommit \<lparr>cm_ID = nd_MyGlobalID sj, cm_Commit = com C rnds j, cm_Round = rnd,
                      cm_Epoch = nd_CurrentEpoch sj\<rparr>) \<in> set outj
                 \<and> (nd_LeaderAddr sj, CosiRespon \<lparr>rsp_ID = nd_MyGlobalID sj, rsp_Sig = part C seeds rnds message pk R j,
                      rsp_Round = rnd, rsp_Epoch = nd_CurrentEpoch sj\<rparr>) \<in> set outj))"
      using f(1,2) member_cosi_ok [OF assms(1) _ k(1) _ f(3)] by blast
  qed
qed

text \<open>A shard of twenty members over the toy curve; the first is the leader.\<close>

definition toy_seeds :: "bytes list" where "toy_seeds = replicate 20 (replicate 32 1)"

definition toy_member :: "nat \<Rightarrow> MemShard" where
  "toy_member i = (let k = GenerateKey toy_curve (replicate 32 1) in
     mem_zero\<lparr>mem_InShardId := int i, mem_CosiPub := fst k, mem_RealAccount := (mem_RealAccount mem_zero)\<lparr>rc_CosiPri := snd k\<rparr>\<rparr>)"

definition toy_group :: Group where
  "toy_group = \<lparr>gr_Mems = map toy_member [0..<20], gr_ShardToGlobal = [map int [0..<20]]\<rparr>"

definition toy_net :: "nat \<Rightarrow> mem_db Node" where
  "toy_net l = \<lparr>nd_Chain = toy_node\<lparr>ch_Group := toy_group\<rparr>, nd_MyGlobalID = int l, nd_CurrentEpoch = 0, nd_LeaderAddr = [], nd_CoSiFlag = False,
     nd_CosiData = Map.empty, nd_RepFinish = [False, False, False], nd_FBSent = False, nd_FBHash = None\<rparr>"

lemma toy_shard: "i < 20 \<Longrightarrow> shard_member toy_group 0 i = Some (int i, toy_member i)"
  by (simp add: shard_member_def toy_group_def at_def idx_def)

lemma toy_num_mem: "i < 20 \<Longrightarrow> num toy_group 0 i = int i" "i < 20 \<Longrightarrow> mem toy_group 0 i = toy_member i"
  by (simp_all add: num_def mem_def toy_shard)

lemma toy_shard_ok: "shard_ok toy_group 0"
  by (auto simp: shard_ok_def toy_shard) (simp_all add: toy_group_def at_def idx_def toy_member_def Let_def)

lemma toy_honest: "l < 20 \<Longrightarrow> honest_shard toy_curve toy_seeds l (toy_net l)"
  by (auto simp: honest_shard_def Let_def toy_net_def toy_shard_ok toy_num_mem toy_node_def toy_seeds_def toy_member_def)

definition toy_others :: "nat list" where "toy_others = [1..<20]"
definition toy_rnd :: "nat \<Rightarrow> bytes" where "toy_rnd i = replicate 64 3"

definition toy_commits :: "commitInfo event list" where
  "toy_commits = map (\<lambda>j. Arrive \<lparr>cm_ID = int j, cm_Commit = com toy_curve toy_rnd j, cm_Round = 0, cm_Epoch = 0\<rparr>) toy_others"

definition toy_responses :: "bytes \<Rightarrow> bytes \<Rightarrow> responseInfo event list" where
  "toy_responses pk R = map (\<lambda>j. Arrive \<lparr>rsp_ID = int j, rsp_Sig = part toy_curve toy_seeds toy_rnd [7] pk R j, rsp_Round = 0, rsp_Epoch = 0\<rparr>) toy_others"

lemma toy_others: "distinct toy_others" "set toy_others \<subseteq> {..<20} - {0}" "length toy_others = 19"
  by (auto simp: toy_others_def)

lemma toy_messages:
  "commits_of 0 toy_commits = map (\<lambda>j. (num toy_group 0 j, com toy_curve toy_rnd j)) toy_others" "ticks toy_commits = 0"
  "responses_of 0 (toy_responses pk R) = map (\<lambda>j. (num toy_group 0 j, part toy_curve toy_seeds toy_rnd [7] pk R j)) toy_others"
proof -
  have c: "commits_of 0 (map (\<lambda>j. Arrive \<lparr>cm_ID = int j, cm_Commit = f j, cm_Round = 0, cm_Epoch = 0\<rparr>) xs) = map (\<lambda>j. (int j, f j)) xs"
      "ticks (map (\<lambda>j. Arrive (g j)) xs) = 0"
      "responses_of 0 (map (\<lambda>j. Arrive \<lparr>rsp_ID = int j, rsp_Sig = f j, rsp_Round = 0, rsp_Epoch = 0\<rparr>) xs) = map (\<lambda>j. (int j, f j)) xs"
    for f and g :: "nat \<Rightarrow> commitInfo" and xs :: "nat list" by (induction xs) simp_all
  have n: "map (\<lambda>j. (num toy_group 0 j, f j)) toy_others = map (\<lambda>j. (int j, f j)) toy_others" for f :: "nat \<Rightarrow> bytes"
    using toy_others(2) by (auto simp: toy_num_mem)
  show "commits_of 0 toy_commits = map (\<lambda>j. (num toy_group 0 j, com toy_curve toy_rnd j)) toy_others" "ticks toy_commits = 0"
    "responses_of 0 (toy_responses pk R) = map (\<lambda>j. (num toy_group 0 j, part toy_curve toy_seeds toy_rnd [7] pk R j)) toy_others"
    by (simp_all only: toy_commits_def toy_responses_def c n)
qed

text \<open>All nineteen members commit and answer: the leader ends with a signature, and the last member,
  which gets one announcement, the challenge and the signature, finds it valid.\<close>

theorem cosi_round_witness:
  "\<exists>pk R sig out outj. leader_cosi toy_curve (toy_net 0) 0 [7] (\<lambda>_ _ _. True) (Inr (toy_rnd 0)) toy_commits (toy_responses pk R)
      = Finished (sig, out)
    \<and> member_cosi toy_curve (toy_net 19) 0 [7] (Inr (toy_rnd 19)) [\<lparr>an_ID = 0, an_Message = [7], an_Round = 0, an_Epoch = 0\<rparr>]
        [Challenged \<lparr>cg_AggregatePublicKey = pk, cg_AggregateCommit = R, cg_Round = 0, cg_Epoch = 0\<rparr>]
        [Tick, Arrive \<lparr>rsp_ID = 0, rsp_Sig = sig, rsp_Round = 0, rsp_Epoch = 0\<rparr>]
      = Finished (True, sig, outj)"
proof -
  have G: "toy_group = ch_Group (nd_Chain (toy_net 0))" "0 = ch_me (nd_Chain (toy_net 0))" by (simp_all add: toy_net_def toy_node_def)
  have r: "\<forall>i < 20. length (toy_rnd i) = 64" "length toy_others = 19 \<or> 5 \<le> ticks toy_commits"
    by (simp_all add: toy_rnd_def toy_others)
  have hs: "honest_shard toy_curve toy_seeds 0 (toy_net 0)" by (rule toy_honest) simp
  obtain k pk R where k: "ticks toy_commits < 5 \<longrightarrow> k = 19" and
    P: "\<forall>revs ks. responses_of 0 revs = map (\<lambda>j. (num toy_group 0 j, part toy_curve toy_seeds toy_rnd [7] pk R j)) ks
          \<and> distinct ks \<and> set ks = set (take k toy_others) \<longrightarrow>
        (\<exists>sig out. leader_cosi toy_curve (toy_net 0) 0 [7] (\<lambda>_ _ _. True) (Inr (toy_rnd 0)) toy_commits revs = Finished (sig, out)
          \<and> (\<forall>j \<in> set ks. (mem_Address (mem toy_group 0 j), CosiSig \<lparr>rsp_ID = nd_MyGlobalID (toy_net 0), rsp_Sig = sig, rsp_Round = 0,
                 rsp_Epoch = nd_CurrentEpoch (toy_net 0)\<rparr>) \<in> set out)
          \<and> (\<forall>j (sj :: mem_db Node) anns evs sevs. honest_shard toy_curve toy_seeds j sj \<and> delivered 0 pk R sig anns evs sevs \<longrightarrow>
               (\<exists>outj. member_cosi toy_curve sj 0 [7] (Inr (toy_rnd j)) anns evs sevs = Finished (9 \<le> k, sig, outj)
                 \<and> (nd_LeaderAddr sj, CosiCommit \<lparr>cm_ID = nd_MyGlobalID sj, cm_Commit = com toy_curve toy_rnd j, cm_Round = 0,
                      cm_Epoch = nd_CurrentEpoch sj\<rparr>) \<in> set outj
                 \<and> (nd_LeaderAddr sj, CosiRespon \<lparr>rsp_ID = nd_MyGlobalID sj, rsp_Sig = part toy_curve toy_seeds toy_rnd [7] pk R j,
                      rsp_Round = 0, rsp_Epoch = nd_CurrentEpoch sj\<rparr>) \<in> set outj)))"
    using cosi_round [OF toy_curve_ok hs G r(1) toy_messages(1) toy_others(1,2) r(2), of "[7]" "\<lambda>_ _ _. True"]
    by (elim exE conjE) (rule that)
  have "k = 19" using k by (simp add: toy_messages)
  have answers: "responses_of 0 (toy_responses pk R) = map (\<lambda>j. (num toy_group 0 j, part toy_curve toy_seeds toy_rnd [7] pk R j)) toy_others
      \<and> distinct toy_others \<and> set toy_others = set (take k toy_others)"
    using toy_messages(3) toy_others \<open>k = 19\<close> by simp
  from P [rule_format, OF answers] obtain sig out where s: "leader_cosi toy_curve (toy_net 0) 0 [7] (\<lambda>_ _ _. True) (Inr (toy_rnd 0)) toy_commits (toy_responses pk R) = Finished (sig, out)"
      "\<forall>j (sj :: mem_db Node) anns evs sevs. honest_shard toy_curve toy_seeds j sj \<and> delivered 0 pk R sig anns evs sevs \<longrightarrow>
               (\<exists>outj. member_cosi toy_curve sj 0 [7] (Inr (toy_rnd j)) anns evs sevs = Finished (9 \<le> k, sig, outj))"
    by blast
  have "delivered 0 pk R sig [\<lparr>an_ID = 0, an_Message = [7], an_Round = 0, an_Epoch = 0\<rparr>]
        [Challenged \<lparr>cg_AggregatePublicKey = pk, cg_AggregateCommit = R, cg_Round = 0, cg_Epoch = 0\<rparr>]
        [Tick, Arrive \<lparr>rsp_ID = 0, rsp_Sig = sig, rsp_Round = 0, rsp_Epoch = 0\<rparr>]"
    by (simp add: delivered_def)
  moreover have "honest_shard toy_curve toy_seeds 19 (toy_net 19)" by (rule toy_honest) simp
  ultimately obtain outj where "member_cosi toy_curve (toy_net 19) 0 [7] (Inr (toy_rnd 19)) [\<lparr>an_ID = 0, an_Message = [7], an_Round = 0, an_Epoch = 0\<rparr>]
        [Challenged \<lparr>cg_AggregatePublicKey = pk, cg_AggregateCommit = R, cg_Round = 0, cg_Epoch = 0\<rparr>]
        [Tick, Arrive \<lparr>rsp_ID = 0, rsp_Sig = sig, rsp_Round = 0, rsp_Epoch = 0\<rparr>] = Finished (True, sig, outj)"
    using s(2) \<open>k = 19\<close> by fastforce
  with s(1) show ?thesis by blast
qed

text \<open>Before the fifth timeout the leader only goes on with nineteen messages.\<close>

lemma commit_loop_count:
  "commit_loop G me rnd ann evs cnt (c, out) = Finished (c', out') \<Longrightarrow> cnt + ticks evs < 5 \<Longrightarrow> 20 \<le> cl_count c'"
proof (induction evs arbitrary: cnt c out)
  case Nil
  then show ?case by (simp add: commit_loop.simps split: if_splits)
next
  case (Cons e es)
  then show ?case
    by (cases e) (auto simp: commit_loop.simps [of _ _ _ _ "_ # _"] split: if_splits option.splits)
qed

lemma andThen_Finished: "andThen p f = Finished x \<longleftrightarrow> (\<exists>s. p = Finished s \<and> f s = Finished x)"
  by (cases p) auto

text \<open>C34: The leader counts messages, not members: when fewer than nineteen other members commit before
  the fifth timeout, so that only repeated commitments (which a member sends when the announcement
  reaches it again) can make up the number it waits for, and no member that did not commit answers
  and none answers twice, then the leader never finishes.\<close>

theorem repeated_commit_blocks:
  assumes "ticks cevs < 5" and "card (fst ` set (commits_of rnd cevs)) < 19"
    and "fst ` set (responses_of rnd revs) \<subseteq> fst ` set (commits_of rnd cevs)" and "distinct (map fst (responses_of rnd revs))"
  shows "leader_cosi C s rnd message P rand cevs revs \<noteq> Finished x"
proof
  have "length (responses_of rnd revs) = card (fst ` set (responses_of rnd revs))"
    using distinct_card [OF assms(4)] by simp
  also have "\<dots> \<le> card (fst ` set (commits_of rnd cevs))" by (rule card_mono) (use assms(3) in auto)
  finally have few: "1 + length (responses_of rnd revs) < 20" using assms(2) by simp
  assume "leader_cosi C s rnd message P rand cevs revs = Finished x"
  then obtain ann c0 out0 c out1 cha mk out2 r out3 where
    c: "commit_loop (ch_Group (nd_Chain s)) (ch_me (nd_Chain s)) rnd ann cevs 0 (c0, out0) = Finished (c, out1)" and
    r: "response_loop (ch_Group (nd_Chain s)) (ch_me (nd_Chain s)) rnd cha (cl_count c) revs
          (\<lparr>cl_parts = replicate 20 [], cl_mask = mk, cl_count = 1\<rparr>, out1 @ out2) = Finished (r, out3)"
    by (cases "my_commit C rand") (auto simp: leader_cosi_def andThen_Finished Let_def split: prod.splits)
  have "1 + length (responses_of rnd revs) < cl_count c" using few commit_loop_count [OF c] assms(1) by simp
  then show False using response_loop_waits r by fastforce
qed

text \<open>Eighteen members commit, the last of them twice; all of them answer.\<close>

theorem repeated_commit_blocks_witness:
  "\<forall>x. leader_cosi toy_curve (toy_net 0) 0 [7] (\<lambda>_ _ _. True) (Inr (toy_rnd 0))
     (map (\<lambda>j. Arrive \<lparr>cm_ID = j, cm_Commit = com toy_curve toy_rnd 0, cm_Round = 0, cm_Epoch = 0\<rparr>) [1,2,3,4,5,6,7,8,9,10,11,12,13,14,15,16,17,18,18])
     (map (\<lambda>j. Arrive \<lparr>rsp_ID = j, rsp_Sig = [], rsp_Round = 0, rsp_Epoch = 0\<rparr>) [1,2,3,4,5,6,7,8,9,10,11,12,13,14,15,16,17,18]) \<noteq> Finished x"
  by (intro allI repeated_commit_blocks) simp_all

text \<open>At the end of an epoch both processes wait for the final block to be sent, which nothing that runs
  signals.\<close>

lemma sync_waits_for_final_block:
  assumes "\<not> nd_FBSent s"
  shows "LeaderCosiProcess C B g now rand cevs revs s \<noteq> Finished x" "MemberCosiProcess C B g now rand anns evs sevs s \<noteq> Finished y"
  using assms by (auto simp: LeaderCosiProcess_def MemberCosiProcess_def andThen_Finished Let_def begin_sync_def end_sync_def
      attempt_def split: option.splits)

lemma verifySBMessage_eq: "verifySBMessage (Some a) (Some b) \<longleftrightarrow> a = b"
  by (auto simp: verifySBMessage_def list_all_iff intro: nth_equalityI)

text \<open>A node stores the signature it ends a round with; a member does so whether it is valid or not.\<close>

lemma AddRepSig_stored:
  assumes "AddRepSig B g sig c = Some ch"
  shows "\<exists>b. ch_RepBlock ch = Some b \<and> rp_Cosig b = sig \<and> ch_Tip ch = rp_Hash b"
proof -
  obtain b where "ch_RepBlock c = Some b" using assms by (cases "ch_RepBlock c") (auto simp: AddRepSig_def)
  with assms show ?thesis by (auto simp: AddRepSig_def store_rep_def split: option.splits)
qed

lemma end_round_stores:
  assumes "end_round B g res sig out s = Finished s'"
  shows "\<exists>b. ch_RepBlock (nd_Chain s') = Some b \<and> rp_Cosig b = sig \<and> ch_Tip (nd_Chain s') = rp_Hash b"
proof -
  obtain ch where ch: "AddRepSig B g sig (nd_Chain s) = Some ch" and eq: "nd_Chain s' = ch"
    using assms by (auto simp: end_round_def andThen_Finished attempt_def give_turn_def split: option.splits if_splits)
  show ?thesis unfolding eq by (rule AddRepSig_stored [OF ch])
qed

lemma rounds_store:
  "MemberCoSiRepProcess C B g now rand res anns evs sevs s = Finished (valid, sig, out, s') \<Longrightarrow>
   \<exists>b. ch_RepBlock (nd_Chain s') = Some b \<and> rp_Cosig b = sig \<and> ch_Tip (nd_Chain s') = rp_Hash b"
  "LeaderCoSiRepProcess C B g now rand res cevs revs s = Finished (lst, sig, out, s') \<Longrightarrow>
   \<exists>b. ch_RepBlock (nd_Chain s') = Some b \<and> rp_Cosig b = sig \<and> ch_Tip (nd_Chain s') = rp_Hash b"
  by (auto simp: MemberCoSiRepProcess_def LeaderCoSiRepProcess_def andThen_Finished Let_def dest!: end_round_stores)

end
