(* ===== verification/CrossShard.thy ===== *)
theory CrossShard
  imports TxChain
begin

text \<open>
  The record a node keeps of a transaction that several shards decide on
  (\<open>CrossShardDec\<close> of \<open>rccache/cache.go\<close> and its methods of \<open>rccache/txDatabase.go\<close>): which
  shards it concerns, what each of them has said, and the result.
\<close>

section \<open>The record\<close>

text \<open>\<open>InCheck\<close> of a shard: 0 not concerned or unknown, 1 the shard agreed, 2 it refused, 3 it
  has to decide and has not, -1 it only receives. \<open>Res\<close> is 0 unknown, 1 yes, -1 no.\<close>

record CrossShardDec =
  cs_Data :: "Transaction option"
  cs_Decision :: bytes
  cs_InCheck :: "int list"
  cs_ShardRelated :: "u32 list"
  cs_Res :: int
  cs_InCheckSum :: int
  cs_Total :: int
  cs_Value :: u32
  cs_Visible :: bool

definition CrossShardDec_zero :: CrossShardDec where
  "CrossShardDec_zero = \<lparr>cs_Data = None, cs_Decision = replicate (unat ShardSize) 0, cs_InCheck = [],
     cs_ShardRelated = [], cs_Res = 0, cs_InCheckSum = 0, cs_Total = 0, cs_Value = 0, cs_Visible = False\<rparr>"

section \<open>Operations\<close>

text \<open>The loops over the outputs and the inputs, with the array \<open>tmp\<close> of the shards seen.\<close>

definition new_out :: "OutType \<Rightarrow> bool list \<times> CrossShardDec \<Rightarrow> (bool list \<times> CrossShardDec) option" where
  "new_out x s = (case s of (tmp, t) \<Rightarrow>
     let xx = unat (OutType_ShardIndex x) in
     (case (put_idx tmp xx True, put_idx (cs_InCheck t) xx (- 1)) of
        (Some tmp', Some ic) \<Rightarrow> Some (tmp', t\<lparr>cs_Value := cs_Value t + out_Value x, cs_InCheck := ic\<rparr>)
      | _ \<Rightarrow> None))"

definition new_in :: "InType \<Rightarrow> bool list \<times> CrossShardDec \<Rightarrow> (bool list \<times> CrossShardDec) option" where
  "new_in x s = (case s of (tmp, t) \<Rightarrow>
     let xx = unat (InType_ShardIndex x) in
     (case (put_idx tmp xx True, put_idx (cs_InCheck t) xx 3) of
        (Some tmp', Some ic) \<Rightarrow> Some (tmp', t\<lparr>cs_InCheck := ic\<rparr>)
      | _ \<Rightarrow> None))"

text \<open>The closing loop: the shards seen, and how many of them have to decide.\<close>

definition new_shard :: "bool list \<Rightarrow> nat \<Rightarrow> CrossShardDec \<Rightarrow> CrossShardDec" where
  "new_shard tmp i t =
     (let t1 = (if tmp ! i then t\<lparr>cs_ShardRelated := cs_ShardRelated t @ [of_nat i]\<rparr> else t)
      in if cs_InCheck t1 ! i = 3 then t1\<lparr>cs_InCheckSum := cs_InCheckSum t1 + 1\<rparr> else t1)"

definition CrossShardDec_New :: "CrossShardDec \<Rightarrow> Transaction \<Rightarrow> CrossShardDec option" where
  "CrossShardDec_New t0 a =
     (let n = unat ShardCnt;
          t = t0\<lparr>cs_Data := Some a, cs_Res := 0, cs_Visible := True, cs_InCheck := replicate n 0, cs_InCheckSum := 0\<rparr>
      in case for_each new_out (unat (tx_TxoutCnt a)) (tx_Out a) (replicate n False, t) of None \<Rightarrow> None
         | Some s \<Rightarrow>
           (case for_each new_in (unat (tx_TxinCnt a)) (tx_In a) s of None \<Rightarrow> None
            | Some (tmp, t1) \<Rightarrow>
              let t2 = fold (new_shard tmp) [0..<n] (t1\<lparr>cs_ShardRelated := []\<rparr>)
              in Some (t2\<lparr>cs_Total := cs_InCheckSum t2\<rparr>)))"

definition upd_out :: "OutType \<Rightarrow> int list \<times> CrossShardDec \<Rightarrow> (int list \<times> CrossShardDec) option" where
  "upd_out x s = (case s of (tmp, t) \<Rightarrow>
     map_option (\<lambda>tmp'. (tmp', t\<lparr>cs_Value := cs_Value t + out_Value x\<rparr>))
       (put_idx tmp (unat (OutType_ShardIndex x)) 1))"

definition upd_in :: "InType \<Rightarrow> int list \<times> CrossShardDec \<Rightarrow> (int list \<times> CrossShardDec) option" where
  "upd_in x s = (case s of (tmp, t) \<Rightarrow>
     let xx = unat (InType_ShardIndex x) in
     (case (put_idx tmp xx 2, idx (cs_InCheck t) xx) of
        (Some tmp', Some v) \<Rightarrow> Some (tmp', if v = 0 then t\<lparr>cs_InCheck := (cs_InCheck t)[xx := 3]\<rparr> else t)
      | _ \<Rightarrow> None))"

definition upd_shard :: "int list \<Rightarrow> nat \<Rightarrow> CrossShardDec \<Rightarrow> CrossShardDec option" where
  "upd_shard tmp i t =
     (if tmp ! i = 0 then Some t
      else if length (cs_InCheck t) \<le> i then None
      else let t1 = t\<lparr>cs_ShardRelated := cs_ShardRelated t @ [of_nat i]\<rparr> in
        Some (if tmp ! i = 1 then t1\<lparr>cs_InCheck := (cs_InCheck t1)[i := - 1]\<rparr>
              else if cs_InCheck t1 ! i > 1
                then (if cs_InCheck t1 ! i = 2 then t1\<lparr>cs_Res := - 1\<rparr> else t1)
                     \<lparr>cs_InCheckSum := cs_InCheckSum t1 + 1\<rparr>
                else t1))"

definition CrossShardDec_Update :: "CrossShardDec \<Rightarrow> Transaction \<Rightarrow> CrossShardDec option" where
  "CrossShardDec_Update t0 a =
     (let n = unat ShardCnt; t = t0\<lparr>cs_Data := Some a, cs_InCheckSum := 0\<rparr>
      in case for_each upd_out (unat (tx_TxoutCnt a)) (tx_Out a) (replicate n 0, t) of None \<Rightarrow> None
         | Some s \<Rightarrow>
           (case for_each upd_in (unat (tx_TxinCnt a)) (tx_In a) s of None \<Rightarrow> None
            | Some (tmp, t1) \<Rightarrow>
              (case ofold (upd_shard tmp) [0..<n] (t1\<lparr>cs_ShardRelated := []\<rparr>) of None \<Rightarrow> None
               | Some t2 \<Rightarrow>
                 let t3 = t2\<lparr>cs_Total := cs_InCheckSum t2\<rparr>
                 in Some (if cs_InCheckSum t3 = 0 then t3\<lparr>cs_Res := 1\<rparr> else t3))))"

text \<open>What another shard decided, for a transaction this node has not seen.\<close>

definition NewFromOther :: "CrossShardDec \<Rightarrow> u32 \<Rightarrow> bool \<Rightarrow> CrossShardDec option" where
  "NewFromOther t0 index res =
     (let n = unat ShardCnt;
          t = t0\<lparr>cs_Data := None, cs_Visible := True, cs_Res := 0, cs_InCheck := replicate n 0,
                cs_Total := int n - 1\<rparr>
      in map_option (\<lambda>ic. if res then t\<lparr>cs_InCheck := ic, cs_InCheckSum := int n - 1\<rparr>
                          else t\<lparr>cs_InCheck := ic, cs_Res := - 1, cs_InCheckSum := int n\<rparr>)
           (put_idx (cs_InCheck t) (unat index) (if res then 1 else 2)))"

definition UpdateFromOther :: "CrossShardDec \<Rightarrow> u32 \<Rightarrow> bool \<Rightarrow> CrossShardDec option" where
  "UpdateFromOther t index res =
     (case idx (cs_InCheck t) (unat index) of None \<Rightarrow> None
      | Some v \<Rightarrow>
        let waits = (v = 3 \<or> v = 0 \<and> cs_Data t = None) in
        Some (if res
              then (if waits
                    then let t1 = t\<lparr>cs_InCheck := (cs_InCheck t)[unat index := 1], cs_InCheckSum := cs_InCheckSum t - 1\<rparr>;
                             t2 = (if cs_InCheckSum t1 = 0 then t1\<lparr>cs_Res := 1\<rparr> else t1)
                         in t2\<lparr>cs_Total := cs_Total t2 - 1\<rparr>
                    else t)
              else (if waits
                    then t\<lparr>cs_InCheck := (cs_InCheck t)[unat index := 2], cs_Total := cs_Total t - 1\<rparr>
                    else t)\<lparr>cs_Res := - 1\<rparr>))"

end
