(* ===== verification/NewRep.thy ===== *)
theory NewRep
  imports Block
begin

text \<open>
  The messages of the reputation consensus (\<open>NewRep/\<close>): the view of one member on the blocks
  and votes of a round (\<open>RepMsg\<close>), the list of all views a member has seen (\<open>RepSecMsg\<close>), the
  gossip messages that carry them, and the reputation block made of them. The weights of
  \<open>RepBlockMake\<close> are \<open>float64\<close> numbers: their type and its operations are a parameter.
\<close>

section \<open>Votes and views\<close>

record NewRep =
  nr_ID :: u32
  nr_Rep :: u64

record RepMsg =
  rm_ID :: u32
  rm_Round :: u32
  rm_NumTB :: u32
  rm_TBHash :: "hash list"
  rm_NumVote :: u32
  rm_Vote :: "NewRep list"
  rm_Sig :: RCSign

record RepSecMsg =
  rs_ID :: u32
  rs_Round :: u32
  rs_NumData :: u32
  rs_MsgHash :: "hash list"
  rs_MsgSig :: "RCSign list"
  rs_Sig :: RCSign

record GossipFirMsg =
  gf_ID :: u32
  gf_Cnt :: u32
  gf_Data :: "RepMsg list"

record GossipSecMsg =
  gs_ID :: u32
  gs_Cnt :: u32
  gs_Data :: "RepSecMsg list"

record RepBlock =
  rb_PrevHash :: hash
  rb_Round :: u32
  rb_TBHash :: "hash list"
  rb_Rep :: "NewRep list"
  rb_Hash :: hash

definition NewRep_zero :: NewRep where "NewRep_zero = \<lparr>nr_ID = 0, nr_Rep = 0\<rparr>"

definition RepMsg_zero :: RepMsg where
  "RepMsg_zero = \<lparr>rm_ID = 0, rm_Round = 0, rm_NumTB = 0, rm_TBHash = [], rm_NumVote = 0, rm_Vote = [],
     rm_Sig = RCSign_zero\<rparr>"

definition RepSecMsg_zero :: RepSecMsg where
  "RepSecMsg_zero = \<lparr>rs_ID = 0, rs_Round = 0, rs_NumData = 0, rs_MsgHash = [], rs_MsgSig = [], rs_Sig = RCSign_zero\<rparr>"

definition GossipFirMsg_zero :: GossipFirMsg where
  "GossipFirMsg_zero = \<lparr>gf_ID = 0, gf_Cnt = 0, gf_Data = []\<rparr>"

definition GossipSecMsg_zero :: GossipSecMsg where
  "GossipSecMsg_zero = \<lparr>gs_ID = 0, gs_Cnt = 0, gs_Data = []\<rparr>"

subsection \<open>Codecs\<close>

definition NewRep_Encode :: "NewRep \<Rightarrow> bytes option" where
  "NewRep_Encode v = seq_opt (map Encode [VU32 (nr_ID v), VU64 (nr_Rep v)])"

definition NewRep_Decode :: "NewRep dec" where
  "NewRep_Decode = steps
    [field nr_ID nr_ID_update ''NewRep ID decode failed'' Decode_u32,
     field nr_Rep nr_Rep_update ''NewRep Rep decode failed'' Decode_u64]"

definition RepMsg_Encode :: "RepMsg \<Rightarrow> bytes option" where
  "RepMsg_Encode a = seq_opt
    (map Encode [VU32 (rm_ID a), VU32 (rm_Round a), VU32 (rm_NumTB a), VU32 (rm_NumVote a)]
     @ [for_upto (\<lambda>h. Encode (P32 h)) (unat (rm_NumTB a)) (rm_TBHash a),
        for_upto NewRep_Encode (unat (rm_NumVote a)) (rm_Vote a),
        Encode (PSign (rm_Sig a))])"

definition RepMsg_Decode :: "RepMsg dec" where
  "RepMsg_Decode = steps
    [field rm_ID rm_ID_update ''RepMsg ID decode failed'' Decode_u32,
     field rm_Round rm_Round_update ''RepMsg Round decode failed'' Decode_u32,
     field rm_NumTB rm_NumTB_update ''RepMsg NumTB decode failed'' Decode_u32,
     field rm_NumVote rm_NumVote_update ''RepMsg NumVote decode failed'' Decode_u32,
     fieldS rm_TBHash rm_TBHash_update (\<lambda>a. make_array (\<lambda>_. Wrap ''RepMsg TBHash decode failed'')
       (unat (rm_NumTB a)) 0 Decode_hash),
     fieldS rm_Vote rm_Vote_update (\<lambda>a. make_array (\<lambda>_. Wrap ''RepMsg Vote decode failed'')
       (unat (rm_NumVote a)) NewRep_zero NewRep_Decode),
     field rm_Sig rm_Sig_update ''RepMsg Sig decode failed'' DataToSign]"

definition RepSecMsg_Encode :: "RepSecMsg \<Rightarrow> bytes option" where
  "RepSecMsg_Encode a = seq_opt
    (map Encode [VU32 (rs_ID a), VU32 (rs_Round a), VU32 (rs_NumData a)]
     @ [for_upto (\<lambda>h. Encode (P32 h)) (unat (rs_NumData a)) (rs_MsgHash a),
        for_upto (\<lambda>s. Encode (PSign s)) (unat (rs_NumData a)) (rs_MsgSig a),
        Encode (PSign (rs_Sig a))])"

definition RepSecMsg_Decode :: "RepSecMsg dec" where
  "RepSecMsg_Decode = steps
    [field rs_ID rs_ID_update ''RepSecMsg ID decode failed'' Decode_u32,
     field rs_Round rs_Round_update ''RepSecMsg Round decode failed'' Decode_u32,
     field rs_NumData rs_NumData_update ''RepSecMsg NumData decode failed'' Decode_u32,
     fieldS rs_MsgHash rs_MsgHash_update (\<lambda>a. make_array (\<lambda>_. Wrap ''RepSecMsg MsgHash decode failed'')
       (unat (rs_NumData a)) 0 Decode_hash),
     fieldS rs_MsgSig rs_MsgSig_update (\<lambda>a. make_array (\<lambda>_. Wrap ''RepSecMsg MsgSig decode failed'')
       (unat (rs_NumData a)) RCSign_zero DataToSign),
     field rs_Sig rs_Sig_update ''RepSecMsg Sig decode failed'' DataToSign]"

definition GossipFirMsg_Encode :: "GossipFirMsg \<Rightarrow> bytes option" where
  "GossipFirMsg_Encode a = seq_opt
    (map Encode [VU32 (gf_ID a), VU32 (gf_Cnt a)] @ [for_upto RepMsg_Encode (unat (gf_Cnt a)) (gf_Data a)])"

definition GossipFirMsg_Decode :: "GossipFirMsg dec" where
  "GossipFirMsg_Decode = steps
    [field gf_ID gf_ID_update ''GossipFirMsg ID decode failed'' Decode_u32,
     field gf_Cnt gf_Cnt_update ''GossipFirMsg Cnt decode failed'' Decode_u32,
     fieldS gf_Data gf_Data_update (\<lambda>a. make_array (\<lambda>_. Wrap ''GossipFirMsg Data decode failed'')
       (unat (gf_Cnt a)) RepMsg_zero RepMsg_Decode),
     no_extra ''GossipFirMsg decode failed: With extra bits'']"

definition GossipSecMsg_Encode :: "GossipSecMsg \<Rightarrow> bytes option" where
  "GossipSecMsg_Encode a = seq_opt
    (map Encode [VU32 (gs_ID a), VU32 (gs_Cnt a)] @ [for_upto RepSecMsg_Encode (unat (gs_Cnt a)) (gs_Data a)])"

definition GossipSecMsg_Decode :: "GossipSecMsg dec" where
  "GossipSecMsg_Decode = steps
    [field gs_ID gs_ID_update ''GossipSecMsg ID Read failed'' Decode_u32,
     field gs_Cnt gs_Cnt_update ''GossipSecMsg Cnt Read failed'' Decode_u32,
     fieldS gs_Data gs_Data_update (\<lambda>a. make_array (\<lambda>_. Wrap ''GossipSecMsg Data Read failed'')
       (unat (gs_Cnt a)) RepSecMsg_zero RepSecMsg_Decode),
     no_extra ''GossipSecMsg decode failed: With extra bits'']"

subsection \<open>Hashing and making messages\<close>

definition RepMsg_data :: "RepMsg \<Rightarrow> bytes option" where
  "RepMsg_data a = seq_opt
    (map Encode [VU32 (rm_ID a), VU32 (rm_Round a), VU32 (rm_NumTB a), VU32 (rm_NumVote a)]
     @ [for_upto (\<lambda>h. Encode (P32 h)) (unat (rm_NumTB a)) (rm_TBHash a),
        for_upto NewRep_Encode (unat (rm_NumVote a)) (rm_Vote a)])"

definition RepMsg_Hash :: "RepMsg \<Rightarrow> hash option" where
  "RepMsg_Hash a = map_option DoubleHash256 (RepMsg_data a)"

definition RepMsg_Make ::
  "signer \<Rightarrow> nat \<Rightarrow> RepMsg \<Rightarrow> u32 \<Rightarrow> hash list \<Rightarrow> NewRep list \<Rightarrow> u32 \<Rightarrow> PrivateKey \<Rightarrow> RepMsg option" where
  "RepMsg_Make sg rnd a mid tb vote round prikey =
     (let b = a\<lparr>rm_ID := mid, rm_TBHash := tb, rm_Vote := vote, rm_Round := round,
               rm_NumTB := of_nat (length tb), rm_NumVote := of_nat (length vote)\<rparr>
      in map_option (\<lambda>h. b\<lparr>rm_Sig := RCSign_Sign sg rnd (be_bytes 32 h) prikey\<rparr>) (RepMsg_Hash b))"

definition RepSecMsg_data :: "RepSecMsg \<Rightarrow> bytes option" where
  "RepSecMsg_data a = seq_opt
    (map Encode [VU32 (rs_ID a), VU32 (rs_Round a), VU32 (rs_NumData a)]
     @ [for_upto (\<lambda>h. Encode (P32 h)) (unat (rs_NumData a)) (rs_MsgHash a),
        for_upto (\<lambda>s. Encode (PSign s)) (unat (rs_NumData a)) (rs_MsgSig a)])"

definition RepSecMsg_Hash :: "RepSecMsg \<Rightarrow> hash option" where
  "RepSecMsg_Hash a = map_option DoubleHash256 (RepSecMsg_data a)"

definition RepSecMsg_Make ::
  "signer \<Rightarrow> nat \<Rightarrow> RepSecMsg \<Rightarrow> u32 \<Rightarrow> GossipFirMsg \<Rightarrow> u32 \<Rightarrow> PrivateKey \<Rightarrow> RepSecMsg option" where
  "RepSecMsg_Make sg rnd a mid g round prikey =
     (let n = unat (gf_Cnt g) in
      case for_upto (\<lambda>m. map_option (\<lambda>h. [(h, rm_Sig m)]) (RepMsg_Hash m)) n (gf_Data g) of None \<Rightarrow> None
      | Some hs \<Rightarrow>
        let b = a\<lparr>rs_ID := mid, rs_Round := round, rs_NumData := gf_Cnt g,
                 rs_MsgHash := map fst hs, rs_MsgSig := map snd hs\<rparr>
        in map_option (\<lambda>h. b\<lparr>rs_Sig := RCSign_Sign sg rnd (be_bytes 32 h) prikey\<rparr>) (RepSecMsg_Hash b))"

definition GossipFirMsgMake :: "RepMsg \<Rightarrow> GossipFirMsg" where
  "GossipFirMsgMake data = \<lparr>gf_ID = rm_ID data, gf_Cnt = 1, gf_Data = [data]\<rparr>"

definition GossipFirMsg_Add :: "GossipFirMsg \<Rightarrow> RepMsg \<Rightarrow> GossipFirMsg" where
  "GossipFirMsg_Add a data = a\<lparr>gf_Cnt := gf_Cnt a + 1, gf_Data := gf_Data a @ [data]\<rparr>"

definition GossipSecMsgMake :: "RepSecMsg \<Rightarrow> GossipSecMsg" where
  "GossipSecMsgMake data = \<lparr>gs_ID = rs_ID data, gs_Cnt = 1, gs_Data = [data]\<rparr>"

definition GossipSecMsg_Add :: "GossipSecMsg \<Rightarrow> RepSecMsg \<Rightarrow> GossipSecMsg" where
  "GossipSecMsg_Add a data = a\<lparr>gs_Cnt := gs_Cnt a + 1, gs_Data := gs_Data a @ [data]\<rparr>"

section \<open>Reputation blocks\<close>

definition RepBlock_data :: "RepBlock \<Rightarrow> bytes option" where
  "RepBlock_data a = seq_opt
    (map Encode [VArr32 (rb_PrevHash a), VU32 (rb_Round a)]
     @ map (\<lambda>h. Encode (P32 h)) (rb_TBHash a) @ map (\<lambda>v. Encode (VU64 (nr_Rep v))) (rb_Rep a))"

definition RepBlock_GetHash :: "RepBlock \<Rightarrow> hash option" where
  "RepBlock_GetHash a = map_option DoubleHash256 (RepBlock_data a)"

text \<open>The count of every block hash in the views, and the hashes in the order they were first
  seen.\<close>

definition tb_count :: "hash \<Rightarrow> (hash \<rightharpoonup> u64) \<times> hash list \<Rightarrow> (hash \<rightharpoonup> u64) \<times> hash list" where
  "tb_count h s = (case s of (m, tbs) \<Rightarrow>
     (case m h of None \<Rightarrow> (m(h \<mapsto> 1), tbs @ [h]) | Some test \<Rightarrow> (m(h \<mapsto> test + 1), tbs)))"

definition tb_majority :: "RepMsg list \<Rightarrow> hash list" where
  "tb_majority data =
     (case fold (\<lambda>d s. fold tb_count (rm_TBHash d) s) data (Map.empty, []) of
        (m, tbs) \<Rightarrow> filter (\<lambda>h. (ucast (the (m h)) :: u32) > ShardSize div 2) tbs)"

text \<open>The \<open>float64\<close> operations: conversions, arithmetic, square root and the test for zero.\<close>

record 'f float64 =
  d_of :: "u64 \<Rightarrow> 'f"
  d_to :: "'f \<Rightarrow> u64"
  d_add :: "'f \<Rightarrow> 'f \<Rightarrow> 'f"
  d_sub :: "'f \<Rightarrow> 'f \<Rightarrow> 'f"
  d_mul :: "'f \<Rightarrow> 'f \<Rightarrow> 'f"
  d_div :: "'f \<Rightarrow> 'f \<Rightarrow> 'f"
  d_sqrt :: "'f \<Rightarrow> 'f"
  d_is0 :: "'f \<Rightarrow> bool"

definition upd_at :: "nat \<Rightarrow> ('f \<Rightarrow> 'f) \<Rightarrow> 'f list \<Rightarrow> 'f list option" where
  "upd_at i f xs = (if i < length xs then Some (xs[i := f (xs ! i)]) else None)"

text \<open>The mean vote for every member.\<close>

definition rep_votes :: "'f float64 \<Rightarrow> RepMsg list \<Rightarrow> 'f list option" where
  "rep_votes F data = map_option (map (\<lambda>x. d_div F x (d_of F (of_nat (length data)))))
     (ofold (\<lambda>d. ofold (\<lambda>v. upd_at (unat (nr_ID v)) (\<lambda>x. d_add F x (d_of F (nr_Rep v)))) (rm_Vote d)) data
        (replicate (unat ShardSize) (d_of F 0)))"

text \<open>The distance of the votes of a member from the mean. The sum of the weights adds
  \<open>weight[i]\<close>, for the \<open>i\<close>-th view, after \<open>weight[data[i].ID]\<close> was set.\<close>

definition rep_distance :: "'f float64 \<Rightarrow> 'f list \<Rightarrow> RepMsg \<Rightarrow> 'f option" where
  "rep_distance F repvote d = map_option
     (\<lambda>s. d_sqrt F (d_div F s (d_of F (of_nat (length repvote)))))
     (ofold (\<lambda>j s. map_option (\<lambda>v. let x = d_sub F (repvote ! j) (d_of F (nr_Rep v)) in d_add F s (d_mul F x x))
        (idx (rm_Vote d) j)) [0..<length repvote] (d_of F 0))"

definition rep_weights :: "'f float64 \<Rightarrow> 'f list \<Rightarrow> RepMsg list \<Rightarrow> ('f list \<times> 'f) option" where
  "rep_weights F repvote data = ofold (\<lambda>i wt. case wt of (w, tot) \<Rightarrow>
       (case rep_distance F repvote (data ! i) of None \<Rightarrow> None
        | Some x \<Rightarrow> (case upd_at (unat (rm_ID (data ! i))) (\<lambda>_. x) w of None \<Rightarrow> None
          | Some w' \<Rightarrow> map_option (\<lambda>wi. (w', d_add F tot wi)) (idx w' i))))
     [0..<length data] (replicate (unat ShardSize) (d_of F 0), d_of F 0)"

definition rep_normal :: "'f float64 \<Rightarrow> 'f list \<times> 'f \<Rightarrow> RepMsg list \<Rightarrow> 'f list option" where
  "rep_normal F wt data = (case wt of (w, tot) \<Rightarrow>
     (case ofold (\<lambda>d s. case s of (w, t2) \<Rightarrow>
            (case upd_at (unat (rm_ID d)) (\<lambda>x. d_sub F tot x) w of None \<Rightarrow> None
             | Some w' \<Rightarrow> Some (w', d_add F t2 (w' ! unat (rm_ID d))))) data (w, d_of F 0) of
        None \<Rightarrow> None
      | Some (w, t2) \<Rightarrow>
          let t = (if d_is0 F t2 then d_of F 1 else t2)
          in ofold (\<lambda>d. upd_at (unat (rm_ID d)) (\<lambda>x. d_div F x t)) data w))"

definition rep_final :: "'f float64 \<Rightarrow> 'f list \<Rightarrow> RepMsg list \<Rightarrow> nat \<Rightarrow> NewRep option" where
  "rep_final F w data i = map_option (\<lambda>t. \<lparr>nr_ID = of_nat i, nr_Rep = d_to F t\<rparr>)
     (ofold (\<lambda>d t. case (idx w (unat (rm_ID d)), idx (rm_Vote d) i) of
          (Some wd, Some v) \<Rightarrow> Some (d_add F t (d_mul F wd (d_of F (nr_Rep v)))) | _ \<Rightarrow> None) data (d_of F 0))"

definition RepBlockMake :: "'f float64 \<Rightarrow> RepMsg list \<Rightarrow> RepSecMsg list \<Rightarrow> hash \<Rightarrow> RepBlock option" where
  "RepBlockMake F data input prevHash =
     (case idx data 0 of None \<Rightarrow> None
      | Some d0 \<Rightarrow>
        (case rep_votes F data of None \<Rightarrow> None
         | Some rv \<Rightarrow>
           (case rep_weights F rv data of None \<Rightarrow> None
            | Some wt \<Rightarrow>
              (case rep_normal F wt data of None \<Rightarrow> None
               | Some w \<Rightarrow>
                 (case those (map (rep_final F w data) [0..<length rv]) of None \<Rightarrow> None
                  | Some reps \<Rightarrow>
                    let b = \<lparr>rb_PrevHash = prevHash, rb_Round = rm_Round d0, rb_TBHash = tb_majority data,
                             rb_Rep = reps, rb_Hash = 0\<rparr>
                    in map_option (\<lambda>h. b\<lparr>rb_Hash := h\<rparr>) (RepBlock_GetHash b))))))"

section \<open>Round trips\<close>

definition RepMsg_wf :: "RepMsg \<Rightarrow> bool" where
  "RepMsg_wf a \<longleftrightarrow> length (rm_TBHash a) = unat (rm_NumTB a) \<and> length (rm_Vote a) = unat (rm_NumVote a)
     \<and> RCSign_wf (rm_Sig a)"

definition RepSecMsg_wf :: "RepSecMsg \<Rightarrow> bool" where
  "RepSecMsg_wf a \<longleftrightarrow> length (rs_MsgHash a) = unat (rs_NumData a) \<and> length (rs_MsgSig a) = unat (rs_NumData a)
     \<and> list_all RCSign_wf (rs_MsgSig a) \<and> RCSign_wf (rs_Sig a)"

definition GossipFirMsg_wf :: "GossipFirMsg \<Rightarrow> bool" where
  "GossipFirMsg_wf a \<longleftrightarrow> length (gf_Data a) = unat (gf_Cnt a) \<and> list_all RepMsg_wf (gf_Data a)"

definition GossipSecMsg_wf :: "GossipSecMsg \<Rightarrow> bool" where
  "GossipSecMsg_wf a \<longleftrightarrow> length (gs_Data a) = unat (gs_Cnt a) \<and> list_all RepSecMsg_wf (gs_Data a)"

abbreviation NewRep_bytes :: "NewRep \<Rightarrow> bytes" where
  "NewRep_bytes v \<equiv> le_bytes 4 (nr_ID v) @ le_bytes 8 (nr_Rep v)"

lemma NewRep_Encode_eq [simp]: "NewRep_Encode v = Some (NewRep_bytes v)"
  by (simp add: NewRep_Encode_def)

lemma votes_enc [simp]: "seq_opt (map NewRep_Encode vs) = Some (concat (map NewRep_bytes vs))"
  by (induction vs) auto

lemma NewRep_Decode_enc [simp]:
  "length r + 12 < 2 ^ 32 \<Longrightarrow> NewRep_Decode old (le_bytes 4 (nr_ID v) @ le_bytes 8 (nr_Rep v) @ r) = DOk v r"
  by (simp add: NewRep_Decode_def fieldS_def field_def wrapD_def)

interpretation newrep_codec: field_codec "\<lambda>_. True" NewRep_Encode NewRep_Decode id NewRep_zero
proof
  fix x e r assume "NewRep_Encode x = Some e" "length (e @ r) < 2 ^ 32"
  then show "NewRep_Decode NewRep_zero (e @ r) = DOk (id x) r" by auto
next
  fix b v r old assume "NewRep_Decode NewRep_zero b = DOk v r"
  then show "NewRep_Decode old b = DOk v r"
    by (auto simp: NewRep_Decode_def fieldS_def field_def wrapD_def Decode_u32_def Decode_u64_def
        DecodeInt_def NewRep_zero_def split: if_splits)
qed simp

lemma RepMsg_Encode_wf: "RepMsg_wf a \<Longrightarrow> \<exists>e. RepMsg_Encode a = Some e"
  using SignToData_wf [of "rm_Sig a"]
  by (auto simp: RepMsg_wf_def RepMsg_Encode_def for_upto_unat)

lemma RepMsg_Decode_enc:
  assumes wf: "RepMsg_wf a" and enc: "RepMsg_Encode a = Some e" and len: "length (e @ r) < 2 ^ 32"
  shows "RepMsg_Decode RepMsg_zero (e @ r) = DOk a r"
proof -
  from wf have tb: "length (rm_TBHash a) = unat (rm_NumTB a)"
    and vt: "length (rm_Vote a) = unat (rm_NumVote a)" and rs: "RCSign_wf (rm_Sig a)"
    by (auto simp: RepMsg_wf_def)
  let ?tb = "concat (map (be_bytes 32) (rm_TBHash a))"
  let ?vt = "concat (map NewRep_bytes (rm_Vote a))"
  from enc tb vt obtain s where s: "SignToData (rm_Sig a) = Some s"
    and e: "e = le_bytes 4 (rm_ID a) @ le_bytes 4 (rm_Round a) @ le_bytes 4 (rm_NumTB a)
      @ le_bytes 4 (rm_NumVote a) @ ?tb @ ?vt @ s"
    by (auto simp: RepMsg_Encode_def for_upto_unat seq_opt_Cons_Some)
  have "make_array wr (unat (rm_NumTB a)) 0 Decode_hash x (?tb @ ?vt @ s @ r) = DOk (rm_TBHash a) (?vt @ s @ r)"
    for wr x by (rule hash_array_enc [OF tb]) (use len e in simp)
  moreover have "make_array wr (unat (rm_NumVote a)) NewRep_zero NewRep_Decode x (?vt @ s @ r)
      = DOk (rm_Vote a) (s @ r)" for wr x
    using newrep_codec.make_array_enc [of "rm_Vote a" ?vt "s @ r"] len e vt by (simp add: list_all_iff)
  moreover have "DataToSign x (s @ r) = DOk (rm_Sig a) r" for x
    by (rule DataToSign_enc [OF rs s]) (use len e in simp)
  ultimately show ?thesis
    using len by (simp add: RepMsg_Decode_def fieldS_def field_def wrapD_def e RepMsg_zero_def)
qed

interpretation repmsg_codec: codec RepMsg_wf RepMsg_Encode RepMsg_Decode id RepMsg_zero
  by unfold_locales (simp_all add: RepMsg_Encode_wf RepMsg_Decode_enc del: length_append)

lemma RepSecMsg_Encode_wf: "RepSecMsg_wf a \<Longrightarrow> \<exists>e. RepSecMsg_Encode a = Some e"
  using SignToData_wf [of "rs_Sig a"] sign_codec.enc_list_wf [of "rs_MsgSig a"]
  by (auto simp: RepSecMsg_wf_def RepSecMsg_Encode_def for_upto_unat)

lemma RepSecMsg_Decode_enc:
  assumes wf: "RepSecMsg_wf a" and enc: "RepSecMsg_Encode a = Some e" and len: "length (e @ r) < 2 ^ 32"
  shows "RepSecMsg_Decode RepSecMsg_zero (e @ r) = DOk a r"
proof -
  from wf have hs: "length (rs_MsgHash a) = unat (rs_NumData a)"
    and sg: "length (rs_MsgSig a) = unat (rs_NumData a)" "list_all RCSign_wf (rs_MsgSig a)"
    and rs: "RCSign_wf (rs_Sig a)"
    by (auto simp: RepSecMsg_wf_def)
  let ?hs = "concat (map (be_bytes 32) (rs_MsgHash a))"
  from enc hs sg obtain ss s where s: "SignToData (rs_Sig a) = Some s"
    and ss: "seq_opt (map SignToData (rs_MsgSig a)) = Some ss"
    and e: "e = le_bytes 4 (rs_ID a) @ le_bytes 4 (rs_Round a) @ le_bytes 4 (rs_NumData a) @ ?hs @ ss @ s"
    by (auto simp: RepSecMsg_Encode_def for_upto_unat seq_opt_Cons_Some)
  have "make_array wr (unat (rs_NumData a)) 0 Decode_hash x (?hs @ ss @ s @ r) = DOk (rs_MsgHash a) (ss @ s @ r)"
    for wr x by (rule hash_array_enc [OF hs]) (use len e in simp)
  moreover have "make_array wr (unat (rs_NumData a)) RCSign_zero DataToSign x (ss @ s @ r)
      = DOk (rs_MsgSig a) (s @ r)" for wr x
    unfolding sg(1) [symmetric] by (rule sign_array_enc [OF sg(2) ss]) (use len e in simp)
  moreover have "DataToSign x (s @ r) = DOk (rs_Sig a) r" for x
    by (rule DataToSign_enc [OF rs s]) (use len e in simp)
  ultimately show ?thesis
    using len by (simp add: RepSecMsg_Decode_def fieldS_def field_def wrapD_def e RepSecMsg_zero_def)
qed

interpretation repsecmsg_codec: codec RepSecMsg_wf RepSecMsg_Encode RepSecMsg_Decode id RepSecMsg_zero
  by unfold_locales (simp_all add: RepSecMsg_Encode_wf RepSecMsg_Decode_enc del: length_append)

lemma GossipFirMsg_Decode_enc:
  assumes wf: "GossipFirMsg_wf a" and enc: "GossipFirMsg_Encode a = Some e" and len: "length (e @ r) < 2 ^ 32"
  shows "GossipFirMsg_Decode GossipFirMsg_zero (e @ r) =
    (if r = [] then DOk a [] else DErr a r (Msg ''GossipFirMsg decode failed: With extra bits''))"
proof -
  from wf have n: "length (gf_Data a) = unat (gf_Cnt a)" and d: "list_all RepMsg_wf (gf_Data a)"
    by (auto simp: GossipFirMsg_wf_def)
  from enc n obtain m where m: "seq_opt (map RepMsg_Encode (gf_Data a)) = Some m"
    and e: "e = le_bytes 4 (gf_ID a) @ le_bytes 4 (gf_Cnt a) @ m"
    by (auto simp: GossipFirMsg_Encode_def for_upto_unat seq_opt_Cons_Some)
  have "make_array wr (unat (gf_Cnt a)) RepMsg_zero RepMsg_Decode x (m @ r) = DOk (gf_Data a) r" for wr x
    using repmsg_codec.make_array_enc [OF d m] n len e by simp
  then show ?thesis
    using len by (simp add: GossipFirMsg_Decode_def fieldS_def field_def wrapD_def no_extra_def e GossipFirMsg_zero_def)
qed

lemma GossipSecMsg_Decode_enc:
  assumes wf: "GossipSecMsg_wf a" and enc: "GossipSecMsg_Encode a = Some e" and len: "length (e @ r) < 2 ^ 32"
  shows "GossipSecMsg_Decode GossipSecMsg_zero (e @ r) =
    (if r = [] then DOk a [] else DErr a r (Msg ''GossipSecMsg decode failed: With extra bits''))"
proof -
  from wf have n: "length (gs_Data a) = unat (gs_Cnt a)" and d: "list_all RepSecMsg_wf (gs_Data a)"
    by (auto simp: GossipSecMsg_wf_def)
  from enc n obtain m where m: "seq_opt (map RepSecMsg_Encode (gs_Data a)) = Some m"
    and e: "e = le_bytes 4 (gs_ID a) @ le_bytes 4 (gs_Cnt a) @ m"
    by (auto simp: GossipSecMsg_Encode_def for_upto_unat seq_opt_Cons_Some)
  have "make_array wr (unat (gs_Cnt a)) RepSecMsg_zero RepSecMsg_Decode x (m @ r) = DOk (gs_Data a) r" for wr x
    using repsecmsg_codec.make_array_enc [OF d m] n len e by simp
  then show ?thesis
    using len by (simp add: GossipSecMsg_Decode_def fieldS_def field_def wrapD_def no_extra_def e GossipSecMsg_zero_def)
qed

lemma GossipFirMsg_Encode_wf: "GossipFirMsg_wf a \<Longrightarrow> \<exists>e. GossipFirMsg_Encode a = Some e"
  using repmsg_codec.enc_list_wf [of "gf_Data a"]
  by (auto simp: GossipFirMsg_wf_def GossipFirMsg_Encode_def for_upto_unat)

lemma GossipSecMsg_Encode_wf: "GossipSecMsg_wf a \<Longrightarrow> \<exists>e. GossipSecMsg_Encode a = Some e"
  using repsecmsg_codec.enc_list_wf [of "gs_Data a"]
  by (auto simp: GossipSecMsg_wf_def GossipSecMsg_Encode_def for_upto_unat)

section \<open>Making messages and blocks\<close>

lemma RepMsg_data_cnt:
  assumes "length (rm_TBHash a) = unat (rm_NumTB a)" and "length (rm_Vote a) = unat (rm_NumVote a)"
  shows "RepMsg_data a = Some (le_bytes 4 (rm_ID a) @ le_bytes 4 (rm_Round a) @ le_bytes 4 (rm_NumTB a)
    @ le_bytes 4 (rm_NumVote a) @ concat (map (be_bytes 32) (rm_TBHash a)) @ concat (map NewRep_bytes (rm_Vote a)))"
  using assms by (simp add: RepMsg_data_def for_upto_unat)

lemma RepMsg_data_sig [simp]: "RepMsg_data (a\<lparr>rm_Sig := s\<rparr>) = RepMsg_data a"
  by (simp add: RepMsg_data_def)

lemma concat_votes_inj:
  "concat (map NewRep_bytes xs) = concat (map NewRep_bytes ys) \<Longrightarrow> length xs = length ys \<Longrightarrow> xs = ys"
proof (induction xs arbitrary: ys)
  case (Cons x xs)
  then obtain y zs where y: "ys = y # zs" by (cases ys) auto
  with Cons show ?case by (auto simp: append_eq_append_conv)
qed simp

lemma tb_count_fold:
  "fold tb_count hs (Map.empty, []) = (m, tbs) \<Longrightarrow>
     distinct tbs \<and> set tbs = set hs \<and> (\<forall>h. m h = (if h \<in> set hs then Some (of_nat (count_list hs h)) else None))"
proof (induction hs arbitrary: m tbs rule: rev_induct)
  case (snoc h hs)
  obtain m' tbs' where s: "fold tb_count hs (Map.empty, []) = (m', tbs')" by (metis surj_pair)
  note IH = snoc.IH [OF s]
  have "tb_count h (m', tbs') = (m, tbs)" using snoc.prems s by simp
  then show ?case
    using IH by (auto simp: tb_count_def split: option.splits if_splits)
qed simp

lemma fold_map_concat: "fold (\<lambda>d s. fold f (g d) s) data s = fold f (concat (map g data)) s"
  by (induction data arbitrary: s) auto

definition votes_in :: "RepMsg list \<Rightarrow> hash list" where
  "votes_in data = concat (map rm_TBHash data)"

lemma tb_majority_eq:
  assumes "length (votes_in data) < 2 ^ 32"
  shows "distinct (tb_majority data) \<and> set (tb_majority data) = {h. 10 < count_list (votes_in data) h}"
proof -
  obtain m tbs where s: "fold tb_count (votes_in data) (Map.empty, []) = (m, tbs)" by (metis surj_pair)
  note f = tb_count_fold [OF s]
  have le: "count_list (votes_in data) h < 2 ^ 32" for h
    using assms count_le_length [of "votes_in data" h] by linarith
  have "(ucast (of_nat (count_list (votes_in data) h) :: u64) :: u32) > ShardSize div 2
      \<longleftrightarrow> 10 < count_list (votes_in data) h" for h
  proof -
    have "(ucast (of_nat (count_list (votes_in data) h) :: u64) :: u32) = of_nat (count_list (votes_in data) h)"
      using le [of h] by (simp add: unsigned_of_nat take_bit_nat_eq_self)
    moreover have "unat (ShardSize div 2) = 10" by (simp add: ShardSize_def unat_div)
    ultimately show ?thesis using le [of h] by (simp add: word_less_nat_alt unat_of_nat_u32)
  qed
  moreover have "count_list (votes_in data) h > 10 \<Longrightarrow> h \<in> set (votes_in data)" for h
    by (metis count_list_0_iff not_less_zero)
  ultimately show ?thesis
    using f s by (auto simp: tb_majority_def fold_map_concat votes_in_def [symmetric])
qed

lemma upd_at_simps [simp]:
  "upd_at i f xs = None \<longleftrightarrow> length xs \<le> i" "upd_at i f xs = Some ys \<longleftrightarrow> i < length xs \<and> ys = xs[i := f (xs ! i)]"
  by (auto simp: upd_at_def)

lemma ShardSize_nat [simp]: "unat ShardSize = 20"
  by (simp add: ShardSize_def)

text \<open>A view that can be counted: its member exists and it has a vote for every member, and
  only for members.\<close>

definition view_ok :: "RepMsg \<Rightarrow> bool" where
  "view_ok d \<longleftrightarrow> unat (rm_ID d) < 20 \<and> 20 \<le> length (rm_Vote d) \<and> (\<forall>v \<in> set (rm_Vote d). unat (nr_ID v) < 20)"

lemma rep_votes_iff: "rep_votes F data \<noteq> None \<longleftrightarrow> (\<forall>d \<in> set data. \<forall>v \<in> set (rm_Vote d). unat (nr_ID v) < 20)"
proof -
  let ?g = "\<lambda>v. upd_at (unat (nr_ID v)) (\<lambda>x. d_add F x (d_of F (nr_Rep v)))"
  have i: "ofold ?g vs w \<noteq> None \<longleftrightarrow> (\<forall>v \<in> set vs. unat (nr_ID v) < 20)" if "length w = 20" for vs w
    by (rule ofold_iff [where I = "\<lambda>w. length w = 20"]) (use that in auto)
  have l: "length w' = 20" if "ofold ?g vs w = Some w'" "length w = 20" for vs w w'
    by (rule ofold_inv [OF that(1), where P = "\<lambda>w. length w = 20"]) (use that(2) in auto)
  have "ofold (\<lambda>d. ofold ?g (rm_Vote d)) data (replicate (unat ShardSize) (d_of F 0)) \<noteq> None
      \<longleftrightarrow> (\<forall>d \<in> set data. \<forall>v \<in> set (rm_Vote d). unat (nr_ID v) < 20)"
    by (rule ofold_iff [where I = "\<lambda>w. length w = 20"]) (use i l in auto)
  then show ?thesis by (simp add: rep_votes_def)
qed

lemma rep_votes_length: "rep_votes F data = Some rv \<Longrightarrow> length rv = 20"
proof -
  assume "rep_votes F data = Some rv"
  then obtain w where w: "ofold (\<lambda>d. ofold (\<lambda>v. upd_at (unat (nr_ID v)) (\<lambda>x. d_add F x (d_of F (nr_Rep v)))) (rm_Vote d))
      data (replicate (unat ShardSize) (d_of F 0)) = Some w" and rv: "length rv = length w"
    by (auto simp: rep_votes_def)
  have "length w = 20"
    by (rule ofold_inv [OF w, where P = "\<lambda>w. length w = 20"]) (auto elim!: ofold_inv)
  with rv show ?thesis by simp
qed

lemma rep_distance_iff: "rep_distance F rv d \<noteq> None \<longleftrightarrow> length rv \<le> length (rm_Vote d)"
proof -
  have "ofold (\<lambda>j s. map_option (\<lambda>v. let x = d_sub F (rv ! j) (d_of F (nr_Rep v)) in d_add F s (d_mul F x x))
        (idx (rm_Vote d) j)) [0..<length rv] (d_of F 0) \<noteq> None \<longleftrightarrow> (\<forall>j \<in> set [0..<length rv]. j < length (rm_Vote d))"
    by (rule ofold_iff [where I = "\<lambda>_. True"]) (auto simp: idx_def)
  also have "\<dots> \<longleftrightarrow> length rv \<le> length (rm_Vote d)"
    by (cases "length rv") (auto simp: less_Suc_eq_le)
  finally show ?thesis by (simp add: rep_distance_def)
qed

lemma rep_weights_iff:
  "rep_weights F rv data \<noteq> None \<longleftrightarrow>
     (\<forall>i < length data. length rv \<le> length (rm_Vote (data ! i)) \<and> unat (rm_ID (data ! i)) < 20 \<and> i < 20)"
proof -
  have "rep_weights F rv data \<noteq> None \<longleftrightarrow> (\<forall>i \<in> set [0..<length data].
     length rv \<le> length (rm_Vote (data ! i)) \<and> unat (rm_ID (data ! i)) < 20 \<and> i < 20)"
    unfolding rep_weights_def
  proof (rule ofold_iff [where I = "\<lambda>(w, tot). length w = 20"], goal_cases)
    case (1 i s)
    then show ?case
      using rep_distance_iff [of F rv "data ! i"]
      by (auto simp: idx_def split: prod.splits option.splits)
  next
    case (2 i s t)
    then show ?case by (auto split: prod.splits option.splits)
  qed simp
  then show ?thesis by auto
qed

lemma rep_weights_length: "rep_weights F rv data = Some (w, tot) \<Longrightarrow> length w = 20"
proof -
  assume a: "rep_weights F rv data = Some (w, tot)"
  have "(\<lambda>(w, tot). length w = 20) (w, tot)"
    by (rule ofold_inv [OF a [unfolded rep_weights_def]]) (auto split: prod.splits option.splits)
  then show ?thesis by simp
qed

lemma rep_normal_total:
  assumes "length w = 20" and "\<forall>d \<in> set data. unat (rm_ID d) < 20"
  shows "\<exists>w'. rep_normal F (w, tot) data = Some w' \<and> length w' = 20"
proof -
  have "\<exists>s. ofold (\<lambda>d s. case s of (w, t2) \<Rightarrow>
            (case upd_at (unat (rm_ID d)) (\<lambda>x. d_sub F tot x) w of None \<Rightarrow> None
             | Some w' \<Rightarrow> Some (w', d_add F t2 (w' ! unat (rm_ID d))))) data (w, d_of F 0) = Some s \<and> length (fst s) = 20"
    by (rule ofold_total) (use assms in \<open>auto split: prod.splits option.splits\<close>)
  then obtain w1 t2 where 1: "ofold (\<lambda>d s. case s of (w, t2) \<Rightarrow>
            (case upd_at (unat (rm_ID d)) (\<lambda>x. d_sub F tot x) w of None \<Rightarrow> None
             | Some w' \<Rightarrow> Some (w', d_add F t2 (w' ! unat (rm_ID d))))) data (w, d_of F 0) = Some (w1, t2)"
    and l: "length w1 = 20" by auto
  have "\<exists>w'. ofold (\<lambda>d. upd_at (unat (rm_ID d)) (\<lambda>x. d_div F x t)) data w1 = Some w' \<and> length w' = 20" for t
    by (rule ofold_total) (use assms(2) l in auto)
  then show ?thesis using 1 by (auto simp: rep_normal_def Let_def)
qed

lemma rep_final_total:
  assumes "length w = 20" and "\<forall>d \<in> set data. unat (rm_ID d) < 20 \<and> i < length (rm_Vote d)"
  shows "\<exists>v. rep_final F w data i = Some v \<and> nr_ID v = of_nat i"
proof -
  have "\<exists>t. ofold (\<lambda>d t. case (idx w (unat (rm_ID d)), idx (rm_Vote d) i) of
          (Some wd, Some v) \<Rightarrow> Some (d_add F t (d_mul F wd (d_of F (nr_Rep v)))) | _ \<Rightarrow> None) data (d_of F 0) = Some t \<and> True"
    by (rule ofold_total) (use assms in \<open>auto simp: idx_def\<close>)
  then show ?thesis by (auto simp: rep_final_def)
qed

lemma those_total: "(\<And>x. x \<in> set xs \<Longrightarrow> \<exists>y. f x = Some y) \<Longrightarrow> \<exists>ys. those (map f xs) = Some ys \<and> map Some ys = map f xs"
  by (induction xs) fastforce+

lemma RepBlock_data_some: "\<exists>m. RepBlock_data b = Some m"
  unfolding RepBlock_data_def
  by (rule seq_opt_total) auto

lemma RepBlockMake_none:
  "RepBlockMake F data input prev = None \<longleftrightarrow> data = [] \<or> 20 < length data \<or> (\<exists>d \<in> set data. \<not> view_ok d)"
proof (cases "data = [] \<or> 20 < length data \<or> (\<exists>d \<in> set data. \<not> view_ok d)")
  case True
  have "RepBlockMake F data input prev = None" if rv: "rep_votes F data = Some rv" for rv
  proof -
    have v: "\<forall>d \<in> set data. \<forall>v \<in> set (rm_Vote d). unat (nr_ID v) < 20" and l: "length rv = 20"
      using rv rep_votes_iff [of F data] rep_votes_length by auto
    then have "data = [] \<or> rep_weights F rv data = None"
      using True rep_weights_iff [of F rv data] unfolding view_ok_def
      by (metis in_set_conv_nth not_less order_less_irrefl)
    then show ?thesis using rv by (auto simp: RepBlockMake_def idx_def)
  qed
  then have "RepBlockMake F data input prev = None"
    by (cases "rep_votes F data") (auto simp: RepBlockMake_def split: option.splits)
  with True show ?thesis by blast
next
  case False
  then have ok: "\<forall>d \<in> set data. view_ok d" and n: "data \<noteq> []" "length data \<le> 20" by auto
  obtain rv where rv: "rep_votes F data = Some rv"
    using rep_votes_iff [of F data] ok by (auto simp: view_ok_def)
  note l = rep_votes_length [OF rv]
  have "\<forall>i < length data. view_ok (data ! i)" using ok by simp
  then obtain w tot where w: "rep_weights F rv data = Some (w, tot)"
    using rep_weights_iff [of F rv data] n l by (auto simp: view_ok_def)
  obtain w' where w': "rep_normal F (w, tot) data = Some w'" "length w' = 20"
    using rep_normal_total [OF rep_weights_length [OF w], of data F tot] ok by (auto simp: view_ok_def)
  have "\<exists>v. rep_final F w' data i = Some v" if "i \<in> set [0..<length rv]" for i
  proof -
    have "\<forall>d \<in> set data. unat (rm_ID d) < 20 \<and> i < length (rm_Vote d)"
      using ok l that by (fastforce simp: view_ok_def)
    then show ?thesis using rep_final_total [OF w'(2)] by blast
  qed
  then obtain reps where r: "those (map (rep_final F w' data) [0..<length rv]) = Some reps"
    using those_total [of "[0..<length rv]" "rep_final F w' data"] by blast
  have h: "RepBlock_GetHash b \<noteq> None" for b
    using RepBlock_data_some [of b] by (auto simp: RepBlock_GetHash_def)
  have i0: "idx data 0 = Some (data ! 0)" using n by (simp add: idx_def)
  have "RepBlockMake F data input prev \<noteq> None"
    unfolding RepBlockMake_def i0 rv w w'(1) r option.case Let_def using h by simp
  with False show ?thesis by blast
qed

section \<open>Properties\<close>

text \<open>The gossip messages of both phases survive the wire with every view, vote and
  signature they carry; a packet with bytes behind the message is refused.\<close>

theorem gossip_roundtrip:
  assumes "GossipFirMsg_wf f" and "GossipSecMsg_wf s"
  shows "(\<exists>e. GossipFirMsg_Encode f = Some e \<and> (\<forall>r. length (e @ r) < 2 ^ 32 \<longrightarrow>
      GossipFirMsg_Decode GossipFirMsg_zero (e @ r) =
        (if r = [] then DOk f [] else DErr f r (Msg ''GossipFirMsg decode failed: With extra bits''))))
    \<and> (\<exists>e. GossipSecMsg_Encode s = Some e \<and> (\<forall>r. length (e @ r) < 2 ^ 32 \<longrightarrow>
      GossipSecMsg_Decode GossipSecMsg_zero (e @ r) =
        (if r = [] then DOk s [] else DErr s r (Msg ''GossipSecMsg decode failed: With extra bits''))))"
  using GossipFirMsg_Encode_wf [OF assms(1)] GossipFirMsg_Decode_enc [OF assms(1)]
    GossipSecMsg_Encode_wf [OF assms(2)] GossipSecMsg_Decode_enc [OF assms(2)] by blast

definition sample_view :: RepMsg where
  "sample_view = RepMsg_zero\<lparr>rm_ID := 1, rm_NumTB := 1, rm_TBHash := [5], rm_NumVote := 1,
     rm_Vote := [\<lparr>nr_ID = 3, nr_Rep = 9\<rparr>], rm_Sig := sample_sig\<rparr>"

definition sample_sec :: RepSecMsg where
  "sample_sec = RepSecMsg_zero\<lparr>rs_ID := 2, rs_NumData := 1, rs_MsgHash := [6], rs_MsgSig := [sample_sig],
     rs_Sig := sample_sig\<rparr>"

theorem gossip_roundtrip_witness:
  "GossipFirMsg_wf (GossipFirMsgMake sample_view) \<and> GossipSecMsg_wf (GossipSecMsgMake sample_sec)
   \<and> (\<exists>e. GossipFirMsg_Encode (GossipFirMsgMake sample_view) = Some e)
   \<and> (\<exists>e. GossipSecMsg_Encode (GossipSecMsgMake sample_sec) = Some e)"
proof -
  have f: "GossipFirMsg_wf (GossipFirMsgMake sample_view)"
    by (simp add: GossipFirMsg_wf_def GossipFirMsgMake_def RepMsg_wf_def sample_view_def RepMsg_zero_def
        sample_sig_def RCSign_wf_def)
  have s: "GossipSecMsg_wf (GossipSecMsgMake sample_sec)"
    by (simp add: GossipSecMsg_wf_def GossipSecMsgMake_def RepSecMsg_wf_def sample_sec_def RepSecMsg_zero_def
        sample_sig_def RCSign_wf_def)
  show ?thesis using f s gossip_roundtrip [OF f s] by blast
qed

text \<open>C17: The view a member makes is well formed, carries the member's signature of its hash,
  which verifies under the member's key, and is signed over all of it: another view with the
  same hash has the same member, round, blocks and votes, or the two messages are a SHA-256
  collision.\<close>

theorem RepMsg_Make_binding:
  assumes "ecdsa_ok sg vf" and "length tb < 2 ^ 32" and "length vote < 2 ^ 32"
    and "length (rm_TBHash b) = unat (rm_NumTB b)" and "length (rm_Vote b) = unat (rm_NumVote b)"
  shows "\<exists>c h. RepMsg_Make sg rnd a mid tb vote rd prk = Some c \<and> RepMsg_wf c \<and> RepMsg_Hash c = Some h
    \<and> rm_ID c = mid \<and> rm_Round c = rd \<and> rm_TBHash c = tb \<and> rm_Vote c = vote
    \<and> RCSign_Verify vf (rm_Sig c) (be_bytes 32 h) (sk_Puk prk) = Some True
    \<and> (RepMsg_Hash b = Some h \<longrightarrow>
        rm_ID b = mid \<and> rm_Round b = rd \<and> rm_TBHash b = tb \<and> rm_Vote b = vote
        \<or> (\<exists>x y. RepMsg_data b = Some x \<and> RepMsg_data c = Some y \<and> collision x y))"
proof -
  define c0 where "c0 = a\<lparr>rm_ID := mid, rm_TBHash := tb, rm_Vote := vote, rm_Round := rd,
    rm_NumTB := of_nat (length tb), rm_NumVote := of_nat (length vote)\<rparr>"
  have n: "length (rm_TBHash c0) = unat (rm_NumTB c0)" "length (rm_Vote c0) = unat (rm_NumVote c0)"
    using assms(2,3) by (simp_all add: c0_def unat_of_nat_u32)
  note d = RepMsg_data_cnt [OF n] and e = RepMsg_data_cnt [OF assms(4,5)]
  obtain h where h: "RepMsg_Hash c0 = Some h" using d by (simp add: RepMsg_Hash_def)
  let ?c = "c0\<lparr>rm_Sig := RCSign_Sign sg rnd (be_bytes 32 h) prk\<rparr>"
  have m: "RepMsg_Make sg rnd a mid tb vote rd prk = Some ?c"
    using h by (simp add: RepMsg_Make_def c0_def Let_def)
  have f: "rm_ID c0 = mid" "rm_Round c0 = rd" "rm_TBHash c0 = tb" "rm_Vote c0 = vote"
    by (simp_all add: c0_def)
  have "rm_ID b = mid \<and> rm_Round b = rd \<and> rm_TBHash b = tb \<and> rm_Vote b = vote
      \<or> (\<exists>x y. RepMsg_data b = Some x \<and> RepMsg_data ?c = Some y \<and> collision x y)" if "RepMsg_Hash b = Some h"
  proof -
    obtain x y where xy: "RepMsg_data b = Some x" "RepMsg_data c0 = Some y" using d e by blast
    have "Sum256 x = Sum256 y" using that h xy by (auto simp: RepMsg_Hash_def DoubleHash256_def)
    then consider "x = y" | "collision x y" using Sum256_eqD by blast
    then show ?thesis
    proof cases
      case 1
      then have "rm_ID b = mid" "rm_Round b = rd" "rm_NumTB b = rm_NumTB c0" "rm_NumVote b = rm_NumVote c0"
        and t: "concat (map (be_bytes 32) (rm_TBHash b)) @ concat (map NewRep_bytes (rm_Vote b))
          = concat (map (be_bytes 32) (rm_TBHash c0)) @ concat (map NewRep_bytes (rm_Vote c0))"
        using xy d e f by (auto simp: append_eq_append_conv)
      moreover from this have l: "length (rm_TBHash b) = length (rm_TBHash c0)" "length (rm_Vote b) = length (rm_Vote c0)"
        using n assms(4,5) by simp_all
      ultimately show ?thesis
        using t l f by (auto simp: append_eq_append_conv length_concat_hashes concat_hashes_inj dest: concat_votes_inj)
    next
      case 2
      then show ?thesis using xy by auto
    qed
  qed
  moreover have "RepMsg_wf ?c" using n assms(1) RCSign_Sign_wf by (simp add: RepMsg_wf_def)
  moreover have "RepMsg_Hash ?c = Some h" using h by (simp add: RepMsg_Hash_def)
  ultimately show ?thesis using m f assms(1) by (auto simp: RCSign_Verify_Sign)
qed

theorem RepMsg_Make_binding_witness:
  "\<exists>c. RepMsg_Make toy_sign 0 RepMsg_zero 1 [5] [] 2 sample_prk = Some c \<and> RepMsg_wf c"
proof -
  have l: "length [5 :: hash] < 2 ^ 32" "length ([] :: NewRep list) < 2 ^ 32" by simp_all
  have z: "length (rm_TBHash RepMsg_zero) = unat (rm_NumTB RepMsg_zero)"
    "length (rm_Vote RepMsg_zero) = unat (rm_NumVote RepMsg_zero)" by (simp_all add: RepMsg_zero_def)
  show ?thesis
    using RepMsg_Make_binding [OF toy_ecdsa l z, of 0 RepMsg_zero 1 2 sample_prk] by blast
qed

text \<open>The blocks of a reputation block are those the views list more than ten times
  altogether, each once. The count is of entries, not of members: a member whose view repeats
  a hash eleven times carries it alone.\<close>

theorem tb_majority_counts:
  assumes "length (votes_in data) < 2 ^ 32"
  shows "distinct (tb_majority data) \<and> set (tb_majority data) = {h. 10 < count_list (votes_in data) h}"
  using assms by (rule tb_majority_eq)

theorem tb_majority_counts_witness:
  "set (tb_majority [sample_view\<lparr>rm_TBHash := replicate 11 5\<rparr>]) = {5}"
proof -
  let ?d = "[sample_view\<lparr>rm_TBHash := replicate 11 5\<rparr>]"
  have l: "length (votes_in ?d) < 2 ^ 32" by (simp add: votes_in_def)
  have c: "count_list (votes_in ?d) h = (if h = 5 then 11 else 0)" for h
    by (simp add: votes_in_def numeral_eq_Suc)
  show ?thesis using tb_majority_counts [OF l] by (auto simp: c split: if_splits)
qed

text \<open>C18: Making a reputation block panics exactly when there is no view or there are more than
  twenty, or when a view is of a member that does not exist, has fewer than twenty votes or has
  a vote for a member that does not exist. The zero view that stands for a member not heard of
  has no votes: one silent member stops every node that makes the block.\<close>

theorem RepBlockMake_panics:
  "RepBlockMake F data input prev = None \<longleftrightarrow> data = [] \<or> 20 < length data \<or> (\<exists>d \<in> set data. \<not> view_ok d)"
  by (rule RepBlockMake_none)

end
