(* ===== verification/Cache.thy ===== *)
theory Cache
  imports CrossShard NewRep Shard
begin

text \<open>
  The state of a node (\<open>DbRef\<close> of \<open>rccache/cache.go\<close>): the chain database, the leader's lists
  and decision sets, the miner's caches and the tables of the reputation rounds, with the
  operations that create and clear it and the two caches of transactions. The groups of a round
  (\<open>TLGroup\<close>) are shared between \<open>Now\<close> and the index by pointer, and are kept in a store;
  everything else is held by value (the lock \<open>Mu\<close> is not modelled: every operation runs under it). Arrays whose size is a constant are lists of that length.
\<close>

section \<open>The state\<close>

text \<open>Constants of \<open>gVar/global_variable.go\<close>.\<close>

definition NumTxListPerEpoch :: nat where "NumTxListPerEpoch = 10"
definition NumTxBlockForRep :: nat where "NumTxBlockForRep = 4"
definition NumNewRep :: nat where "NumNewRep = 20"
definition NumOfTxForTest :: nat where "NumOfTxForTest = 100"

record TLGroup =
  tg_TLS :: "TxList list"
  tg_TDS :: "TxDecSet list"

definition TLGroup_zero :: TLGroup where
  "TLGroup_zero = \<lparr>tg_TLS = replicate (unat ShardCnt) TxList_zero, tg_TDS = replicate (unat ShardCnt) TxDecSet_zero\<rparr>"

record 'd DbRef =
  db_ID :: u32
  db_DB :: "'d TxBlockChain"
  db_prk :: PrivateKey
  db_HistoryShard :: "u32 list"
  db_BandCnt :: u32
  db_Badness :: bool
  db_TXCache :: "hash \<rightharpoonup> CrossShardDec"
  db_HashCache :: "shash \<rightharpoonup> hash list"
  db_ShardNum :: u32
  db_TLSCache :: "TxList option list"
  db_TDSCache :: "TxDecSet option list"
  db_TBBCache :: "TxBlock option list"
  db_groups :: "TLGroup list"
  db_TLIndex :: "hash \<rightharpoonup> nat"
  db_Now :: "nat option"
  db_Ready :: "Transaction list"
  db_TxB :: "TxBlock option"
  db_FB :: "TxBlock option list"
  db_TDSCnt :: "int list"
  db_TDSNotReady :: int
  db_TLNow :: "TxDecision option"
  db_TLRound :: u32
  db_PrevHeight :: u32
  db_TBCache :: "hash list option"
  db_RepCache :: "i64 list list"
  db_Leader :: u32
  db_TxCnt :: u32
  db_RepRound :: u32
  db_RepVote :: "NewRep list list"
  db_RepFirMsg :: "RepMsg list list"
  db_RepSecMsg :: "RepSecMsg list list"
  db_Rep :: "u64 list list"
  db_RepByz :: "bool list list"
  db_RepFirSig :: "bool list list"
  db_RepSecSig :: "bool list list"
  db_GossipPool :: "int list"
  db_TLCheck :: "bool list"
  db_TDSCheck :: "bool list"
  db_TBCheck :: "bool list"
  db_RepHash :: "hash list"

text \<open>\<open>TBCache\<close> is a pointer, nil until \<open>New\<close>. A node before \<open>New\<close>: all fields zero.\<close>

definition DbRef_zero :: "'d TxBlockChain \<Rightarrow> 'd DbRef" where
  "DbRef_zero db = \<lparr>db_ID = 0, db_DB = db, db_prk = \<lparr>sk_Puk = \<lparr>pk_X = None, pk_Y = None\<rparr>, sk_D = 0\<rparr>,
     db_HistoryShard = [], db_BandCnt = 0, db_Badness = False, db_TXCache = Map.empty, db_HashCache = Map.empty,
     db_ShardNum = 0, db_TLSCache = replicate NumTxListPerEpoch None,
     db_TDSCache = replicate NumTxListPerEpoch None, db_TBBCache = replicate NumTxListPerEpoch None,
     db_groups = [], db_TLIndex = Map.empty, db_Now = None, db_Ready = [], db_TxB = None,
     db_FB = replicate (unat ShardCnt) None, db_TDSCnt = [], db_TDSNotReady = 0, db_TLNow = None,
     db_TLRound = 0, db_PrevHeight = 0, db_TBCache = None,
     db_RepCache = replicate NumTxListPerEpoch (replicate (unat ShardSize) 0), db_Leader = 0, db_TxCnt = 0,
     db_RepRound = 0, db_RepVote = replicate NumNewRep (replicate (unat (ShardSize * ShardCnt)) NewRep_zero),
     db_RepFirMsg = replicate NumNewRep (replicate (unat ShardSize) RepMsg_zero),
     db_RepSecMsg = replicate NumNewRep (replicate (unat ShardSize) RepSecMsg_zero),
     db_Rep = replicate NumNewRep (replicate (unat (ShardSize * ShardCnt)) 0),
     db_RepByz = replicate NumNewRep (replicate (unat ShardSize) False),
     db_RepFirSig = replicate NumNewRep (replicate (unat ShardSize) False),
     db_RepSecSig = replicate NumNewRep (replicate (unat ShardSize) False),
     db_GossipPool = replicate (unat ShardSize) 0, db_TLCheck = replicate NumTxListPerEpoch False,
     db_TDSCheck = replicate NumTxListPerEpoch False, db_TBCheck = replicate NumTxListPerEpoch False,
     db_RepHash = replicate NumNewRep 0\<rparr>"

type_synonym 'd db_res = "(error option \<times> 'd DbRef) option"

text \<open>What an operation takes from outside: ECDSA with the randomness of its signatures, the
  readings of the clock in seconds, the first 64-bit output of the generator for a seed and the
  choice of \<open>rand.Intn\<close>.\<close>

record env =
  env_sign :: signer
  env_verify :: verifier
  env_rnd :: "nat \<Rightarrow> nat"
  env_unix :: "nat \<Rightarrow> i64"
  env_gen :: "i64 \<Rightarrow> u64"
  env_intn :: "nat \<Rightarrow> nat"

text \<open>\<open>shard.GlobalGroupMems[x].RealAccount\<close>\<close>

definition account_of :: "Group \<Rightarrow> nat \<Rightarrow> RcAcc option" where
  "account_of G x = map_option mem_RealAccount (idx (gr_Mems G) x)"

definition puk_of :: "Group \<Rightarrow> u32 \<Rightarrow> PublicKey option" where
  "puk_of G x = map_option rc_Puk (account_of G (unat x))"

section \<open>Test transactions (\<open>rccache/tool.go\<close>)\<close>

text \<open>The \<open>i\<close>-th transaction takes the \<open>i\<close>-th reading of the clock and the \<open>i\<close>-th randomness.\<close>

definition GenerateTx :: "env \<Rightarrow> Group \<Rightarrow> nat \<Rightarrow> nat \<Rightarrow> nat \<Rightarrow> u32 \<Rightarrow> i64 \<Rightarrow> u32 \<Rightarrow> Transaction option" where
  "GenerateTx E G i x y z seed k =
     (let tmp = Transaction_New Transaction_zero (ucast (env_unix E i)) (env_gen E seed) 0 k in
      case (account_of G y, account_of G x) of
        (Some ay, Some ax) \<Rightarrow>
          (let b = \<lparr>out_Value = z, out_Address = rc_AddrReal ay\<rparr>;
               a = (InType_Init InType_zero)\<lparr>in_PrevTx := rc_AddrReal ax, in_Index := z\<rparr>;
               t = AddIn (AddOut tmp b) a
           in case HashTx t of None \<Rightarrow> None
              | Some h \<Rightarrow> map_option snd (SignTx (env_sign E) (env_rnd E i) (t\<lparr>tx_Hash := h\<rparr>) 0 (rc_Pri ax)))
      | _ \<Rightarrow> None)"

definition fill_ready :: "env \<Rightarrow> Group \<Rightarrow> Transaction list \<Rightarrow> Transaction list option" where
  "fill_ready E G = ofold (\<lambda>i ready. map_option (\<lambda>t. ready @ [t]) (GenerateTx E G i 1 1 1 0 (of_nat i)))
     [0..<NumOfTxForTest * NumTxListPerEpoch * 10]"

section \<open>Creating and clearing a node\<close>

text \<open>\<open>d.RepVote[i][j] = newrep.NewRep{j, 0}\<close> for the members of one shard.\<close>

definition reset_votes :: "NewRep list list \<Rightarrow> NewRep list list" where
  "reset_votes = map (\<lambda>row. map (\<lambda>j. \<lparr>nr_ID = of_nat j, nr_Rep = 0\<rparr>) [0..<unat ShardSize] @ drop (unat ShardSize) row)"

definition reset_round :: "'d DbRef \<Rightarrow> 'd DbRef" where
  "reset_round d = d\<lparr>db_TLCheck := replicate NumTxListPerEpoch False, db_TDSCheck := replicate NumTxListPerEpoch False,
     db_TBCheck := replicate NumTxListPerEpoch False, db_TLSCache := replicate NumTxListPerEpoch None,
     db_TDSCache := replicate NumTxListPerEpoch None, db_TBBCache := replicate NumTxListPerEpoch None,
     db_RepVote := reset_votes (db_RepVote d)\<rparr>"

definition DbRef_Clear :: "env \<Rightarrow> Group \<Rightarrow> 'd DbRef \<Rightarrow> 'd DbRef option" where
  "DbRef_Clear E G d =
     (let d1 = reset_round (d\<lparr>db_Now := None, db_TLRound := db_TLRound d + 3, db_BandCnt := 0,
                 db_TXCache := Map.empty, db_HashCache := Map.empty, db_TLIndex := Map.empty, db_TxCnt := 0,
                 db_TDSCnt := replicate (unat ShardCnt) 0, db_TDSNotReady := int (unat ShardCnt),
                 db_Ready := [], db_RepRound := 0\<rparr>)
      in case fill_ready E G [] of None \<Rightarrow> None
         | Some ready \<Rightarrow> if db_TBCache d = None then None else Some (d1\<lparr>db_Ready := ready\<rparr>))"

definition DbRef_New :: "env \<Rightarrow> Group \<Rightarrow> 'd bolt \<Rightarrow> 'd DbRef \<Rightarrow> u32 \<Rightarrow> PrivateKey \<Rightarrow> 'd DbRef option" where
  "DbRef_New E G B d x prk =
     (case CreateNewBlockchain B (db_DB d) of None \<Rightarrow> None
      | Some (_, db) \<Rightarrow>
        (case (LatestTxBlock B db, those (map (LatestFinalTxBlock B db) shards), fill_ready E G (db_Ready d)) of
           (Some tb, Some fbs, Some ready) \<Rightarrow>
             Some ((reset_round (d\<lparr>db_ID := x, db_Badness := False, db_prk := prk, db_TxCnt := 0, db_BandCnt := 0,
                db_DB := db, db_TXCache := Map.empty, db_TxB := tb, db_FB := fbs,
                db_TDSCnt := replicate (unat ShardCnt) 0, db_TDSNotReady := int (unat ShardCnt),
                db_HistoryShard := [], db_TLIndex := Map.empty\<rparr>))
                \<lparr>db_Ready := ready, db_HashCache := Map.empty, db_TBCache := Some [], db_PrevHeight := 0\<rparr>)
         | _ \<Rightarrow> None))"

section \<open>The transaction caches\<close>

definition ClearCache :: "'d DbRef \<Rightarrow> hash \<Rightarrow> 'd db_res" where
  "ClearCache d HashID = Some (None, d\<lparr>db_HashCache := (db_HashCache d)(HashCut HashID := None),
     db_TXCache := (db_TXCache d)(HashID := None)\<rparr>)"

definition AddCache :: "'d DbRef \<Rightarrow> hash \<Rightarrow> 'd db_res" where
  "AddCache d HashID =
     (let tmp = HashCut HashID in
      case db_HashCache d tmp of
        None \<Rightarrow> Some (None, d\<lparr>db_HashCache := (db_HashCache d)(tmp \<mapsto> [HashID])\<rparr>)
      | Some xxx \<Rightarrow> (case idx xxx 0 of None \<Rightarrow> None
          | Some h0 \<Rightarrow> if h0 = HashID then Some (Some (Msg ''Existing''), d)
              else Some (None, d\<lparr>db_HashCache := (db_HashCache d)(tmp \<mapsto> xxx @ [HashID])\<rparr>)))"

end
