(* ===== verification/Leader.thy ===== *)
theory Leader
  imports Cache
begin

text \<open>
  What the leader of a shard does in a round (\<open>rccache/cache_leader.go\<close>): it collects
  transactions into lists, signs and indexes them, adds the decisions of the miners to the
  decision sets, and makes the transaction, final and start blocks.
\<close>

unbundle bit_operations_syntax

section \<open>The groups\<close>

text \<open>Reading and changing a group through a pointer.\<close>

definition group_at :: "'d DbRef \<Rightarrow> nat \<Rightarrow> TLGroup option" where
  "group_at d p = idx (db_groups d) p"

definition set_group :: "nat \<Rightarrow> TLGroup \<Rightarrow> 'd DbRef \<Rightarrow> 'd DbRef" where
  "set_group p g d = d\<lparr>db_groups := (db_groups d)[p := g]\<rparr>"

definition upd_TLS :: "(TxList \<Rightarrow> TxList option) \<Rightarrow> nat \<Rightarrow> TLGroup \<Rightarrow> TLGroup option" where
  "upd_TLS f i g = (case idx (tg_TLS g) i of None \<Rightarrow> None
     | Some l \<Rightarrow> map_option (\<lambda>l'. g\<lparr>tg_TLS := (tg_TLS g)[i := l']\<rparr>) (f l))"

definition upd_TDS :: "(TxDecSet \<Rightarrow> TxDecSet option) \<Rightarrow> nat \<Rightarrow> TLGroup \<Rightarrow> TLGroup option" where
  "upd_TDS f i g = (case idx (tg_TDS g) i of None \<Rightarrow> None
     | Some s \<Rightarrow> map_option (\<lambda>s'. g\<lparr>tg_TDS := (tg_TDS g)[i := s']\<rparr>) (f s))"

abbreviation all_shards :: "nat list" where
  "all_shards \<equiv> [0..<unat ShardCnt]"

section \<open>Transaction lists\<close>

text \<open>The old group is filed under the hash of its own list, and a new one starts with the
  transactions that are ready.\<close>

definition file_now :: "'d DbRef \<Rightarrow> 'd DbRef option" where
  "file_now d = (case db_Now d of None \<Rightarrow> Some d
     | Some p \<Rightarrow>
       (case group_at d p of None \<Rightarrow> None
        | Some g \<Rightarrow>
          (case idx (tg_TLS g) (unat (db_ShardNum d)) of None \<Rightarrow> None
           | Some l \<Rightarrow> map_option (\<lambda>h. d\<lparr>db_TLIndex := (db_TLIndex d)(h \<mapsto> p), db_TLRound := db_TLRound d + 1\<rparr>)
               (TxList_Hash l))))"

definition new_group :: "'d DbRef \<Rightarrow> TLGroup option" where
  "new_group d =
     (case ofold (\<lambda>t. upd_TLS (\<lambda>l. Some (TxList_AddTx l t)) (unat (db_ShardNum d))) (db_Ready d) TLGroup_zero of
        None \<Rightarrow> None
      | Some g \<Rightarrow> ofold (upd_TLS (\<lambda>l. Some (l\<lparr>tl_ID := db_ID d, tl_Round := db_TLRound d\<rparr>))) all_shards g)"

definition NewTxList :: "'d DbRef \<Rightarrow> 'd db_res" where
  "NewTxList d =
     (case file_now d of None \<Rightarrow> None
      | Some d1 \<Rightarrow> map_option (\<lambda>g. (None, d1\<lparr>db_BandCnt := 0, db_Now := Some (length (db_groups d1)),
                                        db_groups := db_groups d1 @ [g]\<rparr>))
          (new_group d1))"

definition MakeTXList :: "'d DbRef \<Rightarrow> Transaction \<Rightarrow> 'd db_res" where
  "MakeTXList d b =
     (case (if db_Now d = None then map_option snd (NewTxList d) else Some d) of None \<Rightarrow> None
      | Some d1 \<Rightarrow>
        (case db_Now d1 of None \<Rightarrow> None
         | Some p \<Rightarrow>
           (case group_at d1 p of None \<Rightarrow> None
            | Some g \<Rightarrow> map_option (\<lambda>g'. (None, set_group p g' d1))
                (ofold (upd_TLS (\<lambda>l. Some (TxList_AddTx l b))) all_shards g))))"

text \<open>The own list is signed; the lists for the other shards only get their hash. The own set
  starts without transactions, the others with those of their list.\<close>

definition sign_lists :: "env \<Rightarrow> 'd DbRef \<Rightarrow> TLGroup \<Rightarrow> TLGroup option" where
  "sign_lists E d g =
     (let me = unat (db_ShardNum d) in
      case upd_TLS (\<lambda>l. TxList_Sign (env_sign E) (env_rnd E 0) l (db_prk d)) me g of None \<Rightarrow> None
      | Some g1 \<Rightarrow> ofold (upd_TLS (\<lambda>l. map_option (\<lambda>h. l\<lparr>tl_HashID := h\<rparr>) (TxList_Hash l)))
          (filter (\<lambda>i. i \<noteq> me) all_shards) g1)"

definition build_sets :: "'d DbRef \<Rightarrow> TLGroup \<Rightarrow> TLGroup option" where
  "build_sets d = ofold (\<lambda>i g. case idx (tg_TLS g) i of None \<Rightarrow> None
     | Some l \<Rightarrow> upd_TDS (\<lambda>s. TxDecSet_Set s l (db_ShardNum d) (if i = unat (db_ShardNum d) then 1 else 0)) i g)
     all_shards"

definition BuildTDS :: "env \<Rightarrow> 'd DbRef \<Rightarrow> 'd DbRef option" where
  "BuildTDS E d =
     (case db_Now d of None \<Rightarrow> None
      | Some p \<Rightarrow>
        (case group_at d p of None \<Rightarrow> None
         | Some g \<Rightarrow>
           (case sign_lists E d g of None \<Rightarrow> None
            | Some g1 \<Rightarrow>
              (case idx (tg_TLS g1) (unat (db_ShardNum d)) of None \<Rightarrow> None
               | Some l \<Rightarrow> map_option (\<lambda>g2. set_group p g2 (d\<lparr>db_TxCnt := db_TxCnt d + tl_TxCnt l\<rparr>))
                   (build_sets d g1)))))"

text \<open>\<open>SignTDS\<close> signs the sets of the group its argument points to.\<close>

definition SignTDS :: "env \<Rightarrow> 'd DbRef \<Rightarrow> nat \<Rightarrow> 'd DbRef option" where
  "SignTDS E d p =
     (case group_at d p of None \<Rightarrow> None
      | Some g \<Rightarrow> map_option (\<lambda>g'. set_group p g' d)
          (ofold (\<lambda>i. upd_TDS (\<lambda>s. TxDecSet_Sign (env_sign E) (env_rnd E i) s (db_prk d)) i) all_shards g))"

definition Release :: "'d DbRef \<Rightarrow> nat \<Rightarrow> 'd DbRef option" where
  "Release d p =
     (case group_at d p of None \<Rightarrow> None
      | Some g \<Rightarrow> map_option (\<lambda>l. d\<lparr>db_TLIndex := (db_TLIndex d)(tl_HashID l := None)\<rparr>)
          (idx (tg_TLS g) (unat (db_ShardNum d))))"

section \<open>Decisions\<close>

text \<open>The decision of a miner is taken apart into one for every shard, each with the votes of all
  transactions, the hash of the list of the shard and the signature for it.\<close>

definition split_start :: "TxDecision \<Rightarrow> TLGroup \<Rightarrow> nat \<Rightarrow> TxDecision option" where
  "split_start a g i =
     (case (idx (tg_TLS g) i, idx (td_Sig a) i) of
        (Some l, Some s) \<Rightarrow> Some ((TxDecision_Set TxDecision_zero (td_ID a) (of_nat i) 1)\<lparr>td_HashID := tl_HashID l, td_Sig := [s]\<rparr>)
      | _ \<Rightarrow> None)"

text \<open>The vote for the \<open>k\<close>-th transaction: bit \<open>k mod 8\<close> of byte \<open>k div 8\<close>.\<close>

definition vote_at :: "TxDecision \<Rightarrow> nat \<Rightarrow> byte option" where
  "vote_at a k = map_option (\<lambda>w. drop_bit (k mod 8) w AND 1) (idx (td_Decision a) (k div 8))"

definition add_votes :: "TxDecision \<Rightarrow> nat \<Rightarrow> TxDecision list \<Rightarrow> TxDecision list option" where
  "add_votes a k tds = (case vote_at a k of None \<Rightarrow> None
     | Some v \<Rightarrow> those (map (\<lambda>t. TxDecision_Add t v) tds))"

text \<open>The first shard whose part does not verify is named in the error.\<close>

fun first_bad :: "verifier \<Rightarrow> PublicKey \<Rightarrow> nat \<Rightarrow> TxDecision list \<Rightarrow> nat option option" where
  "first_bad vf puk i [] = Some None"
| "first_bad vf puk i (t # ts) =
     (case TxDecision_Verify vf t puk 0 of None \<Rightarrow> None
      | Some True \<Rightarrow> first_bad vf puk (Suc i) ts
      | Some False \<Rightarrow> Some (Some i))"

definition add_sets :: "TxDecision list \<Rightarrow> TLGroup \<Rightarrow> TLGroup option" where
  "add_sets tds g = ofold (\<lambda>i g. case idx tds i of None \<Rightarrow> None | Some t \<Rightarrow> upd_TDS (\<lambda>s. Some (TxDecSet_Add s t)) i g)
     all_shards g"

text \<open>The result: the error, the new state and \<open>*index\<close>.\<close>

definition UpdateTXCache :: "env \<Rightarrow> Group \<Rightarrow> 'd DbRef \<Rightarrow> TxDecision \<Rightarrow> u32 \<Rightarrow> (error option \<times> 'd DbRef \<times> u32) option" where
  "UpdateTXCache E G d a index =
     (if td_Single a = 1 then Some (Some (Msg ''TxDecision parameter error''), d, index)
      else case db_TLIndex d (td_HashID a) of
        None \<Rightarrow> Some (Some (Msg ''TxDecision Hash error, wrong or time out''), d, index)
      | Some p \<Rightarrow>
        (case group_at d p of None \<Rightarrow> None
         | Some g \<Rightarrow>
           (case idx (tg_TLS g) (unat (db_ShardNum d)) of None \<Rightarrow> None
            | Some l \<Rightarrow>
              (let index' = tl_Round l - db_PrevHeight d in
               case those (map (split_start a g) all_shards) of None \<Rightarrow> None
               | Some tds0 \<Rightarrow>
                 (case ofold (add_votes a) [0..<unat (tl_TxCnt l)] tds0 of None \<Rightarrow> None
                  | Some tds \<Rightarrow>
                    (case puk_of G (td_ID a) of None \<Rightarrow> None
                     | Some puk \<Rightarrow>
                       (case first_bad (env_verify E) puk 0 tds of None \<Rightarrow> None
                        | Some (Some i) \<Rightarrow> Some (Some (WrapAt ''Signature not match'' i (Msg '''')), d, index')
                        | Some None \<Rightarrow>
                            map_option (\<lambda>g'. (None, set_group p g' d, index')) (add_sets tds g))))))))"

text \<open>\<open>ProcessTDS\<close> only prints the reputations of the shard.\<close>

definition ProcessTDS :: "Group \<Rightarrow> 'd DbRef \<Rightarrow> TxDecSet \<Rightarrow> 'd DbRef option" where
  "ProcessTDS G d b =
     (if tds_ShardIndex b = db_ShardNum d then map_option (\<lambda>_. d) (ReturnRepData G 0) else Some d)"

section \<open>Blocks\<close>

text \<open>\<open>*(d.TBCache) = append(*(d.TBCache), h)\<close>\<close>

definition push_TB :: "hash \<Rightarrow> 'd DbRef \<Rightarrow> 'd DbRef option" where
  "push_TB h d = map_option (\<lambda>hs. d\<lparr>db_TBCache := Some (hs @ [h])\<rparr>) (db_TBCache d)"

definition make_block :: "env \<Rightarrow> 'd DbRef \<Rightarrow> u32 \<Rightarrow> u32 \<Rightarrow> TxBlock option" where
  "make_block E d h kind = MakeTxBlock (env_sign E) (env_rnd E 0) (env_unix E 0) TxBlock_zero (db_ID d) (db_Ready d)
     (tc_LastTB (db_DB d)) (db_prk d) (h + 1) kind None 0"

text \<open>The error of \<open>AddBlock\<close> is dropped. With \<open>good\<close> above one the kind of the current block is
  set in place; blocks are values here, so that a final block that is also the current one keeps
  its kind in \<open>FB\<close>, where only its hash and height are read.\<close>

definition GenerateTxBlock :: "env \<Rightarrow> 'd bolt \<Rightarrow> 'd DbRef \<Rightarrow> int \<Rightarrow> 'd db_res" where
  "GenerateTxBlock E B d good =
     (case db_TxB d of None \<Rightarrow> None
      | Some tb \<Rightarrow>
        if good > 0
        then (case (if good = 1 then make_block E d (tb_Height tb) 0 else Some tb) of None \<Rightarrow> None
          | Some b \<Rightarrow>
            let b = b\<lparr>tb_Kind := 0\<rparr> in
            (case push_TB (tb_HashID b) (d\<lparr>db_TxB := Some b\<rparr>) of None \<Rightarrow> None
             | Some d1 \<Rightarrow> map_option (\<lambda>r. (None, d1\<lparr>db_DB := snd r\<rparr>)) (AddBlock B (db_DB d1) b)))
        else map_option (\<lambda>b. (None, d\<lparr>db_TxB := Some b\<rparr>)) (make_block E d (tb_Height tb) 3))"

text \<open>\<open>ks\<close> is the order in which the account map is walked, \<open>src\<close> the time and the random
  number of every final transaction. The block is serialised and decoded once, which has no
  effect.\<close>

definition GenerateFinalBlock ::
  "env \<Rightarrow> 'd bolt \<Rightarrow> (hash \<Rightarrow> u64 \<times> u64) \<Rightarrow> hash list \<Rightarrow> 'd DbRef \<Rightarrow> 'd db_res" where
  "GenerateFinalBlock E B src ks d =
     (let me = unat (db_ShardNum d) in
      case (MakeFinalTx src ks (db_DB d) (db_ShardNum d), db_TxB d, idx (db_FB d) me, idx (tc_LastFB (db_DB d)) me) of
        (Some (txs, db), Some tb, Some (Some fb), Some lastFB) \<Rightarrow>
          (case MakeTxBlock (env_sign E) (env_rnd E 0) (env_unix E 0) TxBlock_zero (db_ID d) txs lastFB (db_prk d)
                  (tb_Height tb + 1) 1 (Some (tb_HashID fb)) (db_ShardNum d) of None \<Rightarrow> None
           | Some b \<Rightarrow>
             (case AddFinalBlock B db b of None \<Rightarrow> None
              | Some (_, db') \<Rightarrow>
                (case TxBlock_Serial b of None \<Rightarrow> None
                 | Some e \<Rightarrow> if TxBlock_Decode 1 TxBlock_zero e = DPanic then None
                     else Some (None, d\<lparr>db_TxB := Some b, db_FB := (db_FB d)[me := Some b], db_DB := db'\<rparr>))))
      | _ \<Rightarrow> None)"

definition GenerateStartBlock :: "env \<Rightarrow> 'd bolt \<Rightarrow> 'd DbRef \<Rightarrow> 'd db_res" where
  "GenerateStartBlock E B d =
     (let me = unat (db_ShardNum d) in
      case (idx (db_FB d) me, those (take (unat ShardCnt) (db_FB d)), idx (tc_LastFB (db_DB d)) me) of
        (Some (Some fb), Some fbs, Some lastFB) \<Rightarrow>
          (let b = MakeStartBlock (env_sign E) (env_rnd E 0) (env_unix E 0) TxBlock_zero (db_ID d)
                     (map tb_HashID fbs) lastFB (db_prk d) (tb_Height fb + 1)
           in map_option (\<lambda>r. (None, d\<lparr>db_TxB := Some b, db_DB := snd r\<rparr>)) (AddStartBlock B (db_DB d) b))
      | _ \<Rightarrow> None)"

end
