(* ===== verification/Miner.thy ===== *)
theory Miner
  imports Leader
begin

text \<open>
  What every member of a shard does with what it receives: the checks before a message is used
  (\<open>rccache/getPacket.go\<close>), and the handlers of lists, decision sets and blocks
  (\<open>rccache/cache_miner.go\<close>).
\<close>

section \<open>Verifying and locking transactions\<close>

text \<open>\<open>CheckUTXO\<close> may open the file and fill the cache, so that the state is passed on.\<close>

fun check_ins :: "env \<Rightarrow> 'd bolt \<Rightarrow> hash \<Rightarrow> InType list \<Rightarrow> 'd DbRef \<Rightarrow> (bool \<times> 'd DbRef) option" where
  "check_ins E B h [] d = Some (True, d)"
| "check_ins E B h (x # xs) d =
     (if InType_ShardIndex x = db_ShardNum d
      then (case CheckUTXO (env_verify E) B (db_DB d) x h of None \<Rightarrow> None
            | Some (False, db) \<Rightarrow> Some (False, d\<lparr>db_DB := db\<rparr>)
            | Some (True, db) \<Rightarrow> check_ins E B h xs (d\<lparr>db_DB := db\<rparr>))
      else check_ins E B h xs d)"

text \<open>A count above the length of the slice panics when the loop gets there.\<close>

definition DbRef_VerifyTx :: "env \<Rightarrow> 'd bolt \<Rightarrow> 'd DbRef \<Rightarrow> Transaction \<Rightarrow> (bool \<times> 'd DbRef) option" where
  "DbRef_VerifyTx E B d a =
     (let n = unat (tx_TxinCnt a) in
      case check_ins E B (tx_Hash a) (take n (tx_In a)) d of None \<Rightarrow> None
      | Some (ok, d') \<Rightarrow> if ok \<and> length (tx_In a) < n then None else Some (ok, d'))"

text \<open>\<open>log.Panic\<close> on an error.\<close>

definition lock_in :: "InType \<Rightarrow> 'd DbRef \<Rightarrow> 'd DbRef option" where
  "lock_in x d = (if InType_ShardIndex x = db_ShardNum d
     then (case LockUTXO (db_DB d) x of Some (None, db) \<Rightarrow> Some (d\<lparr>db_DB := db\<rparr>) | _ \<Rightarrow> None)
     else Some d)"

definition unlock_in :: "'d bolt \<Rightarrow> InType \<Rightarrow> 'd DbRef \<Rightarrow> 'd DbRef option" where
  "unlock_in B x d = (if InType_ShardIndex x = db_ShardNum d
     then (case UnlockUTXO B (db_DB d) x of Some (None, db) \<Rightarrow> Some (d\<lparr>db_DB := db\<rparr>) | _ \<Rightarrow> None)
     else Some d)"

definition mark_tx :: "hash \<Rightarrow> int option \<Rightarrow> 'd DbRef \<Rightarrow> 'd DbRef" where
  "mark_tx h v d = d\<lparr>db_DB := (db_DB d)\<lparr>tc_TXCache := (tc_TXCache (db_DB d))(h := v)\<rparr>\<rparr>"

definition LockTx :: "'d DbRef \<Rightarrow> Transaction \<Rightarrow> 'd DbRef option" where
  "LockTx d a = for_each lock_in (unat (tx_TxinCnt a)) (tx_In a) (mark_tx (tx_Hash a) (Some 1) d)"

definition UnlockTx :: "'d bolt \<Rightarrow> 'd DbRef \<Rightarrow> Transaction \<Rightarrow> 'd DbRef option" where
  "UnlockTx B d a = for_each (unlock_in B) (unat (tx_TxinCnt a)) (tx_In a) (mark_tx (tx_Hash a) None d)"

definition GetTx :: "'d DbRef \<Rightarrow> Transaction \<Rightarrow> 'd db_res" where
  "GetTx d a = Some (None, d)"

section \<open>The checks before use\<close>

text \<open>\<open>PreStat\<close>: the progress of a message through the checks. A nil argument is replaced by a
  fresh one, which the caller does not see.\<close>

record PreStat =
  ps_Stat :: int
  ps_Valid :: "int list"

definition is_leader :: "Group \<Rightarrow> u32 \<Rightarrow> bool option" where
  "is_leader G x = map_option (\<lambda>m. mem_Role m = 0) (idx (gr_Mems G) (unat x))"

text \<open>The result is the error and the progress. \<open>stat\<close> is that of the argument, or -2 for nil.\<close>

definition stat_of :: "PreStat option \<Rightarrow> int" where
  "stat_of s = (case s of None \<Rightarrow> - 2 | Some p \<Rightarrow> ps_Stat p)"

definition set_stat :: "PreStat option \<Rightarrow> int \<Rightarrow> PreStat option" where
  "set_stat s v = map_option (\<lambda>p. p\<lparr>ps_Stat := v\<rparr>) s"

definition PreTxList :: "env \<Rightarrow> Group \<Rightarrow> 'd DbRef \<Rightarrow> TxList \<Rightarrow> PreStat option \<Rightarrow> (error option \<times> PreStat option) option" where
  "PreTxList E G d b s =
     (if stat_of s = - 2 \<and> db_Leader d \<noteq> tl_ID b then Some (Some (Msg ''PreTxList: Txlist from a miner''), s)
      else if stat_of s = - 2 \<and> unat (tl_TxCnt b) \<noteq> length (tl_TxArray b)
      then Some (Some (Msg ''PreTxList: Number of Tx wrong''), s)
      else case puk_of G (tl_ID b) of None \<Rightarrow> None
      | Some puk \<Rightarrow>
        map_option (\<lambda>ok. (if ok then None else Some (Msg ''PreTxList: Signature not match''), set_stat s 0))
          (TxList_Verify (env_verify E) b puk))"

text \<open>A cross-shard decision gets the hash of its set, which is not sent.\<close>

definition PreTxDecision :: "env \<Rightarrow> Group \<Rightarrow> 'd DbRef \<Rightarrow> TxDecision \<Rightarrow> hash \<Rightarrow> (error option \<times> TxDecision) option" where
  "PreTxDecision E G d b h =
     (let err = (\<lambda>b m. Some (Some (Msg m), b));
          check = (\<lambda>b x. (case puk_of G (td_ID b) of None \<Rightarrow> None
             | Some puk \<Rightarrow> (case TxDecision_Verify (env_verify E) b puk x of None \<Rightarrow> None
                 | Some True \<Rightarrow> Some (None, b) | Some False \<Rightarrow> err b ''PreTxDecision: Signature not match''))) in
      if unat (td_TxCnt b) > length (td_Decision b) * 8 then err b ''PreTxDecision: Decision lengh not enough''
      else if td_Single b = 0
      then (if td_Target b \<noteq> db_ShardNum d then err b ''PreTxDecision: TxDecision should be the intra-one''
            else case idx (gr_Mems G) (unat (td_ID b)) of None \<Rightarrow> None
            | Some m \<Rightarrow>
                if mem_Shard m \<noteq> int (unat (db_ShardNum d)) then err b ''PreTxDecision: Not the same shard''
                else if length (td_Sig b) \<noteq> unat ShardCnt then err b ''PreTxDecision: Signature not enough''
                else check b (db_ShardNum d))
      else let b = b\<lparr>td_HashID := h\<rparr> in
        (if td_Target b \<noteq> db_ShardNum d then err b ''PreTxDecision: Not the target shard''
         else if length (td_Sig b) \<noteq> 1 then err b ''PreTxDecision: Signature not enough''
         else check b 0))"

text \<open>The decisions of the set are checked in place, up to the first that fails.\<close>

fun pre_decisions :: "env \<Rightarrow> Group \<Rightarrow> 'd DbRef \<Rightarrow> hash \<Rightarrow> TxDecision list \<Rightarrow> (error option \<times> TxDecision list) option" where
  "pre_decisions E G d h [] = Some (None, [])"
| "pre_decisions E G d h (x # xs) =
     (case PreTxDecision E G d x h of None \<Rightarrow> None
      | Some (Some e, x') \<Rightarrow> Some (Some e, x' # xs)
      | Some (None, x') \<Rightarrow> map_option (\<lambda>r. (fst r, x' # snd r)) (pre_decisions E G d h xs))"

definition PreTxDecSet ::
  "env \<Rightarrow> Group \<Rightarrow> 'd DbRef \<Rightarrow> TxDecSet \<Rightarrow> PreStat option \<Rightarrow> (error option \<times> TxDecSet \<times> PreStat option) option" where
  "PreTxDecSet E G d b s =
     (let first = (if stat_of s = - 2
         then (case is_leader G (tds_ID b) of None \<Rightarrow> None
            | Some False \<Rightarrow> Some (Some (Msg ''PreTxDecSet: Not a Leader''))
            | Some True \<Rightarrow>
                if unat (tds_TxCnt b) \<noteq> length (tds_TxArray b) \<or> unat (tds_MemCnt b) \<noteq> length (tds_MemD b)
                then Some (Some (Msg ''PreTxDecSet: TxDecSet parameter not match'')) else Some None)
         else Some None)
      in case first of None \<Rightarrow> None
         | Some (Some e) \<Rightarrow> Some (Some e, b, s)
         | Some None \<Rightarrow>
           (let n = unat (tds_MemCnt b) in
            case pre_decisions E G d (tds_HashID b) (take n (tds_MemD b)) of None \<Rightarrow> None
            | Some (e, ds) \<Rightarrow>
              (let b' = b\<lparr>tds_MemD := ds @ drop n (tds_MemD b)\<rparr> in
               case e of Some _ \<Rightarrow> Some (e, b', set_stat s 0)
               | None \<Rightarrow>
                 if length (tds_MemD b) < n then None
                 else case puk_of G (tds_ID b) of None \<Rightarrow> None
                 | Some puk \<Rightarrow> map_option (\<lambda>ok. (if ok then None else Some (Msg ''PreTxDecSet: Signature not match''), b', set_stat s 0))
                     (TxDecSet_Verify (env_verify E) b' puk))))"

definition PreTxBlock :: "env \<Rightarrow> Group \<Rightarrow> 'd DbRef \<Rightarrow> TxBlock \<Rightarrow> PreStat option \<Rightarrow> (error option \<times> PreStat option) option" where
  "PreTxBlock E G d b s =
     (let first = (if stat_of s = - 2
         then (case is_leader G (tb_ID b) of None \<Rightarrow> None
            | Some False \<Rightarrow> Some (Some (Msg ''PreTxBlock: Not a Leader''))
            | Some True \<Rightarrow> if unat (tb_TxCnt b) \<noteq> length (tb_TxArray b)
                then Some (Some (Msg ''PreTxBlock: TxBlock parameter not match'')) else Some None)
         else Some None)
      in case first of None \<Rightarrow> None
         | Some (Some e) \<Rightarrow> Some (Some e, s)
         | Some None \<Rightarrow>
           (case puk_of G (tb_ID b) of None \<Rightarrow> None
            | Some puk \<Rightarrow> map_option (\<lambda>(ok, e). (if ok then None else e, set_stat s 0))
                (TxBlock_Verify (env_verify E) b puk)))"

section \<open>Handlers\<close>

text \<open>\<open>d.RepVote[d.RepRound][x].Rep++\<close>\<close>

definition vote_for :: "u32 \<Rightarrow> 'd DbRef \<Rightarrow> 'd DbRef option" where
  "vote_for x d =
     (case idx (db_RepVote d) (unat (db_RepRound d)) of None \<Rightarrow> None
      | Some row \<Rightarrow>
        (case idx row (unat x) of None \<Rightarrow> None
         | Some v \<Rightarrow> Some (d\<lparr>db_RepVote := (db_RepVote d)[unat (db_RepRound d) := row[unat x := v\<lparr>nr_Rep := nr_Rep v + 1\<rparr>]]\<rparr>)))"

text \<open>The votes for a list: one for every transaction, in the decision for the own shard and in
  the one that is signed for shard 0.\<close>

definition vote_tx :: "hash \<Rightarrow> bytes \<times> TxDecision \<times> TxDecision \<Rightarrow> (bytes \<times> TxDecision \<times> TxDecision) option" where
  "vote_tx h s = (case s of (m, dec, now) \<Rightarrow>
     (case (TxDecision_Add dec 1, TxDecision_Add now 1) of
        (Some dec', Some now') \<Rightarrow> Some (m @ be_bytes 32 h, dec', now') | _ \<Rightarrow> None))"

text \<open>The part for the \<open>i\<close>-th shard is signed, and its signature copied to the decision. Only
  shard 0 gets transactions.\<close>

definition sign_part :: "env \<Rightarrow> 'd DbRef \<Rightarrow> TxList \<Rightarrow> bytes \<Rightarrow> TxDecision \<Rightarrow> nat \<Rightarrow> TxDecision \<Rightarrow> TxDecision option" where
  "sign_part E d a m0 dec0 i now =
     (let dec = (if i = 0 then dec0 else TxDecision_Set TxDecision_zero (db_ID d) (of_nat i) 1);
          m = (if i = 0 then m0 else byteSlice (tl_Round a)) in
      case TxDecision_Sign (env_sign E) (env_rnd E i) (dec\<lparr>td_HashID := Sum256 m\<rparr>) (db_prk d) 0 of None \<Rightarrow> None
      | Some dec' \<Rightarrow>
        (case idx (td_Sig dec') 0 of None \<Rightarrow> None
         | Some s \<Rightarrow>
           (case RCSign_New s of None \<Rightarrow> None
            | Some s' \<Rightarrow> map_option (\<lambda>ss. now\<lparr>td_Sig := ss\<rparr>) (put_idx (td_Sig now) i s'))))"

text \<open>The batches it returns are empty, one for every shard.\<close>

definition ProcessTL :: "env \<Rightarrow> 'd DbRef \<Rightarrow> TxList \<Rightarrow> ('d DbRef \<times> TransactionBatch list) option" where
  "ProcessTL E d a =
     (case vote_for (tl_Sender a) d of None \<Rightarrow> None
      | Some d1 \<Rightarrow>
        (let now = (TxDecision_Set TxDecision_zero (db_ID d) (db_ShardNum d) 0)\<lparr>td_HashID := tl_HashID a, td_Single := 0\<rparr>;
             dec = TxDecision_Set TxDecision_zero (db_ID d) 0 1 in
         case put_idx (db_TLSCache d) (unat (tl_Round a)) (Some a) of None \<Rightarrow> None
         | Some c \<Rightarrow>
           (case for_each vote_tx (unat (tl_TxCnt a)) (tl_TxArray a) (byteSlice (tl_Round a), dec, now) of None \<Rightarrow> None
            | Some (m, dec', now') \<Rightarrow>
              map_option (\<lambda>now''. (d1\<lparr>db_TLNow := Some now'', db_TxCnt := db_TxCnt d + tl_TxCnt a,
                    db_TLSCache := c, db_TLRound := db_TLRound d + 1\<rparr>,
                  replicate (unat ShardCnt) TransactionBatch_zero))
                (ofold (sign_part E d a m dec') all_shards now'))))"

definition GetTDS :: "'d DbRef \<Rightarrow> TxDecSet \<Rightarrow> 'd db_res" where
  "GetTDS d b =
     (case vote_for (tds_Sender b) d of None \<Rightarrow> None
      | Some d1 \<Rightarrow> map_option (\<lambda>c. (None, d1\<lparr>db_TDSCache := c\<rparr>))
          (put_idx (db_TDSCache d) (unat (tds_Round b)) (Some b)))"

text \<open>\<open>d.TBBCache[a.Height-1]\<close> in \<open>uint32\<close> arithmetic.\<close>

definition GetTxBlock :: "'d DbRef \<Rightarrow> TxBlock \<Rightarrow> 'd db_res" where
  "GetTxBlock d a =
     (case vote_for (tb_Sender a) d of None \<Rightarrow> None
      | Some d1 \<Rightarrow> map_option (\<lambda>c. (None, d1\<lparr>db_TBBCache := c\<rparr>))
          (put_idx (db_TBBCache d) (unat (tb_Height a - 1)) (Some a)))"

definition GetFinalTxBlock :: "'d bolt \<Rightarrow> 'd DbRef \<Rightarrow> TxBlock \<Rightarrow> 'd db_res" where
  "GetFinalTxBlock B d a =
     (case db_TxB d of None \<Rightarrow> None
      | Some tb \<Rightarrow>
        if tb_Height a \<noteq> tb_Height tb + 1 then Some (Some (Msg ''Height not match''), d)
        else if tb_Kind a \<noteq> 1 then Some (Some (Msg ''Not valid txblock type''), d)
        else case put_idx (db_FB d) (unat (tb_ShardID a)) (Some a) of None \<Rightarrow> None
        | Some fb \<Rightarrow> map_option (\<lambda>r. (None, d\<lparr>db_FB := fb, db_TxB := Some a, db_DB := snd r\<rparr>))
            (AddFinalBlock B (db_DB d) a))"

text \<open>The hashes of the start block against the final blocks, up to the first difference.\<close>

fun bad_final :: "hash list \<Rightarrow> TxBlock option list \<Rightarrow> nat \<Rightarrow> nat \<Rightarrow> nat option option" where
  "bad_final hs fbs i 0 = Some None"
| "bad_final hs fbs i (Suc n) =
     (case (idx hs i, idx fbs i) of
        (Some h, Some (Some fb)) \<Rightarrow> if h \<noteq> tb_HashID fb then Some (Some i) else bad_final hs fbs (Suc i) n
      | _ \<Rightarrow> None)"

definition GetStartTxBlock :: "env \<Rightarrow> Group \<Rightarrow> 'd bolt \<Rightarrow> 'd DbRef \<Rightarrow> TxBlock \<Rightarrow> 'd db_res" where
  "GetStartTxBlock E G B d a =
     (case db_TxB d of None \<Rightarrow> None
      | Some tb \<Rightarrow>
        if tb_Height a \<noteq> tb_Height tb + 1 then Some (Some (Msg ''Height not match''), d)
        else if tb_Kind a \<noteq> 2 then Some (Some (Msg ''Not valid txblock type''), d)
        else case puk_of G (db_Leader d) of None \<Rightarrow> None
        | Some puk \<Rightarrow>
          (case TxBlock_Verify (env_verify E) a puk of None \<Rightarrow> None
           | Some (False, _) \<Rightarrow> Some (Some (Msg ''Signature not valid''), d)
           | Some (True, _) \<Rightarrow>
             (case bad_final (tb_TxHash a) (db_FB d) 0 (unat ShardCnt) of None \<Rightarrow> None
              | Some (Some i) \<Rightarrow> Some (Some (WrapAt ''final block hash not valid'' i (Msg '''')), d)
              | Some None \<Rightarrow>
                (case AddStartBlock B (db_DB d) a of None \<Rightarrow> None
                 | Some (_, db) \<Rightarrow>
                   map_option (\<lambda>r. (None, d\<lparr>db_TxB := Some a, db_DB := snd r\<rparr>)) (UploadAcc B db (db_ShardNum d))))))"

end
