(* ===== verification/Gossip.thy ===== *)
theory Gossip
  imports Miner
begin

text \<open>
  The reputation rounds of a node (\<open>rccache/cache_rep.go\<close>, \<open>rccache/gossip.go\<close>): it makes its
  own view, spreads the views it knows by gossip, merges those it receives and marks members
  that signed two different ones, does the same for the lists of views, and makes the block.
\<close>

section \<open>Tables\<close>

text \<open>\<open>t[r][i]\<close> and \<open>t[r][i] = v\<close> with Go's bounds checks.\<close>

definition cell :: "'a list list \<Rightarrow> nat \<Rightarrow> nat \<Rightarrow> 'a option" where
  "cell t r i = (case idx t r of None \<Rightarrow> None | Some row \<Rightarrow> idx row i)"

definition set_cell :: "'a list list \<Rightarrow> nat \<Rightarrow> nat \<Rightarrow> 'a \<Rightarrow> 'a list list option" where
  "set_cell t r i v = (case idx t r of None \<Rightarrow> None
     | Some row \<Rightarrow> map_option (\<lambda>row'. t[r := row']) (put_idx row i v))"

abbreviation members :: "nat list" where
  "members \<equiv> [0..<unat ShardSize]"

section \<open>Own messages\<close>

text \<open>The votes of the last twenty rounds before \<open>round\<close>, added up for every member.\<close>

definition window_start :: "u32 \<Rightarrow> nat" where
  "window_start round = (if unat round > SlidingWindows then unat round - SlidingWindows else 0)"

definition sum_votes :: "NewRep list list \<Rightarrow> u32 \<Rightarrow> nat \<Rightarrow> NewRep option" where
  "sum_votes votes round i = ofold (\<lambda>j v. map_option (\<lambda>w. v\<lparr>nr_Rep := nr_Rep v + nr_Rep w\<rparr>) (cell votes j i))
     [window_start round..<unat round] \<lparr>nr_ID = of_nat i, nr_Rep = 0\<rparr>"

definition MakeRepMsg :: "env \<Rightarrow> 'd DbRef \<Rightarrow> u32 \<Rightarrow> (RepMsg \<times> 'd DbRef) option" where
  "MakeRepMsg E d round =
     (case (those (map (sum_votes (db_RepVote d) round) members), db_TBCache d) of
        (Some vote, Some tb) \<Rightarrow>
          (case RepMsg_Make (env_sign E) (env_rnd E 0) RepMsg_zero (db_ID d) tb vote round (db_prk d) of None \<Rightarrow> None
           | Some m \<Rightarrow>
             (case (set_cell (db_RepFirMsg d) (unat round) (unat (db_ID d)) m,
                    set_cell (db_RepFirSig d) (unat round) (unat (db_ID d)) True) of
                (Some msgs, Some sigs) \<Rightarrow> Some (m, d\<lparr>db_RepFirMsg := msgs, db_RepFirSig := sigs\<rparr>)
              | _ \<Rightarrow> None))
      | _ \<Rightarrow> None)"

text \<open>\<open>if d.RepFirSig[round][d.ID] == false { d.MakeRepMsg(round) }\<close>\<close>

definition with_own :: "env \<Rightarrow> u32 \<Rightarrow> 'd DbRef \<Rightarrow> 'd DbRef option" where
  "with_own E round d = (case cell (db_RepFirSig d) (unat round) (unat (db_ID d)) of None \<Rightarrow> None
     | Some own \<Rightarrow> if own then Some d else map_option snd (MakeRepMsg E d round))"

definition MakeRepSecMsg :: "env \<Rightarrow> 'd DbRef \<Rightarrow> u32 \<Rightarrow> GossipFirMsg \<Rightarrow> (RepSecMsg \<times> 'd DbRef) option" where
  "MakeRepSecMsg E d round g =
     (case RepSecMsg_Make (env_sign E) (env_rnd E 0) RepSecMsg_zero (db_ID d) g round (db_prk d) of None \<Rightarrow> None
      | Some m \<Rightarrow>
        (case (set_cell (db_RepSecMsg d) (unat round) (unat (db_ID d)) m,
               set_cell (db_RepSecSig d) (unat round) (unat (db_ID d)) True) of
           (Some msgs, Some sigs) \<Rightarrow> Some (m, d\<lparr>db_RepSecMsg := msgs, db_RepSecSig := sigs\<rparr>)
         | _ \<Rightarrow> None))"

section \<open>Choosing a member to talk to (\<open>rccache/gossip.go\<close>)\<close>

text \<open>A member that was contacted least often, at random. The own entry is set out of reach.
  Without candidates \<open>rand.Intn(0)\<close> panics.\<close>

definition least_of :: "int list \<Rightarrow> u32 list \<Rightarrow> int option" where
  "least_of pool ms =
     (case ms of [] \<Rightarrow> None
      | m0 # _ \<Rightarrow> (case idx pool (unat m0) of None \<Rightarrow> None
          | Some l0 \<Rightarrow> ofold (\<lambda>m l. map_option (\<lambda>v. if v < l then v else l) (idx pool (unat m))) ms l0))"

definition GetGossipID :: "env \<Rightarrow> 'd DbRef \<Rightarrow> int \<Rightarrow> u32 list \<Rightarrow> (u32 \<times> 'd DbRef) option" where
  "GetGossipID E d kind tmparr =
     (let ms = (if kind = 0 then map of_nat members else tmparr) in
      case put_idx (db_GossipPool d) (unat (db_ID d)) 10000000 of None \<Rightarrow> None
      | Some pool \<Rightarrow>
        (case least_of pool ms of None \<Rightarrow> None
         | Some least \<Rightarrow>
           (let can = filter (\<lambda>m. pool ! unat m = least) ms; ran = env_intn E (length can) in
            if can = [] then None
            else case idx can ran of None \<Rightarrow> None
            | Some m \<Rightarrow> Some (m, d\<lparr>db_GossipPool := pool[unat m := pool ! unat m + 1]\<rparr>))))"

section \<open>Sending\<close>

text \<open>The members heard of and those still missing.\<close>

definition known :: "bool list list \<Rightarrow> nat \<Rightarrow> nat list option" where
  "known sigs r = map_option concat (those (map (\<lambda>i. map_option (\<lambda>b. if b then [i] else []) (cell sigs r i)) members))"

definition missing :: "nat list \<Rightarrow> u32 list" where
  "missing ks = map of_nat (filter (\<lambda>i. i \<notin> set ks) members)"

definition gather_fir :: "'d DbRef \<Rightarrow> nat \<Rightarrow> nat list \<Rightarrow> GossipFirMsg option" where
  "gather_fir d r ks = ofold (\<lambda>i g. map_option (GossipFirMsg_Add g) (cell (db_RepFirMsg d) r i)) ks
     \<lparr>gf_ID = db_ID d, gf_Cnt = 0, gf_Data = []\<rparr>"

definition gather_sec :: "'d DbRef \<Rightarrow> nat \<Rightarrow> nat list \<Rightarrow> GossipSecMsg option" where
  "gather_sec d r ks = ofold (\<lambda>i g. map_option (GossipSecMsg_Add g) (cell (db_RepSecMsg d) r i)) ks
     \<lparr>gs_ID = db_ID d, gs_Cnt = 0, gs_Data = []\<rparr>"

text \<open>The message and the member to send it to, or nil once nobody is missing.\<close>

definition GenerateGossipFir :: "env \<Rightarrow> 'd DbRef \<Rightarrow> u32 \<Rightarrow> (GossipFirMsg option \<times> int \<times> 'd DbRef) option" where
  "GenerateGossipFir E d round =
     (let r = unat round in
      case with_own E round d of None \<Rightarrow> None
      | Some d1 \<Rightarrow>
        (case known (db_RepFirSig d1) r of None \<Rightarrow> None
         | Some ks \<Rightarrow>
           (case gather_fir d1 r ks of None \<Rightarrow> None
            | Some tmp \<Rightarrow>
                if missing ks = [] then Some (None, 0, d1)
                else map_option (\<lambda>(m, d2). (Some tmp, int (unat m), d2)) (GetGossipID E d1 1 (missing ks)))))"

definition GenerateGossipSec :: "env \<Rightarrow> 'd DbRef \<Rightarrow> u32 \<Rightarrow> (GossipSecMsg option \<times> int \<times> 'd DbRef) option" where
  "GenerateGossipSec E d round =
     (let r = unat round in
      case cell (db_RepSecSig d) r (unat (db_ID d)) of None \<Rightarrow> None
      | Some own \<Rightarrow>
        (case (if own then Some d
               else case known (db_RepFirSig d) r of None \<Rightarrow> None
                 | Some ks \<Rightarrow> (case gather_fir d r ks of None \<Rightarrow> None
                     | Some g \<Rightarrow> map_option snd (MakeRepSecMsg E d round g))) of None \<Rightarrow> None
         | Some d1 \<Rightarrow>
           (case known (db_RepSecSig d1) r of None \<Rightarrow> None
            | Some ks \<Rightarrow>
              (case gather_sec d1 r ks of None \<Rightarrow> None
               | Some tmp \<Rightarrow>
                   if missing ks = [] then Some (None, 0, d1)
                   else map_option (\<lambda>(m, d2). (Some tmp, int (unat m), d2)) (GetGossipID E d1 1 (missing ks))))))"

section \<open>Receiving\<close>

text \<open>One view: a second one of the same member with another hash marks the member, and is
  not kept. \<open>tmpArr\<close> loses the member: its view need not be sent back.\<close>

definition merge_fir :: "nat \<Rightarrow> RepMsg \<Rightarrow> bool list \<times> 'd DbRef \<Rightarrow> (bool list \<times> 'd DbRef) option" where
  "merge_fir r m s = (case s of (arr, d) \<Rightarrow>
     let i = unat (rm_ID m) in
     (case (put_idx arr i False, cell (db_RepFirSig d) r i) of
        (Some arr', Some True) \<Rightarrow>
          (case cell (db_RepFirMsg d) r i of None \<Rightarrow> None
           | Some old \<Rightarrow>
             (case (RepMsg_Hash old, RepMsg_Hash m) of
                (Some h, Some h') \<Rightarrow>
                  (if h \<noteq> h'
                   then map_option (\<lambda>b. (arr', d\<lparr>db_RepByz := b\<rparr>)) (set_cell (db_RepByz d) r i True)
                   else Some (arr', d))
              | _ \<Rightarrow> None))
      | (Some arr', Some False) \<Rightarrow>
          (case (set_cell (db_RepFirSig d) r i True, set_cell (db_RepFirMsg d) r i m) of
             (Some sigs, Some msgs) \<Rightarrow> Some (arr', d\<lparr>db_RepFirSig := sigs, db_RepFirMsg := msgs\<rparr>)
           | _ \<Rightarrow> None)
      | _ \<Rightarrow> None))"

definition merge_sec :: "nat \<Rightarrow> RepSecMsg \<Rightarrow> bool list \<times> 'd DbRef \<Rightarrow> (bool list \<times> 'd DbRef) option" where
  "merge_sec r m s = (case s of (arr, d) \<Rightarrow>
     let i = unat (rs_ID m) in
     (case (put_idx arr i False, cell (db_RepSecSig d) r i) of
        (Some arr', Some True) \<Rightarrow> Some (arr', d)
      | (Some arr', Some False) \<Rightarrow>
          (case (set_cell (db_RepSecSig d) r i True, set_cell (db_RepSecMsg d) r i m) of
             (Some sigs, Some msgs) \<Rightarrow> Some (arr', d\<lparr>db_RepSecSig := sigs, db_RepSecMsg := msgs\<rparr>)
           | _ \<Rightarrow> None)
      | _ \<Rightarrow> None))"

definition row_of :: "bool list list \<Rightarrow> nat \<Rightarrow> bool list option" where
  "row_of sigs r = those (map (cell sigs r) members)"

definition kept :: "bool list \<Rightarrow> nat list" where
  "kept arr = filter (\<lambda>i. arr ! i) members"

text \<open>The answer: the views the sender did not have. The bound on the round is \<open>tmpRound >
  NumNewRep\<close>.\<close>

definition UpdateGossipFir :: "env \<Rightarrow> 'd DbRef \<Rightarrow> GossipFirMsg \<Rightarrow> (GossipFirMsg \<times> 'd DbRef) option" where
  "UpdateGossipFir E d data =
     (case vote_for (gf_ID data) d of None \<Rightarrow> None
      | Some d1 \<Rightarrow>
        (case idx (gf_Data data) 0 of None \<Rightarrow> None
         | Some m0 \<Rightarrow>
           (let r = unat (rm_Round m0); tmp = \<lparr>gf_ID = db_ID d, gf_Cnt = 0, gf_Data = []\<rparr> in
            if r > NumNewRep then Some (tmp, d1)
            else case with_own E (rm_Round m0) d1 of None \<Rightarrow> None
            | Some d2 \<Rightarrow>
              (case row_of (db_RepFirSig d2) r of None \<Rightarrow> None
               | Some arr \<Rightarrow>
                 (case for_each (merge_fir r) (unat (gf_Cnt data)) (gf_Data data) (arr, d2) of None \<Rightarrow> None
                  | Some (arr', d3) \<Rightarrow> map_option (\<lambda>g. (g, d3)) (gather_fir d3 r (kept arr')))))))"

definition UpdateGossipSec :: "env \<Rightarrow> 'd DbRef \<Rightarrow> GossipSecMsg \<Rightarrow> (GossipSecMsg \<times> int \<times> 'd DbRef) option" where
  "UpdateGossipSec E d data =
     (case vote_for (gs_ID data) d of None \<Rightarrow> None
      | Some d1 \<Rightarrow>
        (case idx (gs_Data data) 0 of None \<Rightarrow> None
         | Some m0 \<Rightarrow>
           (let r = unat (rs_Round m0); tmp = \<lparr>gs_ID = db_ID d, gs_Cnt = 0, gs_Data = []\<rparr> in
            if r > NumNewRep then Some (tmp, - 1, d1)
            else case row_of (db_RepSecSig d1) r of None \<Rightarrow> None
            | Some arr \<Rightarrow>
              (case for_each (merge_sec r) (unat (gs_Cnt data)) (gs_Data data) (arr, d1) of None \<Rightarrow> None
               | Some (arr', d2) \<Rightarrow>
                 (case (gather_sec d2 r (kept arr'), idx arr' (unat (db_ID d))) of
                    (Some g, Some own) \<Rightarrow> Some (g, if own then 1 else 0, d2)
                  | _ \<Rightarrow> None)))))"

section \<open>The reputation block\<close>

definition GetRepBlock :: "'f float64 \<Rightarrow> 'd DbRef \<Rightarrow> u32 \<Rightarrow> (RepBlock \<times> 'd DbRef) option" where
  "GetRepBlock F d round =
     (let r = unat round in
      case (if round > 0 then idx (db_RepHash d) (unat (round - 1)) else Some 0) of None \<Rightarrow> None
      | Some prev \<Rightarrow>
        (case (idx (db_RepFirMsg d) r, idx (db_RepSecMsg d) r) of
           (Some data, Some input) \<Rightarrow>
             (case RepBlockMake F data input prev of None \<Rightarrow> None
              | Some b \<Rightarrow> map_option (\<lambda>hs. (b, d\<lparr>db_RepHash := hs\<rparr>)) (put_idx (db_RepHash d) r (rb_Hash b)))
         | _ \<Rightarrow> None))"

section \<open>Tables of twenty rounds and members\<close>

definition tab :: "'a list list \<Rightarrow> bool" where
  "tab t \<longleftrightarrow> length t = 20 \<and> (\<forall>row \<in> set t. length row = 20)"

lemma tab_cell: "tab t \<Longrightarrow> cell t r i = (if r < 20 \<and> i < 20 then Some (t ! r ! i) else None)"
  by (auto simp: tab_def cell_def idx_def)

lemma tab_row: "tab t \<Longrightarrow> r < 20 \<Longrightarrow> length (t ! r) = 20"
  by (simp add: tab_def)

lemma tab_set_cell: "tab t \<Longrightarrow> set_cell t r i v = (if r < 20 \<and> i < 20 then Some (t[r := (t ! r)[i := v]]) else None)"
  by (auto simp: tab_def set_cell_def idx_def put_idx_def)

lemma tab_upd_row [simp]: "tab t \<Longrightarrow> r < 20 \<Longrightarrow> length row = 20 \<Longrightarrow> tab (t[r := row])"
  by (auto simp: tab_def dest!: set_update_subset_insert [THEN subsetD])

lemma tab_upd [simp]: "tab t \<Longrightarrow> r < 20 \<Longrightarrow> tab (t[r := (t ! r)[i := v]])"
  by (rule tab_upd_row) (simp_all add: tab_row)

lemma those_Some_all: "(\<And>x. x \<in> set xs \<Longrightarrow> f x = Some (g x)) \<Longrightarrow> those (map f xs) = Some (map g xs)"
  by (induction xs) auto

lemma row_of_tab: "tab sigs \<Longrightarrow> r < 20 \<Longrightarrow> row_of sigs r = Some (sigs ! r)"
  unfolding row_of_def
  by (subst those_Some_all [where g = "\<lambda>i. sigs ! r ! i"])
    (auto simp: tab_cell intro!: nth_equalityI simp: tab_row)

lemma known_tab: "tab sigs \<Longrightarrow> r < 20 \<Longrightarrow> known sigs r = Some (filter (\<lambda>i. sigs ! r ! i) [0..<20])"
proof -
  assume t: "tab sigs" "r < 20"
  have "those (map (\<lambda>i. map_option (\<lambda>b. if b then [i] else []) (cell sigs r i)) members)
      = Some (map (\<lambda>i. if sigs ! r ! i then [i] else []) members)"
    by (rule those_Some_all) (use t in \<open>auto simp: tab_cell\<close>)
  moreover have "concat (map (\<lambda>i. if P i then [i] else []) xs) = filter P xs" for P and xs :: "nat list"
    by (induction xs) auto
  ultimately show ?thesis by (simp add: known_def)
qed

text \<open>The messages gathered for a list of members.\<close>

lemma gather_fold:
  fixes add :: "'g \<Rightarrow> 'm \<Rightarrow> 'g"
  shows "(\<And>i. i \<in> set ks \<Longrightarrow> f i = Some (h i)) \<Longrightarrow> ofold (\<lambda>i g. map_option (add g) (f i)) ks g = Some (foldl add g (map h ks))"
  by (induction ks arbitrary: g) auto

lemma foldl_GossipFirMsg_Add:
  "foldl GossipFirMsg_Add g ms = g\<lparr>gf_Cnt := gf_Cnt g + of_nat (length ms), gf_Data := gf_Data g @ ms\<rparr>"
  by (induction ms arbitrary: g) (simp_all add: GossipFirMsg_Add_def algebra_simps)

lemma foldl_GossipSecMsg_Add:
  "foldl GossipSecMsg_Add g ms = g\<lparr>gs_Cnt := gs_Cnt g + of_nat (length ms), gs_Data := gs_Data g @ ms\<rparr>"
  by (induction ms arbitrary: g) (simp_all add: GossipSecMsg_Add_def algebra_simps)

lemma gather_fir_tab:
  assumes "tab (db_RepFirMsg d)" and "r < 20" and "set ks \<subseteq> {..<20}"
  shows "gather_fir d r ks = Some \<lparr>gf_ID = db_ID d, gf_Cnt = of_nat (length ks), gf_Data = map (\<lambda>i. db_RepFirMsg d ! r ! i) ks\<rparr>"
  unfolding gather_fir_def
  by (subst gather_fold [where h = "\<lambda>i. db_RepFirMsg d ! r ! i"])
    (use assms in \<open>auto simp: tab_cell foldl_GossipFirMsg_Add\<close>)

lemma gather_sec_tab:
  assumes "tab (db_RepSecMsg d)" and "r < 20" and "set ks \<subseteq> {..<20}"
  shows "gather_sec d r ks = Some \<lparr>gs_ID = db_ID d, gs_Cnt = of_nat (length ks), gs_Data = map (\<lambda>i. db_RepSecMsg d ! r ! i) ks\<rparr>"
  unfolding gather_sec_def
  by (subst gather_fold [where h = "\<lambda>i. db_RepSecMsg d ! r ! i"])
    (use assms in \<open>auto simp: tab_cell foldl_GossipSecMsg_Add\<close>)

section \<open>Merging views\<close>

text \<open>What both phases have in common: a state holds for some members a view, and \<open>step\<close> takes
  one received view in. A known view stays; one that clashes with it marks the member. Nothing
  else of the state changes: \<open>rest\<close> is all of it but the tables of the round.\<close>

locale gossip_merge =
  fixes inv :: "'s \<Rightarrow> bool"
    and okm :: "'m \<Rightarrow> bool"
    and who :: "'m \<Rightarrow> nat"
    and has :: "'s \<Rightarrow> nat \<Rightarrow> bool"
    and view :: "'s \<Rightarrow> nat \<Rightarrow> 'm"
    and mark :: "'s \<Rightarrow> nat \<Rightarrow> bool"
    and clash :: "'m \<Rightarrow> 'm \<Rightarrow> bool"
    and rest :: "'s \<Rightarrow> 'r"
    and step :: "'m \<Rightarrow> bool list \<times> 's \<Rightarrow> (bool list \<times> 's) option"
  assumes step_ok: "inv s \<Longrightarrow> okm m \<Longrightarrow> length arr = 20 \<Longrightarrow>
      \<exists>s'. step m (arr, s) = Some (arr[who m := False], s') \<and> inv s' \<and> rest s' = rest s
        \<and> (\<forall>i < 20. has s' i \<longleftrightarrow> has s i \<or> i = who m)
        \<and> (\<forall>i < 20. view s' i = (if i = who m \<and> \<not> has s i then m else view s i))
        \<and> (\<forall>i < 20. mark s' i \<longleftrightarrow> mark s i \<or> i = who m \<and> has s i \<and> clash (view s i) m)"
    and who_ok: "okm m \<Longrightarrow> who m < 20"
    and clash_refl: "\<not> clash m m"
begin

text \<open>The view of a member after a list of views arrived: the known one, or else the first.\<close>

definition first_view :: "'s \<Rightarrow> 'm list \<Rightarrow> nat \<Rightarrow> 'm" where
  "first_view s ms i = (if has s i then view s i
     else case List.find (\<lambda>m. who m = i) ms of None \<Rightarrow> view s i | Some m \<Rightarrow> m)"

lemma first_view_Cons:
  assumes "okm m" and "\<forall>i < 20. has s' i \<longleftrightarrow> has s i \<or> i = who m"
    and "\<forall>i < 20. view s' i = (if i = who m \<and> \<not> has s i then m else view s i)" and "i < 20"
  shows "first_view s' ms i = first_view s (m # ms) i"
  using assms by (auto simp: first_view_def split: option.splits)

lemma merge_list:
  assumes "inv s" and "\<forall>m \<in> set ms. okm m" and "length arr = 20"
  shows "\<exists>arr' s'. ofold step ms (arr, s) = Some (arr', s') \<and> inv s' \<and> rest s' = rest s
    \<and> length arr' = 20 \<and> (\<forall>i < 20. arr' ! i \<longleftrightarrow> arr ! i \<and> i \<notin> who ` set ms)
    \<and> (\<forall>i < 20. has s' i \<longleftrightarrow> has s i \<or> i \<in> who ` set ms)
    \<and> (\<forall>i < 20. view s' i = first_view s ms i)
    \<and> (\<forall>i < 20. mark s' i \<longleftrightarrow> mark s i \<or> (\<exists>m \<in> set ms. who m = i \<and> clash (first_view s ms i) m))"
  using assms
proof (induction ms arbitrary: arr s)
  case Nil
  then show ?case by (simp add: first_view_def)
next
  case (Cons m ms)
  have ok: "okm m" using Cons.prems(2) by simp
  obtain s1 where s1: "step m (arr, s) = Some (arr[who m := False], s1)" "inv s1" "rest s1 = rest s"
    and h: "\<forall>i < 20. has s1 i \<longleftrightarrow> has s i \<or> i = who m"
    and v: "\<forall>i < 20. view s1 i = (if i = who m \<and> \<not> has s i then m else view s i)"
    and k: "\<forall>i < 20. mark s1 i \<longleftrightarrow> mark s i \<or> i = who m \<and> has s i \<and> clash (view s i) m"
    using step_ok [OF Cons.prems(1) ok Cons.prems(3)] by blast
  obtain arr' s' where 2: "ofold step ms (arr[who m := False], s1) = Some (arr', s')" "inv s'" "rest s' = rest s1"
      "length arr' = 20" "\<forall>i < 20. arr' ! i \<longleftrightarrow> arr[who m := False] ! i \<and> i \<notin> who ` set ms"
      "\<forall>i < 20. has s' i \<longleftrightarrow> has s1 i \<or> i \<in> who ` set ms" "\<forall>i < 20. view s' i = first_view s1 ms i"
      "\<forall>i < 20. mark s' i \<longleftrightarrow> mark s1 i \<or> (\<exists>m \<in> set ms. who m = i \<and> clash (first_view s1 ms i) m)"
    using Cons.IH [OF s1(2), of "arr[who m := False]"] Cons.prems by auto
  have fv: "first_view s1 ms i = first_view s (m # ms) i" if "i < 20" for i
    using first_view_Cons [OF ok h v that] .
  have fm: "first_view s (m # ms) (who m) = (if has s (who m) then view s (who m) else m)"
    by (simp add: first_view_def)
  have "mark s' i \<longleftrightarrow> mark s i \<or> (\<exists>x \<in> set (m # ms). who x = i \<and> clash (first_view s (m # ms) i) x)"
    if i: "i < 20" for i
    using 2(8) k fv [OF i] fm i clash_refl [of m] by (auto split: if_splits)
  moreover have "arr' ! i \<longleftrightarrow> arr ! i \<and> i \<notin> who ` set (m # ms)" if "i < 20" for i
    using 2(5) that Cons.prems(3) who_ok [OF ok] by (auto simp: nth_list_update split: if_splits)
  ultimately show ?case
    using s1 2 h fv by auto
qed

end

text \<open>The tables of a node in round \<open>r\<close>.\<close>

definition rep_shape :: "'d DbRef \<Rightarrow> bool" where
  "rep_shape d \<longleftrightarrow> tab (db_RepVote d) \<and> tab (db_RepFirMsg d) \<and> tab (db_RepSecMsg d) \<and> tab (db_RepByz d)
     \<and> tab (db_RepFirSig d) \<and> tab (db_RepSecSig d) \<and> length (db_RepHash d) = 20 \<and> length (db_GossipPool d) = 20
     \<and> unat (db_ID d) < 20 \<and> (\<exists>tb. db_TBCache d = Some tb \<and> length tb < 2 ^ 32)"

definition has_fir :: "nat \<Rightarrow> 'd DbRef \<Rightarrow> nat \<Rightarrow> bool" where "has_fir r d i = db_RepFirSig d ! r ! i"
definition view_fir :: "nat \<Rightarrow> 'd DbRef \<Rightarrow> nat \<Rightarrow> RepMsg" where "view_fir r d i = db_RepFirMsg d ! r ! i"
definition byz :: "nat \<Rightarrow> 'd DbRef \<Rightarrow> nat \<Rightarrow> bool" where "byz r d i = db_RepByz d ! r ! i"
definition has_sec :: "nat \<Rightarrow> 'd DbRef \<Rightarrow> nat \<Rightarrow> bool" where "has_sec r d i = db_RepSecSig d ! r ! i"
definition view_sec :: "nat \<Rightarrow> 'd DbRef \<Rightarrow> nat \<Rightarrow> RepSecMsg" where "view_sec r d i = db_RepSecMsg d ! r ! i"

lemmas round_defs = has_fir_def view_fir_def byz_def has_sec_def view_sec_def

definition clash_fir :: "RepMsg \<Rightarrow> RepMsg \<Rightarrow> bool" where
  "clash_fir a b \<longleftrightarrow> RepMsg_Hash a \<noteq> RepMsg_Hash b"

text \<open>A view whose member exists and whose counts fit its slices.\<close>

definition fir_ok :: "RepMsg \<Rightarrow> bool" where
  "fir_ok m \<longleftrightarrow> unat (rm_ID m) < 20 \<and> RepMsg_Hash m \<noteq> None"

definition fir_inv :: "nat \<Rightarrow> 'd DbRef \<Rightarrow> bool" where
  "fir_inv r d \<longleftrightarrow> rep_shape d \<and> r < 20
     \<and> (\<forall>i < 20. has_fir r d i \<longrightarrow> unat (rm_ID (view_fir r d i)) = i \<and> RepMsg_Hash (view_fir r d i) \<noteq> None)"

definition sec_inv :: "nat \<Rightarrow> 'd DbRef \<Rightarrow> bool" where
  "sec_inv r d \<longleftrightarrow> rep_shape d \<and> r < 20"

text \<open>The node without the tables a phase writes in round \<open>r\<close>.\<close>

definition no_fir :: "nat \<Rightarrow> 'd DbRef \<Rightarrow> 'd DbRef" where
  "no_fir r d = d\<lparr>db_RepFirMsg := (db_RepFirMsg d)[r := []], db_RepFirSig := (db_RepFirSig d)[r := []],
     db_RepByz := (db_RepByz d)[r := []]\<rparr>"

definition no_sec :: "nat \<Rightarrow> 'd DbRef \<Rightarrow> 'd DbRef" where
  "no_sec r d = d\<lparr>db_RepSecMsg := (db_RepSecMsg d)[r := []], db_RepSecSig := (db_RepSecSig d)[r := []]\<rparr>"

lemma merge_fir_ok:
  assumes "fir_inv r d" and "fir_ok m" and "length arr = 20"
  shows "\<exists>d'. merge_fir r m (arr, d) = Some (arr[unat (rm_ID m) := False], d') \<and> fir_inv r d' \<and> no_fir r d' = no_fir r d
    \<and> (\<forall>i < 20. has_fir r d' i \<longleftrightarrow> has_fir r d i \<or> i = unat (rm_ID m))
    \<and> (\<forall>i < 20. view_fir r d' i = (if i = unat (rm_ID m) \<and> \<not> has_fir r d i then m else view_fir r d i))
    \<and> (\<forall>i < 20. byz r d' i \<longleftrightarrow> byz r d i \<or> i = unat (rm_ID m) \<and> has_fir r d i \<and> clash_fir (view_fir r d i) m)"
proof -
  let ?i = "unat (rm_ID m)"
  have sh: "rep_shape d" and r: "r < 20" and i: "?i < 20" using assms by (auto simp: fir_inv_def fir_ok_def)
  then have t: "tab (db_RepFirSig d)" "tab (db_RepFirMsg d)" "tab (db_RepByz d)" by (auto simp: rep_shape_def)
  note l = tab_row [OF t(1) r] tab_row [OF t(2) r] tab_row [OF t(3) r]
  have len: "length (db_RepFirSig d) = 20" "length (db_RepFirMsg d) = 20" "length (db_RepByz d) = 20"
    using t by (auto simp: tab_def)
  note shape = fir_inv_def rep_shape_def no_fir_def round_defs tab_cell tab_set_cell
  show ?thesis
  proof (cases "has_fir r d ?i")
    case True
    then obtain h h' where h: "RepMsg_Hash (view_fir r d ?i) = Some h" "RepMsg_Hash m = Some h'"
      using assms i by (auto simp: fir_inv_def fir_ok_def)
    let ?d = "if h = h' then d else d\<lparr>db_RepByz := (db_RepByz d)[r := (db_RepByz d ! r)[?i := True]]\<rparr>"
    have "merge_fir r m (arr, d) = Some (arr[?i := False], ?d)"
      using True h t r i assms(3) by (simp add: merge_fir_def Let_def put_idx_def shape)
    moreover have "fir_inv r ?d" "no_fir r ?d = no_fir r d" using assms(1) t r len by (auto simp: shape)
    moreover have "\<forall>j < 20. byz r ?d j \<longleftrightarrow> byz r d j \<or> j = ?i \<and> has_fir r d j \<and> clash_fir (view_fir r d j) m"
      using True h l len r i by (auto simp: clash_fir_def round_defs nth_list_update)
    moreover have "\<forall>j < 20. has_fir r ?d j \<longleftrightarrow> has_fir r d j \<or> j = ?i" "view_fir r ?d = view_fir r d"
      using True by (auto simp: round_defs)
    ultimately show ?thesis using True by (intro exI [of _ ?d]) auto
  next
    case False
    let ?d = "d\<lparr>db_RepFirSig := (db_RepFirSig d)[r := (db_RepFirSig d ! r)[?i := True]],
       db_RepFirMsg := (db_RepFirMsg d)[r := (db_RepFirMsg d ! r)[?i := m]]\<rparr>"
    have "merge_fir r m (arr, d) = Some (arr[?i := False], ?d)"
      using False t r i assms(3) by (simp add: merge_fir_def Let_def put_idx_def shape)
    moreover have has: "\<forall>j < 20. has_fir r ?d j \<longleftrightarrow> has_fir r d j \<or> j = ?i"
      using l len r i by (auto simp: round_defs nth_list_update)
    moreover have view: "\<forall>j < 20. view_fir r ?d j = (if j = ?i \<and> \<not> has_fir r d j then m else view_fir r d j)"
      using False l len r i by (auto simp: round_defs nth_list_update)
    moreover have "fir_inv r ?d"
    proof -
      have "rep_shape ?d" using sh r by (simp add: rep_shape_def)
      then show ?thesis using assms(1,2) has view by (auto simp: fir_inv_def fir_ok_def)
    qed
    moreover have "no_fir r ?d = no_fir r d" by (simp add: no_fir_def)
    moreover have "\<forall>j < 20. byz r ?d j \<longleftrightarrow> byz r d j \<or> j = ?i \<and> has_fir r d j \<and> clash_fir (view_fir r d j) m"
      using False by (auto simp: round_defs)
    ultimately show ?thesis by blast
  qed
qed

lemma merge_sec_ok:
  assumes "sec_inv r d" and "unat (rs_ID m) < 20" and "length arr = 20"
  shows "\<exists>d'. merge_sec r m (arr, d) = Some (arr[unat (rs_ID m) := False], d') \<and> sec_inv r d' \<and> no_sec r d' = no_sec r d
    \<and> (\<forall>i < 20. has_sec r d' i \<longleftrightarrow> has_sec r d i \<or> i = unat (rs_ID m))
    \<and> (\<forall>i < 20. view_sec r d' i = (if i = unat (rs_ID m) \<and> \<not> has_sec r d i then m else view_sec r d i))"
proof -
  have sh: "rep_shape d" and r: "r < 20" using assms by (auto simp: sec_inv_def)
  then have t: "tab (db_RepSecSig d)" "tab (db_RepSecMsg d)" by (auto simp: rep_shape_def)
  note l = tab_row [OF t(1) r] tab_row [OF t(2) r]
  have len: "length (db_RepSecSig d) = 20" "length (db_RepSecMsg d) = 20" using t by (auto simp: tab_def)
  let ?i = "unat (rs_ID m)"
  let ?d = "if has_sec r d ?i then d else d\<lparr>db_RepSecSig := (db_RepSecSig d)[r := (db_RepSecSig d ! r)[?i := True]],
       db_RepSecMsg := (db_RepSecMsg d)[r := (db_RepSecMsg d ! r)[?i := m]]\<rparr>"
  have "merge_sec r m (arr, d) = Some (arr[?i := False], ?d)"
    using t r assms(2,3) by (simp add: merge_sec_def Let_def put_idx_def round_defs tab_cell tab_set_cell)
  moreover have "sec_inv r ?d" "no_sec r ?d = no_sec r d"
    using sh r by (simp_all add: sec_inv_def rep_shape_def no_sec_def)
  moreover have "\<forall>j < 20. has_sec r ?d j \<longleftrightarrow> has_sec r d j \<or> j = ?i"
    "\<forall>j < 20. view_sec r ?d j = (if j = ?i \<and> \<not> has_sec r d j then m else view_sec r d j)"
    using l len r assms(2) by (auto simp: round_defs nth_list_update)
  ultimately show ?thesis by blast
qed

interpretation fir: gossip_merge "fir_inv r" fir_ok "\<lambda>m. unat (rm_ID m)" "has_fir r" "view_fir r" "byz r" clash_fir
    "no_fir r" "merge_fir r" for r
  by unfold_locales (simp add: merge_fir_ok, simp add: fir_ok_def, simp add: clash_fir_def)

interpretation sec: gossip_merge "sec_inv r" "\<lambda>m. unat (rs_ID m) < 20" "\<lambda>m. unat (rs_ID m)" "has_sec r" "view_sec r"
    "\<lambda>_ _. False" "\<lambda>_ _. False" "no_sec r" "merge_sec r" for r
  by unfold_locales (simp_all add: merge_sec_ok)

section \<open>Own views\<close>

lemma sum_votes_tab:
  assumes "tab votes" and "unat round \<le> 20" and "i < 20"
  shows "\<exists>v. sum_votes votes round i = Some v \<and> nr_ID v = of_nat i"
proof -
  have "\<exists>v. ofold (\<lambda>j v. map_option (\<lambda>w. v\<lparr>nr_Rep := nr_Rep v + nr_Rep w\<rparr>) (cell votes j i))
     [window_start round..<unat round] \<lparr>nr_ID = of_nat i, nr_Rep = 0\<rparr> = Some v \<and> nr_ID v = of_nat i"
    by (rule ofold_total) (use assms in \<open>auto simp: tab_cell\<close>)
  then show ?thesis by (simp add: sum_votes_def)
qed

lemma RepMsg_Make_some:
  assumes "length tb < 2 ^ 32" and "length vote < 2 ^ 32"
  shows "\<exists>m. RepMsg_Make sg rnd a mid tb vote rd prk = Some m \<and> rm_ID m = mid \<and> rm_Round m = rd
    \<and> rm_TBHash m = tb \<and> rm_Vote m = vote \<and> RepMsg_Hash m \<noteq> None"
proof -
  define b where "b = a\<lparr>rm_ID := mid, rm_TBHash := tb, rm_Vote := vote, rm_Round := rd,
    rm_NumTB := of_nat (length tb), rm_NumVote := of_nat (length vote)\<rparr>"
  have n: "length (rm_TBHash b) = unat (rm_NumTB b)" "length (rm_Vote b) = unat (rm_NumVote b)"
    using assms by (simp_all add: b_def unat_of_nat_u32)
  obtain h where h: "RepMsg_Hash b = Some h" using RepMsg_data_cnt [OF n] by (simp add: RepMsg_Hash_def)
  let ?m = "b\<lparr>rm_Sig := RCSign_Sign sg rnd (be_bytes 32 h) prk\<rparr>"
  have "RepMsg_Make sg rnd a mid tb vote rd prk = Some ?m"
    using h by (simp add: RepMsg_Make_def b_def [symmetric] Let_def)
  moreover have "RepMsg_Hash ?m \<noteq> None" using h by (auto simp: RepMsg_Hash_def)
  ultimately show ?thesis by (intro exI [of _ ?m]) (simp add: b_def)
qed

text \<open>The own view is made once, and replaces nothing else.\<close>

lemma MakeRepMsg_ok:
  assumes "rep_shape d" and "unat round < 20"
  shows "\<exists>m. MakeRepMsg E d round = Some (m, d\<lparr>
      db_RepFirMsg := (db_RepFirMsg d)[unat round := (db_RepFirMsg d ! unat round)[unat (db_ID d) := m]],
      db_RepFirSig := (db_RepFirSig d)[unat round := (db_RepFirSig d ! unat round)[unat (db_ID d) := True]]\<rparr>)
    \<and> rm_ID m = db_ID d \<and> rm_Round m = round \<and> Some (rm_TBHash m) = db_TBCache d \<and> RepMsg_Hash m \<noteq> None"
proof -
  have t: "tab (db_RepVote d)" "tab (db_RepFirMsg d)" "tab (db_RepFirSig d)" and i: "unat (db_ID d) < 20"
    using assms(1) by (auto simp: rep_shape_def)
  obtain tb where tb: "db_TBCache d = Some tb" "length tb < 2 ^ 32" using assms(1) by (auto simp: rep_shape_def)
  have "\<exists>v. sum_votes (db_RepVote d) round i = Some v" if "i \<in> set members" for i
    using sum_votes_tab [OF t(1), of round i] assms(2) that by auto
  then obtain vote where v: "those (map (sum_votes (db_RepVote d) round) members) = Some vote"
    and "map Some vote = map (sum_votes (db_RepVote d) round) members"
    using those_total [of members "sum_votes (db_RepVote d) round"] by blast
  then have "length vote = 20" by (metis length_map length_upt diff_zero ShardSize_nat)
  then obtain m where m: "RepMsg_Make (env_sign E) (env_rnd E 0) RepMsg_zero (db_ID d) tb vote round (db_prk d) = Some m"
    "rm_ID m = db_ID d" "rm_Round m = round" "rm_TBHash m = tb" "RepMsg_Hash m \<noteq> None"
    using RepMsg_Make_some [OF tb(2), of vote] by fastforce
  then show ?thesis
    using v tb t i assms(2) by (simp add: MakeRepMsg_def tab_set_cell)
qed

lemma with_own_ok:
  assumes "fir_inv r d" and "unat round = r"
  shows "\<exists>d'. with_own E round d = Some d' \<and> fir_inv r d' \<and> no_fir r d' = no_fir r d
    \<and> (\<forall>i < 20. has_fir r d' i \<longleftrightarrow> has_fir r d i \<or> i = unat (db_ID d))
    \<and> (\<forall>i < 20. has_fir r d i \<or> i \<noteq> unat (db_ID d) \<longrightarrow> view_fir r d' i = view_fir r d i)
    \<and> (\<not> has_fir r d (unat (db_ID d)) \<longrightarrow> rm_Round (view_fir r d' (unat (db_ID d))) = round)
    \<and> byz r d' = byz r d"
proof -
  let ?i = "unat (db_ID d)"
  have sh: "rep_shape d" and r: "r < 20" using assms(1) by (auto simp: fir_inv_def)
  then have t: "tab (db_RepFirSig d)" "tab (db_RepFirMsg d)" and i: "?i < 20" by (auto simp: rep_shape_def)
  note l = tab_row [OF t(1) r] tab_row [OF t(2) r]
  have len: "length (db_RepFirSig d) = 20" "length (db_RepFirMsg d) = 20" using t by (auto simp: tab_def)
  show ?thesis
  proof (cases "has_fir r d ?i")
    case True
    then have "with_own E round d = Some d" using t i r assms(2) by (simp add: with_own_def tab_cell has_fir_def)
    then show ?thesis using True assms(1) by auto
  next
    case False
    obtain m where m: "MakeRepMsg E d round = Some (m, d\<lparr>
        db_RepFirMsg := (db_RepFirMsg d)[r := (db_RepFirMsg d ! r)[?i := m]],
        db_RepFirSig := (db_RepFirSig d)[r := (db_RepFirSig d ! r)[?i := True]]\<rparr>)"
      "rm_ID m = db_ID d" "rm_Round m = round" "RepMsg_Hash m \<noteq> None"
      using MakeRepMsg_ok [OF sh, of round E] r assms(2) by auto
    let ?d = "d\<lparr>db_RepFirMsg := (db_RepFirMsg d)[r := (db_RepFirMsg d ! r)[?i := m]],
        db_RepFirSig := (db_RepFirSig d)[r := (db_RepFirSig d ! r)[?i := True]]\<rparr>"
    have "with_own E round d = Some ?d"
      using False t i r m(1) assms(2) by (simp add: with_own_def tab_cell has_fir_def)
    moreover have has: "\<forall>j < 20. has_fir r ?d j \<longleftrightarrow> has_fir r d j \<or> j = ?i"
      using l len r i by (auto simp: round_defs nth_list_update)
    moreover have view: "\<forall>j < 20. view_fir r ?d j = (if j = ?i then m else view_fir r d j)"
      using l len r i by (auto simp: round_defs nth_list_update)
    moreover have "fir_inv r ?d"
    proof -
      have "rep_shape ?d" using sh r by (simp add: rep_shape_def)
      then show ?thesis using assms(1) has view m(2,4) by (auto simp: fir_inv_def)
    qed
    moreover have "no_fir r ?d = no_fir r d" "byz r ?d = byz r d" by (simp_all add: no_fir_def round_defs fun_eq_iff)
    ultimately show ?thesis using m(3) i False by (intro exI [of _ ?d]) auto
  qed
qed

lemma vote_for_ok:
  assumes "tab (db_RepVote d)" and "unat x < 20" and "unat (db_RepRound d) < 20"
  shows "\<exists>t. vote_for x d = Some (d\<lparr>db_RepVote := t\<rparr>) \<and> tab t"
  using assms by (auto simp: vote_for_def idx_def tab_def nth_list_update dest!: set_update_subset_insert [THEN subsetD])

lemma fir_inv_votes:
  assumes "tab t"
  shows "fir_inv r d \<Longrightarrow> fir_inv r (d\<lparr>db_RepVote := t\<rparr>)" "sec_inv r d \<Longrightarrow> sec_inv r (d\<lparr>db_RepVote := t\<rparr>)"
  using assms by (auto simp: fir_inv_def sec_inv_def rep_shape_def round_defs)

section \<open>A message is merged\<close>

text \<open>The members a message speaks of.\<close>

definition speaks :: "RepMsg list \<Rightarrow> nat set" where
  "speaks ms = (\<lambda>m. unat (rm_ID m)) ` set ms"

lemma no_fir_ID: "no_fir r d' = no_fir r d \<Longrightarrow> db_ID d' = db_ID d"
  by (drule arg_cong [where f = db_ID]) (simp add: no_fir_def)

lemma has_votes [simp]: "has_fir r (d\<lparr>db_RepVote := t\<rparr>) = has_fir r d" "view_fir r (d\<lparr>db_RepVote := t\<rparr>) = view_fir r d"
  "byz r (d\<lparr>db_RepVote := t\<rparr>) = byz r d"
  by (simp_all add: round_defs fun_eq_iff)

lemma UpdateGossipFir_ok:
  assumes inv: "fir_inv r d" and ms: "gf_Data g \<noteq> []" "length (gf_Data g) = unat (gf_Cnt g)"
    and ok: "\<forall>m \<in> set (gf_Data g). fir_ok m" and r: "unat (rm_Round (hd (gf_Data g))) = r"
    and src: "unat (gf_ID g) < 20" "unat (db_RepRound d) < 20"
  defines "me \<equiv> unat (db_ID d)" and "ids \<equiv> speaks (gf_Data g)"
  shows "\<exists>ans d'. UpdateGossipFir E d g = Some (ans, d') \<and> fir_inv r d' \<and> db_ID d' = db_ID d
    \<and> db_RepRound d' = db_RepRound d
    \<and> (\<forall>i < 20. has_fir r d' i \<longleftrightarrow> has_fir r d i \<or> i = me \<or> i \<in> ids)
    \<and> (\<forall>i < 20. has_fir r d i \<longrightarrow> view_fir r d' i = view_fir r d i)
    \<and> (\<forall>i < 20. \<not> has_fir r d i \<and> i \<noteq> me \<and> i \<in> ids \<longrightarrow>
         List.find (\<lambda>m. unat (rm_ID m) = i) (gf_Data g) = Some (view_fir r d' i))
    \<and> (\<not> has_fir r d me \<longrightarrow> unat (rm_Round (view_fir r d' me)) = r)
    \<and> (\<forall>i < 20. byz r d' i \<longleftrightarrow> byz r d i
         \<or> (\<exists>m \<in> set (gf_Data g). unat (rm_ID m) = i \<and> RepMsg_Hash m \<noteq> RepMsg_Hash (view_fir r d' i)))
    \<and> ans = (let ks = filter (\<lambda>i. (has_fir r d i \<or> i = me) \<and> i \<notin> ids) [0..<20]
             in \<lparr>gf_ID = db_ID d, gf_Cnt = of_nat (length ks), gf_Data = map (view_fir r d') ks\<rparr>)"
proof -
  have sh: "rep_shape d" and r20: "r < 20" using inv by (auto simp: fir_inv_def)
  obtain t where t: "vote_for (gf_ID g) d = Some (d\<lparr>db_RepVote := t\<rparr>)" "tab t"
    using vote_for_ok [of d "gf_ID g"] sh src by (auto simp: rep_shape_def)
  let ?d1 = "d\<lparr>db_RepVote := t\<rparr>"
  obtain d2 where own: "with_own E (rm_Round (hd (gf_Data g))) ?d1 = Some d2" and inv2: "fir_inv r d2"
    and rest2: "no_fir r d2 = no_fir r ?d1"
    and has2: "\<forall>i < 20. has_fir r d2 i \<longleftrightarrow> has_fir r d i \<or> i = me"
    and view2: "\<forall>i < 20. has_fir r d i \<or> i \<noteq> me \<longrightarrow> view_fir r d2 i = view_fir r d i"
    and rd2: "\<not> has_fir r d me \<longrightarrow> rm_Round (view_fir r d2 me) = rm_Round (hd (gf_Data g))"
    and byz2: "byz r d2 = byz r d"
    using with_own_ok [OF fir_inv_votes(1) [OF t(2) inv] r, of E] by (auto simp: me_def)
  have t2: "tab (db_RepFirSig d2)" using inv2 by (auto simp: fir_inv_def rep_shape_def)
  obtain arr d3 where m: "ofold (merge_fir r) (gf_Data g) (db_RepFirSig d2 ! r, d2) = Some (arr, d3)"
    and inv3: "fir_inv r d3" and rest3: "no_fir r d3 = no_fir r d2" and arr: "length arr = 20"
      "\<forall>i < 20. arr ! i \<longleftrightarrow> db_RepFirSig d2 ! r ! i \<and> i \<notin> ids"
    and has3: "\<forall>i < 20. has_fir r d3 i \<longleftrightarrow> has_fir r d2 i \<or> i \<in> ids"
    and view3: "\<forall>i < 20. view_fir r d3 i = fir.first_view r d2 (gf_Data g) i"
    and byz3: "\<forall>i < 20. byz r d3 i \<longleftrightarrow> byz r d2 i
      \<or> (\<exists>m \<in> set (gf_Data g). unat (rm_ID m) = i \<and> clash_fir (fir.first_view r d2 (gf_Data g) i) m)"
    using fir.merge_list [OF inv2 ok tab_row [OF t2 r20]] by (auto simp: ids_def speaks_def)
  have t3: "tab (db_RepFirMsg d3)" using inv3 by (auto simp: fir_inv_def rep_shape_def)
  have ID: "db_ID d3 = db_ID d" "db_RepRound d3 = db_RepRound d"
    using arg_cong [OF rest2, of db_ID] arg_cong [OF rest3, of db_ID]
      arg_cong [OF rest2, of db_RepRound] arg_cong [OF rest3, of db_RepRound] by (simp_all add: no_fir_def)
  have ks: "kept arr = filter (\<lambda>i. (has_fir r d i \<or> i = me) \<and> i \<notin> ids) [0..<20]"
    unfolding kept_def ShardSize_nat by (rule filter_cong) (use arr has2 in \<open>auto simp: has_fir_def\<close>)
  let ?ans = "\<lparr>gf_ID = db_ID d, gf_Cnt = of_nat (length (kept arr)), gf_Data = map (view_fir r d3) (kept arr)\<rparr>"
  have "gather_fir d3 r (kept arr) = Some ?ans"
    using gather_fir_tab [OF t3 r20, of "kept arr"] ID by (auto simp: kept_def view_fir_def [abs_def])
  moreover have "for_each (merge_fir r) (unat (gf_Cnt g)) (gf_Data g) (db_RepFirSig d2 ! r, d2) = Some (arr, d3)"
    by (simp add: for_each_all [OF ms(2) [symmetric]] m)
  ultimately have upd: "UpdateGossipFir E d g = Some (?ans, d3)"
    using t(1) own r r20 row_of_tab [OF t2 r20] ms(1)
    by (simp add: UpdateGossipFir_def Let_def NumNewRep_def idx_def hd_conv_nth [OF ms(1), symmetric])
  have "fir.first_view r d2 (gf_Data g) i = view_fir r d2 i" if "has_fir r d2 i" for i
    using that by (simp add: fir.first_view_def)
  moreover have "List.find (\<lambda>m. unat (rm_ID m) = i) (gf_Data g) = Some (fir.first_view r d2 (gf_Data g) i)"
    if "\<not> has_fir r d2 i" "i \<in> ids" for i
    using that by (auto simp: fir.first_view_def ids_def speaks_def find_None_iff split: option.splits)
  ultimately show ?thesis
    using upd inv3 has2 has3 view2 view3 byz2 byz3 rd2 ID ks r sh
    by (intro exI [of _ ?ans] exI [of _ d3]) (auto simp: Let_def clash_fir_def me_def rep_shape_def)
qed

section \<open>The member to talk to\<close>

text \<open>\<open>rand.Intn(n)\<close> is below \<open>n\<close>.\<close>

definition env_ok :: "env \<Rightarrow> bool" where
  "env_ok E \<longleftrightarrow> ecdsa_ok (env_sign E) (env_verify E) \<and> (\<forall>n. 0 < n \<longrightarrow> env_intn E n < n)"

lemma least_loop:
  fixes pool :: "int list"
  shows "\<forall>m \<in> set ms. unat m < length pool \<Longrightarrow>
   \<exists>k. ofold (\<lambda>m l. map_option (\<lambda>v. if v < l then v else l) (idx pool (unat m))) ms l = Some k \<and> k \<le> l
     \<and> (\<forall>m \<in> set ms. k \<le> pool ! unat m) \<and> (k = l \<or> (\<exists>m \<in> set ms. k = pool ! unat m))"
proof (induction ms arbitrary: l)
  case (Cons m ms)
  let ?l = "if pool ! unat m < l then pool ! unat m else l"
  obtain k where "ofold (\<lambda>m l. map_option (\<lambda>v. if v < l then v else l) (idx pool (unat m))) ms ?l = Some k" "k \<le> ?l"
    "\<forall>m \<in> set ms. k \<le> pool ! unat m" "k = ?l \<or> (\<exists>m \<in> set ms. k = pool ! unat m)"
    using Cons.IH [of ?l] Cons.prems by auto
  then show ?case using Cons.prems by (intro exI [of _ k]) (auto simp: idx_def split: if_splits)
qed simp

lemma least_of_ok:
  assumes "ms \<noteq> []" and "\<forall>m \<in> set ms. unat m < length pool"
  shows "\<exists>k. least_of pool ms = Some k \<and> (\<forall>m \<in> set ms. k \<le> pool ! unat m) \<and> (\<exists>m \<in> set ms. k = pool ! unat m)"
  using assms least_loop [OF assms(2), of "pool ! unat (hd ms)"]
  by (cases ms) (auto simp: least_of_def idx_def)

lemma GetGossipID_ok:
  assumes "env_ok E" and "length (db_GossipPool d) = 20" and "unat (db_ID d) < 20"
    and "kind \<noteq> 0 \<longrightarrow> tmparr \<noteq> [] \<and> (\<forall>m \<in> set tmparr. unat m < 20)"
  defines "ms \<equiv> (if kind = 0 then map of_nat [0..<20] else tmparr)"
    and "pool \<equiv> (db_GossipPool d)[unat (db_ID d) := 10000000]"
  shows "\<exists>m. GetGossipID E d kind tmparr = Some (m, d\<lparr>db_GossipPool := pool[unat m := pool ! unat m + 1]\<rparr>)
    \<and> m \<in> set ms \<and> (\<forall>x \<in> set ms. pool ! unat m \<le> pool ! unat x)"
proof -
  have ms: "ms \<noteq> []" "\<forall>m \<in> set ms. unat m < length pool"
    using assms(2,4) by (auto simp: ms_def pool_def unat_of_nat_u32)
  obtain k where k: "least_of pool ms = Some k" "\<forall>m \<in> set ms. k \<le> pool ! unat m" "\<exists>m \<in> set ms. k = pool ! unat m"
    using least_of_ok [OF ms] by blast
  let ?can = "filter (\<lambda>m. pool ! unat m = k) ms"
  have can: "?can \<noteq> []" using k(3) by (auto simp: filter_empty_conv)
  then have "env_intn E (length ?can) < length ?can" using assms(1) by (auto simp: env_ok_def)
  then obtain m where m: "idx ?can (env_intn E (length ?can)) = Some m" "m \<in> set ?can"
    by (metis idx_Some nth_mem)
  have p: "put_idx (db_GossipPool d) (unat (db_ID d)) 10000000 = Some pool"
    using assms(2,3) by (simp add: pool_def)
  have "GetGossipID E d kind tmparr = Some (m, d\<lparr>db_GossipPool := pool[unat m := pool ! unat m + 1]\<rparr>)"
    unfolding GetGossipID_def Let_def ShardSize_nat ms_def [symmetric] p k(1) m(1) option.case using can by simp
  then show ?thesis using m(2) k(2) by auto
qed

lemma missing_set: "unat ` set (missing ks) = {i. i < 20 \<and> i \<notin> set ks}" "missing ks = [] \<longleftrightarrow> {..<20} \<subseteq> set ks"
  by (force simp: missing_def unat_of_nat_u32 image_iff, auto simp: missing_def filter_empty_conv)

lemma GenerateGossipFir_ok:
  assumes "env_ok E" and inv: "fir_inv r d" and r: "unat round = r"
  defines "me \<equiv> unat (db_ID d)"
  shows "\<exists>d1. with_own E round d = Some d1 \<and> fir_inv r d1 \<and> db_ID d1 = db_ID d \<and> db_RepRound d1 = db_RepRound d
    \<and> (\<forall>i < 20. has_fir r d1 i \<longleftrightarrow> has_fir r d i \<or> i = me)
    \<and> (\<forall>i < 20. has_fir r d i \<or> i \<noteq> me \<longrightarrow> view_fir r d1 i = view_fir r d i)
    \<and> (\<not> has_fir r d me \<longrightarrow> rm_Round (view_fir r d1 me) = round)
    \<and> (if \<forall>i < 20. has_fir r d1 i then GenerateGossipFir E d round = Some (None, 0, d1)
       else \<exists>(m :: u32) pool. GenerateGossipFir E d round =
           Some (Some (let ks = filter (has_fir r d1) [0..<20]
                       in \<lparr>gf_ID = db_ID d, gf_Cnt = of_nat (length ks), gf_Data = map (view_fir r d1) ks\<rparr>),
                 int (unat m), d1\<lparr>db_GossipPool := pool\<rparr>)
         \<and> unat m < 20 \<and> \<not> has_fir r d1 (unat m) \<and> length pool = 20)"
proof -
  obtain d1 where d1: "with_own E round d = Some d1" "fir_inv r d1" "no_fir r d1 = no_fir r d"
    "\<forall>i < 20. has_fir r d1 i \<longleftrightarrow> has_fir r d i \<or> i = me"
    "\<forall>i < 20. has_fir r d i \<or> i \<noteq> me \<longrightarrow> view_fir r d1 i = view_fir r d i"
    "\<not> has_fir r d me \<longrightarrow> rm_Round (view_fir r d1 me) = round"
    using with_own_ok [OF inv r, of E] by (auto simp: me_def)
  have ID: "db_ID d1 = db_ID d" "db_RepRound d1 = db_RepRound d"
    using arg_cong [OF d1(3), of db_ID] arg_cong [OF d1(3), of db_RepRound] by (simp_all add: no_fir_def)
  have sh: "rep_shape d1" and r20: "r < 20" using d1(2) by (auto simp: fir_inv_def)
  then have t: "tab (db_RepFirSig d1)" "tab (db_RepFirMsg d1)" and pl: "length (db_GossipPool d1) = 20"
    and id20: "unat (db_ID d1) < 20" by (auto simp: rep_shape_def)
  let ?ks = "filter (has_fir r d1) [0..<20]"
  have ks: "known (db_RepFirSig d1) r = Some ?ks" using known_tab [OF t(1) r20] by (simp add: has_fir_def [abs_def])
  have g: "gather_fir d1 r ?ks = Some \<lparr>gf_ID = db_ID d, gf_Cnt = of_nat (length ?ks), gf_Data = map (view_fir r d1) ?ks\<rparr>"
    using gather_fir_tab [OF t(2) r20, of ?ks] ID by (auto simp: view_fir_def [abs_def])
  have gen: "if \<forall>i < 20. has_fir r d1 i then GenerateGossipFir E d round = Some (None, 0, d1)
     else \<exists>(m :: u32) pool. GenerateGossipFir E d round = Some (Some \<lparr>gf_ID = db_ID d, gf_Cnt = of_nat (length ?ks), gf_Data = map (view_fir r d1) ?ks\<rparr>,
                 int (unat m), d1\<lparr>db_GossipPool := pool\<rparr>) \<and> unat m < 20 \<and> \<not> has_fir r d1 (unat m) \<and> length pool = 20"
  proof (cases "\<forall>i < 20. has_fir r d1 i")
    case True
    then have "missing ?ks = []" by (auto simp: missing_set(2))
    then show ?thesis using True d1(1) ks g r by (simp add: GenerateGossipFir_def)
  next
    case False
    then have ne: "missing ?ks \<noteq> []" by (auto simp: missing_set(2))
    have mem: "unat m < 20 \<and> \<not> has_fir r d1 (unat m)" if "m \<in> set (missing ?ks)" for m
      using that missing_set(1) [of ?ks] by (auto simp: image_def)
    then have c: "(1 :: int) \<noteq> 0 \<longrightarrow> missing ?ks \<noteq> [] \<and> (\<forall>m \<in> set (missing ?ks). unat m < 20)" using ne by blast
    let ?p = "(db_GossipPool d1)[unat (db_ID d1) := 10000000]"
    obtain m where m: "GetGossipID E d1 1 (missing ?ks) = Some (m, d1\<lparr>db_GossipPool := ?p[unat m := ?p ! unat m + 1]\<rparr>)"
      "m \<in> set (missing ?ks)"
      using GetGossipID_ok [OF assms(1) pl id20 c] by (simp only: if_False one_neq_zero) blast
    define pool where "pool = ?p[unat m := ?p ! unat m + 1]"
    have "length pool = 20" using pl by (simp add: pool_def)
    with m have "GenerateGossipFir E d round = Some (Some \<lparr>gf_ID = db_ID d, gf_Cnt = of_nat (length ?ks), gf_Data = map (view_fir r d1) ?ks\<rparr>,
        int (unat m), d1\<lparr>db_GossipPool := pool\<rparr>)" "unat m < 20" "\<not> has_fir r d1 (unat m)" "length pool = 20"
      using d1(1) ks g ne r mem by (simp_all add: GenerateGossipFir_def pool_def)
    then show ?thesis unfolding if_not_P [OF False] by (intro exI [of _ m] exI [of _ pool] conjI)
  qed
  show ?thesis unfolding Let_def by (intro exI [of _ d1] conjI) (fact d1 ID gen)+
qed

text \<open>The views a message of \<open>view_fir r d\<close> carries.\<close>

lemma views_message:
  assumes "fir_inv r d" and "ks = filter P [0..<20]" and "\<forall>i < 20. P i \<longrightarrow> has_fir r d i"
  shows "\<forall>m \<in> set (map (view_fir r d) ks). fir_ok m" and "speaks (map (view_fir r d) ks) = {i. i < 20 \<and> P i}"
    and "unat (of_nat (length ks) :: u32) = length ks"
proof -
  have "unat (rm_ID (view_fir r d i)) = i \<and> RepMsg_Hash (view_fir r d i) \<noteq> None" if "i < 20" "P i" for i
    using assms(1,3) that by (auto simp: fir_inv_def)
  then show "\<forall>m \<in> set (map (view_fir r d) ks). fir_ok m" "speaks (map (view_fir r d) ks) = {i. i < 20 \<and> P i}"
    using assms(2) by (auto simp: fir_ok_def speaks_def image_image image_def)
  have "length ks \<le> 20" using length_filter_le [of P "[0..<20]"] assms(2) by simp
  then show "unat (of_nat (length ks) :: u32) = length ks" by (simp add: unat_of_nat_u32)
qed

lemma fir_inv_pool:
  "fir_inv r d \<Longrightarrow> length pool = 20 \<Longrightarrow> fir_inv r (d\<lparr>db_GossipPool := pool\<rparr>)"
  by (auto simp: fir_inv_def rep_shape_def round_defs)

lemma has_pool [simp]: "has_fir r (d\<lparr>db_GossipPool := p\<rparr>) = has_fir r d" "view_fir r (d\<lparr>db_GossipPool := p\<rparr>) = view_fir r d"
  by (simp_all add: round_defs fun_eq_iff)

text \<open>The views a node has of a round are views of that round.\<close>

definition rounds_ok :: "nat \<Rightarrow> 'd DbRef \<Rightarrow> bool" where
  "rounds_ok r d \<longleftrightarrow> (\<forall>i < 20. has_fir r d i \<longrightarrow> unat (rm_Round (view_fir r d i)) = r)"

lemma hd_map_all: "x \<in> set xs \<Longrightarrow> (\<And>y. y \<in> set xs \<Longrightarrow> P (f y)) \<Longrightarrow> map f xs \<noteq> [] \<and> P (hd (map f xs))"
  by (cases xs) auto

lemma exchange:
  assumes env: "env_ok Ea" and a: "fir_inv r a" "rounds_ok r a" "unat (db_RepRound a) < 20"
    and b: "fir_inv r b" "rounds_ok r b" "unat (db_RepRound b) < 20" and r: "unat round = r"
    and gen: "GenerateGossipFir Ea a round = Some (Some g, int (unat (db_ID b)), a1)"
  defines "K \<equiv> (\<lambda>i. has_fir r a i \<or> has_fir r b i \<or> i = unat (db_ID a) \<or> i = unat (db_ID b))"
  shows "\<exists>ans b' ans' a'. UpdateGossipFir Eb b g = Some (ans, b') \<and> gf_Data ans \<noteq> []
    \<and> UpdateGossipFir Ea a1 ans = Some (ans', a')
    \<and> (\<forall>i < 20. has_fir r b' i \<longleftrightarrow> K i) \<and> (\<forall>i < 20. has_fir r a' i \<longleftrightarrow> K i)"
proof -
  let ?ia = "unat (db_ID a)" and ?ib = "unat (db_ID b)"
  have i20: "?ia < 20" "?ib < 20" using a(1) b(1) by (auto simp: fir_inv_def rep_shape_def)
  obtain d1 where d1: "fir_inv r d1" "db_ID d1 = db_ID a" "db_RepRound d1 = db_RepRound a"
    and has1: "\<forall>i < 20. has_fir r d1 i \<longleftrightarrow> has_fir r a i \<or> i = ?ia"
    and view1: "\<forall>i < 20. has_fir r a i \<or> i \<noteq> ?ia \<longrightarrow> view_fir r d1 i = view_fir r a i"
    and rd1: "\<not> has_fir r a ?ia \<longrightarrow> rm_Round (view_fir r d1 ?ia) = round"
    and G: "if \<forall>i < 20. has_fir r d1 i then GenerateGossipFir Ea a round = Some (None, 0, d1)
       else \<exists>(m :: u32) pool. GenerateGossipFir Ea a round =
           Some (Some (let ks = filter (has_fir r d1) [0..<20]
                       in \<lparr>gf_ID = db_ID a, gf_Cnt = of_nat (length ks), gf_Data = map (view_fir r d1) ks\<rparr>),
                 int (unat m), d1\<lparr>db_GossipPool := pool\<rparr>)
         \<and> unat m < 20 \<and> \<not> has_fir r d1 (unat m) \<and> length pool = 20"
    using GenerateGossipFir_ok [OF env a(1) r] by blast
  let ?ks = "filter (has_fir r d1) [0..<20]"
  let ?g = "\<lparr>gf_ID = db_ID a, gf_Cnt = of_nat (length ?ks), gf_Data = map (view_fir r d1) ?ks\<rparr>"
  have "\<not> (\<forall>i < 20. has_fir r d1 i)"
  proof
    assume "\<forall>i < 20. has_fir r d1 i"
    from G [unfolded if_P [OF this]] gen show False by simp
  qed
  from G [unfolded if_not_P [OF this] Let_def] obtain m :: u32 and pool
    where "GenerateGossipFir Ea a round = Some (Some ?g, int (unat m), d1\<lparr>db_GossipPool := pool\<rparr>)"
      "\<not> has_fir r d1 (unat m)" "length pool = 20" by blast
  with gen have g: "g = ?g" and a1: "a1 = d1\<lparr>db_GossipPool := pool\<rparr>" "length pool = 20"
    and nb: "\<not> has_fir r d1 ?ib"
    by (simp_all add: word_uint_eq_iff [symmetric] split: prod.splits)
  have rd: "unat (rm_Round (view_fir r d1 i)) = r" if "i < 20" "has_fir r d1 i" for i
    using that a(2) has1 view1 rd1 r i20 by (cases "has_fir r a i") (auto simp: rounds_ok_def)
  note vm = views_message [OF d1(1) refl, of "has_fir r d1"]
  have ne: "?ia \<in> set ?ks" using has1 i20 by auto
  have hd: "gf_Data g \<noteq> []" "unat (rm_Round (hd (gf_Data g))) = r"
    using hd_map_all [OF ne, of "\<lambda>v. unat (rm_Round v) = r" "view_fir r d1"] rd g by simp_all
  have sp: "speaks (gf_Data g) = {i. i < 20 \<and> has_fir r d1 i}" and okg: "\<forall>m \<in> set (gf_Data g). fir_ok m"
    and lg: "length (gf_Data g) = unat (gf_Cnt g)" and idg: "unat (gf_ID g) < 20"
    using vm g i20 by simp_all
  obtain ans b' where B: "UpdateGossipFir Eb b g = Some (ans, b')" "fir_inv r b'"
    and hasb: "\<forall>i < 20. has_fir r b' i \<longleftrightarrow> has_fir r b i \<or> i = ?ib \<or> i \<in> speaks (gf_Data g)"
    and viewb: "\<forall>i < 20. has_fir r b i \<longrightarrow> view_fir r b' i = view_fir r b i"
    and rdb: "\<not> has_fir r b ?ib \<longrightarrow> unat (rm_Round (view_fir r b' ?ib)) = r"
    and ans: "ans = (let ks = filter (\<lambda>i. (has_fir r b i \<or> i = ?ib) \<and> i \<notin> speaks (gf_Data g)) [0..<20]
             in \<lparr>gf_ID = db_ID b, gf_Cnt = of_nat (length ks), gf_Data = map (view_fir r b') ks\<rparr>)"
    using UpdateGossipFir_ok [OF b(1) hd(1) lg okg hd(2) idg b(3), of Eb] by blast
  let ?P = "\<lambda>i. (has_fir r b i \<or> i = ?ib) \<and> i \<notin> speaks (gf_Data g)"
  let ?kb = "filter ?P [0..<20]"
  have ans': "ans = \<lparr>gf_ID = db_ID b, gf_Cnt = of_nat (length ?kb), gf_Data = map (view_fir r b') ?kb\<rparr>"
    using ans by (simp add: Let_def)
  have "\<forall>i < 20. ?P i \<longrightarrow> has_fir r b' i" using hasb by blast
  note vb = views_message [OF B(2) refl this]
  have rd': "unat (rm_Round (view_fir r b' i)) = r" if "i < 20" "?P i" for i
    using that b(2) viewb rdb by (cases "has_fir r b i") (auto simp: rounds_ok_def)
  have ib: "?ib \<in> set ?kb" using nb sp i20 by auto
  have hda: "gf_Data ans \<noteq> []" "unat (rm_Round (hd (gf_Data ans))) = r"
    using hd_map_all [OF ib, of "\<lambda>v. unat (rm_Round v) = r" "view_fir r b'"] rd' ans' by simp_all
  have spa: "speaks (gf_Data ans) = {i. i < 20 \<and> ?P i}" and oka: "\<forall>m \<in> set (gf_Data ans). fir_ok m"
    and la: "length (gf_Data ans) = unat (gf_Cnt ans)" and ida: "unat (gf_ID ans) < 20"
    using vb ans' i20 by simp_all
  have a1i: "fir_inv r a1" "unat (db_RepRound a1) < 20" using fir_inv_pool [OF d1(1) a1(2)] a1(1) d1(3) a(3) by simp_all
  obtain ans2 a2 where A: "UpdateGossipFir Ea a1 ans = Some (ans2, a2)"
    and hasa: "\<forall>i < 20. has_fir r a2 i \<longleftrightarrow> has_fir r a1 i \<or> i = unat (db_ID a1) \<or> i \<in> speaks (gf_Data ans)"
    using UpdateGossipFir_ok [OF a1i(1) hda(1) la oka hda(2) ida a1i(2), of Ea] by blast
  have "has_fir r b' i \<longleftrightarrow> K i" "has_fir r a2 i \<longleftrightarrow> K i" if "i < 20" for i
    using that hasb hasa sp spa has1 a1(1) d1(2) by (auto simp: K_def)
  with B A hda show ?thesis by blast
qed

section \<open>Properties\<close>

text \<open>C19: Gossip of the first phase refines the merging of sets of views. Taking in a message of
  well-formed views of an existing round, a node ends with the views it had, its own and those of the
  message: a known view is never replaced, a new one is the first the message has of its
  member, and a member is marked as Byzantine exactly when it was, or when the message has a
  view of it with another hash than the one the node keeps. The answer has the views the
  sender did not name, in the order of the members.\<close>

theorem gossip_refines_merge:
  assumes "fir_inv r d" and "gf_Data g \<noteq> []" and "length (gf_Data g) = unat (gf_Cnt g)"
    and "\<forall>m \<in> set (gf_Data g). fir_ok m" and "unat (rm_Round (hd (gf_Data g))) = r"
    and "unat (gf_ID g) < 20" and "unat (db_RepRound d) < 20"
  shows "\<exists>ans d'. UpdateGossipFir E d g = Some (ans, d') \<and> fir_inv r d'
    \<and> (\<forall>i < 20. has_fir r d' i \<longleftrightarrow> has_fir r d i \<or> i = unat (db_ID d) \<or> i \<in> speaks (gf_Data g))
    \<and> (\<forall>i < 20. has_fir r d i \<longrightarrow> view_fir r d' i = view_fir r d i)
    \<and> (\<forall>i < 20. \<not> has_fir r d i \<and> i \<noteq> unat (db_ID d) \<and> i \<in> speaks (gf_Data g) \<longrightarrow>
         List.find (\<lambda>m. unat (rm_ID m) = i) (gf_Data g) = Some (view_fir r d' i))
    \<and> (\<forall>i < 20. byz r d' i \<longleftrightarrow> byz r d i
         \<or> (\<exists>m \<in> set (gf_Data g). unat (rm_ID m) = i \<and> RepMsg_Hash m \<noteq> RepMsg_Hash (view_fir r d' i)))
    \<and> gf_Data ans = map (view_fir r d')
        (filter (\<lambda>i. (has_fir r d i \<or> i = unat (db_ID d)) \<and> i \<notin> speaks (gf_Data g)) [0..<20])"
proof -
  obtain ans d' where u: "UpdateGossipFir E d g = Some (ans, d')" "fir_inv r d'"
    and h: "\<forall>i < 20. has_fir r d' i \<longleftrightarrow> has_fir r d i \<or> i = unat (db_ID d) \<or> i \<in> speaks (gf_Data g)"
    and v: "\<forall>i < 20. has_fir r d i \<longrightarrow> view_fir r d' i = view_fir r d i"
    and f: "\<forall>i < 20. \<not> has_fir r d i \<and> i \<noteq> unat (db_ID d) \<and> i \<in> speaks (gf_Data g) \<longrightarrow>
         List.find (\<lambda>m. unat (rm_ID m) = i) (gf_Data g) = Some (view_fir r d' i)"
    and z: "\<forall>i < 20. byz r d' i \<longleftrightarrow> byz r d i
         \<or> (\<exists>m \<in> set (gf_Data g). unat (rm_ID m) = i \<and> RepMsg_Hash m \<noteq> RepMsg_Hash (view_fir r d' i))"
    and a: "ans = (let ks = filter (\<lambda>i. (has_fir r d i \<or> i = unat (db_ID d)) \<and> i \<notin> speaks (gf_Data g)) [0..<20]
             in \<lparr>gf_ID = db_ID d, gf_Cnt = of_nat (length ks), gf_Data = map (view_fir r d') ks\<rparr>)"
    using UpdateGossipFir_ok [OF assms, of E] by blast
  show ?thesis by (intro exI [of _ ans] exI [of _ d'] conjI, (fact u h v f z)+) (simp add: a Let_def)
qed

definition toy_env :: env where
  "toy_env = \<lparr>env_sign = toy_sign, env_verify = toy_verify, env_rnd = (\<lambda>_. 0), env_unix = (\<lambda>_. 0), env_gen = (\<lambda>_. 0),
     env_intn = (\<lambda>_. 0)\<rparr>"

lemma toy_env_ok: "env_ok toy_env"
  using toy_ecdsa by (simp add: env_ok_def toy_env_def)

text \<open>A node that has not heard of anybody.\<close>

definition sample_node :: "u32 \<Rightarrow> mem_db DbRef" where
  "sample_node i = (DbRef_zero chain_blank)\<lparr>db_ID := i, db_TBCache := Some []\<rparr>"

lemma tab_replicate [simp]: "tab (replicate 20 (replicate 20 x))"
  by (simp add: tab_def)

lemma members_nat [simp]: "unat (ShardSize * ShardCnt) = 20"
  by (simp add: ShardSize_def ShardCnt_def)

lemma sample_node_inv:
  assumes "unat i < 20" and "r < 20"
  shows "fir_inv r (sample_node i)" "rounds_ok r (sample_node i)" "db_RepRound (sample_node i) = 0" "db_ID (sample_node i) = i"
    "k < 20 \<Longrightarrow> \<not> has_fir r (sample_node i) k"
  using assms by (auto simp: fir_inv_def rep_shape_def rounds_ok_def sample_node_def DbRef_zero_def has_fir_def NumNewRep_def)

theorem gossip_refines_merge_witness:
  "\<exists>ans d'. UpdateGossipFir toy_env (sample_node 0) (GossipFirMsgMake sample_view) = Some (ans, d')
    \<and> has_fir 0 d' 0 \<and> has_fir 0 d' 1 \<and> \<not> has_fir 0 d' 2"
proof -
  let ?g = "GossipFirMsgMake sample_view"
  have g: "gf_Data ?g \<noteq> []" "length (gf_Data ?g) = unat (gf_Cnt ?g)" "unat (rm_Round (hd (gf_Data ?g))) = 0"
    "unat (gf_ID ?g) < 20" "speaks (gf_Data ?g) = {1}"
    by (simp_all add: GossipFirMsgMake_def sample_view_def RepMsg_zero_def speaks_def)
  have "RepMsg_Hash sample_view \<noteq> None"
    by (simp add: RepMsg_Hash_def RepMsg_data_def sample_view_def RepMsg_zero_def for_upto_def)
  then have ok: "\<forall>m \<in> set (gf_Data ?g). fir_ok m"
    by (simp add: GossipFirMsgMake_def fir_ok_def sample_view_def RepMsg_zero_def)
  have s: "fir_inv 0 (sample_node 0)" "unat (db_RepRound (sample_node 0)) < 20"
    using sample_node_inv [of 0 0] by simp_all
  from gossip_refines_merge [OF s(1) g(1,2) ok g(3,4) s(2), of toy_env]
  obtain ans d' where u: "UpdateGossipFir toy_env (sample_node 0) ?g = Some (ans, d')"
    and h: "\<forall>i < 20. has_fir 0 d' i \<longleftrightarrow> has_fir 0 (sample_node 0) i \<or> i = unat (db_ID (sample_node 0)) \<or> i \<in> speaks (gf_Data ?g)"
    by blast
  have "has_fir 0 d' 0" "has_fir 0 d' 1" "\<not> has_fir 0 d' 2"
    using h g(5) sample_node_inv(4) [of 0 0] sample_node_inv(5) [of 0 0 2] by auto
  with u show ?thesis by blast
qed

text \<open>C20: One exchange of the first phase makes both sides agree. When a node gossips, the member
  it chose takes the message in and answers with at least one view, the node takes the answer
  in, and then both know exactly the members that either of them knew, and each other.\<close>

theorem gossip_exchange:
  assumes "env_ok Ea" and "fir_inv r a" and "rounds_ok r a" and "unat (db_RepRound a) < 20"
    and "fir_inv r b" and "rounds_ok r b" and "unat (db_RepRound b) < 20" and "unat round = r"
    and "GenerateGossipFir Ea a round = Some (Some g, int (unat (db_ID b)), a1)"
  shows "\<exists>ans b' ans' a'. UpdateGossipFir Eb b g = Some (ans, b') \<and> gf_Data ans \<noteq> []
    \<and> UpdateGossipFir Ea a1 ans = Some (ans', a')
    \<and> (\<forall>i < 20. has_fir r b' i \<longleftrightarrow> has_fir r a i \<or> has_fir r b i \<or> i = unat (db_ID a) \<or> i = unat (db_ID b))
    \<and> (\<forall>i < 20. has_fir r a' i \<longleftrightarrow> has_fir r a i \<or> has_fir r b i \<or> i = unat (db_ID a) \<or> i = unat (db_ID b))"
  using exchange [OF assms] .

theorem gossip_exchange_witness:
  "\<exists>m g a1 ans b'. GenerateGossipFir toy_env (sample_node 0) 0 = Some (Some g, int (unat m), a1)
    \<and> UpdateGossipFir toy_env (sample_node m) g = Some (ans, b') \<and> gf_Data ans \<noteq> [] \<and> has_fir 0 b' 0"
proof -
  let ?a = "sample_node 0"
  have a: "fir_inv 0 ?a" "rounds_ok 0 ?a" "unat (db_RepRound ?a) < 20" "unat (0 :: u32) = 0" and ia: "db_ID ?a = 0"
    using sample_node_inv [of 0 0] by simp_all
  obtain d1 where has: "\<forall>i < 20. has_fir 0 d1 i \<longleftrightarrow> has_fir 0 ?a i \<or> i = unat (db_ID ?a)"
    and G: "if \<forall>i < 20. has_fir 0 d1 i then GenerateGossipFir toy_env ?a 0 = Some (None, 0, d1)
       else \<exists>(m :: u32) pool. GenerateGossipFir toy_env ?a 0 =
           Some (Some (let ks = filter (has_fir 0 d1) [0..<20]
                       in \<lparr>gf_ID = db_ID ?a, gf_Cnt = of_nat (length ks), gf_Data = map (view_fir 0 d1) ks\<rparr>),
                 int (unat m), d1\<lparr>db_GossipPool := pool\<rparr>)
         \<and> unat m < 20 \<and> \<not> has_fir 0 d1 (unat m) \<and> length pool = 20"
    using GenerateGossipFir_ok [OF toy_env_ok a(1,4)] by blast
  have "\<not> has_fir 0 d1 1" using has ia sample_node_inv(5) [of 0 0 1] by auto
  then have "\<not> (\<forall>i < 20. has_fir 0 d1 i)" by (metis one_less_numeral_iff semiring_norm(76))
  from G [unfolded if_not_P [OF this]] obtain m :: u32 and g a1
    where g: "GenerateGossipFir toy_env ?a 0 = Some (Some g, int (unat m), a1)" and m: "unat m < 20" by blast
  have b: "fir_inv 0 (sample_node m)" "rounds_ok 0 (sample_node m)" "unat (db_RepRound (sample_node m)) < 20"
    and ib: "db_ID (sample_node m) = m"
    using sample_node_inv [OF m, of 0] by simp_all
  have g': "GenerateGossipFir toy_env ?a 0 = Some (Some g, int (unat (db_ID (sample_node m))), a1)" using g ib by simp
  from gossip_exchange [OF toy_env_ok a(1-3) b a(4) g', of toy_env]
  obtain ans b' where u: "UpdateGossipFir toy_env (sample_node m) g = Some (ans, b')" "gf_Data ans \<noteq> []"
    and k: "\<forall>i < 20. has_fir 0 b' i \<longleftrightarrow> has_fir 0 ?a i \<or> has_fir 0 (sample_node m) i \<or> i = unat (db_ID ?a) \<or> i = unat (db_ID (sample_node m))"
    by blast
  have "has_fir 0 b' 0" using k ia by auto
  with g u show ?thesis by blast
qed

text \<open>C21: The bound on the round of a gossip message is off by one. The tables have rounds 0 to 19;
  a message of a later round is answered with nothing, but a message of round 20 passes the
  test and stops the node.\<close>

theorem gossip_round_limit:
  assumes "rep_shape d" and "unat (gf_ID g) < 20" and "unat (db_RepRound d) < 20" and "gf_Data g = m # ms"
  shows "(unat (rm_Round m) = 20 \<longrightarrow> UpdateGossipFir E d g = None)
    \<and> (unat (rm_Round m) > 20 \<longrightarrow> (\<exists>d'. UpdateGossipFir E d g = Some (\<lparr>gf_ID = db_ID d, gf_Cnt = 0, gf_Data = []\<rparr>, d')))"
proof -
  obtain t where t: "vote_for (gf_ID g) d = Some (d\<lparr>db_RepVote := t\<rparr>)"
    using vote_for_ok [of d "gf_ID g"] assms(1-3) by (auto simp: rep_shape_def)
  have "tab (db_RepFirSig d)" using assms(1) by (simp add: rep_shape_def)
  then have "unat (rm_Round m) = 20 \<longrightarrow> UpdateGossipFir E d g = None"
    using t assms(4) by (simp add: UpdateGossipFir_def idx_def with_own_def tab_cell NumNewRep_def)
  moreover have "unat (rm_Round m) > 20 \<longrightarrow> (\<exists>d'. UpdateGossipFir E d g = Some (\<lparr>gf_ID = db_ID d, gf_Cnt = 0, gf_Data = []\<rparr>, d'))"
    using t assms(4) by (simp add: UpdateGossipFir_def idx_def NumNewRep_def)
  ultimately show ?thesis ..
qed

theorem gossip_round_limit_witness:
  "UpdateGossipFir toy_env (sample_node 0) (GossipFirMsgMake (sample_view\<lparr>rm_Round := 20\<rparr>)) = None"
proof -
  let ?g = "GossipFirMsgMake (sample_view\<lparr>rm_Round := 20\<rparr>)"
  have s: "rep_shape (sample_node 0)" "unat (db_RepRound (sample_node 0)) < 20"
    using sample_node_inv [of 0 0] by (simp_all add: fir_inv_def)
  have g: "unat (gf_ID ?g) < 20" "gf_Data ?g = [sample_view\<lparr>rm_Round := 20\<rparr>]"
    by (simp_all add: GossipFirMsgMake_def sample_view_def RepMsg_zero_def)
  show ?thesis using gossip_round_limit [OF s(1) g(1) s(2) g(2), of toy_env] by simp
qed

lemma RepBlockMake_prev: "RepBlockMake F data input p = Some b \<Longrightarrow> rb_PrevHash b = p"
  by (auto simp: RepBlockMake_def Let_def split: option.splits)

text \<open>C22: The reputation block of a round is made exactly when the node has a countable view of
  every one of the twenty members: a zero view, of a member that was never heard of, panics. A
  block that is made carries the hash of the block of the round before, and its own hash is
  recorded for the next one.\<close>

theorem GetRepBlock_chain:
  assumes "rep_shape d" and "unat round < 20"
  shows "(GetRepBlock F d round = None \<longleftrightarrow> (\<exists>i < 20. \<not> view_ok (view_fir (unat round) d i)))
    \<and> (\<forall>b d'. GetRepBlock F d round = Some (b, d') \<longrightarrow>
      rb_PrevHash b = (if unat round = 0 then 0 else db_RepHash d ! (unat round - 1))
      \<and> db_RepHash d' = (db_RepHash d)[unat round := rb_Hash b])"
proof -
  let ?r = "unat round"
  have t: "tab (db_RepFirMsg d)" "tab (db_RepSecMsg d)" "length (db_RepHash d) = 20" using assms(1) by (auto simp: rep_shape_def)
  have row: "length (db_RepFirMsg d ! ?r) = 20" by (rule tab_row [OF t(1) assms(2)])
  have len: "length (db_RepFirMsg d) = 20" "length (db_RepSecMsg d) = 20" using t by (auto simp: tab_def)
  let ?p = "if ?r = 0 then 0 else db_RepHash d ! (?r - 1)"
  have u: "unat (round - 1) = ?r - 1" if "round > 0" using that by (simp add: unat_minus_one word_neq_0_conv)
  have z: "round > 0 \<longleftrightarrow> ?r \<noteq> 0" by (simp add: word_greater_zero_iff unat_eq_0)
  have e: "GetRepBlock F d round = map_option (\<lambda>b. (b, d\<lparr>db_RepHash := (db_RepHash d)[?r := rb_Hash b]\<rparr>))
      (RepBlockMake F (db_RepFirMsg d ! ?r) (db_RepSecMsg d ! ?r) ?p)"
    using assms(2) t(3) len u z by (auto simp: GetRepBlock_def Let_def idx_def put_idx_def split: option.splits)
  have "(\<exists>m \<in> set (db_RepFirMsg d ! ?r). \<not> view_ok m) \<longleftrightarrow> (\<exists>i < 20. \<not> view_ok (view_fir ?r d i))"
    using row by (metis in_set_conv_nth view_fir_def)
  moreover have "db_RepFirMsg d ! ?r \<noteq> []" using row by auto
  ultimately have "GetRepBlock F d round = None \<longleftrightarrow> (\<exists>i < 20. \<not> view_ok (view_fir ?r d i))"
    using row by (simp add: e RepBlockMake_none)
  moreover have "rb_PrevHash b = ?p \<and> db_RepHash d' = (db_RepHash d)[?r := rb_Hash b]"
    if "GetRepBlock F d round = Some (b, d')" for b d'
    using that by (auto simp: e dest: RepBlockMake_prev)
  ultimately show ?thesis by blast
qed

definition toy_float64 :: "int float64" where
  "toy_float64 = \<lparr>d_of = (\<lambda>w. uint w), d_to = (\<lambda>x. of_int x), d_add = (+), d_sub = (-), d_mul = (*), d_div = (div),
     d_sqrt = (\<lambda>x. x), d_is0 = (\<lambda>x. x = 0)\<rparr>"

theorem GetRepBlock_chain_witness: "GetRepBlock toy_float64 (sample_node 0) 0 = None"
proof -
  have s: "rep_shape (sample_node 0)" "unat (0 :: u32) < 20" using sample_node_inv [of 0 0] by (simp_all add: fir_inv_def)
  have "\<not> view_ok (view_fir 0 (sample_node 0) 0)"
    by (simp add: view_ok_def view_fir_def sample_node_def DbRef_zero_def NumNewRep_def RepMsg_zero_def)
  then have "\<exists>i < 20. \<not> view_ok (view_fir (unat (0 :: u32)) (sample_node 0) i)" by (intro exI [of _ 0]) simp
  then show ?thesis using GetRepBlock_chain [OF s, of toy_float64] by blast
qed

end
