(* ===== verification/Packets.thy ===== *)
theory Packets
  imports Codec
begin

text \<open>
  Commands and small packets (\<open>testforclient/network\<close>): the sixteen bytes in front of every
  message, the queries for what a member missed, the receipts and the batches of transactions.
\<close>

section \<open>Commands (\<open>client.go\<close>)\<close>

definition commandLength :: nat where "commandLength = 16"

text \<open>The command is copied into a zero array of sixteen bytes; a longer one panics. All commands
  are literals of ASCII characters.\<close>

definition commandToBytes :: "string \<Rightarrow> bytes option" where
  "commandToBytes c =
     (if length c > commandLength then None
      else Some (map of_char c @ replicate (commandLength - length c) 0))"

definition bytesToCommand :: "bytes \<Rightarrow> string" where
  "bytesToCommand bs = map (\<lambda>b. char_of (unat b)) (filter (\<lambda>b. b \<noteq> 0) bs)"

text \<open>What \<open>sendTxMessage\<close> hands to \<open>sendData\<close>, and how \<open>StartServer\<close> takes it apart. A packet
  shorter than the command is skipped; the command is only cut off when something follows it.\<close>

definition request_of :: "string \<Rightarrow> bytes \<Rightarrow> bytes option" where
  "request_of command message = map_option (\<lambda>c. c @ message) (commandToBytes command)"

definition split_request :: "bytes \<Rightarrow> (string \<times> bytes) option" where
  "split_request request =
     (if length request < commandLength then None
      else Some (bytesToCommand (take commandLength request),
                 if length request > commandLength then drop commandLength request else request))"

section \<open>Queries (\<open>TransactionProtocolMiner.go\<close>)\<close>

text \<open>The decoders of this section work on a copy, and leave the buffer of the caller alone.\<close>

definition peekD :: "'v dec \<Rightarrow> 'v dec" where
  "peekD d v b = (case d v b of DOk v' _ \<Rightarrow> DOk v' b | DErr v' _ e \<Rightarrow> DErr v' b e | DPanic \<Rightarrow> DPanic)"

record QTL =
  qtl_ID :: u32
  qtl_Round :: u32

record QTDS =
  qtds_ID :: u32
  qtds_Round :: u32

record QTB =
  qtb_ID :: u32
  qtb_Round :: u32

definition QTL_Encode :: "QTL \<Rightarrow> bytes option" where
  "QTL_Encode a = seq_opt (map Encode [VU32 (qtl_ID a), VU32 (qtl_Round a)])"

definition QTDS_Encode :: "QTDS \<Rightarrow> bytes option" where
  "QTDS_Encode a = seq_opt (map Encode [VU32 (qtds_ID a), VU32 (qtds_Round a)])"

definition QTB_Encode :: "QTB \<Rightarrow> bytes option" where
  "QTB_Encode a = seq_opt (map Encode [VU32 (qtb_ID a), VU32 (qtb_Round a)])"

definition QTL_Decode :: "QTL dec" where
  "QTL_Decode = peekD (steps [fieldS qtl_ID qtl_ID_update (\<lambda>_. Decode_u32),
                              fieldS qtl_Round qtl_Round_update (\<lambda>_. Decode_u32)])"

definition QTDS_Decode :: "QTDS dec" where
  "QTDS_Decode = peekD (steps [fieldS qtds_ID qtds_ID_update (\<lambda>_. Decode_u32),
                               fieldS qtds_Round qtds_Round_update (\<lambda>_. Decode_u32)])"

definition QTB_Decode :: "QTB dec" where
  "QTB_Decode = peekD (steps [fieldS qtb_ID qtb_ID_update (\<lambda>_. Decode_u32),
                              fieldS qtb_Round qtb_Round_update (\<lambda>_. Decode_u32)])"

section \<open>Receipts and batches (\<open>TransactionProtocol.go\<close>, \<open>TxMMProtocol.go\<close>)\<close>

record txDecRev =
  rev_ID :: u32
  rev_Round :: u32

definition txDecRev_Encode :: "txDecRev \<Rightarrow> bytes option" where
  "txDecRev_Encode a = seq_opt (map Encode [VU32 (rev_ID a), VU32 (rev_Round a)])"

definition txDecRev_Decode :: "txDecRev dec" where
  "txDecRev_Decode = steps [fieldS rev_ID rev_ID_update (\<lambda>_. Decode_u32),
                            fieldS rev_Round rev_Round_update (\<lambda>_. Decode_u32)]"

record TxBatchInfo =
  bi_ID :: u32
  bi_ShardID :: u32
  bi_Epoch :: u32
  bi_Round :: u32
  bi_Data :: bytes

definition TxBatchInfo_Encode :: "TxBatchInfo \<Rightarrow> bytes option" where
  "TxBatchInfo_Encode a = seq_opt (map Encode [VU32 (bi_ID a), VU32 (bi_ShardID a), VU32 (bi_Epoch a),
     VU32 (bi_Round a), PSlice (bi_Data a)])"

definition TxBatchInfo_Decode :: "TxBatchInfo dec" where
  "TxBatchInfo_Decode = peekD (steps
     [fieldS bi_ID bi_ID_update (\<lambda>_. Decode_u32), fieldS bi_ShardID bi_ShardID_update (\<lambda>_. Decode_u32),
      fieldS bi_Epoch bi_Epoch_update (\<lambda>_. Decode_u32), fieldS bi_Round bi_Round_update (\<lambda>_. Decode_u32),
      fieldS bi_Data bi_Data_update (\<lambda>_. DecodeByte)])"

text \<open>A request for blocks. The address is encoded by value, and is therefore sent without its
  length; shard and height are \<open>int\<close>.\<close>

record TxBRequestInfo =
  br_Address :: string
  br_Shard :: int
  br_Height :: int

definition TxBRequestInfo_Encode :: "TxBRequestInfo \<Rightarrow> bytes option" where
  "TxBRequestInfo_Encode a = seq_opt (map Encode [VSlice (map of_char (br_Address a)),
     VInt (br_Height a), VInt (br_Shard a)])"

definition TxBRequestInfo_Decode :: "TxBRequestInfo dec" where
  "TxBRequestInfo_Decode a buf =
     (case DecodeByte [] buf of DPanic \<Rightarrow> DPanic
      | DErr _ b e \<Rightarrow> DErr a b e
      | DOk xxx b \<Rightarrow> steps [fieldS br_Height br_Height_update (\<lambda>_. Decode_other),
                           fieldS br_Shard br_Shard_update (\<lambda>_. Decode_other)]
                    (a\<lparr>br_Address := map (\<lambda>c. char_of (unat c)) xxx\<rparr>) b)"

section \<open>Round trips\<close>

lemma unat_of_char [simp]: "unat (of_char c :: byte) = of_char c"
proof -
  have "(of_char c :: byte) = of_nat (of_char c)" by (simp add: of_nat_of_char)
  moreover have "(of_char c :: nat) < 256" by (rule nat_of_char_less_256)
  ultimately show ?thesis by (simp add: unat_of_nat del: of_nat_of_char)
qed

lemma commandToBytes_length: "commandToBytes c = Some bs \<Longrightarrow> length bs = commandLength"
  by (auto simp: commandToBytes_def split: if_splits)

lemma map_char_of_char: "map (\<lambda>b. char_of (unat b)) (map (of_char :: char \<Rightarrow> byte) cs) = cs"
  by (induction cs) simp_all

lemma of_char_zero: "(of_char c :: byte) = 0 \<longleftrightarrow> c = CHR 0x00"
proof
  assume "(of_char c :: byte) = 0"
  then have "(of_char c :: nat) = 0" by (simp flip: unat_of_char)
  then show "c = CHR 0x00" using char_of_char [of c, where ?'a = nat] by (simp add: char_of_def)
qed simp

lemma bytesToCommand_bytes:
  assumes "commandToBytes c = Some bs" and "CHR 0x00 \<notin> set c"
  shows "bytesToCommand bs = c"
proof -
  have "filter (\<lambda>b. b \<noteq> 0) (map of_char c @ replicate n 0) = map (of_char :: char \<Rightarrow> byte) c" for n
    using assms(2) by (auto simp: filter_id_conv of_char_zero)
  then show ?thesis
    using assms(1) by (auto simp: commandToBytes_def bytesToCommand_def map_char_of_char simp del: map_map split: if_splits)
qed

lemma split_request_of:
  assumes "request_of c m = Some r" and "CHR 0x00 \<notin> set c" and "m \<noteq> []"
  shows "split_request r = Some (c, m)"
  using assms by (auto simp: request_of_def split_request_def commandToBytes_length bytesToCommand_bytes)

lemma QTL_Decode_enc: "QTL_Encode a = Some e \<Longrightarrow> length r + 8 < 2 ^ 32 \<Longrightarrow> QTL_Decode z (e @ r) = DOk a (e @ r)"
  by (auto simp: QTL_Encode_def QTL_Decode_def peekD_def fieldS_def seq_opt_Cons_Some)

lemma QTDS_Decode_enc: "QTDS_Encode a = Some e \<Longrightarrow> length r + 8 < 2 ^ 32 \<Longrightarrow> QTDS_Decode z (e @ r) = DOk a (e @ r)"
  by (auto simp: QTDS_Encode_def QTDS_Decode_def peekD_def fieldS_def seq_opt_Cons_Some)

lemma QTB_Decode_enc: "QTB_Encode a = Some e \<Longrightarrow> length r + 8 < 2 ^ 32 \<Longrightarrow> QTB_Decode z (e @ r) = DOk a (e @ r)"
  by (auto simp: QTB_Encode_def QTB_Decode_def peekD_def fieldS_def seq_opt_Cons_Some)

interpretation rev_codec: codec "\<lambda>_. True" txDecRev_Encode txDecRev_Decode id "\<lparr>rev_ID = 0, rev_Round = 0\<rparr>"
  by unfold_locales
    (auto simp: txDecRev_Encode_def txDecRev_Decode_def fieldS_def seq_opt_Cons_Some)

lemma TxBatchInfo_Decode_enc:
  "TxBatchInfo_Encode a = Some e \<Longrightarrow> length (e @ r) < 2 ^ 32 \<Longrightarrow> TxBatchInfo_Decode z (e @ r) = DOk a (e @ r)"
  by (auto simp: TxBatchInfo_Encode_def TxBatchInfo_Decode_def peekD_def fieldS_def seq_opt_Cons_Some)

text \<open>A request for blocks is never read: the fields of type \<open>int\<close> are not sent, and cannot be
  decoded.\<close>

lemma TxBRequestInfo_never: "TxBRequestInfo_Decode a buf = DPanic \<or> (\<exists>b r e. TxBRequestInfo_Decode a buf = DErr b r e)"
  by (auto simp: TxBRequestInfo_Decode_def fieldS_def Decode_other_def split: dres.splits)

end
