(* ===== verification/Network.thy ===== *)
theory Network
  imports Gossip Packets
begin

text \<open>
  The handlers of a node (\<open>testforclient/network\<close>): what it does with a packet, as a function of
  its state that also gives the actions it causes. An action is a packet sent, a value put into
  a channel, or a goroutine started. Where a handler waits on channels it is cut in two, and the
  channels it waits for are a definition of their own. Handlers run one at a time (the lock
  \<open>Mu\<close> covers what they do to the state); \<open>None\<close> is a panic, which in a goroutine stops the
  whole node. The flag \<open>startDone\<close> is set before the server starts; only
  \<open>SyncProcess\<close>, which the main loop does not call, clears it.
\<close>

section \<open>State and actions\<close>

text \<open>\<open>CacheDbRef\<close>, \<open>CurrentEpoch\<close>, \<open>BatchCache\<close> and the two flags the server looks at.\<close>

record 'd Net =
  nt_Db :: "'d DbRef"
  nt_Epoch :: int
  nt_BatchCache :: "TxBatchInfo list list"
  nt_CoSiFlag :: bool
  nt_SyncFlag :: bool

datatype chan = TLChan nat | TDSChan nat | TBChan nat | TBBChan nat | StartLastTxBlock | CheckChan

datatype proc = SendTxListP bytes u32 | SendTxDecSetInShardP bytes u32 u32 | SendTxDecSetP "bytes list" u32 u32
  | SendTxBlockP bytes int u32 | TxListProcessP | TxNormalBlockP u32 | NewRepProcessP u32 | HandleTxLoopMinerP u32 | QueryTLP u32 | QueryTDSP u32 | QueryTBP u32

datatype act = Send string bytes | Signal chan int | SignalRev nat txDecRev | SignalTxM nat txDecRev | Spawn proc

type_synonym 'd handled = "(error option \<times> act list \<times> 'd Net) option"

definition set_db :: "'d DbRef \<Rightarrow> 'd Net \<Rightarrow> 'd Net" where
  "set_db d n = n\<lparr>nt_Db := d\<rparr>"

text \<open>A channel of an array with \<open>NumTxListPerEpoch\<close> elements.\<close>

definition chan_at :: "(nat \<Rightarrow> 'c) \<Rightarrow> u32 \<Rightarrow> 'c option" where
  "chan_at c i = (if unat i < NumTxListPerEpoch then Some (c (unat i)) else None)"

text \<open>\<open>sendTxMessage(shard.GlobalGroupMems[i].Address, command, message)\<close>\<close>

definition send_to :: "Group \<Rightarrow> nat \<Rightarrow> string \<Rightarrow> bytes \<Rightarrow> act option" where
  "send_to G i command message =
     (case (idx (gr_Mems G) i, request_of command message) of
        (Some m, Some r) \<Rightarrow> Some (Send (mem_Address m) r) | _ \<Rightarrow> None)"

text \<open>The members of the own shard but the node itself get the packet, in the order \<open>ks\<close> of
  their places.\<close>

definition shard_row :: "Group \<Rightarrow> 'd DbRef \<Rightarrow> int list option" where
  "shard_row G d = idx (gr_ShardToGlobal G) (unat (db_ShardNum d))"

definition broadcast :: "Group \<Rightarrow> 'd DbRef \<Rightarrow> string \<Rightarrow> bytes \<Rightarrow> nat list \<Rightarrow> act list option" where
  "broadcast G d command message ks =
     map_option concat (those (map (\<lambda>i. case shard_row G d of None \<Rightarrow> None
       | Some row \<Rightarrow> (case idx row i of None \<Rightarrow> None
           | Some xx \<Rightarrow> if xx \<noteq> int (unat (db_ID d))
               then (if xx < 0 then None else map_option (\<lambda>a. [a]) (send_to G (nat xx) command message))
               else Some [])) ks))"

section \<open>Gossip (\<open>newRepProtocol.go\<close>)\<close>

text \<open>A round starts with its marks cleared; the views themselves stay.\<close>

definition clear_round :: "u32 \<Rightarrow> 'd DbRef \<Rightarrow> 'd DbRef option" where
  "clear_round round d = ofold (\<lambda>i d. case (set_cell (db_RepByz d) (unat round) i False,
       set_cell (db_RepFirSig d) (unat round) i False, set_cell (db_RepSecSig d) (unat round) i False) of
       (Some b, Some f, Some s) \<Rightarrow> Some (d\<lparr>db_RepByz := b, db_RepFirSig := f, db_RepSecSig := s\<rparr>) | _ \<Rightarrow> None)
     members d"

text \<open>The loop of the gossip starts one process for every round, a minute apart.\<close>

definition RepGossipLoop :: "act list" where
  "RepGossipLoop = map (\<lambda>i. Spawn (NewRepProcessP (of_nat i))) [0..<NumNewRep]"

text \<open>One pass of the two loops of such a process: the flag says whether the loop goes on.\<close>

definition FirPass :: "env \<Rightarrow> Group \<Rightarrow> u32 \<Rightarrow> 'd Net \<Rightarrow> (bool \<times> act list \<times> 'd Net) option" where
  "FirPass E G round n =
     (case GenerateGossipFir E (nt_Db n) round of None \<Rightarrow> None
      | Some (None, _, d) \<Rightarrow> Some (False, [], set_db d n)
      | Some (Some g, dest, d) \<Rightarrow>
        (case (idx (gf_Data g) 0, GossipFirMsg_Encode g) of
           (Some _, Some data) \<Rightarrow> map_option (\<lambda>a. (True, [a], set_db d n)) (send_to G (nat dest) ''GossipFirSend'' data)
         | _ \<Rightarrow> None))"

definition SecPass :: "env \<Rightarrow> Group \<Rightarrow> u32 \<Rightarrow> 'd Net \<Rightarrow> (bool \<times> act list \<times> 'd Net) option" where
  "SecPass E G round n =
     (case GenerateGossipSec E (nt_Db n) round of None \<Rightarrow> None
      | Some (None, _, d) \<Rightarrow> Some (False, [], set_db d n)
      | Some (Some g, dest, d) \<Rightarrow>
        (case (idx (gs_Data g) 0, GossipSecMsg_Encode g) of
           (Some _, Some data) \<Rightarrow> map_option (\<lambda>a. (True, [a], set_db d n)) (send_to G (nat dest) ''GossipSecSend'' data)
         | _ \<Rightarrow> None))"

text \<open>The log line reads the first view of the message, and of the answer.\<close>

definition HandleGossipFirSend :: "env \<Rightarrow> Group \<Rightarrow> bytes \<Rightarrow> 'd Net \<Rightarrow> 'd handled" where
  "HandleGossipFirSend E G data n =
     (case GossipFirMsg_Decode GossipFirMsg_zero data of
        DPanic \<Rightarrow> None
      | DErr _ _ e \<Rightarrow> Some (Some e, [], n)
      | DOk tmp _ \<Rightarrow>
        (case idx (gf_Data tmp) 0 of None \<Rightarrow> None
         | Some _ \<Rightarrow>
           (case UpdateGossipFir E (nt_Db n) tmp of None \<Rightarrow> None
            | Some (ans, d) \<Rightarrow>
              (case (idx (gf_Data ans) 0, GossipFirMsg_Encode ans) of
                 (Some _, Some out) \<Rightarrow>
                   map_option (\<lambda>a. (None, [a], set_db d n)) (send_to G (unat (gf_ID tmp)) ''GossipFirRev'' out)
               | _ \<Rightarrow> None))))"

definition HandleGossipFirRev :: "env \<Rightarrow> bytes \<Rightarrow> 'd Net \<Rightarrow> 'd handled" where
  "HandleGossipFirRev E data n =
     (case GossipFirMsg_Decode GossipFirMsg_zero data of
        DPanic \<Rightarrow> None
      | DErr _ _ e \<Rightarrow> Some (Some e, [], n)
      | DOk tmp _ \<Rightarrow>
        (case idx (gf_Data tmp) 0 of None \<Rightarrow> None
         | Some _ \<Rightarrow> map_option (\<lambda>(_, d). (None, [], set_db d n)) (UpdateGossipFir E (nt_Db n) tmp)))"

text \<open>The answer of the second phase is sent when it has anything in it.\<close>

definition sec_answer :: "Group \<Rightarrow> GossipSecMsg \<Rightarrow> GossipSecMsg \<Rightarrow> 'd Net \<Rightarrow> 'd handled" where
  "sec_answer G tmp ans n =
     (if gs_Cnt ans > 0
      then (case GossipSecMsg_Encode ans of None \<Rightarrow> None
        | Some out \<Rightarrow> map_option (\<lambda>a. (None, [a], n)) (send_to G (unat (gs_ID tmp)) ''GossipSecRev'' out))
      else Some (None, [], n))"

text \<open>A node whose own list of views is not ready yet waits for it, and takes the message in
  again. The first result is what is left to do then.\<close>

definition HandleGossipSecSend ::
  "env \<Rightarrow> Group \<Rightarrow> bytes \<Rightarrow> 'd Net \<Rightarrow> (GossipSecMsg option \<times> error option \<times> act list \<times> 'd Net) option" where
  "HandleGossipSecSend E G data n =
     (case GossipSecMsg_Decode GossipSecMsg_zero data of
        DPanic \<Rightarrow> None
      | DErr _ _ e \<Rightarrow> Some (None, Some e, [], n)
      | DOk tmp _ \<Rightarrow>
        (case idx (gs_Data tmp) 0 of None \<Rightarrow> None
         | Some _ \<Rightarrow>
           (case UpdateGossipSec E (nt_Db n) tmp of None \<Rightarrow> None
            | Some (ans, state, d) \<Rightarrow>
              if state = 0 then Some (Some tmp, None, [], set_db d n)
              else map_option (Pair None) (sec_answer G tmp ans (set_db d n)))))"

definition HandleGossipSecSend_ready :: "env \<Rightarrow> Group \<Rightarrow> GossipSecMsg \<Rightarrow> 'd Net \<Rightarrow> 'd handled" where
  "HandleGossipSecSend_ready E G tmp n =
     (case UpdateGossipSec E (nt_Db n) tmp of None \<Rightarrow> None
      | Some (ans, _, d) \<Rightarrow> sec_answer G tmp ans (set_db d n))"

definition HandleGossipSecRev :: "env \<Rightarrow> bytes \<Rightarrow> 'd Net \<Rightarrow> 'd handled" where
  "HandleGossipSecRev E data n =
     (case GossipSecMsg_Decode GossipSecMsg_zero data of
        DPanic \<Rightarrow> None
      | DErr _ _ e \<Rightarrow> Some (Some e, [], n)
      | DOk tmp _ \<Rightarrow>
        (case idx (gs_Data tmp) 0 of None \<Rightarrow> None
         | Some _ \<Rightarrow> map_option (\<lambda>(_, _, d). (None, [], set_db d n)) (UpdateGossipSec E (nt_Db n) tmp)))"

section \<open>Spreading lists, sets and blocks (\<open>TransactionProtocol.go\<close>)\<close>

text \<open>A packet is sent once for every level, to the member that got fewest so far; \<open>enc i\<close> is the
  packet with level \<open>i\<close>.\<close>

fun relay :: "(u32 \<Rightarrow> bytes option) \<Rightarrow> env \<Rightarrow> Group \<Rightarrow> string \<Rightarrow> nat \<Rightarrow> 'd DbRef \<Rightarrow> (act list \<times> 'd DbRef) option" where
  "relay enc E G command 0 d = Some ([], d)"
| "relay enc E G command (Suc i) d =
     (case GetGossipID E d 0 [] of None \<Rightarrow> None
      | Some (dest, d1) \<Rightarrow>
        (case enc (of_nat (Suc i)) of None \<Rightarrow> None
         | Some data \<Rightarrow>
           (case send_to G (unat dest) command data of None \<Rightarrow> None
            | Some a \<Rightarrow> map_option (\<lambda>(as, d2). (a # as, d2)) (relay enc E G command i d1))))"

text \<open>A packet that cannot be decoded is reported, and what was decoded of it is sent.\<close>

definition SendTxList :: "env \<Rightarrow> Group \<Rightarrow> bytes \<Rightarrow> u32 \<Rightarrow> 'd Net \<Rightarrow> 'd handled" where
  "SendTxList E G data level n =
     (case dres_val (TxList_Decode TxList_zero data) of None \<Rightarrow> None
      | Some tmp \<Rightarrow> map_option (\<lambda>(as, d). (None, as, set_db d n))
          (relay (\<lambda>i. TxList_Encode (tmp\<lparr>tl_Sender := db_ID (nt_Db n), tl_Level := i\<rparr>)) E G ''TxList'' (unat level) (nt_Db n)))"

definition SendTxDecSetInShard :: "env \<Rightarrow> Group \<Rightarrow> bytes \<Rightarrow> u32 \<Rightarrow> u32 \<Rightarrow> 'd Net \<Rightarrow> 'd handled" where
  "SendTxDecSetInShard E G data round level n =
     (case dres_val (TxDecSet_Decode TxDecSet_zero data) of None \<Rightarrow> None
      | Some tmp \<Rightarrow> map_option (\<lambda>(as, d). (None, as, set_db d n))
          (relay (\<lambda>i. TxDecSet_Encode (tmp\<lparr>tds_Sender := db_ID (nt_Db n), tds_Level := i\<rparr>)) E G ''TxDecSetM'' (unat level) (nt_Db n)))"

definition SendTxDecSet :: "bytes list \<Rightarrow> u32 \<Rightarrow> u32 \<Rightarrow> 'd Net \<Rightarrow> 'd handled" where
  "SendTxDecSet data round level n = map_option (\<lambda>x. (None, [Spawn (SendTxDecSetInShardP x round level)], n))
     (idx data (unat (db_ShardNum (nt_Db n))))"

definition SendTxBlock :: "env \<Rightarrow> Group \<Rightarrow> bytes \<Rightarrow> int \<Rightarrow> u32 \<Rightarrow> 'd Net \<Rightarrow> 'd handled" where
  "SendTxBlock E G data kind level n =
     (case dres_val (TxBlock_Decode kind TxBlock_zero data) of None \<Rightarrow> None
      | Some tmp \<Rightarrow> map_option (\<lambda>(as, d). (None, as, set_db d n))
          (relay (\<lambda>i. TxBlock_Encode (tmp\<lparr>tb_Sender := db_ID (nt_Db n), tb_Level := i\<rparr>) kind) E G ''TxB'' (unat level) (nt_Db n)))"

section \<open>The round of a leader\<close>

definition GossipRound :: u32 where "GossipRound = 5"

text \<open>The loop of the leader opens one round after the other, at intervals.\<close>

definition TxGeneralLoop :: "'d Net \<Rightarrow> (act list \<times> 'd Net) option" where
  "TxGeneralLoop n =
     map_option (\<lambda>d. (replicate NumTxListPerEpoch (Spawn TxListProcessP), set_db d n))
       (if db_Now (nt_Db n) = None then map_option snd (NewTxList (nt_Db n)) else Some (nt_Db n))"

text \<open>A round is opened: what was voted so far goes out, and the next list is started.\<close>

definition TxListProcess_open :: "env \<Rightarrow> 'd Net \<Rightarrow> (nat \<times> u32 \<times> act list \<times> 'd Net) option" where
  "TxListProcess_open E n =
     (case BuildTDS E (nt_Db n) of None \<Rightarrow> None
      | Some d \<Rightarrow>
        (case db_Now d of None \<Rightarrow> None
         | Some p \<Rightarrow>
           (case map_option tg_TLS (group_at d p) of None \<Rightarrow> None
            | Some ls \<Rightarrow>
              (case idx ls (unat (db_ShardNum d)) of None \<Rightarrow> None
               | Some l \<Rightarrow>
                 (let thisround = tl_Round l in
                  case (TxList_Encode l, put_idx (db_TLCheck d) (unat thisround) True,
                        put_idx (db_TLSCache d) (unat thisround) (Some l)) of
                    (Some data1, Some chk, Some c) \<Rightarrow>
                      map_option (\<lambda>(_, d2). (p, thisround, [Spawn (SendTxListP data1 GossipRound)], set_db d2 n))
                        (NewTxList (d\<lparr>db_TLCheck := chk, db_TLSCache := c\<rparr>))
                  | _ \<Rightarrow> None)))))"

text \<open>The decisions are awaited until all members answered or one minute passed without any;
  \<open>Some _\<close> is an answer, \<open>None\<close> the timeout. The result is the number counted, and whether the
  loop is over.\<close>

fun await_decisions :: "u32 option list \<Rightarrow> nat \<Rightarrow> nat \<times> bool" where
  "await_decisions es cnt =
     (if cnt < unat ShardSize
      then (case es of [] \<Rightarrow> (cnt, False) | None # _ \<Rightarrow> (cnt, True) | Some _ # es' \<Rightarrow> await_decisions es' (cnt + 1))
      else (cnt, True))"

text \<open>\<open>TDSCnt[i]++\<close> and the count of the shards that are not ready.\<close>

definition count_TDS :: "u32 \<Rightarrow> 'd DbRef \<Rightarrow> (bool \<times> 'd DbRef) option" where
  "count_TDS s d =
     (case idx (db_TDSCnt d) (unat s) of None \<Rightarrow> None
      | Some c \<Rightarrow>
        let d1 = d\<lparr>db_TDSCnt := (db_TDSCnt d)[unat s := c + 1]\<rparr> in
        Some (if c + 1 = int NumTxListPerEpoch
              then let d2 = d1\<lparr>db_TDSNotReady := db_TDSNotReady d1 - 1\<rparr> in (db_TDSNotReady d2 = 0, d2)
              else (False, d1)))"

text \<open>The channel the leader waits for before it closes a round.\<close>

definition TxListProcess_waits :: "u32 \<Rightarrow> 'd DbRef \<Rightarrow> chan list option" where
  "TxListProcess_waits thisround d =
     (if thisround - db_PrevHeight d \<noteq> 0
      then map_option (\<lambda>c. [c]) (chan_at TBChan (thisround - db_PrevHeight d - 1)) else Some [])"

definition TxListProcess_close :: "env \<Rightarrow> Group \<Rightarrow> nat \<Rightarrow> u32 \<Rightarrow> 'd Net \<Rightarrow> (act list \<times> 'd Net) option" where
  "TxListProcess_close E G p thisround n =
     (case SignTDS E (nt_Db n) p of None \<Rightarrow> None
      | Some d \<Rightarrow>
        (let r = thisround - db_PrevHeight d; me = unat (db_ShardNum d) in
         case group_at d p of None \<Rightarrow> None
         | Some g \<Rightarrow>
           (case (idx (tg_TDS g) me, idx (db_RepCache d) (unat r)) of
              (Some s, Some _) \<Rightarrow>
                (case (ProcessTDS G d s, those (map TxDecSet_Encode (tg_TDS g)), idx (tg_TDS g) 0,
                       put_idx (db_TDSCheck d) (unat thisround) True, put_idx (db_TBCheck d) (unat thisround) True) of
                   (Some _, Some data2, Some s0, Some chk, Some tchk) \<Rightarrow>
                     (case put_idx (db_TDSCache d) (unat thisround) (Some s0) of None \<Rightarrow> None
                      | Some c \<Rightarrow>
                        (case count_TDS (db_ShardNum d) (d\<lparr>db_TDSCache := c, db_TDSCheck := chk, db_TBCheck := tchk\<rparr>) of
                           None \<Rightarrow> None
                         | Some (flag, d2) \<Rightarrow>
                           (case (if unat r < NumTxListPerEpoch - 1
                                  then map_option (\<lambda>c. [Signal c 1]) (chan_at TBChan r) else Some []) of None \<Rightarrow> None
                            | Some tb \<Rightarrow>
                                Some ([Spawn (SendTxDecSetP data2 r GossipRound), Spawn (TxNormalBlockP r)] @ tb
                                  @ (if flag then [Signal StartLastTxBlock (nt_Epoch n)] else [])
                                  @ (if thisround = of_nat NumTxListPerEpoch then [Signal CheckChan 1] else []),
                                  set_db d2 n))))
                 | _ \<Rightarrow> None)
            | _ \<Rightarrow> None)))"

definition TxNormalBlock_waits :: "u32 \<Rightarrow> chan list option" where
  "TxNormalBlock_waits round = (if round > 0 then map_option (\<lambda>c. [c]) (chan_at TBBChan (round - 1)) else Some [])"

definition TxNormalBlock :: "env \<Rightarrow> 'd bolt \<Rightarrow> u32 \<Rightarrow> 'd Net \<Rightarrow> (act list \<times> 'd Net) option" where
  "TxNormalBlock E B round n =
     (case GenerateTxBlock E B (nt_Db n) 1 of None \<Rightarrow> None
      | Some (_, d) \<Rightarrow>
        (case db_TxB d of None \<Rightarrow> None
         | Some b \<Rightarrow>
           (case (TxBlock_Encode b 1, put_idx (db_TBBCache d) (unat round) (Some b)) of
              (Some data3, Some c) \<Rightarrow>
                Some ([Spawn (SendTxBlockP data3 1 GossipRound)]
                    @ (if unat round < NumTxListPerEpoch - 1 then [Signal (TBBChan (unat round)) 1] else []),
                  set_db (d\<lparr>db_TBBCache := c\<rparr>) n)
            | _ \<Rightarrow> None)))"

text \<open>A decision arrives. Both errors are only logged, and the round that is signalled is 0 when
  the decision was not accepted.\<close>

definition HandleTxDecLeader :: "env \<Rightarrow> Group \<Rightarrow> bytes \<Rightarrow> 'd Net \<Rightarrow> 'd handled" where
  "HandleTxDecLeader E G data n =
     (case TxDecision_Decode TxDecision_zero data of
        DPanic \<Rightarrow> None
      | DErr _ _ e \<Rightarrow> Some (Some e, [], n)
      | DOk tmp0 _ \<Rightarrow>
        (case PreTxDecision E G (nt_Db n) tmp0 (td_HashID tmp0) of None \<Rightarrow> None
         | Some (_, tmp) \<Rightarrow>
           (case UpdateTXCache E G (nt_Db n) tmp 0 of None \<Rightarrow> None
            | Some (_, d, x) \<Rightarrow>
                map_option (\<lambda>c. (None, [Signal c (int (unat (td_ID tmp)))], set_db d n)) (chan_at TLChan x))))"

definition HandleTxDecRev :: "bytes \<Rightarrow> 'd Net \<Rightarrow> 'd handled" where
  "HandleTxDecRev data n =
     (case txDecRev_Decode \<lparr>rev_ID = 0, rev_Round = 0\<rparr> data of
        DPanic \<Rightarrow> None
      | DErr _ _ e \<Rightarrow> Some (Some e, [], n)
      | DOk tmp _ \<Rightarrow> map_option (\<lambda>i. (None, [SignalRev i tmp], n))
          (chan_at id (rev_Round tmp - db_PrevHeight (nt_Db n))))"

text \<open>A set of another shard: its check must reach the end, or the handler spins forever on a
  progress that nobody makes.\<close>

datatype 'a outcome = Panics | Spins | Returns 'a

definition HandleTxDecSetLeader :: "env \<Rightarrow> Group \<Rightarrow> bytes \<Rightarrow> 'd Net \<Rightarrow> (error option \<times> act list \<times> 'd Net) outcome" where
  "HandleTxDecSetLeader E G data n =
     (case TxDecSet_Decode TxDecSet_zero data of
        DPanic \<Rightarrow> Panics
      | DErr _ _ e \<Rightarrow> Returns (Some e, [], n)
      | DOk tmp0 _ \<Rightarrow>
        (case PreTxDecSet E G (nt_Db n) tmp0 (Some \<lparr>ps_Stat = - 2, ps_Valid = []\<rparr>) of
           None \<Rightarrow> Panics
         | Some (_, tmp, s) \<Rightarrow>
           if stat_of s \<noteq> 0 then Spins
           else (case ProcessTDS G (nt_Db n) tmp of None \<Rightarrow> Panics
             | Some d \<Rightarrow>
               (case count_TDS (tds_ShardIndex tmp) d of None \<Rightarrow> Panics
                | Some (flag, d1) \<Rightarrow>
                    Returns (None, if flag then [Signal StartLastTxBlock (nt_Epoch n)] else [], set_db d1 n)))))"

text \<open>The channel a round counts its decisions on.\<close>

definition TxListProcess_listens :: "u32 \<Rightarrow> 'd DbRef \<Rightarrow> chan option" where
  "TxListProcess_listens thisround d = chan_at TLChan (thisround - db_PrevHeight d)"

section \<open>The round of a miner (\<open>TransactionProtocolMiner.go\<close>)\<close>

text \<open>Who is asked: the first number drawn that is not the own one.\<close>

definition other_member :: "nat list \<Rightarrow> 'd DbRef \<Rightarrow> nat option" where
  "other_member draws d = List.find (\<lambda>r. r \<noteq> unat (db_ID d)) draws"

definition QueryTL :: "Group \<Rightarrow> nat list \<Rightarrow> u32 \<Rightarrow> 'd Net \<Rightarrow> act option" where
  "QueryTL G draws round n =
     (case (other_member draws (nt_Db n), QTL_Encode \<lparr>qtl_ID = db_ID (nt_Db n), qtl_Round = round\<rparr>) of
        (Some r, Some tmp) \<Rightarrow> send_to G r ''QTL'' tmp | _ \<Rightarrow> None)"

definition QueryTDS :: "Group \<Rightarrow> nat list \<Rightarrow> u32 \<Rightarrow> 'd Net \<Rightarrow> act option" where
  "QueryTDS G draws round n =
     (case (other_member draws (nt_Db n), QTDS_Encode \<lparr>qtds_ID = db_ID (nt_Db n), qtds_Round = round\<rparr>) of
        (Some r, Some tmp) \<Rightarrow> send_to G r ''QTDS'' tmp | _ \<Rightarrow> None)"

definition QueryTB :: "Group \<Rightarrow> nat list \<Rightarrow> u32 \<Rightarrow> 'd Net \<Rightarrow> act option" where
  "QueryTB G draws round n =
     (case (other_member draws (nt_Db n), QTB_Encode \<lparr>qtb_ID = db_ID (nt_Db n), qtb_Round = round\<rparr>) of
        (Some r, Some tmp) \<Rightarrow> send_to G r ''QTB'' tmp | _ \<Rightarrow> None)"

text \<open>The errors of the three decoders are only printed. What is cached is marked as sent by this
  node.\<close>

definition HandleQTL :: "Group \<Rightarrow> bytes \<Rightarrow> 'd Net \<Rightarrow> (act list \<times> 'd Net) option" where
  "HandleQTL G data n =
     (let d = nt_Db n in
      case dres_val (QTL_Decode \<lparr>qtl_ID = 0, qtl_Round = 0\<rparr> data) of None \<Rightarrow> None
      | Some q \<Rightarrow>
        (case idx (db_TLSCache d) (unat (qtl_Round q)) of None \<Rightarrow> None
         | Some None \<Rightarrow> Some ([], n)
         | Some (Some l) \<Rightarrow>
           (let l' = l\<lparr>tl_Level := 0, tl_Sender := db_ID d\<rparr> in
            case TxList_Encode l' of None \<Rightarrow> None
            | Some out \<Rightarrow> map_option (\<lambda>a. ([a], set_db (d\<lparr>db_TLSCache := (db_TLSCache d)[unat (qtl_Round q) := Some l']\<rparr>) n))
                (send_to G (unat (qtl_ID q)) ''TxList'' out))))"

definition HandleQTDS :: "Group \<Rightarrow> bytes \<Rightarrow> 'd Net \<Rightarrow> (act list \<times> 'd Net) option" where
  "HandleQTDS G data n =
     (let d = nt_Db n in
      case dres_val (QTDS_Decode \<lparr>qtds_ID = 0, qtds_Round = 0\<rparr> data) of None \<Rightarrow> None
      | Some q \<Rightarrow>
        (case idx (db_TDSCache d) (unat (qtds_Round q)) of None \<Rightarrow> None
         | Some None \<Rightarrow> Some ([], n)
         | Some (Some s) \<Rightarrow>
           (let s' = s\<lparr>tds_Level := 0, tds_Sender := db_ID d\<rparr> in
            case TxDecSet_Encode s' of None \<Rightarrow> None
            | Some out \<Rightarrow> map_option (\<lambda>a. ([a], set_db (d\<lparr>db_TDSCache := (db_TDSCache d)[unat (qtds_Round q) := Some s']\<rparr>) n))
                (send_to G (unat (qtds_ID q)) ''TxDecSetM'' out))))"

definition HandleQTB :: "Group \<Rightarrow> bytes \<Rightarrow> 'd Net \<Rightarrow> (act list \<times> 'd Net) option" where
  "HandleQTB G data n =
     (let d = nt_Db n in
      case dres_val (QTB_Decode \<lparr>qtb_ID = 0, qtb_Round = 0\<rparr> data) of None \<Rightarrow> None
      | Some q \<Rightarrow>
        (case idx (db_TBBCache d) (unat (qtb_Round q)) of None \<Rightarrow> None
         | Some None \<Rightarrow> Some ([], n)
         | Some (Some b) \<Rightarrow>
           (let b' = b\<lparr>tb_Level := 0, tb_Sender := db_ID d\<rparr> in
            case TxBlock_Encode b' 1 of None \<Rightarrow> None
            | Some out \<Rightarrow> map_option (\<lambda>a. ([a], set_db (d\<lparr>db_TBBCache := (db_TBBCache d)[unat (qtb_Round q) := Some b']\<rparr>) n))
                (send_to G (unat (qtb_ID q)) ''TxB'' out))))"

text \<open>One pass of each of the two loops of a miner's round, every second: it asks for what it has
  not got. The flag says whether the loop goes on. In the second loop an answer, once seen,
  stays answered.\<close>

definition LoopTL :: "u32 \<Rightarrow> 'd Net \<Rightarrow> (bool \<times> act list) option" where
  "LoopTL round n = map_option (\<lambda>l. if l = None then (True, [Spawn (QueryTLP round)]) else (False, []))
     (idx (db_TLSCache (nt_Db n)) (unat round))"

definition LoopTDSTB :: "u32 \<Rightarrow> bool \<times> bool \<Rightarrow> 'd Net \<Rightarrow> ((bool \<times> bool) \<times> act list) option" where
  "LoopTDSTB round fl n =
     (case (idx (db_TDSCache (nt_Db n)) (unat round), idx (db_TBBCache (nt_Db n)) (unat round)) of
        (Some s, Some b) \<Rightarrow>
          Some ((if s = None then fst fl else False, if b = None then snd fl else False),
                (if s = None then [Spawn (QueryTDSP round)] else []) @ (if b = None then [Spawn (QueryTBP round)] else []))
      | _ \<Rightarrow> None)"

text \<open>What starts the rounds of a miner, and how each ends.\<close>

definition MinerLoop :: "act list" where
  "MinerLoop = map (\<lambda>i. Spawn (HandleTxLoopMinerP (of_nat i))) [0..<NumTxListPerEpoch]"

definition HandleTxLoopMiner_end :: "u32 \<Rightarrow> act list" where
  "HandleTxLoopMiner_end round = (if round = of_nat NumTxListPerEpoch then [Signal CheckChan 1] else [])"

text \<open>A list arrives. It is taken once for every round, passed on, voted on and answered. The
  sender is overwritten before the list is processed, and nothing verifies the list.\<close>

definition HandleTxList :: "env \<Rightarrow> Group \<Rightarrow> bytes \<Rightarrow> 'd Net \<Rightarrow> 'd handled" where
  "HandleTxList E G data n =
     (let d = nt_Db n in
      case TxList_Decode TxList_zero data of
        DPanic \<Rightarrow> None
      | DErr _ _ e \<Rightarrow> Some (Some e, [], n)
      | DOk tmp0 _ \<Rightarrow>
        (let i = unat (tl_Round tmp0 - db_PrevHeight d) in
         case idx (db_TLCheck d) i of None \<Rightarrow> None
         | Some True \<Rightarrow> Some (None, [], n)
         | Some False \<Rightarrow>
           (let tmp = tmp0\<lparr>tl_Sender := db_ID d\<rparr>; d1 = d\<lparr>db_TLCheck := (db_TLCheck d)[i := True]\<rparr> in
            case TxList_Encode tmp of None \<Rightarrow> None
            | Some data2 \<Rightarrow>
              (case ProcessTL E d1 tmp of None \<Rightarrow> None
               | Some (d2, _) \<Rightarrow>
                 (case db_TLNow d2 of None \<Rightarrow> None
                  | Some now \<Rightarrow>
                    (case TxDecision_Encode now of None \<Rightarrow> None
                     | Some sent \<Rightarrow>
                       map_option (\<lambda>a. (None, (if tl_Level tmp > 0 then [Spawn (SendTxListP data2 (tl_Level tmp - 1))] else []) @ [a],
                           set_db d2 n))
                         (send_to G (unat (tl_ID tmp)) ''TxDec'' sent)))))))"

text \<open>A decision set arrives. The error of the decoder is looked at only after the message was
  marked as seen and encoded again, and the outcome of the check not at all.\<close>

definition HandleTxDecSet :: "env \<Rightarrow> Group \<Rightarrow> int \<Rightarrow> bytes \<Rightarrow> 'd Net \<Rightarrow> 'd handled" where
  "HandleTxDecSet E G typeInput data n =
     (let d = nt_Db n; dec = TxDecSet_Decode TxDecSet_zero data in
      if db_Leader d = db_ID d then Some (None, [], n)
      else case dres_val dec of None \<Rightarrow> None
      | Some tmp0 \<Rightarrow>
        (let r = tds_Round tmp0 - db_PrevHeight d; i = unat r in
         case idx (db_TDSCheck d) i of None \<Rightarrow> None
         | Some True \<Rightarrow> Some (None, [], n)
         | Some False \<Rightarrow>
           (let tmp = tmp0\<lparr>tds_Sender := db_ID d\<rparr>; d1 = d\<lparr>db_TDSCheck := (db_TDSCheck d)[i := True]\<rparr> in
            case (TxDecSet_Encode tmp, txDecRev_Encode \<lparr>rev_ID = db_ShardNum d, rev_Round = tds_Round tmp\<rparr>) of
              (Some data2, Some datax) \<Rightarrow>
                (case (if typeInput = 1 then map_option (\<lambda>a. [a]) (send_to G (unat (tds_ID tmp)) ''TxDecRev'' datax) else Some []) of
                   None \<Rightarrow> None
                 | Some rv \<Rightarrow>
                   (let as = (if tds_Level tmp > 0 then [Spawn (SendTxDecSetInShardP data2 r (tds_Level tmp - 1))] else []) @ rv in
                    case dec of
                      DErr _ _ e \<Rightarrow> Some (Some e, as, set_db d1 n)
                    | DPanic \<Rightarrow> None
                    | DOk _ _ \<Rightarrow>
                      (case PreTxDecSet E G d1 tmp (Some \<lparr>ps_Stat = - 2, ps_Valid = []\<rparr>) of None \<Rightarrow> None
                       | Some (_, s, _) \<Rightarrow>
                         (case (if tds_Round s < of_nat NumTxListPerEpoch + db_PrevHeight d1 \<and> tds_ShardIndex s = db_ShardNum d1
                                    \<and> tds_ID s = db_Leader d1
                                then map_option (\<lambda>c. [Signal c (nt_Epoch n)]) (chan_at TDSChan r) else Some []) of None \<Rightarrow> None
                          | Some sig \<Rightarrow>
                            (case (idx (db_TDSCnt d1) (unat (tds_ShardIndex s)), idx (db_RepCache d1) (unat r)) of
                               (Some c, Some _) \<Rightarrow>
                                 (case GetTDS (d1\<lparr>db_TDSCnt := (db_TDSCnt d1)[unat (tds_ShardIndex s) := c + 1]\<rparr>) s of
                                    None \<Rightarrow> None
                                  | Some (_, d2) \<Rightarrow>
                                    (let full = (c + 1 = int NumTxListPerEpoch);
                                         d3 = (if full then d2\<lparr>db_TDSNotReady := db_TDSNotReady d2 - 1\<rparr> else d2)
                                     in Some (None, as @ sig @ (if full \<and> db_TDSNotReady d3 = 0
                                                 then [Signal StartLastTxBlock (nt_Epoch n)] else []), set_db d3 n)))
                             | _ \<Rightarrow> None)))))
            | _ \<Rightarrow> None)))"

definition HandleAndSentTxDecSet :: "env \<Rightarrow> Group \<Rightarrow> bytes \<Rightarrow> 'd Net \<Rightarrow> 'd handled" where
  "HandleAndSentTxDecSet E G data n =
     (case HandleTxDecSet E G 1 data n of None \<Rightarrow> None
      | Some (Some e, as, n') \<Rightarrow> Some (Some e, as, n')
      | Some (None, as, n') \<Rightarrow> map_option (\<lambda>bs. (None, as @ bs, n'))
          (broadcast G (nt_Db n') ''TxDecSetM'' data members))"

text \<open>A block arrives: it is taken once for every height and passed on. The outcome of its check
  is not looked at. The result is the block to go on with.\<close>

definition HandleTxBlock_take :: "env \<Rightarrow> Group \<Rightarrow> bytes \<Rightarrow> 'd Net \<Rightarrow> (TxBlock option \<times> error option \<times> act list \<times> 'd Net) option" where
  "HandleTxBlock_take E G data n =
     (let d = nt_Db n in
      case TxBlock_Decode 1 TxBlock_zero data of
        DPanic \<Rightarrow> None
      | DErr _ _ e \<Rightarrow> Some (None, Some e, [], n)
      | DOk tmp0 _ \<Rightarrow>
        (let i = unat (tb_Height tmp0 - db_PrevHeight d - 1) in
         case idx (db_TBCheck d) i of None \<Rightarrow> None
         | Some True \<Rightarrow> Some (None, None, [], n)
         | Some False \<Rightarrow>
           (let tmp = tmp0\<lparr>tb_Sender := db_ID d\<rparr>; d1 = d\<lparr>db_TBCheck := (db_TBCheck d)[i := True]\<rparr> in
            case TxBlock_Encode tmp 1 of None \<Rightarrow> None
            | Some data2 \<Rightarrow>
              (let as = (if tb_Level tmp > 0 then [Spawn (SendTxBlockP data2 1 (tb_Level tmp - 1))] else []) in
               if tb_Height tmp < db_PrevHeight d1 then Some (None, Some (Msg ''Previous epoch txblock''), as, set_db d1 n)
               else map_option (\<lambda>_. (Some tmp, None, as, set_db d1 n))
                 (PreTxBlock E G d1 tmp (Some \<lparr>ps_Stat = - 2, ps_Valid = []\<rparr>))))))"

text \<open>The channels it then waits for, each until it gives the current epoch.\<close>

definition HandleTxBlock_waits :: "u32 \<Rightarrow> u32 \<Rightarrow> chan list option" where
  "HandleTxBlock_waits prev h =
     (let N = of_nat NumTxListPerEpoch in
      case ((if h \<le> prev + N then map_option (\<lambda>c. [c]) (chan_at TDSChan (h - prev - 1)) else Some []),
            (if h \<le> prev + N + 1 \<and> h \<ge> prev + 2 then map_option (\<lambda>c. [c]) (chan_at TBChan (h - prev - 2)) else Some [])) of
        (Some a, Some b) \<Rightarrow> Some (a @ b @ (if h = prev + N + 1 then [StartLastTxBlock] else []))
      | _ \<Rightarrow> None)"

text \<open>The rest, when all of them did.\<close>

definition HandleTxBlock_finish :: "TxBlock \<Rightarrow> 'd Net \<Rightarrow> 'd handled" where
  "HandleTxBlock_finish tmp n =
     (if tb_Kind tmp \<noteq> 3
      then (case GetTxBlock (nt_Db n) tmp of None \<Rightarrow> None
        | Some (_, d) \<Rightarrow>
            if tb_Height tmp \<le> db_PrevHeight d + of_nat NumTxListPerEpoch
            then map_option (\<lambda>c. (None, [Signal c (nt_Epoch n)], set_db d n))
                   (chan_at TBChan (tb_Height tmp - db_PrevHeight d - 1))
            else Some (None, [], set_db d n))
      else Some (None, [], n))"

section \<open>Batches of transactions (\<open>TransactionProtocol.go\<close>, \<open>TxMMProtocol.go\<close>, \<open>TxSendProtocol.go\<close>)\<close>

text \<open>A batch is decoded and dropped: the line that hands it on is commented out.\<close>

definition TxBatchInfo_zero :: TxBatchInfo where
  "TxBatchInfo_zero = \<lparr>bi_ID = 0, bi_ShardID = 0, bi_Epoch = 0, bi_Round = 0, bi_Data = []\<rparr>"

definition HandleTotalTx :: "bytes \<Rightarrow> 'd Net \<Rightarrow> 'd handled" where
  "HandleTotalTx data n =
     (case TxBatchInfo_Decode TxBatchInfo_zero data of
        DPanic \<Rightarrow> None | DErr _ _ e \<Rightarrow> Some (Some e, [], n) | DOk _ _ \<Rightarrow> Some (None, [], n))"

definition HandleTxMM :: "Group \<Rightarrow> bytes \<Rightarrow> 'd Net \<Rightarrow> 'd handled" where
  "HandleTxMM G data n =
     (case TxBatchInfo_Decode TxBatchInfo_zero data of
        DPanic \<Rightarrow> None
      | DErr _ _ e \<Rightarrow> Some (Some e, [], n)
      | DOk tmp data1 \<Rightarrow>
        (case txDecRev_Encode \<lparr>rev_ID = db_ID (nt_Db n), rev_Round = bi_Round tmp\<rparr> of None \<Rightarrow> None
         | Some xxx \<Rightarrow>
           (case (send_to G (unat (bi_ID tmp)) ''TxMMRec'' xxx, HandleTotalTx data1 n) of
              (Some a, Some (_, as, n')) \<Rightarrow> Some (None, a # as, n') | _ \<Rightarrow> None)))"

definition HandleAndSendTx :: "Group \<Rightarrow> bytes \<Rightarrow> 'd Net \<Rightarrow> 'd handled" where
  "HandleAndSendTx G data n =
     (case HandleTotalTx data n of None \<Rightarrow> None
      | Some (_, as, n') \<Rightarrow> map_option (\<lambda>bs. (None, as @ bs, n')) (broadcast G (nt_Db n') ''TxM'' data members))"

definition HandleRequestTxMM :: "Group \<Rightarrow> bytes \<Rightarrow> 'd Net \<Rightarrow> 'd handled" where
  "HandleRequestTxMM G data n =
     (case txDecRev_Decode \<lparr>rev_ID = 0, rev_Round = 0\<rparr> data of
        DPanic \<Rightarrow> None
      | DErr _ _ e \<Rightarrow> Some (Some e, [], n)
      | DOk tmp _ \<Rightarrow>
        (let prev = db_PrevHeight (nt_Db n) in
         if rev_Round tmp \<ge> prev \<and> rev_Round tmp < prev + of_nat NumTxListPerEpoch
         then (case idx (nt_BatchCache n) (unat (rev_Round tmp - prev)) of None \<Rightarrow> None
           | Some [] \<Rightarrow> Some (None, [], n)
           | Some (b # bs) \<Rightarrow>
             (case idx (gr_Mems G) (unat (rev_ID tmp)) of None \<Rightarrow> None
              | Some m \<Rightarrow>
                (case at (b # bs) (mem_Shard m) of None \<Rightarrow> None
                 | Some info \<Rightarrow>
                   (case TxBatchInfo_Encode info of None \<Rightarrow> None
                    | Some out \<Rightarrow> map_option (\<lambda>a. (None, [a], n)) (send_to G (unat (rev_ID tmp)) ''TxMM'' out)))))
         else Some (None, [], n)))"

definition HandleTxMMRec :: "bytes \<Rightarrow> 'd Net \<Rightarrow> 'd handled" where
  "HandleTxMMRec data n =
     (case txDecRev_Decode \<lparr>rev_ID = 0, rev_Round = 0\<rparr> data of
        DPanic \<Rightarrow> None
      | DErr _ _ e \<Rightarrow> Some (Some e, [], n)
      | DOk tmp _ \<Rightarrow>
        (let prev = db_PrevHeight (nt_Db n); xx = rev_Round tmp in
         if xx < prev \<or> xx \<ge> prev + of_nat NumTxListPerEpoch then Some (Some (Msg ''TxMMRec epoch not match''), [], n)
         else map_option (\<lambda>i. (None, [SignalTxM i tmp], n)) (chan_at id (xx - prev))))"

text \<open>The blocks are sent newest last, without their number: it is an \<open>int\<close>.\<close>

definition HandleRequestTxB :: "Group \<Rightarrow> 'd bolt \<Rightarrow> bytes \<Rightarrow> 'd Net \<Rightarrow> 'd handled" where
  "HandleRequestTxB G B data n =
     (case TxBRequestInfo_Decode \<lparr>br_Address = [], br_Shard = 0, br_Height = 0\<rparr> data of
        DPanic \<Rightarrow> None
      | DErr _ _ e \<Rightarrow> Some (Some e, [], n)
      | DOk tmp _ \<Rightarrow>
        (case RecentBlock B (db_DB (nt_Db n)) (word_of_int (br_Height tmp)) of
           Some (Some txBs) \<Rightarrow>
             (case (Encode (VInt (int (length txBs))), seq_opt (map TxBlock_Serial (rev txBs))) of
                (Some c, Some bs) \<Rightarrow>
                  map_option (\<lambda>r. (None, [Send (br_Address tmp) r], n)) (request_of ''TxBs'' (c @ bs))
              | _ \<Rightarrow> None)
         | _ \<Rightarrow> None))"

text \<open>Sending a batch to the members of the shard, in a random order \<open>perm\<close>.\<close>

definition SendTx :: "Group \<Rightarrow> nat list \<Rightarrow> bytes \<Rightarrow> 'd Net \<Rightarrow> 'd handled" where
  "SendTx G perm x n =
     (let d = nt_Db n in
      case TxBatchInfo_Encode \<lparr>bi_ID = db_ID d, bi_ShardID = db_ShardNum d, bi_Epoch = word_of_int (nt_Epoch n + 1),
             bi_Round = 0, bi_Data = x\<rparr> of None \<Rightarrow> None
      | Some e \<Rightarrow>
        (case (broadcast G d ''TxM'' e (take (unat ShardSize) perm), HandleTotalTx e n) of
           (Some as, Some (_, as', n')) \<Rightarrow> Some (None, as @ as', n') | _ \<Rightarrow> None))"

text \<open>The part of the transactions that is sent in the \<open>i\<close>-th interval.\<close>

definition batch_part :: "Transaction list \<Rightarrow> nat \<Rightarrow> bytes option" where
  "batch_part x i =
     (let TxBatchLen = length x div NumTxListPerEpoch
      in TransactionBatch_Encode (TransactionBatch_New (take TxBatchLen (drop (i * TxBatchLen) x))))"

fun send_parts :: "Group \<Rightarrow> (nat \<Rightarrow> nat list) \<Rightarrow> Transaction list \<Rightarrow> nat list \<Rightarrow> 'd Net \<Rightarrow> 'd handled" where
  "send_parts G perm x [] n = Some (None, [], n)"
| "send_parts G perm x (i # is) n =
     (case batch_part x i of None \<Rightarrow> None
      | Some data \<Rightarrow>
        (case SendTx G (perm i) data n of None \<Rightarrow> None
         | Some (_, as, n1) \<Rightarrow> map_option (\<lambda>(e, bs, n2). (e, as @ bs, n2)) (send_parts G perm x is n1)))"

definition SendLoopMiner :: "Group \<Rightarrow> (nat \<Rightarrow> nat list) \<Rightarrow> Transaction list \<Rightarrow> 'd Net \<Rightarrow> 'd handled" where
  "SendLoopMiner G perm x = send_parts G perm x [0..<NumTxListPerEpoch]"

definition SendLoopLeader :: "Group \<Rightarrow> (nat \<Rightarrow> nat list) \<Rightarrow> Transaction list \<Rightarrow> 'd Net \<Rightarrow> 'd handled" where
  "SendLoopLeader G perm x = send_parts G perm x [0..<1]"

text \<open>Batches that reach the collectors \<open>HandleTxLeader\<close> and \<open>HandleTx\<close>: those of this epoch
  that decode are kept, and after a pause all are taken in.\<close>

definition collect_batch :: "int \<Rightarrow> TxBatchInfo \<Rightarrow> TransactionBatch list \<Rightarrow> TransactionBatch list option" where
  "collect_batch epoch data cache =
     (if bi_Epoch data = word_of_int (epoch + 1)
      then (case TransactionBatch_Decode TransactionBatch_zero (bi_Data data) of
              DOk tmp _ \<Rightarrow> Some (cache @ [tmp]) | DErr _ _ _ \<Rightarrow> Some cache | DPanic \<Rightarrow> None)
      else Some cache)"

definition take_batch :: "(Transaction \<Rightarrow> 'd DbRef \<Rightarrow> 'd DbRef option) \<Rightarrow> TransactionBatch \<Rightarrow> 'd DbRef \<Rightarrow> 'd DbRef option" where
  "take_batch f b = for_each f (unat (batch_TxCnt b)) (batch_TxArray b)"

text \<open>After every batch the leader looks at the length of its list (and pauses when it is long).\<close>

definition own_list :: "'d DbRef \<Rightarrow> TxList option" where
  "own_list d = (case db_Now d of None \<Rightarrow> None
     | Some p \<Rightarrow> (case group_at d p of None \<Rightarrow> None | Some g \<Rightarrow> idx (tg_TLS g) (unat (db_ShardNum d))))"

definition HandleTxLeader_flush :: "TransactionBatch list \<Rightarrow> 'd DbRef \<Rightarrow> 'd DbRef option" where
  "HandleTxLeader_flush cache d = ofold (\<lambda>b d. case take_batch (\<lambda>t d. map_option snd (MakeTXList d t)) b d of None \<Rightarrow> None
     | Some d1 \<Rightarrow> map_option (\<lambda>_. d1) (own_list d1)) cache d"

definition HandleTx_flush :: "TransactionBatch list \<Rightarrow> 'd DbRef \<Rightarrow> 'd DbRef option" where
  "HandleTx_flush cache d = ofold (take_batch (\<lambda>t d. map_option snd (GetTx d t))) cache d"

section \<open>The server (\<open>client.go\<close>)\<close>

text \<open>The handler a command starts; those of the CoSi, synchronisation and sharding protocols
  are named only.\<close>

datatype handler = HShutDown | HRequestTxB | HAndSendTx | HTotalTx | HTxMM | HTxMMRec | HRequestTxMM | HTxList
  | HTxDecLeader | HAndSentTxDecSet | HTxDecSetLeader | HTxDecSet | HTxDecRev | HTxBlock | HShardReady
  | HRequestShardLeaderReady | HLeaderReady | HRepPowRx | HRepBlockRx | HRequestRepBlockRx | HCoSiAnnounce
  | HCoSiChallenge | HCoSiSig | HReqCosiSig | HCoSiCommit | HCoSiResponse | HRequestSync | HSyncNotReady
  | HSyncSBMessage | HSyncTBMessage | HGossipFirSend | HGossipFirRev | HGossipSecSend | HGossipSecRev
  | HQTL | HQTDS | HQTB

definition only_if :: "bool \<Rightarrow> 'a \<Rightarrow> 'a option" where "only_if b x = (if b then Some x else None)"

definition commands :: "bool \<Rightarrow> bool \<Rightarrow> bool \<Rightarrow> (string \<times> handler option) list" where
  "commands lead cosi sync =
    [(''shutDown'', Some HShutDown), (''requestTxB'', Some HRequestTxB), (''Tx'', Some HAndSendTx), (''TxM'', Some HTotalTx),
     (''TxMM'', Some HTxMM), (''TxMMRec'', Some HTxMMRec), (''RequestTxMM'', Some HRequestTxMM), (''TxList'', Some HTxList),
     (''TxDec'', Some HTxDecLeader), (''TxDecSet'', Some HAndSentTxDecSet),
     (''TxDecSetM'', Some (if lead then HTxDecSetLeader else HTxDecSet)), (''TxDecRev'', Some HTxDecRev),
     (''TxB'', Some HTxBlock), (''shardReady'', Some HShardReady), (''reqLeaReady'', Some HRequestShardLeaderReady),
     (''readyAnnoun'', Some HShardReady), (''leaderReady'', Some HLeaderReady), (''RepPowAnnou'', Some HRepPowRx),
     (''RepBlock'', Some HRepBlockRx), (''RequestRep'', Some HRequestRepBlockRx), (''cosiAnnoun'', Some HCoSiAnnounce),
     (''cosiChallen'', only_if cosi HCoSiChallenge), (''cosiSig'', only_if cosi HCoSiSig), (''reqCosiSig'', Some HReqCosiSig),
     (''cosiCommit'', only_if cosi HCoSiCommit), (''cosiRespon'', only_if cosi HCoSiResponse), (''requestSync'', Some HRequestSync),
     (''syncNReady'', only_if sync HSyncNotReady), (''syncSB'', only_if sync HSyncSBMessage), (''syncTB'', only_if sync HSyncTBMessage),
     (''GossipFirSend'', Some HGossipFirSend), (''GossipFirRev'', Some HGossipFirRev), (''GossipSecSend'', Some HGossipSecSend),
     (''GossipSecRev'', Some HGossipSecRev), (''QTL'', Some HQTL), (''QTDS'', Some HQTDS), (''QTB'', Some HQTB)]"

text \<open>A request is taken apart and its handler started with the rest. \<open>None\<close> is the panic when
  the own role is looked up in vain; a packet that is too short, unknown or out of season starts
  nothing.\<close>

definition StartServer_request :: "Group \<Rightarrow> 'd Net \<Rightarrow> bytes \<Rightarrow> (handler \<times> bytes) option option" where
  "StartServer_request G n request =
     (case split_request request of None \<Rightarrow> Some None
      | Some (command, rest) \<Rightarrow>
        (case (if command = ''TxDecSetM'' then is_leader G (db_ID (nt_Db n)) else Some False) of None \<Rightarrow> None
         | Some lead \<Rightarrow>
             Some (case map_of (commands lead (nt_CoSiFlag n) (nt_SyncFlag n)) command of
                 Some (Some h) \<Rightarrow> Some (h, rest) | _ \<Rightarrow> None)))"

end
