(* ===== verification/Rounds.thy ===== *)
theory Rounds
  imports Network
begin

text \<open>
  One round of a shard, from the leader's list to the decision that counts: what the leader
  sends is taken, voted on and answered by a member, and the answer is counted by the leader;
  what is asked for is answered; and where the handlers panic or spin.
\<close>

unbundle bit_operations_syntax

section \<open>The votes of a member\<close>

lemma vote_loop:
  "td_adds dec (replicate (length xs) 1) = Some dec' \<Longrightarrow> td_adds now (replicate (length xs) 1) = Some now' \<Longrightarrow>
   ofold vote_tx xs (m, dec, now) = Some (m @ concat (map (be_bytes 32) xs), dec', now')"
  by (induction xs arbitrary: m dec now) (auto simp: vote_tx_def split: option.splits)

text \<open>The decision vector that says yes to \<open>n\<close> transactions.\<close>

definition yes_vector :: "nat \<Rightarrow> bytes" where
  "yes_vector n = (case td_adds TxDecision_zero (replicate n 1) of Some d \<Rightarrow> td_Decision d | None \<Rightarrow> [])"

text \<open>Adding only looks at the count and the vector.\<close>

definition td_core :: "TxDecision \<Rightarrow> u32 \<times> bytes" where
  "td_core d = (td_TxCnt d, td_Decision d)"

lemma TxDecision_Add_core:
  "td_core a = td_core b \<Longrightarrow> map_option td_core (TxDecision_Add a x) = map_option td_core (TxDecision_Add b x)"
  by (simp add: td_core_def TxDecision_Add_def Let_def)

lemma td_adds_core:
  "td_core a = td_core b \<Longrightarrow> map_option td_core (td_adds a xs) = map_option td_core (td_adds b xs)"
proof (induction xs arbitrary: a b)
  case (Cons x xs)
  note c = TxDecision_Add_core [OF Cons.prems, of x]
  show ?case
  proof (cases "TxDecision_Add a x")
    case None
    with c show ?thesis by simp
  next
    case (Some a')
    with c obtain b' where "TxDecision_Add b x = Some b'" "td_core a' = td_core b'"
      by (cases "TxDecision_Add b x") auto
    with Some Cons.IH [of a' b'] show ?thesis by simp
  qed
qed simp

lemma td_adds_yes:
  assumes "td_TxCnt a = 0" and "td_Decision a = []" and "n < 2 ^ 32"
  shows "td_adds a (replicate n 1) = Some (a\<lparr>td_TxCnt := of_nat n, td_Decision := yes_vector n\<rparr>)
    \<and> td_rep (a\<lparr>td_TxCnt := of_nat n, td_Decision := yes_vector n\<rparr>) (replicate n True)"
proof -
  have one: "set (replicate n (1 :: byte)) \<subseteq> {0, 1}" by auto
  obtain b where b: "td_adds a (replicate n 1) = Some b" "td_rep b (replicate n True)"
    "b = a\<lparr>td_TxCnt := td_TxCnt b, td_Decision := td_Decision b\<rparr>"
    using td_adds_rep [OF td_rep_empty [OF assms(1,2)] one] assms(3) by auto
  have "td_core a = td_core TxDecision_zero" using assms by (simp add: TxDecision_zero_def td_core_def)
  from td_adds_core [OF this, of "replicate n 1"] b(1)
  have "td_Decision b = yes_vector n" by (auto simp: yes_vector_def td_core_def split: option.splits)
  moreover have "td_TxCnt b = of_nat n" using b(2) by (simp add: td_rep_def)
  ultimately show ?thesis using b by metis
qed

section \<open>A list is taken\<close>

text \<open>What a node needs to take a list: its tables have their size, and the round is one of the
  epoch and of the caches.\<close>

definition node_ok :: "'d DbRef \<Rightarrow> bool" where
  "node_ok d \<longleftrightarrow> rep_shape d \<and> unat (db_RepRound d) < 20 \<and> length (db_TLCheck d) = 10 \<and> length (db_TLSCache d) = 10
     \<and> db_ShardNum d = 0"

text \<open>The decision of a member on a list: yes to everything, with one signature over the part for
  shard 0.\<close>

definition list_data :: "TxList \<Rightarrow> bytes" where
  "list_data l = byteSlice (tl_Round l) @ concat (map (be_bytes 32) (tl_TxArray l))"

definition part_of :: "u32 \<Rightarrow> TxList \<Rightarrow> TxDecision" where
  "part_of i l = TxDecision_zero\<lparr>td_ID := i, td_HashID := Sum256 (list_data l), td_TxCnt := tl_TxCnt l,
     td_Decision := yes_vector (unat (tl_TxCnt l)), td_Single := 1, td_Sig := [RCSign_zero]\<rparr>"

definition vote_of :: "env \<Rightarrow> 'd DbRef \<Rightarrow> TxList \<Rightarrow> TxDecision" where
  "vote_of E d l = TxDecision_zero\<lparr>td_ID := db_ID d, td_HashID := tl_HashID l, td_TxCnt := tl_TxCnt l,
     td_Decision := yes_vector (unat (tl_TxCnt l)), td_Target := db_ShardNum d,
     td_Sig := [RCSign_Sign (env_sign E) (env_rnd E 0) (be_bytes 32 (Sum256 (TxDecision_data (part_of (db_ID d) l)))) (db_prk d)]\<rparr>"

definition counted :: "u32 \<Rightarrow> 'd DbRef \<Rightarrow> NewRep list list" where
  "counted x d = (let r = unat (db_RepRound d); row = db_RepVote d ! r; v = row ! unat x
     in (db_RepVote d)[r := row[unat x := v\<lparr>nr_Rep := nr_Rep v + 1\<rparr>]])"

lemma vote_for_counted:
  assumes "tab (db_RepVote d)" and "unat x < 20" and "unat (db_RepRound d) < 20"
  shows "vote_for x d = Some (d\<lparr>db_RepVote := counted x d\<rparr>)"
  using assms by (simp add: vote_for_def idx_def tab_def counted_def Let_def)

lemma ProcessTL_ok:
  assumes ok: "node_ok d" and l: "TxList_cnt l" and s: "unat (tl_Sender l) < 20" and r: "unat (tl_Round l) < 10"
  shows "ProcessTL E d l = Some (d\<lparr>db_RepVote := counted (tl_Sender l) d, db_TLNow := Some (vote_of E d l),
      db_TxCnt := db_TxCnt d + tl_TxCnt l, db_TLSCache := (db_TLSCache d)[unat (tl_Round l) := Some l],
      db_TLRound := db_TLRound d + 1\<rparr>, [TransactionBatch_zero])"
proof -
  let ?n = "unat (tl_TxCnt l)"
  let ?now = "(TxDecision_Set TxDecision_zero (db_ID d) (db_ShardNum d) 0)\<lparr>td_HashID := tl_HashID l, td_Single := 0\<rparr>"
  let ?dec = "TxDecision_Set TxDecision_zero (db_ID d) 0 1"
  have n: "?n < 2 ^ 32" using unsigned_less [of "tl_TxCnt l", where ?'a = nat] by simp
  have len: "length (tl_TxArray l) = ?n" using l by (simp add: TxList_cnt_def)
  have c: "(of_nat ?n :: u32) = tl_TxCnt l" by simp
  have v: "vote_for (tl_Sender l) d = Some (d\<lparr>db_RepVote := counted (tl_Sender l) d\<rparr>)"
    using ok s by (simp add: vote_for_counted node_ok_def rep_shape_def)
  have p: "put_idx (db_TLSCache d) (unat (tl_Round l)) (Some l) = Some ((db_TLSCache d)[unat (tl_Round l) := Some l])"
    using ok r by (simp add: node_ok_def)
  have a1: "td_adds ?dec (replicate ?n 1) = Some (?dec\<lparr>td_TxCnt := tl_TxCnt l, td_Decision := yes_vector ?n\<rparr>)"
    using td_adds_yes [of ?dec ?n] n by (simp add: TxDecision_Set_def TxDecision_zero_def)
  have a2: "td_adds ?now (replicate ?n 1) = Some (?now\<lparr>td_TxCnt := tl_TxCnt l, td_Decision := yes_vector ?n\<rparr>)"
    using td_adds_yes [of ?now ?n] n by (simp add: TxDecision_Set_def TxDecision_zero_def)
  have loop: "for_each vote_tx ?n (tl_TxArray l) (byteSlice (tl_Round l), ?dec, ?now)
      = Some (list_data l, ?dec\<lparr>td_TxCnt := tl_TxCnt l, td_Decision := yes_vector ?n\<rparr>,
          ?now\<lparr>td_TxCnt := tl_TxCnt l, td_Decision := yes_vector ?n\<rparr>)"
    unfolding for_each_all [OF len [symmetric]] list_data_def
    by (rule vote_loop) (use a1 a2 len in simp_all)
  have sign: "ofold (sign_part E d l (list_data l) (?dec\<lparr>td_TxCnt := tl_TxCnt l, td_Decision := yes_vector ?n\<rparr>)) all_shards
      (?now\<lparr>td_TxCnt := tl_TxCnt l, td_Decision := yes_vector ?n\<rparr>) = Some (vote_of E d l)"
    by (simp add: one_upt sign_part_def TxDecision_Sign_def idx_def put_idx_def vote_of_def part_of_def
        TxDecision_Set_def TxDecision_zero_def Let_def)
  show ?thesis
    unfolding ProcessTL_def Let_def v p loop option.case prod.case sign option.map by (simp add: one_upt)
qed

text \<open>The packet with a command in front.\<close>

definition packet :: "string \<Rightarrow> bytes \<Rightarrow> bytes" where
  "packet c m = map of_char c @ replicate (16 - length c) 0 @ m"

lemma request_packet:
  assumes "length c \<le> 16"
  shows "request_of c m = Some (packet c m)"
proof -
  have "\<not> 16 < length c" using assms by (rule leD)
  then have "commandToBytes c = Some (map of_char c @ replicate (16 - length c) 0)"
    unfolding commandToBytes_def commandLength_def by (rule if_not_P)
  then show ?thesis by (simp only: request_of_def packet_def option.map append_assoc)
qed

lemma send_to_ok:
  assumes "idx (gr_Mems G) i = Some m" and "length c \<le> 16"
  shows "send_to G i c x = Some (Send (mem_Address m) (packet c x))"
  unfolding send_to_def assms(1) request_packet [OF assms(2)] by simp

lemma yes_rep:
  assumes "n < 2 ^ 32"
  shows "length (yes_vector n) = (n + 7) div 8 \<and> (\<forall>k. bitvec (yes_vector n) k \<longleftrightarrow> k < n)"
proof -
  let ?d = "TxDecision_zero\<lparr>td_TxCnt := of_nat n, td_Decision := yes_vector n\<rparr>"
  have "td_TxCnt TxDecision_zero = 0" "td_Decision TxDecision_zero = []" by (simp_all only: TxDecision_zero_def TxDecision.select_convs)
  then have "td_rep ?d (replicate n True)" using td_adds_yes [OF _ _ assms] by blast
  moreover have "td_Decision ?d = yes_vector n" by simp
  ultimately have a: "length (yes_vector n) = (length (replicate n True) + 7) div 8"
    and b: "\<forall>k. bitvec (yes_vector n) k \<longleftrightarrow> k < length (replicate n True) \<and> replicate n True ! k"
    unfolding td_rep_def by (elim conjE, simp only:)+
  have "k < length (replicate n True) \<and> replicate n True ! k \<longleftrightarrow> k < n" for k by auto
  with a b show ?thesis by (simp only: length_replicate simp_thms)
qed

lemma yes_length: "n < 2 ^ 32 \<Longrightarrow> length (yes_vector n) = (n + 7) div 8"
  using yes_rep by blast

lemma yes_bit: "k < n \<Longrightarrow> n < 2 ^ 32 \<Longrightarrow> bit (yes_vector n ! (k div 8)) (k mod 8)"
  using yes_rep by (auto simp: bitvec_def)

lemma vote_of_wf: "ecdsa_ok (env_sign E) vf \<Longrightarrow> TxDecision_wf (vote_of E d l)"
  using RCSign_Sign_wf by (simp add: TxDecision_wf_def vote_of_def TxDecision_zero_def)

text \<open>The state of a member that took the list.\<close>

definition taken :: "env \<Rightarrow> 'd DbRef \<Rightarrow> TxList \<Rightarrow> 'd DbRef" where
  "taken E d l = d\<lparr>db_TLCheck := (db_TLCheck d)[unat (tl_Round l - db_PrevHeight d) := True],
     db_RepVote := counted (db_ID d) d, db_TLNow := Some (vote_of E d l), db_TxCnt := db_TxCnt d + tl_TxCnt l,
     db_TLSCache := (db_TLSCache d)[unat (tl_Round l) := Some ((TxList_view l)\<lparr>tl_Sender := db_ID d\<rparr>)],
     db_TLRound := db_TLRound d + 1\<rparr>"

lemma HandleTxList_ok:
  assumes ok: "node_ok (nt_Db n)" and l: "TxList_wf l" and e: "TxList_Encode l = Some e" "length e < 2 ^ 32"
    and w: "unat (tl_Round l - db_PrevHeight (nt_Db n)) < 10" "unat (tl_Round l) < 10"
    and fresh: "\<not> db_TLCheck (nt_Db n) ! unat (tl_Round l - db_PrevHeight (nt_Db n))"
    and m: "idx (gr_Mems G) (unat (tl_ID l)) = Some m" and sent: "TxDecision_Encode (vote_of E (nt_Db n) l) = Some sent"
  shows "\<exists>as. HandleTxList E G e n = Some (None, as @ [Send (mem_Address m) (packet ''TxDec'' sent)], set_db (taken E (nt_Db n) l) n)
    \<and> (\<exists>e2. as = (if tl_Level l > 0 then [Spawn (SendTxListP e2 (tl_Level l - 1))] else []))"
proof -
  let ?d = "nt_Db n" let ?i = "unat (tl_Round l - db_PrevHeight ?d)"
  let ?l = "(TxList_view l)\<lparr>tl_Sender := db_ID ?d\<rparr>" let ?d1 = "?d\<lparr>db_TLCheck := (db_TLCheck ?d)[?i := True]\<rparr>"
  have D: "TxList_Decode TxList_zero e = DOk (TxList_view l) []"
    using TxList_Decode_enc [OF l e(1), of "[]"] e(2) by simp
  have v: "tl_Round (TxList_view l) = tl_Round l" "tl_ID (TxList_view l) = tl_ID l" "tl_Level (TxList_view l) = tl_Level l"
    by (simp_all add: TxList_view_def)
  have chk: "idx (db_TLCheck ?d) ?i = Some False" using ok w(1) fresh by (simp add: node_ok_def)
  have wf: "TxList_wf ?l" using l by (simp add: TxList_wf_def TxList_cnt_def TxList_view_def)
  then obtain e2 where e2: "TxList_Encode ?l = Some e2" using TxList_Encode_wf by blast
  have "node_ok ?d1" using ok by (simp add: node_ok_def rep_shape_def)
  moreover have "unat (tl_Sender ?l) < 20" using ok by (simp add: node_ok_def rep_shape_def)
  ultimately have P: "ProcessTL E ?d1 ?l = Some (taken E ?d l, [TransactionBatch_zero])"
    using ProcessTL_ok [of ?d1 ?l E] wf w(2)
    by (simp add: TxList_wf_def taken_def counted_def vote_of_def part_of_def list_data_def TxList_view_def)
  have now: "db_TLNow (taken E ?d l) = Some (vote_of E ?d l)" by (simp add: taken_def)
  have S: "send_to G (unat (tl_ID l)) ''TxDec'' sent = Some (Send (mem_Address m) (packet ''TxDec'' sent))"
    by (rule send_to_ok [OF m]) simp
  show ?thesis
    unfolding HandleTxList_def Let_def D dres.case v chk option.case bool.case e2 P prod.case now sent
    by (simp add: S v)
qed

section \<open>A decision is counted\<close>

text \<open>What the leader needs: the group of the list, filed under the hash of its only list.\<close>

definition group_of :: "'d DbRef \<Rightarrow> nat \<Rightarrow> TxList \<Rightarrow> TxDecSet \<Rightarrow> bool" where
  "group_of d p l s \<longleftrightarrow> db_ShardNum d = 0 \<and> db_TLIndex d (tl_HashID l) = Some p
     \<and> group_at d p = Some \<lparr>tg_TLS = [l], tg_TDS = [s]\<rparr>"

lemma add_votes_fold:
  "(\<And>k. k \<in> set ks \<Longrightarrow> vote_at a k = Some (v k)) \<Longrightarrow>
   ofold (add_votes a) ks [t] = map_option (\<lambda>t. [t]) (td_adds t (map v ks))"
  by (induction ks arbitrary: t) (auto simp: add_votes_def split: option.splits)

lemma vote_at_yes:
  assumes "td_Decision a = yes_vector n" and "k < n" and "n < 2 ^ 32"
  shows "vote_at a k = Some 1"
proof -
  have "k div 8 < length (yes_vector n)" using assms(2,3) by (simp add: yes_length)
  moreover have "drop_bit (k mod 8) (yes_vector n ! (k div 8)) AND 1 = 1"
    using yes_bit [OF assms(2,3)] by (simp add: and_one_bit bit_simps)
  ultimately show ?thesis using assms(1) by (simp add: vote_at_def idx_def)
qed

text \<open>What is counted: the part for the shard, with the signature of the vote.\<close>

definition counted_part :: "TxDecision \<Rightarrow> TxList \<Rightarrow> TxDecision" where
  "counted_part a l = TxDecision_zero\<lparr>td_ID := td_ID a, td_HashID := tl_HashID l, td_TxCnt := tl_TxCnt l,
     td_Decision := yes_vector (unat (tl_TxCnt l)), td_Single := 1, td_Sig := td_Sig a\<rparr>"

lemma UpdateTXCache_ok:
  assumes g: "group_of d p l s" and a: "td_Single a = 0" "td_HashID a = tl_HashID l"
    "td_Decision a = yes_vector (unat (tl_TxCnt l))" "td_Sig a = [sig]" and k: "puk_of G (td_ID a) = Some puk"
    and v: "TxDecision_Verify (env_verify E) (counted_part a l) puk 0 = Some True"
  shows "UpdateTXCache E G d a x = Some (None,
    set_group p \<lparr>tg_TLS = [l], tg_TDS = [TxDecSet_Add s (counted_part a l)]\<rparr> d, tl_Round l - db_PrevHeight d)"
proof -
  let ?g = "\<lparr>tg_TLS = [l], tg_TDS = [s]\<rparr>" let ?n = "unat (tl_TxCnt l)"
  let ?t = "(TxDecision_Set TxDecision_zero (td_ID a) 0 1)\<lparr>td_HashID := tl_HashID l, td_Sig := [sig]\<rparr>"
  have n: "?n < 2 ^ 32" using unsigned_less [of "tl_TxCnt l", where ?'a = nat] by simp
  have p: "db_TLIndex d (td_HashID a) = Some p" "group_at d p = Some ?g" "unat (db_ShardNum d) = 0"
    using g a by (simp_all add: group_of_def)
  have single: "(td_Single a = 1) = False" using a by simp
  have tls: "idx (tg_TLS ?g) 0 = Some l" by simp
  have st: "those (map (split_start a ?g) all_shards) = Some [?t]"
    using a by (simp add: one_upt split_start_def idx_def)
  have "map (\<lambda>_. 1) [0..<?n] = replicate ?n (1 :: byte)" by (simp add: map_replicate_const)
  then have "ofold (add_votes a) [0..<?n] [?t] = map_option (\<lambda>t. [t]) (td_adds ?t (replicate ?n 1))"
    using add_votes_fold [of "[0..<?n]" a "\<lambda>_. 1" ?t] vote_at_yes [OF a(3) _ n] by simp
  also have "td_adds ?t (replicate ?n 1) = Some (counted_part a l)"
    using td_adds_yes [of ?t ?n] n a by (simp add: TxDecision_Set_def TxDecision_zero_def counted_part_def)
  finally have av: "ofold (add_votes a) [0..<?n] [?t] = Some [counted_part a l]" by simp
  have fb: "first_bad (env_verify E) puk 0 [counted_part a l] = Some None" using v by simp
  have ad: "add_sets [counted_part a l] ?g = Some \<lparr>tg_TLS = [l], tg_TDS = [TxDecSet_Add s (counted_part a l)]\<rparr>"
    by (simp add: add_sets_def one_upt upd_TDS_def idx_def)
  show ?thesis
    unfolding UpdateTXCache_def single if_False p option.case tls Let_def st av k fb ad by simp
qed

text \<open>The part a member signed, its vote, and what the leader counts are the same message.\<close>

lemma vote_data:
  assumes "tl_HashID l = Sum256 (list_data l)" and "tl_HashID l' = tl_HashID l" and "tl_TxCnt l' = tl_TxCnt l"
  shows "TxDecision_data (vote_of E d l) = TxDecision_data (part_of (db_ID d) l)"
    "TxDecision_data (counted_part (vote_of E d l) l') = TxDecision_data (part_of (db_ID d) l)"
  using assms by (simp_all add: TxDecision_data_def vote_of_def part_of_def counted_part_def TxDecision_zero_def)

lemma HandleTxDecLeader_ok:
  assumes g: "group_of (nt_Db n) p l s" and h: "tl_HashID lm = Sum256 (list_data lm)" "tl_HashID lm = tl_HashID l"
    "tl_TxCnt lm = tl_TxCnt l" and vf: "ecdsa_ok (env_sign Em) (env_verify E)" and d: "db_ShardNum d = 0"
    and m: "idx (gr_Mems G) (unat (db_ID d)) = Some m" "rc_Puk (mem_RealAccount m) = sk_Puk (db_prk d)" "mem_Shard m = 0"
    and sent: "TxDecision_Encode (vote_of Em d lm) = Some sent" "length sent < 2 ^ 32"
    and w: "unat (tl_Round l - db_PrevHeight (nt_Db n)) < 10"
  shows "HandleTxDecLeader E G sent n = Some (None,
    [Signal (TLChan (unat (tl_Round l - db_PrevHeight (nt_Db n)))) (int (unat (db_ID d)))],
    set_db (set_group p \<lparr>tg_TLS = [l], tg_TDS = [TxDecSet_Add s (counted_part (vote_of Em d lm) l)]\<rparr> (nt_Db n)) n)"
proof -
  let ?a = "vote_of Em d lm" let ?c = "counted_part ?a l"
  have wf: "TxDecision_wf ?a" by (rule vote_of_wf [OF vf])
  have f: "td_Single ?a = 0" "td_HashID ?a = tl_HashID l" "td_ID ?a = db_ID d" "td_Target ?a = 0"
    "td_TxCnt ?a = tl_TxCnt l" "td_Decision ?a = yes_vector (unat (tl_TxCnt l))"
    using d h by (simp_all add: vote_of_def TxDecision_zero_def)
  obtain sig where sig: "td_Sig ?a = [sig]"
    "sig = RCSign_Sign (env_sign Em) (env_rnd Em 0) (be_bytes 32 (Sum256 (TxDecision_data (part_of (db_ID d) lm)))) (db_prk d)"
    by (simp add: vote_of_def TxDecision_zero_def)
  have D: "TxDecision_Decode TxDecision_zero sent = DOk ?a []"
    using TxDecision_Decode_enc [OF wf sent(1), of "[]"] sent(2) f(1) by (simp add: TxDecision_view_def)
  have puk: "puk_of G (db_ID d) = Some (sk_Puk (db_prk d))"
    unfolding puk_of_def account_of_def m(1) by (simp add: m(2))
  note dat = vote_data [OF h(1), of l Em d]
  have V: "TxDecision_Verify (env_verify E) ?a (sk_Puk (db_prk d)) 0 = Some True"
    "TxDecision_Verify (env_verify E) ?c (sk_Puk (db_prk d)) 0 = Some True"
    using dat h sig by (simp_all add: TxDecision_Verify_def counted_part_def idx_def RCSign_Verify_Sign [OF vf])
  have n32: "unat (tl_TxCnt l) < 2 ^ 32" using unsigned_less [of "tl_TxCnt l", where ?'a = nat] by simp
  have len: "\<not> length (td_Decision ?a) * 8 < unat (td_TxCnt ?a)" using n32 by (simp add: f yes_length)
  have sn: "db_ShardNum (nt_Db n) = 0" using g by (simp add: group_of_def)
  have P: "PreTxDecision E G (nt_Db n) ?a (td_HashID ?a) = Some (None, ?a)"
    unfolding PreTxDecision_def Let_def if_not_P [OF len] f(1,2,3,4) sn m(1) puk
    using m(3) V(1) sig(1) len by (simp add: f)
  have U: "UpdateTXCache E G (nt_Db n) ?a 0 = Some (None,
      set_group p \<lparr>tg_TLS = [l], tg_TDS = [TxDecSet_Add s ?c]\<rparr> (nt_Db n), tl_Round l - db_PrevHeight (nt_Db n))"
    by (rule UpdateTXCache_ok [OF g f(1,2,6) sig(1) puk [folded f(3)] V(2)])
  show ?thesis
    unfolding HandleTxDecLeader_def D dres.case P option.case prod.case U
    using w by (simp add: chan_at_def NumTxListPerEpoch_def f)
qed

section \<open>The groups of a leader\<close>

text \<open>What the leader does with its groups, as a step relation: it starts, adds a transaction, opens
  a round (\<open>BuildTDS\<close> and \<open>NewTxList\<close>, as \<open>TxListProcess\<close> does), counts a decision, signs the
  sets of a group, releases a group, and clears its state for the next epoch.\<close>

inductive leader_step :: "env \<Rightarrow> Group \<Rightarrow> 'd DbRef \<Rightarrow> 'd DbRef \<Rightarrow> bool" for E :: env and G :: Group where
  start: "db_Now d = None \<Longrightarrow> NewTxList d = Some (r, d') \<Longrightarrow> leader_step E G d d'"
| add: "MakeTXList d tx = Some (r, d') \<Longrightarrow> leader_step E G d d'"
| openl: "BuildTDS E d = Some d1 \<Longrightarrow> NewTxList d1 = Some (r, d') \<Longrightarrow> leader_step E G d d'"
| decide: "UpdateTXCache E G d a x = Some (r, d', y) \<Longrightarrow> leader_step E G d d'"
| sign: "SignTDS E d p = Some d' \<Longrightarrow> leader_step E G d d'"
| release: "Release d p = Some d' \<Longrightarrow> leader_step E G d d'"
| clear: "DbRef_Clear E G d = Some d' \<Longrightarrow> leader_step E G d d'"

text \<open>Every group has one list, whose count does not exceed it, and one set. The index has a group
  under the hash of its list, and never the group that is being filled.\<close>

definition list_le :: "TxList \<Rightarrow> bool" where
  "list_le l \<longleftrightarrow> unat (tl_TxCnt l) \<le> length (tl_TxArray l)"

definition group_ok :: "TLGroup \<Rightarrow> bool" where
  "group_ok g \<longleftrightarrow> (\<exists>l s. g = \<lparr>tg_TLS = [l], tg_TDS = [s]\<rparr> \<and> list_le l)"

definition group_list :: "TLGroup \<Rightarrow> TxList" where
  "group_list g = hd (tg_TLS g)"

definition filed :: "'d DbRef \<Rightarrow> hash \<Rightarrow> nat \<Rightarrow> bool" where
  "filed d h p \<longleftrightarrow> p < length (db_groups d) \<and> tl_HashID (group_list (db_groups d ! p)) = h
     \<and> TxList_Hash (group_list (db_groups d ! p)) = Some h"

definition leader_inv :: "'d DbRef \<Rightarrow> bool" where
  "leader_inv d \<longleftrightarrow> db_ShardNum d = 0 \<and> list_all group_ok (db_groups d)
     \<and> (\<forall>p. db_Now d = Some p \<longrightarrow> p < length (db_groups d))
     \<and> (\<forall>h p. db_TLIndex d h = Some p \<longrightarrow> db_Now d \<noteq> Some p \<and> filed d h p)"

lemma leader_invD:
  assumes "leader_inv d"
  shows "db_ShardNum d = 0" "list_all group_ok (db_groups d)" "db_Now d = Some p \<Longrightarrow> p < length (db_groups d)"
    "db_TLIndex d h = Some p \<Longrightarrow> db_Now d \<noteq> Some p" "db_TLIndex d h = Some p \<Longrightarrow> filed d h p"
  using assms by (auto simp: leader_inv_def)

lemma set_group_fields [simp]:
  "db_ShardNum (set_group p g d) = db_ShardNum d" "db_Now (set_group p g d) = db_Now d"
  "db_TLIndex (set_group p g d) = db_TLIndex d" "length (db_groups (set_group p g d)) = length (db_groups d)"
  by (simp_all add: set_group_def)

lemma filed_set_group:
  "group_list g = group_list (db_groups d ! q) \<or> p \<noteq> q \<Longrightarrow> filed (set_group q g d) h p \<longleftrightarrow> filed d h p"
  by (cases "p = q"; cases "q < length (db_groups d)") (auto simp: filed_def set_group_def)

lemma groups_set_group: "list_all group_ok (db_groups d) \<Longrightarrow> group_ok g \<Longrightarrow> list_all group_ok (db_groups (set_group p g d))"
  by (auto simp: list_all_iff set_group_def dest!: set_update_subset_insert [THEN subsetD])

lemma list_le_hash: "list_le l \<Longrightarrow> \<exists>h. TxList_Hash l = Some h"
  by (simp add: list_le_def TxList_Hash_def TxList_data_def for_upto_def)

lemma list_le_AddTx: "list_le l \<Longrightarrow> list_le (TxList_AddTx l t)"
proof -
  assume l: "list_le l"
  have "unat (tl_TxCnt l + 1) \<le> unat (tl_TxCnt l) + 1" by (simp add: unat_word_ariths)
  with l show ?thesis by (simp add: list_le_def TxList_AddTx_def)
qed

lemma group_okE:
  assumes "leader_inv d" and "group_at d p = Some g"
  obtains l s where "g = \<lparr>tg_TLS = [l], tg_TDS = [s]\<rparr>" "list_le l" "p < length (db_groups d)" "db_groups d ! p = g"
proof -
  have p: "p < length (db_groups d)" "db_groups d ! p = g" using assms(2) by (simp_all add: group_at_def)
  then have "group_ok g" using leader_invD(2) [OF assms(1)] nth_mem by (auto simp: list_all_iff)
  with p that show ?thesis by (auto simp: group_ok_def)
qed

text \<open>Groups of one shard.\<close>

lemma upd_TLS_one: "upd_TLS f 0 \<lparr>tg_TLS = [l], tg_TDS = ss\<rparr> = map_option (\<lambda>l'. \<lparr>tg_TLS = [l'], tg_TDS = ss\<rparr>) (f l)"
  by (simp add: upd_TLS_def idx_def)

lemma upd_TDS_one: "upd_TDS f 0 \<lparr>tg_TLS = ls, tg_TDS = [s]\<rparr> = map_option (\<lambda>s'. \<lparr>tg_TLS = ls, tg_TDS = [s']\<rparr>) (f s)"
  by (simp add: upd_TDS_def idx_def)

text \<open>The set of a group may change, and the list of the current group.\<close>

lemma leader_inv_set_group:
  assumes inv: "leader_inv d" and g: "group_ok g"
    and p: "group_list g = group_list (db_groups d ! p) \<or> db_Now d = Some p"
  shows "leader_inv (set_group p g d)"
proof -
  have "db_Now d \<noteq> Some q \<and> filed (set_group p g d) h q" if i: "db_TLIndex d h = Some q" for h q
    using leader_invD(4,5) [OF inv i] p filed_set_group [of g d p q h] by auto
  then show ?thesis
    using leader_invD(1-3) [OF inv] groups_set_group [OF _ g] by (auto simp: leader_inv_def)
qed

lemma fold_AddTx:
  "ofold (\<lambda>t. upd_TLS (\<lambda>l. Some (TxList_AddTx l t)) 0) ts \<lparr>tg_TLS = [l], tg_TDS = ss\<rparr>
     = Some \<lparr>tg_TLS = [foldl TxList_AddTx l ts], tg_TDS = ss\<rparr>"
  by (induction ts arbitrary: l) (simp_all add: upd_TLS_one)

lemma foldl_AddTx_le: "list_le l \<Longrightarrow> list_le (foldl TxList_AddTx l ts)"
  by (induction ts arbitrary: l) (simp_all add: list_le_AddTx)

lemma new_group_ok:
  assumes "db_ShardNum d = 0"
  shows "\<exists>l. new_group d = Some \<lparr>tg_TLS = [l], tg_TDS = [TxDecSet_zero]\<rparr> \<and> list_le l
    \<and> tl_Round l = db_TLRound d \<and> tl_ID l = db_ID d"
proof -
  have z: "TLGroup_zero = \<lparr>tg_TLS = [TxList_zero], tg_TDS = [TxDecSet_zero]\<rparr>" by (simp add: TLGroup_zero_def one_upt)
  let ?l = "foldl TxList_AddTx TxList_zero (db_Ready d)"
  have le: "list_le ?l" by (rule foldl_AddTx_le) (simp add: list_le_def TxList_zero_def)
  have u: "upd_TLS f 0 TLGroup_zero = map_option (\<lambda>l'. \<lparr>tg_TLS = [l'], tg_TDS = [TxDecSet_zero]\<rparr>) (f TxList_zero)" for f
    unfolding z by (rule upd_TLS_one)
  have n: "new_group d = Some \<lparr>tg_TLS = [?l\<lparr>tl_ID := db_ID d, tl_Round := db_TLRound d\<rparr>], tg_TDS = [TxDecSet_zero]\<rparr>"
    using assms by (simp add: new_group_def z fold_AddTx one_upt upd_TLS_one)
  show ?thesis unfolding n using le by (simp add: list_le_def)
qed

lemma NewTxList_ok:
  assumes inv: "leader_inv d" and now: "\<And>p. db_Now d = Some p \<Longrightarrow> \<exists>h. filed d h p"
  shows "\<exists>d' l. NewTxList d = Some (None, d') \<and> leader_inv d' \<and> db_Now d' = Some (length (db_groups d))
    \<and> db_groups d' = db_groups d @ [\<lparr>tg_TLS = [l], tg_TDS = [TxDecSet_zero]\<rparr>]
    \<and> (\<forall>p h. db_Now d = Some p \<and> filed d h p \<longrightarrow> db_TLIndex d' h = Some p)
    \<and> tl_ID l = db_ID d \<and> db_PrevHeight d' = db_PrevHeight d \<and> db_ShardNum d' = 0"
proof -
  obtain d1 where f: "file_now d = Some d1" and d1: "db_groups d1 = db_groups d" "db_ShardNum d1 = 0" "db_ID d1 = db_ID d"
      "db_PrevHeight d1 = db_PrevHeight d"
    and ix: "\<And>h p. db_TLIndex d1 h = Some p \<Longrightarrow> db_TLIndex d h = Some p \<or> db_Now d = Some p \<and> filed d h p"
    and new: "\<And>p h. db_Now d = Some p \<and> filed d h p \<Longrightarrow> db_TLIndex d1 h = Some p"
  proof (cases "db_Now d")
    case None
    then show thesis using that [of d] leader_invD(1) [OF inv] by (simp add: file_now_def)
  next
    case (Some p)
    then obtain h where h: "filed d h p" using now by blast
    have p: "group_at d p = Some (db_groups d ! p)" using h by (simp add: group_at_def filed_def)
    from group_okE [OF inv p] obtain l s where g: "db_groups d ! p = \<lparr>tg_TLS = [l], tg_TDS = [s]\<rparr>" by metis
    have H: "TxList_Hash l = Some h" using h g by (simp add: filed_def group_list_def)
    define e where "e = d\<lparr>db_TLIndex := (db_TLIndex d)(h \<mapsto> p), db_TLRound := db_TLRound d + 1\<rparr>"
    have F: "file_now d = Some e"
      unfolding file_now_def Some option.case p leader_invD(1) [OF inv] g e_def by (simp add: H idx_def)
    have u: "h' = h" if "filed d h' p" for h' using that h by (simp add: filed_def)
    have I: "db_TLIndex e = (db_TLIndex d)(h \<mapsto> p)" by (simp add: e_def)
    show thesis
    proof (rule that [OF F])
      show "db_TLIndex d h' = Some q \<or> db_Now d = Some q \<and> filed d h' q" if "db_TLIndex e h' = Some q" for h' q
        using that h Some by (cases "h' = h") (simp_all add: I)
      show "db_TLIndex e h' = Some q" if "db_Now d = Some q \<and> filed d h' q" for q h'
        using that u Some by (simp add: I)
    qed (simp_all add: e_def leader_invD(1) [OF inv])
  qed
  obtain l where l: "new_group d1 = Some \<lparr>tg_TLS = [l], tg_TDS = [TxDecSet_zero]\<rparr>" "list_le l" "tl_ID l = db_ID d1"
    using new_group_ok [OF d1(2)] by blast
  let ?g = "\<lparr>tg_TLS = [l], tg_TDS = [TxDecSet_zero]\<rparr>"
  let ?d = "d1\<lparr>db_BandCnt := 0, db_Now := Some (length (db_groups d1)), db_groups := db_groups d1 @ [?g]\<rparr>"
  have N: "NewTxList d = Some (None, ?d)" by (simp add: NewTxList_def f l(1))
  have fi: "filed ?d h p \<and> p < length (db_groups d)" if "db_TLIndex d1 h = Some p" for h p
    using ix [OF that] leader_invD(5) [OF inv] d1(1) by (auto simp: filed_def nth_append)
  have "leader_inv ?d"
    using fi leader_invD(2) [OF inv] d1 l(2) by (auto simp: leader_inv_def group_ok_def)
  with N new d1 l(3) show ?thesis by (intro exI [of _ ?d] exI [of _ l]) simp
qed

lemma BuildTDS_ok:
  assumes inv: "leader_inv d" and p: "db_Now d = Some p" "group_at d p = Some \<lparr>tg_TLS = [l], tg_TDS = [s]\<rparr>"
  shows "\<exists>l' s'. TxList_Sign (env_sign E) (env_rnd E 0) l (db_prk d) = Some l' \<and> TxDecSet_Set s l' 0 1 = Some s'
    \<and> BuildTDS E d = Some (set_group p \<lparr>tg_TLS = [l'], tg_TDS = [s']\<rparr> (d\<lparr>db_TxCnt := db_TxCnt d + tl_TxCnt l'\<rparr>))"
proof -
  obtain "list_le l" using group_okE [OF inv p(2)] by auto
  then obtain h where h: "TxList_Hash l = Some h" using list_le_hash by blast
  then obtain l' where l': "TxList_Sign (env_sign E) (env_rnd E 0) l (db_prk d) = Some l'" by (simp add: TxList_Sign_def)
  obtain s' where s': "TxDecSet_Set s l' 0 1 = Some s'" by (simp add: TxDecSet_Set_def Let_def)
  note n = leader_invD(1) [OF inv]
  have sl: "sign_lists E d \<lparr>tg_TLS = [l], tg_TDS = [s]\<rparr> = Some \<lparr>tg_TLS = [l'], tg_TDS = [s]\<rparr>"
    by (simp add: sign_lists_def n one_upt upd_TLS_one l')
  have bs: "build_sets d \<lparr>tg_TLS = [l'], tg_TDS = [s]\<rparr> = Some \<lparr>tg_TLS = [l'], tg_TDS = [s']\<rparr>"
    by (simp add: build_sets_def n one_upt upd_TDS_one idx_def s')
  have "BuildTDS E d = Some (set_group p \<lparr>tg_TLS = [l'], tg_TDS = [s']\<rparr> (d\<lparr>db_TxCnt := db_TxCnt d + tl_TxCnt l'\<rparr>))"
    unfolding BuildTDS_def p option.case sl bs n by (simp add: idx_def bs)
  with l' s' show ?thesis by blast
qed

lemma signed_filed:
  assumes inv: "leader_inv d" and p: "db_Now d = Some p" and l: "list_le l" and l': "TxList_Sign sg rnd l prk = Some l'"
  shows "leader_inv (set_group p \<lparr>tg_TLS = [l'], tg_TDS = [s']\<rparr> d)"
    "filed (set_group p \<lparr>tg_TLS = [l'], tg_TDS = [s']\<rparr> d) (tl_HashID l') p" "list_le l'"
proof -
  note f = TxList_Sign_fields [OF l']
  have cnt: "tl_TxCnt l' = tl_TxCnt l" "tl_TxArray l' = tl_TxArray l" using l' by (auto simp: TxList_Sign_def)
  then show le: "list_le l'" using l by (simp add: list_le_def)
  show "leader_inv (set_group p \<lparr>tg_TLS = [l'], tg_TDS = [s']\<rparr> d)"
    by (rule leader_inv_set_group [OF inv]) (use le p in \<open>auto simp: group_ok_def\<close>)
  show "filed (set_group p \<lparr>tg_TLS = [l'], tg_TDS = [s']\<rparr> d) (tl_HashID l') p"
    using f leader_invD(3) [OF inv p] by (simp add: filed_def set_group_def group_list_def)
qed

lemma leader_inv_cnt: "leader_inv (d\<lparr>db_TxCnt := c\<rparr>) \<longleftrightarrow> leader_inv d"
  by (simp add: leader_inv_def filed_def)

text \<open>Opening a round: the list is signed and filed under its hash.\<close>

lemma open_ok:
  assumes inv: "leader_inv d" and p: "db_Now d = Some p" "group_at d p = Some \<lparr>tg_TLS = [l], tg_TDS = [s]\<rparr>"
  shows "\<exists>l' s' d1 d2. TxList_Sign (env_sign E) (env_rnd E 0) l (db_prk d) = Some l' \<and> BuildTDS E d = Some d1
    \<and> db_Now d1 = Some p \<and> group_at d1 p = Some \<lparr>tg_TLS = [l'], tg_TDS = [s']\<rparr> \<and> db_ShardNum d1 = 0
    \<and> db_TLCheck d1 = db_TLCheck d \<and> db_TLSCache d1 = db_TLSCache d \<and> db_PrevHeight d1 = db_PrevHeight d
    \<and> (\<forall>chk c. \<exists>d2. NewTxList (d1\<lparr>db_TLCheck := chk, db_TLSCache := c\<rparr>) = Some (None, d2) \<and> leader_inv d2
         \<and> group_of d2 p l' s' \<and> db_PrevHeight d2 = db_PrevHeight d)
    \<and> NewTxList d1 = Some (None, d2) \<and> leader_inv d2"
proof -
  obtain le: "list_le l" and pl: "p < length (db_groups d)" using group_okE [OF inv p(2)] by auto
  obtain l' s' where l': "TxList_Sign (env_sign E) (env_rnd E 0) l (db_prk d) = Some l'"
    and B: "BuildTDS E d = Some (set_group p \<lparr>tg_TLS = [l'], tg_TDS = [s']\<rparr> (d\<lparr>db_TxCnt := db_TxCnt d + tl_TxCnt l'\<rparr>))"
    using BuildTDS_ok [OF inv p, of E] by blast
  let ?d1 = "set_group p \<lparr>tg_TLS = [l'], tg_TDS = [s']\<rparr> (d\<lparr>db_TxCnt := db_TxCnt d + tl_TxCnt l'\<rparr>)"
  have sf: "leader_inv ?d1" "filed ?d1 (tl_HashID l') p"
    using signed_filed(1,2) [where s' = s' and d = "d\<lparr>db_TxCnt := db_TxCnt d + tl_TxCnt l'\<rparr>" and p = p, OF _ _ le l'] inv p by (simp_all add: leader_inv_cnt)
  have g1: "group_at ?d1 p = Some \<lparr>tg_TLS = [l'], tg_TDS = [s']\<rparr>" using pl by (simp add: group_at_def set_group_def)
  have more: "\<exists>d2. NewTxList e = Some (None, d2) \<and> leader_inv d2 \<and> group_of d2 p l' s' \<and> db_PrevHeight d2 = db_PrevHeight d"
    if e: "e = ?d1\<lparr>db_TLCheck := chk, db_TLSCache := c\<rparr>" for e chk c
  proof -
    have i: "leader_inv e" using sf(1) by (simp add: e leader_inv_def filed_def)
    have f: "filed e (tl_HashID l') p" using sf(2) by (simp add: e filed_def)
    have n: "db_Now e = Some p" "db_groups e = db_groups ?d1" "db_PrevHeight e = db_PrevHeight d"
      using p by (simp_all add: e set_group_def)
    obtain d2 k where d2: "NewTxList e = Some (None, d2)" "leader_inv d2" "db_groups d2 = db_groups e @ [k]"
      "\<forall>p h. db_Now e = Some p \<and> filed e h p \<longrightarrow> db_TLIndex d2 h = Some p" "db_PrevHeight d2 = db_PrevHeight e" "db_ShardNum d2 = 0"
      using NewTxList_ok [OF i] f n(1) by auto
    have "group_at d2 p = Some \<lparr>tg_TLS = [l'], tg_TDS = [s']\<rparr>"
      using g1 d2(3) n(2) by (auto simp: group_at_def idx_def nth_append split: if_splits)
    then have "group_of d2 p l' s'" using d2(4,6) f n(1) by (simp add: group_of_def)
    with d2 n(3) show ?thesis by auto
  qed
  have m1: "\<forall>chk c. \<exists>d2. NewTxList (?d1\<lparr>db_TLCheck := chk, db_TLSCache := c\<rparr>) = Some (None, d2) \<and> leader_inv d2
      \<and> group_of d2 p l' s' \<and> db_PrevHeight d2 = db_PrevHeight d"
    using more by blast
  have "?d1 = ?d1\<lparr>db_TLCheck := db_TLCheck ?d1, db_TLSCache := db_TLSCache ?d1\<rparr>" by simp
  from more [OF this] obtain d2 where d2: "NewTxList ?d1 = Some (None, d2)" "leader_inv d2" by blast
  have n: "db_Now ?d1 = Some p" "db_ShardNum ?d1 = 0" "db_TLCheck ?d1 = db_TLCheck d" "db_TLSCache ?d1 = db_TLSCache d"
    "db_PrevHeight ?d1 = db_PrevHeight d"
    using p leader_invD(1) [OF inv] by (simp_all add: set_group_def)
  show ?thesis
    using l' B n g1 m1 d2 by (intro exI [of _ l'] exI [of _ s'] exI [of _ ?d1] exI [of _ d2]) blast
qed

text \<open>Every step keeps the invariant.\<close>

lemma UpdateTXCache_cases:
  assumes "UpdateTXCache E G d a x = Some (r, d', y)"
  shows "d' = d \<or> (\<exists>p g g' tds. group_at d p = Some g \<and> add_sets tds g = Some g' \<and> d' = set_group p g' d)"
  using assms by (auto simp: UpdateTXCache_def Let_def split: option.splits if_splits)

lemma leader_inv_set:
  assumes inv: "leader_inv d" and g: "group_at d p = Some g"
    and s: "\<And>l s. g = \<lparr>tg_TLS = [l], tg_TDS = [s]\<rparr> \<Longrightarrow> \<exists>s'. g' = \<lparr>tg_TLS = [l], tg_TDS = [s']\<rparr>"
  shows "leader_inv (set_group p g' d)"
proof -
  obtain l t where l: "g = \<lparr>tg_TLS = [l], tg_TDS = [t]\<rparr>" "list_le l" "db_groups d ! p = g"
    using group_okE [OF inv g] by metis
  then obtain s' where "g' = \<lparr>tg_TLS = [l], tg_TDS = [s']\<rparr>" using s by blast
  then show ?thesis using l by (intro leader_inv_set_group [OF inv]) (auto simp: group_ok_def group_list_def)
qed

lemma Release_inv:
  assumes "leader_inv d" and "Release d p = Some d'"
  shows "leader_inv d'"
proof -
  obtain k where d': "d' = d\<lparr>db_TLIndex := (db_TLIndex d)(k := None)\<rparr>"
    using assms(2) by (auto simp: Release_def split: option.splits)
  have "filed d' h q = filed d h q" for h q by (simp add: d' filed_def)
  with assms(1) show ?thesis by (simp add: leader_inv_def d')
qed

lemma MakeTXList_inv:
  assumes inv: "leader_inv d" and m: "MakeTXList d tx = Some (r, d')"
  shows "leader_inv d'"
proof -
  have add: "leader_inv d''" if i: "leader_inv e" and n: "db_Now e = Some p" and g: "group_at e p = Some g"
    and a: "map_option (\<lambda>g'. (None, set_group p g' e)) (ofold (upd_TLS (\<lambda>l. Some (TxList_AddTx l tx))) all_shards g) = Some (r, d'')"
    for e p g d''
  proof -
    obtain l s where l: "g = \<lparr>tg_TLS = [l], tg_TDS = [s]\<rparr>" "list_le l" using group_okE [OF i g] by metis
    then have "d'' = set_group p \<lparr>tg_TLS = [TxList_AddTx l tx], tg_TDS = [s]\<rparr> e"
      using a by (simp add: one_upt upd_TLS_one)
    then show ?thesis
      using leader_inv_set_group [OF i] l(2) n by (auto simp: group_ok_def list_le_AddTx)
  qed
  show ?thesis
  proof (cases "db_Now d")
    case None
    obtain e where e: "NewTxList d = Some (None, e)" "leader_inv e" using NewTxList_ok [OF inv] None by auto
    then show ?thesis using m None add [OF e(2)] by (auto simp: MakeTXList_def split: option.splits)
  next
    case (Some p)
    then show ?thesis using m add [OF inv Some] by (auto simp: MakeTXList_def split: option.splits)
  qed
qed

lemma leader_step_inv:
  assumes "leader_step E G d d'" and inv: "leader_inv d"
  shows "leader_inv d'"
  using assms(1)
proof cases
  case (start r)
  then show ?thesis using NewTxList_ok [OF inv] by auto
next
  case (add tx r)
  then show ?thesis by (rule MakeTXList_inv [OF inv])
next
  case (openl d1 r)
  obtain p g where p: "db_Now d = Some p" "group_at d p = Some g"
    using openl(1) by (auto simp: BuildTDS_def split: option.splits)
  obtain l s where "g = \<lparr>tg_TLS = [l], tg_TDS = [s]\<rparr>" using group_okE [OF inv p(2)] by metis
  then show ?thesis using open_ok [OF inv p(1), of l s E] p(2) openl by auto
next
  case (decide a x r y)
  from UpdateTXCache_cases [OF this] show ?thesis
  proof (elim disjE exE conjE)
    fix p g g' tds
    assume h: "group_at d p = Some g" "add_sets tds g = Some g'" "d' = set_group p g' d"
    have "leader_inv (set_group p g' d)"
      by (rule leader_inv_set [OF inv h(1)])
        (use h(2) in \<open>auto simp: add_sets_def one_upt upd_TDS_one split: option.splits\<close>)
    with h(3) show ?thesis by simp
  qed (simp add: inv)
next
  case (sign p)
  then obtain g g' where h: "group_at d p = Some g" "d' = set_group p g' d"
    "ofold (\<lambda>i. upd_TDS (\<lambda>s. TxDecSet_Sign (env_sign E) (env_rnd E i) s (db_prk d)) i) all_shards g = Some g'"
    by (auto simp: SignTDS_def split: option.splits)
  have "leader_inv (set_group p g' d)"
    by (rule leader_inv_set [OF inv h(1)]) (use h(3) in \<open>auto simp: one_upt upd_TDS_one split: option.splits\<close>)
  with h(2) show ?thesis by simp
next
  case (release p)
  then show ?thesis by (rule Release_inv [OF inv])
next
  case clear
  then show ?thesis using leader_invD(1,2) [OF inv]
    by (auto simp: DbRef_Clear_def Let_def reset_round_def leader_inv_def split: option.splits if_splits)
qed

text \<open>A leader before its first round.\<close>

definition leader_init :: "'d DbRef \<Rightarrow> bool" where
  "leader_init d \<longleftrightarrow> db_ShardNum d = 0 \<and> db_groups d = [] \<and> db_Now d = None \<and> db_TLIndex d = Map.empty"

lemma leader_init_inv: "leader_init d \<Longrightarrow> leader_inv d"
  by (simp add: leader_init_def leader_inv_def)

lemma leader_reach_inv:
  assumes "(leader_step E G)\<^sup>*\<^sup>* d0 d" and "leader_init d0"
  shows "leader_inv d"
  using assms by (induction rule: rtranclp_induct) (blast intro: leader_init_inv leader_step_inv)+

text \<open>A round is opened from any state in which a group is being filled.\<close>

lemma TxListProcess_open_ok:
  assumes inv: "leader_inv (nt_Db n)" and l0: "own_list (nt_Db n) = Some l0" and cnt: "TxList_cnt l0"
    and vf: "ecdsa_ok (env_sign E) vf" and len: "length (db_TLCheck (nt_Db n)) = 10" "length (db_TLSCache (nt_Db n)) = 10"
    and r: "unat (tl_Round l0) < 10"
  shows "\<exists>p l s n1 data. TxListProcess_open E n = Some (p, tl_Round l0, [Spawn (SendTxListP data GossipRound)], n1)
    \<and> TxList_Sign (env_sign E) (env_rnd E 0) l0 (db_prk (nt_Db n)) = Some l \<and> TxList_Encode l = Some data
    \<and> leader_inv (nt_Db n1) \<and> group_of (nt_Db n1) p l s \<and> db_PrevHeight (nt_Db n1) = db_PrevHeight (nt_Db n)"
proof -
  let ?d = "nt_Db n"
  obtain p g where p: "db_Now ?d = Some p" "group_at ?d p = Some g"
    using l0 by (auto simp: own_list_def split: option.splits)
  then obtain l1 s where g: "g = \<lparr>tg_TLS = [l1], tg_TDS = [s]\<rparr>" using group_okE [OF inv p(2)] by metis
  have "l1 = l0" using l0 p g leader_invD(1) [OF inv] by (simp add: own_list_def idx_def)
  with g p(2) have g0: "group_at ?d p = Some \<lparr>tg_TLS = [l0], tg_TDS = [s]\<rparr>" by simp
  obtain l s' d1 where l: "TxList_Sign (env_sign E) (env_rnd E 0) l0 (db_prk ?d) = Some l" and B: "BuildTDS E ?d = Some d1"
    and d1: "db_Now d1 = Some p" "group_at d1 p = Some \<lparr>tg_TLS = [l], tg_TDS = [s']\<rparr>" "db_ShardNum d1 = 0"
      "db_TLCheck d1 = db_TLCheck ?d" "db_TLSCache d1 = db_TLSCache ?d"
    and N: "\<forall>chk c. \<exists>d2. NewTxList (d1\<lparr>db_TLCheck := chk, db_TLSCache := c\<rparr>) = Some (None, d2) \<and> leader_inv d2
         \<and> group_of d2 p l s' \<and> db_PrevHeight d2 = db_PrevHeight ?d"
    using open_ok [OF inv p(1) g0, of E] by blast
  have rl: "tl_Round l = tl_Round l0" using l by (auto simp: TxList_Sign_def)
  have "TxList_cnt l" using cnt l by (auto simp: TxList_Sign_def TxList_cnt_def)
  moreover have "RCSign_wf (tl_Sig l)" using TxList_Sign_fields [OF l] RCSign_Sign_wf [OF vf] by simp
  ultimately have "TxList_wf l" by (simp add: TxList_wf_def)
  then obtain data where e: "TxList_Encode l = Some data" using TxList_Encode_wf by blast
  let ?r = "unat (tl_Round l0)"
  obtain d2 where d2: "NewTxList (d1\<lparr>db_TLCheck := (db_TLCheck ?d)[?r := True], db_TLSCache := (db_TLSCache ?d)[?r := Some l]\<rparr>)
      = Some (None, d2)" "leader_inv d2" "group_of d2 p l s'" "db_PrevHeight d2 = db_PrevHeight ?d"
    using N by blast
  have ls: "map_option tg_TLS (group_at d1 p) = Some [l]" by (simp add: d1(2))
  have me: "idx [l] (unat (db_ShardNum d1)) = Some l" by (simp add: d1(3))
  have put: "put_idx (db_TLCheck d1) ?r True = Some ((db_TLCheck ?d)[?r := True])"
    "put_idx (db_TLSCache d1) ?r (Some l) = Some ((db_TLSCache ?d)[?r := Some l])"
    using len r by (simp_all add: d1(4,5))
  have "TxListProcess_open E n = Some (p, tl_Round l0, [Spawn (SendTxListP data GossipRound)], set_db d2 n)"
    unfolding TxListProcess_open_def B option.case d1(1) ls me Let_def rl e put prod.case d2(1) by simp
  then show ?thesis using l e d2 by (intro exI [of _ p] exI [of _ l] exI [of _ s'] exI [of _ "set_db d2 n"] exI [of _ data])
      (simp add: set_db_def)
qed

section \<open>Properties\<close>

lemma list_data_hash: "TxList_cnt l \<Longrightarrow> TxList_Hash l = Some (Sum256 (list_data l))"
  by (simp add: TxList_Hash_def TxList_data_cnt list_data_def)

lemma counted_part_rep: "td_rep (counted_part a l) (replicate (unat (tl_TxCnt l)) True)"
proof -
  let ?n = "unat (tl_TxCnt l)"
  let ?b = "TxDecision_zero\<lparr>td_ID := td_ID a, td_HashID := tl_HashID l, td_Single := 1, td_Sig := td_Sig a\<rparr>"
  have "td_rep (?b\<lparr>td_TxCnt := of_nat ?n, td_Decision := yes_vector ?n\<rparr>) (replicate ?n True)"
    using td_adds_yes [of ?b ?n] unsigned_less [of "tl_TxCnt l", where ?'a = nat] by (simp add: TxDecision_zero_def)
  then show ?thesis by (simp add: counted_part_def TxDecision_zero_def)
qed

text \<open>C23: One round of an honest shard. From any state a leader can reach, opening a round sends its
  signed list; any copy of it, whatever level and sender it was relayed with, makes a member in
  its epoch answer with a decision; and when the leader handles that answer it reports no error,
  signals the round, and its decision set of the group has one more entry: the member's, with a
  yes for every transaction of the list.\<close>

theorem round_counts:
  assumes reach: "(leader_step El G)\<^sup>*\<^sup>* d0 (nt_Db nl)" "leader_init d0"
    and l0: "own_list (nt_Db nl) = Some l0" "TxList_cnt l0" "unat (tl_Round l0) < 10"
    and tabs: "length (db_TLCheck (nt_Db nl)) = 10" "length (db_TLSCache (nt_Db nl)) = 10"
    and rl: "unat (tl_Round l0 - db_PrevHeight (nt_Db nl)) < 10"
    and vf: "ecdsa_ok (env_sign El) (env_verify El)" "ecdsa_ok (env_sign Em) (env_verify El)"
    and ok: "node_ok (nt_Db nm)" and rm: "unat (tl_Round l0 - db_PrevHeight (nt_Db nm)) < 10"
    and fresh: "\<not> db_TLCheck (nt_Db nm) ! unat (tl_Round l0 - db_PrevHeight (nt_Db nm))"
    and ml: "idx (gr_Mems G) (unat (tl_ID l0)) = Some ml"
    and m: "idx (gr_Mems G) (unat (db_ID (nt_Db nm))) = Some m"
      "rc_Puk (mem_RealAccount m) = sk_Puk (db_prk (nt_Db nm))" "mem_Shard m = 0"
  shows "\<exists>p l s n1 data. TxListProcess_open El nl = Some (p, tl_Round l0, [Spawn (SendTxListP data GossipRound)], n1)
    \<and> TxList_Encode l = Some data \<and> tl_TxArray l = tl_TxArray l0
    \<and> (\<forall>level sender copy. TxList_Encode (l\<lparr>tl_Level := level, tl_Sender := sender\<rparr>) = Some copy \<and> length copy < 2 ^ 32 \<longrightarrow>
        (\<exists>as sent nm'. HandleTxList Em G copy nm = Some (None, as @ [Send (mem_Address ml) (packet ''TxDec'' sent)], nm')
          \<and> (length sent < 2 ^ 32 \<longrightarrow>
              (\<exists>n2 dec. HandleTxDecLeader El G sent n1 = Some (None,
                   [Signal (TLChan (unat (tl_Round l0 - db_PrevHeight (nt_Db nl)))) (int (unat (db_ID (nt_Db nm))))], n2)
                \<and> group_at (nt_Db n2) p = Some \<lparr>tg_TLS = [l], tg_TDS = [TxDecSet_Add s dec]\<rparr>
                \<and> td_ID dec = db_ID (nt_Db nm) \<and> td_rep dec (replicate (length (tl_TxArray l0)) True)))))"
proof -
  have inv: "leader_inv (nt_Db nl)" using leader_reach_inv [OF reach] .
  obtain p l s n1 data where O: "TxListProcess_open El nl = Some (p, tl_Round l0, [Spawn (SendTxListP data GossipRound)], n1)"
    and l: "TxList_Sign (env_sign El) (env_rnd El 0) l0 (db_prk (nt_Db nl)) = Some l" and e: "TxList_Encode l = Some data"
    and g: "group_of (nt_Db n1) p l s" and prev: "db_PrevHeight (nt_Db n1) = db_PrevHeight (nt_Db nl)"
    using TxListProcess_open_ok [OF inv l0(1,2) vf(1) tabs l0(3)] by blast
  have f: "tl_Round l = tl_Round l0" "tl_ID l = tl_ID l0" "tl_TxCnt l = tl_TxCnt l0" "tl_TxArray l = tl_TxArray l0"
    using l by (auto simp: TxList_Sign_def)
  have cnt: "TxList_cnt l" using l0(2) f by (simp add: TxList_cnt_def)
  have wf: "TxList_wf l" using cnt TxList_Sign_fields [OF l] RCSign_Sign_wf [OF vf(1)] by (simp add: TxList_wf_def)
  have h: "tl_HashID l = Sum256 (list_data l)" using TxList_Sign_fields [OF l] list_data_hash [OF cnt] by simp
  have n: "unat (tl_TxCnt l) = length (tl_TxArray l0)" using l0(2) f by (simp add: TxList_cnt_def)
  have "\<exists>as sent nm'. HandleTxList Em G copy nm = Some (None, as @ [Send (mem_Address ml) (packet ''TxDec'' sent)], nm')
      \<and> (length sent < 2 ^ 32 \<longrightarrow>
          (\<exists>n2 dec. HandleTxDecLeader El G sent n1 = Some (None,
               [Signal (TLChan (unat (tl_Round l0 - db_PrevHeight (nt_Db nl)))) (int (unat (db_ID (nt_Db nm))))], n2)
            \<and> group_at (nt_Db n2) p = Some \<lparr>tg_TLS = [l], tg_TDS = [TxDecSet_Add s dec]\<rparr>
            \<and> td_ID dec = db_ID (nt_Db nm) \<and> td_rep dec (replicate (length (tl_TxArray l0)) True)))"
    if c: "TxList_Encode (l\<lparr>tl_Level := level, tl_Sender := sender\<rparr>) = Some copy" "length copy < 2 ^ 32" for level sender copy
  proof -
    let ?c = "l\<lparr>tl_Level := level, tl_Sender := sender\<rparr>"
    have cw: "TxList_wf ?c" and hc: "tl_HashID ?c = Sum256 (list_data ?c)" using wf h by (simp_all add: TxList_wf_def TxList_cnt_def list_data_def)
    have fc: "tl_Round ?c = tl_Round l0" "tl_ID ?c = tl_ID l0" using f by simp_all
    obtain sent where sent: "TxDecision_Encode (vote_of Em (nt_Db nm) ?c) = Some sent"
      using TxDecision_Encode_wf [OF vote_of_wf [OF vf(2)]] by blast
    obtain as where H: "HandleTxList Em G copy nm = Some (None, as @ [Send (mem_Address ml) (packet ''TxDec'' sent)], set_db (taken Em (nt_Db nm) ?c) nm)"
      using HandleTxList_ok [OF ok cw c, of G ml Em sent] rm l0(3) fresh ml sent unfolding fc by blast
    have "HandleTxDecLeader El G sent n1 = Some (None, [Signal (TLChan (unat (tl_Round l0 - db_PrevHeight (nt_Db nl)))) (int (unat (db_ID (nt_Db nm))))],
        set_db (set_group p \<lparr>tg_TLS = [l], tg_TDS = [TxDecSet_Add s (counted_part (vote_of Em (nt_Db nm) ?c) l)]\<rparr> (nt_Db n1)) n1)"
      if "length sent < 2 ^ 32"
      using HandleTxDecLeader_ok [OF g hc _ _ vf(2) _ m sent that] rl ok f(1) prev by (simp add: node_ok_def)
    moreover have "group_at (set_group p \<lparr>tg_TLS = [l], tg_TDS = ss\<rparr> (nt_Db n1)) p = Some \<lparr>tg_TLS = [l], tg_TDS = ss\<rparr>" for ss
      using g by (simp add: group_of_def group_at_def set_group_def)
    moreover have "td_ID (counted_part (vote_of Em (nt_Db nm) ?c) l) = db_ID (nt_Db nm)"
      by (simp add: counted_part_def vote_of_def TxDecision_zero_def)
    moreover note counted_part_rep [of "vote_of Em (nt_Db nm) ?c" l, unfolded n]
    ultimately show ?thesis using H
      by (intro exI [of _ as] exI [of _ sent] exI [of _ "set_db (taken Em (nt_Db nm) ?c) nm"]) (auto simp: set_db_def)
  qed
  with O e f(4) show ?thesis by blast
qed

text \<open>A shard with member 0 as its leader.\<close>

definition sample_group :: Group where
  "sample_group = \<lparr>gr_Mems = mem_zero\<lparr>mem_Role := 0\<rparr> # replicate 19 mem_zero, gr_ShardToGlobal = [map int [0..<20]]\<rparr>"

definition sample_net :: "u32 \<Rightarrow> mem_db Net" where
  "sample_net i = \<lparr>nt_Db = sample_node i, nt_Epoch = 0, nt_BatchCache = replicate 10 [], nt_CoSiFlag = False, nt_SyncFlag = False\<rparr>"

definition sample_leader :: "mem_db Net" where
  "sample_leader = set_db ((sample_node 0)\<lparr>db_Now := Some 0, db_groups := [\<lparr>tg_TLS = [TxList_zero], tg_TDS = [TxDecSet_zero]\<rparr>]\<rparr>) (sample_net 0)"

lemma sample_node_fields:
  "db_ShardNum (sample_node i) = 0" "db_groups (sample_node i) = []" "db_Now (sample_node i) = None" "db_TLIndex (sample_node i) = Map.empty"
  "db_Ready (sample_node i) = []" "db_TLRound (sample_node i) = 0" "db_ID (sample_node i) = i" "db_PrevHeight (sample_node i) = 0"
  "db_BandCnt (sample_node i) = 0" "db_TLCheck (sample_node i) = replicate 10 False" "db_TLSCache (sample_node i) = replicate 10 None"
  "db_TDSCheck (sample_node i) = replicate 10 False" "db_Leader (sample_node i) = 0"
  "db_RepRound (sample_node i) = 0" "db_prk (sample_node i) = \<lparr>sk_Puk = \<lparr>pk_X = None, pk_Y = None\<rparr>, sk_D = 0\<rparr>"
  by (simp_all add: sample_node_def DbRef_zero_def NumTxListPerEpoch_def)

lemma sample_leader_step: "leader_step toy_env sample_group (sample_node 0) (nt_Db sample_leader)"
proof (rule leader_step.start)
  have z: "TLGroup_zero = \<lparr>tg_TLS = [TxList_zero], tg_TDS = [TxDecSet_zero]\<rparr>" by (simp add: TLGroup_zero_def one_upt)
  have "new_group (sample_node 0) = Some \<lparr>tg_TLS = [TxList_zero], tg_TDS = [TxDecSet_zero]\<rparr>"
    by (simp add: new_group_def z one_upt upd_TLS_one sample_node_fields) (simp add: TxList_zero_def)
  then show "NewTxList (sample_node 0) = Some (None, nt_Db sample_leader)"
    by (simp add: NewTxList_def file_now_def sample_node_fields sample_leader_def set_db_def)
qed (simp add: sample_node_fields)

lemma sample_init: "leader_init (sample_node 0)"
  by (simp add: leader_init_def sample_node_fields)

lemma sample_member:
  assumes "unat i < 20"
  shows "node_ok (nt_Db (sample_net i))" "idx (gr_Mems sample_group) (unat i) = Some ((if i = 0 then mem_zero\<lparr>mem_Role := 0\<rparr> else mem_zero))"
proof -
  have "rep_shape (sample_node i)" using sample_node_inv [OF assms, of 0] by (simp add: fir_inv_def)
  then show "node_ok (nt_Db (sample_net i))"
    by (simp add: node_ok_def sample_net_def sample_node_fields)
  show "idx (gr_Mems sample_group) (unat i) = Some ((if i = 0 then mem_zero\<lparr>mem_Role := 0\<rparr> else mem_zero))"
    using assms by (auto simp: sample_group_def nth_Cons' unat_eq_zero)
qed

theorem round_counts_witness:
  "\<exists>p l n1 data. TxListProcess_open toy_env sample_leader = Some (p, 0, [Spawn (SendTxListP data GossipRound)], n1)
     \<and> TxList_Encode l = Some data \<and> tl_TxArray l = []"
proof -
  have reach: "(leader_step toy_env sample_group)\<^sup>*\<^sup>* (sample_node 0) (nt_Db sample_leader)"
    using sample_leader_step by (rule r_into_rtranclp)
  have own: "own_list (nt_Db sample_leader) = Some TxList_zero"
    by (simp add: own_list_def sample_leader_def set_db_def group_at_def idx_def sample_node_fields)
  have z: "TxList_cnt TxList_zero" "unat (tl_Round TxList_zero) < 10" "tl_Round TxList_zero = 0" "tl_ID TxList_zero = 0"
    "tl_TxArray TxList_zero = []"
    by (simp_all add: TxList_cnt_def TxList_zero_def)
  have d: "length (db_TLCheck (nt_Db sample_leader)) = 10" "length (db_TLSCache (nt_Db sample_leader)) = 10"
    "db_PrevHeight (nt_Db sample_leader) = 0"
    by (simp_all add: sample_leader_def set_db_def sample_node_fields)
  have r: "unat (tl_Round TxList_zero - db_PrevHeight (nt_Db sample_leader)) < 10"
    "unat (tl_Round TxList_zero - db_PrevHeight (nt_Db (sample_net 1))) < 10"
    "\<not> db_TLCheck (nt_Db (sample_net 1)) ! unat (tl_Round TxList_zero - db_PrevHeight (nt_Db (sample_net 1)))"
    by (simp_all add: z d sample_net_def sample_node_fields)
  have vf: "ecdsa_ok (env_sign toy_env) (env_verify toy_env)" using toy_ecdsa by (simp add: toy_env_def)
  have u1: "unat (1 :: u32) < 20" "unat (0 :: u32) < 20" by simp_all
  have id1: "db_ID (nt_Db (sample_net 1)) = 1" by (simp add: sample_net_def sample_node_fields)
  have m: "idx (gr_Mems sample_group) (unat (db_ID (nt_Db (sample_net 1)))) = Some mem_zero"
    "rc_Puk (mem_RealAccount mem_zero) = sk_Puk (db_prk (nt_Db (sample_net 1)))" "mem_Shard mem_zero = 0"
    using sample_member(2) [OF u1(1)] by (simp_all add: id1) (simp_all add: mem_zero_def sample_net_def sample_node_fields)
  have ml: "idx (gr_Mems sample_group) (unat (tl_ID TxList_zero)) = Some (mem_zero\<lparr>mem_Role := 0\<rparr>)"
    using sample_member(2) [OF u1(2)] by (simp add: z)
  show ?thesis
    using round_counts [OF reach sample_init own z(1,2) d(1,2) r(1) vf vf sample_member(1) [OF u1(1)] r(2,3) ml m] z(3,5) by auto
qed

text \<open>C24: In every state a leader can reach, an indexed group has one list and one set, is filed under
  the hash its list carries and hashes to, and is not the group that is being filled: what a
  member signed is never changed behind its back.\<close>

theorem leader_index:
  assumes "(leader_step E G)\<^sup>*\<^sup>* d0 d" and "leader_init d0" and "db_TLIndex d h = Some p"
  shows "db_Now d \<noteq> Some p \<and> (\<exists>l s. group_at d p = Some \<lparr>tg_TLS = [l], tg_TDS = [s]\<rparr> \<and> tl_HashID l = h \<and> TxList_Hash l = Some h)"
proof -
  have inv: "leader_inv d" using leader_reach_inv [OF assms(1,2)] .
  have f: "filed d h p" "db_Now d \<noteq> Some p" using leader_invD(4,5) [OF inv assms(3)] by simp_all
  then have g: "group_at d p = Some (db_groups d ! p)" by (simp add: group_at_def filed_def)
  obtain l s where "db_groups d ! p = \<lparr>tg_TLS = [l], tg_TDS = [s]\<rparr>" using group_okE [OF inv g] by metis
  with f g show ?thesis by (simp add: filed_def group_list_def)
qed

text \<open>A leader that opened its first round.\<close>

lemma sample_opened:
  "\<exists>d1 h. (leader_step toy_env sample_group)\<^sup>*\<^sup>* (sample_node 0) d1 \<and> db_TLIndex d1 h = Some 0"
proof -
  let ?d = "nt_Db sample_leader"
  have inv: "leader_inv ?d" by (rule leader_step_inv [OF sample_leader_step leader_init_inv [OF sample_init]])
  have p: "db_Now ?d = Some 0" "group_at ?d 0 = Some \<lparr>tg_TLS = [TxList_zero], tg_TDS = [TxDecSet_zero]\<rparr>"
    by (simp_all add: sample_leader_def set_db_def group_at_def idx_def)
  from open_ok [OF inv p, of toy_env] obtain l' s' d1 where B: "BuildTDS toy_env ?d = Some d1"
    and N: "\<forall>chk c. \<exists>d2. NewTxList (d1\<lparr>db_TLCheck := chk, db_TLSCache := c\<rparr>) = Some (None, d2) \<and> leader_inv d2
         \<and> group_of d2 0 l' s' \<and> db_PrevHeight d2 = db_PrevHeight ?d" by blast
  have "d1 = d1\<lparr>db_TLCheck := db_TLCheck d1, db_TLSCache := db_TLSCache d1\<rparr>" by simp
  with N obtain d2 where d2: "NewTxList d1 = Some (None, d2)" "group_of d2 0 l' s'" by metis
  have "leader_step toy_env sample_group ?d d2" by (rule leader_step.openl [OF B d2(1)])
  with sample_leader_step have "(leader_step toy_env sample_group)\<^sup>*\<^sup>* (sample_node 0) d2"
    by (blast intro: converse_rtranclp_into_rtranclp)
  with d2(2) show ?thesis by (auto simp: group_of_def)
qed

theorem leader_index_witness:
  "\<exists>d1 h l s. group_at d1 0 = Some \<lparr>tg_TLS = [l], tg_TDS = [s]\<rparr> \<and> TxList_Hash l = Some h
     \<and> db_TLIndex (d1 :: mem_db DbRef) h = Some 0"
proof -
  obtain d1 h where d: "(leader_step toy_env sample_group)\<^sup>*\<^sup>* (sample_node 0) d1" "db_TLIndex d1 h = Some 0"
    using sample_opened by blast
  from leader_index [OF d(1) sample_init d(2)] d(2) show ?thesis by blast
qed

section \<open>What a list is taken for\<close>

lemma ProcessTL_verifier: "ProcessTL (E\<lparr>env_verify := v\<rparr>) = ProcessTL E"
proof -
  have sp: "sign_part (E\<lparr>env_verify := v\<rparr>) = sign_part E" by (intro ext) (simp add: sign_part_def)
  show ?thesis by (intro ext) (simp only: ProcessTL_def sp)
qed

text \<open>No list is ever verified: the outcome of a packet with a list does not depend on the
  verifier, so that a member signs yes to any list from anybody.\<close>

theorem HandleTxList_unverified:
  "HandleTxList (E\<lparr>env_verify := v\<rparr>) G data n = HandleTxList E G data n"
  unfolding HandleTxList_def ProcessTL_verifier by (rule refl)

lemma vote_for_own:
  assumes "vote_for x d = Some d'"
  shows "d' = d\<lparr>db_RepVote := counted x d\<rparr>"
  using assms by (auto simp: vote_for_def counted_def Let_def split: option.splits)

lemma ProcessTL_votes:
  assumes "ProcessTL E d l = Some (d', b)"
  shows "db_RepVote d' = counted (tl_Sender l) d"
  using assms by (auto simp: ProcessTL_def Let_def split: option.splits dest!: vote_for_own)

lemma GetTDS_votes:
  assumes "GetTDS d s = Some (r, d')"
  shows "db_RepVote d' = counted (tds_Sender s) d"
  using assms by (auto simp: GetTDS_def split: option.splits dest!: vote_for_own)

lemma counted_upd [simp]:
  "counted x (d\<lparr>db_TLCheck := c\<rparr>) = counted x d" "counted x (d\<lparr>db_TDSCheck := c\<rparr>) = counted x d"
  "counted x (d\<lparr>db_TDSCnt := k\<rparr>) = counted x d"
  by (simp_all add: counted_def)

lemma PreTxDecSet_sender:
  assumes "PreTxDecSet E G d b s = Some (e, b', s')"
  shows "tds_Sender b' = tds_Sender b"
  using assms by (auto simp: PreTxDecSet_def Let_def split: option.splits if_splits bool.splits)

lemma set_db_fields [simp]: "nt_Db (set_db d n) = d" "nt_Epoch (set_db d n) = nt_Epoch n"
  by (simp_all add: set_db_def)

lemma HandleTxList_votes:
  assumes "HandleTxList E G data n = Some (e, as, n')"
  shows "db_RepVote (nt_Db n') \<in> {db_RepVote (nt_Db n), counted (db_ID (nt_Db n)) (nt_Db n)}"
  using assms
  by (auto simp: HandleTxList_def Let_def split: dres.splits option.splits bool.splits dest!: ProcessTL_votes)

lemma HandleTxBlock_take_sender:
  assumes "HandleTxBlock_take E G data n = Some (Some b, e, as, n')"
  shows "tb_Sender b = db_ID (nt_Db n)"
  using assms by (auto simp: HandleTxBlock_take_def Let_def split: dres.splits option.splits bool.splits if_splits)

lemma HandleTxDecSet_votes:
  assumes "HandleTxDecSet E G t data n = Some (e, as, n')"
  shows "db_RepVote (nt_Db n') \<in> {db_RepVote (nt_Db n), counted (db_ID (nt_Db n)) (nt_Db n)}"
  using assms
  by (auto simp: HandleTxDecSet_def Let_def split: dres.splits option.splits bool.splits if_splits
      dest!: GetTDS_votes PreTxDecSet_sender)

text \<open>A reputation vote is meant for the member that passed a message on, but a node always
  votes for itself: the handlers of lists, sets and blocks overwrite the sender before they count
  it. After a list or a set the votes are unchanged or those with one more for the own number, and
  the block that is handed on for processing has the own number as its sender.\<close>

theorem handlers_vote_for_self:
  "(HandleTxList E G data n = Some (e, as, n') \<or> HandleTxDecSet E G t data n = Some (e, as, n') \<longrightarrow>
      db_RepVote (nt_Db n') \<in> {db_RepVote (nt_Db n), counted (db_ID (nt_Db n)) (nt_Db n)})
   \<and> (HandleTxBlock_take E G data n = Some (Some b, e, as, n') \<longrightarrow> tb_Sender b = db_ID (nt_Db n))"
  by (intro conjI impI) (erule disjE, erule HandleTxList_votes, erule HandleTxDecSet_votes, erule HandleTxBlock_take_sender)

text \<open>A list for the sample shard, and what member 1 does with it.\<close>

lemma sample_taken:
  "\<exists>e as a. TxList_Encode sample_tl = Some e \<and> TxList_Decode TxList_zero e = DOk (TxList_view sample_tl) []
    \<and> HandleTxList toy_env sample_group e (sample_net 1)
        = Some (None, as @ [a], set_db (taken toy_env (sample_node 1) sample_tl) (sample_net 1))"
proof -
  let ?e = "le_bytes 4 (3 :: u32) @ be_bytes 32 (0 :: hash) @ le_bytes 4 (2 :: u32) @ le_bytes 4 (0 :: u32) @ le_bytes 4 (0 :: u32)
      @ le_bytes 4 (2 :: u32) @ be_bytes 32 (5 :: hash) @ be_bytes 32 (6 :: hash)"
  have wf: "TxList_wf sample_tl" by (rule sample_msgs_wf)
  have s: "SignToData sample_sig = Some (le_bytes 4 (2 :: u32) @ [1, 44] @ le_bytes 4 (1 :: u32) @ [5])"
    by (simp add: SignToData_def EncodeDoubleBig_def sample_sig_def nat_bytes.simps)
  have e: "TxList_Encode sample_tl = Some (?e @ le_bytes 4 (2 :: u32) @ [1, 44] @ le_bytes 4 (1 :: u32) @ [5])" (is "_ = Some ?d")
    by (simp add: TxList_Encode_def sample_tl_def TxList_zero_def for_upto_def s)
  have len: "length ?d < 2 ^ 32" by simp
  have D: "TxList_Decode TxList_zero ?d = DOk (TxList_view sample_tl) []"
    using TxList_Decode_enc [OF wf e, of "[]"] len by simp
  have f: "tl_Round sample_tl = 2" "tl_ID sample_tl = 3" "tl_Level sample_tl = 0" by (simp_all add: sample_tl_def TxList_zero_def)
  have n: "nt_Db (sample_net 1) = sample_node 1" by (simp add: sample_net_def)
  have u: "unat (1 :: u32) < 20" "unat (3 :: u32) < 20" by simp_all
  note ok = sample_member(1) [OF u(1)]
  have m: "idx (gr_Mems sample_group) (unat (tl_ID sample_tl)) = Some mem_zero"
    using sample_member(2) [OF u(2)] by (simp add: f)
  obtain sent where sent: "TxDecision_Encode (vote_of toy_env (nt_Db (sample_net 1)) sample_tl) = Some sent"
    using TxDecision_Encode_wf [OF vote_of_wf] toy_ecdsa by (metis env.select_convs(1) toy_env_def)
  from HandleTxList_ok [OF ok wf e len _ _ _ m sent] e D show ?thesis
    by (auto simp: f n sample_node_fields)
qed

theorem handlers_vote_for_self_witness:
  "\<exists>e as n'. HandleTxList toy_env sample_group e (sample_net 1) = Some (None, as, n')
     \<and> db_RepVote (nt_Db n') \<in> {db_RepVote (nt_Db (sample_net 1)), counted (db_ID (nt_Db (sample_net 1))) (nt_Db (sample_net 1))}"
proof -
  obtain e as a where H: "HandleTxList toy_env sample_group e (sample_net 1)
      = Some (None, as @ [a], set_db (taken toy_env (sample_node 1) sample_tl) (sample_net 1))"
    using sample_taken by blast
  from handlers_vote_for_self [of toy_env sample_group e "sample_net 1" None "as @ [a]"
      "set_db (taken toy_env (sample_node 1) sample_tl) (sample_net 1)" 0 TxBlock_zero] H show ?thesis
    by (intro exI [of _ e] exI [of _ "as @ [a]"] exI [of _ "set_db (taken toy_env (sample_node 1) sample_tl) (sample_net 1)"]) (simp only: simp_thms)
qed




text \<open>Packets of messages with the sample signature are short.\<close>

lemma sample_sig_data: "SignToData sample_sig = Some (le_bytes 4 (2 :: u32) @ [1, 44] @ le_bytes 4 (1 :: u32) @ [5])"
  by (simp add: SignToData_def EncodeDoubleBig_def sample_sig_def nat_bytes.simps)


text \<open>A decision set that does not decode up to its signature panics every member but the leader
  that has not got the set of that round: it is encoded again before the error of the decoder is
  looked at. An empty packet is enough.\<close>

theorem bad_set_panics:
  assumes "TxDecSet_Decode TxDecSet_zero data = DErr tmp r e" and "tds_Sig tmp = RCSign_zero"
    and "db_Leader (nt_Db n) \<noteq> db_ID (nt_Db n)"
    and "idx (db_TDSCheck (nt_Db n)) (unat (tds_Round tmp - db_PrevHeight (nt_Db n))) = Some False"
  shows "HandleTxDecSet E G t data n = None"
proof -
  have "seq_opt (xs @ [None]) = (None :: bytes option)" for xs :: "bytes option list"
    by (induction xs) (auto split: option.splits, metis map_option_is_None not_None_eq seq_opt.simps(2,3))
  then have "TxDecSet_Encode (tmp\<lparr>tds_Sender := i\<rparr>) = None" for i
    using assms(2) by (simp add: TxDecSet_Encode_def SignToData_def EncodeDoubleBig_def RCSign_zero_def) (metis append_Cons append_Nil)
  then show ?thesis
    unfolding HandleTxDecSet_def Let_def assms(1) dres_val.simps option.case assms(4) using assms(3) by simp
qed

theorem bad_set_panics_witness:
  "HandleTxDecSet toy_env sample_group 0 [] (sample_net 1) = None"
proof -
  have "Decode_u32 x [] = DErr x [] (Msg ''Basic.DecodeInt length not enough'')" for x by (simp add: Decode_u32_small)
  then have D: "TxDecSet_Decode TxDecSet_zero [] = DErr (TxDecSet_zero\<lparr>tds_ID := tds_ID TxDecSet_zero\<rparr>) []
      (Wrap ''TxDecSet ID decode failed'' (Msg ''Basic.DecodeInt length not enough''))"
    by (simp add: TxDecSet_Decode_def field_def fieldS_def wrapD_def)
  show ?thesis
    by (rule bad_set_panics [OF D]) (simp_all add: TxDecSet_zero_def sample_net_def sample_node_fields)
qed

lemma PreTxDecSet_stat:
  assumes "PreTxDecSet E G d t (Some \<lparr>ps_Stat = - 2, ps_Valid = []\<rparr>) = Some (e, t', s)"
  shows "stat_of s = (if is_leader G (tds_ID t) = Some True \<and> unat (tds_TxCnt t) = length (tds_TxArray t)
      \<and> unat (tds_MemCnt t) = length (tds_MemD t) then 0 else - 2)"
  using assms
  by (auto simp: PreTxDecSet_def Let_def stat_of_def set_stat_def split: option.splits if_splits bool.splits)

text \<open>C25: The leader's handler of a decision set of another shard returns, or panics, if the set comes
  from a leader and its counts fit; for a set from anybody else it never returns: it waits for a
  progress that its failed check has not made, and that nobody else makes.\<close>

theorem HandleTxDecSetLeader_spins:
  assumes "TxDecSet_Decode TxDecSet_zero data = DOk t r"
    and "unat (tds_TxCnt t) = length (tds_TxArray t)" and "unat (tds_MemCnt t) = length (tds_MemD t)"
  shows "HandleTxDecSetLeader E G data n = Spins \<longleftrightarrow> is_leader G (tds_ID t) = Some False"
proof (cases "PreTxDecSet E G (nt_Db n) t (Some \<lparr>ps_Stat = - 2, ps_Valid = []\<rparr>)")
  case None
  then have "is_leader G (tds_ID t) \<noteq> Some False" by (auto simp: PreTxDecSet_def Let_def stat_of_def)
  then show ?thesis using None by (simp add: HandleTxDecSetLeader_def assms(1))
next
  case (Some x)
  obtain e t' s where x: "x = (e, t', s)" by (cases x) auto
  note st = PreTxDecSet_stat [OF Some [unfolded x]]
  have "is_leader G (tds_ID t) \<noteq> None"
    using Some by (cases "is_leader G (tds_ID t)") (simp_all add: PreTxDecSet_def Let_def stat_of_def)
  then show ?thesis
    using st assms(2,3) by (auto simp: HandleTxDecSetLeader_def assms(1) Some x split: option.splits if_splits)
qed

theorem HandleTxDecSetLeader_spins_witness:
  "\<exists>data. TxDecSet_Encode sample_tds = Some data \<and> HandleTxDecSetLeader toy_env sample_group data (sample_net 0) = Spins"
proof -
  obtain e where e: "TxDecSet_Encode sample_tds = Some e" "length e < 2 ^ 32"
    by (simp add: TxDecSet_Encode_def sample_tds_def sample_td_def TxDecSet_zero_def for_upto_def sample_sig_data
        TxDecision_Encode_def TxDecision_zero_def ShardCnt_def)
  have D: "TxDecSet_Decode TxDecSet_zero e = DOk (TxDecSet_view sample_tds) []"
    using TxDecSet_Decode_enc [OF sample_msgs_wf(3) e(1), of "[]"] e(2) by simp
  have u: "unat (3 :: u32) < 20" by simp
  have f: "unat (tds_TxCnt (TxDecSet_view sample_tds)) = length (tds_TxArray (TxDecSet_view sample_tds))"
    "unat (tds_MemCnt (TxDecSet_view sample_tds)) = length (tds_MemD (TxDecSet_view sample_tds))"
    "tds_ID (TxDecSet_view sample_tds) = 3"
    by (simp_all add: TxDecSet_view_def sample_tds_def TxDecSet_zero_def)
  have "is_leader sample_group 3 = Some False"
    unfolding is_leader_def sample_member(2) [OF u] by (simp add: mem_zero_def)
  then show ?thesis using HandleTxDecSetLeader_spins [OF D f(1,2)] e(1) f(3) by auto
qed

text \<open>C26: A block is only taken when its height is one of the ten that follow the end of the last
  epoch; any other panics the node. Of the three channels the handler may wait for, it then waits
  for the set of the round, for the block before unless it is the first, and never for the start
  of the last block, although the code for that is there.\<close>

theorem HandleTxBlock_window:
  assumes "length (db_TBCheck (nt_Db n)) = 10" and "TxBlock_Decode 1 TxBlock_zero data = DOk b r"
    and "unat (db_PrevHeight (nt_Db n)) + 11 < 2 ^ 32"
  shows "if db_PrevHeight (nt_Db n) < tb_Height b \<and> tb_Height b \<le> db_PrevHeight (nt_Db n) + 10
    then HandleTxBlock_waits (db_PrevHeight (nt_Db n)) (tb_Height b)
      = Some (TDSChan (unat (tb_Height b - db_PrevHeight (nt_Db n) - 1))
          # (if tb_Height b = db_PrevHeight (nt_Db n) + 1 then [] else [TBChan (unat (tb_Height b - db_PrevHeight (nt_Db n) - 2))]))
    else HandleTxBlock_take E G data n = None"
proof -
  let ?p = "db_PrevHeight (nt_Db n)" let ?h = "tb_Height b"
  have p: "unat (?p + 10) = unat ?p + 10" "unat (?p + 10 + 1) = unat ?p + 11" "unat (?p + 2) = unat ?p + 2" "unat (?p + 1) = unat ?p + 1"
    using assms(3) by (simp_all add: unat_word_ariths)
  show ?thesis
  proof (cases "?p < ?h \<and> ?h \<le> ?p + 10")
    case True
    then have b: "unat ?p < unat ?h" "unat ?h \<le> unat ?p + 10" using p by (simp_all add: word_less_nat_alt word_le_nat_alt)
    have u: "unat (?h - ?p - 1) = unat ?h - unat ?p - 1" "unat ?h \<noteq> unat ?p + 1 \<Longrightarrow> unat (?h - ?p - 2) = unat ?h - unat ?p - 2"
      using b by (simp_all add: unat_sub_if' word_size)
    have c: "?h \<le> ?p + 10" "?h \<le> ?p + 10 + 1" "?h \<noteq> ?p + 10 + 1" "?h \<ge> ?p + 2 \<longleftrightarrow> unat ?h \<noteq> unat ?p + 1"
      "?h = ?p + 1 \<longleftrightarrow> unat ?h = unat ?p + 1"
      using b p by (auto simp: word_le_nat_alt word_unat_eq_iff)
    have c': "?h \<le> 11 + ?p" "?h \<noteq> 11 + ?p" using c(2,3) by (simp_all add: ac_simps)
    have "HandleTxBlock_waits ?p ?h = Some (TDSChan (unat (?h - ?p - 1)) # (if ?h = ?p + 1 then [] else [TBChan (unat (?h - ?p - 2))]))"
      unfolding HandleTxBlock_waits_def Let_def NumTxListPerEpoch_def of_nat_numeral c
      using b u by (auto simp: c c' chan_at_def NumTxListPerEpoch_def)
    then show ?thesis unfolding if_P [OF True] .
  next
    case False
    have "unat (?h - ?p - 1) \<ge> 10"
    proof (cases "unat ?p < unat ?h")
      case True
      then have "unat ?h > unat ?p + 10" using False p by (auto simp: word_less_nat_alt word_le_nat_alt)
      then show ?thesis by (simp add: unat_sub_if' word_size) arith
    next
      case False
      then show ?thesis using assms(3) unsigned_less [of ?p, where ?'a = nat] by (auto simp: unat_sub_if' word_size)
    qed
    then have "idx (db_TBCheck (nt_Db n)) (unat (?h - ?p - 1)) = None" using assms(1) by simp
    then have "HandleTxBlock_take E G data n = None" by (simp add: HandleTxBlock_take_def assms(2) del: idx_None)
    then show ?thesis unfolding if_not_P [OF False] .
  qed
qed

text \<open>The block after the last of the epoch, which the code means to wait for.\<close>

definition last_block :: TxBlock where
  "last_block = TxBlock_zero\<lparr>tb_Height := 11, tb_Sig := sample_sig\<rparr>"

theorem HandleTxBlock_window_witness:
  "\<exists>data. TxBlock_Encode last_block 1 = Some data \<and> HandleTxBlock_take toy_env sample_group data (sample_net 1) = None"
proof -
  have wf: "TxBlock_wf 1 last_block"
    by (simp add: TxBlock_wf_def last_block_def TxBlock_zero_def RCSign_wf_def sample_sig_def)
  obtain e where E: "TxBlock_Encode last_block 1 = Some e" using TxBlock_Encode_wf [OF wf] by blast
  obtain b s where p: "e = TxBlock_hdr last_block @ TxBlock_fin last_block @ b @ s"
    and b: "seq_opt (map Transaction_Encode (tb_TxArray last_block)) = Some b"
    and s: "if enc_signed last_block then SignToData (tb_Sig last_block) = Some s else s = []"
    using TxBlock_Encode_parts [OF wf E] by auto
  have "length b = 0" using b by (simp add: last_block_def TxBlock_zero_def)
  moreover have "length s \<le> 100" using s by (auto simp: last_block_def sample_sig_data split: if_splits)
  moreover have "length (TxBlock_hdr last_block) = 128" "TxBlock_fin last_block = []"
    by (simp_all add: TxBlock_hdr_def TxBlock_fin_def last_block_def TxBlock_zero_def)
  ultimately have e: "TxBlock_Encode last_block 1 = Some e" "length e < 2 ^ 32" using E p by simp_all
  have D: "TxBlock_Decode 1 TxBlock_zero e = DOk (TxBlock_view 1 last_block) []"
    using TxBlock_Decode_enc [OF wf e(1), of "[]"] e(2) by simp
  have h: "length (db_TBCheck (nt_Db (sample_net 1))) = 10" "unat (db_PrevHeight (nt_Db (sample_net 1))) + 11 < 2 ^ 32"
    "\<not> (db_PrevHeight (nt_Db (sample_net 1)) < tb_Height (TxBlock_view 1 last_block)
       \<and> tb_Height (TxBlock_view 1 last_block) \<le> db_PrevHeight (nt_Db (sample_net 1)) + 10)"
    by (simp_all add: sample_net_def sample_node_fields TxBlock_view_def last_block_def)
      (simp add: sample_node_def DbRef_zero_def NumTxListPerEpoch_def)
  show ?thesis using e(1) HandleTxBlock_window [OF h(1) D h(2), of toy_env sample_group] h(3) by auto
qed

section \<open>The end of the epoch\<close>

text \<open>C27: The main loop waits for \<open>CheckChan\<close> before it starts the next epoch, and nobody ever puts
  anything in: both the leader's rounds and a miner's compare the round with the number of rounds,
  which no round of the epoch reaches. The first epoch never ends.\<close>

theorem epoch_never_ends:
  assumes "length (db_TDSCheck (nt_Db n)) = 10" and "TxListProcess_close E G p r n = Some (as, n')"
  shows "Signal CheckChan v \<notin> set as
    \<and> (\<forall>i. Spawn (HandleTxLoopMinerP i) \<in> set MinerLoop \<longrightarrow> HandleTxLoopMiner_end i = [])"
proof
  obtain d where d: "SignTDS E (nt_Db n) p = Some d" using assms(2) by (auto simp: TxListProcess_close_def split: option.splits)
  have "db_TDSCheck d = db_TDSCheck (nt_Db n)" using d by (auto simp: SignTDS_def set_group_def split: option.splits)
  then have "unat r < 10 \<or> put_idx (db_TDSCheck d) (unat r) True = None" using assms(1) by (cases "unat r < 10") simp_all
  then have "unat r < 10" using assms(2) by (auto simp: TxListProcess_close_def d Let_def split: option.splits)
  then have "r \<noteq> of_nat NumTxListPerEpoch" by (auto simp: NumTxListPerEpoch_def)
  then show "Signal CheckChan v \<notin> set as"
    using assms(2) by (auto simp: TxListProcess_close_def d Let_def chan_at_def split: option.splits if_splits)
  have "unat (of_nat i :: u32) = i" if "i < 10" for i using that by (simp add: unat_of_nat)
  then show "\<forall>i. Spawn (HandleTxLoopMinerP i) \<in> set MinerLoop \<longrightarrow> HandleTxLoopMiner_end i = []"
    by (auto simp: MinerLoop_def HandleTxLoopMiner_end_def NumTxListPerEpoch_def word_unat_eq_iff)
qed

text \<open>A leader with a list in the making and its counters set.\<close>

definition counting_leader :: "mem_db Net" where
  "counting_leader = set_db ((nt_Db sample_leader)\<lparr>db_TDSCnt := [0], db_TDSNotReady := 1\<rparr>) sample_leader"

theorem epoch_never_ends_witness:
  "\<exists>as n'. TxListProcess_close toy_env sample_group 0 0 counting_leader = Some (as, n') \<and> Signal CheckChan 1 \<notin> set as
     \<and> Spawn (TxNormalBlockP 0) \<in> set as"
proof -
  let ?d = "nt_Db counting_leader"
  have d: "db_ShardNum ?d = 0" "group_at ?d 0 = Some \<lparr>tg_TLS = [TxList_zero], tg_TDS = [TxDecSet_zero]\<rparr>"
    "db_TDSCheck ?d = replicate 10 False" "db_PrevHeight ?d = 0" "db_groups ?d = [\<lparr>tg_TLS = [TxList_zero], tg_TDS = [TxDecSet_zero]\<rparr>]"
    by (simp_all add: counting_leader_def sample_leader_def set_db_def group_at_def idx_def sample_node_fields)
  obtain s where s: "TxDecSet_Sign (env_sign toy_env) (env_rnd toy_env 0) TxDecSet_zero (db_prk ?d) = Some s" "RCSign_wf (tds_Sig s)"
    "tds_MemCnt s = 0" "tds_TxCnt s = 0" "tds_ShardIndex s = 0"
    using RCSign_Sign_wf [of "env_sign toy_env" "env_verify toy_env"] toy_ecdsa
    by (simp add: TxDecSet_Sign_def TxDecSet_data_def TxDecSet_zero_def toy_env_def for_upto_def)
  obtain e where e: "TxDecSet_Encode s = Some e"
    using SignToData_wf [OF s(2)] s(3,4) by (auto simp: TxDecSet_Encode_def for_upto_def)
  have S: "SignTDS toy_env ?d 0 = Some (set_group 0 \<lparr>tg_TLS = [TxList_zero], tg_TDS = [s]\<rparr> ?d)"
    by (simp add: SignTDS_def d(2) one_upt upd_TDS_one s(1))
  have R: "ReturnRepData sample_group 0 \<noteq> None"
    by (simp add: ReturnRepData_def sample_group_def upt_rec at_def idx_def)
  then have P: "ProcessTDS sample_group (set_group 0 \<lparr>tg_TLS = [TxList_zero], tg_TDS = [s]\<rparr> ?d) s
      = Some (set_group 0 \<lparr>tg_TLS = [TxList_zero], tg_TDS = [s]\<rparr> ?d)"
    by (auto simp: ProcessTDS_def set_group_def)
  have T: "db_TBCheck ?d = replicate 10 False" "db_TDSCache ?d = replicate 10 None" "db_TDSCnt ?d = [0]"
    "length (db_RepCache ?d) = 10" "db_TDSNotReady ?d = 1"
    by (simp_all add: counting_leader_def sample_leader_def set_db_def sample_node_def DbRef_zero_def NumTxListPerEpoch_def ShardCnt_def)
  have "\<exists>as n'. TxListProcess_close toy_env sample_group 0 0 counting_leader = Some (as, n') \<and> Spawn (TxNormalBlockP 0) \<in> set as"
    using P by (simp add: TxListProcess_close_def put_idx_def S d e T put_idx_def set_group_def group_at_def idx_def Let_def count_TDS_def chan_at_def
        NumTxListPerEpoch_def s(5))
  then obtain as n' where c: "TxListProcess_close toy_env sample_group 0 0 counting_leader = Some (as, n')" "Spawn (TxNormalBlockP 0) \<in> set as"
    by blast
  have l: "length (db_TDSCheck ?d) = 10" by (simp add: d)
  from epoch_never_ends [OF l c(1), of 1] c show ?thesis by blast
qed

end
