(* ===== verification/Epoch.thy ===== *)
theory Epoch
  imports CosiNet Rounds
begin

text \<open>
  The start of an epoch (\<open>testforclient/network/ShardProtocol.go\<close>): every node computes the assignment
  of the members to the shards from the hashes of the last sync blocks, resets its caches, and waits
  until its leader, and for a leader its members and the other leaders, are ready.

  The state joins the node of \<open>CosiNet\<close> (the reputation chain, the members, the epoch) with
  \<open>CacheDbRef\<close>. As there, a process is a function of the events its channels deliver. The copy
  \<open>nd_FBHash\<close> of a hash in the cache, which only the processes of \<open>CosiNet\<close> read, is not kept up here.
\<close>

section \<open>Messages and state\<close>

record readyInfo =
  rdi_ID :: int
  rdi_Epoch :: int

datatype ShardMsg = ReadyAnnoun readyInfo | ShardReady readyInfo | LeaderReady readyInfo | ReqLeaReady readyInfo

type_synonym shard_out = "(string \<times> ShardMsg) list"

text \<open>\<open>ss_PowRx\<close> is the content of the channel \<open>RepPowRxCh\<close>; \<open>ss_FinalTxReady\<close> says whether
  \<open>FinalTxReadyCh\<close>, of capacity 1, is full.\<close>

record 'd Sys =
  ss_Node :: "'d Node"
  ss_Db :: "'d DbRef"
  ss_BatchCache :: "TxBatchInfo list list"
  ss_SentLeaderReady :: bool
  ss_FinalTxReady :: bool
  ss_CurrentRepRound :: int
  ss_PowRx :: "RepPowInfo list"

section \<open>The assignment\<close>

definition clear_reps :: "bool \<Rightarrow> MemShard list \<Rightarrow> MemShard list option" where
  "clear_reps first ms =
     (if first then Some ms
      else ofold (\<lambda>i ms. case idx ms i of None \<Rightarrow> None | Some m \<Rightarrow> Some (ms[i := ClearRep m])) [0..<unat (ShardSize * ShardCnt)] ms)"

definition open_db :: "env \<Rightarrow> 'd bolt \<Rightarrow> Group \<Rightarrow> bool \<Rightarrow> int \<Rightarrow> int \<Rightarrow> 'd DbRef \<Rightarrow> 'd DbRef option" where
  "open_db E B G first sh leader d =
     (let d1 = (if first then d else d\<lparr>db_PrevHeight := db_PrevHeight d + of_nat NumTxListPerEpoch + 3\<rparr>) in
      case ClearTx B (db_DB d1) of None \<Rightarrow> None
      | Some (_, db) \<Rightarrow>
        (let d2 = d1\<lparr>db_DB := db, db_ShardNum := word_of_int sh, db_Leader := word_of_int leader,
               db_HistoryShard := db_HistoryShard d @ [word_of_int sh]\<rparr>
         in map_option (\<lambda>d3. d3\<lparr>db_RepCache := replicate NumTxListPerEpoch (replicate (unat ShardSize) 0)\<rparr>)
              (if first then Some d2 else DbRef_Clear E G d2)))"

text \<open>\<open>shard.MyMenShard\<close> points into the members, so that it is read after they have their places. The
  leader of a shard is the member in its place 0.\<close>

definition open_epoch :: "env \<Rightarrow> 'r rng \<Rightarrow> ('r, 'f) float32 \<Rightarrow> 'd bolt \<Rightarrow> 'd Sys \<Rightarrow> 'd Sys option" where
  "open_epoch E R F B s =
     (let n = ss_Node s; ch = nd_Chain n; first = (nd_CurrentEpoch n = - 1) in
      case clear_reps first (gr_Mems (ch_Group ch)) of None \<Rightarrow> None
      | Some ms0 \<Rightarrow>
        (case Sharding R F (GenerateSeed R (ch_PrevSync ch)) ms0 (replicate (unat ShardCnt) (replicate (unat ShardSize) 0)) of
           None \<Rightarrow> None
         | Some (ms, table, _) \<Rightarrow>
           (let G = \<lparr>gr_Mems = ms, gr_ShardToGlobal = table\<rparr> in
            case at ms (nd_MyGlobalID n) of None \<Rightarrow> None
            | Some my \<Rightarrow>
              (case shard_member G (mem_Shard my) 0 of None \<Rightarrow> None
               | Some (k, ld) \<Rightarrow>
                 map_option (\<lambda>db. s\<lparr>ss_Node := n\<lparr>nd_LeaderAddr := mem_Address ld, nd_Chain := ch\<lparr>ch_Round := - 1,
                       ch_StartFlag := True, ch_Group := G, ch_me := mem_Shard my\<rparr>\<rparr>,
                     ss_Db := db, ss_BatchCache := replicate NumTxListPerEpoch [], ss_CurrentRepRound := - 1, ss_PowRx := []\<rparr>)
                   (open_db E B G first (mem_Shard my) k (ss_Db s))))))"

section \<open>Waiting for the others\<close>

text \<open>To the members of the shard other than the first that \<open>P\<close> selects by their place, and to the
  leaders of the other shards that \<open>P\<close> selects by their shard.\<close>

definition to_members :: "Group \<Rightarrow> int \<Rightarrow> ShardMsg \<Rightarrow> (nat \<Rightarrow> bool option) \<Rightarrow> shard_out option" where
  "to_members G me m P = ofold (\<lambda>i out. case P i of None \<Rightarrow> None
       | Some False \<Rightarrow> Some out
       | Some True \<Rightarrow> map_option (\<lambda>(k, it). out @ [(mem_Address it, m)]) (shard_member G me i)) [1..<unat ShardSize] []"

definition to_leaders :: "Group \<Rightarrow> ShardMsg \<Rightarrow> (nat \<Rightarrow> bool option) \<Rightarrow> shard_out option" where
  "to_leaders G m P = ofold (\<lambda>i out. case P i of None \<Rightarrow> None
       | Some False \<Rightarrow> Some out
       | Some True \<Rightarrow> map_option (\<lambda>(k, it). out @ [(mem_Address it, m)]) (shard_member G (int i) 0)) [0..<unat ShardCnt] []"

text \<open>The leader waits for a message of every member; from the sixth timeout on two thirds are enough.
  What is counted are messages. The flag of the result is false when it gave up.\<close>

fun member_ready_loop ::
  "Group \<Rightarrow> int \<Rightarrow> readyInfo \<Rightarrow> readyInfo event list \<Rightarrow> nat \<Rightarrow> nat \<times> bytes \<times> shard_out \<Rightarrow>
   (shard_out, bool \<times> nat \<times> bytes \<times> shard_out) process" where
  "member_ready_loop G me own evs cnt (n, mk, out) =
     (if unat ShardSize \<le> n then Finished (True, n, mk, out)
      else case evs of [] \<Rightarrow> Blocked out
      | Arrive m # es \<Rightarrow>
          if rdi_Epoch m = rdi_Epoch own
          then (case at (gr_Mems G) (rdi_ID m) of None \<Rightarrow> Crashed
                | Some it \<Rightarrow>
                  (case setMaskBit (mem_InShardId it) Enabled mk of None \<Rightarrow> Crashed
                   | Some mk' \<Rightarrow> member_ready_loop G me own es cnt (n + 1, mk', out)))
          else member_ready_loop G me own es cnt (n, mk, out)
      | Tick # es \<Rightarrow>
          (case to_members G me (ReadyAnnoun own) (\<lambda>i. map_option (\<lambda>b. b = Disabled) (maskBit (int i) mk)) of None \<Rightarrow> Crashed
           | Some o' \<Rightarrow>
               if 5 < cnt + 1 \<and> unat (ShardSize * 2 div 3) \<le> n then Finished (False, n, mk, out @ o')
               else member_ready_loop G me own es (cnt + 1) (n, mk, out @ o')))"

text \<open>\<open>own\<close> holds the number of the shard here.\<close>

fun leader_ready_loop ::
  "Group \<Rightarrow> readyInfo \<Rightarrow> readyInfo event list \<Rightarrow> nat \<times> bytes \<times> shard_out \<Rightarrow> (shard_out, nat \<times> bytes \<times> shard_out) process" where
  "leader_ready_loop G own evs (n, mk, out) =
     (if unat ShardCnt \<le> n then Finished (n, mk, out)
      else case evs of [] \<Rightarrow> Blocked out
      | Arrive m # es \<Rightarrow>
          if rdi_Epoch m = rdi_Epoch own
          then (case maskBit (rdi_ID m) mk of None \<Rightarrow> Crashed
                | Some b \<Rightarrow>
                    if b = Disabled
                    then (case setMaskBit (rdi_ID m) Enabled mk of None \<Rightarrow> Crashed
                          | Some mk' \<Rightarrow> leader_ready_loop G own es (n + 1, mk', out))
                    else leader_ready_loop G own es (n, mk, out))
          else leader_ready_loop G own es (n, mk, out)
      | Tick # es \<Rightarrow>
          (case to_leaders G (ReqLeaReady own) (\<lambda>i. map_option (\<lambda>b. b = Disabled \<and> int i \<noteq> rdi_ID own) (maskBit (int i) mk)) of
             None \<Rightarrow> Crashed
           | Some o' \<Rightarrow> leader_ready_loop G own es (n, mk, out @ o')))"

declare member_ready_loop.simps [simp del] leader_ready_loop.simps [simp del]

definition LeaderReadyProcess :: "readyInfo event list \<Rightarrow> readyInfo event list \<Rightarrow> 'd Sys \<Rightarrow> (shard_out, shard_out \<times> 'd Sys) process" where
  "LeaderReadyProcess mevs levs s =
     (let n = ss_Node s; G = ch_Group (nd_Chain n); me = ch_me (nd_Chain n); epoch = nd_CurrentEpoch n;
          own = \<lparr>rdi_ID = nd_MyGlobalID n, rdi_Epoch = epoch\<rparr>; mine = \<lparr>rdi_ID = me, rdi_Epoch = epoch\<rparr> in
      andThen (attempt (to_members G me (ReadyAnnoun own) (\<lambda>_. Some True))) (\<lambda>out0.
      andThen (member_ready_loop G me own mevs 0 (1, intilizeMaskBit ((unat ShardSize + 7) div 8) Disabled, out0)) (\<lambda>(go, _, _, out1).
      andThen (attempt (to_leaders G (LeaderReady mine) (\<lambda>i. Some (int i \<noteq> me)))) (\<lambda>out2.
      andThen (if go then leader_ready_loop G mine levs (1, intilizeMaskBit ((unat ShardCnt + 7) div 8) Disabled, out1 @ out2)
               else Finished (1, [], out1 @ out2)) (\<lambda>(_, _, out).
      Finished (out, s\<lparr>ss_SentLeaderReady := True\<rparr>))))))"

text \<open>A member waits for the announcement of its leader.\<close>

fun await_leader :: "int \<Rightarrow> int \<Rightarrow> readyInfo list \<Rightarrow> (shard_out, unit) process" where
  "await_leader leader epoch [] = Blocked []"
| "await_leader leader epoch (m # ms) =
     (if rdi_Epoch m = epoch \<and> leader = rdi_ID m then Finished () else await_leader leader epoch ms)"

definition MinerReadyProcess :: "readyInfo list \<Rightarrow> 'd Sys \<Rightarrow> (shard_out, shard_out \<times> 'd Sys) process" where
  "MinerReadyProcess msgs s =
     (let n = ss_Node s; epoch = nd_CurrentEpoch n in
      andThen (attempt (case at (gr_ShardToGlobal (ch_Group (nd_Chain n))) (ch_me (nd_Chain n)) of None \<Rightarrow> None | Some row \<Rightarrow> idx row 0)) (\<lambda>leader.
      andThen (await_leader leader epoch msgs) (\<lambda>_.
      Finished ([(nd_LeaderAddr n, ShardReady \<lparr>rdi_ID = nd_MyGlobalID n, rdi_Epoch = epoch\<rparr>)], s))))"

text \<open>The end of the process is signalled from the second epoch on.\<close>

definition close_shard :: "shard_out \<times> 'd Sys \<Rightarrow> (shard_out, shard_out \<times> 'd Sys) process" where
  "close_shard os = (case os of (out, s) \<Rightarrow>
     if nd_CurrentEpoch (ss_Node s) = - 1 then Finished (out, s)
     else if ss_FinalTxReady s then Blocked out else Finished (out, s\<lparr>ss_FinalTxReady := True\<rparr>))"

definition ShardProcess ::
  "env \<Rightarrow> 'r rng \<Rightarrow> ('r, 'f) float32 \<Rightarrow> 'd bolt \<Rightarrow> readyInfo event list \<Rightarrow> readyInfo event list \<Rightarrow> readyInfo list \<Rightarrow> 'd Sys \<Rightarrow>
   (shard_out, shard_out \<times> 'd Sys) process" where
  "ShardProcess E R F B mevs levs msgs s =
     andThen (attempt (open_epoch E R F B s)) (\<lambda>s.
     andThen (attempt (MyMenShard (ss_Node s))) (\<lambda>my.
     andThen (if mem_Role my = 1 then MinerReadyProcess msgs s else LeaderReadyProcess mevs levs (s\<lparr>ss_SentLeaderReady := False\<rparr>))
       close_shard))"

section \<open>The handlers\<close>

text \<open>A request that does not decode panics; the inner result is what is sent or put into the channel.\<close>

definition HandleRequestShardLeaderReady :: "('r \<Rightarrow> readyInfo option) \<Rightarrow> 'r \<Rightarrow> 'd Sys \<Rightarrow> shard_out option" where
  "HandleRequestShardLeaderReady dec r s =
     (if \<not> ss_SentLeaderReady s then Some []
      else case dec r of None \<Rightarrow> None
      | Some p \<Rightarrow>
        (let n = ss_Node s in
         if nd_CurrentEpoch n = rdi_Epoch p
         then map_option (\<lambda>(_, it). [(mem_Address it, LeaderReady \<lparr>rdi_ID = ch_me (nd_Chain n), rdi_Epoch = nd_CurrentEpoch n\<rparr>)])
                (shard_member (ch_Group (nd_Chain n)) (rdi_ID p) 0)
         else Some []))"

definition HandleShardReady :: "('r \<Rightarrow> readyInfo option) \<Rightarrow> 'r \<Rightarrow> readyInfo option" where
  "HandleShardReady dec r = dec r"

definition HandleLeaderReady :: "('r \<Rightarrow> readyInfo option) \<Rightarrow> 'r \<Rightarrow> readyInfo option" where
  "HandleLeaderReady dec r = dec r"

section \<open>The members agree on the assignment\<close>

definition same_view :: "MemShard list \<Rightarrow> MemShard list \<Rightarrow> bool" where
  "same_view a b \<longleftrightarrow> list_all2 (\<lambda>m n. mem_TotalRep m = mem_TotalRep n \<and> mem_PrivateAddress m = mem_PrivateAddress n) a b"

lemma same_view_length: "same_view a b \<Longrightarrow> length a = length b"
  by (auto simp: same_view_def dest: list_all2_lengthD)

lemma same_view_nth: "same_view a b \<Longrightarrow> i < length b \<Longrightarrow> CalTotalRep (a ! i) = CalTotalRep (b ! i) \<and> mem_PrivateAddress (a ! i) = mem_PrivateAddress (b ! i)"
  by (auto simp: same_view_def list_all2_conv_all_nth CalTotalRep_def)

lemma same_view_sort_data: "same_view a b \<Longrightarrow> sort_data a = sort_data b"
  by (rule nth_equalityI) (auto simp: sort_data_nth same_view_length dest: same_view_nth)

lemma same_view_total: "same_view a b \<Longrightarrow> total_of a = total_of b"
  by (rule ext) (auto simp: total_of_def at_def idx_def same_view_length dest: same_view_nth)

lemma same_view_LeaderSort: "same_view a b \<Longrightarrow> LeaderSort F a xx br = LeaderSort F b xx br"
proof -
  assume v: "same_view a b"
  have ls: "leader_score F a row = leader_score F b row" for row
    unfolding leader_score_def [abs_def] same_view_total [OF v] by (rule refl)
  show ?thesis unfolding LeaderSort_def ls by (rule refl)
qed

lemma same_view_pick:
  assumes "same_view a b"
  shows "pick_row R a sd i 0 [False] s = pick_row R b sd i 0 [False] s"
proof -
  have m: "(x :: u32) mod ShardCnt = 0" for x by (simp add: ShardCnt_def)
  have last: "pick_row R c sd i 1 ch t = Some t" for c ch t by (subst pick_row.simps) (simp add: ShardCnt_def)
  obtain r now b2 where s: "s = (r, now, b2)" by (cases s)
  show ?thesis
    using same_view_length [OF assms]
    by (subst (1 2) pick_row.simps) (auto simp: m last s ShardCnt_def idx_def split: option.splits prod.splits)
qed

lemma Sharding_agree:
  assumes "same_view a0 a1" and "Sharding R F r a0 b0 = Some (a', t, r')" and "Sharding R F r a1 b0 = Some (a1', t1, r1')"
  shows "t = t1"
proof -
  let ?p = "\<lambda>a. map (\<lambda>m. m\<lparr>mem_PreShard := mem_Shard m\<rparr>) a"
  have v: "same_view (?p a0) (?p a1)" using assms(1) by (simp add: same_view_def list_all2_map1 list_all2_map2)
  have len: "length a0 = length a1" by (rule same_view_length [OF assms(1)])
  have pk: "pick_row R (?p a0) sd i 0 [False] = pick_row R (?p a1) sd i 0 [False]" for sd i
    by (rule ext) (rule same_view_pick [OF v])
  have ls: "LeaderSort F (?p a0) = LeaderSort F (?p a1)" using same_view_LeaderSort [OF v] by blast
  show ?thesis
    using assms(2,3) by (auto simp: Sharding_def Let_def one_upt same_view_sort_data [OF v] pk ls len split: option.splits)
qed

lemma clear_reps_view: "clear_reps first ms = Some ms' \<Longrightarrow> same_view ms' ms \<and> length ms' = length ms"
proof (cases first)
  case False
  assume "clear_reps first ms = Some ms'"
  then have "ofold (\<lambda>i ms. case idx ms i of None \<Rightarrow> None | Some m \<Rightarrow> Some (ms[i := ClearRep m])) [0..<20] ms = Some ms'"
    using False by (simp add: clear_reps_def ShardSize_def ShardCnt_def)
  then show ?thesis
    by (rule ofold_inv [where P = "\<lambda>ms'. same_view ms' ms \<and> length ms' = length ms"])
      (auto simp: same_view_def list_all2_conv_all_nth ClearRep_def nth_list_update split: option.splits)
qed (auto simp: clear_reps_def same_view_def list.rel_refl)

lemma same_view_trans: "same_view a b \<Longrightarrow> same_view b c \<Longrightarrow> same_view a c"
  by (auto simp: same_view_def list_all2_conv_all_nth)

lemma same_view_sym: "same_view a b \<Longrightarrow> same_view b a"
  by (auto simp: same_view_def list_all2_conv_all_nth)

text \<open>What a node has after it opened an epoch.\<close>

definition opened :: "'d Sys \<Rightarrow> bool" where
  "opened s \<longleftrightarrow> (let n = ss_Node s; G = ch_Group (nd_Chain n) in
     shard_ok G 0 \<and> ch_me (nd_Chain n) = 0 \<and> ch_StartFlag (nd_Chain n) \<and> ch_Round (nd_Chain n) = - 1
     \<and> nd_LeaderAddr n = mem_Address (mem G 0 0) \<and> db_Leader (ss_Db s) = word_of_int (num G 0 0)
     \<and> db_ShardNum (ss_Db s) = 0 \<and> (\<forall>i < 20. mem_Role (mem G 0 i) = (if i = 0 then 0 else 1))
     \<and> (\<exists>i < 20. nd_MyGlobalID n = num G 0 i))"

lemma open_db_leader:
  "open_db E B G first sh k d = Some db \<Longrightarrow> db_Leader db = word_of_int k \<and> db_ShardNum db = word_of_int sh"
  by (auto simp: open_db_def Let_def DbRef_Clear_def reset_round_def split: option.splits if_splits)

text \<open>Twenty members are all in the shard, at one place each; nothing else about them changes.\<close>

lemma Sharding_twenty:
  fixes F :: "('r, 'f) float32" and R :: "'r rng" and r :: 'r
  assumes "length ms0 = 20"
  shows "\<exists>ms row r'. Sharding R F r ms0 (replicate (unat ShardCnt) (replicate (unat ShardSize) 0)) = Some (ms, [row], r')
    \<and> length ms = 20 \<and> length row = 20 \<and> set row = int ` {..<20}
    \<and> (\<forall>j < 20. ms ! nat (row ! j) = place 0 j ((ms0 ! nat (row ! j))\<lparr>mem_PreShard := mem_Shard (ms0 ! nat (row ! j))\<rparr>))"
proof -
  let ?a = "map (\<lambda>m. m\<lparr>mem_PreShard := mem_Shard m\<rparr>) ms0"
  have pre: "20 \<le> length ms0" "length ms0 < 2 ^ 32" "length (replicate 20 (0 :: int)) = 20" using assms by simp_all
  obtain sd ms row r' where S: "Sharding R F r ms0 [replicate 20 0] = Some (ms, [row], r')" "length ms = length ms0"
      "mset sd = mset (sort_data ?a)" "mset row = mset (map (int \<circ> st_idx) (take 20 sd))" "length row = 20" "distinct row"
      "\<And>j. j < 20 \<Longrightarrow> ms ! nat (row ! j) = place 0 j (?a ! nat (row ! j))"
    using Sharding_ok [OF pre, of R F r] by auto
  have "length sd = length (sort_data ?a)" using S(3) by (metis size_mset)
  then have row: "mset row = mset (map int (map st_idx sd))" using S(4) assms by simp
  have "mset (map st_idx sd) = mset (map st_idx (sort_data ?a))" using S(3) by (simp only: mset_map)
  then have "set (map st_idx sd) = {..<20}"
    using sort_data_ids [of ?a] assms by (metis (no_types, lifting) atLeast0LessThan atLeastLessThan_upt length_map pre(2) set_mset_mset)
  then have "set row = int ` {..<20}" using row by (metis image_set set_mset_mset)
  moreover from this have "nat (row ! j) < 20" if "j < 20" for j
    using nth_mem [of j row] that S(5) by auto
  ultimately show ?thesis using S assms by (auto simp: one_upt)
qed

lemma shard_member_row:
  "shard_member \<lparr>gr_Mems = ms, gr_ShardToGlobal = [row]\<rparr> 0 i =
     (if i < length row then map_option (Pair (row ! i)) (at ms (row ! i)) else None)"
  by (simp add: shard_member_def at_def idx_def)

lemma open_epoch_opened:
  fixes F :: "('r, 'f) float32" and s :: "'d Sys"
  assumes "length (nd_ms (ss_Node s)) = 20" and "0 \<le> nd_MyGlobalID (ss_Node s)" "nd_MyGlobalID (ss_Node s) < 20"
    and "open_epoch E R F B s = Some s'"
  shows "opened s'" "length (nd_ms (ss_Node s')) = 20" "nd_MyGlobalID (ss_Node s') = nd_MyGlobalID (ss_Node s)"
    "nd_CurrentEpoch (ss_Node s') = nd_CurrentEpoch (ss_Node s)"
    "\<exists>r r'. Sharding R F r (the (clear_reps (nd_CurrentEpoch (ss_Node s) = - 1) (nd_ms (ss_Node s))))
        (replicate (unat ShardCnt) (replicate (unat ShardSize) 0)) = Some (nd_ms (ss_Node s'), gr_ShardToGlobal (ch_Group (nd_Chain (ss_Node s'))), r')
      \<and> r = GenerateSeed R (ch_PrevSync (nd_Chain (ss_Node s)))"
proof -
  let ?n = "ss_Node s" and ?r = "GenerateSeed R (ch_PrevSync (nd_Chain (ss_Node s)))"
  obtain ms0 where ms0: "clear_reps (nd_CurrentEpoch ?n = - 1) (nd_ms ?n) = Some ms0"
    using assms(4) by (auto simp: open_epoch_def Let_def split: option.splits)
  then have len: "length ms0 = 20" using clear_reps_view assms(1) by force
  obtain ms row r' where S: "Sharding R F ?r ms0 (replicate (unat ShardCnt) (replicate (unat ShardSize) 0)) = Some (ms, [row], r')"
      "length ms = 20" "length row = 20" "set row = int ` {..<20}"
      "\<And>j. j < 20 \<Longrightarrow> ms ! nat (row ! j) = place 0 j ((ms0 ! nat (row ! j))\<lparr>mem_PreShard := mem_Shard (ms0 ! nat (row ! j))\<rparr>)"
    using Sharding_twenty [OF len, of R F ?r] by blast
  let ?G = "\<lparr>gr_Mems = ms, gr_ShardToGlobal = [row]\<rparr>"
  have r: "0 \<le> row ! j \<and> nat (row ! j) < 20" if "j < 20" for j using nth_mem [of j row] that S(3,4) by auto
  have sm: "shard_member ?G 0 j = Some (row ! j, ms ! nat (row ! j))" if "j < 20" for j
    using r [OF that] that S(2,3) by (simp add: shard_member_row at_def)
  have pl: "mem_InShardId (ms ! nat (row ! j)) = int j" "mem_Shard (ms ! nat (row ! j)) = 0"
      "mem_Role (ms ! nat (row ! j)) = (if j = 0 then 0 else 1)" if "j < 20" for j
    using S(5) [OF that] by (simp_all add: place_def)
  have "nd_MyGlobalID ?n \<in> set row" using assms(2,3) S(4) by (auto intro: image_eqI [of _ _ "nat (nd_MyGlobalID ?n)"])
  then obtain i where i: "i < 20" "row ! i = nd_MyGlobalID ?n" using S(3) by (auto simp: in_set_conv_nth)
  then have my: "at ms (nd_MyGlobalID ?n) = Some (ms ! nat (row ! i))" using r [OF i(1)] S(2) by (simp add: at_def)
  have sh: "shard_ok ?G 0" using sm pl(1) r S(2) by (auto simp: shard_ok_def at_def)
  obtain db where db: "open_db E B ?G (nd_CurrentEpoch ?n = - 1) 0 (row ! 0) (ss_Db s) = Some db"
    and s': "s' = s\<lparr>ss_Node := ?n\<lparr>nd_LeaderAddr := mem_Address (ms ! nat (row ! 0)), nd_Chain := (nd_Chain ?n)\<lparr>ch_Round := - 1,
        ch_StartFlag := True, ch_Group := ?G, ch_me := 0\<rparr>\<rparr>,
      ss_Db := db, ss_BatchCache := replicate NumTxListPerEpoch [], ss_CurrentRepRound := - 1, ss_PowRx := []\<rparr>"
    using assms(4) unfolding open_epoch_def Let_def by (auto simp: ms0 S(1) [simplified] my sm pl(2) [OF i(1)])
  have nm: "num ?G 0 j = row ! j" "mem ?G 0 j = ms ! nat (row ! j)" if "j < 20" for j
    using sm [OF that] by (simp_all add: num_def mem_def)
  show "opened s'"
    using sh nm pl i open_db_leader [OF db] by (auto simp: opened_def Let_def s' intro: exI [of _ i])
  show "length (nd_ms (ss_Node s')) = 20" "nd_MyGlobalID (ss_Node s') = nd_MyGlobalID ?n" "nd_CurrentEpoch (ss_Node s') = nd_CurrentEpoch ?n"
    "\<exists>r r'. Sharding R F r (the (clear_reps (nd_CurrentEpoch ?n = - 1) (nd_ms ?n)))
        (replicate (unat ShardCnt) (replicate (unat ShardSize) 0)) = Some (nd_ms (ss_Node s'), gr_ShardToGlobal (ch_Group (nd_Chain (ss_Node s'))), r')
      \<and> r = ?r"
    using S(1,2) ms0 by (simp_all add: s')
qed

lemma clear_reps_first [simp]: "clear_reps True ms = Some ms"
  by (simp add: clear_reps_def)

lemma ClearTx_total: "\<exists>r db. ClearTx B a = Some (r, db)"
  by (auto simp: ClearTx_def split: sum.splits)

lemma open_epoch_first:
  fixes F :: "('r, 'f) float32" and s :: "'d Sys"
  assumes "length (nd_ms (ss_Node s)) = 20" and "0 \<le> nd_MyGlobalID (ss_Node s)" "nd_MyGlobalID (ss_Node s) < 20"
    and "nd_CurrentEpoch (ss_Node s) = - 1"
  shows "\<exists>s'. open_epoch E R F B s = Some s'"
proof -
  let ?n = "ss_Node s" and ?r = "GenerateSeed R (ch_PrevSync (nd_Chain (ss_Node s)))"
  obtain ms row r' where S: "Sharding R F ?r (nd_ms ?n) (replicate (unat ShardCnt) (replicate (unat ShardSize) 0)) = Some (ms, [row], r')"
      "length ms = 20" "length row = 20" "set row = int ` {..<20}"
      "\<And>j. j < 20 \<Longrightarrow> ms ! nat (row ! j) = place 0 j ((nd_ms ?n ! nat (row ! j))\<lparr>mem_PreShard := mem_Shard (nd_ms ?n ! nat (row ! j))\<rparr>)"
    using Sharding_twenty [OF assms(1), of R F ?r] by blast
  have "nd_MyGlobalID ?n \<in> set row" using assms(2,3) S(4) by (auto intro: image_eqI [of _ _ "nat (nd_MyGlobalID ?n)"])
  then obtain i where i: "i < 20" "row ! i = nd_MyGlobalID ?n" using S(3) by (auto simp: in_set_conv_nth)
  then have my: "at ms (nd_MyGlobalID ?n) = Some (ms ! nat (row ! i))" using assms(2,3) S(2) by (simp add: at_def)
  have sh: "mem_Shard (ms ! nat (row ! i)) = 0" using S(5) [OF i(1)] by (simp add: place_def)
  have "row ! 0 \<in> set row" using S(3) by (intro nth_mem) simp
  then have "0 \<le> row ! 0 \<and> nat (row ! 0) < 20" using S(4) by auto
  then have ld: "shard_member \<lparr>gr_Mems = ms, gr_ShardToGlobal = [row]\<rparr> 0 0 = Some (row ! 0, ms ! nat (row ! 0))"
    using S(2,3) by (simp add: shard_member_row at_def)
  obtain e db where "ClearTx B (db_DB (ss_Db s)) = Some (e, db)" using ClearTx_total by blast
  then show ?thesis
    by (simp add: open_epoch_def Let_def assms(4) S(1) [simplified] my sh ld open_db_def)
qed

text \<open>When an epoch begins, all nodes agree: a node of a network of twenty members always gets
  through the assignment of the first epoch; then it has every member at exactly one place of the shard,
  itself at one of them, and its leader is the member at place 0, the only one with the role of a leader.
  And any other node whose members have the same reputations and addresses, and that knows the same hashes
  of sync blocks, has computed the same table and the same leader, whatever else it knows of the
  members and whatever its caches and databases hold.\<close>

theorem epoch_opens:
  fixes F :: "('r, 'f) float32" and s :: "'d Sys"
  assumes "length (nd_ms (ss_Node s)) = 20" and "0 \<le> nd_MyGlobalID (ss_Node s)" "nd_MyGlobalID (ss_Node s) < 20"
    and "nd_CurrentEpoch (ss_Node s) = - 1"
  shows "\<exists>s'. open_epoch E R F B s = Some s' \<and> opened s'
    \<and> (\<forall>t t' :: 'd Sys. same_view (nd_ms (ss_Node s)) (nd_ms (ss_Node t))
         \<and> ch_PrevSync (nd_Chain (ss_Node t)) = ch_PrevSync (nd_Chain (ss_Node s))
         \<and> 0 \<le> nd_MyGlobalID (ss_Node t) \<and> nd_MyGlobalID (ss_Node t) < 20 \<and> open_epoch E' R F B' t = Some t'
         \<longrightarrow> opened t' \<and> gr_ShardToGlobal (ch_Group (nd_Chain (ss_Node t'))) = gr_ShardToGlobal (ch_Group (nd_Chain (ss_Node s')))
           \<and> db_Leader (ss_Db t') = db_Leader (ss_Db s'))"
proof -
  obtain s' where s': "open_epoch E R F B s = Some s'" using open_epoch_first [OF assms] by blast
  note S = open_epoch_opened [OF assms(1,2,3) s']
  have "opened t' \<and> gr_ShardToGlobal (ch_Group (nd_Chain (ss_Node t'))) = gr_ShardToGlobal (ch_Group (nd_Chain (ss_Node s')))
      \<and> db_Leader (ss_Db t') = db_Leader (ss_Db s')"
    if t: "same_view (nd_ms (ss_Node s)) (nd_ms (ss_Node t))" "ch_PrevSync (nd_Chain (ss_Node t)) = ch_PrevSync (nd_Chain (ss_Node s))"
      "0 \<le> nd_MyGlobalID (ss_Node t)" "nd_MyGlobalID (ss_Node t) < 20" "open_epoch E' R F B' t = Some t'" for t t' :: "'d Sys"
  proof -
    have len: "length (nd_ms (ss_Node t)) = 20" using t(1) assms(1) same_view_length by force
    note T = open_epoch_opened [OF len t(3,4,5)]
    obtain ms0 where ms0: "clear_reps (nd_CurrentEpoch (ss_Node t) = - 1) (nd_ms (ss_Node t)) = Some ms0"
      using t(5) by (auto simp: open_epoch_def Let_def split: option.splits)
    have v: "same_view (nd_ms (ss_Node s)) ms0" using same_view_trans [OF t(1)] same_view_sym clear_reps_view [OF ms0] by blast
    have tab: "gr_ShardToGlobal (ch_Group (nd_Chain (ss_Node s'))) = gr_ShardToGlobal (ch_Group (nd_Chain (ss_Node t')))"
      using S(5) T(5) ms0 t(2) assms(4) by (auto intro: Sharding_agree [OF v])
    have "shard_member (ch_Group (nd_Chain (ss_Node u))) 0 0 = Some (num (ch_Group (nd_Chain (ss_Node u))) 0 0, mem (ch_Group (nd_Chain (ss_Node u))) 0 0)"
      if "opened u" for u :: "'d Sys"
      using that shard_okD(1) [of _ 0 0] by (simp add: opened_def Let_def)
    from this [OF S(1)] this [OF T(1)] tab have "num (ch_Group (nd_Chain (ss_Node t'))) 0 0 = num (ch_Group (nd_Chain (ss_Node s'))) 0 0"
      by (auto simp: shard_member_def split: option.splits)
    with S(1) T(1) tab show ?thesis by (simp add: opened_def Let_def)
  qed
  with s' S(1) show ?thesis by blast
qed

definition toy_sys :: "nat \<Rightarrow> mem_db Sys" where
  "toy_sys l = \<lparr>ss_Node = (toy_net l)\<lparr>nd_CurrentEpoch := - 1\<rparr>, ss_Db = sample_node 0, ss_BatchCache = [], ss_SentLeaderReady = True,
     ss_FinalTxReady = False, ss_CurrentRepRound = - 1, ss_PowRx = []\<rparr>"

theorem epoch_opens_witness:
  "\<exists>s' t'. open_epoch toy_env toy_rng toy_float mem_bolt (toy_sys 3) = Some s' \<and> opened s'
    \<and> open_epoch toy_env toy_rng toy_float mem_bolt (toy_sys 4) = Some t' \<and> opened t'
    \<and> db_Leader (ss_Db t') = db_Leader (ss_Db s')"
proof -
  have h: "length (nd_ms (ss_Node (toy_sys l))) = 20" "nd_CurrentEpoch (ss_Node (toy_sys l)) = - 1"
    "nd_MyGlobalID (ss_Node (toy_sys l)) = int l" for l
    by (simp_all add: toy_sys_def toy_net_def toy_group_def)
  obtain t' where t': "open_epoch toy_env toy_rng toy_float mem_bolt (toy_sys 4) = Some t'"
    using open_epoch_first [of "toy_sys 4" toy_env toy_rng toy_float mem_bolt] h by auto
  have "same_view (nd_ms (ss_Node (toy_sys 3))) (nd_ms (ss_Node (toy_sys 4)))"
    "ch_PrevSync (nd_Chain (ss_Node (toy_sys 4))) = ch_PrevSync (nd_Chain (ss_Node (toy_sys 3)))"
    by (simp_all add: toy_sys_def toy_net_def same_view_def list.rel_refl)
  with epoch_opens [of "toy_sys 3" toy_env toy_rng toy_float mem_bolt toy_env mem_bolt] h t'
  show ?thesis by fastforce
qed

section \<open>The shard gets ready\<close>

text \<open>The numbers in the messages of an epoch, among the events.\<close>

fun announced :: "int \<Rightarrow> readyInfo event list \<Rightarrow> int list" where
  "announced epoch [] = []"
| "announced epoch (Arrive m # es) = (if rdi_Epoch m = epoch then [rdi_ID m] else []) @ announced epoch es"
| "announced epoch (Tick # es) = announced epoch es"

lemma to_members_ok:
  assumes "shard_ok G me" and "\<And>i. i < 20 \<Longrightarrow> P i = Some (Q i)"
  shows "to_members G me m P = Some (map (\<lambda>i. (mem_Address (mem G me i), m)) (filter Q [1..<20]))"
proof -
  have "ofold (\<lambda>i out. case P i of None \<Rightarrow> None
       | Some False \<Rightarrow> Some out
       | Some True \<Rightarrow> map_option (\<lambda>(k, it). out @ [(mem_Address it, m)]) (shard_member G me i)) [1..<k] []
     = Some (map (\<lambda>i. (mem_Address (mem G me i), m)) (filter Q [1..<k]))" if "k \<le> 20" for k
    using that by (induction k) (auto simp: ofold_append shard_okD(1) [OF assms(1)] assms(2) split: bool.splits)
  from this [of 20] show ?thesis by (simp add: to_members_def)
qed

lemma member_ready_loop_ok:
  assumes G: "shard_ok G me"
  shows "length mk = 3 \<Longrightarrow> set (announced (rdi_Epoch own) evs) \<subseteq> num G me ` {..<20} \<Longrightarrow> 20 \<le> n + length (announced (rdi_Epoch own) evs) \<Longrightarrow>
    \<exists>go n' mk' out'. member_ready_loop G me own evs cnt (n, mk, out) = Finished (go, n', mk', out') \<and> set out \<subseteq> set out'"
proof (induction evs arbitrary: mk n cnt out)
  case Nil
  then show ?case by (subst member_ready_loop.simps) auto
next
  case (Cons e es)
  show ?case
  proof (cases "20 \<le> n")
    case True
    then show ?thesis by (subst member_ready_loop.simps) auto
  next
    case False
    show ?thesis
    proof (cases e)
      case e: (Arrive m)
      show ?thesis
      proof (cases "rdi_Epoch m = rdi_Epoch own")
        case True
        then obtain i where i: "i < 20" "rdi_ID m = num G me i" using Cons.prems(2) e by auto
        then have "i div 8 < length mk" using Cons.prems(1) by simp
        then obtain mk' where mk': "setMaskBit (int i) Enabled mk = Some mk'" "length mk' = length mk"
          using setMaskBit_disabled [of i mk] by (auto simp: Enabled_def)
        have "\<exists>go n' mk'' out'. member_ready_loop G me own es cnt (n + 1, mk', out) = Finished (go, n', mk'', out') \<and> set out \<subseteq> set out'"
          using Cons.IH [of mk' "n + 1" cnt out] Cons.prems e True mk'(2) by simp
        then show ?thesis using False e True i mk' shard_okD(2,3) [OF G i(1)] by (subst member_ready_loop.simps) simp
      next
        case False': False
        then have "\<exists>go n' mk'' out'. member_ready_loop G me own es cnt (n, mk, out) = Finished (go, n', mk'', out') \<and> set out \<subseteq> set out'"
          using Cons.IH [of mk n cnt out] Cons.prems e by simp
        then show ?thesis using False False' e by (subst member_ready_loop.simps) simp
      qed
    next
      case e: Tick
      have "maskBit (int i) mk = Some (disabled mk i)" if "i < 20" for i
        using that Cons.prems(1) maskBit_disabled [of i mk] by simp
      then obtain o' where o': "to_members G me (ReadyAnnoun own) (\<lambda>i. map_option (\<lambda>b. b = Disabled) (maskBit (int i) mk)) = Some o'"
        using to_members_ok [OF G, of "\<lambda>i. map_option (\<lambda>b. b = Disabled) (maskBit (int i) mk)" "\<lambda>i. disabled mk i = Disabled"] by fastforce
      have "\<exists>go n' mk'' out'. member_ready_loop G me own es (cnt + 1) (n, mk, out @ o') = Finished (go, n', mk'', out') \<and> set (out @ o') \<subseteq> set out'"
        using Cons.IH [of mk n "cnt + 1" "out @ o'"] Cons.prems e by simp
      then show ?thesis using False e o' by (subst member_ready_loop.simps) auto
    qed
  qed
qed

lemma await_leader_ok:
  "\<exists>m \<in> set msgs. rdi_Epoch m = epoch \<and> leader = rdi_ID m \<Longrightarrow> await_leader leader epoch msgs = Finished ()"
  by (induction msgs) auto


lemma length_ready_mask: "length (intilizeMaskBit ((unat ShardSize + 7) div 8) Disabled) = 3"
  by (simp add: intilizeMaskBit_def)

text \<open>C36: A shard gets ready: a leader announces itself to each of its nineteen members and, once
  nineteen messages of the epoch have come from members, with whatever else and in whatever order,
  its process ends; and a member that the announcement reaches answers the leader with such a message.
  (The messages are counted, not the members: nineteen from one and the same member are enough.)\<close>

theorem shard_ready:
  fixes s :: "'d Sys"
  assumes "shard_ok (ch_Group (nd_Chain (ss_Node s))) 0" and "ch_me (nd_Chain (ss_Node s)) = 0"
    and "set (announced (nd_CurrentEpoch (ss_Node s)) mevs) \<subseteq> num (ch_Group (nd_Chain (ss_Node s))) 0 ` {..<20}"
    and "19 \<le> length (announced (nd_CurrentEpoch (ss_Node s)) mevs)"
  shows "\<exists>out. LeaderReadyProcess mevs levs s = Finished (out, s\<lparr>ss_SentLeaderReady := True\<rparr>)
    \<and> (\<forall>i. 1 \<le> i \<and> i < 20 \<longrightarrow> (mem_Address (mem (ch_Group (nd_Chain (ss_Node s))) 0 i),
          ReadyAnnoun \<lparr>rdi_ID = nd_MyGlobalID (ss_Node s), rdi_Epoch = nd_CurrentEpoch (ss_Node s)\<rparr>) \<in> set out)
    \<and> (\<forall>(t :: 'd Sys) msgs. opened t \<and> num (ch_Group (nd_Chain (ss_Node t))) 0 0 = nd_MyGlobalID (ss_Node s)
          \<and> nd_CurrentEpoch (ss_Node t) = nd_CurrentEpoch (ss_Node s)
          \<and> \<lparr>rdi_ID = nd_MyGlobalID (ss_Node s), rdi_Epoch = nd_CurrentEpoch (ss_Node s)\<rparr> \<in> set msgs \<longrightarrow>
        MinerReadyProcess msgs t = Finished ([(mem_Address (mem (ch_Group (nd_Chain (ss_Node t))) 0 0),
          ShardReady \<lparr>rdi_ID = nd_MyGlobalID (ss_Node t), rdi_Epoch = nd_CurrentEpoch (ss_Node s)\<rparr>)], t))"
proof -
  let ?n = "ss_Node s"
  let ?G = "ch_Group (nd_Chain ?n)"
  let ?own = "\<lparr>rdi_ID = nd_MyGlobalID ?n, rdi_Epoch = nd_CurrentEpoch ?n\<rparr>"
  let ?mine = "\<lparr>rdi_ID = 0, rdi_Epoch = nd_CurrentEpoch ?n\<rparr>"
  let ?out0 = "map (\<lambda>i. (mem_Address (mem ?G 0 i), ReadyAnnoun ?own)) [1..<20]"
  have o0: "to_members ?G 0 (ReadyAnnoun ?own) (\<lambda>_. Some True) = Some ?out0"
    using to_members_ok [OF assms(1), of "\<lambda>_. Some True" "\<lambda>_. True" "ReadyAnnoun ?own"] by (simp del: upt_Suc)
  obtain go n' mk' out' where l: "member_ready_loop ?G 0 ?own mevs 0 (1, intilizeMaskBit ((unat ShardSize + 7) div 8) Disabled, ?out0)
      = Finished (go, n', mk', out')" "set ?out0 \<subseteq> set out'"
    using member_ready_loop_ok [OF assms(1) length_ready_mask, of ?own mevs 1 0 ?out0] assms(3,4) by auto
  have o2: "to_leaders ?G (LeaderReady ?mine) (\<lambda>i. Some (int i \<noteq> 0)) = Some []"
    by (simp add: to_leaders_def one_upt)
  have "leader_ready_loop ?G ?mine levs (1, m, out') = Finished (1, m, out')" for m
    by (subst leader_ready_loop.simps) simp
  then have "LeaderReadyProcess mevs levs s = Finished (out', s\<lparr>ss_SentLeaderReady := True\<rparr>)"
    unfolding LeaderReadyProcess_def Let_def assms(2) o0 o2 attempt_simps andThen.simps l(1) prod.case by (cases go) simp_all
  moreover have "(mem_Address (mem ?G 0 i), ReadyAnnoun ?own) \<in> set out'" if "1 \<le> i \<and> i < 20" for i
    using that l(2) by auto
  moreover have "MinerReadyProcess msgs t = Finished ([(mem_Address (mem (ch_Group (nd_Chain (ss_Node t))) 0 0),
          ShardReady \<lparr>rdi_ID = nd_MyGlobalID (ss_Node t), rdi_Epoch = nd_CurrentEpoch ?n\<rparr>)], t)"
    if t: "opened t" "num (ch_Group (nd_Chain (ss_Node t))) 0 0 = nd_MyGlobalID ?n" "nd_CurrentEpoch (ss_Node t) = nd_CurrentEpoch ?n"
      "?own \<in> set msgs" for t :: "'d Sys" and msgs
  proof -
    have "shard_member (ch_Group (nd_Chain (ss_Node t))) 0 0 = Some (nd_MyGlobalID ?n, mem (ch_Group (nd_Chain (ss_Node t))) 0 0)"
      using t(1,2) shard_okD(1) [of "ch_Group (nd_Chain (ss_Node t))" 0 0] by (simp add: opened_def Let_def)
    then obtain row where "at (gr_ShardToGlobal (ch_Group (nd_Chain (ss_Node t)))) 0 = Some row" "idx row 0 = Some (nd_MyGlobalID ?n)"
      by (auto simp: shard_member_def split: option.splits)
    moreover have "await_leader (nd_MyGlobalID ?n) (nd_CurrentEpoch ?n) msgs = Finished ()"
      using t(4) by (intro await_leader_ok bexI [of _ ?own]) simp_all
    ultimately show ?thesis using t(1,3) by (simp add: MinerReadyProcess_def Let_def opened_def del: idx_Some)
  qed
  ultimately show ?thesis by blast
qed

text \<open>Nineteen messages of one member.\<close>

theorem shard_ready_witness:
  "\<exists>out. LeaderReadyProcess (Tick # replicate 19 (Arrive \<lparr>rdi_ID = 5, rdi_Epoch = - 1\<rparr>)) [] (toy_sys 0)
     = Finished (out, (toy_sys 0)\<lparr>ss_SentLeaderReady := True\<rparr>)"
proof -
  have n: "ch_Group (nd_Chain (ss_Node (toy_sys 0))) = toy_group" "ch_me (nd_Chain (ss_Node (toy_sys 0))) = 0"
    "nd_CurrentEpoch (ss_Node (toy_sys 0)) = - 1" by (simp_all add: toy_sys_def toy_net_def toy_node_def)
  have a: "announced (- 1) (Tick # replicate k (Arrive \<lparr>rdi_ID = 5, rdi_Epoch = - 1\<rparr>)) = replicate k 5" for k
    by (induction k) simp_all
  have "5 \<in> num toy_group 0 ` {..<20}" using toy_num_mem(1) [of 5] by (intro image_eqI [of _ _ 5]) simp_all
  then show ?thesis using shard_ready [of "toy_sys 0" "Tick # replicate 19 (Arrive \<lparr>rdi_ID = 5, rdi_Epoch = - 1\<rparr>)" "[]"]
    unfolding n a using toy_shard_ok by auto
qed

end
