(* ===== verification/Sync.thy ===== *)
theory Sync
  imports Epoch
begin

text \<open>
  The end of an epoch (\<open>testforclient/network/SyncProtocol.go\<close>): a node asks a member of every other
  shard for the sync block and the final block of that shard, one member after the other until both
  have come, and enters them into its database, its members and its reputation chain.

  Every shard is received by a goroutine of its own. \<open>receive_loop\<close> is its wait, a function of the
  events of its three channels and of its timeout; the goroutines enter their blocks in the order
  in which they end, a parameter of \<open>SyncProcess\<close>.
\<close>

section \<open>Messages\<close>

record syncSBInfo =
  sbi_ID :: int
  sbi_Block :: SyncBlock

record syncTBInfo =
  tbi_ID :: int
  tbi_Block :: TxBlock

record syncNotReadyInfo =
  nri_ID :: int
  nri_Epoch :: int

datatype SyncMsg = RequestSync syncRequestInfo | SyncNReady syncNotReadyInfo | SyncSB syncSBInfo | SyncTB bytes

type_synonym sync_out = "(string \<times> SyncMsg) list"

text \<open>\<open>uint32(s.ID)\<close> is sent, and read back as a nonnegative number. The error of the first field is
  dropped.\<close>

definition syncTBInfo_Encode :: "syncTBInfo \<Rightarrow> bytes option" where
  "syncTBInfo_Encode s = seq_opt [Encode (VU32 (word_of_int (tbi_ID s))), TxBlock_Serial (tbi_Block s)]"

definition syncTBInfo_Decode :: "syncTBInfo dec" where
  "syncTBInfo_Decode s buf =
     (case Decode_u32 0 buf of
        DPanic \<Rightarrow> DPanic
      | DOk v b \<Rightarrow> fieldS tbi_Block tbi_Block_update (\<lambda>_. TxBlock_Decode 1) (s\<lparr>tbi_ID := int (unat v)\<rparr>) b
      | DErr v b _ \<Rightarrow> fieldS tbi_Block tbi_Block_update (\<lambda>_. TxBlock_Decode 1) (s\<lparr>tbi_ID := int (unat v)\<rparr>) b)"

section \<open>Receiving the blocks of a shard\<close>

datatype sync_event = GotSB syncSBInfo | GotTB syncTBInfo | GotNotReady | SyncTimeout

text \<open>What is still missing (\<open>sbrxflag\<close>, \<open>tbrxflag\<close>), the last messages received, the member asked, and
  the final block of the shard in the cache.\<close>

record receiving =
  rc_sb :: bool
  rc_tb :: bool
  rc_SB :: syncSBInfo
  rc_TB :: syncTBInfo
  rc_aski :: nat
  rc_FB :: "TxBlock option"
  rc_out :: sync_out

definition request_sync :: "Group \<Rightarrow> nat \<Rightarrow> syncRequestInfo \<Rightarrow> nat \<Rightarrow> sync_out option" where
  "request_sync G k req i = map_option (\<lambda>(_, m). [(mem_Address m, RequestSync req)]) (shard_member G (int k) i)"

text \<open>A sync block is taken whether its signature is valid or not. A message is kept before it is
  looked at, so that a final block that fails its check still replaces the one before; the
  cached copy only changes when the check succeeds. \<open>ExperimentBadLevel\<close> is 0.\<close>

definition receive_step ::
  "('g::ab_group_add) curve \<Rightarrow> verifier \<Rightarrow> Group \<Rightarrow> nat \<Rightarrow> syncRequestInfo \<Rightarrow> sync_event \<Rightarrow> receiving \<Rightarrow> receiving option" where
  "receive_step C vf G k req ev s =
     (case ev of
        GotSB m \<Rightarrow> map_option (\<lambda>_. s\<lparr>rc_SB := m, rc_sb := False\<rparr>) (SyncBlock_VerifyCoSignature C (gr_Mems G) (sbi_Block m))
      | GotTB m \<Rightarrow>
          (case shard_member G (int k) 0 of None \<Rightarrow> None
           | Some (_, ld) \<Rightarrow>
             (case TxBlock_Verify vf (tbi_Block m) (rc_Puk (mem_RealAccount ld)) of None \<Rightarrow> None
              | Some (ok, _) \<Rightarrow> Some (if ok then s\<lparr>rc_TB := m, rc_tb := False, rc_FB := Some (tbi_Block m)\<rparr> else s\<lparr>rc_TB := m\<rparr>)))
      | GotNotReady \<Rightarrow> map_option (\<lambda>o'. s\<lparr>rc_out := rc_out s @ o'\<rparr>) (request_sync G k req (rc_aski s))
      | SyncTimeout \<Rightarrow>
          (let i = (rc_aski s + 1) mod unat ShardSize in
           map_option (\<lambda>o'. s\<lparr>rc_aski := i, rc_out := rc_out s @ o'\<rparr>) (request_sync G k req i)))"

fun receive_loop ::
  "('g::ab_group_add) curve \<Rightarrow> verifier \<Rightarrow> Group \<Rightarrow> nat \<Rightarrow> syncRequestInfo \<Rightarrow> sync_event list \<Rightarrow> receiving \<Rightarrow> (sync_out, receiving) process" where
  "receive_loop C vf G k req evs s =
     (if \<not> rc_sb s \<and> \<not> rc_tb s then Finished s
      else case evs of [] \<Rightarrow> Blocked (rc_out s)
      | ev # es \<Rightarrow> (case receive_step C vf G k req ev s of None \<Rightarrow> Crashed | Some s' \<Rightarrow> receive_loop C vf G k req es s'))"

declare receive_loop.simps [simp del]

text \<open>The errors of \<open>GetFinalTxBlock\<close> are dropped.\<close>

definition enter_blocks :: "'d bolt \<Rightarrow> gob \<Rightarrow> nat \<Rightarrow> receiving \<Rightarrow> 'd Sys \<Rightarrow> 'd Sys option" where
  "enter_blocks B g k r s =
     (let n = ss_Node s; ch = nd_Chain n; G = ch_Group ch; d = ss_Db s in
      case put_idx (db_FB d) k (rc_FB r) of None \<Rightarrow> None
      | Some fb \<Rightarrow>
        (case GetFinalTxBlock B (d\<lparr>db_FB := fb\<rparr>) (tbi_Block (rc_TB r)) of None \<Rightarrow> None
         | Some (_, d') \<Rightarrow>
           (case UpdateTotalRepInMS (sbi_Block (rc_SB r)) (gr_Mems G) of None \<Rightarrow> None
            | Some ms \<Rightarrow> map_option (\<lambda>ch'. s\<lparr>ss_Db := d', ss_Node := n\<lparr>nd_Chain := ch'\<rparr>\<rparr>)
                (AddSyncBlockFromOtherShards B g (sbi_Block (rc_SB r)) (int k) (ch\<lparr>ch_Group := G\<lparr>gr_Mems := ms\<rparr>\<rparr>)))))"

definition ReceiveSyncProcess ::
  "('g::ab_group_add) curve \<Rightarrow> verifier \<Rightarrow> 'd bolt \<Rightarrow> gob \<Rightarrow> nat \<Rightarrow> nat \<Rightarrow> sync_event list \<Rightarrow> SyncBlock \<Rightarrow> 'd Sys \<Rightarrow>
   (sync_out, sync_out \<times> 'd Sys) process" where
  "ReceiveSyncProcess C vf B g k ask evs zero s =
     (let n = ss_Node s; G = ch_Group (nd_Chain n);
          req = \<lparr>sq_ID = nd_MyGlobalID n, sq_Round = 0, sq_Epoch = nd_CurrentEpoch n\<rparr> in
      andThen (attempt (request_sync G k req ask)) (\<lambda>out.
      andThen (attempt (idx (db_FB (ss_Db s)) k)) (\<lambda>fb.
      andThen (receive_loop C vf G k req evs \<lparr>rc_sb = True, rc_tb = True, rc_SB = \<lparr>sbi_ID = 0, sbi_Block = zero\<rparr>,
          rc_TB = \<lparr>tbi_ID = 0, tbi_Block = TxBlock_zero\<rparr>, rc_aski = ask, rc_FB = fb, rc_out = out\<rparr>) (\<lambda>r.
      andThen (attempt (enter_blocks B g k r s)) (\<lambda>s'. Finished (rc_out r, s'))))))"

text \<open>\<open>order\<close> lists the other shards as their goroutines end; the process waits for all of them. The
  members asked first are random.\<close>

fun receive_all ::
  "('g::ab_group_add) curve \<Rightarrow> verifier \<Rightarrow> 'd bolt \<Rightarrow> gob \<Rightarrow> (nat \<Rightarrow> nat) \<Rightarrow> (nat \<Rightarrow> sync_event list) \<Rightarrow> SyncBlock \<Rightarrow> nat list \<Rightarrow>
   sync_out \<times> 'd Sys \<Rightarrow> (sync_out, sync_out \<times> 'd Sys) process" where
  "receive_all C vf B g ask evs zero [] os = Finished os"
| "receive_all C vf B g ask evs zero (k # ks) os =
     andThen (ReceiveSyncProcess C vf B g k (ask k) (evs k) zero (snd os)) (\<lambda>(out, s). receive_all C vf B g ask evs zero ks (fst os @ out, s))"

definition other_shards :: "'d Sys \<Rightarrow> nat list" where
  "other_shards s = filter (\<lambda>i. int i \<noteq> ch_me (nd_Chain (ss_Node s))) [0..<unat ShardCnt]"

definition SyncProcess ::
  "('g::ab_group_add) curve \<Rightarrow> verifier \<Rightarrow> 'd bolt \<Rightarrow> gob \<Rightarrow> (nat \<Rightarrow> nat) \<Rightarrow> (nat \<Rightarrow> sync_event list) \<Rightarrow> SyncBlock \<Rightarrow> nat list \<Rightarrow> 'd Sys \<Rightarrow>
   (sync_out, sync_out \<times> 'd Sys) process" where
  "SyncProcess C vf B g ask evs zero order s =
     (let s1 = s\<lparr>ss_Node := (ss_Node s)\<lparr>nd_CurrentEpoch := nd_CurrentEpoch (ss_Node s) + 1\<rparr>\<rparr> in
      if mset order = mset (other_shards s1) then receive_all C vf B g ask evs zero order ([], s1) else Blocked [])"

section \<open>The handlers\<close>

text \<open>The number of the channel a message goes to: the shard of its sender.\<close>

definition sync_chan :: "Group \<Rightarrow> int \<Rightarrow> nat option" where
  "sync_chan G k = (case at (gr_Mems G) k of None \<Rightarrow> None
     | Some m \<Rightarrow> if 0 \<le> mem_Shard m \<and> mem_Shard m < int (unat ShardCnt) then Some (nat (mem_Shard m)) else None)"

definition HandleSyncNotReady :: "('r \<Rightarrow> syncNotReadyInfo option) \<Rightarrow> 'r \<Rightarrow> 'd Sys \<Rightarrow> (nat \<times> sync_event) option" where
  "HandleSyncNotReady dec r s = (case dec r of None \<Rightarrow> None
     | Some p \<Rightarrow> map_option (\<lambda>k. (k, GotNotReady)) (sync_chan (ch_Group (nd_Chain (ss_Node s))) (nri_ID p)))"

definition HandleSyncSBMessage :: "('r \<Rightarrow> syncSBInfo option) \<Rightarrow> 'r \<Rightarrow> 'd Sys \<Rightarrow> (nat \<times> sync_event) option" where
  "HandleSyncSBMessage dec r s = (case dec r of None \<Rightarrow> None
     | Some p \<Rightarrow> map_option (\<lambda>k. (k, GotSB p)) (sync_chan (ch_Group (nd_Chain (ss_Node s))) (sbi_ID p)))"

definition HandleSyncTBMessage :: "bytes \<Rightarrow> 'd Sys \<Rightarrow> (nat \<times> sync_event) option" where
  "HandleSyncTBMessage request s =
     (case syncTBInfo_Decode \<lparr>tbi_ID = 0, tbi_Block = TxBlock_zero\<rparr> request of
        DOk p _ \<Rightarrow> map_option (\<lambda>k. (k, GotTB p)) (sync_chan (ch_Group (nd_Chain (ss_Node s))) (tbi_ID p))
      | _ \<Rightarrow> None)"

text \<open>A request from an epoch that is over is not answered. \<open>CurrentSyncBlock.Epoch\<close> is \<open>ch_Epoch\<close>.\<close>

definition HandleRequestSync :: "('r \<Rightarrow> syncRequestInfo option) \<Rightarrow> 'r \<Rightarrow> 'd Sys \<Rightarrow> sync_out option" where
  "HandleRequestSync dec r s =
     (let n = ss_Node s; ch = nd_Chain n; d = ss_Db s in
      case dec r of None \<Rightarrow> None
      | Some p \<Rightarrow>
        (case at (gr_Mems (ch_Group ch)) (sq_ID p) of None \<Rightarrow> None
         | Some m \<Rightarrow>
           if sq_Epoch p > ch_Epoch ch then Some [(mem_Address m, SyncNReady \<lparr>nri_ID = nd_MyGlobalID n, nri_Epoch = ch_Epoch ch\<rparr>)]
           else if sq_Epoch p = ch_Epoch ch
           then (case at (db_HistoryShard d) (sq_Epoch p) of None \<Rightarrow> None
             | Some sh \<Rightarrow>
               (case idx (db_FB d) (unat sh) of
                  Some (Some fb) \<Rightarrow>
                    (case (syncTBInfo_Encode \<lparr>tbi_ID = nd_MyGlobalID n, tbi_Block = fb\<rparr>, ch_SyncBlock ch) of
                       (Some out, Some b) \<Rightarrow> Some [(mem_Address m, SyncTB out), (mem_Address m, SyncSB \<lparr>sbi_ID = nd_MyGlobalID n, sbi_Block = b\<rparr>)]
                     | _ \<Rightarrow> None)
                | _ \<Rightarrow> None))
           else Some []))"

section \<open>What a node ends up with\<close>

fun tbs :: "sync_event list \<Rightarrow> syncTBInfo list" where
  "tbs [] = []"
| "tbs (GotTB m # es) = m # tbs es"
| "tbs (_ # es) = tbs es"

fun sbs :: "sync_event list \<Rightarrow> syncSBInfo list" where
  "sbs [] = []"
| "sbs (GotSB m # es) = m # sbs es"
| "sbs (_ # es) = sbs es"

text \<open>The final blocks of a shard must carry the signature of its leader.\<close>

definition by_leader :: "verifier \<Rightarrow> Group \<Rightarrow> nat \<Rightarrow> TxBlock \<Rightarrow> bool" where
  "by_leader vf G k b \<longleftrightarrow> (\<exists>i ld e. shard_member G (int k) 0 = Some (i, ld) \<and> TxBlock_Verify vf b (rc_Puk (mem_RealAccount ld)) = Some (True, e))"

lemma receive_loop_last:
  assumes "receive_loop C vf G k req evs s = Finished r"
    and "\<not> rc_tb s \<longrightarrow> (\<exists>b. rc_FB s = Some b \<and> by_leader vf G k b)"
  shows "\<exists>p q. evs = p @ q \<and> rc_SB r = last (rc_SB s # sbs p) \<and> rc_TB r = last (rc_TB s # tbs p)
    \<and> (rc_sb s \<longrightarrow> sbs p \<noteq> []) \<and> (\<exists>b. rc_FB r = Some b \<and> by_leader vf G k b)"
  using assms
proof (induction evs arbitrary: s)
  case Nil
  then show ?case by (subst (asm) receive_loop.simps) (auto split: if_splits)
next
  case (Cons ev es)
  show ?case
  proof (cases "\<not> rc_sb s \<and> \<not> rc_tb s")
    case True
    then have "r = s" using Cons.prems(1) by (subst (asm) receive_loop.simps) simp
    then show ?thesis using True Cons.prems(2) by (intro exI [of _ "[]"] exI [of _ "ev # es"]) simp
  next
    case False
    then obtain s' where st: "receive_step C vf G k req ev s = Some s'" and rest: "receive_loop C vf G k req es s' = Finished r"
      using Cons.prems(1) by (subst (asm) receive_loop.simps) (auto split: option.splits)
    have inv: "\<not> rc_tb s' \<longrightarrow> (\<exists>b. rc_FB s' = Some b \<and> by_leader vf G k b)"
      using st Cons.prems(2) by (cases ev) (auto simp: receive_step_def by_leader_def Let_def split: option.splits prod.splits if_splits)
    obtain p q where p: "es = p @ q" "rc_SB r = last (rc_SB s' # sbs p)" "rc_TB r = last (rc_TB s' # tbs p)"
        "rc_sb s' \<longrightarrow> sbs p \<noteq> []" "\<exists>b. rc_FB r = Some b \<and> by_leader vf G k b"
      using Cons.IH [OF rest inv] by blast
    have "ev # es = (ev # p) @ q \<and> rc_SB r = last (rc_SB s # sbs (ev # p)) \<and> rc_TB r = last (rc_TB s # tbs (ev # p))
      \<and> (rc_sb s \<longrightarrow> sbs (ev # p) \<noteq> [])"
      using st p(1-4) by (cases ev) (auto simp: receive_step_def Let_def split: option.splits prod.splits if_splits)
    then show ?thesis using p(5) by blast
  qed
qed

text \<open>The state in which a shard is received.\<close>

definition to_receive :: "receiving \<Rightarrow> bool" where
  "to_receive s \<longleftrightarrow> rc_sb s \<and> rc_tb s"

text \<open>C37: What a node takes from another shard: when it has received the shard, the final block in its
  cache carries the signature of the leader of that shard. But the final block it enters into its database
  is the last that came, and the sync block the last that came, whether their signatures are valid or
  not.\<close>

theorem sync_takes_last:
  assumes "receive_loop C vf G k req evs s = Finished r" and "to_receive s"
  shows "(\<exists>b. rc_FB r = Some b \<and> by_leader vf G k b)
    \<and> (\<exists>p q. evs = p @ q \<and> sbs p \<noteq> [] \<and> rc_SB r = last (sbs p) \<and> rc_TB r = last (rc_TB s # tbs p))"
proof -
  obtain p q where p: "evs = p @ q" "rc_SB r = last (rc_SB s # sbs p)" "rc_TB r = last (rc_TB s # tbs p)" "sbs p \<noteq> []"
      "\<exists>b. rc_FB r = Some b \<and> by_leader vf G k b"
    using receive_loop_last [OF assms(1)] assms(2) by (auto simp: to_receive_def)
  then show ?thesis by (intro conjI exI [of _ p] exI [of _ q]) simp_all
qed

text \<open>A block of the leader, the same block with another signature, and a sync block without one.\<close>

definition signed_final :: TxBlock where
  "signed_final = TxBlock_zero\<lparr>tb_Kind := 1, tb_HashID := TxBlock_Hash (TxBlock_zero\<lparr>tb_Kind := 1\<rparr>), tb_Sig := \<lparr>sig_R = Some 32, sig_S = Some 0\<rparr>\<rparr>"

definition forged_final :: TxBlock where
  "forged_final = signed_final\<lparr>tb_Sig := \<lparr>sig_R = Some 0, sig_S = Some 0\<rparr>, tb_TxCnt := 7\<rparr>"

definition unsigned_sync :: SyncBlock where
  "unsigned_sync = \<lparr>sy_Timestamp = 0, sy_PrevRepBlockHash = 0, sy_PrevSyncBlockHash = [], sy_PrevFinalBlockHash = 0,
     sy_IDlist = map int [0..<20], sy_TotalRep = replicate 20 [1000], sy_CoSignature = [], sy_Hash = 0\<rparr>"

definition toy_receiving :: receiving where
  "toy_receiving = \<lparr>rc_sb = True, rc_tb = True, rc_SB = \<lparr>sbi_ID = 0, sbi_Block = unsigned_sync\<rparr>, rc_TB = \<lparr>tbi_ID = 0, tbi_Block = TxBlock_zero\<rparr>,
     rc_aski = 4, rc_FB = None, rc_out = []\<rparr>"

lemma toy_finals:
  "TxBlock_Verify toy_verify signed_final pk = Some (True, None)"
  "TxBlock_Verify toy_verify forged_final pk = Some (False, Some (Msg ''VerifyTxBlock Invalid signature''))"
proof -
  have "TxBlock_Hash signed_final = tb_HashID signed_final" "TxBlock_Hash forged_final = tb_HashID forged_final"
    unfolding TxBlock_Hash_def TxBlock_data_def signed_final_def forged_final_def by simp_all
  then show "TxBlock_Verify toy_verify signed_final pk = Some (True, None)"
    "TxBlock_Verify toy_verify forged_final pk = Some (False, Some (Msg ''VerifyTxBlock Invalid signature''))"
    unfolding TxBlock_Verify_def by (simp_all add: RCSign_Verify_def signed_final_def forged_final_def toy_verify_def)
qed

lemma toy_unsigned: "SyncBlock_VerifyCoSignature toy_curve (gr_Mems toy_group) unsigned_sync = Some False"
proof -
  have "those (map (\<lambda>i. case idx (sy_IDlist unsigned_sync) i of None \<Rightarrow> None
      | Some k \<Rightarrow> map_option mem_CosiPub (at (gr_Mems toy_group) k)) [0..<20]) = Some (map (\<lambda>i. mem_CosiPub (toy_member i)) [0..<20])"
    by (rule those_map_cong) (simp add: unsigned_sync_def toy_group_def at_def idx_def)
  then show ?thesis by (simp add: SyncBlock_VerifyCoSignature_def cosi_Verify_def) (simp add: unsigned_sync_def)
qed

theorem sync_takes_last_witness:
  "\<exists>r. receive_loop toy_curve toy_verify toy_group 0 \<lparr>sq_ID = 3, sq_Round = 0, sq_Epoch = 0\<rparr>
      [SyncTimeout, GotTB \<lparr>tbi_ID = 1, tbi_Block = signed_final\<rparr>, GotTB \<lparr>tbi_ID = 2, tbi_Block = forged_final\<rparr>,
       GotSB \<lparr>sbi_ID = 2, sbi_Block = unsigned_sync\<rparr>] toy_receiving = Finished r
    \<and> (\<exists>b. rc_FB r = Some b \<and> by_leader toy_verify toy_group 0 b) \<and> tbi_Block (rc_TB r) = forged_final"
proof -
  have "\<exists>r. receive_loop toy_curve toy_verify toy_group 0 \<lparr>sq_ID = 3, sq_Round = 0, sq_Epoch = 0\<rparr>
      [SyncTimeout, GotTB \<lparr>tbi_ID = 1, tbi_Block = signed_final\<rparr>, GotTB \<lparr>tbi_ID = 2, tbi_Block = forged_final\<rparr>,
       GotSB \<lparr>sbi_ID = 2, sbi_Block = unsigned_sync\<rparr>] toy_receiving = Finished r \<and> tbi_Block (rc_TB r) = forged_final"
    by (simp add: receive_loop.simps receive_step_def toy_receiving_def toy_finals toy_unsigned request_sync_def toy_shard Let_def)
  then obtain r where r: "receive_loop toy_curve toy_verify toy_group 0 \<lparr>sq_ID = 3, sq_Round = 0, sq_Epoch = 0\<rparr>
      [SyncTimeout, GotTB \<lparr>tbi_ID = 1, tbi_Block = signed_final\<rparr>, GotTB \<lparr>tbi_ID = 2, tbi_Block = forged_final\<rparr>,
       GotSB \<lparr>sbi_ID = 2, sbi_Block = unsigned_sync\<rparr>] toy_receiving = Finished r" "tbi_Block (rc_TB r) = forged_final" by blast
  then show ?thesis using sync_takes_last [OF r(1)] by (auto simp: to_receive_def toy_receiving_def)
qed

section \<open>Answering a request\<close>

lemma syncTBInfo_Decode_enc:
  assumes "TxBlock_wf 1 fb" and "0 \<le> k" "k < 2 ^ 32" and "syncTBInfo_Encode \<lparr>tbi_ID = k, tbi_Block = fb\<rparr> = Some e" and "length e < 2 ^ 32"
  shows "syncTBInfo_Decode \<lparr>tbi_ID = 0, tbi_Block = TxBlock_zero\<rparr> e = DOk \<lparr>tbi_ID = k, tbi_Block = TxBlock_view 1 fb\<rparr> []"
proof -
  obtain x where x: "TxBlock_Encode fb 1 = Some x" "e = le_bytes 4 (word_of_int k :: u32) @ x"
    using assms(4) by (auto simp: syncTBInfo_Encode_def TxBlock_Serial_def seq_opt_Cons_Some)
  then have l: "length x + 4 < 2 ^ 32" using assms(5) by simp
  then have d: "TxBlock_Decode 1 TxBlock_zero x = DOk (TxBlock_view 1 fb) []"
    using TxBlock_Decode_enc [OF assms(1) x(1), of "[]"] by simp
  have "int (unat (word_of_int k :: u32)) = k" using assms(2,3) by (simp add: unsigned_of_int take_bit_int_eq_self)
  with d l show ?thesis by (simp add: syncTBInfo_Decode_def x(2) fieldS_def)
qed

text \<open>C38: A request for the current epoch is answered with the final block and the sync block of the
  shard. The packet with the final block arrives as it was sent, whatever it holds, and the two answers
  complete the reception of the shard if the leader's signature of the final block is valid.\<close>

theorem sync_answered:
  assumes "dec rq = Some p" and "at (gr_Mems (ch_Group (nd_Chain (ss_Node s)))) (sq_ID p) = Some m"
    and "sq_Epoch p = ch_Epoch (nd_Chain (ss_Node s))" and "at (db_HistoryShard (ss_Db s)) (sq_Epoch p) = Some sh"
    and "idx (db_FB (ss_Db s)) (unat sh) = Some (Some fb)" and "ch_SyncBlock (nd_Chain (ss_Node s)) = Some b"
    and "TxBlock_wf 1 fb" and "0 \<le> nd_MyGlobalID (ss_Node s)" "nd_MyGlobalID (ss_Node s) < 2 ^ 32"
  shows "\<exists>out. HandleRequestSync dec rq s = Some [(mem_Address m, SyncTB out),
          (mem_Address m, SyncSB \<lparr>sbi_ID = nd_MyGlobalID (ss_Node s), sbi_Block = b\<rparr>)]
    \<and> (length out < 2 ^ 32 \<longrightarrow> (\<forall>t k. sync_chan (ch_Group (nd_Chain (ss_Node t))) (nd_MyGlobalID (ss_Node s)) = Some k \<longrightarrow>
          HandleSyncTBMessage out t = Some (k, GotTB \<lparr>tbi_ID = nd_MyGlobalID (ss_Node s), tbi_Block = TxBlock_view 1 fb\<rparr>)
          \<and> (\<forall>C vf req s0. by_leader vf (ch_Group (nd_Chain (ss_Node t))) k (TxBlock_view 1 fb) \<and> to_receive s0
               \<and> SyncBlock_VerifyCoSignature C (nd_ms (ss_Node t)) b \<noteq> None \<longrightarrow>
             (\<exists>r. receive_loop C vf (ch_Group (nd_Chain (ss_Node t))) k req
                 [GotTB \<lparr>tbi_ID = nd_MyGlobalID (ss_Node s), tbi_Block = TxBlock_view 1 fb\<rparr>,
                  GotSB \<lparr>sbi_ID = nd_MyGlobalID (ss_Node s), sbi_Block = b\<rparr>] s0 = Finished r
               \<and> rc_FB r = Some (TxBlock_view 1 fb) \<and> tbi_Block (rc_TB r) = TxBlock_view 1 fb \<and> sbi_Block (rc_SB r) = b))))"
proof -
  obtain x where "TxBlock_Encode fb 1 = Some x" using TxBlock_Encode_wf [OF assms(7)] by blast
  then obtain out where out: "syncTBInfo_Encode \<lparr>tbi_ID = nd_MyGlobalID (ss_Node s), tbi_Block = fb\<rparr> = Some out"
    by (simp add: syncTBInfo_Encode_def TxBlock_Serial_def)
  have "HandleRequestSync dec rq s = Some [(mem_Address m, SyncTB out), (mem_Address m, SyncSB \<lparr>sbi_ID = nd_MyGlobalID (ss_Node s), sbi_Block = b\<rparr>)]"
    using assms(1-6) out by (simp add: HandleRequestSync_def Let_def del: idx_Some)
  moreover have "HandleSyncTBMessage out t = Some (k, GotTB \<lparr>tbi_ID = nd_MyGlobalID (ss_Node s), tbi_Block = TxBlock_view 1 fb\<rparr>)"
    if "length out < 2 ^ 32" "sync_chan (ch_Group (nd_Chain (ss_Node t))) (nd_MyGlobalID (ss_Node s)) = Some k" for t :: "'c Sys" and k
    using syncTBInfo_Decode_enc [OF assms(7,8,9) out that(1)] that(2) by (simp add: HandleSyncTBMessage_def)
  moreover have "\<exists>r. receive_loop C vf G k req [GotTB \<lparr>tbi_ID = i, tbi_Block = fb'\<rparr>, GotSB \<lparr>sbi_ID = i, sbi_Block = b\<rparr>] s0 = Finished r
      \<and> rc_FB r = Some fb' \<and> tbi_Block (rc_TB r) = fb' \<and> sbi_Block (rc_SB r) = b"
    if h: "by_leader vf G k fb'" "to_receive s0" "SyncBlock_VerifyCoSignature C (gr_Mems G) b \<noteq> None"
    for C :: "('d::ab_group_add) curve" and vf G k req i fb' s0
  proof -
    obtain j ld e where l: "shard_member G (int k) 0 = Some (j, ld)" "TxBlock_Verify vf fb' (rc_Puk (mem_RealAccount ld)) = Some (True, e)"
      using h(1) by (auto simp: by_leader_def)
    obtain v where v: "SyncBlock_VerifyCoSignature C (gr_Mems G) b = Some v" using h(3) by blast
    show ?thesis using l v h(2) by (simp add: receive_loop.simps receive_step_def to_receive_def)
  qed
  ultimately show ?thesis by blast
qed

definition toy_answering :: "mem_db Sys" where
  "toy_answering = (let s = toy_sys 3 in s\<lparr>ss_Node := (ss_Node s)\<lparr>nd_Chain := (nd_Chain (ss_Node s))\<lparr>ch_Epoch := 0, ch_SyncBlock := Some unsigned_sync\<rparr>\<rparr>,
     ss_Db := (ss_Db s)\<lparr>db_HistoryShard := [0], db_FB := [Some sample_block]\<rparr>\<rparr>)"

theorem sync_answered_witness:
  "\<exists>a out sb. HandleRequestSync Some \<lparr>sq_ID = 7, sq_Round = 0, sq_Epoch = 0\<rparr> toy_answering = Some [(a, SyncTB out), (a, SyncSB sb)]"
proof -
  have "at (gr_Mems (ch_Group (nd_Chain (ss_Node toy_answering)))) 7 = Some (toy_member 7)"
    by (simp add: toy_answering_def Let_def toy_sys_def toy_net_def toy_group_def at_def idx_def)
  then show ?thesis
    using sync_answered [of Some "\<lparr>sq_ID = 7, sq_Round = 0, sq_Epoch = 0\<rparr>" "\<lparr>sq_ID = 7, sq_Round = 0, sq_Epoch = 0\<rparr>" toy_answering
        "toy_member 7" 0 sample_block unsigned_sync] sample_block_wf
    by (auto simp: toy_answering_def Let_def toy_sys_def toy_net_def at_def)
qed

text \<open>Before the first epoch has ended, a request for epoch -1 panics the node.\<close>

lemma HandleRequestSync_panics:
  assumes "dec rq = Some p" and "sq_Epoch p = - 1" and "ch_Epoch (nd_Chain (ss_Node s)) = - 1"
  shows "HandleRequestSync dec rq s = None"
  using assms by (auto simp: HandleRequestSync_def Let_def at_def split: option.splits)

text \<open>With one shard there is nothing to ask for: the process only counts the epoch.\<close>

lemma SyncProcess_one_shard:
  assumes "ch_me (nd_Chain (ss_Node s)) = 0"
  shows "SyncProcess C vf B g ask evs zero [] s = Finished ([], s\<lparr>ss_Node := (ss_Node s)\<lparr>nd_CurrentEpoch := nd_CurrentEpoch (ss_Node s) + 1\<rparr>\<rparr>)"
  using assms by (simp add: SyncProcess_def Let_def other_shards_def one_upt)

end
