(* ===== verification/RepPow.thy ===== *)
theory RepPow
  imports Epoch
begin

text \<open>
  The reputation round by proof of work (\<open>testforclient/network/RepProtocol.go\<close>), which the main loop
  no longer starts: the own nonce or one that was validated is announced, the nonces of the others are
  counted until half of the shard agrees, and a node with another nonce asks for the block.
\<close>

section \<open>Messages\<close>

record powInfo =
  pi_ID :: int
  pi_Round :: int
  pi_Hash :: hash
  pi_Nonce :: int

record requetRepInfo =
  rq_ID :: int
  rq_Round :: int

datatype PowMsg = RepPowAnnou powInfo | RequestRep requetRepInfo | RepBlock ReputationBlock

type_synonym pow_out = "(string \<times> PowMsg) list"

section \<open>The round\<close>

text \<open>To the other members of the shard.\<close>

definition announce_pow :: "Group \<Rightarrow> MemShard \<Rightarrow> powInfo \<Rightarrow> pow_out option" where
  "announce_pow G my p = ofold (\<lambda>i out. if int i = mem_InShardId my then Some out
       else map_option (\<lambda>(_, it). out @ [(mem_Address it, RepPowAnnou p)]) (shard_member G (mem_Shard my) i)) [0..<unat ShardSize] []"

text \<open>A candidate for the current round counts for its nonce; the tenth makes the nonce the right one.
  The rest of the channel is kept.\<close>

fun count_nonces :: "Group \<Rightarrow> int \<Rightarrow> RepPowInfo list \<Rightarrow> PowState \<Rightarrow> (pow_out, int \<times> PowState \<times> RepPowInfo list) process" where
  "count_nonces G rnd [] s = Blocked []"
| "count_nonces G rnd (c # cs) s =
     (if pw_Round c \<noteq> rnd then count_nonces G rnd cs s
      else
        (let n = po_NonceMap s (pw_Nonce c) + 1; s' = s\<lparr>po_NonceMap := (po_NonceMap s)(pw_Nonce c := n)\<rparr> in
         if n \<ge> int (unat (ShardSize div 2))
         then (case at (gr_Mems G) (pw_ID c) of None \<Rightarrow> Crashed
               | Some m \<Rightarrow> (case put_at (po_IDToNonce s) (mem_InShardId m) (pw_Nonce c) of None \<Rightarrow> Crashed
                 | Some l \<Rightarrow> Finished (pw_Nonce c, s'\<lparr>po_IDToNonce := l\<rparr>, cs)))
         else count_nonces G rnd cs s'))"

text \<open>The next member with the right nonce, from \<open>i\<close> on; a search that never ends is \<open>None\<close>.\<close>

partial_function (option) ask_from :: "int list \<Rightarrow> int \<Rightarrow> nat \<Rightarrow> nat option" where
  "ask_from l correct i =
     (case idx l i of None \<Rightarrow> None
      | Some n \<Rightarrow> if n = correct then Some i else ask_from l correct ((i + 1) mod unat ShardSize))"

datatype pow_event = GotBlock ReputationBlock | PowTimeout

definition ask_block :: "Group \<Rightarrow> MemShard \<Rightarrow> requetRepInfo \<Rightarrow> nat \<Rightarrow> pow_out option" where
  "ask_block G my req i = map_option (\<lambda>(_, it). [(mem_Address it, RequestRep req)]) (shard_member G (mem_Shard my) i)"

fun await_block ::
  "Group \<Rightarrow> MemShard \<Rightarrow> requetRepInfo \<Rightarrow> int list \<Rightarrow> int \<Rightarrow> pow_event list \<Rightarrow> nat \<times> pow_out \<Rightarrow> (pow_out, ReputationBlock \<times> pow_out) process" where
  "await_block G my req l correct [] s = Blocked (snd s)"
| "await_block G my req l correct (GotBlock b # es) s =
     (if rp_Nonce b = correct then Finished (b, snd s) else await_block G my req l correct es s)"
| "await_block G my req l correct (PowTimeout # es) s =
     (case ask_from l correct ((fst s + 1) mod unat ShardSize) of None \<Rightarrow> Crashed
      | Some i \<Rightarrow> (case ask_block G my req i of None \<Rightarrow> Crashed
        | Some o' \<Rightarrow> await_block G my req l correct es (i, snd s @ o')))"

text \<open>The block of another member becomes the current one, and its reputations those of the members.\<close>

definition take_block :: "'d bolt \<Rightarrow> gob \<Rightarrow> ReputationBlock \<Rightarrow> 'd RepChain \<Rightarrow> 'd RepChain option" where
  "take_block B g b ch =
     (case AddRepBlockFromOthers B g b ch of None \<Rightarrow> None
      | Some ch' \<Rightarrow> map_option (\<lambda>ms. ch'\<lparr>ch_Group := (ch_Group ch')\<lparr>gr_Mems := ms\<rparr>\<rparr>)
          (ofold (\<lambda>t ms. map_option (\<lambda>m. ms[nat (rt_GlobalID t) := m\<lparr>mem_Rep := rt_Rep t\<rparr>]) (at ms (rt_GlobalID t)))
             (rp_RepTransactions b) (gr_Mems (ch_Group ch'))))"

text \<open>\<open>found\<close> is what comes first from \<open>RepPowTxCh\<close> or \<open>RepPowRxValidate\<close>, if anything does;
  \<open>started\<close> says whether \<open>StartCalPoWAnnounce\<close> is signalled. The count of the only nonce so far is 1, so
  that the loop over \<open>NonceMap\<close> decides nothing while half a shard is more than one member.
  \<open>MineRepBlock\<close>, a goroutine, has ended by then.\<close>

definition RepProcess ::
  "'d bolt \<Rightarrow> gob \<Rightarrow> i64 \<Rightarrow> repInfo \<Rightarrow> RepPowInfo option \<Rightarrow> bool \<Rightarrow> nat \<Rightarrow> pow_event list \<Rightarrow> 'd Sys \<Rightarrow>
   (pow_out, bool \<times> pow_out \<times> 'd Sys) process" where
  "RepProcess B g now res found started ask evs s =
     (let n = ss_Node s in
      andThen (attempt (MineRepBlock now (ri_Rep res) (ri_Hash res) (nd_Chain n))) (\<lambda>ch.
      case found of None \<Rightarrow> Blocked []
      | Some item \<Rightarrow>
        andThen (attempt (MyMenShard n)) (\<lambda>my.
        let G = ch_Group ch; st = \<lparr>po_NonceMap = (\<lambda>_. 0)(pw_Nonce item := 1), po_IDToNonce = replicate (unat ShardSize) 0\<rparr> in
        andThen (attempt (announce_pow G my \<lparr>pi_ID = nd_MyGlobalID n, pi_Round = pw_Round item, pi_Hash = pw_Hash item, pi_Nonce = pw_Nonce item\<rparr>)) (\<lambda>out0.
        if \<not> started then Blocked out0
        else andThen (if 1 \<ge> int (unat (ShardSize div 2)) then Finished (pw_Nonce item, st, ss_PowRx s) else count_nonces G (ch_Round ch) (ss_PowRx s) st) (\<lambda>(correct, st', rx).
          andThen (attempt (ch_RepBlock ch)) (\<lambda>cur.
          if correct = rp_Nonce cur then Finished (ri_Last res, out0, s\<lparr>ss_Node := n\<lparr>nd_Chain := ch\<rparr>, ss_PowRx := rx\<rparr>)
          else
            (let req = \<lparr>rq_ID = nd_MyGlobalID n, rq_Round = ch_Round ch\<rparr>; l = po_IDToNonce st' in
             andThen (attempt (ask_from l correct ask)) (\<lambda>i.
             andThen (attempt (ask_block G my req i)) (\<lambda>out1.
             andThen (await_block G my req l correct evs (i, out0 @ out1)) (\<lambda>(b, out).
             andThen (attempt (take_block B g b ch)) (\<lambda>ch'.
             Finished (ri_Last res, out, s\<lparr>ss_Node := n\<lparr>nd_Chain := ch'\<rparr>, ss_PowRx := rx\<rparr>))))))))))))"

section \<open>The handlers\<close>

definition HandleRepPowRx :: "('r \<Rightarrow> powInfo option) \<Rightarrow> 'r \<Rightarrow> 'd Sys \<Rightarrow> RepPowInfo option option" where
  "HandleRepPowRx dec r s = map_option (\<lambda>p. if pi_Round p \<ge> ch_Round (nd_Chain (ss_Node s))
       then Some \<lparr>pw_ID = pi_ID p, pw_Round = pi_Round p, pw_Nonce = pi_Nonce p, pw_Hash = pi_Hash p\<rparr> else None) (dec r)"

definition HandleRepBlockRx :: "('r \<Rightarrow> ReputationBlock option) \<Rightarrow> 'r \<Rightarrow> pow_event option" where
  "HandleRepBlockRx dec r = map_option GotBlock (dec r)"

definition HandleRequestRepBlockRx :: "('r \<Rightarrow> requetRepInfo option) \<Rightarrow> 'r \<Rightarrow> 'd Sys \<Rightarrow> pow_out option" where
  "HandleRequestRepBlockRx dec r s =
     (let ch = nd_Chain (ss_Node s) in
      case dec r of None \<Rightarrow> None
      | Some p \<Rightarrow>
        if rq_Round p = ch_Round ch
        then (case (at (gr_Mems (ch_Group ch)) (rq_ID p), ch_RepBlock ch) of
            (Some m, Some b) \<Rightarrow> Some [(mem_Address m, RepBlock b)]
          | _ \<Rightarrow> None)
        else Some [])"

section \<open>What a round gives\<close>

text \<open>A nonce needs ten candidates: nine that arrive, and the one of the node itself or a tenth.\<close>

lemma half_shard: "ShardSize div 2 = 10"
  by (simp add: ShardSize_def)

lemma count_nonces_agreed:
  "count_nonces G rnd cs s = Finished (n, s', rx) \<Longrightarrow>
   10 \<le> po_NonceMap s n + int (length (filter (\<lambda>c. pw_Round c = rnd \<and> pw_Nonce c = n) cs)) \<and> n \<in> set (po_IDToNonce s')
     \<and> length (po_IDToNonce s') = length (po_IDToNonce s)"
proof (induction cs arbitrary: s)
  case (Cons c cs)
  show ?case
  proof (cases "pw_Round c = rnd")
    case True
    let ?n = "po_NonceMap s (pw_Nonce c) + 1"
    let ?s = "s\<lparr>po_NonceMap := (po_NonceMap s)(pw_Nonce c := ?n)\<rparr>"
    show ?thesis
    proof (cases "10 \<le> ?n")
      case big: True
      then have eq: "count_nonces G rnd (c # cs) s = (case at (gr_Mems G) (pw_ID c) of None \<Rightarrow> Crashed
          | Some m \<Rightarrow> (case put_at (po_IDToNonce s) (mem_InShardId m) (pw_Nonce c) of None \<Rightarrow> Crashed
            | Some l \<Rightarrow> Finished (pw_Nonce c, ?s\<lparr>po_IDToNonce := l\<rparr>, cs)))"
        using True by (simp add: half_shard Let_def)
      note P = Cons.prems [unfolded eq]
      obtain m where m: "at (gr_Mems G) (pw_ID c) = Some m" by (cases "at (gr_Mems G) (pw_ID c)") (use P in simp_all)
      obtain l where l: "put_at (po_IDToNonce s) (mem_InShardId m) (pw_Nonce c) = Some l"
        by (cases "put_at (po_IDToNonce s) (mem_InShardId m) (pw_Nonce c)") (use P m in simp_all)
      have "n = pw_Nonce c" "po_IDToNonce s' = l" using P m l by auto
      moreover from this l have "n \<in> set l" "length l = length (po_IDToNonce s)"
        by (auto simp: put_at_def set_update_memI split: if_splits)
      ultimately show ?thesis using big True by simp
    next
      case False
      then have "count_nonces G rnd cs ?s = Finished (n, s', rx)" using Cons.prems True by (simp add: half_shard Let_def)
      from Cons.IH [OF this] show ?thesis using True by (cases "pw_Nonce c = n") simp_all
    qed
  next
    case False
    then show ?thesis using Cons by simp
  qed
qed simp

text \<open>The search for a member to ask ends if some member has the right nonce.\<close>

lemma ask_from_here: "i < length l \<Longrightarrow> l ! i = correct \<Longrightarrow> ask_from l correct i = Some i"
  by (subst ask_from.simps) (simp add: idx_def)

lemma ask_from_next: "i < length l \<Longrightarrow> l ! i \<noteq> correct \<Longrightarrow> ask_from l correct i = ask_from l correct ((i + 1) mod 20)"
  by (subst ask_from.simps) (simp add: idx_def)

lemma ask_from_upto:
  assumes "length l = 20" and "k < 20" and "l ! k = correct"
  shows "i \<le> k \<Longrightarrow> \<exists>j < 20. ask_from l correct i = Some j \<and> l ! j = correct"
proof (induction "k - i" arbitrary: i)
  case 0
  then show ?case using assms ask_from_here [of i l correct] by auto
next
  case (Suc d)
  show ?case
  proof (cases "l ! i = correct")
    case True
    then show ?thesis using Suc.prems assms(1,2) ask_from_here [of i l correct] by (intro exI [of _ i]) simp
  next
    case False
    have i: "i < length l" "(i + 1) mod 20 = i + 1" "d = k - (i + 1)" "i + 1 \<le> k" using Suc.hyps(2) Suc.prems assms(1,2) by auto
    show ?thesis using Suc.hyps(1) [OF i(3,4)] ask_from_next [OF i(1) False] i(2) by simp
  qed
qed

lemma ask_from_finds:
  assumes "length l = 20" and "i < 20" and "correct \<in> set l"
  shows "\<exists>j < 20. ask_from l correct i = Some j \<and> l ! j = correct"
proof -
  obtain k where k: "k < 20" "l ! k = correct" using assms(1,3) by (auto simp: in_set_conv_nth)
  note up = ask_from_upto [OF assms(1) k]
  have wrap: "\<exists>j < 20. ask_from l correct i = Some j \<and> l ! j = correct" if "i < 20" "d = 20 - i" for i d
    using that
  proof (induction d arbitrary: i)
    case (Suc d)
    show ?case
    proof (cases "l ! i = correct")
      case True
      then show ?thesis using Suc.prems(1) assms(1) ask_from_here [of i l correct] by (intro exI [of _ i]) simp
    next
      case False
      have nx: "ask_from l correct i = ask_from l correct ((i + 1) mod 20)"
        using False Suc.prems(1) assms(1) by (intro ask_from_next) simp_all
      show ?thesis
      proof (cases "i + 1 = 20")
        case True
        then show ?thesis using nx up [of 0] by simp
      next
        case False
        then have "i + 1 < 20" "d = 20 - (i + 1)" using Suc.prems by auto
        then show ?thesis using Suc.IH [of "i + 1"] nx by simp
      qed
    qed
  qed simp
  show ?thesis by (rule wrap [OF assms(2) refl])
qed

lemma await_block_nonce: "await_block G my req l correct es s = Finished (b, out) \<Longrightarrow> rp_Nonce b = correct"
  by (induction G my req l correct es s rule: await_block.induct) (auto split: if_splits option.splits)

lemma attempt_Finished: "attempt x = Finished y \<longleftrightarrow> x = Some y"
  by (cases x) simp_all

lemma take_block_current: "take_block B g b ch = Some ch' \<Longrightarrow> ch_RepBlock ch' = Some b"
  by (auto simp: take_block_def AddRepBlockFromOthers_def store_rep_def split: option.splits)

text \<open>A round that ends leaves a block with a nonce that ten candidates carried, the own one included;
  without the signal \<open>StartCalPoWAnnounce\<close>, which nothing gives, no round ends.\<close>

theorem RepProcess_agreed:
  assumes "RepProcess B g now res found started ask evs s = Finished (lst, out, s')"
  shows "started \<and> (\<exists>item b. found = Some item \<and> ch_RepBlock (nd_Chain (ss_Node s')) = Some b
    \<and> 10 \<le> (if rp_Nonce b = pw_Nonce item then 1 else 0)
        + length (filter (\<lambda>c. pw_Round c = ch_Round (nd_Chain (ss_Node s)) + 1 \<and> pw_Nonce c = rp_Nonce b) (ss_PowRx s)))"
proof -
  obtain ch where ch: "MineRepBlock now (ri_Rep res) (ri_Hash res) (nd_Chain (ss_Node s)) = Some ch"
    using assms by (auto simp: RepProcess_def Let_def andThen_Finished attempt_Finished)
  then have rnd: "ch_Round ch = ch_Round (nd_Chain (ss_Node s)) + 1" by (auto simp: MineRepBlock_def split: option.splits)
  obtain item where item: "found = Some item" using assms by (cases found) (simp_all add: RepProcess_def Let_def ch)
  have st: started using assms by (cases started) (auto simp: RepProcess_def Let_def andThen_Finished attempt_Finished item)
  let ?st = "\<lparr>po_NonceMap = (\<lambda>_. 0)(pw_Nonce item := 1), po_IDToNonce = replicate 20 0\<rparr>"
  obtain correct st' rx b where
    cn: "count_nonces (ch_Group ch) (ch_Round ch) (ss_PowRx s) ?st = Finished (correct, st', rx)"
    and b: "ch_RepBlock (nd_Chain (ss_Node s')) = Some b" "rp_Nonce b = correct"
    using assms unfolding RepProcess_def Let_def
    by (auto simp: ch item st half_shard andThen_Finished attempt_Finished split: if_splits
        dest!: await_block_nonce take_block_current)
  have "10 \<le> (if correct = pw_Nonce item then 1 else 0)
      + length (filter (\<lambda>c. pw_Round c = ch_Round ch \<and> pw_Nonce c = correct) (ss_PowRx s))"
    using count_nonces_agreed [OF cn] by (auto split: if_splits)
  then show ?thesis using st item b rnd by auto
qed

end
