(* ===== verification/Base58.thy ===== *)
theory Base58
  imports Sha256
begin

text \<open>
  The base 58 encoding of addresses and hashes (\<open>base58/base58.go\<close>, \<open>alphabet.go\<close>) and its variant with a
  version byte and a checksum (\<open>base58check.go\<close>). A Go string is the list of its bytes; the \<open>math/big\<close>
  integers the sources compute with are natural numbers.
\<close>

section \<open>The alphabet\<close>

definition alphabet :: bytes where
  "alphabet =
  [49, 50, 51, 52, 53, 54, 55, 56, 57, 65, 66, 67, 68, 69, 70, 71,
   72, 74, 75, 76, 77, 78, 80, 81, 82, 83, 84, 85, 86, 87, 88, 89,
   90, 97, 98, 99, 100, 101, 102, 103, 104, 105, 106, 107, 109, 110, 111, 112,
   113, 114, 115, 116, 117, 118, 119, 120, 121, 122]"

definition alphabetIdx0 :: byte where "alphabetIdx0 = 49"

definition b58 :: bytes where
  "b58 =
  [255, 255, 255, 255, 255, 255, 255, 255, 255, 255, 255, 255, 255, 255, 255, 255,
   255, 255, 255, 255, 255, 255, 255, 255, 255, 255, 255, 255, 255, 255, 255, 255,
   255, 255, 255, 255, 255, 255, 255, 255, 255, 255, 255, 255, 255, 255, 255, 255,
   255, 0, 1, 2, 3, 4, 5, 6, 7, 8, 255, 255, 255, 255, 255, 255,
   255, 9, 10, 11, 12, 13, 14, 15, 16, 255, 17, 18, 19, 20, 21, 255,
   22, 23, 24, 25, 26, 27, 28, 29, 30, 31, 32, 255, 255, 255, 255, 255,
   255, 33, 34, 35, 36, 37, 38, 39, 40, 41, 42, 43, 255, 44, 45, 46,
   47, 48, 49, 50, 51, 52, 53, 54, 55, 56, 57, 255, 255, 255, 255, 255,
   255, 255, 255, 255, 255, 255, 255, 255, 255, 255, 255, 255, 255, 255, 255, 255,
   255, 255, 255, 255, 255, 255, 255, 255, 255, 255, 255, 255, 255, 255, 255, 255,
   255, 255, 255, 255, 255, 255, 255, 255, 255, 255, 255, 255, 255, 255, 255, 255,
   255, 255, 255, 255, 255, 255, 255, 255, 255, 255, 255, 255, 255, 255, 255, 255,
   255, 255, 255, 255, 255, 255, 255, 255, 255, 255, 255, 255, 255, 255, 255, 255,
   255, 255, 255, 255, 255, 255, 255, 255, 255, 255, 255, 255, 255, 255, 255, 255,
   255, 255, 255, 255, 255, 255, 255, 255, 255, 255, 255, 255, 255, 255, 255, 255,
   255, 255, 255, 255, 255, 255, 255, 255, 255, 255, 255, 255, 255, 255, 255, 255]"

section \<open>Encoding\<close>

text \<open>The digits, least significant first.\<close>

function digits58 :: "nat \<Rightarrow> bytes" where
  "digits58 x = (if 0 < x then alphabet ! (x mod 58) # digits58 (x div 58) else [])"
  by pat_completeness auto
termination by (relation "measure id") auto

declare digits58.simps [simp del]

text \<open>The loop over the leading zero bytes.\<close>

fun leading :: "byte \<Rightarrow> bytes \<Rightarrow> nat" where
  "leading z [] = 0"
| "leading z (b # bs) = (if b \<noteq> z then 0 else Suc (leading z bs))"

text \<open>The reversal in place: the first half is swapped with the second.\<close>

definition swap_ends :: "'a list \<Rightarrow> nat \<Rightarrow> 'a list \<Rightarrow> 'a list" where
  "swap_ends orig i xs = xs[i := xs ! (length orig - 1 - i), length orig - 1 - i := xs ! i]"

definition reverse_in_place :: "'a list \<Rightarrow> 'a list" where
  "reverse_in_place xs = fold (swap_ends xs) [0..<length xs div 2] xs"

definition Encode58 :: "bytes \<Rightarrow> bytes" where
  "Encode58 b = reverse_in_place (digits58 (bytes_nat b) @ replicate (leading 0 b) alphabetIdx0)"

section \<open>Decoding\<close>

text \<open>The loop from the last character to the first; \<open>None\<close> is the early return on a character that is
  not of the alphabet.\<close>

fun decode58 :: "bytes \<Rightarrow> nat \<Rightarrow> nat \<Rightarrow> nat option" where
  "decode58 [] answer j = Some answer"
| "decode58 (c # cs) answer j =
     (let tmp = b58 ! unat c in if tmp = 255 then None else decode58 cs (answer + j * unat tmp) (j * 58))"

definition Decode58 :: "bytes \<Rightarrow> bytes" where
  "Decode58 b = (case decode58 (rev b) 0 1 of
      None \<Rightarrow> []
    | Some n \<Rightarrow> replicate (leading alphabetIdx0 b) 0 @ nat_bytes n)"

section \<open>With a checksum\<close>

definition checksum :: "bytes \<Rightarrow> bytes" where
  "checksum input = take 4 (be_bytes 32 (Sum256 (be_bytes 32 (Sum256 input))))"

definition CheckEncode :: "bytes \<Rightarrow> byte \<Rightarrow> bytes" where
  "CheckEncode input version = (let b = version # input in Encode58 (b @ checksum b))"

definition ErrChecksum :: error where "ErrChecksum = Msg ''checksum error''"

definition ErrInvalidFormat :: error where
  "ErrInvalidFormat = Msg ''invalid format: version and/or checksum bytes missing''"

definition CheckDecode :: "bytes \<Rightarrow> error + bytes \<times> byte" where
  "CheckDecode input =
     (let decoded = Decode58 input; n = length decoded in
      if n < 5 then Inl ErrInvalidFormat
      else if checksum (take (n - 4) decoded) \<noteq> drop (n - 4) decoded then Inl ErrChecksum
      else Inr (drop 1 (take (n - 4) decoded), decoded ! 0))"

section \<open>The alphabet and its table\<close>

lemma length_alphabet [simp]: "length alphabet = 58"
  by (simp add: alphabet_def)

lemma length_b58 [simp]: "length b58 = 256"
  by (simp add: b58_def)

lemma b58_alphabet_enum: "list_all (\<lambda>(i, c). b58 ! unat c = word_of_nat i) (enumerate 0 alphabet)"
  by (simp add: b58_def alphabet_def)

lemma alphabet_b58_enum: "list_all (\<lambda>(c, v). v = 255 \<or> unat v < 58 \<and> alphabet ! unat v = word_of_nat c) (enumerate 0 b58)"
  by (simp add: b58_def alphabet_def)

lemma b58_alphabet: "i < 58 \<Longrightarrow> b58 ! unat (alphabet ! i) = word_of_nat i"
  using b58_alphabet_enum by (simp add: list_all_length nth_enumerate_eq)

lemma alphabet_b58:
  assumes "b58 ! unat (c :: byte) \<noteq> 255"
  shows "unat (b58 ! unat c) < 58" "alphabet ! unat (b58 ! unat c) = c"
proof -
  have "unat c < 256" by (rule order_less_le_trans [OF unsigned_less]) simp
  moreover have "\<forall>n < 256. b58 ! n = 255 \<or> unat (b58 ! n) < 58 \<and> alphabet ! unat (b58 ! n) = word_of_nat n"
    using alphabet_b58_enum by (simp add: list_all_length nth_enumerate_eq)
  ultimately have "b58 ! unat c = 255 \<or> unat (b58 ! unat c) < 58 \<and> alphabet ! unat (b58 ! unat c) = word_of_nat (unat c)"
    by blast
  then show "unat (b58 ! unat c) < 58" "alphabet ! unat (b58 ! unat c) = c" using assms by simp_all
qed

section \<open>The loops\<close>

lemma fold_swap_ends:
  assumes "k \<le> length xs div 2"
  shows "length (fold (swap_ends xs) [0..<k] xs) = length xs \<and>
    (\<forall>i < length xs. fold (swap_ends xs) [0..<k] xs ! i = (if i < k \<or> length xs - k \<le> i then rev xs ! i else xs ! i))"
  using assms
proof (induction k)
  case (Suc k)
  then have k: "k < length xs - 1 - k" and IH: "length (fold (swap_ends xs) [0..<k] xs) = length xs"
      "\<forall>i < length xs. fold (swap_ends xs) [0..<k] xs ! i = (if i < k \<or> length xs - k \<le> i then rev xs ! i else xs ! i)"
    by auto
  define ys where "ys = fold (swap_ends xs) [0..<k] xs"
  have ys: "ys ! k = xs ! k" "ys ! (length xs - 1 - k) = xs ! (length xs - 1 - k)"
    using IH(2) [rule_format, of k] IH(2) [rule_format, of "length xs - 1 - k"] k by (auto simp: ys_def split: if_splits)
  have "fold (swap_ends xs) [0..<Suc k] xs ! i = (if i < Suc k \<or> length xs - Suc k \<le> i then rev xs ! i else xs ! i)"
    if i: "i < length xs" for i
  proof -
    consider "i = k" | "i = length xs - 1 - k" "i \<noteq> k" | "i \<noteq> k" "i \<noteq> length xs - 1 - k" by blast
    then show ?thesis
    proof cases
      case 3
      then have "i < Suc k \<or> length xs - Suc k \<le> i \<longleftrightarrow> i < k \<or> length xs - k \<le> i" using k i by linarith
      then show ?thesis using 3 IH(2) i by (simp add: swap_ends_def ys_def)
    qed (use ys k i IH(1) in \<open>simp_all add: swap_ends_def ys_def [symmetric] rev_nth Suc_diff_Suc\<close>)
  qed
  moreover have "length (fold (swap_ends xs) [0..<Suc k] xs) = length xs" using IH(1) by (simp add: swap_ends_def [abs_def])
  ultimately show ?case by blast
qed simp

theorem reverse_in_place_rev: "reverse_in_place xs = rev xs"
proof (rule nth_equalityI)
  fix i assume "i < length (reverse_in_place xs)"
  then have i: "i < length xs" using fold_swap_ends [of "length xs div 2" xs] by (simp add: reverse_in_place_def)
  then have *: "reverse_in_place xs ! i = (if i < length xs div 2 \<or> length xs - length xs div 2 \<le> i then rev xs ! i else xs ! i)"
    using fold_swap_ends [of "length xs div 2" xs] by (simp add: reverse_in_place_def)
  show "reverse_in_place xs ! i = rev xs ! i"
  proof (cases "i < length xs div 2 \<or> length xs - length xs div 2 \<le> i")
    case False
    then have "length xs - Suc i = i" using i by linarith
    then show ?thesis using * False i by (simp add: rev_nth)
  qed (simp add: *)
qed (use fold_swap_ends [of "length xs div 2" xs] in \<open>simp add: reverse_in_place_def\<close>)

lemma leading_split: "\<exists>r. bs = replicate (leading z bs) z @ r \<and> (r = [] \<or> hd r \<noteq> z)"
  by (induction z bs rule: leading.induct) auto

lemma leading_replicate: "r = [] \<or> hd r \<noteq> z \<Longrightarrow> leading z (replicate n z @ r) = n"
  by (induction n) (cases r, auto)

text \<open>The number a string of digits, least significant first, stands for.\<close>

definition valid58 :: "byte \<Rightarrow> bool" where "valid58 c \<longleftrightarrow> b58 ! unat c \<noteq> 255"

fun val58 :: "bytes \<Rightarrow> nat" where
  "val58 [] = 0"
| "val58 (c # cs) = unat (b58 ! unat c) + 58 * val58 cs"

lemma decode58_val:
  "decode58 cs a j = (if list_all valid58 cs then Some (a + j * val58 cs) else None)"
  by (induction cs arbitrary: a j) (simp_all add: valid58_def Let_def algebra_simps)

lemma unat_digit: "i < 58 \<Longrightarrow> unat (b58 ! unat (alphabet ! i)) = i"
  by (simp add: b58_alphabet unat_of_nat)

lemma valid58_alphabet: "i < 58 \<Longrightarrow> valid58 (alphabet ! i)"
  using unat_digit [of i] by (auto simp: valid58_def)

lemma digits58_0 [simp]: "digits58 0 = []"
  by (simp add: digits58.simps)

lemma digits58_valid: "list_all valid58 (digits58 n)"
proof (induction n rule: digits58.induct)
  case (1 n)
  then show ?case by (cases "0 < n") (simp_all add: digits58.simps [of n] valid58_alphabet)
qed

lemma val58_digits: "val58 (digits58 n) = n"
proof (induction n rule: digits58.induct)
  case (1 n)
  then show ?case by (cases "0 < n") (simp_all add: digits58.simps [of n] unat_digit)
qed

lemma valid58_Idx0 [simp]: "valid58 alphabetIdx0" "unat (b58 ! unat alphabetIdx0) = 0"
  using valid58_alphabet [of 0] unat_digit [of 0] by (simp_all add: alphabet_def alphabetIdx0_def)

lemma valid58_0: "valid58 c \<Longrightarrow> unat (b58 ! unat c) = 0 \<longleftrightarrow> c = alphabetIdx0"
  using alphabet_b58(2) [of c] valid58_Idx0(2) by (auto simp: valid58_def alphabetIdx0_def) (simp add: alphabet_def)

lemma val58_append: "val58 (xs @ ys) = val58 xs + 58 ^ length xs * val58 ys"
  by (induction xs) (simp_all add: algebra_simps)

lemma val58_replicate [simp]: "val58 (replicate n alphabetIdx0) = 0"
  by (induction n) simp_all

lemma digits58_val: "list_all valid58 ds \<Longrightarrow> ds = [] \<or> last ds \<noteq> alphabetIdx0 \<Longrightarrow> digits58 (val58 ds) = ds"
proof (induction ds)
  case (Cons c cs)
  have c: "unat (b58 ! unat c) < 58" "alphabet ! unat (b58 ! unat c) = c" using Cons.prems(1) alphabet_b58 by (auto simp: valid58_def)
  have cs: "digits58 (val58 cs) = cs" using Cons by (cases cs) auto
  have "0 < val58 (c # cs)"
  proof (cases "cs = []")
    case True
    then show ?thesis using Cons.prems valid58_0 [of c] by auto
  next
    case False
    then show ?thesis using cs by (cases "val58 cs = 0") auto
  qed
  moreover have "val58 (c # cs) mod 58 = unat (b58 ! unat c)" "val58 (c # cs) div 58 = val58 cs" using c(1) by simp_all
  ultimately show ?case unfolding digits58.simps [of "val58 (c # cs)"] by (simp only: c(2) cs if_True)
qed simp

lemma last_digits58: "n \<noteq> 0 \<Longrightarrow> digits58 n \<noteq> [] \<and> last (digits58 n) \<noteq> alphabetIdx0"
proof (induction n rule: digits58.induct)
  case (1 n)
  show ?case
  proof (cases "n div 58 = 0")
    case True
    then have "n < 58" by linarith
    then have "alphabet ! n \<noteq> alphabetIdx0" using unat_digit [of n] 1(2) by fastforce
    then show ?thesis using 1(2) \<open>n < 58\<close> by (simp add: digits58.simps [of n])
  next
    case False
    then show ?thesis using 1 by (simp add: digits58.simps [of n])
  qed
qed

lemma bytes_nat_zeros [simp]: "bytes_nat (replicate n 0 @ bs) = bytes_nat bs"
  by (induction n) (simp_all add: bytes_nat_Cons)

section \<open>Round trips\<close>

lemma Encode58_eq: "Encode58 b = replicate (leading 0 b) alphabetIdx0 @ rev (digits58 (bytes_nat b))"
  by (simp add: Encode58_def reverse_in_place_rev)

lemma Encode58_valid: "list_all valid58 (Encode58 b)"
  using digits58_valid [of "bytes_nat b"] by (auto simp: Encode58_eq list_all_iff)

theorem Decode58_Encode58: "Decode58 (Encode58 b) = b"
proof -
  obtain r where r: "b = replicate (leading 0 b) 0 @ r" "r = [] \<or> hd r \<noteq> 0" using leading_split by blast
  have n: "bytes_nat b = bytes_nat r" by (subst r(1)) simp
  have z: "leading alphabetIdx0 (Encode58 b) = leading 0 b"
    unfolding Encode58_eq
  proof (rule leading_replicate)
    show "rev (digits58 (bytes_nat b)) = [] \<or> hd (rev (digits58 (bytes_nat b))) \<noteq> alphabetIdx0"
      using last_digits58 [of "bytes_nat b"] by (cases "bytes_nat b = 0") (simp_all add: hd_rev)
  qed
  have v: "decode58 (rev (Encode58 b)) 0 1 = Some (bytes_nat b)"
    using Encode58_valid [of b] by (simp add: decode58_val) (simp add: Encode58_eq val58_append val58_digits)
  have "nat_bytes (bytes_nat r) = r" using r(2) nat_bytes_bytes_nat by (cases "r = []") auto
  then show ?thesis using r(1) unfolding Decode58_def v z n by simp
qed

theorem Encode58_Decode58: "list_all valid58 s \<Longrightarrow> Encode58 (Decode58 s) = s"
proof -
  assume valid: "list_all valid58 s"
  obtain r where r: "s = replicate (leading alphabetIdx0 s) alphabetIdx0 @ r" "r = [] \<or> hd r \<noteq> alphabetIdx0"
    using leading_split by blast
  let ?n = "val58 (rev r)"
  have "rev s = rev r @ replicate (leading alphabetIdx0 s) alphabetIdx0" by (subst r(1)) simp
  then have "val58 (rev s) = ?n" by (simp add: val58_append)
  then have D: "Decode58 s = replicate (leading alphabetIdx0 s) 0 @ nat_bytes ?n"
    using valid by (simp add: Decode58_def decode58_val)
  have z: "leading 0 (Decode58 s) = leading alphabetIdx0 s"
    unfolding D by (rule leading_replicate) (use hd_nat_bytes [of ?n] in \<open>cases "?n = 0"; simp\<close>)
  have "list_all valid58 r" using valid r(1) by (metis list_all_append)
  then have "digits58 ?n = rev r" using r(2) by (intro digits58_val) (auto simp: last_rev)
  then have "Encode58 (Decode58 s) = replicate (leading alphabetIdx0 s) alphabetIdx0 @ r"
    unfolding Encode58_eq z by (simp add: D)
  then show ?thesis using r(1) by simp
qed

lemma Decode58_invalid: "\<not> list_all valid58 s \<Longrightarrow> Decode58 s = []"
  by (simp add: Decode58_def decode58_val)

lemma length_checksum [simp]: "length (checksum b) = 4"
  by (simp add: checksum_def)

text \<open>C35: A string is accepted by \<open>CheckDecode\<close>, with the payload and version it gives, exactly if it is
  what \<open>CheckEncode\<close> makes of that payload and version: encoding and decoding are inverse to each other,
  and no other string is accepted.\<close>

theorem CheckDecode_iff: "CheckDecode s = Inr (payload, version) \<longleftrightarrow> s = CheckEncode payload version"
proof
  assume D: "CheckDecode s = Inr (payload, version)"
  let ?d = "Decode58 s"
  have n: "5 \<le> length ?d" and c: "checksum (take (length ?d - 4) ?d) = drop (length ?d - 4) ?d"
    and p: "payload = drop 1 (take (length ?d - 4) ?d)" and v: "version = ?d ! 0"
    using D by (auto simp: CheckDecode_def Let_def split: if_splits)
  have "take (length ?d - 4) ?d = version # payload"
    using n p v by (cases ?d) (auto simp: take_Cons')
  then have d: "?d = (version # payload) @ checksum (version # payload)"
    using c by (metis append_take_drop_id)
  have "list_all valid58 s" using n Decode58_invalid by fastforce
  then have "s = Encode58 ?d" by (simp add: Encode58_Decode58)
  then show "s = CheckEncode payload version" using d by (simp add: CheckEncode_def Let_def)
next
  assume s: "s = CheckEncode payload version"
  show "CheckDecode s = Inr (payload, version)"
    unfolding s CheckEncode_def Let_def CheckDecode_def Decode58_Encode58 by simp
qed

lemma Encode58_inj: "Encode58 a = Encode58 b \<longleftrightarrow> a = b"
  by (metis Decode58_Encode58)

end
