(* ===== verification/Initialize.thy ===== *)
theory Initialize
  imports Epoch Base58
begin

text \<open>
  The start of a node (\<open>testforclient/network/InitializeProtocol.go\<close>): the keys of all members and the
  addresses of the machines are read from two files, the member whose address is the own is this
  node, and the caches, the database and the reputation chain are created.

  The files are parameters: for every member what \<open>x509.ParseECPrivateKey\<close> makes of its 121 bytes, and
  the 64 bytes of its signing key; the words of the file of addresses. A member of the members' slice
  is the zero value until it is set.
\<close>

definition MaxBand :: int where "MaxBand = 38 * 1024"
definition MinBand :: int where "MinBand = 2 * 1024"
definition numCnt :: nat where "numCnt = unat (ShardCnt * ShardSize)"

text \<open>An account; a key that does not parse panics. The account generated first is overwritten.\<close>

definition init_account :: "PrivateKey option \<times> bytes \<Rightarrow> RcAcc option" where
  "init_account k = (case fst k of None \<Rightarrow> None
     | Some key \<Rightarrow> map_option (\<lambda>addr. \<lparr>rc_Pri = key, rc_Puk = sk_Puk key, rc_CosiPri = snd k, rc_CosiPuk = drop 32 (snd k),
           rc_Addr = map (\<lambda>b. char_of (unat b)) (Encode58 (be_bytes 32 addr)), rc_AddrReal = addr, rc_ID = [], rc_Rep = 0\<rparr>)
         (AddressGenerate key))"

definition init_band :: "nat \<Rightarrow> int" where
  "init_band i = MinBand + (MaxBand - MinBand) * (int i + 1) div int numCnt"

definition port_addr :: "string \<Rightarrow> nat \<Rightarrow> string" where
  "port_addr ip i = ip @ '':'' @ map (\<lambda>b. char_of (unat b)) (itoa (3000 + i))"

text \<open>The word read for machine \<open>i\<close>; after the last one it is empty.\<close>

definition ip_word :: "string list \<Rightarrow> nat \<Rightarrow> string" where
  "ip_word ips i = (if i < length ips then ips ! i else [])"

definition init_cnt :: "int \<Rightarrow> nat" where
  "init_cnt initType = (if initType > 0 then numCnt div 2 else numCnt)"

definition init_member :: "RcAcc list \<Rightarrow> nat \<Rightarrow> string \<Rightarrow> MemShard list \<Rightarrow> MemShard list option" where
  "init_member acc i addr ms = (case (idx ms i, idx acc i) of
     (Some m, Some a) \<Rightarrow> Some (ms[i := NewTotalRep (NewMemShard m a addr (init_band i))]) | _ \<Rightarrow> None)"

text \<open>With a positive type there are two members on each machine.\<close>

definition init_members :: "string list \<Rightarrow> int \<Rightarrow> RcAcc list \<Rightarrow> MemShard list \<Rightarrow> MemShard list option" where
  "init_members ips initType acc ms =
     (let n = init_cnt initType in
      ofold (\<lambda>i ms.
        case init_member acc i (if initType < 0 then ip_word ips i else port_addr (ip_word ips i) i) ms of None \<Rightarrow> None
        | Some ms' \<Rightarrow> if initType > 0 then init_member acc (i + n) (port_addr (ip_word ips i) (i + n)) ms' else Some ms')
      [0..<n] ms)"

text \<open>The last machine with the own address; -1 when there is none.\<close>

definition init_id :: "string \<Rightarrow> string list \<Rightarrow> int \<Rightarrow> int" where
  "init_id input ips initType =
     (let n = init_cnt initType in
      foldl (\<lambda>k i. if ip_word ips i = input then (if initType = 2 then int (i + n) else int i) else k) (- 1) [0..<n])"

definition MemShard_zero :: MemShard where
  "MemShard_zero = \<lparr>mem_Address = [], mem_PrivateAddress = [], mem_PublicAddress = [], mem_Rep = 0, mem_TotalRep = [],
     mem_CosiPub = [], mem_Shard = 0, mem_InShardId = 0, mem_Role = 0, mem_Legal = 0,
     mem_RealAccount = \<lparr>rc_Pri = \<lparr>sk_Puk = \<lparr>pk_X = None, pk_Y = None\<rparr>, sk_D = 0\<rparr>, rc_Puk = \<lparr>pk_X = None, pk_Y = None\<rparr>,
       rc_CosiPri = [], rc_CosiPuk = [], rc_Addr = [], rc_AddrReal = 0, rc_ID = [], rc_Rep = 0\<rparr>,
     mem_PreShard = 0, mem_Bandwidth = 0\<rparr>"

text \<open>The accounts are entered with their initial value; errors are dropped.\<close>

definition init_balances :: "'d bolt \<Rightarrow> RcAcc list \<Rightarrow> 'd TxBlockChain \<Rightarrow> 'd TxBlockChain option" where
  "init_balances B acc db = ofold (\<lambda>a db. map_option snd (AddAccount B db \<lparr>acc_ID = rc_AddrReal a, acc_Value = 100000000\<rparr>)) acc db"

text \<open>\<open>None\<close> is a panic, \<open>Some None\<close> the end of the program when the own address is not in the file.
  The member count is never negative, so that the own number is the \<open>ID\<close> of the caches. \<open>c0\<close> and \<open>d0\<close>
  are the databases before the files are created.\<close>

definition IntilizeProcess ::
  "env \<Rightarrow> 'd bolt \<Rightarrow> gob \<Rightarrow> i64 \<Rightarrow> 'd TxBlockChain \<Rightarrow> 'd \<Rightarrow> (PrivateKey option \<times> bytes) list \<Rightarrow> string list \<Rightarrow> string \<Rightarrow> int \<Rightarrow> 'd Sys option option" where
  "IntilizeProcess E B g now c0 d0 keys ips input initType =
     (case those (map (\<lambda>i. case idx keys i of None \<Rightarrow> None | Some k \<Rightarrow> init_account k) [0..<numCnt]) of None \<Rightarrow> None
      | Some acc \<Rightarrow>
        (case init_members ips initType acc (replicate numCnt MemShard_zero) of None \<Rightarrow> None
         | Some ms \<Rightarrow>
           (let me = init_id input ips initType; G = \<lparr>gr_Mems = ms, gr_ShardToGlobal = []\<rparr> in
            if me = - 1 then Some None
            else
              (case at acc me of None \<Rightarrow> None
               | Some a \<Rightarrow>
                 (case DbRef_New E G B (DbRef_zero c0) (word_of_int me) (rc_Pri a) of None \<Rightarrow> None
                  | Some db \<Rightarrow>
                    (case init_balances B acc (db_DB db) of None \<Rightarrow> None
                     | Some chain \<Rightarrow>
                       (case CreateRepBlockchain B g now \<lparr>ch_Tip = 0, ch_Db = d0, ch_RepBlock = None, ch_Round = - 1, ch_SyncBlock = None,
                            ch_Epoch = - 1, ch_Group = G, ch_me = 0, ch_StartFlag = False, ch_PrevSync = [MagicHash]\<rparr> of None \<Rightarrow> None
                        | Some ch \<Rightarrow>
                          Some (Some \<lparr>ss_Node = \<lparr>nd_Chain = ch, nd_MyGlobalID = me, nd_CurrentEpoch = - 1, nd_LeaderAddr = [],
                              nd_CoSiFlag = False, nd_CosiData = Map.empty, nd_RepFinish = replicate NumberRepPerEpoch False,
                              nd_FBSent = False, nd_FBHash = None\<rparr>,
                            ss_Db = db\<lparr>db_DB := chain\<rparr>, ss_BatchCache = replicate NumTxListPerEpoch [], ss_SentLeaderReady = True,
                            ss_FinalTxReady = False, ss_CurrentRepRound = 0, ss_PowRx = []\<rparr>))))))))"

section \<open>A network starts\<close>

lemma numCnt_20 [simp]: "numCnt = 20"
  by (simp add: numCnt_def ShardCnt_def ShardSize_def)

lemma init_cnt_le: "init_cnt t \<le> 20" "0 < t \<Longrightarrow> init_cnt t = 10" "1 < init_cnt t"
  by (simp_all add: init_cnt_def)

text \<open>Every member gets its account.\<close>

lemma init_member_ok:
  assumes "length ms = 20" and "length acc = 20" and "i < 20"
  shows "\<exists>ms'. init_member acc i addr ms = Some ms' \<and> length ms' = 20 \<and> mem_RealAccount (ms' ! i) = acc ! i
    \<and> (\<forall>j. j \<noteq> i \<longrightarrow> ms' ! j = ms ! j)"
  using assms by (simp add: init_member_def idx_def NewTotalRep_def NewMemShard_def)

lemma init_members_ok:
  assumes "length acc = 20"
  shows "\<exists>ms. init_members ips t acc (replicate numCnt MemShard_zero) = Some ms \<and> length ms = 20 \<and> mem_RealAccount (ms ! 1) = acc ! 1"
proof -
  let ?n = "init_cnt t"
  let ?P = "\<lambda>i ms. length ms = 20 \<and> (\<forall>j < i. mem_RealAccount (ms ! j) = acc ! j)"
  let ?f = "\<lambda>i ms. case init_member acc i (if t < 0 then ip_word ips i else port_addr (ip_word ips i) i) ms of None \<Rightarrow> None
        | Some ms' \<Rightarrow> if t > 0 then init_member acc (i + ?n) (port_addr (ip_word ips i) (i + ?n)) ms' else Some ms'"
  have "\<exists>ms. ofold ?f [0..<?n] (replicate numCnt MemShard_zero) = Some ms \<and> ?P ?n ms"
  proof (rule ofold_upt_inv)
    fix i and ms :: "MemShard list" assume i: "i < ?n" and P: "?P i ms"
    have i20: "i < 20" using i init_cnt_le(1) [of t] by simp
    obtain ms' where 1: "init_member acc i (if t < 0 then ip_word ips i else port_addr (ip_word ips i) i) ms = Some ms'"
      "length ms' = 20" "mem_RealAccount (ms' ! i) = acc ! i" "\<forall>j. j \<noteq> i \<longrightarrow> ms' ! j = ms ! j"
      using init_member_ok [OF _ assms i20] P by blast
    show "\<exists>ms''. ?f i ms = Some ms'' \<and> ?P (Suc i) ms''"
    proof (cases "0 < t")
      case True
      then have n: "i + ?n < 20" using i init_cnt_le(2) [of t] by simp
      obtain ms'' where "init_member acc (i + ?n) (port_addr (ip_word ips i) (i + ?n)) ms' = Some ms''"
        "length ms'' = 20" "\<forall>j. j \<noteq> i + ?n \<longrightarrow> ms'' ! j = ms' ! j"
        using init_member_ok [OF 1(2) assms n] by blast
      then show ?thesis using True 1 P i by (auto simp: less_Suc_eq)
    next
      case False
      then show ?thesis using 1 P by (auto simp: less_Suc_eq)
    qed
  qed simp
  then show ?thesis using init_cnt_le(3) [of t] by (auto simp: init_members_def Let_def)
qed

lemma init_members_sgn: "sgn t = sgn t' \<Longrightarrow> init_members ips t = init_members ips t'"
proof -
  assume "sgn t = sgn t'"
  then have eqs: "(0 < t) = (0 < t')" "(t < 0) = (t' < 0)" by (auto simp: sgn_if split: if_splits)
  show ?thesis unfolding init_members_def [abs_def] init_cnt_def eqs by (rule refl)
qed

lemma init_id_range: "init_id input ips t = - 1 \<or> (0 \<le> init_id input ips t \<and> init_id input ips t < 20)"
proof -
  let ?n = "init_cnt t"
  have "foldl (\<lambda>k i. if ip_word ips i = input then (if t = 2 then int (i + ?n) else int i) else k) (- 1) [0..<m] \<in> {- 1..<20}" if "m \<le> ?n" for m
    using that init_cnt_le(1) [of t] init_cnt_le(2) [of t] by (induction m) auto
  from this [of ?n] show ?thesis by (auto simp: init_id_def Let_def)
qed

text \<open>The transactions made for the test.\<close>

lemma GenerateTx_total:
  assumes "account_of G x = Some ax" and "account_of G y = Some ay" and "pk_X (sk_Puk (rc_Pri ax)) \<noteq> None" and "pk_Y (sk_Puk (rc_Pri ax)) \<noteq> None"
  shows "\<exists>t. GenerateTx E G i x y z seed k = Some t"
proof -
  let ?t = "AddIn (AddOut (Transaction_New Transaction_zero (ucast (env_unix E i)) (env_gen E seed) 0 k)
      \<lparr>out_Value = z, out_Address = rc_AddrReal ay\<rparr>) ((InType_Init InType_zero)\<lparr>in_PrevTx := rc_AddrReal ax, in_Index := z\<rparr>)"
  have c: "Transaction_cnt ?t" by (simp add: Transaction_cnt_def AddIn_def AddOut_def Transaction_New_def Transaction_zero_def)
  then obtain h where "HashTx ?t = Some h" using HashTx_data_some [OF c] by (auto simp: HashTx_def)
  moreover obtain r where "SignTx (env_sign E) (env_rnd E i) (?t\<lparr>tx_Hash := h\<rparr>) 0 (rc_Pri ax) = Some r"
    using assms(3,4) by (auto simp: SignTx_def SignTxIn_def AddIn_def AddOut_def Transaction_New_def Transaction_zero_def idx_def InType_Init_def)
  ultimately show ?thesis by (simp add: GenerateTx_def Let_def assms(1,2))
qed

lemma fill_ready_total:
  assumes "account_of G 1 = Some a" and "pk_X (sk_Puk (rc_Pri a)) \<noteq> None" "pk_Y (sk_Puk (rc_Pri a)) \<noteq> None"
  shows "\<exists>r. fill_ready E G r0 = Some r"
proof -
  have "\<exists>r. ofold (\<lambda>i ready. map_option (\<lambda>t. ready @ [t]) (GenerateTx E G i 1 1 1 0 (of_nat i))) xs r0 = Some r \<and> True" for xs
  proof (rule ofold_total)
    fix i r
    obtain t where "GenerateTx E G i 1 1 1 0 (of_nat i) = Some t" using GenerateTx_total [OF assms(1,1,2,3)] by blast
    then show "\<exists>r'. map_option (\<lambda>t. r @ [t]) (GenerateTx E G i 1 1 1 0 (of_nat i)) = Some r' \<and> True" by simp
  qed simp
  then show ?thesis by (simp add: fill_ready_def)
qed

lemma DbRef_New_total:
  assumes B: "bolt_ok B" and len: "length (tc_LastFB (db_DB d)) = unat ShardCnt"
    and acc: "account_of G 1 = Some a" "pk_X (sk_Puk (rc_Pri a)) \<noteq> None" "pk_Y (sk_Puk (rc_Pri a)) \<noteq> None"
  shows "\<exists>d'. DbRef_New E G B d x prk = Some d' \<and> chain_inv B (db_DB d')"
proof -
  obtain db where db: "CreateNewBlockchain B (db_DB d) = Some (None, db)" using CreateNewBlockchain_total [OF B len] by blast
  then have inv: "chain_inv B db" using CreateNewBlockchain_inv [OF B len] by blast
  obtain b f where b: "holds_block B (tc_data db) TBBucket (keyB (tc_LastTB db)) b"
    and f: "holds_block B (tc_data db) FBBucket (keyBi (of_nat 0) (tc_LastFB db ! 0)) f"
    using inv by (auto simp: chain_inv_def)
  have "LatestTxBlock B db = Some (Some (TxBlock_view 1 b))" using latest_read [OF b] inv by (simp add: chain_inv_def)
  moreover have "LatestFinalTxBlock B db 0 = Some (Some (TxBlock_view 1 f))"
    using f inv by (intro latest_final_read) (simp_all add: chain_inv_def)
  moreover obtain r where "fill_ready E G (db_Ready d) = Some r" using fill_ready_total [OF acc] by blast
  ultimately show ?thesis using inv by (simp add: DbRef_New_def db shards_eq reset_round_def)
qed

lemma AddAccount_total:
  assumes "bolt_ok B" and "chain_inv B a" and "acc_Value x \<noteq> 0"
  shows "\<exists>r a'. AddAccount B a x = Some (r, a') \<and> chain_inv B a'"
proof -
  have "bk_has B (tc_data a) ACCBucket" using assms(2) by (simp add: chain_inv_def)
  then obtain r a' where a': "AddAccount B a x = Some (r, a')"
    using assms(3) by (auto simp: AddAccount_def b_put_def be_bytes_def le_bytes_def)
  then show ?thesis using same_chain_inv [OF AddAccount_same [OF assms(1) a'] assms(2)] by blast
qed

lemma init_balances_total: "bolt_ok B \<Longrightarrow> chain_inv B db \<Longrightarrow> \<exists>db'. init_balances B acc db = Some db' \<and> chain_inv B db'"
  unfolding init_balances_def
proof (rule ofold_total)
  fix a db assume "bolt_ok B" "chain_inv B db"
  then obtain r db' where "AddAccount B db \<lparr>acc_ID = rc_AddrReal a, acc_Value = 100000000\<rparr> = Some (r, db')" "chain_inv B db'"
    using AddAccount_total [of B db "\<lparr>acc_ID = rc_AddrReal a, acc_Value = 100000000\<rparr>"] by auto
  then show "\<exists>db'. map_option snd (AddAccount B db \<lparr>acc_ID = rc_AddrReal a, acc_Value = 100000000\<rparr>) = Some db' \<and> chain_inv B db'" by simp
qed

lemma CreateRepBlockchain_total:
  "bolt_ok B \<Longrightarrow> \<exists>ch. CreateRepBlockchain B g now s = Some ch \<and> ch_Group ch = ch_Group s \<and> ch_PrevSync ch = ch_PrevSync s"
  by (auto simp: CreateRepBlockchain_def create_bucket_def store_rep_def b_put_def bolt_simps Let_def)

text \<open>The keys of twenty members, all on the curve.\<close>

definition keys_ok :: "(PrivateKey option \<times> bytes) list \<Rightarrow> bool" where
  "keys_ok keys \<longleftrightarrow> 20 \<le> length keys \<and> (\<forall>i < 20. \<exists>k. fst (keys ! i) = Some k \<and> pk_X (sk_Puk k) \<noteq> None \<and> pk_Y (sk_Puk k) \<noteq> None)"

lemma init_accounts_ok:
  assumes "keys_ok keys"
  shows "\<exists>acc. those (map (\<lambda>i. case idx keys i of None \<Rightarrow> None | Some k \<Rightarrow> init_account k) [0..<20]) = Some acc \<and> length acc = 20
    \<and> (\<forall>i < 20. pk_X (sk_Puk (rc_Pri (acc ! i))) \<noteq> None \<and> pk_Y (sk_Puk (rc_Pri (acc ! i))) \<noteq> None)"
proof -
  have "\<exists>a. init_account (keys ! i) = Some a \<and> pk_X (sk_Puk (rc_Pri a)) \<noteq> None \<and> pk_Y (sk_Puk (rc_Pri a)) \<noteq> None" if i: "i < 20" for i
  proof -
    obtain k where "fst (keys ! i) = Some k" "pk_X (sk_Puk k) \<noteq> None" "pk_Y (sk_Puk k) \<noteq> None"
      using assms i unfolding keys_ok_def by blast
    then obtain x y where "fst (keys ! i) = Some k" "pk_X (sk_Puk k) = Some x" "pk_Y (sk_Puk k) = Some y" by blast
    then show ?thesis by (simp add: init_account_def AddressGenerate_def GenerateAddr_def big_Bytes_def)
  qed
  then obtain f where f: "\<And>i. i < 20 \<Longrightarrow> init_account (keys ! i) = Some (f i) \<and> pk_X (sk_Puk (rc_Pri (f i))) \<noteq> None \<and> pk_Y (sk_Puk (rc_Pri (f i))) \<noteq> None"
    by metis
  have "those (map (\<lambda>i. case idx keys i of None \<Rightarrow> None | Some k \<Rightarrow> init_account k) [0..<20]) = Some (map f [0..<20])"
    by (rule those_map_cong) (use f assms in \<open>auto simp: keys_ok_def idx_def\<close>)
  then show ?thesis using f by (intro exI [of _ "map f [0..<20]"]) simp
qed

lemma IntilizeProcess_ok:
  assumes B: "bolt_ok B" and len: "length (tc_LastFB c0) = unat ShardCnt" and keys: "keys_ok keys" and id: "init_id input ips t \<noteq> - 1"
  shows "\<exists>s acc ms. IntilizeProcess E B g now c0 d0 keys ips input t = Some (Some s)
    \<and> those (map (\<lambda>i. case idx keys i of None \<Rightarrow> None | Some k \<Rightarrow> init_account k) [0..<20]) = Some acc
    \<and> init_members ips t acc (replicate 20 MemShard_zero) = Some ms \<and> length ms = 20
    \<and> nd_ms (ss_Node s) = ms \<and> nd_MyGlobalID (ss_Node s) = init_id input ips t \<and> nd_CurrentEpoch (ss_Node s) = - 1
    \<and> ch_PrevSync (nd_Chain (ss_Node s)) = [MagicHash]"
proof -
  let ?me = "init_id input ips t"
  have me: "0 \<le> ?me" "?me < 20" using init_id_range [of input ips t] id by auto
  obtain acc where acc: "those (map (\<lambda>i. case idx keys i of None \<Rightarrow> None | Some k \<Rightarrow> init_account k) [0..<20]) = Some acc" "length acc = 20"
    "\<And>i. i < 20 \<Longrightarrow> pk_X (sk_Puk (rc_Pri (acc ! i))) \<noteq> None \<and> pk_Y (sk_Puk (rc_Pri (acc ! i))) \<noteq> None"
    using init_accounts_ok [OF keys] by blast
  obtain ms where ms: "init_members ips t acc (replicate 20 MemShard_zero) = Some ms" "length ms = 20" "mem_RealAccount (ms ! 1) = acc ! 1"
    using init_members_ok [OF acc(2), of ips t] by auto
  let ?G = "\<lparr>gr_Mems = ms, gr_ShardToGlobal = []\<rparr>"
  let ?prk = "rc_Pri (acc ! nat ?me)"
  have a1: "account_of ?G 1 = Some (acc ! 1)" using ms(2,3) by (simp add: account_of_def idx_def)
  have l0: "length (tc_LastFB (db_DB (DbRef_zero c0))) = unat ShardCnt" using len by (simp add: DbRef_zero_def)
  have k1: "pk_X (sk_Puk (rc_Pri (acc ! 1))) \<noteq> None" "pk_Y (sk_Puk (rc_Pri (acc ! 1))) \<noteq> None" using acc(3) [of 1] by simp_all
  obtain db where db: "DbRef_New E ?G B (DbRef_zero c0) (word_of_int ?me) ?prk = Some db" "chain_inv B (db_DB db)"
    using DbRef_New_total [OF B l0 a1 k1, of E "word_of_int ?me" ?prk] by blast
  obtain chain where chain: "init_balances B acc (db_DB db) = Some chain" using init_balances_total [OF B db(2)] by blast
  let ?c = "\<lparr>ch_Tip = 0, ch_Db = d0, ch_RepBlock = None, ch_Round = - 1, ch_SyncBlock = None,
      ch_Epoch = - 1, ch_Group = ?G, ch_me = 0, ch_StartFlag = False, ch_PrevSync = [MagicHash]\<rparr>"
  obtain ch where ch: "CreateRepBlockchain B g now ?c = Some ch" "ch_Group ch = ?G" "ch_PrevSync ch = [MagicHash]"
    using CreateRepBlockchain_total [OF B, of g now ?c] by auto
  have at: "at acc ?me = Some (acc ! nat ?me)" using me acc(2) by (simp add: at_def)
  show ?thesis
    unfolding IntilizeProcess_def numCnt_20 using acc(1) ms(1,2) id at db(1) chain ch by (simp add: Let_def)
qed

text \<open>C39: A network starts: a node whose address is in the file, with the keys of twenty members, always
  gets through its initialisation and the assignment of the first epoch, and then has every member at
  exactly one place of the shard, itself at one of them, and the member at place 0 as its leader, the only
  one with that role. And any other node that was started from the same files, with the same layout of the
  members on the machines, computes the same table and the same leader, whichever member it is and
  whatever its clock, its randomness and its databases are.\<close>

theorem nodes_start:
  fixes B :: "'d bolt" and F :: "('r, 'f) float32"
  assumes "bolt_ok B" and "length (tc_LastFB c0) = unat ShardCnt" and "keys_ok keys" and "init_id input ips t \<noteq> - 1"
  shows "\<exists>s s'. IntilizeProcess E B g now c0 d0 keys ips input t = Some (Some s) \<and> open_epoch E R F B s = Some s' \<and> opened s'
    \<and> nd_MyGlobalID (ss_Node s') = init_id input ips t
    \<and> (\<forall>E' (B' :: 'd bolt) g' now' c0' d0' input' t' u. bolt_ok B' \<and> length (tc_LastFB c0') = unat ShardCnt \<and> sgn t' = sgn t
         \<and> IntilizeProcess E' B' g' now' c0' d0' keys ips input' t' = Some (Some u) \<longrightarrow>
       (\<exists>u'. open_epoch E' R F B' u = Some u' \<and> opened u'
          \<and> gr_ShardToGlobal (ch_Group (nd_Chain (ss_Node u'))) = gr_ShardToGlobal (ch_Group (nd_Chain (ss_Node s')))
          \<and> db_Leader (ss_Db u') = db_Leader (ss_Db s')))"
proof -
  obtain s acc ms where s: "IntilizeProcess E B g now c0 d0 keys ips input t = Some (Some s)"
    "those (map (\<lambda>i. case idx keys i of None \<Rightarrow> None | Some k \<Rightarrow> init_account k) [0..<20]) = Some acc"
    "init_members ips t acc (replicate 20 MemShard_zero) = Some ms" "length ms = 20"
    "nd_ms (ss_Node s) = ms" "nd_MyGlobalID (ss_Node s) = init_id input ips t" "nd_CurrentEpoch (ss_Node s) = - 1"
    "ch_PrevSync (nd_Chain (ss_Node s)) = [MagicHash]"
    using IntilizeProcess_ok [OF assms] by blast
  have id: "0 \<le> nd_MyGlobalID (ss_Node s)" "nd_MyGlobalID (ss_Node s) < 20" using init_id_range [of input ips t] assms(4) s(6) by auto
  have len: "length (nd_ms (ss_Node s)) = 20" using s(4,5) by simp
  obtain s' where s': "open_epoch E R F B s = Some s'" using open_epoch_first [OF len id s(7)] by blast
  have o: "opened s'" "nd_MyGlobalID (ss_Node s') = init_id input ips t" using open_epoch_opened(1,3) [OF len id s'] s(6) by simp_all
  have "\<exists>u'. open_epoch E' R F B' u = Some u' \<and> opened u'
      \<and> gr_ShardToGlobal (ch_Group (nd_Chain (ss_Node u'))) = gr_ShardToGlobal (ch_Group (nd_Chain (ss_Node s')))
      \<and> db_Leader (ss_Db u') = db_Leader (ss_Db s')"
    if h: "bolt_ok B'" "length (tc_LastFB c0') = unat ShardCnt" "sgn t' = sgn t"
      "IntilizeProcess E' B' g' now' c0' d0' keys ips input' t' = Some (Some u)" for E' and B' :: "'d bolt" and g' now' c0' d0' input' t' u
  proof -
    have "init_id input' ips t' \<noteq> - 1" using h(4) by (auto simp: IntilizeProcess_def Let_def split: option.splits if_splits)
    then obtain acc' ms' where u: "those (map (\<lambda>i. case idx keys i of None \<Rightarrow> None | Some k \<Rightarrow> init_account k) [0..<20]) = Some acc'"
      "init_members ips t' acc' (replicate 20 MemShard_zero) = Some ms'"
      "nd_ms (ss_Node u) = ms'" "nd_MyGlobalID (ss_Node u) = init_id input' ips t'" "nd_CurrentEpoch (ss_Node u) = - 1"
      "ch_PrevSync (nd_Chain (ss_Node u)) = [MagicHash]"
      using IntilizeProcess_ok [OF h(1,2) assms(3), of input' ips t' E' g' now' d0'] h(4) by auto
    have same: "nd_ms (ss_Node u) = nd_ms (ss_Node s)" using s(2,3,5) u(1,2,3) init_members_sgn [OF h(3), of ips] by simp
    have uid: "0 \<le> nd_MyGlobalID (ss_Node u)" "nd_MyGlobalID (ss_Node u) < 20"
      using init_id_range [of input' ips t'] \<open>init_id input' ips t' \<noteq> - 1\<close> u(4) by auto
    have ulen: "length (nd_ms (ss_Node u)) = 20" using same len by simp
    obtain u' where u': "open_epoch E' R F B' u = Some u'" using open_epoch_first [OF ulen uid u(5)] by blast
    have v: "same_view (nd_ms (ss_Node s)) (nd_ms (ss_Node u))" by (simp add: same same_view_def list.rel_refl)
    have "ch_PrevSync (nd_Chain (ss_Node u)) = ch_PrevSync (nd_Chain (ss_Node s))" using u(6) s(8) by simp
    with epoch_opens [OF len id s(7), of E R F B E' B'] s' u' v uid show ?thesis by force
  qed
  with s(1) s' o show ?thesis by blast
qed

definition toy_keys :: "(PrivateKey option \<times> bytes) list" where
  "toy_keys = replicate 20 (Some sample_prk, replicate 64 1)"

text \<open>Two members on each of ten machines; the node of the second machine is member 11 with type 2.\<close>

theorem nodes_start_witness:
  "\<exists>s s'. IntilizeProcess toy_env mem_bolt toy_gob 0 chain_blank Map.empty toy_keys [''10.0.0.1'', ''10.0.0.2''] ''10.0.0.2'' 2 = Some (Some s)
    \<and> open_epoch toy_env toy_rng toy_float mem_bolt s = Some s' \<and> opened s' \<and> nd_MyGlobalID (ss_Node s') = 11"
proof -
  have k: "keys_ok toy_keys" by (simp add: keys_ok_def toy_keys_def sample_prk_def)
  have l: "length (tc_LastFB chain_blank) = unat ShardCnt" by (simp add: chain_blank_def)
  have i: "init_id ''10.0.0.2'' [''10.0.0.1'', ''10.0.0.2''] 2 = 11"
    by (simp add: init_id_def init_cnt_def ip_word_def Let_def upt_rec)
  then show ?thesis
    using nodes_start [OF mem_bolt_ok l k, of "''10.0.0.2''" "[''10.0.0.1'', ''10.0.0.2'']" 2 toy_env toy_gob 0 Map.empty toy_rng toy_float]
    unfolding i by auto
qed

end
