(* ===== verification/Ed25519.thy ===== *)
theory Ed25519
  imports Cosi
begin

text \<open>
  Individual signatures (\<open>ed25519/ed25519.go\<close>) over the curve of \<open>Cosi\<close>, and how collective
  signatures relate to them: the first 64 bytes of a collective signature are an individual one under
  the sum of the signers' keys.
\<close>

text \<open>\<open>FeNeg\<close> of the coordinates \<open>X\<close> and \<open>T\<close> negates the point.\<close>

definition Sign :: "'g curve \<Rightarrow> bytes \<Rightarrow> bytes \<Rightarrow> bytes option" where
  "Sign C privateKey message =
     (if length privateKey \<noteq> 64 then None
      else
        let digest1 = Sum512 (take 32 privateKey); expandedSecretKey = clamp (take 32 digest1);
            messageDigestReduced = ScReduce (Sum512 (drop 32 digest1 @ message));
            encodedR = cv_ToBytes C (cv_Base C messageDigestReduced);
            hramDigestReduced = ScReduce (Sum512 (encodedR @ drop 32 privateKey @ message));
            s = ScMulAdd hramDigestReduced expandedSecretKey messageDigestReduced
        in Some (encodedR @ s))"

definition ed_Verify :: "('g::ab_group_add) curve \<Rightarrow> bytes \<Rightarrow> bytes \<Rightarrow> bytes \<Rightarrow> bool option" where
  "ed_Verify C publicKey message sig =
     (if length publicKey \<noteq> 32 then None
      else if length sig \<noteq> 64 \<or> sig ! 63 AND 224 \<noteq> 0 then Some False
      else case cv_FromBytes C publicKey of None \<Rightarrow> Some False
      | Some A \<Rightarrow>
          let hReduced = ScReduce (Sum512 (take 32 sig @ publicKey @ message))
          in Some (take 32 sig = cv_ToBytes C (cv_Double C hReduced (- A) (drop 32 sig))))"

lemma ed_Verify_schnorr:
  assumes "curve_ok C" and "length sig = 64"
  shows "ed_Verify C (cv_ToBytes C P) message sig = Some (schnorr C P message (take 32 sig) (drop 32 sig))"
  using assms by (simp add: ed_Verify_def schnorr_def curve_ok_def Let_def)

text \<open>What a key pair signs is valid.\<close>

theorem Sign_valid:
  assumes C: "curve_ok C" and "length seed = 32"
  shows "\<exists>sig. Sign C (snd (GenerateKey C seed)) message = Some sig \<and> ed_Verify C (fst (GenerateKey C seed)) message sig = Some True"
proof -
  let ?pk = "cv_ToBytes C (cv_Base C (key_scalar seed))"
  let ?r = "ScReduce (Sum512 (drop 32 (Sum512 seed) @ message))"
  let ?R = "cv_ToBytes C (cv_Base C ?r)"
  let ?h = "ScReduce (Sum512 (?R @ ?pk @ message))"
  let ?s = "ScMulAdd ?h (key_scalar seed) ?r"
  have l: "0 < sc_order" "sc_order \<le> 2 ^ 253" "smul sc_order (cv_Base C scOne) = 0" using C sc_order_bounds by (simp_all add: curve_ok_def)
  note red = ScReduce_ok and mul = ScMulAdd_ok
  have bound: "length (ScReduce (Sum512 x)) = 32 \<and> le_nat (ScReduce (Sum512 x)) < 2 ^ 255" for x
  proof -
    have "le_nat (Sum512 x) mod sc_order < 2 ^ 253" using mod_less_divisor [OF l(1), of "le_nat (Sum512 x)"] l(2) by simp
    then show ?thesis using red [of "Sum512 x"] by simp
  qed
  have enc: "length (cv_ToBytes C P) = 32" "cv_FromBytes C (cv_ToBytes C P) = Some P" for P using C by (simp_all add: curve_ok_def)
  have base: "cv_Base C s = smul (le_nat s) (cv_Base C scOne)" if "length s = 32" "le_nat s < 2 ^ 255" for s
    using C that by (simp add: curve_ok_def)
  have sg: "Sign C (snd (GenerateKey C seed)) message = Some (?R @ ?s)"
    using assms(2) by (simp add: Sign_def GenerateKey_scalar enc Let_def key_scalar_def)
  have m: "length ?s = 32" "le_nat ?s = (le_nat ?h * le_nat (key_scalar seed) + le_nat ?r) mod sc_order"
    using mul [of ?h "key_scalar seed" ?r] bound key_scalar_ok(1) by simp_all
  have "?s ! 31 AND 224 = 0 \<and> cv_Double C ?h (- (\<Sum>i \<in> {0 :: nat}. smul (le_nat (key_scalar seed)) (cv_Base C scOne))) ?s
      = (\<Sum>i \<in> {0 :: nat}. smul (le_nat ?r) (cv_Base C scOne))"
    by (rule honest_equation [OF C, where t = "\<lambda>_. le_nat ?s" and l = sc_order]) (use bound m l in simp_all)
  then have "schnorr C (cv_Base C (key_scalar seed)) message ?R ?s"
    using base [OF key_scalar_ok] base [of ?r] bound m(1) by (simp add: schnorr_def enc Let_def)
  then have "ed_Verify C ?pk message (?R @ ?s) = Some True"
    using ed_Verify_schnorr [OF C, of "?R @ ?s" "cv_Base C (key_scalar seed)" message] m(1) enc(1) by simp
  then show ?thesis using sg by (simp add: GenerateKey_scalar)
qed

text \<open>C40: Collective signatures are Ed25519 signatures: with the keys decoded, a signature with a mask of the
  right length is accepted exactly when the policy holds for the signers the mask names and its first 64
  bytes are accepted by the ordinary verification under the sum of the signers' keys.\<close>

theorem cosi_is_ed25519:
  assumes "curve_ok C" and "load_keys C (replicate 32 0) pks = Some ks" and "length sig = 64 + (length ks + 7) div 8"
  shows "cosi_Verify C pks policy message sig =
     Some (policy_holds policy (card (signers (length ks) (drop 64 sig))) (length ks)
       \<and> ed_Verify C (cv_ToBytes C (\<Sum>i \<in> signers (length ks) (drop 64 sig). ks ! i)) message (take 64 sig) = Some True)"
proof -
  have l: "length (take 64 sig) = 64" "take 32 (take 64 sig) = take 32 sig" "drop 32 (take 64 sig) = take 32 (drop 32 sig)"
    using assms(3) by (simp_all add: drop_take)
  show ?thesis
    using assms by (simp add: cosi_Verify_direct Let_def ed_Verify_schnorr [OF assms(1) l(1)] l(2,3))
qed

theorem cosi_is_ed25519_witness:
  "\<exists>ks. load_keys toy_curve (replicate 32 0) (map (\<lambda>s. fst (GenerateKey toy_curve s)) [replicate 32 1, replicate 32 2]) = Some ks
    \<and> cosi_Verify toy_curve (map (\<lambda>s. fst (GenerateKey toy_curve s)) [replicate 32 1, replicate 32 2]) None [7] (replicate 65 0) =
     Some (policy_holds None (card (signers 2 [0])) 2
       \<and> ed_Verify toy_curve (cv_ToBytes toy_curve (\<Sum>i \<in> signers 2 [0]. ks ! i)) [7] (replicate 64 0) = Some True)"
proof -
  let ?pks = "map (\<lambda>s. fst (GenerateKey toy_curve s)) ([replicate 32 1, replicate 32 2] :: bytes list)"
  let ?ks = "map (\<lambda>s. cv_Base toy_curve (key_scalar s)) [replicate 32 1, replicate 32 2]"
  have k: "load_keys toy_curve (replicate 32 0) ?pks = Some ?ks"
    unfolding GenerateKey_scalar fst_conv by (rule load_keys_points [OF toy_curve_ok]) simp
  have r: "replicate 65 (0 :: byte) = replicate 64 0 @ [0]" using replicate_add [of 64 1 "0 :: byte"] by simp
  have "length (replicate 65 (0 :: byte)) = 64 + (length ?ks + 7) div 8" by simp
  from cosi_is_ed25519 [OF toy_curve_ok k this, of None "[7]"] show ?thesis
    by (intro exI [of _ ?ks]) (simp add: r k [simplified] numeral_2_eq_2)
qed

end
