(* ===== verification/Fe25519.thy ===== *)
theory Fe25519
  imports Limbs
begin

text \<open>
  Arithmetic in the field of \<open>2 ^ 255 - 19\<close> elements (\<open>ed25519/edwards25519/edwards25519.go\<close>). An
  element is ten \<open>int32\<close> limbs of alternately 26 and 25 bits; products are formed in \<open>int64\<close> and
  carried by \<open>FeCombine\<close>. \<open>fe_le m f\<close> bounds the limbs by \<open>m\<close> percent of half a limb: the
  functions are correct modulo the prime for the bounds they are called with, and their results are
  within 101 percent.
\<close>

unbundle bit_operations_syntax

type_synonym i32 = "32 word"
type_synonym FieldElement = "i32 list"

definition p25519 :: int where "p25519 = 2 ^ 255 - 19"

section \<open>The operations\<close>

definition FeZero :: FieldElement where "FeZero = replicate 10 0"

definition FeOne :: FieldElement where "FeOne = FeZero[0 := 1]"

definition FeAdd :: "FieldElement \<Rightarrow> FieldElement \<Rightarrow> FieldElement" where "FeAdd a b = map2 (+) a b"

definition FeSub :: "FieldElement \<Rightarrow> FieldElement \<Rightarrow> FieldElement" where "FeSub a b = map2 (-) a b"

definition FeNeg :: "FieldElement \<Rightarrow> FieldElement" where "FeNeg f = map uminus f"

definition FeCMove :: "FieldElement \<Rightarrow> FieldElement \<Rightarrow> i32 \<Rightarrow> FieldElement" where
  "FeCMove f g b = (let b = - b in map2 (\<lambda>x y. x XOR (b AND (x XOR y))) f g)"

definition carry26 :: "nat \<Rightarrow> limb_op" where "carry26 i = Carry i 26 (2 ^ 25) (i + 1) 1"

definition carry25 :: "nat \<Rightarrow> limb_op" where "carry25 i = Carry i 25 (2 ^ 24) (i + 1) 1"

definition fe_carries :: "limb_op list" where
  "fe_carries =
     [carry26 0, carry26 4, carry25 1, carry25 5, carry26 2, carry26 6, carry25 3, carry25 7,
      carry26 4, carry26 8, Carry 9 25 (2 ^ 24) 0 19, carry26 0]"

definition FeCombine :: "i64 list \<Rightarrow> FieldElement" where "FeCombine h = map scast (run fe_carries h)"

definition FeMul :: "FieldElement \<Rightarrow> FieldElement \<Rightarrow> FieldElement" where
  "FeMul f g =
     (let f0 = scast (f ! 0); f1 = scast (f ! 1); f2 = scast (f ! 2); f3 = scast (f ! 3); f4 = scast (f ! 4); f5 = scast (f ! 5);
          f6 = scast (f ! 6); f7 = scast (f ! 7); f8 = scast (f ! 8); f9 = scast (f ! 9); f1_2 = scast (2 * f ! 1);
          f3_2 = scast (2 * f ! 3); f5_2 = scast (2 * f ! 5); f7_2 = scast (2 * f ! 7); f9_2 = scast (2 * f ! 9); g0 = scast (g ! 0);
          g1 = scast (g ! 1); g2 = scast (g ! 2); g3 = scast (g ! 3); g4 = scast (g ! 4); g5 = scast (g ! 5); g6 = scast (g ! 6);
          g7 = scast (g ! 7); g8 = scast (g ! 8); g9 = scast (g ! 9); g1_19 = scast (19 * g ! 1); g2_19 = scast (19 * g ! 2);
          g3_19 = scast (19 * g ! 3); g4_19 = scast (19 * g ! 4); g5_19 = scast (19 * g ! 5); g6_19 = scast (19 * g ! 6);
          g7_19 = scast (19 * g ! 7); g8_19 = scast (19 * g ! 8); g9_19 = scast (19 * g ! 9);
          h0 = f0 * g0 + f1_2 * g9_19 + f2 * g8_19 + f3_2 * g7_19 + f4 * g6_19 + f5_2 * g5_19 + f6 * g4_19 + f7_2 * g3_19 + f8 * g2_19 + f9_2 * g1_19;
          h1 = f0 * g1 + f1 * g0 + f2 * g9_19 + f3 * g8_19 + f4 * g7_19 + f5 * g6_19 + f6 * g5_19 + f7 * g4_19 + f8 * g3_19 + f9 * g2_19;
          h2 = f0 * g2 + f1_2 * g1 + f2 * g0 + f3_2 * g9_19 + f4 * g8_19 + f5_2 * g7_19 + f6 * g6_19 + f7_2 * g5_19 + f8 * g4_19 + f9_2 * g3_19;
          h3 = f0 * g3 + f1 * g2 + f2 * g1 + f3 * g0 + f4 * g9_19 + f5 * g8_19 + f6 * g7_19 + f7 * g6_19 + f8 * g5_19 + f9 * g4_19;
          h4 = f0 * g4 + f1_2 * g3 + f2 * g2 + f3_2 * g1 + f4 * g0 + f5_2 * g9_19 + f6 * g8_19 + f7_2 * g7_19 + f8 * g6_19 + f9_2 * g5_19;
          h5 = f0 * g5 + f1 * g4 + f2 * g3 + f3 * g2 + f4 * g1 + f5 * g0 + f6 * g9_19 + f7 * g8_19 + f8 * g7_19 + f9 * g6_19;
          h6 = f0 * g6 + f1_2 * g5 + f2 * g4 + f3_2 * g3 + f4 * g2 + f5_2 * g1 + f6 * g0 + f7_2 * g9_19 + f8 * g8_19 + f9_2 * g7_19;
          h7 = f0 * g7 + f1 * g6 + f2 * g5 + f3 * g4 + f4 * g3 + f5 * g2 + f6 * g1 + f7 * g0 + f8 * g9_19 + f9 * g8_19;
          h8 = f0 * g8 + f1_2 * g7 + f2 * g6 + f3_2 * g5 + f4 * g4 + f5_2 * g3 + f6 * g2 + f7_2 * g1 + f8 * g0 + f9_2 * g9_19;
          h9 = f0 * g9 + f1 * g8 + f2 * g7 + f3 * g6 + f4 * g5 + f5 * g4 + f6 * g3 + f7 * g2 + f8 * g1 + f9 * g0
      in FeCombine [h0, h1, h2, h3, h4, h5, h6, h7, h8, h9])"

definition feSquare :: "FieldElement \<Rightarrow> i64 list" where
  "feSquare f =
     (let f0 = scast (f ! 0); f1 = scast (f ! 1); f2 = scast (f ! 2); f3 = scast (f ! 3); f4 = scast (f ! 4); f5 = scast (f ! 5);
          f6 = scast (f ! 6); f7 = scast (f ! 7); f8 = scast (f ! 8); f9 = scast (f ! 9); f0_2 = scast (2 * f ! 0);
          f1_2 = scast (2 * f ! 1); f2_2 = scast (2 * f ! 2); f3_2 = scast (2 * f ! 3); f4_2 = scast (2 * f ! 4);
          f5_2 = scast (2 * f ! 5); f6_2 = scast (2 * f ! 6); f7_2 = scast (2 * f ! 7); f5_38 = 38 * f5; f6_19 = 19 * f6;
          f7_38 = 38 * f7; f8_19 = 19 * f8; f9_38 = 38 * f9;
          h0 = f0 * f0 + f1_2 * f9_38 + f2_2 * f8_19 + f3_2 * f7_38 + f4_2 * f6_19 + f5 * f5_38;
          h1 = f0_2 * f1 + f2 * f9_38 + f3_2 * f8_19 + f4 * f7_38 + f5_2 * f6_19;
          h2 = f0_2 * f2 + f1_2 * f1 + f3_2 * f9_38 + f4_2 * f8_19 + f5_2 * f7_38 + f6 * f6_19;
          h3 = f0_2 * f3 + f1_2 * f2 + f4 * f9_38 + f5_2 * f8_19 + f6 * f7_38;
          h4 = f0_2 * f4 + f1_2 * f3_2 + f2 * f2 + f5_2 * f9_38 + f6_2 * f8_19 + f7 * f7_38;
          h5 = f0_2 * f5 + f1_2 * f4 + f2_2 * f3 + f6 * f9_38 + f7_2 * f8_19;
          h6 = f0_2 * f6 + f1_2 * f5_2 + f2_2 * f4 + f3_2 * f3 + f7_2 * f9_38 + f8 * f8_19;
          h7 = f0_2 * f7 + f1_2 * f6 + f2_2 * f5 + f3_2 * f4 + f8 * f9_38;
          h8 = f0_2 * f8 + f1_2 * f7_2 + f2_2 * f6 + f3_2 * f5_2 + f4 * f4 + f9 * f9_38;
          h9 = f0_2 * f9 + f1_2 * f8 + f2_2 * f7 + f3_2 * f6 + f4_2 * f5
      in [h0, h1, h2, h3, h4, h5, h6, h7, h8, h9])"

definition FeSquare :: "FieldElement \<Rightarrow> FieldElement" where "FeSquare f = FeCombine (feSquare f)"

definition FeSquare2 :: "FieldElement \<Rightarrow> FieldElement" where "FeSquare2 f = FeCombine (map (\<lambda>h. h + h) (feSquare f))"

text \<open>\<open>for i = 1; i < n; i++\<close> squares \<open>n - 1\<close> times.\<close>

definition FeInvert :: "FieldElement \<Rightarrow> FieldElement" where
  "FeInvert z =
     (let t0 = FeSquare z; t1 = FeSquare t0; t1 = (FeSquare ^^ 1) t1; t1 = FeMul z t1; t0 = FeMul t0 t1;
          t2 = FeSquare t0; t1 = FeMul t1 t2; t2 = FeSquare t1; t2 = (FeSquare ^^ 4) t2; t1 = FeMul t2 t1;
          t2 = FeSquare t1; t2 = (FeSquare ^^ 9) t2; t2 = FeMul t2 t1; t3 = FeSquare t2; t3 = (FeSquare ^^ 19) t3;
          t2 = FeMul t3 t2; t2 = FeSquare t2; t2 = (FeSquare ^^ 9) t2; t1 = FeMul t2 t1; t2 = FeSquare t1;
          t2 = (FeSquare ^^ 49) t2; t2 = FeMul t2 t1; t3 = FeSquare t2; t3 = (FeSquare ^^ 99) t3; t2 = FeMul t3 t2;
          t2 = FeSquare t2; t2 = (FeSquare ^^ 49) t2; t1 = FeMul t2 t1; t1 = FeSquare t1; t1 = (FeSquare ^^ 4) t1
      in FeMul t1 t0)"

definition fePow22523 :: "FieldElement \<Rightarrow> FieldElement" where
  "fePow22523 z =
     (let t0 = FeSquare z; t0 = (FeSquare ^^ 0) t0; t1 = FeSquare t0; t1 = (FeSquare ^^ 1) t1; t1 = FeMul z t1;
          t0 = FeMul t0 t1; t0 = FeSquare t0; t0 = (FeSquare ^^ 0) t0; t0 = FeMul t1 t0; t1 = FeSquare t0;
          t1 = (FeSquare ^^ 4) t1; t0 = FeMul t1 t0; t1 = FeSquare t0; t1 = (FeSquare ^^ 9) t1; t1 = FeMul t1 t0;
          t2 = FeSquare t1; t2 = (FeSquare ^^ 19) t2; t1 = FeMul t2 t1; t1 = FeSquare t1; t1 = (FeSquare ^^ 9) t1;
          t0 = FeMul t1 t0; t1 = FeSquare t0; t1 = (FeSquare ^^ 49) t1; t1 = FeMul t1 t0; t2 = FeSquare t1;
          t2 = (FeSquare ^^ 99) t2; t1 = FeMul t2 t1; t1 = FeSquare t1; t1 = (FeSquare ^^ 49) t1; t0 = FeMul t1 t0;
          t0 = FeSquare t0; t0 = (FeSquare ^^ 1) t0
      in FeMul t0 z)"

section \<open>Values and bounds\<close>

definition fe_weights :: "int list" where
  "fe_weights = [1, 2 ^ 26, 2 ^ 51, 2 ^ 77, 2 ^ 102, 2 ^ 128, 2 ^ 153, 2 ^ 179, 2 ^ 204, 2 ^ 230]"

definition feval :: "FieldElement \<Rightarrow> int" where "feval f = value_of fe_weights (map sint f)"

definition feq :: "int \<Rightarrow> int \<Rightarrow> bool" where "feq a b \<longleftrightarrow> a mod p25519 = b mod p25519"

text \<open>Half a limb: \<open>2 ^ 25\<close> at the even and \<open>2 ^ 24\<close> at the odd positions.\<close>

definition half :: "nat \<Rightarrow> int" where "half i = (if even i then 2 ^ 25 else 2 ^ 24)"

definition fe_le :: "int \<Rightarrow> FieldElement \<Rightarrow> bool" where
  "fe_le m f \<longleftrightarrow> length f = 10 \<and> (\<forall>i < 10. 100 * \<bar>sint (f ! i)\<bar> \<le> m * half i)"

lemma feq_refl [simp]: "feq a a"
  by (simp add: feq_def)

lemma feq_sym: "feq a b \<Longrightarrow> feq b a"
  by (simp add: feq_def)

lemma feq_trans [trans]: "feq a b \<Longrightarrow> feq b c \<Longrightarrow> feq a c"
  by (simp add: feq_def)

lemma feq_add: "feq a b \<Longrightarrow> feq c d \<Longrightarrow> feq (a + c) (b + d)"
  unfolding feq_def by (rule mod_add_cong)

lemma feq_diff: "feq a b \<Longrightarrow> feq c d \<Longrightarrow> feq (a - c) (b - d)"
  unfolding feq_def by (rule mod_diff_cong)

lemma feq_mult: "feq a b \<Longrightarrow> feq c d \<Longrightarrow> feq (a * c) (b * d)"
  unfolding feq_def by (rule mod_mult_cong)

lemma feq_minus: "feq a b \<Longrightarrow> feq (- a) (- b)"
  unfolding feq_def by (metis mod_minus_eq)

lemma feq_power: "feq a b \<Longrightarrow> feq (a ^ n) (b ^ n)"
  by (induction n) (simp_all add: feq_mult)

lemma feq_dvd: "feq a b \<longleftrightarrow> p25519 dvd a - b"
  by (simp add: feq_def mod_eq_dvd_iff)

lemma fe_le_length: "fe_le m f \<Longrightarrow> length f = 10"
  by (simp add: fe_le_def)

lemma fe_le_mono: "fe_le m f \<Longrightarrow> m \<le> n \<Longrightarrow> fe_le n f"
  by (auto simp: fe_le_def half_def intro: order_trans)

lemma half_le: "0 \<le> half i" "half i \<le> 2 ^ 25"
  by (simp_all add: half_def)

lemma fe_leD:
  assumes "fe_le m f" and "i < 10"
  shows "100 * \<bar>sint (f ! i)\<bar> \<le> m * half i" and "100 * \<bar>sint (f ! i)\<bar> \<le> m * 2 ^ 25"
proof -
  show a: "100 * \<bar>sint (f ! i)\<bar> \<le> m * half i" using assms by (simp add: fe_le_def)
  have "0 \<le> m * half i" using a by (rule order_trans [rotated]) simp
  then have "0 \<le> m" by (simp add: half_def zero_le_mult_iff split: if_splits)
  then have "m * half i \<le> m * 2 ^ 25" using half_le by (intro mult_left_mono) simp_all
  with a show "100 * \<bar>sint (f ! i)\<bar> \<le> m * 2 ^ 25" by simp
qed

lemma abs_add_le:
  fixes a b x y :: int
  assumes "100 * \<bar>a\<bar> \<le> x" and "100 * \<bar>b\<bar> \<le> y"
  shows "100 * \<bar>a + b\<bar> \<le> x + y" and "100 * \<bar>a - b\<bar> \<le> x + y"
  using assms by (auto simp: abs_if split: if_splits)

lemma sint_add_small:
  assumes "\<bar>sint (a :: i32) + sint b\<bar> < 2 ^ 31"
  shows "sint (a + b) = sint a + sint b"
  using sint_of_int [of "sint a + sint b", where ?'a = 32] assms by simp

lemma sint_sub_small:
  assumes "\<bar>sint (a :: i32) - sint b\<bar> < 2 ^ 31"
  shows "sint (a - b) = sint a - sint b"
  using sint_of_int [of "sint a - sint b", where ?'a = 32] assms by simp

lemma FeAdd_ok:
  assumes "fe_le m f" and "fe_le n g" and "m + n \<le> 6000"
  shows "fe_le (m + n) (FeAdd f g)" and "feval (FeAdd f g) = feval f + feval g"
proof -
  have l: "length f = 10" "length g = 10" using assms fe_le_length by blast+
  have s: "sint (FeAdd f g ! i) = sint (f ! i) + sint (g ! i)" if "i < 10" for i
  proof -
    have "\<bar>sint (f ! i) + sint (g ! i)\<bar> < 2 ^ 31" using fe_leD(2) [OF assms(1) that] fe_leD(2) [OF assms(2) that] assms(3) by simp
    then show ?thesis using l that by (simp add: FeAdd_def sint_add_small)
  qed
  have "100 * \<bar>sint (f ! i) + sint (g ! i)\<bar> \<le> (m + n) * half i" if "i < 10" for i
    unfolding distrib_right by (rule abs_add_le(1) [OF fe_leD(1) [OF assms(1) that] fe_leD(1) [OF assms(2) that]])
  then show "fe_le (m + n) (FeAdd f g)" using l s by (simp add: fe_le_def FeAdd_def)
  show "feval (FeAdd f g) = feval f + feval g"
    using l s by (simp add: feval_def value_of_def fe_weights_def FeAdd_def distrib_left flip: sum.distrib)
qed


lemma FeSub_ok:
  assumes "fe_le m f" and "fe_le n g" and "m + n \<le> 6000"
  shows "fe_le (m + n) (FeSub f g)" and "feval (FeSub f g) = feval f - feval g"
proof -
  have l: "length f = 10" "length g = 10" using assms fe_le_length by blast+
  have s: "sint (FeSub f g ! i) = sint (f ! i) - sint (g ! i)" if "i < 10" for i
  proof -
    have "\<bar>sint (f ! i) - sint (g ! i)\<bar> < 2 ^ 31" using fe_leD(2) [OF assms(1) that] fe_leD(2) [OF assms(2) that] assms(3) by simp
    then show ?thesis using l that by (simp add: FeSub_def sint_sub_small)
  qed
  have "100 * \<bar>sint (f ! i) - sint (g ! i)\<bar> \<le> (m + n) * half i" if "i < 10" for i
    unfolding distrib_right by (rule abs_add_le(2) [OF fe_leD(1) [OF assms(1) that] fe_leD(1) [OF assms(2) that]])
  then show "fe_le (m + n) (FeSub f g)" using l s by (simp add: fe_le_def FeSub_def)
  show "feval (FeSub f g) = feval f - feval g"
    using l s by (simp add: feval_def value_of_def fe_weights_def FeSub_def right_diff_distrib flip: sum_subtractf)
qed

lemma FeZero_ok: "fe_le 0 FeZero" "feval FeZero = 0"
  by (simp_all add: fe_le_def FeZero_def feval_def value_of_def fe_weights_def)

lemma feval_FeZero_sub: "length f = 10 \<Longrightarrow> FeSub FeZero f = FeNeg f"
  by (rule nth_equalityI) (simp_all add: FeSub_def FeZero_def FeNeg_def)

lemma FeNeg_ok:
  assumes "fe_le m f" and "m \<le> 6000"
  shows "fe_le m (FeNeg f)" and "feval (FeNeg f) = - feval f"
  using FeSub_ok [OF FeZero_ok(1) assms(1)] assms(2) FeZero_ok(2) fe_le_length [OF assms(1)] by (simp_all add: feval_FeZero_sub)

text \<open>Numbers below half a limb are one limb.\<close>

lemma value_of_Cons: "value_of (w # ws) (x # xs) = w * x + value_of ws xs"
  by (simp add: value_of_def sum.lessThan_Suc_shift del: sum.lessThan_Suc)

lemma value_of_Nil: "value_of [] xs = 0"
  by (simp add: value_of_def)

lemma FeOne_eq: "FeOne = [1, 0, 0, 0, 0, 0, 0, 0, 0, 0]"
  by (simp add: FeOne_def FeZero_def eval_nat_numeral)

lemma FeOne_ok: "fe_le 1 FeOne" "feval FeOne = 1"
  by (auto simp: fe_le_def half_def FeOne_eq nth_Cons' feval_def fe_weights_def value_of_Cons value_of_Nil)

text \<open>\<open>b\<close> is 0 or 1: nothing moves, or everything.\<close>

lemma FeCMove_ok:
  assumes "length f = length g"
  shows "FeCMove f g 0 = f" and "FeCMove f g 1 = g"
proof -
  have "map2 (\<lambda>x y. x XOR (- 1 AND (x XOR y))) f g = g" using assms
    by (induction rule: list_induct2) (auto intro!: bit_word_eqI simp: bit_simps)
  then show "FeCMove f g 1 = g" by (simp add: FeCMove_def)
  show "FeCMove f g 0 = f" using assms
    unfolding FeCMove_def by (induction rule: list_induct2) simp_all
qed

section \<open>Carrying\<close>

definition fe_in :: bounds where "fe_in = replicate 10 (- 6000000000000000000, 6000000000000000000)"

definition fe_out :: bounds where
  "fe_out =
    [(- 33554432, 33554431), (- 16827843, 16827842), (- 33554432, 33554431), (- 16777216, 16777215), (- 33554432, 33554431),
     (- 16779881, 16779880), (- 33554432, 33554431), (- 16777216, 16777215), (- 33554432, 33554431), (- 16777216, 16777215)]"

lemma brun_fe: "brun 64 fe_carries fe_in = Some fe_out"
  by code_simp


lemma sint_scast_small:
  assumes "- (2 ^ 31) \<le> sint (w :: i64)" and "sint w < 2 ^ 31"
  shows "sint (scast w :: i32) = sint w"
proof -
  have "(scast w :: i32) = of_int (sint w)" by (rule scast_eq)
  then show ?thesis using sint_of_int [of "sint w", where ?'a = 32] assms by simp
qed

lemma fe_le_out:
  assumes "within fe_out xs" and that: "i < 10"
  shows "100 * \<bar>xs ! i\<bar> \<le> 101 * half i"
proof -
  have "list_all (\<lambda>i. 100 * max (- fst (fe_out ! i)) (snd (fe_out ! i)) \<le> 101 * half i) [0, 1, 2, 3, 4, 5, 6, 7, 8, 9]"
    by (simp add: fe_out_def half_def)
  moreover have "i \<in> set [0, 1, 2, 3, 4, 5, 6, 7, 8, 9]" using that by auto
  ultimately have "100 * max (- fst (fe_out ! i)) (snd (fe_out ! i)) \<le> 101 * half i" unfolding list_all_iff by blast
  then show ?thesis using within_nth [OF assms(1), of i] that by (simp add: fe_out_def)
qed

lemma FeCombine_ok:
  assumes "within fe_in (map sint h)"
  shows "fe_le 101 (FeCombine h)" and "feq (feval (FeCombine h)) (value_of fe_weights (map sint h))"
proof -
  have l: "length h = 10" using within_length [OF assms] by (simp add: fe_in_def)
  have "list_all (keeps p25519 fe_weights) fe_carries"
    by (simp add: fe_carries_def carry26_def carry25_def fe_weights_def p25519_def)
  from run_sound [where ?'a = 64, OF _ assms this, of fe_out]
  have R: "within fe_out (map sint (run fe_carries h))"
    "p25519 dvd value_of fe_weights (map sint (run fe_carries h)) - value_of fe_weights (map sint h)"
    using brun_fe l by (simp_all add: fe_weights_def)
  have rl: "length (run fe_carries h) = 10" using within_length [OF R(1)] by (simp add: fe_out_def)
  have b: "100 * \<bar>sint (run fe_carries h ! i)\<bar> \<le> 101 * half i" if "i < 10" for i
    using fe_le_out [OF R(1) that] that rl by simp
  have n: "sint (FeCombine h ! i) = sint (run fe_carries h ! i)" if "i < 10" for i
  proof -
    have "100 * \<bar>sint (run fe_carries h ! i)\<bar> \<le> 101 * 2 ^ 25" using b [OF that] half_le(2) [of i] by linarith
    then show ?thesis using that rl by (simp add: FeCombine_def sint_scast_small)
  qed
  show "fe_le 101 (FeCombine h)" using b n rl by (simp add: fe_le_def FeCombine_def)
  have "map sint (FeCombine h) = map sint (run fe_carries h)"
    by (rule nth_equalityI) (use n rl in \<open>simp_all add: FeCombine_def\<close>)
  then show "feq (feval (FeCombine h)) (value_of fe_weights (map sint h))" using R(2) by (simp add: feq_dvd feval_def)
qed

section \<open>Products\<close>

text \<open>The limbs as integers: the multiples by 2 and 19 fit into \<open>int32\<close>.\<close>

lemma scast_of_int:
  assumes "\<bar>k\<bar> < 2 ^ 31"
  shows "scast (of_int k :: i32) = (of_int k :: i64)"
proof -
  have "sint (of_int k :: i32) = k" using sint_of_int [of k, where ?'a = 32] assms by simp
  then show ?thesis by (simp only: scast_eq)
qed

lemma fe_limb_bounds:
  assumes "fe_le 330 f" and "i < 10"
  shows "\<bar>sint (f ! i)\<bar> \<le> 110729625" and "odd i \<Longrightarrow> \<bar>sint (f ! i)\<bar> \<le> 55364812"
  using fe_leD(2) [OF assms] fe_leD(1) [OF assms] by (simp_all add: half_def)

lemma fe_limb:
  assumes "fe_le 330 f" and "X = map sint f" and "i < 10"
  shows "scast (f ! i) = (of_int (X ! i) :: i64)" and "scast (2 * f ! i) = (of_int (2 * X ! i) :: i64)"
    and "scast (19 * f ! i) = (of_int (19 * X ! i) :: i64)"
proof -
  have X: "X ! i = sint (f ! i)" using assms by (simp add: fe_le_length)
  show "scast (f ! i) = (of_int (X ! i) :: i64)" unfolding X by (rule scast_eq)
  have "2 * f ! i = of_int (2 * sint (f ! i))" "19 * f ! i = of_int (19 * sint (f ! i))" by simp_all
  moreover have "\<bar>2 * sint (f ! i)\<bar> < 2 ^ 31" "\<bar>19 * sint (f ! i)\<bar> < 2 ^ 31"
    using fe_limb_bounds(1) [OF assms(1,3)] by simp_all
  ultimately show "scast (2 * f ! i) = (of_int (2 * X ! i) :: i64)" "scast (19 * f ! i) = (of_int (19 * X ! i) :: i64)"
    unfolding X by (simp_all only: scast_of_int)
qed

text \<open>The product of limbs \<open>i\<close> and \<open>j\<close> goes to limb \<open>i + j\<close> modulo 10.\<close>

definition mul_coeff :: "nat \<Rightarrow> nat \<Rightarrow> int" where
  "mul_coeff i j = (if odd i \<and> odd j then 2 else 1) * (if 10 \<le> i + j then 19 else 1)"

definition mul_limb :: "int list \<Rightarrow> int list \<Rightarrow> nat \<Rightarrow> int" where
  "mul_limb x y k = (\<Sum>i<10. mul_coeff i ((k + 10 - i) mod 10) * (x ! i * y ! ((k + 10 - i) mod 10)))"

lemma mul_coeff_dvd:
  assumes "i < 10" and "j < 10"
  shows "p25519 dvd fe_weights ! ((i + j) mod 10) * mul_coeff i j - fe_weights ! i * fe_weights ! j"
proof -
  let ?e = "\<lambda>i. [0, 26, 51, 77, 102, 128, 153, 179, 204, 230] ! i :: nat"
  have e: "fe_weights ! k = 2 ^ ?e k" if "k < 10" for k
  proof -
    let ?l = "[0, 26, 51, 77, 102, 128, 153, 179, 204, 230] :: nat list"
    have "map ((^) 2) ?l ! k = (2 ^ (?l ! k) :: int)" by (rule nth_map) (use that in simp)
    moreover have "fe_weights = map ((^) 2) ?l" by (simp add: fe_weights_def)
    ultimately show ?thesis by (simp only:)
  qed
  have "list_all (\<lambda>i. list_all (\<lambda>j. ?e i + ?e j = ?e ((i + j) mod 10) + (if odd i \<and> odd j then 1 else 0) + (if 10 \<le> i + j then 255 else 0))
    [0, 1, 2, 3, 4, 5, 6, 7, 8, 9]) [0, 1, 2, 3, 4, 5, 6, 7, 8, 9]"
    by simp
  moreover have "i \<in> set [0, 1, 2, 3, 4, 5, 6, 7, 8, 9]" "j \<in> set [0, 1, 2, 3, 4, 5, 6, 7, 8, 9]" using assms by auto
  ultimately have s: "?e i + ?e j = ?e ((i + j) mod 10) + (if odd i \<and> odd j then 1 else 0) + (if 10 \<le> i + j then 255 else 0)"
    unfolding list_all_iff by blast
  have "fe_weights ! i * fe_weights ! j = 2 ^ (?e i + ?e j)" by (simp only: e assms power_add)
  also have "\<dots> = fe_weights ! ((i + j) mod 10) * ((if odd i \<and> odd j then 2 else 1) * (if 10 \<le> i + j then 2 ^ 255 else 1))"
    unfolding s by (simp add: e power_add)
  finally have "fe_weights ! ((i + j) mod 10) * mul_coeff i j - fe_weights ! i * fe_weights ! j
      = fe_weights ! ((i + j) mod 10) * (if odd i \<and> odd j then 2 else 1) * (if 10 \<le> i + j then - p25519 else 0)"
    by (simp add: mul_coeff_def p25519_def algebra_simps)
  then show ?thesis by simp
qed

lemma mul_limb_value:
  "feq (value_of fe_weights (map (mul_limb x y) [0..<10])) (value_of fe_weights x * value_of fe_weights y)"
proof -
  let ?w = "\<lambda>i. fe_weights ! i"
  have v: "value_of fe_weights xs = (\<Sum>i<10. ?w i * xs ! i)" for xs
  proof -
    have "length fe_weights = 10" by (simp add: fe_weights_def)
    then show ?thesis by (simp only: value_of_def)
  qed
  have "value_of fe_weights (map (mul_limb x y) [0..<10])
      = (\<Sum>i<10. \<Sum>k<10. ?w k * (mul_coeff i ((k + 10 - i) mod 10) * (x ! i * y ! ((k + 10 - i) mod 10))))"
    by (subst sum.swap) (simp add: v mul_limb_def sum_distrib_left)
  also have "\<dots> = (\<Sum>i<10. \<Sum>j<10. ?w ((i + j) mod 10) * mul_coeff i j * (x ! i * y ! j))"
  proof (rule sum.cong [OF refl])
    fix i :: nat assume "i \<in> {..<10}"
    then have i: "i < 10" by simp
    have "(k + 10 - i) mod 10 < 10" "(i + (k + 10 - i) mod 10) mod 10 = k" if "k < 10" for k
      using i that by (simp_all add: mod_simps)
    moreover have "((i + j) mod 10 + 10 - i) mod 10 = j" if "j < 10" for j
      using i that by (cases "i + j < 10") (auto simp: mod_if)
    ultimately show "(\<Sum>k<10. ?w k * (mul_coeff i ((k + 10 - i) mod 10) * (x ! i * y ! ((k + 10 - i) mod 10))))
        = (\<Sum>j<10. ?w ((i + j) mod 10) * mul_coeff i j * (x ! i * y ! j))"
      by (intro sum.reindex_bij_witness [of _ "\<lambda>j. (i + j) mod 10" "\<lambda>k. (k + 10 - i) mod 10"]) (auto simp: mult.assoc)
  qed
  finally have "value_of fe_weights (map (mul_limb x y) [0..<10]) - value_of fe_weights x * value_of fe_weights y
      = (\<Sum>i<10. \<Sum>j<10. (?w ((i + j) mod 10) * mul_coeff i j - ?w i * ?w j) * (x ! i * y ! j))"
    by (simp only: v sum_product left_diff_distrib sum_subtractf) (simp only: mult.assoc mult.left_commute mult.commute)
  moreover have "p25519 dvd (\<Sum>i<10. \<Sum>j<10. (?w ((i + j) mod 10) * mul_coeff i j - ?w i * ?w j) * (x ! i * y ! j))"
    by (intro dvd_sum dvd_mult2 mul_coeff_dvd) simp_all
  ultimately show ?thesis by (simp add: feq_dvd)
qed

lemma mul_limb_bound:
  assumes "\<And>i. i < 10 \<Longrightarrow> \<bar>x ! i\<bar> \<le> 110729625 \<and> (odd i \<longrightarrow> \<bar>x ! i\<bar> \<le> 55364812)"
    and "\<And>i. i < 10 \<Longrightarrow> \<bar>y ! i\<bar> \<le> 110729625 \<and> (odd i \<longrightarrow> \<bar>y ! i\<bar> \<le> 55364812)"
  shows "\<bar>mul_limb x y k\<bar> \<le> 2400000000000000000"
proof -
  have "\<bar>mul_coeff i j * (x ! i * y ! j)\<bar> \<le> 240000000000000000" if "i < 10" "j < 10" for i j
  proof (cases "odd i \<and> odd j")
    case True
    then have m: "\<bar>x ! i\<bar> * \<bar>y ! j\<bar> \<le> 55364812 * 55364812" using assms(1) [OF that(1)] assms(2) [OF that(2)] by (intro mult_mono) simp_all
    have c: "\<bar>mul_coeff i j\<bar> \<le> 38" by (simp add: mul_coeff_def)
    show ?thesis using mult_mono [OF c m] by (simp add: abs_mult)
  next
    case False
    have m: "\<bar>x ! i\<bar> * \<bar>y ! j\<bar> \<le> 110729625 * 110729625" using assms(1) [OF that(1)] assms(2) [OF that(2)] by (intro mult_mono) simp_all
    have c: "\<bar>mul_coeff i j\<bar> \<le> 19" using False by (auto simp: mul_coeff_def)
    show ?thesis using mult_mono [OF c m] by (simp add: abs_mult)
  qed
  then have "(\<Sum>i<10. \<bar>mul_coeff i ((k + 10 - i) mod 10) * (x ! i * y ! ((k + 10 - i) mod 10))\<bar>) \<le> (\<Sum>i<10 :: nat. 240000000000000000)"
    by (intro sum_mono) simp
  then show ?thesis unfolding mul_limb_def by (intro order_trans [OF sum_abs]) simp
qed

lemma upto10: "[0..<10] = [0, 1, 2, 3, 4, 5, 6, 7, 8, 9]"
  by code_simp

lemma lessThan_10: "(\<Sum>i<10. f i) = f 0 + f 1 + f 2 + f 3 + f 4 + f 5 + f 6 + f 7 + f 8 + (f 9 :: int)" for f :: "nat \<Rightarrow> int"
  by (simp add: eval_nat_numeral)

lemma mul_limb_list:
  "map (mul_limb x y) [0..<10] =
     [x ! 0 * y ! 0 + (2 * x ! 1) * (19 * y ! 9) + x ! 2 * (19 * y ! 8) + (2 * x ! 3) * (19 * y ! 7) + x ! 4 * (19 * y ! 6) + (2 * x ! 5) * (19 * y ! 5) + x ! 6 * (19 * y ! 4) + (2 * x ! 7) * (19 * y ! 3) + x ! 8 * (19 * y ! 2) + (2 * x ! 9) * (19 * y ! 1),
      x ! 0 * y ! 1 + x ! 1 * y ! 0 + x ! 2 * (19 * y ! 9) + x ! 3 * (19 * y ! 8) + x ! 4 * (19 * y ! 7) + x ! 5 * (19 * y ! 6) + x ! 6 * (19 * y ! 5) + x ! 7 * (19 * y ! 4) + x ! 8 * (19 * y ! 3) + x ! 9 * (19 * y ! 2),
      x ! 0 * y ! 2 + (2 * x ! 1) * y ! 1 + x ! 2 * y ! 0 + (2 * x ! 3) * (19 * y ! 9) + x ! 4 * (19 * y ! 8) + (2 * x ! 5) * (19 * y ! 7) + x ! 6 * (19 * y ! 6) + (2 * x ! 7) * (19 * y ! 5) + x ! 8 * (19 * y ! 4) + (2 * x ! 9) * (19 * y ! 3),
      x ! 0 * y ! 3 + x ! 1 * y ! 2 + x ! 2 * y ! 1 + x ! 3 * y ! 0 + x ! 4 * (19 * y ! 9) + x ! 5 * (19 * y ! 8) + x ! 6 * (19 * y ! 7) + x ! 7 * (19 * y ! 6) + x ! 8 * (19 * y ! 5) + x ! 9 * (19 * y ! 4),
      x ! 0 * y ! 4 + (2 * x ! 1) * y ! 3 + x ! 2 * y ! 2 + (2 * x ! 3) * y ! 1 + x ! 4 * y ! 0 + (2 * x ! 5) * (19 * y ! 9) + x ! 6 * (19 * y ! 8) + (2 * x ! 7) * (19 * y ! 7) + x ! 8 * (19 * y ! 6) + (2 * x ! 9) * (19 * y ! 5),
      x ! 0 * y ! 5 + x ! 1 * y ! 4 + x ! 2 * y ! 3 + x ! 3 * y ! 2 + x ! 4 * y ! 1 + x ! 5 * y ! 0 + x ! 6 * (19 * y ! 9) + x ! 7 * (19 * y ! 8) + x ! 8 * (19 * y ! 7) + x ! 9 * (19 * y ! 6),
      x ! 0 * y ! 6 + (2 * x ! 1) * y ! 5 + x ! 2 * y ! 4 + (2 * x ! 3) * y ! 3 + x ! 4 * y ! 2 + (2 * x ! 5) * y ! 1 + x ! 6 * y ! 0 + (2 * x ! 7) * (19 * y ! 9) + x ! 8 * (19 * y ! 8) + (2 * x ! 9) * (19 * y ! 7),
      x ! 0 * y ! 7 + x ! 1 * y ! 6 + x ! 2 * y ! 5 + x ! 3 * y ! 4 + x ! 4 * y ! 3 + x ! 5 * y ! 2 + x ! 6 * y ! 1 + x ! 7 * y ! 0 + x ! 8 * (19 * y ! 9) + x ! 9 * (19 * y ! 8),
      x ! 0 * y ! 8 + (2 * x ! 1) * y ! 7 + x ! 2 * y ! 6 + (2 * x ! 3) * y ! 5 + x ! 4 * y ! 4 + (2 * x ! 5) * y ! 3 + x ! 6 * y ! 2 + (2 * x ! 7) * y ! 1 + x ! 8 * y ! 0 + (2 * x ! 9) * (19 * y ! 9),
      x ! 0 * y ! 9 + x ! 1 * y ! 8 + x ! 2 * y ! 7 + x ! 3 * y ! 6 + x ! 4 * y ! 5 + x ! 5 * y ! 4 + x ! 6 * y ! 3 + x ! 7 * y ! 2 + x ! 8 * y ! 1 + x ! 9 * y ! 0]"
  by (simp add: upto10 mul_limb_def lessThan_10 mul_coeff_def)

lemma FeMul_limbs:
  assumes "fe_le 330 f" and "fe_le 330 g" and "x = map sint f" and "y = map sint g"
  shows "FeMul f g = FeCombine (map of_int (map (mul_limb x y) [0..<10]))"
  unfolding FeMul_def Let_def mul_limb_list
  by (simp only: fe_limb [OF assms(1,3)] fe_limb [OF assms(2,4)] zero_less_numeral one_less_numeral_iff semiring_norm wi_hom_syms list.map)

lemma square_limb_list:
  "map (mul_limb x x) [0..<10] =
     [x ! 0 * x ! 0 + (2 * x ! 1) * (38 * x ! 9) + (2 * x ! 2) * (19 * x ! 8) + (2 * x ! 3) * (38 * x ! 7) + (2 * x ! 4) * (19 * x ! 6) + x ! 5 * (38 * x ! 5),
      (2 * x ! 0) * x ! 1 + x ! 2 * (38 * x ! 9) + (2 * x ! 3) * (19 * x ! 8) + x ! 4 * (38 * x ! 7) + (2 * x ! 5) * (19 * x ! 6),
      (2 * x ! 0) * x ! 2 + (2 * x ! 1) * x ! 1 + (2 * x ! 3) * (38 * x ! 9) + (2 * x ! 4) * (19 * x ! 8) + (2 * x ! 5) * (38 * x ! 7) + x ! 6 * (19 * x ! 6),
      (2 * x ! 0) * x ! 3 + (2 * x ! 1) * x ! 2 + x ! 4 * (38 * x ! 9) + (2 * x ! 5) * (19 * x ! 8) + x ! 6 * (38 * x ! 7),
      (2 * x ! 0) * x ! 4 + (2 * x ! 1) * (2 * x ! 3) + x ! 2 * x ! 2 + (2 * x ! 5) * (38 * x ! 9) + (2 * x ! 6) * (19 * x ! 8) + x ! 7 * (38 * x ! 7),
      (2 * x ! 0) * x ! 5 + (2 * x ! 1) * x ! 4 + (2 * x ! 2) * x ! 3 + x ! 6 * (38 * x ! 9) + (2 * x ! 7) * (19 * x ! 8),
      (2 * x ! 0) * x ! 6 + (2 * x ! 1) * (2 * x ! 5) + (2 * x ! 2) * x ! 4 + (2 * x ! 3) * x ! 3 + (2 * x ! 7) * (38 * x ! 9) + x ! 8 * (19 * x ! 8),
      (2 * x ! 0) * x ! 7 + (2 * x ! 1) * x ! 6 + (2 * x ! 2) * x ! 5 + (2 * x ! 3) * x ! 4 + x ! 8 * (38 * x ! 9),
      (2 * x ! 0) * x ! 8 + (2 * x ! 1) * (2 * x ! 7) + (2 * x ! 2) * x ! 6 + (2 * x ! 3) * (2 * x ! 5) + x ! 4 * x ! 4 + x ! 9 * (38 * x ! 9),
      (2 * x ! 0) * x ! 9 + (2 * x ! 1) * x ! 8 + (2 * x ! 2) * x ! 7 + (2 * x ! 3) * x ! 6 + (2 * x ! 4) * x ! 5]"
  unfolding mul_limb_list by (simp add: algebra_simps)

lemma feSquare_limbs:
  assumes "fe_le 330 f" and "x = map sint f"
  shows "feSquare f = map of_int (map (mul_limb x x) [0..<10])"
  unfolding feSquare_def Let_def square_limb_list
  by (simp only: fe_limb [OF assms] zero_less_numeral one_less_numeral_iff semiring_norm wi_hom_syms list.map) simp


lemma fe_limbs_small:
  assumes "fe_le 330 f" and "fe_le 330 g" and "x = map sint f" and "y = map sint g"
  shows "\<bar>mul_limb x y k\<bar> \<le> 2400000000000000000"
  by (rule mul_limb_bound) (use fe_limb_bounds [OF assms(1)] fe_limb_bounds [OF assms(2)] assms(3,4) fe_le_length [OF assms(1)] fe_le_length [OF assms(2)] in simp_all)

lemma FeCombine_of_ints:
  assumes "length hs = 10" and "\<And>i. i < 10 \<Longrightarrow> \<bar>hs ! i\<bar> \<le> 6000000000000000000"
  shows "fe_le 101 (FeCombine (map of_int hs))" and "feq (feval (FeCombine (map of_int hs))) (value_of fe_weights hs)"
proof -
  have s: "map sint (map of_int hs :: i64 list) = hs"
  proof (rule nth_equalityI)
    fix i assume "i < length (map sint (map of_int hs :: i64 list))"
    then show "map sint (map of_int hs :: i64 list) ! i = hs ! i"
      using assms(1) assms(2) [of i] sint_of_int [of "hs ! i", where ?'a = 64] by (simp add: abs_le_iff)
  qed simp
  have b: "- 6000000000000000000 \<le> hs ! i \<and> hs ! i \<le> 6000000000000000000" if "i < 10" for i
    using assms(2) [OF that] by linarith
  have "within fe_in hs" unfolding within_def list_all2_conv_all_nth using assms(1) b by (auto simp: fe_in_def)
  then show "fe_le 101 (FeCombine (map of_int hs))" "feq (feval (FeCombine (map of_int hs))) (value_of fe_weights hs)"
    using FeCombine_ok [of "map of_int hs"] unfolding s by simp_all
qed

theorem FeMul_ok:
  assumes "fe_le 330 f" and "fe_le 330 g"
  shows "fe_le 101 (FeMul f g)" and "feq (feval (FeMul f g)) (feval f * feval g)"
proof -
  let ?x = "map sint f" and ?y = "map sint g"
  have b: "\<bar>map (mul_limb ?x ?y) [0..<10] ! i\<bar> \<le> 6000000000000000000" if "i < 10" for i
    using fe_limbs_small [OF assms refl refl, of i] that by simp
  note C = FeCombine_of_ints [of "map (mul_limb ?x ?y) [0..<10]", OF _ b]
  show "fe_le 101 (FeMul f g)" unfolding FeMul_limbs [OF assms refl refl] by (rule C(1)) simp_all
  have "feq (feval (FeMul f g)) (value_of fe_weights (map (mul_limb ?x ?y) [0..<10]))"
    unfolding FeMul_limbs [OF assms refl refl] by (rule C(2)) simp_all
  also have "feq \<dots> (feval f * feval g)" unfolding feval_def by (rule mul_limb_value)
  finally show "feq (feval (FeMul f g)) (feval f * feval g)" .
qed

theorem FeSquare_ok:
  assumes "fe_le 330 f"
  shows "fe_le 101 (FeSquare f)" and "feq (feval (FeSquare f)) (feval f * feval f)"
proof -
  have "FeSquare f = FeMul f f" unfolding FeSquare_def feSquare_limbs [OF assms refl] FeMul_limbs [OF assms assms refl refl] by (rule refl)
  then show "fe_le 101 (FeSquare f)" "feq (feval (FeSquare f)) (feval f * feval f)" using FeMul_ok [OF assms assms] by simp_all
qed

theorem FeSquare2_ok:
  assumes "fe_le 330 f"
  shows "fe_le 101 (FeSquare2 f)" and "feq (feval (FeSquare2 f)) (2 * (feval f * feval f))"
proof -
  let ?x = "map sint f"
  let ?hs = "map (\<lambda>k. mul_limb ?x ?x k + mul_limb ?x ?x k) [0..<10]"
  have e: "FeSquare2 f = FeCombine (map of_int ?hs)"
    unfolding FeSquare2_def feSquare_limbs [OF assms refl] by (simp add: comp_def)
  have b: "\<bar>?hs ! i\<bar> \<le> 6000000000000000000" if "i < 10" for i
    using fe_limbs_small [OF assms assms refl refl, of i] that by simp
  note C = FeCombine_of_ints [of ?hs, OF _ b]
  show "fe_le 101 (FeSquare2 f)" unfolding e by (rule C(1)) simp_all
  have "value_of fe_weights ?hs = value_of fe_weights (map (mul_limb ?x ?x) [0..<10]) + value_of fe_weights (map (mul_limb ?x ?x) [0..<10])"
    by (simp add: value_of_def fe_weights_def distrib_left sum.distrib)
  moreover have "feq (value_of fe_weights (map (mul_limb ?x ?x) [0..<10])) (feval f * feval f)" unfolding feval_def by (rule mul_limb_value)
  ultimately have "feq (value_of fe_weights ?hs) (2 * (feval f * feval f))" using feq_add by fastforce
  moreover have "feq (feval (FeSquare2 f)) (value_of fe_weights ?hs)" unfolding e by (rule C(2)) simp_all
  ultimately show "feq (feval (FeSquare2 f)) (2 * (feval f * feval f))" by (rule feq_trans [rotated])
qed

section \<open>Powers\<close>

definition fe_pow :: "FieldElement \<Rightarrow> nat \<Rightarrow> FieldElement \<Rightarrow> bool" where
  "fe_pow z e f \<longleftrightarrow> fe_le 330 f \<and> feq (feval f) (feval z ^ e)"

lemma fe_pow_mul: "fe_pow z a f \<Longrightarrow> fe_pow z b g \<Longrightarrow> fe_pow z (a + b) (FeMul f g)"
  using FeMul_ok [of f g] fe_le_mono [of 101 "FeMul f g" 330] by (auto simp: fe_pow_def power_add intro: feq_trans feq_mult)

lemma fe_pow_square: "fe_pow z a f \<Longrightarrow> fe_pow z (2 * a) (FeSquare f)"
  using FeSquare_ok [of f] fe_le_mono [of 101 "FeSquare f" 330] by (auto simp: fe_pow_def power_mult power2_eq_square power_mult_distrib mult_2 power_add intro: feq_trans feq_mult)

lemma fe_pow_squares: "fe_pow z a f \<Longrightarrow> fe_pow z (2 ^ n * a) ((FeSquare ^^ n) f)"
  by (induction n) (use fe_pow_square in \<open>auto simp: mult.assoc\<close>)

lemma fe_pow_cong: "fe_pow z a f \<Longrightarrow> a = b \<Longrightarrow> fe_pow z b f"
  by simp

lemmas fe_pow_intros = fe_pow_mul fe_pow_square fe_pow_squares

theorem FeInvert_ok:
  assumes "fe_le 330 z"
  shows "fe_pow z (2 ^ 255 - 21) (FeInvert z)"
proof -
  have z: "fe_pow z 1 z" using assms by (simp add: fe_pow_def)
  show ?thesis unfolding FeInvert_def Let_def by (rule fe_pow_cong, (rule fe_pow_intros z)+, simp)
qed

theorem fePow22523_ok:
  assumes "fe_le 330 z"
  shows "fe_pow z (2 ^ 252 - 3) (fePow22523 z)"
proof -
  have z: "fe_pow z 1 z" using assms by (simp add: fe_pow_def)
  show ?thesis unfolding fePow22523_def Let_def by (rule fe_pow_cong, (rule fe_pow_intros z)+, simp)
qed

end
