(* ===== verification/FeBytes.thy ===== *)
theory FeBytes
  imports Fe25519
begin

text \<open>
  Reading and writing field elements (\<open>FeFromBytes\<close>, \<open>FeToBytes\<close>, \<open>FeIsNegative\<close>, \<open>FeIsNonZero\<close> of
  \<open>ed25519/edwards25519/edwards25519.go\<close>). What is written is the canonical representative
  of the element, and writing leaves the argument with the canonical limbs, which is why
  these functions return it.
\<close>

unbundle bit_operations_syntax

section \<open>Reading\<close>

definition FeFromBytes :: "bytes \<Rightarrow> FieldElement" where
  "FeFromBytes src =
     (let h0 = load4 src; h1 = push_bit 6 (load3 (drop 4 src)); h2 = push_bit 5 (load3 (drop 7 src));
          h3 = push_bit 3 (load3 (drop 10 src)); h4 = push_bit 2 (load3 (drop 13 src)); h5 = load4 (drop 16 src);
          h6 = push_bit 7 (load3 (drop 20 src)); h7 = push_bit 5 (load3 (drop 23 src)); h8 = push_bit 4 (load3 (drop 26 src));
          h9 = push_bit 2 (load3 (drop 29 src) AND 8388607)
      in FeCombine [h0, h1, h2, h3, h4, h5, h6, h7, h8, h9])"

definition cut :: "nat \<Rightarrow> nat \<Rightarrow> nat \<Rightarrow> nat" where "cut N k m = N div 2 ^ k mod 2 ^ m"

lemma load3_cut:
  assumes "k + 3 \<le> length b"
  shows "load3 (drop k b) = of_nat (cut (le_nat b) (8 * k) 24)"
proof -
  have "(256 :: nat) ^ k = 2 ^ (8 * k)" by (simp only: power_mult) simp
  then show ?thesis using assms by (simp only: cut_def le_nat_drop load3_eq length_drop add_le_imp_le_diff)
qed

lemma load4_cut:
  assumes "k + 4 \<le> length b"
  shows "load4 (drop k b) = of_nat (cut (le_nat b) (8 * k) 32)"
proof -
  have "(256 :: nat) ^ k = 2 ^ (8 * k)" by (simp only: power_mult) simp
  then show ?thesis using assms by (simp only: cut_def le_nat_drop load4_eq length_drop add_le_imp_le_diff)
qed

lemma push_of_nat: "push_bit n (of_nat M :: i64) = of_int (2 ^ n * int M)"
  by (simp add: push_bit_eq_mult mult.commute)

lemma cut_mask: "(of_nat (cut N k 24) :: i64) AND 8388607 = of_nat (cut N k 23)"
proof -
  have "(8388607 :: i64) = mask 23" by (simp add: mask_eq_exp_minus_1)
  then have "(of_nat (cut N k 24) :: i64) AND 8388607 = of_nat (take_bit 23 (cut N k 24))"
    by (simp only: take_bit_eq_mask [symmetric] take_bit_of_nat)
  moreover have "take_bit 23 (cut N k 24) = cut N k 23" by (simp add: cut_def take_bit_eq_mod mod_mod_cancel)
  ultimately show ?thesis by simp
qed

lemma cut_less: "cut N k m < 2 ^ m"
  by (simp add: cut_def)

lemma cut_append: "cut N 0 k + 2 ^ k * cut N k m = cut N 0 (k + m)"
  using mod_mult2_eq [of N "2 ^ k" "2 ^ m"] by (simp add: cut_def power_add)

theorem FeFromBytes_ok:
  assumes "length b = 32"
  shows "fe_le 101 (FeFromBytes b)" and "feq (feval (FeFromBytes b)) (int (le_nat b mod 2 ^ 255))"
proof -
  let ?c = "\<lambda>k m. int (cut (le_nat b) k m)"
  let ?hs = "[?c 0 32, 2 ^ 6 * ?c 32 24, 2 ^ 5 * ?c 56 24, 2 ^ 3 * ?c 80 24, 2 ^ 2 * ?c 104 24, ?c 128 32,
    2 ^ 7 * ?c 160 24, 2 ^ 5 * ?c 184 24, 2 ^ 4 * ?c 208 24, 2 ^ 2 * ?c 232 23]"
  have e: "FeFromBytes b = FeCombine (map of_int ?hs)"
    using load4_cut [of 0 b] load3_cut [of 4 b] load3_cut [of 7 b] load3_cut [of 10 b] load3_cut [of 13 b] load4_cut [of 16 b]
      load3_cut [of 20 b] load3_cut [of 23 b] load3_cut [of 26 b] load3_cut [of 29 b] assms
    by (simp add: FeFromBytes_def Let_def cut_mask push_of_nat)
  have l: "?c k m < 2 ^ m" for k m using cut_less [of "le_nat b" k m] by (metis of_nat_less_iff of_nat_numeral of_nat_power)
  have "list_all (\<lambda>h. \<bar>h\<bar> \<le> 6000000000000000000) ?hs"
    using l [of 0 32] l [of 32 24] l [of 56 24] l [of 80 24] l [of 104 24] l [of 128 32] l [of 160 24] l [of 184 24] l [of 208 24] l [of 232 23]
    by (simp add: abs_le_iff)
  then have B: "\<bar>?hs ! i\<bar> \<le> 6000000000000000000" if "i < 10" for i using that by (simp only: list_all_length) simp
  have v: "value_of fe_weights ?hs = int (cut (le_nat b) 0 255)"
  proof -
    let ?n = "cut (le_nat b)"
    have "?n 0 255 = ?n 0 32 + 2 ^ 32 * ?n 32 24 + 2 ^ 56 * ?n 56 24 + 2 ^ 80 * ?n 80 24 + 2 ^ 104 * ?n 104 24 + 2 ^ 128 * ?n 128 32
       + 2 ^ 160 * ?n 160 24 + 2 ^ 184 * ?n 184 24 + 2 ^ 208 * ?n 208 24 + 2 ^ 232 * ?n 232 23"
      using cut_append [of "le_nat b" 32 24] cut_append [of "le_nat b" 56 24] cut_append [of "le_nat b" 80 24] cut_append [of "le_nat b" 104 24]
        cut_append [of "le_nat b" 128 32] cut_append [of "le_nat b" 160 24] cut_append [of "le_nat b" 184 24] cut_append [of "le_nat b" 208 24]
        cut_append [of "le_nat b" 232 23] by simp
    then show ?thesis by (simp add: fe_weights_def value_of_Cons value_of_Nil)
  qed
  note C = FeCombine_of_ints [of ?hs, OF _ B]
  show "fe_le 101 (FeFromBytes b)" unfolding e by (rule C(1)) simp_all
  have "feq (feval (FeFromBytes b)) (value_of fe_weights ?hs)" unfolding e by (rule C(2)) simp_all
  then show "feq (feval (FeFromBytes b)) (int (le_nat b mod 2 ^ 255))" unfolding v by (simp add: cut_def)
qed


section \<open>Writing\<close>

text \<open>The multiple of the prime that is taken away.\<close>

definition fe_quotient :: "FieldElement \<Rightarrow> i32" where
  "fe_quotient h =
     (let q = signed_drop_bit 25 (19 * h ! 9 + push_bit 24 1);
          q = signed_drop_bit 26 (h ! 0 + q); q = signed_drop_bit 25 (h ! 1 + q);
          q = signed_drop_bit 26 (h ! 2 + q); q = signed_drop_bit 25 (h ! 3 + q);
          q = signed_drop_bit 26 (h ! 4 + q); q = signed_drop_bit 25 (h ! 5 + q);
          q = signed_drop_bit 26 (h ! 6 + q); q = signed_drop_bit 25 (h ! 7 + q);
          q = signed_drop_bit 26 (h ! 8 + q)
      in signed_drop_bit 25 (h ! 9 + q))"

definition fe_floors :: "limb_op list" where
  "fe_floors = [Carry 0 26 0 1 1, Carry 1 25 0 2 1, Carry 2 26 0 3 1, Carry 3 25 0 4 1, Carry 4 26 0 5 1,
     Carry 5 25 0 6 1, Carry 6 26 0 7 1, Carry 7 25 0 8 1, Carry 8 26 0 9 1]"

definition fe_canonical :: "FieldElement \<Rightarrow> FieldElement" where
  "fe_canonical h =
     (let q = fe_quotient h; h = h[0 := h ! 0 + 19 * q]; h = run fe_floors h; carry9 = signed_drop_bit 25 (h ! 9)
      in h[9 := h ! 9 - push_bit 25 carry9])"

definition fe_store :: "FieldElement \<Rightarrow> bytes" where
  "fe_store h = map ucast
     [h ! 0, signed_drop_bit 8 (h ! 0), signed_drop_bit 16 (h ! 0), signed_drop_bit 24 (h ! 0) OR push_bit 2 (h ! 1),
      signed_drop_bit 6 (h ! 1), signed_drop_bit 14 (h ! 1), signed_drop_bit 22 (h ! 1) OR push_bit 3 (h ! 2),
      signed_drop_bit 5 (h ! 2), signed_drop_bit 13 (h ! 2), signed_drop_bit 21 (h ! 2) OR push_bit 5 (h ! 3),
      signed_drop_bit 3 (h ! 3), signed_drop_bit 11 (h ! 3), signed_drop_bit 19 (h ! 3) OR push_bit 6 (h ! 4),
      signed_drop_bit 2 (h ! 4), signed_drop_bit 10 (h ! 4), signed_drop_bit 18 (h ! 4),
      h ! 5, signed_drop_bit 8 (h ! 5), signed_drop_bit 16 (h ! 5), signed_drop_bit 24 (h ! 5) OR push_bit 1 (h ! 6),
      signed_drop_bit 7 (h ! 6), signed_drop_bit 15 (h ! 6), signed_drop_bit 23 (h ! 6) OR push_bit 3 (h ! 7),
      signed_drop_bit 5 (h ! 7), signed_drop_bit 13 (h ! 7), signed_drop_bit 21 (h ! 7) OR push_bit 4 (h ! 8),
      signed_drop_bit 4 (h ! 8), signed_drop_bit 12 (h ! 8), signed_drop_bit 20 (h ! 8) OR push_bit 6 (h ! 9),
      signed_drop_bit 2 (h ! 9), signed_drop_bit 10 (h ! 9), signed_drop_bit 18 (h ! 9)]"

definition FeToBytes :: "FieldElement \<Rightarrow> bytes \<times> FieldElement" where
  "FeToBytes h = (let h = fe_canonical h in (fe_store h, h))"

definition FeIsNegative :: "FieldElement \<Rightarrow> byte \<times> FieldElement" where
  "FeIsNegative f = (let (s, f) = FeToBytes f in (s ! 0 AND 1, f))"

definition FeIsNonZero :: "FieldElement \<Rightarrow> i32 \<times> FieldElement" where
  "FeIsNonZero f =
     (let (s, f) = FeToBytes f; x = foldl (OR) 0 s; x = x OR drop_bit 4 x; x = x OR drop_bit 2 x; x = x OR drop_bit 1 x
      in (ucast (x AND 1), f))"

subsection \<open>The quotient\<close>

lemma abs_div_le:
  fixes x d :: int
  assumes "0 < d" and "\<bar>x\<bar> \<le> c * d"
  shows "\<bar>x div d\<bar> \<le> c"
proof -
  have "- c * d \<le> x" "x \<le> c * d" using assms(2) by (simp_all add: abs_le_iff)
  then have "(- c * d) div d \<le> x div d" "x div d \<le> (c * d) div d" using assms(1) by (simp_all only: zdiv_mono1)
  moreover have "(- c * d) div d = - c" using assms(1) by (simp only: nonzero_mult_div_cancel_right less_imp_neq [symmetric] not_False_eq_True)
  ultimately show ?thesis using assms(1) by (simp add: abs_le_iff)
qed

lemma q_step:
  assumes "sint (q :: i32) = V div W" and "\<bar>V div W\<bar> \<le> 100" and "\<bar>sint a\<bar> \<le> 110729625" and "25 \<le> n" and "0 < W" and "W * 2 ^ n = W'"
  shows "sint (signed_drop_bit n (a + q)) = (V + W * sint a) div W'" and "\<bar>(V + W * sint a) div W'\<bar> \<le> 100"
proof -
  have "sint (a + q) = sint a + V div W" using sint_add_small [of a q] assms(1-3) by simp
  then have s: "sint (signed_drop_bit n (a + q)) = (sint a + V div W) div 2 ^ n" by (simp add: sint_signed_drop_bit_eq drop_bit_eq_div)
  have "sint a + V div W = (V + W * sint a) div W" using assms(5) by simp
  then have e: "(sint a + V div W) div 2 ^ n = (V + W * sint a) div W'" unfolding assms(6) [symmetric] by (simp only: zdiv_zmult2_eq zero_le_power zero_le_numeral)
  show "sint (signed_drop_bit n (a + q)) = (V + W * sint a) div W'" by (simp only: s e)
  have p: "(2 :: int) ^ 25 \<le> 2 ^ n" using assms(4) by (rule power_increasing) simp
  show "\<bar>(V + W * sint a) div W'\<bar> \<le> 100" unfolding e [symmetric] by (rule abs_div_le) (use assms(2,3) p in simp_all)
qed

lemma value10:
  "value_of fe_weights x = x ! 0 + 2 ^ 26 * x ! 1 + 2 ^ 51 * x ! 2 + 2 ^ 77 * x ! 3 + 2 ^ 102 * x ! 4 + 2 ^ 128 * x ! 5
    + 2 ^ 153 * x ! 6 + 2 ^ 179 * x ! 7 + 2 ^ 204 * x ! 8 + 2 ^ 230 * x ! 9"
proof -
  have "length fe_weights = 10" by (simp add: fe_weights_def)
  then have "value_of fe_weights x = (\<Sum>i<10. fe_weights ! i * x ! i)" by (simp only: value_of_def)
  then show ?thesis unfolding lessThan_10 by (simp add: fe_weights_def)
qed

lemma fe_quotient_div:
  assumes "fe_le 330 h"
  shows "sint (fe_quotient h) = ((19 * sint (h ! 9) + 2 ^ 24) div 2 ^ 25 + feval h) div 2 ^ 255" and "\<bar>sint (fe_quotient h)\<bar> \<le> 100"
    and "\<bar>(19 * sint (h ! 9) + 2 ^ 24) div 2 ^ 25\<bar> \<le> 100"
proof -
  let ?x = "\<lambda>i. sint (h ! i)"
  let ?Q = "(19 * ?x 9 + 2 ^ 24) div 2 ^ 25"
  have b: "\<bar>?x i\<bar> \<le> 110729625" if "i < 10" for i using fe_limb_bounds(1) [OF assms that] .
  have b9: "\<bar>?x 9\<bar> \<le> 55364812" using fe_limb_bounds(2) [OF assms, of 9] by simp
  have "sint (19 * h ! 9 + push_bit 24 1) = 19 * ?x 9 + 2 ^ 24"
  proof -
    have "19 * h ! 9 + push_bit 24 1 = of_int (19 * ?x 9 + 2 ^ 24)" by (simp add: push_bit_eq_mult)
    then show ?thesis using sint_of_int [of "19 * ?x 9 + 2 ^ 24", where ?'a = 32] b9 by (simp add: abs_le_iff)
  qed
  then have Q: "sint (signed_drop_bit 25 (19 * h ! 9 + push_bit 24 1)) = ?Q div 1" by (simp add: sint_signed_drop_bit_eq drop_bit_eq_div)
  show Qb: "\<bar>?Q\<bar> \<le> 100" by (rule abs_div_le) (use b9 in \<open>simp_all add: abs_le_iff\<close>)
  have Qb1: "\<bar>?Q div 1\<bar> \<le> 100" using Qb by simp
  have s: "sint (signed_drop_bit n (h ! i + q)) = (V + W * ?x i) div W' \<and> \<bar>(V + W * ?x i) div W'\<bar> \<le> 100"
    if "sint q = V div W \<and> \<bar>V div W\<bar> \<le> 100" "i < 10" "25 \<le> n" "0 < W" "W * 2 ^ n = W'" for q V W i n W'
    using q_step [OF _ _ b [OF that(2)] that(3-5)] that(1) by blast
  have V: "feval h = ?x 0 + 2 ^ 26 * ?x 1 + 2 ^ 51 * ?x 2 + 2 ^ 77 * ?x 3 + 2 ^ 102 * ?x 4 + 2 ^ 128 * ?x 5
    + 2 ^ 153 * ?x 6 + 2 ^ 179 * ?x 7 + 2 ^ 204 * ?x 8 + 2 ^ 230 * ?x 9"
    unfolding feval_def value10 using fe_le_length [OF assms] by simp
  have F: "sint (fe_quotient h) = (?Q + 1 * ?x 0 + 2 ^ 26 * ?x 1 + 2 ^ 51 * ?x 2 + 2 ^ 77 * ?x 3 + 2 ^ 102 * ?x 4 + 2 ^ 128 * ?x 5
    + 2 ^ 153 * ?x 6 + 2 ^ 179 * ?x 7 + 2 ^ 204 * ?x 8 + 2 ^ 230 * ?x 9) div 2 ^ 255 \<and>
    \<bar>(?Q + 1 * ?x 0 + 2 ^ 26 * ?x 1 + 2 ^ 51 * ?x 2 + 2 ^ 77 * ?x 3 + 2 ^ 102 * ?x 4 + 2 ^ 128 * ?x 5
    + 2 ^ 153 * ?x 6 + 2 ^ 179 * ?x 7 + 2 ^ 204 * ?x 8 + 2 ^ 230 * ?x 9) div 2 ^ 255\<bar> \<le> 100"
    unfolding fe_quotient_def Let_def
    by (rule s, rule s, rule s, rule s, rule s, rule s, rule s, rule s, rule s, rule s, rule conjI [OF Q Qb1]) simp_all
  show "sint (fe_quotient h) = (?Q + feval h) div 2 ^ 255" using F unfolding V by (simp only: mult_1 add.assoc)
  show "\<bar>sint (fe_quotient h)\<bar> \<le> 100" using F by metis
qed

text \<open>The estimate of the quotient is exact: its error does not cross a multiple of the prime.\<close>

lemma quotient_exact:
  fixes H low x :: int
  assumes "H = low + 2 ^ 230 * x" and "\<bar>low\<bar> \<le> 2 ^ 232" and "\<bar>x\<bar> \<le> 55364812"
  shows "((19 * x + 2 ^ 24) div 2 ^ 25 + H) div 2 ^ 255 = H div p25519"
proof -
  define Q where "Q = (19 * x + 2 ^ 24) div 2 ^ 25"
  define q where "q = H div p25519"
  define r where "r = H mod p25519"
  have Q: "19 * x + 2 ^ 24 - 2 ^ 25 < 2 ^ 25 * Q" "2 ^ 25 * Q \<le> 19 * x + 2 ^ 24"
    using div_mult_mod_eq [of "19 * x + 2 ^ 24" "2 ^ 25"] pos_mod_bound [of "2 ^ 25" "19 * x + 2 ^ 24"] pos_mod_sign [of "2 ^ 25" "19 * x + 2 ^ 24"]
    by (simp_all add: Q_def mult.commute)
  have p: "H = 2 ^ 255 * q - 19 * q + r" "0 \<le> r" "r < 2 ^ 255 - 19"
    using div_mult_mod_eq [of H p25519] by (simp_all add: q_def r_def p25519_def algebra_simps)
  have q: "\<bar>q\<bar> \<le> 100" unfolding q_def by (rule abs_div_le) (use assms in \<open>simp_all add: p25519_def abs_le_iff\<close>)
  have e: "2 ^ 255 * q = low + 2 ^ 230 * x - r + 19 * q" using p(1) assms(1) by simp
  have "2 ^ 255 * (Q - 19 * q) < 2 ^ 255 * 20" using Q(2) e assms(2) q p(2,3) by (simp add: abs_le_iff)
  moreover have "2 ^ 255 * (- 1) < 2 ^ 255 * (Q - 19 * q)" using Q(1) e assms(2) q p(2,3) by (simp add: abs_le_iff)
  ultimately have d: "0 \<le> Q - 19 * q" "Q - 19 * q \<le> 19" by simp_all
  have "Q + H = (r + (Q - 19 * q)) + q * 2 ^ 255" using p(1) by simp
  moreover have "0 \<le> r + (Q - 19 * q)" "r + (Q - 19 * q) < 2 ^ 255" using d p(2,3) by simp_all
  ultimately have "(Q + H) div 2 ^ 255 = q" by (simp add: div_mult_self1)
  then show ?thesis by (simp only: Q_def q_def)
qed

lemma fe_quotient_ok:
  assumes "fe_le 330 h"
  shows "sint (fe_quotient h) = feval h div p25519"
proof -
  let ?x = "\<lambda>i. sint (h ! i)"
  let ?low = "?x 0 + 2 ^ 26 * ?x 1 + 2 ^ 51 * ?x 2 + 2 ^ 77 * ?x 3 + 2 ^ 102 * ?x 4 + 2 ^ 128 * ?x 5
    + 2 ^ 153 * ?x 6 + 2 ^ 179 * ?x 7 + 2 ^ 204 * ?x 8"
  have V: "feval h = ?low + 2 ^ 230 * ?x 9" unfolding feval_def value10 using fe_le_length [OF assms] by simp
  have b: "- 110729625 \<le> ?x i" "?x i \<le> 110729625" if "i < 10" for i using fe_limb_bounds(1) [OF assms that] by (simp_all add: abs_le_iff)
  have b9: "\<bar>?x 9\<bar> \<le> 55364812" using fe_limb_bounds(2) [OF assms, of 9] by simp
  have low: "\<bar>?low\<bar> \<le> 2 ^ 232"
    using b [of 0] b [of 1] b [of 2] b [of 3] b [of 4] b [of 5] b [of 6] b [of 7] b [of 8] by (simp add: abs_le_iff)
  show ?thesis using quotient_exact [OF V low b9] fe_quotient_div(1) [OF assms] by (simp only:)
qed

subsection \<open>The canonical limbs\<close>

definition fe_top :: bounds where
  "fe_top = [(0, 67108863), (0, 33554431), (0, 67108863), (0, 33554431), (0, 67108863), (0, 33554431), (0, 67108863), (0, 33554431), (0, 67108863), (- 55364814, 55364813)]"

definition fe_before :: bounds where
  "fe_before = [(- 111000000, 111000000), (- 55364812, 55364812), (- 110729625, 110729625), (- 55364812, 55364812), (- 110729625, 110729625),
     (- 55364812, 55364812), (- 110729625, 110729625), (- 55364812, 55364812), (- 110729625, 110729625), (- 55364812, 55364812)]"

lemma brun_floors: "brun 32 fe_floors fe_before = Some fe_top"
  by code_simp

definition fe_bits :: "nat list" where "fe_bits = [26, 25, 26, 25, 26, 25, 26, 25, 26, 25]"

lemma less10: "i < 10 \<longleftrightarrow> i \<in> set [0, 1, 2, 3, 4, 5, 6, 7, 8, 9 :: nat]"
  by auto

lemma all10: "list_all P [0, 1, 2, 3, 4, 5, 6, 7, 8, 9 :: nat] \<Longrightarrow> i < 10 \<Longrightarrow> P i"
  unfolding less10 list_all_iff by blast

lemma fe_before_within:
  assumes "fe_le 330 h"
  shows "within fe_before (map sint (h[0 := h ! 0 + 19 * fe_quotient h]))"
    and "value_of fe_weights (map sint (h[0 := h ! 0 + 19 * fe_quotient h])) = feval h + 19 * (feval h div p25519)"
proof -
  let ?x = "\<lambda>i. sint (h ! i)"
  have l: "length h = 10" using fe_le_length [OF assms] .
  have b: "- 110729625 \<le> ?x i \<and> ?x i \<le> 110729625" "odd i \<Longrightarrow> - 55364812 \<le> ?x i \<and> ?x i \<le> 55364812" if "i < 10" for i
    using fe_limb_bounds [OF assms that] by (simp_all add: abs_le_iff)
  have q: "- 100 \<le> sint (fe_quotient h)" "sint (fe_quotient h) \<le> 100" using fe_quotient_div(2) [OF assms] by (simp_all add: abs_le_iff)
  have "h ! 0 + 19 * fe_quotient h = of_int (?x 0 + 19 * sint (fe_quotient h))" by simp
  then have s: "sint (h ! 0 + 19 * fe_quotient h) = ?x 0 + 19 * sint (fe_quotient h)"
    using sint_of_int [of "?x 0 + 19 * sint (fe_quotient h)", where ?'a = 32] b(1) [of 0] q by simp
  then have m: "map sint (h[0 := h ! 0 + 19 * fe_quotient h]) = (map sint h)[0 := ?x 0 + 19 * sint (fe_quotient h)]"
    by (simp add: map_update)
  show "within fe_before (map sint (h[0 := h ! 0 + 19 * fe_quotient h]))"
    unfolding m within_def list_all2_conv_all_nth
  proof (intro conjI allI impI)
    fix i assume "i < length fe_before"
    then have i: "i < 10" by (simp add: fe_before_def)
    have "list_all (\<lambda>i. fe_before ! i = (if i = 0 then (- 111000000, 111000000) else if even i then (- 110729625, 110729625) else (- 55364812, 55364812)))
      [0, 1, 2, 3, 4, 5, 6, 7, 8, 9]" by (simp add: fe_before_def)
    from all10 [OF this i] show "fst (fe_before ! i) \<le> (map sint h)[0 := ?x 0 + 19 * sint (fe_quotient h)] ! i"
      "(map sint h)[0 := ?x 0 + 19 * sint (fe_quotient h)] ! i \<le> snd (fe_before ! i)"
      using b [OF i] q i l by (auto simp: nth_list_update)
  qed (simp add: fe_before_def l)
  show "value_of fe_weights (map sint (h[0 := h ! 0 + 19 * fe_quotient h])) = feval h + 19 * (feval h div p25519)"
  proof -
    have w: "length fe_weights = 10" "fe_weights ! 0 = 1" by (simp_all add: fe_weights_def)
    show ?thesis unfolding m using l w by (simp only: value_of_update length_map zero_less_numeral fe_quotient_ok [OF assms]) (simp add: feval_def)
  qed
qed

lemma top_limb:
  fixes y :: "int list" and H :: int
  assumes y: "\<And>i. i < 9 \<Longrightarrow> 0 \<le> y ! i \<and> y ! i < 2 ^ (fe_bits ! i)" and v: "value_of fe_weights y = H + 19 * (H div p25519)" and l: "length y = 10"
  shows "y ! 9 = 2 ^ 25 * (H div p25519) + H mod p25519 div 2 ^ 230" and "value_of fe_weights (y[9 := H mod p25519 div 2 ^ 230]) = H mod p25519"
proof -
  define q where "q = H div p25519"
  define r where "r = H mod p25519"
  define low where "low = y ! 0 + 2 ^ 26 * y ! 1 + 2 ^ 51 * y ! 2 + 2 ^ 77 * y ! 3 + 2 ^ 102 * y ! 4 + 2 ^ 128 * y ! 5
    + 2 ^ 153 * y ! 6 + 2 ^ 179 * y ! 7 + 2 ^ 204 * y ! 8"
  have low: "0 \<le> low" "low < 2 ^ 230"
    using y [of 0] y [of 1] y [of 2] y [of 3] y [of 4] y [of 5] y [of 6] y [of 7] y [of 8] by (simp_all add: low_def fe_bits_def)
  have "H = 2 ^ 255 * q - 19 * q + r" using div_mult_mod_eq [of H p25519] by (simp add: q_def r_def p25519_def algebra_simps)
  moreover have "value_of fe_weights y = low + 2 ^ 230 * y ! 9" unfolding value10 low_def by simp
  moreover have "value_of fe_weights y = H + 19 * q" using v by (simp only: q_def)
  ultimately have e: "low + 2 ^ 230 * y ! 9 = 2 ^ 230 * (2 ^ 25 * q) + r" by simp
  have "y ! 9 = (low + 2 ^ 230 * y ! 9) div 2 ^ 230" using low by simp
  also have "\<dots> = 2 ^ 25 * q + r div 2 ^ 230" unfolding e by simp
  finally show y9: "y ! 9 = 2 ^ 25 * (H div p25519) + H mod p25519 div 2 ^ 230" by (simp only: q_def r_def)
  have "value_of fe_weights (y[9 := H mod p25519 div 2 ^ 230]) = low + 2 ^ 230 * (r div 2 ^ 230)"
    unfolding value10 low_def r_def using l by simp
  also have "\<dots> = r" using e y9 by (simp add: q_def [symmetric] r_def [symmetric])
  finally show "value_of fe_weights (y[9 := H mod p25519 div 2 ^ 230]) = H mod p25519" by (simp only: r_def)
qed

lemma fe_floored:
  assumes "fe_le 330 h"
  obtains y where "length y = 10" and "map sint (run fe_floors (h[0 := h ! 0 + 19 * fe_quotient h])) = y"
    and "\<And>i. i < 9 \<Longrightarrow> 0 \<le> y ! i \<and> y ! i < 2 ^ (fe_bits ! i)" and "value_of fe_weights y = feval h + 19 * (feval h div p25519)"
proof -
  let ?y = "map sint (run fe_floors (h[0 := h ! 0 + 19 * fe_quotient h]))"
  have k: "list_all (keeps 0 fe_weights) fe_floors" by (simp add: fe_floors_def fe_weights_def)
  have w: "length fe_weights = length (h[0 := h ! 0 + 19 * fe_quotient h])" using fe_le_length [OF assms] by (simp add: fe_weights_def)
  have b: "brun LENGTH(32) fe_floors fe_before = Some fe_top" using brun_floors by simp
  have R: "within fe_top ?y" "value_of fe_weights ?y = feval h + 19 * (feval h div p25519)"
    using run_sound [OF b fe_before_within(1) [OF assms] k w] unfolding fe_before_within(2) [OF assms] by simp_all
  have y: "0 \<le> ?y ! i \<and> ?y ! i < 2 ^ (fe_bits ! i)" if "i < 9" for i
  proof -
    have "list_all (\<lambda>i. i < 9 \<longrightarrow> fe_top ! i = (0, 2 ^ (fe_bits ! i) - 1)) [0, 1, 2, 3, 4, 5, 6, 7, 8, 9]" by (simp add: fe_top_def fe_bits_def)
    from all10 [OF this, of i] have "fe_top ! i = (0, 2 ^ (fe_bits ! i) - 1)" using that by simp
    moreover have "i < length fe_top" using that by (simp add: fe_top_def)
    ultimately show ?thesis using within_nth [OF R(1), of i] by simp
  qed
  show thesis by (rule that [OF _ refl y R(2)]) (use within_length [OF R(1)] in \<open>simp_all add: fe_top_def\<close>)
qed

lemma canonical_digits:
  fixes y :: "int list" and H :: int
  assumes "\<And>i. i < 9 \<Longrightarrow> 0 \<le> y ! i \<and> y ! i < 2 ^ (fe_bits ! i)" and "length y = 10" and "i < 10" and "z = y[9 := H mod p25519 div 2 ^ 230]"
  shows "0 \<le> z ! i" and "z ! i < 2 ^ (fe_bits ! i)"
proof -
  have "0 \<le> z ! i \<and> z ! i < 2 ^ (fe_bits ! i)"
  proof (cases "i = 9")
    case True
    have "0 \<le> H mod p25519" "H mod p25519 < 2 ^ 255" using pos_mod_bound [of p25519 H] by (simp_all add: p25519_def)
    then have "0 \<le> H mod p25519 div 2 ^ 230" "H mod p25519 div 2 ^ 230 < 2 ^ 25" by simp_all
    then show ?thesis using True assms(2,4) by (simp add: fe_bits_def)
  next
    case False
    then show ?thesis using assms(1) [of i] assms(2-4) by simp
  qed
  then show "0 \<le> z ! i" "z ! i < 2 ^ (fe_bits ! i)" by simp_all
qed

lemma fe_canonical_digits:
  assumes "fe_le 330 h"
  obtains ds where "length ds = 10" and "fe_canonical h = map of_nat ds" and "\<And>i. i < 10 \<Longrightarrow> ds ! i < 2 ^ (fe_bits ! i)"
    and "value_of fe_weights (map int ds) = feval h mod p25519"
proof -
  let ?s = "run fe_floors (h[0 := h ! 0 + 19 * fe_quotient h])"
  obtain y where y: "length y = 10" "map sint ?s = y" "\<And>i. i < 9 \<Longrightarrow> 0 \<le> y ! i \<and> y ! i < 2 ^ (fe_bits ! i)"
    "value_of fe_weights y = feval h + 19 * (feval h div p25519)"
    using fe_floored [OF assms] by metis
  define r where "r = feval h mod p25519 div 2 ^ 230"
  define q where "q = feval h div p25519"
  define z where "z = y[9 := r]"
  have t: "y ! 9 = 2 ^ 25 * q + r" "value_of fe_weights (y[9 := r]) = feval h mod p25519"
    using top_limb [OF y(3,4,1)] by (simp_all only: q_def r_def)
  have zz: "z = y[9 := feval h mod p25519 div 2 ^ 230]" by (simp only: z_def r_def)
  have d: "0 \<le> z ! i" "z ! i < 2 ^ (fe_bits ! i)" if "i < 10" for i
    by (rule canonical_digits [OF _ y(1) that zz], erule y(3))+
  have sl: "length ?s = 10" using y(1,2) by (metis length_map)
  have s9: "sint (?s ! 9) = y ! 9" using y(2) sl nth_map [of 9 ?s sint] by simp
  have c: "fe_canonical h = ?s[9 := ?s ! 9 - push_bit 25 (signed_drop_bit 25 (?s ! 9))]" by (simp only: fe_canonical_def Let_def)
  have r: "0 \<le> r" "r < 2 ^ 25" using d [of 9] y(1) by (simp_all add: z_def fe_bits_def)
  have "y ! 9 div 2 ^ 25 = q" unfolding t(1) using r by simp
  then have "sint (signed_drop_bit 25 (?s ! 9)) = q" by (simp add: sint_signed_drop_bit_eq s9 drop_bit_eq_div)
  then have "signed_drop_bit 25 (?s ! 9) = of_int q" by (metis word_of_sint)
  moreover have "?s ! 9 = of_int (2 ^ 25 * q + r)" using s9 t(1) by (metis word_of_sint)
  ultimately have w9: "?s ! 9 - push_bit 25 (signed_drop_bit 25 (?s ! 9)) = of_int r" by (simp add: push_bit_eq_mult)
  let ?ds = "map nat z"
  show thesis
  proof (rule that [of ?ds])
    show "length ?ds = 10" using y(1) by (simp add: z_def)
    show "?ds ! i < 2 ^ (fe_bits ! i)" if "i < 10" for i using d [OF that] that y(1) by (simp add: z_def nat_less_iff)
    have "map int ?ds = z" by (rule nth_equalityI) (use d(1) y(1) in \<open>simp_all add: z_def\<close>)
    then show "value_of fe_weights (map int ?ds) = feval h mod p25519" using t(2) by (simp add: z_def)
    show "fe_canonical h = map of_nat ?ds" unfolding c w9
    proof (rule nth_equalityI)
      fix i assume "i < length (?s[9 := of_int r])"
      then have i: "i < 10" using sl by simp
      have "(of_nat (?ds ! i) :: i32) = of_int (z ! i)" using i y(1) d(1) [OF i] by (simp add: z_def)
      also have "\<dots> = ?s[9 := of_int r] ! i"
      proof (cases "i = 9")
        case False
        then have "z ! i = sint (?s ! i)" using y(1,2) i sl nth_map [of i ?s sint] by (simp add: z_def)
        then show ?thesis using False by simp
      qed (use y(1) sl in \<open>simp add: z_def\<close>)
      finally show "?s[9 := of_int r] ! i = map of_nat ?ds ! i" using i y(1) by (simp add: z_def)
    qed (use y(1) sl in \<open>simp add: z_def\<close>)
  qed
qed

subsection \<open>The bytes\<close>

definition fe_join :: "nat list \<Rightarrow> nat" where "fe_join ds = joinb (zip fe_bits ds)"

lemma list10:
  assumes "length ds = 10"
  shows "ds = [ds ! 0, ds ! 1, ds ! 2, ds ! 3, ds ! 4, ds ! 5, ds ! 6, ds ! 7, ds ! 8, ds ! 9]"
proof -
  have "map ((!) ds) [0..<10] = ds" using map_nth [of ds] assms by simp
  then show ?thesis by (simp add: upto10)
qed

lemma fe_join_value:
  assumes "length ds = 10"
  shows "int (fe_join ds) = value_of fe_weights (map int ds)"
proof -
  have "int (joinb (zip fe_bits [d0, d1, d2, d3, d4, d5, d6, d7, d8, d9]))
      = value_of fe_weights (map int [d0, d1, d2, d3, d4, d5, d6, d7, d8, d9])" for d0 d1 d2 d3 d4 d5 d6 d7 d8 d9
    by (simp add: joinb_def fe_bits_def fe_weights_def value_of_Cons value_of_Nil algebra_simps)
  then show ?thesis unfolding fe_join_def by (subst (1 2) list10 [OF assms])
qed

lemma fe_store_ok:
  assumes "length ds = 10" and d: "\<And>i. i < 10 \<Longrightarrow> ds ! i < 2 ^ (fe_bits ! i)"
  shows "length (fe_store (map of_nat ds)) = 32 \<and> le_nat (fe_store (map of_nat ds)) = fe_join ds mod 2 ^ 256"
proof -
  let ?b = "\<lambda>k. of_nat (fe_join ds div 256 ^ k) :: byte" and ?l = "zip fe_bits ds" and ?s = "map of_nat ds :: i32 list"
  have n: "?s ! 0 = of_nat (ds ! 0)" "?s ! 1 = of_nat (ds ! 1)" "?s ! 2 = of_nat (ds ! 2)" "?s ! 3 = of_nat (ds ! 3)"
    "?s ! 4 = of_nat (ds ! 4)" "?s ! 5 = of_nat (ds ! 5)" "?s ! 6 = of_nat (ds ! 6)" "?s ! 7 = of_nat (ds ! 7)"
    "?s ! 8 = of_nat (ds ! 8)" "?s ! 9 = of_nat (ds ! 9)" using assms(1) by simp_all
  have len: "length fe_bits = 10" by (simp add: fe_bits_def)
  have f: "fst (?l ! i) = fe_bits ! i" "snd (?l ! i) = ds ! i" if "i < 10" for i using that assms(1) len by simp_all
  have ok: "digits_ok (take i ?l)" for i
    unfolding digits_ok_def list_all_length using f d assms(1) len by (simp add: split_beta)
  have o: "offs ?l i = [0, 26, 51, 77, 102, 128, 153, 179, 204, 230] ! i" if "i < 10" for i
  proof -
    have "offs ?l i = sum_list (take i fe_bits)" using assms(1) len by (simp add: offs_def take_map [symmetric] del: take_map)
    moreover have "sum_list (take i fe_bits) = [0, 26, 51, 77, 102, 128, 153, 179, 204, 230] ! i"
      by (rule all10 [OF _ that]) (simp add: fe_bits_def)
    ultimately show ?thesis by (simp only:)
  qed
  have B: "25 \<le> fe_bits ! i \<and> fe_bits ! i \<le> 26" if "i < 10" for i
    by (rule all10 [OF _ that]) (simp add: fe_bits_def)
  have A': "(ucast (signed_drop_bit r (of_nat (ds ! i) :: i32)) :: byte) = ?b k"
    if "8 * k = e + r" "[0, 26, 51, 77, 102, 128, 153, 179, 204, 230] ! i = e" "i < 10" "fe_bits ! i = b" "r + 8 \<le> b \<or> i = 9" for k i r e b
  proof -
    have "fe_bits ! i \<le> LENGTH(32) - 1" using B [OF that(3)] by simp
    then have "(2 :: nat) ^ (fe_bits ! i) \<le> 2 ^ (LENGTH(32) - 1)" by (rule power_increasing) simp
    then have "ds ! i < 2 ^ (LENGTH(32) - 1)" using d [OF that(3)] by (rule less_le_trans [rotated])
    moreover have "r + 8 \<le> b \<or> 9 \<le> i" using that(5) by auto
    ultimately show ?thesis
      using store_byte [of k ?l i r, where 'a = 32] that o [OF that(3)] f [OF that(3)] ok [of i] d [OF that(3)] len assms(1)
      by (simp add: fe_join_def)
  qed
  note A = A' [OF _ _ _ _ disjI1] and L = A' [OF _ _ _ _ disjI2]
  have B2: "(ucast (signed_drop_bit r (of_nat (ds ! i) :: i32) OR push_bit t (of_nat (ds ! j))) :: byte) = ?b k"
    if "8 * k = e + r" "[0, 26, 51, 77, 102, 128, 153, 179, 204, 230] ! i = e" "17 < r" "r < b" "fe_bits ! i = b" "j = Suc i" "t = b - r" "i < 9" for k i r j t e b
  proof -
    have i: "i < 10" "Suc i < 10" using that by simp_all
    have "8 + r - fe_bits ! i \<le> fe_bits ! Suc i" using B [OF i(2)] that(4,5) by linarith
    then show ?thesis
      using store_byte2 [of k ?l i r t, where 'a = 32] that o [OF i(1)] f [OF i(1)] f [OF i(2)] ok [of "Suc i"] d [OF i(2)] B [OF i(1)] B [OF i(2)] len assms(1)
      by (simp add: fe_join_def)
  qed
  have bits: "fe_bits ! 0 = 26" "fe_bits ! 1 = 25" "fe_bits ! 2 = 26" "fe_bits ! 3 = 25" "fe_bits ! 4 = 26" "fe_bits ! 5 = 25"
    "fe_bits ! 6 = 26" "fe_bits ! 7 = 25" "fe_bits ! 8 = 26" "fe_bits ! 9 = 25"
    by (simp_all add: fe_bits_def)
  have tab: "[0, 26, 51, 77, 102, 128, 153, 179, 204, 230] ! 0 = (0 :: nat)" "[0, 26, 51, 77, 102, 128, 153, 179, 204, 230] ! 1 = (26 :: nat)" "[0, 26, 51, 77, 102, 128, 153, 179, 204, 230] ! 2 = (51 :: nat)" "[0, 26, 51, 77, 102, 128, 153, 179, 204, 230] ! 3 = (77 :: nat)" "[0, 26, 51, 77, 102, 128, 153, 179, 204, 230] ! 4 = (102 :: nat)" "[0, 26, 51, 77, 102, 128, 153, 179, 204, 230] ! 5 = (128 :: nat)" "[0, 26, 51, 77, 102, 128, 153, 179, 204, 230] ! 6 = (153 :: nat)" "[0, 26, 51, 77, 102, 128, 153, 179, 204, 230] ! 7 = (179 :: nat)" "[0, 26, 51, 77, 102, 128, 153, 179, 204, 230] ! 8 = (204 :: nat)" "[0, 26, 51, 77, 102, 128, 153, 179, 204, 230] ! 9 = (230 :: nat)"
    by simp_all
  have "fe_store ?s = map ?b [0, 1, 2, 3, 4, 5, 6, 7, 8, 9, 10, 11, 12, 13, 14, 15, 16, 17, 18, 19, 20, 21, 22, 23, 24, 25, 26, 27, 28, 29, 30, 31]"
    unfolding fe_store_def n list.map
    by (simp only: A [of 0 0 0 0 26, unfolded signed_drop_bit_0] A [of 1 0 8 0 26] A [of 2 0 16 0 26] A [of 4 26 6 1 25] A [of 5 26 14 1 25] A [of 7 51 5 2 26] A [of 8 51 13 2 26] A [of 10 77 3 3 25]
        A [of 11 77 11 3 25] A [of 13 102 2 4 26] A [of 14 102 10 4 26] A [of 15 102 18 4 26] A [of 16 128 0 5 25, unfolded signed_drop_bit_0] A [of 17 128 8 5 25] A [of 18 128 16 5 25] A [of 20 153 7 6 26]
        A [of 21 153 15 6 26] A [of 23 179 5 7 25] A [of 24 179 13 7 25] A [of 26 204 4 8 26] A [of 27 204 12 8 26] A [of 29 230 2 9 25] A [of 30 230 10 9 25] L [of 31 230 18 9 25]
        B2 [of 3 0 24 0 26 1 2] B2 [of 6 26 22 1 25 2 3] B2 [of 9 51 21 2 26 3 5] B2 [of 12 77 19 3 25 4 6] B2 [of 19 128 24 5 25 6 1] B2 [of 22 153 23 6 26 7 3] B2 [of 25 179 21 7 25 8 4] B2 [of 28 204 20 8 26 9 6] bits tab)
  also have "[0, 1, 2, 3, 4, 5, 6, 7, 8, 9, 10, 11, 12, 13, 14, 15, 16, 17, 18, 19, 20, 21, 22, 23, 24, 25, 26, 27, 28, 29, 30, 31] = [0..<32 :: nat]"
    by code_simp
  finally show ?thesis by (simp add: le_nat_of_digits)
qed

theorem FeToBytes_ok:
  assumes "fe_le 330 h" and "FeToBytes h = (s, h')"
  shows "length s = 32 \<and> int (le_nat s) = feval h mod p25519 \<and> feval h' = feval h mod p25519 \<and> fe_le 200 h'"
proof -
  obtain ds where ds: "length ds = 10" "fe_canonical h = map of_nat ds" "\<And>i. i < 10 \<Longrightarrow> ds ! i < 2 ^ (fe_bits ! i)"
    "value_of fe_weights (map int ds) = feval h mod p25519"
    using fe_canonical_digits [OF assms(1)] by metis
  have h': "h' = map of_nat ds" "s = fe_store (map of_nat ds)" using assms(2) ds(2) by (auto simp: FeToBytes_def Let_def)
  note S = fe_store_ok [OF ds(1,3)]
  have B: "2 ^ (fe_bits ! i) = 2 * half i \<and> fe_bits ! i \<le> 26" if "i < 10" for i
    by (rule all10 [OF _ that]) (simp add: fe_bits_def half_def)
  have J: "int (fe_join ds) = feval h mod p25519" using fe_join_value [OF ds(1)] ds(4) by simp
  have "feval h mod p25519 < 2 ^ 256" using pos_mod_bound [of p25519 "feval h"] by (simp add: p25519_def)
  then have "fe_join ds < 2 ^ 256" unfolding J [symmetric] by simp
  then have s: "length s = 32" "int (le_nat s) = feval h mod p25519" using S J unfolding h'(2) by simp_all
  have d: "sint (h' ! i) = int (ds ! i)" "int (ds ! i) \<le> 2 * half i" if "i < 10" for i
  proof -
    have l: "int (ds ! i) < 2 ^ (fe_bits ! i)" using ds(3) [OF that] by (metis of_nat_less_iff of_nat_numeral of_nat_power)
    then show "int (ds ! i) \<le> 2 * half i" using B [OF that] by simp
    have "(2 :: nat) ^ (fe_bits ! i) \<le> 2 ^ 26" using B [OF that] by (intro power_increasing) simp_all
    then have "ds ! i < 2 ^ 31" using ds(3) [OF that] by simp
    then show "sint (h' ! i) = int (ds ! i)" using shift_of_nat(2) [of "ds ! i", where ?'a = 32] that ds(1) by (simp add: h')
  qed
  have "fe_le 200 h'" using d ds(1) by (simp add: fe_le_def h'(1))
  moreover have "map sint h' = map int ds" by (rule nth_equalityI) (use d ds(1) in \<open>simp_all add: h'(1)\<close>)
  ultimately show ?thesis using s ds(4) by (simp add: feval_def)
qed

lemma le_nat_inj: "length s = length t \<Longrightarrow> le_nat s = le_nat t \<Longrightarrow> s = t"
proof (induction s t rule: list_induct2)
  case (Cons a s b t)
  have "(unat a + 256 * le_nat s) mod 256 = (unat b + 256 * le_nat t) mod 256" using Cons.prems by simp
  then have "unat a = unat b" using byte_bound [of a] byte_bound [of b] by simp
  moreover from this have "a = b" by (rule word_unat_eq_iff [THEN iffD2])
  ultimately show ?case using Cons by simp
qed simp

text \<open>What is written depends on the class modulo the prime only; reading it back gives the element.\<close>

theorem FeToBytes_canonical:
  assumes "fe_le 330 f" and "fe_le 330 g"
  shows "fst (FeToBytes f) = fst (FeToBytes g) \<longleftrightarrow> feq (feval f) (feval g)"
proof -
  note F = FeToBytes_ok [OF assms(1), of "fst (FeToBytes f)" "snd (FeToBytes f)"] and G = FeToBytes_ok [OF assms(2), of "fst (FeToBytes g)" "snd (FeToBytes g)"]
  show ?thesis unfolding feq_def using F G le_nat_inj [of "fst (FeToBytes f)" "fst (FeToBytes g)"] by auto
qed

theorem FeBytes_roundtrip:
  assumes "fe_le 330 h"
  shows "feq (feval (FeFromBytes (fst (FeToBytes h)))) (feval h)"
proof -
  let ?s = "fst (FeToBytes h)"
  have s: "length ?s = 32" "int (le_nat ?s) = feval h mod p25519" using FeToBytes_ok [OF assms, of ?s "snd (FeToBytes h)"] by simp_all
  have "int (le_nat ?s) < 2 ^ 255" unfolding s(2) using pos_mod_bound [of p25519 "feval h"] by (simp add: p25519_def)
  then have "int (le_nat ?s mod 2 ^ 255) = feval h mod p25519" using s(2) by simp
  then show ?thesis using FeFromBytes_ok(2) [OF s(1)] by (simp add: feq_def)
qed

lemma bytes_parts:
  assumes "fe_le 330 f"
  obtains b s h' where "FeToBytes f = (b # s, h')" and "int (unat b + 256 * le_nat s) = feval f mod p25519"
proof -
  obtain t h' where t: "FeToBytes f = (t, h')" by fastforce
  obtain b s where "t = b # s" using FeToBytes_ok [OF assms t] by (cases t) auto
  then show thesis using that [of b s h'] FeToBytes_ok [OF assms t] t by simp
qed

theorem FeIsNegative_ok:
  assumes "fe_le 330 f"
  shows "fst (FeIsNegative f) = of_int (feval f mod p25519 mod 2)"
proof -
  obtain b s h' where b: "FeToBytes f = (b # s, h')" "int (unat b + 256 * le_nat s) = feval f mod p25519" by (rule bytes_parts [OF assms])
  have "b AND 1 = take_bit 1 b" by (rule bit_word_eqI) (auto simp: bit_simps bit_0)
  also have "take_bit 1 b = take_bit 1 (of_nat (unat b))" by simp
  also have "\<dots> = of_nat (take_bit 1 (unat b))" by (rule take_bit_of_nat)
  also have "take_bit 1 (unat b) = (unat b + 256 * le_nat s) mod 2" by (simp add: take_bit_eq_mod mod_add_eq [of "unat b" 2 "256 * le_nat s", symmetric])
  finally have "b AND 1 = of_nat ((unat b + 256 * le_nat s) mod 2)" .
  moreover have "feval f mod p25519 mod 2 = int ((unat b + 256 * le_nat s) mod 2)"
    by (simp only: b(2) [symmetric] zmod_int of_nat_numeral)
  ultimately show ?thesis by (simp only: FeIsNegative_def b(1) Let_def prod.case fst_conv nth_Cons_0 of_int_of_nat_eq)
qed

lemma foldl_or_zero: "foldl (OR) x bs = 0 \<longleftrightarrow> x = 0 \<and> list_all (\<lambda>b. b = 0) bs" for x :: byte
  by (induction bs arbitrary: x) (auto simp: or_eq_0_iff)

lemma le_nat_zero: "le_nat bs = 0 \<longleftrightarrow> list_all (\<lambda>b. b = 0) bs"
  by (induction bs) (auto simp: unat_eq_zero)

lemma less8: "n < 8 \<longleftrightarrow> n \<in> set [0, 1, 2, 3, 4, 5, 6, 7 :: nat]"
  by auto

lemma any_bit: "(let x = x OR drop_bit 4 x; x = x OR drop_bit 2 x; x = x OR drop_bit 1 x in x AND 1) = (if x = 0 then 0 else 1)" for x :: byte
proof -
  let ?r = "let x = x OR drop_bit 4 x; x = x OR drop_bit 2 x; x = x OR drop_bit 1 x in x AND 1"
  have z: "x = 0 \<longleftrightarrow> \<not> (\<exists>m \<in> set [0, 1, 2, 3, 4, 5, 6, 7]. bit x m)" 
    by (simp only: bit_eq_iff Bex_def less8 [symmetric]) (auto simp: bit_simps dest: bit_imp_le_length)
  have "bit ?r n \<longleftrightarrow> n = 0 \<and> (\<exists>m \<in> set [0, 1, 2, 3, 4, 5, 6, 7]. bit x m)" for n
    by (auto simp: Let_def bit_or_iff bit_and_iff bit_drop_bit_eq bit_1_iff simp flip: numeral_2_eq_2 numeral_3_eq_3)
  then show ?thesis unfolding z by (intro bit_word_eqI) (simp add: bit_1_iff)
qed

theorem FeIsNonZero_ok:
  assumes "fe_le 330 f"
  shows "fst (FeIsNonZero f) = (if feq (feval f) 0 then 0 else 1)"
proof -
  obtain t h' where t: "FeToBytes f = (t, h')" by fastforce
  have "feq (feval f) 0 \<longleftrightarrow> le_nat t = 0" using FeToBytes_ok [OF assms t] by (auto simp: feq_def)
  moreover have "fst (FeIsNonZero f) = ucast (if foldl (OR) 0 t = 0 then 0 else 1 :: byte)"
    unfolding FeIsNonZero_def t any_bit [symmetric] by (simp add: Let_def)
  ultimately show ?thesis by (simp add: foldl_or_zero le_nat_zero)
qed

end
