(* ===== verification/Ge25519.thy ===== *)
theory Ge25519
  imports FeBytes
begin

text \<open>
  The group of the curve (\<open>ed25519/edwards25519/edwards25519.go\<close>): points of
  \<open>- x ^ 2 + y ^ 2 = 1 + d * x ^ 2 * y ^ 2\<close> in the projective, extended, completed, precomputed and
  cached coordinates of the package. \<open>ext_is P x y\<close> says which affine point an element stands for;
  the operations are shown to follow the addition law of the curve (\<open>ed_sum\<close>), and reading an
  element to accept points of the curve only.
\<close>

unbundle bit_operations_syntax

section \<open>Constants\<close>

definition fe_d :: FieldElement where
  "fe_d = [- 10913610, 13857413, - 15372611, 6949391, 114729, - 8787816, - 6275908, - 3247719, - 18696448, - 12055116]"

definition d2 :: FieldElement where
  "d2 = [- 21827239, - 5839606, - 30745221, 13898782, 229458, 15978800, - 12551817, - 6495438, 29715968, 9444199]"

definition SqrtM1 :: FieldElement where
  "SqrtM1 = [- 32595792, - 7943725, 9377950, 3500415, 12389472, - 272473, - 25146209, - 2005654, 326686, 11406482]"

section \<open>Representations\<close>

record ProjectiveGroupElement = proj_X :: FieldElement proj_Y :: FieldElement proj_Z :: FieldElement

record ExtendedGroupElement = ext_X :: FieldElement ext_Y :: FieldElement ext_Z :: FieldElement ext_T :: FieldElement

record CompletedGroupElement = comp_X :: FieldElement comp_Y :: FieldElement comp_Z :: FieldElement comp_T :: FieldElement

record PreComputedGroupElement = pre_yPlusX :: FieldElement pre_yMinusX :: FieldElement pre_xy2d :: FieldElement

record CachedGroupElement = cached_yPlusX :: FieldElement cached_yMinusX :: FieldElement cached_Z :: FieldElement cached_T2d :: FieldElement

section \<open>Operations\<close>

definition Projective_Zero :: ProjectiveGroupElement where
  "Projective_Zero = \<lparr>proj_X = FeZero, proj_Y = FeOne, proj_Z = FeOne\<rparr>"

definition Projective_Double :: "ProjectiveGroupElement \<Rightarrow> CompletedGroupElement" where
  "Projective_Double p =
     (let X = FeSquare (proj_X p); Z = FeSquare (proj_Y p); T = FeSquare2 (proj_Z p); Y = FeAdd (proj_X p) (proj_Y p);
          t0 = FeSquare Y; Y = FeAdd Z X; Z = FeSub Z X; X = FeSub t0 Y; T = FeSub T Z
      in \<lparr>comp_X = X, comp_Y = Y, comp_Z = Z, comp_T = T\<rparr>)"

definition ge_to_bytes :: "FieldElement \<Rightarrow> FieldElement \<Rightarrow> FieldElement \<Rightarrow> bytes" where
  "ge_to_bytes X Y Z =
     (let recip = FeInvert Z; x = FeMul X recip; y = FeMul Y recip; s = fst (FeToBytes y)
      in s[31 := s ! 31 XOR push_bit 7 (fst (FeIsNegative x))])"

definition Projective_ToBytes :: "ProjectiveGroupElement \<Rightarrow> bytes" where
  "Projective_ToBytes p = ge_to_bytes (proj_X p) (proj_Y p) (proj_Z p)"

definition Extended_Zero :: ExtendedGroupElement where
  "Extended_Zero = \<lparr>ext_X = FeZero, ext_Y = FeOne, ext_Z = FeOne, ext_T = FeZero\<rparr>"

definition Extended_ToProjective :: "ExtendedGroupElement \<Rightarrow> ProjectiveGroupElement" where
  "Extended_ToProjective p = \<lparr>proj_X = ext_X p, proj_Y = ext_Y p, proj_Z = ext_Z p\<rparr>"

definition Extended_Double :: "ExtendedGroupElement \<Rightarrow> CompletedGroupElement" where
  "Extended_Double p = Projective_Double (Extended_ToProjective p)"

definition Extended_ToCached :: "ExtendedGroupElement \<Rightarrow> CachedGroupElement" where
  "Extended_ToCached p =
     \<lparr>cached_yPlusX = FeAdd (ext_Y p) (ext_X p), cached_yMinusX = FeSub (ext_Y p) (ext_X p), cached_Z = ext_Z p,
      cached_T2d = FeMul (ext_T p) d2\<rparr>"

definition Extended_ToBytes :: "ExtendedGroupElement \<Rightarrow> bytes" where
  "Extended_ToBytes p = ge_to_bytes (ext_X p) (ext_Y p) (ext_Z p)"

definition Completed_ToProjective :: "CompletedGroupElement \<Rightarrow> ProjectiveGroupElement" where
  "Completed_ToProjective p =
     \<lparr>proj_X = FeMul (comp_X p) (comp_T p), proj_Y = FeMul (comp_Y p) (comp_Z p), proj_Z = FeMul (comp_Z p) (comp_T p)\<rparr>"

definition Completed_ToExtended :: "CompletedGroupElement \<Rightarrow> ExtendedGroupElement" where
  "Completed_ToExtended p =
     \<lparr>ext_X = FeMul (comp_X p) (comp_T p), ext_Y = FeMul (comp_Y p) (comp_Z p), ext_Z = FeMul (comp_Z p) (comp_T p),
      ext_T = FeMul (comp_X p) (comp_Y p)\<rparr>"

definition PreComputed_Zero :: PreComputedGroupElement where
  "PreComputed_Zero = \<lparr>pre_yPlusX = FeOne, pre_yMinusX = FeOne, pre_xy2d = FeZero\<rparr>"

definition geAdd :: "ExtendedGroupElement \<Rightarrow> CachedGroupElement \<Rightarrow> CompletedGroupElement" where
  "geAdd p q =
     (let X = FeAdd (ext_Y p) (ext_X p); Y = FeSub (ext_Y p) (ext_X p); Z = FeMul X (cached_yPlusX q); Y = FeMul Y (cached_yMinusX q);
          T = FeMul (cached_T2d q) (ext_T p); X = FeMul (ext_Z p) (cached_Z q); t0 = FeAdd X X
      in \<lparr>comp_X = FeSub Z Y, comp_Y = FeAdd Z Y, comp_Z = FeAdd t0 T, comp_T = FeSub t0 T\<rparr>)"

definition geSub :: "ExtendedGroupElement \<Rightarrow> CachedGroupElement \<Rightarrow> CompletedGroupElement" where
  "geSub p q =
     (let X = FeAdd (ext_Y p) (ext_X p); Y = FeSub (ext_Y p) (ext_X p); Z = FeMul X (cached_yMinusX q); Y = FeMul Y (cached_yPlusX q);
          T = FeMul (cached_T2d q) (ext_T p); X = FeMul (ext_Z p) (cached_Z q); t0 = FeAdd X X
      in \<lparr>comp_X = FeSub Z Y, comp_Y = FeAdd Z Y, comp_Z = FeSub t0 T, comp_T = FeAdd t0 T\<rparr>)"

definition geMixedAdd :: "ExtendedGroupElement \<Rightarrow> PreComputedGroupElement \<Rightarrow> CompletedGroupElement" where
  "geMixedAdd p q =
     (let X = FeAdd (ext_Y p) (ext_X p); Y = FeSub (ext_Y p) (ext_X p); Z = FeMul X (pre_yPlusX q); Y = FeMul Y (pre_yMinusX q);
          T = FeMul (pre_xy2d q) (ext_T p); t0 = FeAdd (ext_Z p) (ext_Z p)
      in \<lparr>comp_X = FeSub Z Y, comp_Y = FeAdd Z Y, comp_Z = FeAdd t0 T, comp_T = FeSub t0 T\<rparr>)"

definition geMixedSub :: "ExtendedGroupElement \<Rightarrow> PreComputedGroupElement \<Rightarrow> CompletedGroupElement" where
  "geMixedSub p q =
     (let X = FeAdd (ext_Y p) (ext_X p); Y = FeSub (ext_Y p) (ext_X p); Z = FeMul X (pre_yMinusX q); Y = FeMul Y (pre_yPlusX q);
          T = FeMul (pre_xy2d q) (ext_T p); t0 = FeAdd (ext_Z p) (ext_Z p)
      in \<lparr>comp_X = FeSub Z Y, comp_Y = FeAdd Z Y, comp_Z = FeSub t0 T, comp_T = FeAdd t0 T\<rparr>)"

definition Extended_Add :: "ExtendedGroupElement \<Rightarrow> ExtendedGroupElement \<Rightarrow> ExtendedGroupElement" where
  "Extended_Add a b = Completed_ToExtended (geAdd a (Extended_ToCached b))"

definition Extended_Sub :: "ExtendedGroupElement \<Rightarrow> ExtendedGroupElement \<Rightarrow> ExtendedGroupElement" where
  "Extended_Sub a b = Completed_ToExtended (geSub a (Extended_ToCached b))"

text \<open>
  \<open>FromBytes\<close> writes to its receiver as it goes; the field \<open>T\<close> keeps its value when the result is
  false. \<open>FeIsNonZero\<close>, \<open>FeToBytes\<close> and \<open>FeIsNegative\<close> leave their argument in canonical form.
\<close>

definition from_bytes_sign :: "FieldElement \<Rightarrow> FieldElement \<Rightarrow> FieldElement \<Rightarrow> byte \<Rightarrow> ExtendedGroupElement \<times> bool" where
  "from_bytes_sign X Y Z b =
     (let (neg, X) = FeIsNegative X; X = (if neg \<noteq> drop_bit 7 b then FeNeg X else X)
      in (\<lparr>ext_X = X, ext_Y = Y, ext_Z = Z, ext_T = FeMul X Y\<rparr>, True))"

definition Extended_FromBytes :: "ExtendedGroupElement \<Rightarrow> bytes \<Rightarrow> ExtendedGroupElement \<times> bool" where
  "Extended_FromBytes p s =
     (let Y = FeFromBytes s; Z = FeOne; u = FeSquare Y; v = FeMul u fe_d; u = FeSub u Z; v = FeAdd v Z;
          v3 = FeSquare v; v3 = FeMul v3 v; X = FeSquare v3; X = FeMul X v; X = FeMul X u;
          X = fePow22523 X; X = FeMul X v3; X = FeMul X u;
          vxx = FeSquare X; vxx = FeMul vxx v; check = FeSub vxx u
      in if fst (FeIsNonZero check) = 1 then
           (let check = FeAdd vxx u
            in if fst (FeIsNonZero check) = 1 then (p\<lparr>ext_X := X, ext_Y := Y, ext_Z := Z\<rparr>, False)
               else from_bytes_sign (snd (FeToBytes (FeMul X SqrtM1))) Y Z (s ! 31))
         else from_bytes_sign X Y Z (s ! 31))"

section \<open>Affine points\<close>

text \<open>The constant of the curve, and units modulo the prime.\<close>

definition dd :: int where "dd = feval fe_d"

definition fe_unit :: "int \<Rightarrow> bool" where "fe_unit z \<longleftrightarrow> (\<exists>w. feq (z * w) 1)"

definition on_curve :: "int \<Rightarrow> int \<Rightarrow> bool" where "on_curve x y \<longleftrightarrow> feq (y ^ 2 - x ^ 2) (1 + dd * x ^ 2 * y ^ 2)"

definition ed_sum :: "int \<times> int \<Rightarrow> int \<times> int \<Rightarrow> int \<times> int \<Rightarrow> bool" where
  "ed_sum P Q R \<longleftrightarrow>
     (let (x1, y1) = P; (x2, y2) = Q; (x3, y3) = R; k = dd * x1 * x2 * y1 * y2
      in fe_unit (1 + k) \<and> fe_unit (1 - k) \<and> feq (x3 * (1 + k)) (x1 * y2 + x2 * y1) \<and> feq (y3 * (1 - k)) (y1 * y2 + x1 * x2))"

definition ext_is :: "ExtendedGroupElement \<Rightarrow> int \<times> int \<Rightarrow> bool" where
  "ext_is p P \<longleftrightarrow> fe_le 200 (ext_X p) \<and> fe_le 101 (ext_Y p) \<and> fe_le 101 (ext_Z p) \<and> fe_le 101 (ext_T p) \<and> fe_unit (feval (ext_Z p))
     \<and> feq (feval (ext_X p)) (fst P * feval (ext_Z p)) \<and> feq (feval (ext_Y p)) (snd P * feval (ext_Z p))
     \<and> feq (feval (ext_T p)) (fst P * snd P * feval (ext_Z p))"

definition proj_is :: "ProjectiveGroupElement \<Rightarrow> int \<times> int \<Rightarrow> bool" where
  "proj_is p P \<longleftrightarrow> fe_le 200 (proj_X p) \<and> fe_le 101 (proj_Y p) \<and> fe_le 101 (proj_Z p) \<and> fe_unit (feval (proj_Z p))
     \<and> feq (feval (proj_X p)) (fst P * feval (proj_Z p)) \<and> feq (feval (proj_Y p)) (snd P * feval (proj_Z p))"

definition comp_is :: "CompletedGroupElement \<Rightarrow> int \<times> int \<Rightarrow> bool" where
  "comp_is p P \<longleftrightarrow> fe_le 303 (comp_X p) \<and> fe_le 303 (comp_Y p) \<and> fe_le 303 (comp_Z p) \<and> fe_le 303 (comp_T p)
     \<and> fe_unit (feval (comp_Z p)) \<and> fe_unit (feval (comp_T p))
     \<and> feq (feval (comp_X p)) (fst P * feval (comp_Z p)) \<and> feq (feval (comp_Y p)) (snd P * feval (comp_T p))"

definition cached_is :: "CachedGroupElement \<Rightarrow> int \<times> int \<Rightarrow> bool" where
  "cached_is q P \<longleftrightarrow> fe_le 301 (cached_yPlusX q) \<and> fe_le 301 (cached_yMinusX q) \<and> fe_le 101 (cached_Z q) \<and> fe_le 101 (cached_T2d q)
     \<and> fe_unit (feval (cached_Z q))
     \<and> feq (feval (cached_yPlusX q)) ((snd P + fst P) * feval (cached_Z q)) \<and> feq (feval (cached_yMinusX q)) ((snd P - fst P) * feval (cached_Z q))
     \<and> feq (feval (cached_T2d q)) (2 * dd * fst P * snd P * feval (cached_Z q))"

definition pre_is :: "PreComputedGroupElement \<Rightarrow> int \<times> int \<Rightarrow> bool" where
  "pre_is q P \<longleftrightarrow> fe_le 101 (pre_yPlusX q) \<and> fe_le 101 (pre_yMinusX q) \<and> fe_le 101 (pre_xy2d q)
     \<and> feq (feval (pre_yPlusX q)) (snd P + fst P) \<and> feq (feval (pre_yMinusX q)) (snd P - fst P)
     \<and> feq (feval (pre_xy2d q)) (2 * dd * fst P * snd P)"

lemmas feval_list = feval_def fe_weights_def value_of_Cons value_of_Nil

text \<open>\<open>d = - 121665 / 121666\<close>.\<close>

lemma fe_d_value: "feq (dd * 121666) (- 121665)"
  by (simp add: dd_def fe_d_def feval_list feq_def p25519_def)

lemma d2_value: "feq (feval d2) (2 * dd)"
  by (simp add: dd_def fe_d_def d2_def feval_list feq_def p25519_def)

lemma SqrtM1_value: "feq (feval SqrtM1 * feval SqrtM1) (- 1)"
  by (simp add: SqrtM1_def feval_list feq_def p25519_def)

lemma fe_le_small:
  assumes "length f = 10" and "list_all (\<lambda>i. 100 * \<bar>sint (f ! i)\<bar> \<le> m * half i) [0, 1, 2, 3, 4, 5, 6, 7, 8, 9]"
  shows "fe_le m f"
  using assms all10 [OF assms(2)] by (simp add: fe_le_def)

lemma consts_le: "fe_le 101 fe_d" "fe_le 101 d2" "fe_le 101 SqrtM1"
  by (rule fe_le_small, simp add: fe_d_def d2_def SqrtM1_def, simp add: fe_d_def d2_def SqrtM1_def half_def)+

lemma fe_unit_mult: "fe_unit a \<Longrightarrow> fe_unit b \<Longrightarrow> fe_unit (a * b)"
  unfolding fe_unit_def
proof (elim exE)
  fix v w assume "feq (a * v) 1" and "feq (b * w) 1"
  then have "feq (a * v * (b * w)) (1 * 1)" by (rule feq_mult)
  then have "feq (a * b * (v * w)) 1" by (simp add: ac_simps)
  then show "\<exists>w. feq (a * b * w) 1" by blast
qed

lemma fe_unit_cong: "feq a b \<Longrightarrow> fe_unit a \<longleftrightarrow> fe_unit b"
  unfolding fe_unit_def by (meson feq_mult feq_refl feq_sym feq_trans)

lemma fe_unit_1: "fe_unit 1"
  by (auto simp: fe_unit_def intro: exI [of _ 1])

lemma fe_unit_2: "fe_unit 2"
  unfolding fe_unit_def by (rule exI [of _ "2 ^ 254 - 9"]) (simp add: feq_def p25519_def)

section \<open>The addition law\<close>

text \<open>What the four additions compute from \<open>A = (y1 + x1) (y2 + x2)\<close>, \<open>B = (y1 - x1) (y2 - x2)\<close>, \<open>D = 1\<close> and
  \<open>t = 2 d x1 x2 y1 y2\<close>, each up to a common unit \<open>W\<close>.\<close>

lemma addition_core:
  assumes A: "feq A ((y1 + x1) * (y2 + x2) * W)" and B: "feq B ((y1 - x1) * (y2 - x2) * W)" and D: "feq D W"
    and t: "feq t (2 * (dd * x1 * x2 * y1 * y2) * W)" and W: "fe_unit W" and S: "ed_sum (x1, y1) (x2, y2) R"
  shows "fe_unit (2 * D + t)" and "fe_unit (2 * D - t)"
    and "feq (A - B) (fst R * (2 * D + t))" and "feq (A + B) (snd R * (2 * D - t))"
proof -
  obtain x3 y3 where R: "R = (x3, y3)" by fastforce
  let ?k = "dd * x1 * x2 * y1 * y2"
  have S: "fe_unit (1 + ?k)" "fe_unit (1 - ?k)" "feq (x3 * (1 + ?k)) (x1 * y2 + x2 * y1)" "feq (y3 * (1 - ?k)) (y1 * y2 + x1 * x2)"
    using S by (simp_all add: ed_sum_def R Let_def)
  have Z: "feq (2 * D + t) (2 * W * (1 + ?k))" using feq_add [OF feq_mult [OF feq_refl [of 2] D] t] by (simp add: algebra_simps)
  have T: "feq (2 * D - t) (2 * W * (1 - ?k))" using feq_diff [OF feq_mult [OF feq_refl [of 2] D] t] by (simp add: algebra_simps)
  show "fe_unit (2 * D + t)" "fe_unit (2 * D - t)"
    unfolding fe_unit_cong [OF Z] fe_unit_cong [OF T] using fe_unit_mult fe_unit_2 W S(1,2) by blast+
  have "feq (A - B) (2 * W * (x1 * y2 + x2 * y1))" using feq_diff [OF A B] by (simp add: algebra_simps)
  also have "feq \<dots> (2 * W * (x3 * (1 + ?k)))" by (intro feq_mult feq_refl feq_sym [OF S(3)])
  also have "2 * W * (x3 * (1 + ?k)) = x3 * (2 * W * (1 + ?k))" by (simp only: ac_simps)
  also have "feq \<dots> (x3 * (2 * D + t))" by (intro feq_mult feq_refl feq_sym [OF Z])
  finally show "feq (A - B) (fst R * (2 * D + t))" by (simp only: R fst_conv)
  have "feq (A + B) (2 * W * (y1 * y2 + x1 * x2))" using feq_add [OF A B] by (simp add: algebra_simps)
  also have "feq \<dots> (2 * W * (y3 * (1 - ?k)))" by (intro feq_mult feq_refl feq_sym [OF S(4)])
  also have "2 * W * (y3 * (1 - ?k)) = y3 * (2 * W * (1 - ?k))" by (simp only: ac_simps)
  also have "feq \<dots> (y3 * (2 * D - t))" by (intro feq_mult feq_refl feq_sym [OF T])
  finally show "feq (A + B) (snd R * (2 * D - t))" by (simp only: R snd_conv)
qed

lemma FeMul_le: "fe_le m f \<Longrightarrow> fe_le n g \<Longrightarrow> m \<le> 330 \<Longrightarrow> n \<le> 330 \<Longrightarrow> fe_le 101 (FeMul f g)"
  by (meson FeMul_ok(1) fe_le_mono)

lemma FeMul_feq:
  assumes "fe_le m f" and "fe_le n g" and "m \<le> 330" and "n \<le> 330" and "feq (feval f) a" and "feq (feval g) b"
  shows "feq (feval (FeMul f g)) (a * b)"
  by (meson FeMul_ok(2) fe_le_mono feq_mult feq_trans assms)

lemma sums_ok:
  assumes "fe_le m X" and "fe_le n Y" and "m + n \<le> 6000" and "feq (feval X) (x * Z)" and "feq (feval Y) (y * Z)"
  shows "fe_le (m + n) (FeAdd Y X)" and "fe_le (m + n) (FeSub Y X)"
    and "feq (feval (FeAdd Y X)) ((y + x) * Z)" and "feq (feval (FeSub Y X)) ((y - x) * Z)"
  using FeAdd_ok [OF assms(2,1)] FeSub_ok [OF assms(2,1)] assms(3) feq_add [OF assms(5,4)] feq_diff [OF assms(5,4)]
  by (simp_all add: add.commute distrib_right left_diff_distrib)

text \<open>The final sums of an addition; \<open>t\<close> is added to one denominator and taken from the other.\<close>

lemma completed_ok:
  assumes le: "fe_le 101 A" "fe_le 101 B" "fe_le 101 D" "fe_le 101 T"
    and A: "feq (feval A) ((y1 + x1) * (y2 + x2) * W)" and B: "feq (feval B) ((y1 - x1) * (y2 - x2) * W)" and D: "feq (feval D) W"
    and T: "feq (feval T) (2 * (dd * x1 * x2 * y1 * y2) * W)" and W: "fe_unit W" and S: "ed_sum (x1, y1) (x2, y2) R"
  shows "comp_is \<lparr>comp_X = FeSub A B, comp_Y = FeAdd A B, comp_Z = FeAdd (FeAdd D D) T, comp_T = FeSub (FeAdd D D) T\<rparr> R"
proof -
  note core = addition_core [OF A B D T W S]
  have t0: "fe_le 202 (FeAdd D D)" "feval (FeAdd D D) = 2 * feval D" using FeAdd_ok [OF le(3,3)] by simp_all
  have "fe_le 303 (FeSub A B)" "fe_le 303 (FeAdd A B)" using FeSub_ok(1) [OF le(1,2)] FeAdd_ok(1) [OF le(1,2)] by (simp_all add: fe_le_mono)
  then show ?thesis
    using core FeSub_ok(2) [OF le(1,2)] FeAdd_ok(2) [OF le(1,2)] FeAdd_ok [OF t0(1) le(4)] FeSub_ok [OF t0(1) le(4)] t0(2)
    by (simp add: comp_is_def)
qed

lemma completed_sub_ok:
  assumes le: "fe_le 101 A" "fe_le 101 B" "fe_le 101 D" "fe_le 101 T"
    and A: "feq (feval A) ((y1 + x1) * (y2 - x2) * W)" and B: "feq (feval B) ((y1 - x1) * (y2 + x2) * W)" and D: "feq (feval D) W"
    and T: "feq (feval T) (2 * (dd * x1 * x2 * y1 * y2) * W)" and W: "fe_unit W" and S: "ed_sum (x1, y1) (- x2, y2) R"
  shows "comp_is \<lparr>comp_X = FeSub A B, comp_Y = FeAdd A B, comp_Z = FeSub (FeAdd D D) T, comp_T = FeAdd (FeAdd D D) T\<rparr> R"
proof -
  have T': "feq (- feval T) (2 * (dd * x1 * - x2 * y1 * y2) * W)" using feq_minus [OF T] by simp
  have A': "feq (feval A) ((y1 + x1) * (y2 + - x2) * W)" and B': "feq (feval B) ((y1 - x1) * (y2 - - x2) * W)" using A B by simp_all
  note core = addition_core [OF A' B' D T' W S]
  have t0: "fe_le 202 (FeAdd D D)" "feval (FeAdd D D) = 2 * feval D" using FeAdd_ok [OF le(3,3)] by simp_all
  have "fe_le 303 (FeSub A B)" "fe_le 303 (FeAdd A B)" using FeSub_ok(1) [OF le(1,2)] FeAdd_ok(1) [OF le(1,2)] by (simp_all add: fe_le_mono)
  then show ?thesis
    using core FeSub_ok(2) [OF le(1,2)] FeAdd_ok(2) [OF le(1,2)] FeAdd_ok [OF t0(1) le(4)] FeSub_ok [OF t0(1) le(4)] t0(2)
    by (simp add: comp_is_def)
qed

lemma Completed_ToExtended_ok:
  assumes "comp_is r P"
  shows "ext_is (Completed_ToExtended r) P"
proof -
  have le: "fe_le 303 (comp_X r)" "fe_le 303 (comp_Y r)" "fe_le 303 (comp_Z r)" "fe_le 303 (comp_T r)"
    and u: "fe_unit (feval (comp_Z r))" "fe_unit (feval (comp_T r))"
    and v: "feq (feval (comp_X r)) (fst P * feval (comp_Z r))" "feq (feval (comp_Y r)) (snd P * feval (comp_T r))"
    using assms by (simp_all add: comp_is_def)
  let ?Z = "FeMul (comp_Z r) (comp_T r)"
  have l: "fe_le 101 (FeMul f g)" if "fe_le 303 f" "fe_le 303 g" for f g using FeMul_le [OF that] by simp
  have m: "feq (feval (FeMul f g)) (a * b)" if "fe_le 303 f" "fe_le 303 g" "feq (feval f) a" "feq (feval g) b" for f g a b
    using FeMul_feq [OF that(1,2) _ _ that(3,4)] by simp
  have Z: "feq (feval (comp_Z r) * feval (comp_T r)) (feval ?Z)" using m [OF le(3,4) feq_refl feq_refl] by (rule feq_sym)
  have W: "feq (c * (feval (comp_Z r) * feval (comp_T r))) (c * feval ?Z)" for c by (intro feq_mult feq_refl Z)
  have "fe_unit (feval ?Z)" using fe_unit_mult [OF u] fe_unit_cong [OF Z] by blast
  moreover have "feq (feval (FeMul (comp_X r) (comp_T r))) (fst P * feval ?Z)"
    using feq_trans [OF m [OF le(1,4) v(1) feq_refl], of "fst P * feval ?Z"] W [of "fst P"] by (simp add: ac_simps)
  moreover have "feq (feval (FeMul (comp_Y r) (comp_Z r))) (snd P * feval ?Z)"
    using feq_trans [OF m [OF le(2,3) v(2) feq_refl], of "snd P * feval ?Z"] W [of "snd P"] by (simp add: ac_simps)
  moreover have "feq (feval (FeMul (comp_X r) (comp_Y r))) (fst P * snd P * feval ?Z)"
    using feq_trans [OF m [OF le(1,2) v], of "fst P * snd P * feval ?Z"] W [of "fst P * snd P"] by (simp add: ac_simps)
  ultimately show ?thesis using l le fe_le_mono [OF l [OF le(1,4)], of 200] by (simp add: ext_is_def Completed_ToExtended_def)
qed

lemma Completed_ToProjective_eq: "Completed_ToProjective r = Extended_ToProjective (Completed_ToExtended r)"
  by (simp add: Completed_ToProjective_def Extended_ToProjective_def Completed_ToExtended_def)

lemma Extended_ToProjective_ok: "ext_is p P \<Longrightarrow> proj_is (Extended_ToProjective p) P"
  by (simp add: ext_is_def proj_is_def Extended_ToProjective_def)

lemma Completed_ToProjective_ok: "comp_is r P \<Longrightarrow> proj_is (Completed_ToProjective r) P"
  by (simp add: Completed_ToProjective_eq Extended_ToProjective_ok Completed_ToExtended_ok)

definition ed_neg :: "int \<times> int \<Rightarrow> int \<times> int" where "ed_neg P = (- fst P, snd P)"

lemma Extended_ToCached_ok:
  assumes "ext_is p P"
  shows "cached_is (Extended_ToCached p) P"
proof -
  let ?Z = "feval (ext_Z p)"
  have p: "fe_le 200 (ext_X p)" "fe_le 101 (ext_Y p)" "fe_le 101 (ext_T p)" "feq (feval (ext_X p)) (fst P * ?Z)"
    "feq (feval (ext_Y p)) (snd P * ?Z)" "feq (feval (ext_T p)) (fst P * snd P * ?Z)"
    using assms by (simp_all add: ext_is_def)
  have "feq (feval (FeMul (ext_T p) d2)) (fst P * snd P * ?Z * (2 * dd))"
    by (rule FeMul_feq [OF p(3) consts_le(2) _ _ p(6) d2_value]) simp_all
  then have "feq (feval (FeMul (ext_T p) d2)) (2 * dd * fst P * snd P * ?Z)" by (simp add: ac_simps)
  then show ?thesis
    using assms sums_ok [OF p(1,2) _ p(4,5)] FeMul_le [OF p(3) consts_le(2)] by (simp add: cached_is_def Extended_ToCached_def ext_is_def)
qed

lemma geAdd_ok:
  assumes p: "ext_is p P" and q: "cached_is q Q" and S: "ed_sum P Q R"
  shows "comp_is (geAdd p q) R"
proof -
  obtain x1 y1 x2 y2 where PQ: "P = (x1, y1)" "Q = (x2, y2)" by (cases P, cases Q) auto
  let ?Z = "feval (ext_Z p)" and ?W = "feval (cached_Z q)"
  have p: "fe_le 200 (ext_X p)" "fe_le 101 (ext_Y p)" "fe_le 101 (ext_Z p)" "fe_le 101 (ext_T p)" "fe_unit ?Z"
    "feq (feval (ext_X p)) (x1 * ?Z)" "feq (feval (ext_Y p)) (y1 * ?Z)" "feq (feval (ext_T p)) (x1 * y1 * ?Z)"
    using p by (simp_all add: ext_is_def PQ)
  have q: "fe_le 301 (cached_yPlusX q)" "fe_le 301 (cached_yMinusX q)" "fe_le 101 (cached_Z q)" "fe_le 101 (cached_T2d q)" "fe_unit ?W"
    "feq (feval (cached_yPlusX q)) ((y2 + x2) * ?W)" "feq (feval (cached_yMinusX q)) ((y2 - x2) * ?W)" "feq (feval (cached_T2d q)) (2 * dd * x2 * y2 * ?W)"
    using q by (simp_all add: cached_is_def PQ)
  note s = sums_ok [OF p(1,2) _ p(6,7), simplified]
  have A: "feq (feval (FeMul (FeAdd (ext_Y p) (ext_X p)) (cached_yPlusX q))) ((y1 + x1) * (y2 + x2) * (?Z * ?W))"
    using FeMul_feq [OF s(1) q(1) _ _ s(3) q(6)] by (simp add: ac_simps)
  have B: "feq (feval (FeMul (FeSub (ext_Y p) (ext_X p)) (cached_yMinusX q))) ((y1 - x1) * (y2 - x2) * (?Z * ?W))"
    using FeMul_feq [OF s(2) q(2) _ _ s(4) q(7)] by (simp add: ac_simps)
  have D: "feq (feval (FeMul (ext_Z p) (cached_Z q))) (?Z * ?W)" using FeMul_feq [OF p(3) q(3) _ _ feq_refl feq_refl] by simp
  have T: "feq (feval (FeMul (cached_T2d q) (ext_T p))) (2 * (dd * x1 * x2 * y1 * y2) * (?Z * ?W))"
    using FeMul_feq [OF q(4) p(4) _ _ q(8) p(8)] by (simp add: ac_simps)
  show ?thesis unfolding geAdd_def Let_def
    by (rule completed_ok [OF _ _ _ _ A B D T fe_unit_mult [OF p(5) q(5)] S [unfolded PQ]])
      (use FeMul_le [OF s(1) q(1)] FeMul_le [OF s(2) q(2)] FeMul_le [OF p(3) q(3)] FeMul_le [OF q(4) p(4)] in simp_all)
qed

lemma geSub_ok:
  assumes p: "ext_is p P" and q: "cached_is q Q" and S: "ed_sum P (ed_neg Q) R"
  shows "comp_is (geSub p q) R"
proof -
  obtain x1 y1 x2 y2 where PQ: "P = (x1, y1)" "Q = (x2, y2)" by (cases P, cases Q) auto
  let ?Z = "feval (ext_Z p)" and ?W = "feval (cached_Z q)"
  have p: "fe_le 200 (ext_X p)" "fe_le 101 (ext_Y p)" "fe_le 101 (ext_Z p)" "fe_le 101 (ext_T p)" "fe_unit ?Z"
    "feq (feval (ext_X p)) (x1 * ?Z)" "feq (feval (ext_Y p)) (y1 * ?Z)" "feq (feval (ext_T p)) (x1 * y1 * ?Z)"
    using p by (simp_all add: ext_is_def PQ)
  have q: "fe_le 301 (cached_yPlusX q)" "fe_le 301 (cached_yMinusX q)" "fe_le 101 (cached_Z q)" "fe_le 101 (cached_T2d q)" "fe_unit ?W"
    "feq (feval (cached_yPlusX q)) ((y2 + x2) * ?W)" "feq (feval (cached_yMinusX q)) ((y2 - x2) * ?W)" "feq (feval (cached_T2d q)) (2 * dd * x2 * y2 * ?W)"
    using q by (simp_all add: cached_is_def PQ)
  note s = sums_ok [OF p(1,2) _ p(6,7), simplified]
  have A: "feq (feval (FeMul (FeAdd (ext_Y p) (ext_X p)) (cached_yMinusX q))) ((y1 + x1) * (y2 - x2) * (?Z * ?W))"
    using FeMul_feq [OF s(1) q(2) _ _ s(3) q(7)] by (simp add: ac_simps)
  have B: "feq (feval (FeMul (FeSub (ext_Y p) (ext_X p)) (cached_yPlusX q))) ((y1 - x1) * (y2 + x2) * (?Z * ?W))"
    using FeMul_feq [OF s(2) q(1) _ _ s(4) q(6)] by (simp add: ac_simps)
  have D: "feq (feval (FeMul (ext_Z p) (cached_Z q))) (?Z * ?W)" using FeMul_feq [OF p(3) q(3) _ _ feq_refl feq_refl] by simp
  have T: "feq (feval (FeMul (cached_T2d q) (ext_T p))) (2 * (dd * x1 * x2 * y1 * y2) * (?Z * ?W))"
    using FeMul_feq [OF q(4) p(4) _ _ q(8) p(8)] by (simp add: ac_simps)
  have S': "ed_sum (x1, y1) (- x2, y2) R" using S by (simp add: PQ ed_neg_def)
  show ?thesis unfolding geSub_def Let_def
    by (rule completed_sub_ok [OF _ _ _ _ A B D T fe_unit_mult [OF p(5) q(5)] S'])
      (use FeMul_le [OF s(1) q(2)] FeMul_le [OF s(2) q(1)] FeMul_le [OF p(3) q(3)] FeMul_le [OF q(4) p(4)] in simp_all)
qed

lemma geMixedAdd_ok:
  assumes p: "ext_is p P" and q: "pre_is q Q" and S: "ed_sum P Q R"
  shows "comp_is (geMixedAdd p q) R"
proof -
  obtain x1 y1 x2 y2 where PQ: "P = (x1, y1)" "Q = (x2, y2)" by (cases P, cases Q) auto
  let ?Z = "feval (ext_Z p)"
  have p: "fe_le 200 (ext_X p)" "fe_le 101 (ext_Y p)" "fe_le 101 (ext_Z p)" "fe_le 101 (ext_T p)" "fe_unit ?Z"
    "feq (feval (ext_X p)) (x1 * ?Z)" "feq (feval (ext_Y p)) (y1 * ?Z)" "feq (feval (ext_T p)) (x1 * y1 * ?Z)"
    using p by (simp_all add: ext_is_def PQ)
  have q: "fe_le 101 (pre_yPlusX q)" "fe_le 101 (pre_yMinusX q)" "fe_le 101 (pre_xy2d q)"
    "feq (feval (pre_yPlusX q)) (y2 + x2)" "feq (feval (pre_yMinusX q)) (y2 - x2)" "feq (feval (pre_xy2d q)) (2 * dd * x2 * y2)"
    using q by (simp_all add: pre_is_def PQ)
  note s = sums_ok [OF p(1,2) _ p(6,7), simplified]
  have A: "feq (feval (FeMul (FeAdd (ext_Y p) (ext_X p)) (pre_yPlusX q))) ((y1 + x1) * (y2 + x2) * ?Z)"
    using FeMul_feq [OF s(1) q(1) _ _ s(3) q(4)] by (simp add: ac_simps)
  have B: "feq (feval (FeMul (FeSub (ext_Y p) (ext_X p)) (pre_yMinusX q))) ((y1 - x1) * (y2 - x2) * ?Z)"
    using FeMul_feq [OF s(2) q(2) _ _ s(4) q(5)] by (simp add: ac_simps)
  have T: "feq (feval (FeMul (pre_xy2d q) (ext_T p))) (2 * (dd * x1 * x2 * y1 * y2) * ?Z)"
    using FeMul_feq [OF q(3) p(4) _ _ q(6) p(8)] by (simp add: ac_simps)
  show ?thesis unfolding geMixedAdd_def Let_def
    by (rule completed_ok [OF _ _ _ _ A B feq_refl T p(5) S [unfolded PQ]])
      (use FeMul_le [OF s(1) q(1)] FeMul_le [OF s(2) q(2)] p(3) FeMul_le [OF q(3) p(4)] in simp_all)
qed

lemma geMixedSub_ok:
  assumes p: "ext_is p P" and q: "pre_is q Q" and S: "ed_sum P (ed_neg Q) R"
  shows "comp_is (geMixedSub p q) R"
proof -
  obtain x1 y1 x2 y2 where PQ: "P = (x1, y1)" "Q = (x2, y2)" by (cases P, cases Q) auto
  let ?Z = "feval (ext_Z p)"
  have p: "fe_le 200 (ext_X p)" "fe_le 101 (ext_Y p)" "fe_le 101 (ext_Z p)" "fe_le 101 (ext_T p)" "fe_unit ?Z"
    "feq (feval (ext_X p)) (x1 * ?Z)" "feq (feval (ext_Y p)) (y1 * ?Z)" "feq (feval (ext_T p)) (x1 * y1 * ?Z)"
    using p by (simp_all add: ext_is_def PQ)
  have q: "fe_le 101 (pre_yPlusX q)" "fe_le 101 (pre_yMinusX q)" "fe_le 101 (pre_xy2d q)"
    "feq (feval (pre_yPlusX q)) (y2 + x2)" "feq (feval (pre_yMinusX q)) (y2 - x2)" "feq (feval (pre_xy2d q)) (2 * dd * x2 * y2)"
    using q by (simp_all add: pre_is_def PQ)
  note s = sums_ok [OF p(1,2) _ p(6,7), simplified]
  have A: "feq (feval (FeMul (FeAdd (ext_Y p) (ext_X p)) (pre_yMinusX q))) ((y1 + x1) * (y2 - x2) * ?Z)"
    using FeMul_feq [OF s(1) q(2) _ _ s(3) q(5)] by (simp add: ac_simps)
  have B: "feq (feval (FeMul (FeSub (ext_Y p) (ext_X p)) (pre_yPlusX q))) ((y1 - x1) * (y2 + x2) * ?Z)"
    using FeMul_feq [OF s(2) q(1) _ _ s(4) q(4)] by (simp add: ac_simps)
  have T: "feq (feval (FeMul (pre_xy2d q) (ext_T p))) (2 * (dd * x1 * x2 * y1 * y2) * ?Z)"
    using FeMul_feq [OF q(3) p(4) _ _ q(6) p(8)] by (simp add: ac_simps)
  have S': "ed_sum (x1, y1) (- x2, y2) R" using S by (simp add: PQ ed_neg_def)
  show ?thesis unfolding geMixedSub_def Let_def
    by (rule completed_sub_ok [OF _ _ _ _ A B feq_refl T p(5) S'])
      (use FeMul_le [OF s(1) q(2)] FeMul_le [OF s(2) q(1)] p(3) FeMul_le [OF q(3) p(4)] in simp_all)
qed

theorem Extended_Add_ok:
  assumes "ext_is a P" and "ext_is b Q" and "ed_sum P Q R"
  shows "ext_is (Extended_Add a b) R"
  unfolding Extended_Add_def
  by (rule Completed_ToExtended_ok [OF geAdd_ok [OF assms(1) Extended_ToCached_ok [OF assms(2)] assms(3)]])

theorem Extended_Sub_ok:
  assumes "ext_is a P" and "ext_is b Q" and "ed_sum P (ed_neg Q) R"
  shows "ext_is (Extended_Sub a b) R"
  unfolding Extended_Sub_def
  by (rule Completed_ToExtended_ok [OF geSub_ok [OF assms(1) Extended_ToCached_ok [OF assms(2)] assms(3)]])

lemma FeSquare_feq:
  assumes "fe_le m f" and "m \<le> 330" and "feq (feval f) a"
  shows "fe_le 101 (FeSquare f)" and "feq (feval (FeSquare f)) (a * a)"
  using FeSquare_ok [OF fe_le_mono [OF assms(1,2)]] feq_mult [OF assms(3,3)] by (auto intro: feq_trans)

text \<open>Doubling uses the equation of the curve.\<close>

lemma Projective_Double_ok:
  assumes p: "proj_is p P" and c: "on_curve (fst P) (snd P)" and S: "ed_sum P P R"
  shows "comp_is (Projective_Double p) R"
proof -
  obtain x y x3 y3 where P: "P = (x, y)" "R = (x3, y3)" by (cases P, cases R) auto
  let ?Z = "feval (proj_Z p)" and ?k = "dd * x * x * y * y"
  have p: "fe_le 200 (proj_X p)" "fe_le 101 (proj_Y p)" "fe_le 101 (proj_Z p)" "fe_unit ?Z"
    "feq (feval (proj_X p)) (x * ?Z)" "feq (feval (proj_Y p)) (y * ?Z)"
    using p by (simp_all add: proj_is_def P)
  have S: "fe_unit (1 + ?k)" "fe_unit (1 - ?k)" "feq (x3 * (1 + ?k)) (2 * x * y)" "feq (y3 * (1 - ?k)) (y * y + x * x)"
    using S by (simp_all add: ed_sum_def P Let_def ac_simps)
  have c: "feq (y * y - x * x) (1 + ?k)" using c by (simp add: on_curve_def P power2_eq_square ac_simps)
  let ?X = "FeSquare (proj_X p)" and ?Y = "FeSquare (proj_Y p)" and ?T = "FeSquare2 (proj_Z p)" and ?S = "FeSquare (FeAdd (proj_X p) (proj_Y p))"
  let ?rY = "FeAdd ?Y ?X" and ?rZ = "FeSub ?Y ?X"
  have sum: "fe_le 301 (FeAdd (proj_X p) (proj_Y p))" "feval (FeAdd (proj_X p) (proj_Y p)) = feval (proj_X p) + feval (proj_Y p)"
    using FeAdd_ok [OF p(1,2)] by simp_all
  have le: "fe_le 101 ?X" "fe_le 101 ?Y" "fe_le 101 ?T" "fe_le 101 ?S"
    using FeSquare_ok(1) [OF fe_le_mono [OF p(1)]] FeSquare_ok(1) [OF fe_le_mono [OF p(2)]] FeSquare2_ok(1) [OF fe_le_mono [OF p(3)]]
      FeSquare_ok(1) [OF fe_le_mono [OF sum(1)]] by simp_all
  have X: "feq (feval ?X) (x * ?Z * (x * ?Z))" by (rule FeSquare_feq(2) [OF p(1) _ p(5)]) simp
  have Y: "feq (feval ?Y) (y * ?Z * (y * ?Z))" by (rule FeSquare_feq(2) [OF p(2) _ p(6)]) simp
  have T: "feq (feval ?T) (2 * (?Z * ?Z))" using FeSquare2_ok(2) [OF fe_le_mono [OF p(3)]] by simp
  have "feq (feval (FeAdd (proj_X p) (proj_Y p))) (x * ?Z + y * ?Z)" unfolding sum(2) by (rule feq_add [OF p(5,6)])
  then have SS: "feq (feval ?S) ((x * ?Z + y * ?Z) * (x * ?Z + y * ?Z))" by (rule FeSquare_feq(2) [OF sum(1), rotated]) simp
  have vY: "fe_le 202 ?rY" "feval ?rY = feval ?Y + feval ?X" using FeAdd_ok [OF le(2,1)] by simp_all
  have vZ: "fe_le 202 ?rZ" "feval ?rZ = feval ?Y - feval ?X" using FeSub_ok [OF le(2,1)] by simp_all
  have vX: "fe_le 303 (FeSub ?S ?rY)" "feval (FeSub ?S ?rY) = feval ?S - feval ?rY" using FeSub_ok [OF le(4) vY(1)] by simp_all
  have vT: "fe_le 303 (FeSub ?T ?rZ)" "feval (FeSub ?T ?rZ) = feval ?T - feval ?rZ" using FeSub_ok [OF le(3) vZ(1)] by simp_all
  have Z: "feq (feval ?rZ) ((1 + ?k) * (?Z * ?Z))"
  proof -
    have "feq (feval ?rZ) ((y * y - x * x) * (?Z * ?Z))" unfolding vZ(2) using feq_diff [OF Y X] by (simp add: algebra_simps)
    also have "feq \<dots> ((1 + ?k) * (?Z * ?Z))" by (intro feq_mult c feq_refl)
    finally show ?thesis .
  qed
  have T': "feq (feval (FeSub ?T ?rZ)) ((1 - ?k) * (?Z * ?Z))" unfolding vT(2) using feq_diff [OF T Z] by (simp add: algebra_simps)
  have "feq (feval (FeSub ?S ?rY)) (2 * x * y * (?Z * ?Z))" unfolding vX(2) vY(2) using feq_diff [OF SS feq_add [OF Y X]] by (simp add: algebra_simps)
  also have "feq \<dots> (x3 * (1 + ?k) * (?Z * ?Z))" by (intro feq_mult feq_refl feq_sym [OF S(3)])
  also have "x3 * (1 + ?k) * (?Z * ?Z) = x3 * ((1 + ?k) * (?Z * ?Z))" by (rule mult.assoc)
  also have "feq \<dots> (x3 * feval ?rZ)" by (intro feq_mult feq_refl feq_sym [OF Z])
  finally have 1: "feq (feval (FeSub ?S ?rY)) (x3 * feval ?rZ)" .
  have "feq (feval ?rY) ((y * y + x * x) * (?Z * ?Z))" unfolding vY(2) using feq_add [OF Y X] by (simp add: algebra_simps)
  also have "feq \<dots> (y3 * (1 - ?k) * (?Z * ?Z))" by (intro feq_mult feq_refl feq_sym [OF S(4)])
  also have "y3 * (1 - ?k) * (?Z * ?Z) = y3 * ((1 - ?k) * (?Z * ?Z))" by (rule mult.assoc)
  also have "feq \<dots> (y3 * feval (FeSub ?T ?rZ))" by (intro feq_mult feq_refl feq_sym [OF T'])
  finally have 2: "feq (feval ?rY) (y3 * feval (FeSub ?T ?rZ))" .
  have "fe_unit (feval ?rZ)" "fe_unit (feval (FeSub ?T ?rZ))"
    unfolding fe_unit_cong [OF Z] fe_unit_cong [OF T'] using fe_unit_mult p(4) S(1,2) by blast+
  then show ?thesis
    using 1 2 vX(1) vT(1) fe_le_mono [OF vY(1), of 303] fe_le_mono [OF vZ(1), of 303]
    by (simp add: comp_is_def Projective_Double_def Let_def P)
qed

lemma Extended_Double_ok: "ext_is p P \<Longrightarrow> on_curve (fst P) (snd P) \<Longrightarrow> ed_sum P P R \<Longrightarrow> comp_is (Extended_Double p) R"
  unfolding Extended_Double_def by (rule Projective_Double_ok [OF Extended_ToProjective_ok])

lemma Extended_Zero_ok: "ext_is Extended_Zero (0, 1)"
  using FeZero_ok FeOne_ok fe_unit_1 by (simp add: ext_is_def Extended_Zero_def fe_le_mono)

lemma PreComputed_Zero_ok: "pre_is PreComputed_Zero (0, 1)"
  using FeZero_ok FeOne_ok by (simp add: pre_is_def PreComputed_Zero_def fe_le_mono)

section \<open>Encoding\<close>

lemma le_nat_update:
  assumes "k < length s"
  shows "le_nat (s[k := v]) + 256 ^ k * unat (s ! k) = le_nat s + 256 ^ k * unat v"
  using assms
proof (induction s arbitrary: k)
  case (Cons b s)
  show ?case
  proof (cases k)
    case (Suc j)
    have "le_nat (s[j := v]) + 256 ^ j * unat (s ! j) = le_nat s + 256 ^ j * unat v" using Cons Suc by simp
    then have "256 * (le_nat (s[j := v]) + 256 ^ j * unat (s ! j)) = 256 * (le_nat s + 256 ^ j * unat v)" by (simp only:)
    then show ?thesis by (simp add: Suc algebra_simps)
  qed simp
qed simp

lemma set_top_bit:
  assumes "length s = 32" and "le_nat s < 2 ^ 255" and "r < 2"
  shows "le_nat (s[31 := s ! 31 XOR push_bit 7 (of_nat r)]) = le_nat s + 2 ^ 255 * r"
proof -
  let ?b = "s ! 31"
  have "drop 31 s = [?b]" using assms(1) by (simp add: Cons_nth_drop_Suc [symmetric])
  then have "unat ?b = le_nat s div 256 ^ 31" using le_nat_drop [of 31 s] by simp
  then have b: "unat ?b < 2 ^ 7" using assms(2) by (simp add: div_less_iff_less_mult)
  have "\<not> bit ?b n" if "7 \<le> n" for n
  proof -
    have "take_bit 7 (unat ?b) = unat ?b" using b by (simp only: take_bit_nat_eq_self)
    then have "bit (unat ?b) n \<longleftrightarrow> n < 7 \<and> bit (unat ?b) n" by (metis bit_take_bit_iff)
    then show ?thesis using that by (simp add: bit_unsigned_iff bit_imp_le_length)
  qed
  then have "?b XOR push_bit 7 (of_nat r) = ?b + push_bit 7 (of_nat r :: byte)"
    by (subst disjunctive_add) (auto simp: bit_simps intro!: bit_word_eqI)
  moreover have "unat (?b + push_bit 7 (of_nat r :: byte)) = unat ?b + 128 * r"
  proof -
    have "?b + push_bit 7 (of_nat r :: byte) = of_nat (unat ?b + 128 * r)" by (simp add: push_bit_eq_mult mult.commute)
    moreover have "unat ?b + 128 * r < 2 ^ 8" using b assms(3) by simp
    ultimately show ?thesis by (simp only: unat_of_nat len_num0 len_bit0 len_num1) simp
  qed
  ultimately show ?thesis using le_nat_update [of 31 s "?b XOR push_bit 7 (of_nat r)"] assms(1) by simp
qed

text \<open>
  \<open>Z\<close> is inverted as a power, which needs \<open>Z ^ (p - 1) = 1\<close>. The encoding is the canonical
  \<open>y\<close>, with the lowest bit of \<open>x\<close> on top.
\<close>

lemma FeMul_inverse:
  assumes "fe_le 330 W" and "fe_le 330 r" and "feq (feval W) (w * z)" and "feq (feval r) (z ^ e)" and "feq (z ^ Suc e) 1"
  shows "fe_le 101 (FeMul W r) \<and> feq (feval (FeMul W r)) w"
proof -
  have "feq (feval (FeMul W r)) (w * z * z ^ e)" by (rule FeMul_feq [OF assms(1,2) _ _ assms(3,4)]) simp_all
  also have "w * z * z ^ e = w * z ^ Suc e" by (simp only: power_Suc mult.assoc)
  also have "feq \<dots> (w * 1)" by (intro feq_mult feq_refl assms(5))
  finally show ?thesis using FeMul_le [OF assms(1,2)] by simp
qed

lemma ge_to_bytes_ok:
  assumes "fe_le 330 X" and "fe_le 330 Y" and "fe_le 330 Z" and "feq (feval X) (x * feval Z)" and "feq (feval Y) (y * feval Z)"
    and F: "feq (feval Z ^ (2 ^ 255 - 20)) 1"
  shows "length (ge_to_bytes X Y Z) = 32 \<and> int (le_nat (ge_to_bytes X Y Z)) = y mod p25519 + 2 ^ 255 * (x mod p25519 mod 2)"
proof -
  let ?r = "FeInvert Z"
  have "Suc (2 ^ 255 - 21) = 2 ^ 255 - 20" by simp
  with F have F': "feq (feval Z ^ Suc (2 ^ 255 - 21)) 1" by (simp only:)
  have r: "fe_le 330 ?r" "feq (feval ?r) (feval Z ^ (2 ^ 255 - 21))" using FeInvert_ok [OF assms(3)] by (simp_all only: fe_pow_def)
  have inv: "fe_le 101 (FeMul W ?r) \<and> feq (feval (FeMul W ?r)) w" if "fe_le 330 W" "feq (feval W) (w * feval Z)" for W w
    by (rule FeMul_inverse [OF that(1) r(1) that(2) r(2) F'])
  note x = inv [OF assms(1,4)] and y = inv [OF assms(2,5)]
  let ?s = "fst (FeToBytes (FeMul Y ?r))"
  have s: "length ?s = 32" "int (le_nat ?s) = y mod p25519"
    using FeToBytes_ok [OF fe_le_mono, of 101 "FeMul Y ?r" ?s "snd (FeToBytes (FeMul Y ?r))"] y by (simp_all add: feq_def)
  have "int (le_nat ?s) < 2 ^ 255" unfolding s(2) using pos_mod_bound [of p25519 y] by (simp add: p25519_def)
  then have small: "le_nat ?s < 2 ^ 255" by simp
  define b where "b = nat (x mod p25519 mod 2)"
  have b: "b < 2" "int b = x mod p25519 mod 2" by (simp_all add: b_def nat_less_iff)
  have "fst (FeIsNegative (FeMul X ?r)) = of_int (x mod p25519 mod 2)"
    using FeIsNegative_ok [OF fe_le_mono, of 101 "FeMul X ?r"] x by (simp add: feq_def)
  then have n: "fst (FeIsNegative (FeMul X ?r)) = of_nat b" unfolding b(2) [symmetric] by simp
  have e: "ge_to_bytes X Y Z = ?s[31 := ?s ! 31 XOR push_bit 7 (of_nat b)]" by (simp only: ge_to_bytes_def Let_def n)
  have v: "int (le_nat (ge_to_bytes X Y Z)) = int (le_nat ?s) + 2 ^ 255 * int b"
    unfolding e set_top_bit [OF s(1) small b(1)] by (simp only: of_nat_add of_nat_mult of_nat_power of_nat_numeral)
  have "length (ge_to_bytes X Y Z) = 32" unfolding e using s(1) by (simp only: length_list_update)
  then show ?thesis unfolding v b(2) s(2) by (rule conjI) (rule refl)
qed

theorem Extended_ToBytes_ok:
  assumes "ext_is p P" and "feq (feval (ext_Z p) ^ (2 ^ 255 - 20)) 1"
  shows "length (Extended_ToBytes p) = 32 \<and> int (le_nat (Extended_ToBytes p)) = snd P mod p25519 + 2 ^ 255 * (fst P mod p25519 mod 2)"
  unfolding Extended_ToBytes_def
  by (rule ge_to_bytes_ok) (use assms in \<open>auto simp only: ext_is_def elim: fe_le_mono\<close>)

lemma Projective_ToBytes_ok:
  assumes "proj_is p P" and "feq (feval (proj_Z p) ^ (2 ^ 255 - 20)) 1"
  shows "length (Projective_ToBytes p) = 32 \<and> int (le_nat (Projective_ToBytes p)) = snd P mod p25519 + 2 ^ 255 * (fst P mod p25519 mod 2)"
  unfolding Projective_ToBytes_def
  by (rule ge_to_bytes_ok) (use assms in \<open>auto simp only: proj_is_def elim: fe_le_mono\<close>)

section \<open>Decoding\<close>

lemma from_bytes_sign_ok:
  assumes "fe_le 330 X" and "fe_le 101 Y" and "fe_le 101 Z"
  shows "\<exists>q x. from_bytes_sign X Y Z b = (q, True) \<and> fe_le 200 (ext_X q) \<and> fe_le 101 (ext_T q) \<and> ext_Y q = Y \<and> ext_Z q = Z \<and> x = feval (ext_X q)
    \<and> feq (x ^ 2) (feval X ^ 2) \<and> feq (feval (ext_T q)) (x * feval Y) \<and> (x mod p25519 mod 2 = int (unat b div 128) \<or> feq x 0)"
proof -
  obtain bt X' where t: "FeToBytes X = (bt, X')" by fastforce
  have X': "fe_le 200 X'" "feval X' = feval X mod p25519" using FeToBytes_ok [OF assms(1) t] by simp_all
  let ?r = "feval X mod p25519" and ?s = "int (unat b div 128)"
  have neg: "FeIsNegative X = (of_int (?r mod 2), X')"
    using FeIsNegative_ok [OF assms(1)] t by (simp add: FeIsNegative_def)
  have "unat b < 256" by (rule byte_bound)
  then have s: "?s = 0 \<or> ?s = 1" by auto
  have d: "drop_bit 7 b = of_int ?s"
  proof -
    have "unat (drop_bit 7 b) = unat b div 128" by (simp add: drop_bit_eq_div unat_div)
    then have "of_nat (unat (drop_bit 7 b)) = (of_nat (unat b div 128) :: byte)" by (simp only:)
    then show ?thesis by simp
  qed
  have m: "?r mod 2 = 0 \<or> ?r mod 2 = 1" by presburger
  have ne: "(of_int (?r mod 2) :: byte) \<noteq> drop_bit 7 b \<longleftrightarrow> ?r mod 2 \<noteq> ?s" unfolding d using s m by (elim disjE) simp_all
  let ?X = "if ?r mod 2 \<noteq> ?s then FeNeg X' else X'"
  have X: "fe_le 200 ?X" "feval ?X = (if ?r mod 2 \<noteq> ?s then - ?r else ?r)" using X' FeNeg_ok [OF X'(1)] by simp_all
  have e: "from_bytes_sign X Y Z b = (\<lparr>ext_X = ?X, ext_Y = Y, ext_Z = Z, ext_T = FeMul ?X Y\<rparr>, True)"
    by (simp only: from_bytes_sign_def neg ne Let_def prod.case)
  have r: "feq ?r (feval X)" by (simp add: feq_def)
  have "feq (feval ?X ^ 2) (feval X ^ 2)" unfolding X(2) using feq_power [OF r, of 2] by simp
  moreover have "feval ?X mod p25519 mod 2 = ?s \<or> feq (feval ?X) 0"
  proof (cases "?r mod 2 = ?s \<or> ?r = 0")
    case False
    have "0 \<le> ?r" "?r < p25519" by (simp_all add: p25519_def)
    then have "0 \<le> p25519 - ?r \<and> p25519 - ?r < p25519" using False by auto
    then have "(- ?r) mod p25519 = p25519 - ?r" by (simp add: zmod_zminus1_eq_if)
    moreover have "(p25519 - ?r) mod 2 = 1 - ?r mod 2"
    proof -
      have "p25519 - ?r = 1 - ?r + 2 * (2 ^ 254 - 10)" by (simp add: p25519_def)
      then have "(p25519 - ?r) mod 2 = (1 - ?r) mod 2" by (simp only: mod_mult_self2)
      moreover have "(1 - r) mod 2 = 1 - r mod 2" for r :: int by presburger
      ultimately show ?thesis by (simp only:)
    qed
    ultimately show ?thesis using False s m unfolding X(2) by auto
  qed (auto simp: X(2) feq_def)
  moreover have "fe_le 101 (FeMul ?X Y)" "feq (feval (FeMul ?X Y)) (feval ?X * feval Y)"
    using FeMul_le [OF X(1) assms(2)] FeMul_feq [OF X(1) assms(2) _ _ feq_refl feq_refl] by simp_all
  ultimately show ?thesis using X(1) by (intro exI [of _ "\<lparr>ext_X = ?X, ext_Y = Y, ext_Z = Z, ext_T = FeMul ?X Y\<rparr>"] exI [of _ "feval ?X"]) (simp add: e)
qed

text \<open>The parts of the computation and what they are modulo the prime.\<close>

lemma from_bytes_parts:
  assumes "length s = 32"
  obtains u v X vxx where
    "\<And>p. Extended_FromBytes p s =
       (if fst (FeIsNonZero (FeSub vxx u)) = 1 then
          if fst (FeIsNonZero (FeAdd vxx u)) = 1 then (p\<lparr>ext_X := X, ext_Y := FeFromBytes s, ext_Z := FeOne\<rparr>, False)
          else from_bytes_sign (snd (FeToBytes (FeMul X SqrtM1))) (FeFromBytes s) FeOne (s ! 31)
        else from_bytes_sign X (FeFromBytes s) FeOne (s ! 31))"
    and "fe_le 102 u" and "fe_le 102 v" and "fe_le 101 X" and "fe_le 101 vxx"
    and "feq (feval u) (int (le_nat s mod 2 ^ 255) ^ 2 - 1)" and "feq (feval v) (dd * int (le_nat s mod 2 ^ 255) ^ 2 + 1)"
    and "feq (feval X) (feval u * feval v ^ 3 * (feval u * feval v ^ 7) ^ (2 ^ 252 - 3))"
    and "feq (feval vxx) (feval v * feval X ^ 2)"
proof -
  let ?Y = "FeFromBytes s"
  let ?u = "FeSub (FeSquare ?Y) FeOne" and ?v = "FeAdd (FeMul (FeSquare ?Y) fe_d) FeOne"
  let ?v3 = "FeMul (FeSquare ?v) ?v"
  let ?w = "FeMul (FeMul (FeSquare ?v3) ?v) ?u"
  let ?X = "FeMul (FeMul (fePow22523 ?w) ?v3) ?u"
  let ?vxx = "FeMul (FeSquare ?X) ?v"
  note Y = FeFromBytes_ok [OF assms]
  have Y2: "fe_le 101 (FeSquare ?Y)" "feq (feval (FeSquare ?Y)) (int (le_nat s mod 2 ^ 255) * int (le_nat s mod 2 ^ 255))"
    by (rule FeSquare_feq [OF Y(1) _ Y(2)], simp)+
  have u: "fe_le 102 ?u" "feval ?u = feval (FeSquare ?Y) - 1" using FeSub_ok [OF Y2(1) FeOne_ok(1)] FeOne_ok(2) by simp_all
  have dY: "fe_le 101 (FeMul (FeSquare ?Y) fe_d)" by (rule FeMul_le [OF Y2(1) consts_le(1)]) simp_all
  have v: "fe_le 102 ?v" "feval ?v = feval (FeMul (FeSquare ?Y) fe_d) + 1" using FeAdd_ok [OF dY FeOne_ok(1)] FeOne_ok(2) by simp_all
  have uv: "feq (feval ?u) (int (le_nat s mod 2 ^ 255) ^ 2 - 1)" unfolding u(2) using feq_diff [OF Y2(2) feq_refl [of 1]] by (simp only: power2_eq_square)
  have "feq (feval (FeMul (FeSquare ?Y) fe_d)) (int (le_nat s mod 2 ^ 255) * int (le_nat s mod 2 ^ 255) * dd)"
    by (rule FeMul_feq [OF Y2(1) consts_le(1) _ _ Y2(2)]) (simp_all add: dd_def)
  then have vv: "feq (feval ?v) (dd * int (le_nat s mod 2 ^ 255) ^ 2 + 1)" unfolding v(2) using feq_add [OF _ feq_refl [of 1]] by (simp only: power2_eq_square mult.commute)
  have sq: "fe_le 101 (FeSquare ?v)" "feq (feval (FeSquare ?v)) (feval ?v ^ 2)" using FeSquare_feq [OF v(1) _ feq_refl] by (simp_all add: power2_eq_square)
  have v3: "fe_le 101 ?v3" "feq (feval ?v3) (feval ?v ^ 3)"
    using FeMul_le [OF sq(1) v(1)] FeMul_feq [OF sq(1) v(1) _ _ sq(2) feq_refl] by (simp_all add: power3_eq_cube power2_eq_square)
  have v6: "fe_le 101 (FeSquare ?v3)" "feq (feval (FeSquare ?v3)) (feval ?v ^ 6)"
    using FeSquare_feq [OF v3(1) _ v3(2)] by (simp_all flip: power_add)
  have v7: "fe_le 101 (FeMul (FeSquare ?v3) ?v)" "feq (feval (FeMul (FeSquare ?v3) ?v)) (feval ?v ^ 7)"
    using FeMul_le [OF v6(1) v(1)] FeMul_feq [OF v6(1) v(1) _ _ v6(2) feq_refl] by (simp_all add: eval_nat_numeral ac_simps)
  have w: "fe_le 101 ?w" "feq (feval ?w) (feval ?u * feval ?v ^ 7)"
    using FeMul_le [OF v7(1) u(1)] FeMul_feq [OF v7(1) u(1) _ _ v7(2) feq_refl] by (simp_all add: mult.commute)
  have pw: "fe_le 330 (fePow22523 ?w)" "feq (feval (fePow22523 ?w)) ((feval ?u * feval ?v ^ 7) ^ (2 ^ 252 - 3))"
    using fePow22523_ok [OF fe_le_mono [OF w(1)]] feq_trans [OF _ feq_power [OF w(2)]] unfolding fe_pow_def by simp_all
  have pv: "fe_le 101 (FeMul (fePow22523 ?w) ?v3)"
    "feq (feval (FeMul (fePow22523 ?w) ?v3)) ((feval ?u * feval ?v ^ 7) ^ (2 ^ 252 - 3) * feval ?v ^ 3)"
    using FeMul_le [OF pw(1) v3(1)] FeMul_feq [OF pw(1) v3(1) _ _ pw(2) v3(2)] by simp_all
  have X: "fe_le 101 ?X" "feq (feval ?X) (feval ?u * feval ?v ^ 3 * (feval ?u * feval ?v ^ 7) ^ (2 ^ 252 - 3))"
    using FeMul_le [OF pv(1) u(1)] FeMul_feq [OF pv(1) u(1) _ _ pv(2) feq_refl] by (simp_all add: ac_simps)
  have xx: "fe_le 101 (FeSquare ?X)" "feq (feval (FeSquare ?X)) (feval ?X ^ 2)" using FeSquare_feq [OF X(1) _ feq_refl] by (simp_all add: power2_eq_square)
  have vxx: "fe_le 101 ?vxx" "feq (feval ?vxx) (feval ?v * feval ?X ^ 2)"
    using FeMul_le [OF xx(1) v(1)] FeMul_feq [OF xx(1) v(1) _ _ xx(2) feq_refl] by (simp_all add: mult.commute)
  show thesis
    by (rule that [OF _ u(1) v(1) X(1) vxx(1) uv vv X(2) vxx(2)]) (simp only: Extended_FromBytes_def Let_def)
qed

lemma curve_root:
  assumes "feq (v * x ^ 2) u" and "feq u (y ^ 2 - 1)" and "feq v (dd * y ^ 2 + 1)"
  shows "on_curve x y"
proof -
  have "feq ((dd * y ^ 2 + 1) * x ^ 2) (v * x ^ 2)" by (intro feq_mult feq_refl feq_sym [OF assms(3)])
  also have "feq \<dots> u" by (rule assms(1))
  also have "feq u (y ^ 2 - 1)" by (rule assms(2))
  finally have "feq (y ^ 2 - (dd * y ^ 2 + 1) * x ^ 2) (y ^ 2 - (y ^ 2 - 1))" by (intro feq_diff feq_refl)
  from feq_add [OF this feq_refl, of "dd * x ^ 2 * y ^ 2"] show ?thesis by (simp add: on_curve_def algebra_simps)
qed

lemma check_iff:
  assumes "fe_le 330 f"
  shows "fst (FeIsNonZero f) = 1 \<longleftrightarrow> \<not> feq (feval f) 0"
  using FeIsNonZero_ok [OF assms] by simp

theorem Extended_FromBytes_sound:
  assumes s: "length s = 32" and F: "Extended_FromBytes p s = (q, True)"
  shows "\<exists>x. ext_is q (x, int (le_nat s mod 2 ^ 255)) \<and> on_curve x (int (le_nat s mod 2 ^ 255))
    \<and> (x mod p25519 mod 2 = int (unat (s ! 31) div 128) \<or> feq x 0)"
proof -
  let ?y = "int (le_nat s mod 2 ^ 255)" and ?Y = "FeFromBytes s"
  obtain u v X vxx where E: "Extended_FromBytes p s =
       (if fst (FeIsNonZero (FeSub vxx u)) = 1 then
          if fst (FeIsNonZero (FeAdd vxx u)) = 1 then (p\<lparr>ext_X := X, ext_Y := ?Y, ext_Z := FeOne\<rparr>, False)
          else from_bytes_sign (snd (FeToBytes (FeMul X SqrtM1))) ?Y FeOne (s ! 31)
        else from_bytes_sign X ?Y FeOne (s ! 31))"
    and le: "fe_le 102 u" "fe_le 102 v" "fe_le 101 X" "fe_le 101 vxx"
    and u: "feq (feval u) (?y ^ 2 - 1)" and v: "feq (feval v) (dd * ?y ^ 2 + 1)" and vxx: "feq (feval vxx) (feval v * feval X ^ 2)"
    using from_bytes_parts [OF s] by metis
  note Y = FeFromBytes_ok [OF s]
  have one: "fe_le 101 FeOne" using FeOne_ok(1) by (rule fe_le_mono) simp
  have sub: "fe_le 330 (FeSub vxx u)" "feval (FeSub vxx u) = feval vxx - feval u" using FeSub_ok [OF le(4,1)] fe_le_mono [of 203] by simp_all
  have add: "fe_le 330 (FeAdd vxx u)" "feval (FeAdd vxx u) = feval vxx + feval u" using FeAdd_ok [OF le(4,1)] fe_le_mono [of 203] by simp_all
  have root: "\<exists>W. fe_le 330 W \<and> feq (feval v * feval W ^ 2) (feval u) \<and> from_bytes_sign W ?Y FeOne (s ! 31) = (q, True)"
  proof (cases "feq (feval vxx - feval u) 0")
    case True
    have "feq (feval vxx) (feval u)" using feq_add [OF True feq_refl, of "feval u"] by simp
    then have "feq (feval v * feval X ^ 2) (feval u)" using feq_trans feq_sym vxx by blast
    moreover have "from_bytes_sign X ?Y FeOne (s ! 31) = (q, True)" using F True check_iff [OF sub(1)] sub(2) by (simp add: E)
    moreover have "fe_le 330 X" using le(3) by (rule fe_le_mono) simp
    ultimately show ?thesis by blast
  next
    case False
    have T: "feq (feval vxx + feval u) 0" "from_bytes_sign (snd (FeToBytes (FeMul X SqrtM1))) ?Y FeOne (s ! 31) = (q, True)"
      using F False check_iff [OF sub(1)] sub(2) check_iff [OF add(1)] add(2) by (auto simp: E split: if_splits)
    let ?W = "snd (FeToBytes (FeMul X SqrtM1))"
    have m: "fe_le 101 (FeMul X SqrtM1)" "feq (feval (FeMul X SqrtM1)) (feval X * feval SqrtM1)"
      using FeMul_le [OF le(3) consts_le(3)] FeMul_feq [OF le(3) consts_le(3) _ _ feq_refl feq_refl] by simp_all
    have W: "fe_le 200 ?W" "feval ?W = feval (FeMul X SqrtM1) mod p25519"
      using FeToBytes_ok [OF fe_le_mono [OF m(1)], of "fst (FeToBytes (FeMul X SqrtM1))" ?W] by simp_all
    have "feq (feval ?W) (feval X * feval SqrtM1)" unfolding W(2) using m(2) by (simp add: feq_def)
    then have "feq (feval ?W ^ 2) ((feval X * feval SqrtM1) ^ 2)" by (rule feq_power)
    also have "(feval X * feval SqrtM1) ^ 2 = feval X ^ 2 * (feval SqrtM1 * feval SqrtM1)" by (simp add: power2_eq_square)
    also have "feq \<dots> (feval X ^ 2 * - 1)" by (intro feq_mult feq_refl SqrtM1_value)
    finally have "feq (feval v * feval ?W ^ 2) (feval v * (feval X ^ 2 * - 1))" by (intro feq_mult feq_refl)
    moreover have "feq (feval v * (feval X ^ 2 * - 1)) (- feval vxx)" using feq_minus [OF feq_sym [OF vxx]] by simp
    moreover have "feq (- feval vxx) (feval u)" using feq_add [OF feq_minus [OF T(1)] feq_refl, of "feval u"] by simp
    ultimately have "feq (feval v * feval ?W ^ 2) (feval u)" using feq_trans by blast
    moreover have "fe_le 330 ?W" using W(1) by (rule fe_le_mono) simp
    ultimately show ?thesis using T(2) by blast
  qed
  then obtain W where W: "fe_le 330 W" "feq (feval v * feval W ^ 2) (feval u)" "from_bytes_sign W ?Y FeOne (s ! 31) = (q, True)" by blast
  obtain q' x where q: "from_bytes_sign W ?Y FeOne (s ! 31) = (q', True)" "fe_le 200 (ext_X q')" "fe_le 101 (ext_T q')" "ext_Y q' = ?Y" "ext_Z q' = FeOne"
    "x = feval (ext_X q')" "feq (x ^ 2) (feval W ^ 2)" "feq (feval (ext_T q')) (x * feval ?Y)" "x mod p25519 mod 2 = int (unat (s ! 31) div 128) \<or> feq x 0"
    using from_bytes_sign_ok [OF W(1) Y(1) one, of "s ! 31"] by metis
  have "q' = q" using q(1) W(3) by simp
  have "feq (feval v * x ^ 2) (feval u)" using feq_trans [OF feq_mult [OF feq_refl q(7)] W(2)] .
  from curve_root [OF this u v] have "on_curve x ?y" .
  moreover have "feq (feval (ext_T q)) (x * ?y)" using q(8) Y(2) \<open>q' = q\<close> feq_trans feq_mult feq_refl by blast
  then have "ext_is q (x, ?y)"
    using q(2-6) Y one FeOne_ok(2) fe_unit_1 \<open>q' = q\<close> by (simp add: ext_is_def)
  ultimately show ?thesis using q(9) by blast
qed

text \<open>
  Every encoding of a point is accepted: if \<open>y\<close> has a point \<open>x\<close>, then one of the two candidates is a
  root. For \<open>x\<close> and \<open>v = d y ^ 2 + 1\<close> this uses what holds for the units of a field:
  \<open>x ^ ((p - 1) / 2)\<close> is 1 or -1, and \<open>v ^ (p - 1) = 1\<close>.
\<close>

lemma candidate_root:
  assumes u: "feq u (v * x ^ 2)" and X: "feq X (u * v ^ 3 * (u * v ^ 7) ^ (2 ^ 252 - 3))"
    and v: "feq (v ^ (2 ^ 255 - 20)) 1"
  shows "feq (v * X ^ 2) (u * x ^ (2 ^ 254 - 10))"
proof -
  define e where "e = (2 ^ 252 - 3 :: nat)"
  have e: "2 ^ 254 - 10 = 2 * (2 * e + 1)" "2 ^ 255 - 20 = 2 * (2 * (2 * e + 1))" by (simp_all add: e_def)
  have "feq (v * X ^ 2) (v * (u * v ^ 3 * (u * v ^ 7) ^ e) ^ 2)" unfolding e_def by (intro feq_mult feq_refl feq_power X)
  also have "v * (u * v ^ 3 * (u * v ^ 7) ^ e) ^ 2 = u * (u * v ^ 7) ^ (2 * e + 1)"
    by (simp add: power_mult_distrib power_mult [symmetric] power_add algebra_simps mult_2 power2_eq_square eval_nat_numeral)
  also have "feq \<dots> (u * (v * x ^ 2 * v ^ 7) ^ (2 * e + 1))" by (intro feq_mult feq_power feq_refl u)
  also have "u * (v * x ^ 2 * v ^ 7) ^ (2 * e + 1) = u * x ^ (2 * (2 * e + 1)) * (v ^ (2 * (2 * (2 * e + 1)))) ^ 2"
  proof -
    have a: "v * x ^ 2 * v ^ 7 = x ^ 2 * v ^ 8" by (simp add: eval_nat_numeral)
    have "2 * (2 * m) * 2 = 8 * m" for m :: nat by simp
    then show ?thesis unfolding a power_mult_distrib by (simp only: power_mult [symmetric] mult.assoc)
  qed
  also have "feq \<dots> (u * x ^ (2 * (2 * e + 1)) * 1 ^ 2)" unfolding e(2) [symmetric] by (intro feq_mult feq_power feq_refl v)
  finally show ?thesis unfolding e(1) by simp
qed

theorem Extended_FromBytes_complete:
  assumes s: "length s = 32" and c: "on_curve x (int (le_nat s mod 2 ^ 255))"
    and x: "feq (x ^ (2 ^ 254 - 10)) 1 \<or> feq (x ^ (2 ^ 254 - 10)) (- 1)" and v: "feq ((dd * int (le_nat s mod 2 ^ 255) ^ 2 + 1) ^ (2 ^ 255 - 20)) 1"
  shows "snd (Extended_FromBytes p s)"
proof -
  let ?y = "int (le_nat s mod 2 ^ 255)" and ?Y = "FeFromBytes s"
  obtain u w X vxx where E: "Extended_FromBytes p s =
       (if fst (FeIsNonZero (FeSub vxx u)) = 1 then
          if fst (FeIsNonZero (FeAdd vxx u)) = 1 then (p\<lparr>ext_X := X, ext_Y := ?Y, ext_Z := FeOne\<rparr>, False)
          else from_bytes_sign (snd (FeToBytes (FeMul X SqrtM1))) ?Y FeOne (s ! 31)
        else from_bytes_sign X ?Y FeOne (s ! 31))"
    and le: "fe_le 102 u" "fe_le 102 w" "fe_le 101 X" "fe_le 101 vxx"
    and u: "feq (feval u) (?y ^ 2 - 1)" and w: "feq (feval w) (dd * ?y ^ 2 + 1)"
    and X: "feq (feval X) (feval u * feval w ^ 3 * (feval u * feval w ^ 7) ^ (2 ^ 252 - 3))"
    and vxx: "feq (feval vxx) (feval w * feval X ^ 2)"
    using from_bytes_parts [OF s] by metis
  have sub: "fe_le 330 (FeSub vxx u)" "feval (FeSub vxx u) = feval vxx - feval u" using FeSub_ok [OF le(4,1)] fe_le_mono [of 203] by simp_all
  have add: "fe_le 330 (FeAdd vxx u)" "feval (FeAdd vxx u) = feval vxx + feval u" using FeAdd_ok [OF le(4,1)] fe_le_mono [of 203] by simp_all
  have "feq (?y ^ 2 - 1) ((dd * ?y ^ 2 + 1) * x ^ 2)"
    using feq_diff [OF c [unfolded on_curve_def] feq_refl, of "1 - x ^ 2"] by (simp add: algebra_simps)
  moreover have "feq ((dd * ?y ^ 2 + 1) * x ^ 2) (feval w * x ^ 2)" by (intro feq_mult feq_refl feq_sym [OF w])
  ultimately have uw: "feq (feval u) (feval w * x ^ 2)" using u feq_trans by blast
  have "feq (feval w ^ (2 ^ 255 - 20)) 1" using feq_power [OF w] v feq_trans by blast
  from feq_trans [OF vxx candidate_root [OF uw X this]] have r: "feq (feval vxx) (feval u * x ^ (2 ^ 254 - 10))" .
  have ok: "snd (from_bytes_sign W ?Y Z b)" for W Z b by (simp only: from_bytes_sign_def Let_def split_beta snd_conv)
  from x show ?thesis
  proof
    assume "feq (x ^ (2 ^ 254 - 10)) 1"
    then have "feq (feval vxx) (feval u * 1)" using r feq_trans feq_mult feq_refl by blast
    from feq_diff [OF this feq_refl, of "feval u"] have "fst (FeIsNonZero (FeSub vxx u)) \<noteq> 1" using check_iff [OF sub(1)] sub(2) by simp
    then show ?thesis using ok by (simp only: E if_False)
  next
    assume "feq (x ^ (2 ^ 254 - 10)) (- 1)"
    then have "feq (feval vxx) (feval u * - 1)" using r feq_trans feq_mult feq_refl by blast
    from feq_add [OF this feq_refl, of "feval u"] have "fst (FeIsNonZero (FeAdd vxx u)) \<noteq> 1" using check_iff [OF add(1)] add(2) by simp
    then show ?thesis using ok by (simp add: E)
  qed
qed

end
