(* ===== verification/GeScalar.thy ===== *)
theory GeScalar
  imports GeTables
begin

text \<open>
  Multiples of points (\<open>slide\<close>, \<open>selectPoint\<close>, \<open>GeScalarMultBase\<close> and \<open>GeDoubleScalarMultVartime\<close> of
  \<open>ed25519/edwards25519/edwards25519.go\<close>). The scalars are rewritten with signed digits first, in
  radix 2 with odd digits below 16 or in radix 16; the digits are shown to have the value of the
  scalar. The loops over the digits are shown to follow the addition law of the curve.
\<close>

unbundle bit_operations_syntax

type_synonym i8 = "8 word"

section \<open>Signed digits in radix 2\<close>

text \<open>The inner loops of \<open>slide\<close>: the carry from \<open>k\<close> upwards, and the bits that digit \<open>i\<close> absorbs.\<close>

function slide_carry :: "nat \<Rightarrow> i8 list \<Rightarrow> i8 list" where
  "slide_carry k r =
     (if k < 256 then if r ! k = 0 then r[k := 1] else slide_carry (Suc k) (r[k := 0]) else r)"
  by pat_completeness auto
termination by (relation "measure (\<lambda>(k, r). 256 - k)") auto

function slide_merge :: "nat \<Rightarrow> nat \<Rightarrow> i8 list \<Rightarrow> i8 list" where
  "slide_merge i b r =
     (if b \<le> 6 \<and> i + b < 256 then
        if r ! (i + b) \<noteq> 0 then
          if sint (r ! i + push_bit b (r ! (i + b))) \<le> 15 then
            slide_merge i (Suc b) (r[i := r ! i + push_bit b (r ! (i + b)), i + b := 0])
          else if - 15 \<le> sint (r ! i - push_bit b (r ! (i + b))) then
            slide_merge i (Suc b) (slide_carry (i + b) (r[i := r ! i - push_bit b (r ! (i + b))]))
          else r
        else slide_merge i (Suc b) r
      else r)"
  by pat_completeness auto
termination by (relation "measure (\<lambda>(i, b, r). 7 - b)") auto

declare slide_carry.simps [simp del] slide_merge.simps [simp del]

definition slide :: "bytes \<Rightarrow> i8 list" where
  "slide a =
     foldl (\<lambda>r i. if r ! i \<noteq> 0 then slide_merge i 1 r else r)
       (map (\<lambda>i. ucast (1 AND drop_bit (i mod 8) (a ! (i div 8)))) [0..<256]) [0..<256]"

subsection \<open>Correctness\<close>

definition svalue :: "i8 list \<Rightarrow> int" where "svalue r = (\<Sum>k<256. 2 ^ k * sint (r ! k))"

definition slow :: "nat \<Rightarrow> i8 list \<Rightarrow> int" where "slow i r = (\<Sum>k<i. 2 ^ k * sint (r ! k))"

definition bits_from :: "nat \<Rightarrow> i8 list \<Rightarrow> bool" where
  "bits_from i r \<longleftrightarrow> length r = 256 \<and> (\<forall>k. i \<le> k \<and> k < 256 \<longrightarrow> r ! k = 0 \<or> r ! k = 1)"

lemma svalue_update:
  assumes "length r = 256" and "i < 256"
  shows "svalue (r[i := w]) = svalue r + 2 ^ i * (sint w - sint (r ! i))"
proof -
  have "svalue (r[i := w]) - svalue r = (\<Sum>k<256. 2 ^ k * (sint (r[i := w] ! k) - sint (r ! k)))"
    by (simp add: svalue_def sum_subtractf right_diff_distrib)
  also have "\<dots> = (\<Sum>k \<in> {i}. 2 ^ k * (sint (r[i := w] ! k) - sint (r ! k)))"
    using assms by (intro sum.mono_neutral_right) auto
  finally show ?thesis using assms by simp
qed

lemma slow_cong: "(\<And>k. k < i \<Longrightarrow> r' ! k = r ! k) \<Longrightarrow> slow i r' = slow i r"
  by (simp add: slow_def)

lemma bits_from_update: "bits_from i r \<Longrightarrow> w = 0 \<or> w = 1 \<Longrightarrow> bits_from i (r[k := w])"
  unfolding bits_from_def by (metis length_list_update nth_list_update_eq nth_list_update_neq)

lemma slide_carry_ok:
  assumes "bits_from k r" and "\<exists>z. k \<le> z \<and> z < 256 \<and> r ! z = 0"
  shows "bits_from k (slide_carry k r) \<and> svalue (slide_carry k r) = svalue r + 2 ^ k
    \<and> (\<forall>j < k. slide_carry k r ! j = r ! j) \<and> (r ! k \<noteq> 0 \<longrightarrow> slide_carry k r ! k = 0)"
  using assms
proof (induction k r rule: slide_carry.induct)
  case (1 k r)
  obtain z where z: "k \<le> z" "z < 256" "r ! z = 0" using "1.prems"(2) by blast
  then have k: "k < 256" by simp
  have l: "length r = 256" using "1.prems"(1) by (simp add: bits_from_def)
  show ?case
  proof (cases "r ! k = 0")
    case True
    then show ?thesis using "1.prems"(1) k l by (simp add: slide_carry.simps [of k r] bits_from_update svalue_update)
  next
    case False
    then have rk: "r ! k = 1" using "1.prems"(1) k by (auto simp: bits_from_def)
    have b: "bits_from (Suc k) (r[k := 0])" using "1.prems"(1) by (auto simp: bits_from_def nth_list_update)
    have "z \<noteq> k" using z False by auto
    then have "\<exists>z. Suc k \<le> z \<and> z < 256 \<and> r[k := 0] ! z = 0" using z by (intro exI [of _ z]) auto
    note IH = "1.IH" [OF k False b this]
    have e: "slide_carry k r = slide_carry (Suc k) (r[k := 0])" using k False by (simp add: slide_carry.simps [of k r])
    have v: "svalue (r[k := 0]) = svalue r - 2 ^ k" using l k rk by (simp add: svalue_update)
    have r'k: "slide_carry k r ! k = 0" using IH l k by (simp add: e)
    have "bits_from k (slide_carry k r)"
      unfolding bits_from_def
    proof (intro conjI allI impI)
      show "length (slide_carry k r) = 256" using IH by (simp add: e bits_from_def)
      fix j assume "k \<le> j \<and> j < 256"
      then show "slide_carry k r ! j = 0 \<or> slide_carry k r ! j = 1"
        using IH r'k by (cases "j = k") (auto simp: e bits_from_def)
    qed
    then show ?thesis using IH r'k v by (simp add: e)
  qed
qed

text \<open>
  While digit \<open>i\<close> absorbs bits: it is odd, the bits between it and \<open>i + b\<close> are zero, and what lies
  below is smaller than its weight.
\<close>

definition merge_inv :: "int \<Rightarrow> nat \<Rightarrow> nat \<Rightarrow> i8 list \<Rightarrow> bool" where
  "merge_inv N i b r \<longleftrightarrow> bits_from (Suc i) r \<and> svalue r = N \<and> \<bar>slow i r\<bar> < 2 ^ i \<and> odd (sint (r ! i)) \<and> \<bar>sint (r ! i)\<bar> \<le> 15
     \<and> (\<forall>j. i < j \<and> j < i + b \<and> j < 256 \<longrightarrow> r ! j = 0)"

lemma sint_small8:
  assumes "\<bar>sint (x :: i8)\<bar> \<le> 15" and "b \<le> 6"
  shows "sint (x + push_bit b 1) = sint x + 2 ^ b" and "sint (x - push_bit b 1) = sint x - 2 ^ b"
proof -
  have p: "(2 :: int) ^ b \<le> 2 ^ 6" using assms(2) by (rule power_increasing) simp
  have e: "x + push_bit b 1 = of_int (sint x + 2 ^ b)" "x - push_bit b 1 = of_int (sint x - 2 ^ b)" by (simp_all add: push_bit_eq_mult)
  have q: "0 < (2 :: int) ^ b" by simp
  have r: "- (2 ^ (LENGTH(8) - 1)) \<le> sint x + 2 ^ b" "sint x + 2 ^ b < 2 ^ (LENGTH(8) - 1)"
    "- (2 ^ (LENGTH(8) - 1)) \<le> sint x - 2 ^ b" "sint x - 2 ^ b < 2 ^ (LENGTH(8) - 1)"
  proof -
    have "(2 :: int) ^ (LENGTH(8) - 1) = 128" "(2 :: int) ^ 6 = 64" by simp_all
    then show "- (2 ^ (LENGTH(8) - 1)) \<le> sint x + 2 ^ b" "sint x + 2 ^ b < 2 ^ (LENGTH(8) - 1)"
      "- (2 ^ (LENGTH(8) - 1)) \<le> sint x - 2 ^ b" "sint x - 2 ^ b < 2 ^ (LENGTH(8) - 1)"
      using assms(1) p q by linarith+
  qed
  show "sint (x + push_bit b 1) = sint x + 2 ^ b" unfolding e(1) by (rule sint_of_int [OF r(1,2)])
  show "sint (x - push_bit b 1) = sint x - 2 ^ b" unfolding e(2) by (rule sint_of_int [OF r(3,4)])
qed

text \<open>The carry does not run off the end: below \<open>2 ^ 255\<close> there is a zero for it.\<close>

lemma carry_room:
  assumes inv: "merge_inv N i b r" and N: "N < 2 ^ 255" and b: "1 \<le> b" "i + b < 256"
    and x: "15 < sint (r ! i) + 2 ^ b" "- 15 \<le> sint (r ! i) - 2 ^ b"
  shows "\<exists>z. i + b \<le> z \<and> z < 256 \<and> r ! z = 0"
proof (rule ccontr)
  assume no: "\<not> ?thesis"
  have m: "bits_from (Suc i) r" "svalue r = N" "- (2 ^ i) < slow i r" "odd (sint (r ! i))" "sint (r ! i) \<le> 15"
    "\<And>j. i < j \<Longrightarrow> j < i + b \<Longrightarrow> j < 256 \<Longrightarrow> r ! j = 0"
    using inv by (auto simp: merge_inv_def abs_less_iff)
  have one: "r ! j = 1" if "i + b \<le> j" "j < 256" for j
  proof -
    have "Suc i \<le> j" using that(1) b(1) by simp
    then have "r ! j = 0 \<or> r ! j = 1" using m(1) that(2) by (simp add: bits_from_def)
    then show ?thesis using no that by blast
  qed
  have "1 \<le> sint (r ! i)"
  proof (cases "b \<le> 3")
    case True
    then have "(2 :: int) ^ b \<le> 2 ^ 3" by (rule power_increasing) simp
    then show ?thesis using x by simp
  next
    case False
    show ?thesis
    proof (cases "b = 4")
      case True
      then have "- 1 < sint (r ! i)" "sint (r ! i) \<noteq> 0" using x m(4) by auto
      then show ?thesis by simp
    next
      case b5: False
      then have "5 \<le> b" using False by simp
      then have "(2 :: int) ^ 5 \<le> 2 ^ b" by (rule power_increasing) simp
      then show ?thesis using x m(5) by simp
    qed
  qed
  then have xi: "2 ^ i \<le> 2 ^ i * sint (r ! i)" by simp
  have "svalue r = (\<Sum>k \<in> {..<Suc i} \<union> {Suc i..<256}. 2 ^ k * sint (r ! k))"
    unfolding svalue_def by (rule sum.cong) (use b in auto)
  also have "\<dots> = slow i r + 2 ^ i * sint (r ! i) + (\<Sum>k \<in> {Suc i..<256}. 2 ^ k * sint (r ! k))"
    by (subst sum.union_disjoint) (auto simp: slow_def)
  finally have v: "N = slow i r + 2 ^ i * sint (r ! i) + (\<Sum>k \<in> {Suc i..<256}. 2 ^ k * sint (r ! k))" using m(2) by simp
  have nn: "0 \<le> 2 ^ k * sint (r ! k)" if "k \<in> {Suc i..<256}" for k
    using m(1) that by (auto simp: bits_from_def)
  have "2 ^ 255 * sint (r ! 255) \<le> (\<Sum>k \<in> {Suc i..<256}. 2 ^ k * sint (r ! k))"
    by (rule member_le_sum) (use b nn in auto)
  then have "2 ^ 255 \<le> (\<Sum>k \<in> {Suc i..<256}. 2 ^ k * sint (r ! k))" using one [of 255] b by simp
  then show False using v xi m(3) N by linarith
qed

definition digit_ok :: "i8 \<Rightarrow> bool" where "digit_ok x \<longleftrightarrow> x = 0 \<or> odd (sint x) \<and> \<bar>sint x\<bar> \<le> 15"

text \<open>Between the digits: the digits below \<open>i\<close> are done, and less than the weight of any bit left.\<close>

definition slide_inv :: "int \<Rightarrow> nat \<Rightarrow> i8 list \<Rightarrow> bool" where
  "slide_inv N i r \<longleftrightarrow> bits_from i r \<and> svalue r = N \<and> (\<forall>k < i. digit_ok (r ! k))
     \<and> (\<forall>n. i \<le> n \<and> n < 256 \<and> r ! n \<noteq> 0 \<longrightarrow> \<bar>slow i r\<bar> < 2 ^ n)"

lemma slow_Suc: "slow (Suc i) r = slow i r + 2 ^ i * sint (r ! i)"
  by (simp add: slow_def)

lemma merge_done:
  assumes inv: "merge_inv N i b r" and i: "i < 256"
    and stop: "\<And>n. i + b \<le> n \<Longrightarrow> n < 256 \<Longrightarrow> r ! n \<noteq> 0 \<Longrightarrow> \<bar>sint (r ! i)\<bar> + 1 \<le> 2 ^ (n - i)"
    and low: "\<forall>k < i. digit_ok (r ! k)"
  shows "slide_inv N (Suc i) r"
proof -
  have m: "bits_from (Suc i) r" "svalue r = N" "\<bar>slow i r\<bar> < 2 ^ i" "odd (sint (r ! i))" "\<bar>sint (r ! i)\<bar> \<le> 15"
    "\<And>j. i < j \<Longrightarrow> j < i + b \<Longrightarrow> j < 256 \<Longrightarrow> r ! j = 0"
    using inv by (auto simp: merge_inv_def)
  have "\<bar>slow (Suc i) r\<bar> < 2 ^ n" if "Suc i \<le> n" "n < 256" "r ! n \<noteq> 0" for n
  proof -
    have "i + b \<le> n" using m(6) [of n] that by (metis Suc_le_lessD not_le)
    from stop [OF this that(2,3)] have "2 ^ i * (\<bar>sint (r ! i)\<bar> + 1) \<le> 2 ^ i * 2 ^ (n - i)" by (intro mult_left_mono) simp_all
    also have "(2 :: int) ^ i * 2 ^ (n - i) = 2 ^ n" using that(1) by (simp flip: power_add)
    finally have a: "2 ^ i * \<bar>sint (r ! i)\<bar> + 2 ^ i \<le> (2 :: int) ^ n" by (simp add: distrib_left)
    have "\<bar>slow (Suc i) r\<bar> \<le> \<bar>slow i r\<bar> + 2 ^ i * \<bar>sint (r ! i)\<bar>"
      unfolding slow_Suc using abs_triangle_ineq [of "slow i r" "2 ^ i * sint (r ! i)"] by (simp add: abs_mult)
    then show ?thesis using a m(3) by linarith
  qed
  moreover have "digit_ok (r ! k)" if "k < Suc i" for k
    using low that m(4,5) by (cases "k = i") (simp_all add: digit_ok_def)
  ultimately show ?thesis using m(1,2) by (simp add: slide_inv_def)
qed

lemma slide_merge_ok:
  assumes "merge_inv N i b r" and "N < 2 ^ 255" and "i < 256" and "1 \<le> b" and "b \<le> 7" and "\<forall>k < i. digit_ok (r ! k)"
  shows "slide_inv N (Suc i) (slide_merge i b r)"
  using assms
proof (induction i b r rule: slide_merge.induct)
  case (1 i b r)
  have inv: "bits_from (Suc i) r" "svalue r = N" "\<bar>slow i r\<bar> < 2 ^ i" "odd (sint (r ! i))" "\<bar>sint (r ! i)\<bar> \<le> 15"
    "\<And>j. i < j \<Longrightarrow> j < i + b \<Longrightarrow> j < 256 \<Longrightarrow> r ! j = 0" "length r = 256"
    using "1.prems"(1) by (auto simp: merge_inv_def bits_from_def)
  note step = slide_merge.simps [of i b r]
  show ?case
  proof (cases "b \<le> 6 \<and> i + b < 256")
    case False
    have "\<bar>sint (r ! i)\<bar> + 1 \<le> 2 ^ (n - i)" if "i + b \<le> n" "n < 256" for n
    proof -
      have "7 \<le> n - i" using False that "1.prems"(5) by linarith
      then have "(2 :: int) ^ 7 \<le> 2 ^ (n - i)" by (rule power_increasing) simp
      then show ?thesis using inv(5) by simp
    qed
    then have "slide_inv N (Suc i) r" using merge_done [OF "1.prems"(1,3) _ "1.prems"(6)] by blast
    then show ?thesis by (simp only: step False if_False)
  next
    case True
    note b = True
    show ?thesis
    proof (cases "r ! (i + b) = 0")
      case True
      have "merge_inv N i (Suc b) r" using "1.prems"(1) True by (auto simp: merge_inv_def less_Suc_eq)
      then show ?thesis using "1.IH"(3) [OF b] True b "1.prems"(2-6) by (simp add: step)
    next
      case False
      have "Suc i \<le> i + b" using "1.prems"(4) by simp
      then have "r ! (i + b) = 0 \<or> r ! (i + b) = 1" using inv(1) b unfolding bits_from_def by blast
      then have one: "r ! (i + b) = 1" using False by blast
      have s: "sint (r ! i + push_bit b (r ! (i + b))) = sint (r ! i) + 2 ^ b" "sint (r ! i - push_bit b (r ! (i + b))) = sint (r ! i) - 2 ^ b"
        unfolding one by (rule sint_small8 [OF inv(5)], use b in blast)+
      have ev: "even ((2 :: int) ^ b)" "0 < (2 :: int) ^ b" using "1.prems"(4) by simp_all
      show ?thesis
      proof (cases "sint (r ! i) + 2 ^ b \<le> 15")
        case True
        let ?r = "r[i := r ! i + push_bit b (r ! (i + b)), i + b := 0]"
        have ne: "i + b \<noteq> i" using "1.prems"(4) by simp
        have "svalue ?r = N"
          using inv(2,7) b "1.prems"(3) ne one s(1) by (simp add: svalue_update power_add algebra_simps)
        moreover have "bits_from (Suc i) ?r"
          using bits_from_update [of "Suc i" "r[i := r ! i + push_bit b (r ! (i + b))]" 0 "i + b"] inv(1,7) by (simp add: bits_from_def)
        moreover have "slow i ?r = slow i r" by (rule slow_cong) (use "1.prems"(4) in simp)
        moreover have "sint (?r ! i) = sint (r ! i) + 2 ^ b" using s(1) ne inv(7) "1.prems"(3) by simp
        moreover have "?r ! j = 0" if "i < j" "j < i + Suc b" "j < 256" for j
          using inv(6) [OF that(1) _ that(3)] that inv(7) by (cases "j = i + b") auto
        moreover have "\<bar>sint (r ! i) + 2 ^ b\<bar> \<le> 15" using inv(5) ev True by linarith
        ultimately have "merge_inv N i (Suc b) ?r" using inv(3,4,5) ev by (simp add: merge_inv_def)
        moreover have "\<forall>k<i. digit_ok (?r ! k)" using "1.prems"(6) by simp
        moreover have "slide_merge i b r = slide_merge i (Suc b) ?r"
          using b False True s(1) by (simp only: step if_True if_False not_False_eq_True simp_thms)
        moreover have "sint (r ! i + push_bit b (r ! (i + b))) \<le> 15" using True s(1) by simp
        ultimately show ?thesis using "1.IH"(1) [OF b False] b "1.prems"(2-5) by (simp only:) simp
      next
        case over: False
        show ?thesis
        proof (cases "- 15 \<le> sint (r ! i) - 2 ^ b")
          case False2: False
          have "\<bar>sint (r ! i)\<bar> + 1 \<le> 2 ^ (n - i)" if "i + b \<le> n" for n
          proof -
            have "(2 :: int) ^ b \<le> 2 ^ (n - i)" using that by (intro power_increasing) simp_all
            then show ?thesis using over False2 by linarith
          qed
          then show ?thesis using merge_done [OF "1.prems"(1,3) _ "1.prems"(6)] b False over False2 s by (simp add: step)
        next
          case True
          let ?r1 = "r[i := r ! i - push_bit b (r ! (i + b))]"
          let ?r = "slide_carry (i + b) ?r1"
          have "\<exists>z. i + b \<le> z \<and> z < 256 \<and> r ! z = 0"
            by (rule carry_room [OF "1.prems"(1,2,4)]) (use b over True in \<open>simp_all only: not_le\<close>)
          then obtain y where y: "i + b \<le> y" "y < 256" "r ! y = 0" by blast
          moreover have "y \<noteq> i" using y(1) "1.prems"(4) by simp
          ultimately have z: "\<exists>z. i + b \<le> z \<and> z < 256 \<and> ?r1 ! z = 0" by (intro exI [of _ y]) simp
          have bits: "bits_from (i + b) ?r1"
            unfolding bits_from_def
          proof (intro conjI allI impI)
            show "length ?r1 = 256" using inv(7) by simp
            fix k assume k: "i + b \<le> k \<and> k < 256"
            then have "k \<noteq> i" "Suc i \<le> k" using "1.prems"(4) by simp_all
            then show "?r1 ! k = 0 \<or> ?r1 ! k = 1" using inv(1) k unfolding bits_from_def by (metis nth_list_update_neq)
          qed
          note C = slide_carry_ok [OF bits z]
          have v1: "svalue ?r1 = N - 2 ^ (i + b)"
            unfolding svalue_update [OF inv(7) "1.prems"(3)] s(2) inv(2) by (simp add: power_add algebra_simps)
          have ri: "?r ! i = r ! i - push_bit b (r ! (i + b))" using C inv(7) "1.prems"(3,4) by simp
          have low: "?r ! k = r ! k" if "k < i" for k using C that by simp
          have zero: "?r ! j = 0" if "i < j" "j < i + Suc b" "j < 256" for j
          proof (cases "j = i + b")
            case True
            then show ?thesis using C one "1.prems"(4) by simp
          next
            case False
            then show ?thesis using C inv(6) [OF that(1) _ that(3)] that by simp
          qed
          have B: "bits_from (Suc i) ?r"
            unfolding bits_from_def
          proof (intro conjI allI impI)
            show "length ?r = 256" using C by (simp add: bits_from_def)
            fix j assume j: "Suc i \<le> j \<and> j < 256"
            show "?r ! j = 0 \<or> ?r ! j = 1"
              using zero [of j] C j by (cases "j < i + b") (auto simp: bits_from_def)
          qed
          have S: "slow i ?r = slow i r" by (rule slow_cong) (rule low)
          have X: "sint (?r ! i) = sint (r ! i) - 2 ^ b" using s(2) ri by simp
          have A: "\<bar>sint (r ! i) - 2 ^ b\<bar> \<le> 15" using inv(5) ev True by linarith
          have V: "svalue ?r = N" using C v1 by simp
          have "odd (sint (r ! i) - 2 ^ b)" using inv(4) ev(1) by simp
          then have "merge_inv N i (Suc b) ?r" unfolding merge_inv_def S X using B V inv(3) A zero by blast
          moreover have "\<forall>k<i. digit_ok (?r ! k)" using "1.prems"(6) low by simp
          moreover have "slide_merge i b r = slide_merge i (Suc b) ?r"
            using b False over True s by (simp only: step if_True if_False not_False_eq_True simp_thms)
          moreover have "\<not> sint (r ! i + push_bit b (r ! (i + b))) \<le> 15" "- 15 \<le> sint (r ! i - push_bit b (r ! (i + b)))" using over True s by simp_all
          ultimately show ?thesis using "1.IH"(2) [OF b False] b "1.prems"(2-5) by (simp only:) simp
        qed
      qed
    qed
  qed
qed

lemma slide_start:
  assumes "length a = 32"
  shows "slide_inv (int (le_nat a)) 0 (map (\<lambda>i. ucast (1 AND drop_bit (i mod 8) (a ! (i div 8)))) [0..<256])"
proof -
  let ?r = "map (\<lambda>i. ucast (1 AND drop_bit (i mod 8) (a ! (i div 8)))) [0..<256] :: i8 list"
  have bit: "bit (le_nat a) i \<longleftrightarrow> bit (a ! (i div 8)) (i mod 8)" if "i < 256" for i
  proof -
    let ?j = "i div 8"
    have j: "?j < length a" using that assms by simp
    have "le_nat a div 256 ^ ?j = unat (a ! ?j) + 2 ^ 8 * le_nat (drop (Suc ?j) a)"
      using le_nat_drop [of ?j a] j by (simp add: Cons_nth_drop_Suc [symmetric])
    moreover have "(256 :: nat) ^ ?j = 2 ^ (8 * ?j)" by (simp only: power_mult) simp
    moreover have "bit (le_nat a) i = bit (le_nat a div 2 ^ (8 * ?j)) (i mod 8)"
      by (simp only: drop_bit_eq_div [symmetric] bit_drop_bit_eq comp_def mult_div_mod_eq)
    moreover have "unat (a ! ?j) < 2 ^ 8" using byte_bound by simp
    ultimately show ?thesis by (simp only: bit_join if_True mod_less_divisor zero_less_numeral) (simp add: bit_unsigned_iff)
  qed
  have r: "?r ! i = of_bool (bit (le_nat a) i)" if "i < 256" for i
    using that bit [OF that] by (auto intro!: bit_word_eqI simp: bit_simps bit_1_iff)
  have "svalue ?r = (\<Sum>k<256. int (2 ^ k * (le_nat a div 2 ^ k mod 2)))"
    unfolding svalue_def
  proof (rule sum.cong [OF refl])
    fix k :: nat assume "k \<in> {..<256}"
    then have k: "k < 256" by simp
    show "2 ^ k * sint (?r ! k) = int (2 ^ k * (le_nat a div 2 ^ k mod 2))"
      unfolding r [OF k] by (simp add: bit_iff_odd mod_2_eq_odd)
  qed
  also have "\<dots> = int (\<Sum>k<256. 2 ^ k * (le_nat a div 2 ^ k mod 2))" by (simp only: of_nat_sum)
  also have "(\<Sum>k<256. 2 ^ k * (le_nat a div 2 ^ k mod 2)) = le_nat a"
  proof -
    have "le_nat a < 2 ^ 256" using le_nat_bound [of a] assms by simp
    then have "le_nat a div 2 ^ 256 = 0" by (rule div_less)
    then show ?thesis using sum_of_digits [of 2 "le_nat a" 256] by (simp only: mult_0_right add_0_right)
  qed
  finally show ?thesis using r by (auto simp: slide_inv_def bits_from_def slow_def)
qed

text \<open>The digits of \<open>slide\<close> are zero or odd and below 16, and they have the value of the scalar.\<close>

theorem slide_ok:
  assumes "length a = 32" and "le_nat a < 2 ^ 255"
  shows "length (slide a) = 256 \<and> (\<forall>x \<in> set (slide a). digit_ok x) \<and> svalue (slide a) = int (le_nat a)"
proof -
  let ?f = "\<lambda>r i. if r ! i \<noteq> 0 then slide_merge i 1 r else r"
  let ?r0 = "map (\<lambda>i. ucast (1 AND drop_bit (i mod 8) (a ! (i div 8)))) [0..<256] :: i8 list"
  have N: "int (le_nat a) < 2 ^ 255" using assms(2) by simp
  have "slide_inv (int (le_nat a)) n (foldl ?f ?r0 [0..<n])" if "n \<le> 256" for n
    using that
  proof (induction n)
    case 0
    show ?case using slide_start [OF assms(1)] by (simp only: upt_0 foldl_Nil)
  next
    case (Suc n)
    define r where "r = foldl ?f ?r0 [0..<n]"
    have I: "slide_inv (int (le_nat a)) n r" unfolding r_def using Suc by simp
    have e: "foldl ?f ?r0 [0..<Suc n] = ?f r n" by (simp only: upt_Suc_append le0 foldl_append foldl.simps r_def)
    have n: "n < 256" using Suc.prems by simp
    show ?case
    proof (cases "r ! n = 0")
      case True
      have "slide_inv (int (le_nat a)) (Suc n) r"
        using I True by (auto simp: slide_inv_def bits_from_def slow_Suc digit_ok_def less_Suc_eq)
      then show ?thesis unfolding e using True by simp
    next
      case False
      have one: "r ! n = 1" using I False n by (auto simp: slide_inv_def bits_from_def)
      have "merge_inv (int (le_nat a)) n 1 r" using I one n by (auto simp: slide_inv_def merge_inv_def bits_from_def)
      from slide_merge_ok [OF this N n] have "slide_inv (int (le_nat a)) (Suc n) (slide_merge n 1 r)"
        using I by (simp add: slide_inv_def)
      then show ?thesis unfolding e using False by simp
    qed
  qed
  from this [of 256] have "slide_inv (int (le_nat a)) 256 (slide a)" by (simp only: slide_def order_refl)
  then show ?thesis by (auto simp: slide_inv_def bits_from_def in_set_conv_nth)
qed

section \<open>Signed digits in radix 16\<close>

text \<open>The first part of \<open>GeScalarMultBase\<close>: the two digits of each byte, then the carries that bring the
  digits between -8 and 8.\<close>

definition nibbles :: "bytes \<Rightarrow> i8 list" where
  "nibbles a = concat (map (\<lambda>v. [ucast (v AND 15), ucast (drop_bit 4 v AND 15)]) a)"

definition recode_step :: "i8 list \<times> i8 \<Rightarrow> nat \<Rightarrow> i8 list \<times> i8" where
  "recode_step st i =
     (let (e, carry) = st; e = e[i := e ! i + carry]; carry = signed_drop_bit 4 (e ! i + 8)
      in (e[i := e ! i - push_bit 4 carry], carry))"

definition recode :: "bytes \<Rightarrow> i8 list" where
  "recode a = (let (e, carry) = foldl recode_step (nibbles a, 0) [0..<63] in e[63 := e ! 63 + carry])"

definition hvalue :: "i8 list \<Rightarrow> int" where "hvalue e = (\<Sum>k<64. 16 ^ k * sint (e ! k))"

lemma hvalue_update:
  assumes "length e = 64" and "i < 64"
  shows "hvalue (e[i := w]) = hvalue e + 16 ^ i * (sint w - sint (e ! i))"
proof -
  have "hvalue (e[i := w]) - hvalue e = (\<Sum>k<64. 16 ^ k * (sint (e[i := w] ! k) - sint (e ! k)))"
    by (simp add: hvalue_def sum_subtractf right_diff_distrib)
  also have "\<dots> = (\<Sum>k \<in> {i}. 16 ^ k * (sint (e[i := w] ! k) - sint (e ! k)))"
    using assms by (intro sum.mono_neutral_right) auto
  finally show ?thesis using assms by simp
qed

lemma length_nibbles: "length (nibbles a) = 2 * length a"
  by (induction a) (simp_all add: nibbles_def)

lemma nibble: "sint (ucast (v AND 15 :: byte) :: i8) = int (unat v mod 16)" "sint (ucast (drop_bit 4 v AND 15 :: byte) :: i8) = int (unat v div 16)"
proof -
  have m: "(15 :: byte) = mask 4" by (simp add: mask_eq_exp_minus_1)
  have lo: "(v AND 15) = of_nat (unat v mod 16)"
  proof -
    have "v AND 15 = take_bit 4 (of_nat (unat v))" by (simp only: m take_bit_eq_mask) simp
    also have "\<dots> = of_nat (take_bit 4 (unat v))" by (rule take_bit_of_nat)
    finally show ?thesis by (simp add: take_bit_eq_mod)
  qed
  have "unat v < 256" by (rule byte_bound)
  then have hi: "drop_bit 4 v AND 15 = of_nat (unat v div 16)"
  proof -
    have "unat (drop_bit 4 v AND 15) = unat v div 16"
    proof -
      have "drop_bit 4 v AND 15 = drop_bit 4 v" by (rule bit_word_eqI) (auto simp: m bit_simps dest: bit_imp_le_length)
      then show ?thesis by (simp add: drop_bit_eq_div unat_div)
    qed
    then have "of_nat (unat (drop_bit 4 v AND 15)) = (of_nat (unat v div 16) :: byte)" by (simp only:)
    then show ?thesis by simp
  qed
  have s: "sint (ucast (of_nat k :: byte) :: i8) = int k" if "k < 16" for k
    using shift_of_nat(2) [of k, where ?'a = 8] that by simp
  show "sint (ucast (v AND 15) :: i8) = int (unat v mod 16)" unfolding lo by (rule s) simp
  show "sint (ucast (drop_bit 4 v AND 15) :: i8) = int (unat v div 16)" unfolding hi by (rule s) (use byte_bound [of v] in simp)
qed

lemma nibbles_Cons: "nibbles (v # a) = ucast (v AND 15) # ucast (drop_bit 4 v AND 15) # nibbles a"
  by (simp add: nibbles_def)

lemma nibbles_value: "(\<Sum>k<2 * length a. 16 ^ k * sint (nibbles a ! k)) = int (le_nat a)"
proof (induction a)
  case (Cons v a)
  have "unat v mod 16 + 16 * (unat v div 16) = unat v" by simp
  then have "int (unat v mod 16 + 16 * (unat v div 16)) = int (unat v)" by (simp only:)
  then have v: "int (unat v mod 16) + 16 * int (unat v div 16) = int (unat v)" by (simp only: of_nat_add of_nat_mult of_nat_numeral)
  have "(\<Sum>k<2 * length (v # a). 16 ^ k * sint (nibbles (v # a) ! k))
      = int (unat v mod 16) + 16 * int (unat v div 16) + 256 * (\<Sum>k<2 * length a. 16 ^ k * sint (nibbles a ! k))"
    by (simp only: nibbles_Cons list.size mult_Suc_right add_2_eq_Suc add_Suc_right add_0_right sum.lessThan_Suc_shift nth_Cons_0 nth_Cons_Suc nibble [of v])
      (simp add: sum_distrib_left mult.assoc [symmetric])
  also have "\<dots> = int (le_nat (v # a))" unfolding v Cons.IH by simp
  finally show ?case .
qed simp

lemma nibbles_range: "x \<in> set (nibbles a) \<Longrightarrow> 0 \<le> sint x \<and> sint x \<le> 15"
proof (induction a)
  case (Cons v a)
  have "unat v mod 16 < 16" "unat v div 16 < 16" using byte_bound [of v] by (simp_all add: div_less_iff_less_mult)
  then show ?case using Cons nibble [of v] by (auto simp: nibbles_Cons)
qed (simp add: nibbles_def)

definition recode_inv :: "bytes \<Rightarrow> nat \<Rightarrow> i8 list \<times> i8 \<Rightarrow> bool" where
  "recode_inv a n st \<longleftrightarrow> length (fst st) = 64 \<and> (sint (snd st) = 0 \<or> sint (snd st) = 1)
     \<and> (\<forall>j < n. - 8 \<le> sint (fst st ! j) \<and> sint (fst st ! j) \<le> 7) \<and> (\<forall>j. n \<le> j \<and> j < 64 \<longrightarrow> fst st ! j = nibbles a ! j)
     \<and> hvalue (fst st) + 16 ^ n * sint (snd st) = int (le_nat a)"

lemma sint8: "- 128 \<le> k \<Longrightarrow> k < 128 \<Longrightarrow> sint (of_int k :: i8) = k"
  by (rule sint_of_int) simp_all

lemma recode_step_inv:
  assumes I: "recode_inv a n st" and a: "length a = 32" and n: "n < 63"
  shows "recode_inv a (Suc n) (recode_step st n)"
proof -
  obtain e c where st: "st = (e, c)" by fastforce
  have i: "length e = 64" "sint c = 0 \<or> sint c = 1" "\<forall>j < n. - 8 \<le> sint (e ! j) \<and> sint (e ! j) \<le> 7"
    "\<forall>j. n \<le> j \<and> j < 64 \<longrightarrow> e ! j = nibbles a ! j" "hvalue e + 16 ^ n * sint c = int (le_nat a)"
    using I by (simp_all add: recode_inv_def st)
  define x where "x = sint (e ! n) + sint c"
  have "e ! n = nibbles a ! n" using i(4) n by simp
  then have "e ! n \<in> set (nibbles a)" using a n by (simp add: length_nibbles)
  from nibbles_range [OF this] have x: "0 \<le> x" "x \<le> 16" using i(2) by (auto simp: x_def)
  define c' where "c' = (x + 8) div 16"
  have c': "c' = 0 \<and> x \<le> 7 \<or> c' = 1 \<and> 8 \<le> x" using x unfolding c'_def by linarith
  have xw: "e ! n + c = of_int x" by (simp add: x_def)
  have "e ! n + c + 8 = of_int (x + 8)" by (simp add: xw)
  then have "sint (e ! n + c + 8) = x + 8" using sint8 [of "x + 8"] x by simp
  then have cs: "sint (signed_drop_bit 4 (e ! n + c + 8)) = c'" by (simp add: sint_signed_drop_bit_eq drop_bit_eq_div c'_def)
  then have cw: "signed_drop_bit 4 (e ! n + c + 8) = of_int c'" by (metis word_of_sint)
  have "e ! n + c - push_bit 4 (signed_drop_bit 4 (e ! n + c + 8)) = of_int (x - 16 * c')" unfolding cw by (simp add: xw push_bit_eq_mult)
  then have ns: "sint (e ! n + c - push_bit 4 (signed_drop_bit 4 (e ! n + c + 8))) = x - 16 * c'" using sint8 [of "x - 16 * c'"] x c' by auto
  let ?w = "e ! n + c - push_bit 4 (signed_drop_bit 4 (e ! n + c + 8))"
  have r: "recode_step st n = (e[n := ?w], signed_drop_bit 4 (e ! n + c + 8))"
    using i(1) n by (simp add: recode_step_def st Let_def)
  have v: "hvalue (e[n := ?w]) + 16 ^ Suc n * c' = int (le_nat a)"
  proof -
    have "n < 64" using n by simp
    then have "hvalue (e[n := ?w]) = hvalue e + 16 ^ n * (x - 16 * c' - sint (e ! n))" unfolding hvalue_update [OF i(1) \<open>n < 64\<close>] ns by simp
    then show ?thesis using i(5) by (simp add: x_def algebra_simps)
  qed
  show ?thesis
    unfolding recode_inv_def r fst_conv snd_conv cs
  proof (intro conjI allI impI)
    show "length (e[n := ?w]) = 64" using i(1) by simp
    show "c' = 0 \<or> c' = 1" using c' by blast
    show "hvalue (e[n := ?w]) + 16 ^ Suc n * c' = int (le_nat a)" by (rule v)
    fix j
    show "e[n := ?w] ! j = nibbles a ! j" if "Suc n \<le> j \<and> j < 64" using that i(4) by simp
    have w: "- 8 \<le> sint ?w" "sint ?w \<le> 7" unfolding ns using c' x by auto
    show "- 8 \<le> sint (e[n := ?w] ! j)" "sint (e[n := ?w] ! j) \<le> 7" if "j < Suc n"
      using that i(1,3) n w by (cases "j = n"; simp)+
  qed
qed

text \<open>The digits are between -8 and 8, and they have the value of the scalar.\<close>

theorem recode_ok:
  assumes "length a = 32" and "le_nat a < 2 ^ 255"
  shows "length (recode a) = 64 \<and> (\<forall>x \<in> set (recode a). - 8 \<le> sint x \<and> sint x \<le> 8) \<and> hvalue (recode a) = int (le_nat a)"
proof -
  have l: "length (nibbles a) = 64" using assms(1) by (simp add: length_nibbles)
  have v0: "hvalue (nibbles a) = int (le_nat a)" using nibbles_value [of a] assms(1) by (simp add: hvalue_def)
  have "recode_inv a n (foldl recode_step (nibbles a, 0) [0..<n])" if "n \<le> 63" for n
    using that
  proof (induction n)
    case 0
    show ?case using l v0 by (simp add: recode_inv_def)
  next
    case (Suc n)
    then show ?case using recode_step_inv [OF _ assms(1)] by simp
  qed
  then have "recode_inv a 63 (foldl recode_step (nibbles a, 0) [0..<63])" by (simp only: order_refl)
  then obtain e c where e: "foldl recode_step (nibbles a, 0) [0..<63] = (e, c)" "recode_inv a 63 (e, c)" by (metis surj_pair)
  have i: "length e = 64" "sint c = 0 \<or> sint c = 1" "\<forall>j < 63. - 8 \<le> sint (e ! j) \<and> sint (e ! j) \<le> 7"
    "e ! 63 = nibbles a ! 63" "hvalue e + 16 ^ 63 * sint c = int (le_nat a)"
    using e(2) by (simp_all add: recode_inv_def)
  have nr: "0 \<le> sint (nibbles a ! k)" "sint (nibbles a ! k) \<le> 15" if "k < 64" for k using nibbles_range [of "nibbles a ! k" a] that l by simp_all
  have "16 ^ 63 * sint (nibbles a ! 63) \<le> hvalue (nibbles a)"
    unfolding hvalue_def by (rule member_le_sum) (use nr in auto)
  then have top: "sint (nibbles a ! 63) \<le> 7" using v0 assms(2) by simp
  have r: "recode a = e[63 := e ! 63 + c]" by (simp only: recode_def e(1) prod.case Let_def)
  have "e ! 63 + c = of_int (sint (e ! 63) + sint c)" by simp
  then have s: "sint (e ! 63 + c) = sint (e ! 63) + sint c" using sint8 [of "sint (e ! 63) + sint c"] i(2,4) nr [of 63] top by auto
  have "hvalue (recode a) = int (le_nat a)" unfolding r using i(1,5) by (simp add: hvalue_update s)
  moreover have "- 8 \<le> sint x \<and> sint x \<le> 8" if x: "x \<in> set (recode a)" for x
  proof -
    have "length (recode a) = 64" using i(1) by (simp add: r)
    moreover obtain j where "j < length (recode a)" "recode a ! j = x" using in_set_conv_nth [THEN iffD1, OF x] by blast
    ultimately have j: "j < 64" "x = recode a ! j" by simp_all
    show ?thesis
    proof (cases "j = 63")
      case True
      have "x = e ! 63 + c" unfolding j(2) True r using i(1) by simp
      then have "sint x = sint (nibbles a ! 63) + sint c" using s i(4) by simp
      moreover have "0 \<le> sint (nibbles a ! 63)" by (rule nr) simp
      ultimately show ?thesis using i(2) top by linarith
    next
      case False
      then have "- 8 \<le> sint (e ! j) \<and> sint (e ! j) \<le> 7" using i(3) j(1) by simp
      then show ?thesis using j False by (simp add: r)
    qed
  qed
  ultimately show ?thesis using i(1) by (simp add: r)
qed

section \<open>Choosing a multiple\<close>

definition ge_equal :: "i32 \<Rightarrow> i32 \<Rightarrow> i32" where
  "ge_equal b c = (let x = b XOR c; x = x - 1 in drop_bit 31 x)"

definition ge_negative :: "i32 \<Rightarrow> i32" where
  "ge_negative b = signed_drop_bit 31 b AND 1"

definition PreComputedGroupElementCMove :: "PreComputedGroupElement \<Rightarrow> PreComputedGroupElement \<Rightarrow> i32 \<Rightarrow> PreComputedGroupElement" where
  "PreComputedGroupElementCMove t u b =
     \<lparr>pre_yPlusX = FeCMove (pre_yPlusX t) (pre_yPlusX u) b, pre_yMinusX = FeCMove (pre_yMinusX t) (pre_yMinusX u) b,
      pre_xy2d = FeCMove (pre_xy2d t) (pre_xy2d u) b\<rparr>"

definition selectPoint :: "i32 \<Rightarrow> i32 \<Rightarrow> PreComputedGroupElement" where
  "selectPoint pos b =
     (let bNegative = ge_negative b; bAbs = b - push_bit 1 ((- bNegative) AND b);
          t = foldl (\<lambda>t i. PreComputedGroupElementCMove t (base_table ! unat pos ! i) (ge_equal bAbs (of_nat i + 1))) PreComputed_Zero [0..<8];
          minusT = \<lparr>pre_yPlusX = pre_yMinusX t, pre_yMinusX = pre_yPlusX t, pre_xy2d = FeNeg (pre_xy2d t)\<rparr>
      in PreComputedGroupElementCMove t minusT bNegative)"

definition pre_neg :: "PreComputedGroupElement \<Rightarrow> PreComputedGroupElement" where
  "pre_neg t = \<lparr>pre_yPlusX = pre_yMinusX t, pre_yMinusX = pre_yPlusX t, pre_xy2d = FeNeg (pre_xy2d t)\<rparr>"

definition pre_len :: "PreComputedGroupElement \<Rightarrow> bool" where
  "pre_len q \<longleftrightarrow> length (pre_yPlusX q) = 10 \<and> length (pre_yMinusX q) = 10 \<and> length (pre_xy2d q) = 10"

lemma CMove_ok:
  assumes "pre_len t" and "pre_len u"
  shows "PreComputedGroupElementCMove t u 0 = t" and "PreComputedGroupElementCMove t u 1 = u"
  using assms by (simp_all add: PreComputedGroupElementCMove_def FeCMove_ok pre_len_def)

lemma ge_equal_ok:
  assumes "0 \<le> sint b" and "0 \<le> sint c"
  shows "ge_equal b c = (if b = c then 1 else 0)"
proof (cases "b = c")
  case False
  define x where "x = b XOR c"
  have "\<not> bit b 31" "\<not> bit c 31" using assms bit_last_iff [of b] bit_last_iff [of c] by simp_all
  then have "\<not> bit x 31" by (simp add: x_def bit_xor_iff)
  then have h: "\<not> bit x n" if "31 \<le> n" for n
    using that bit_imp_le_length [of x n] by (cases "n = 31") auto
  have "take_bit 31 x = x" by (rule bit_word_eqI) (use h in \<open>auto simp: bit_take_bit_iff not_less [symmetric]\<close>)
  then have "unat x < 2 ^ 31" by (metis take_bit_nat_less_exp unsigned_take_bit_eq)
  moreover have "x \<noteq> 0"
  proof
    assume "x = 0"
    then have "bit (b XOR c) n = bit (0 :: i32) n" for n unfolding x_def by (rule arg_cong)
    then have "bit b n = bit c n" for n by (simp add: bit_xor_iff)
    then show False using False by (simp add: bit_eq_iff)
  qed
  then have "unat x \<noteq> 0" by (simp add: unat_eq_zero)
  moreover have "unat (x - 1) = unat x - 1" using \<open>x \<noteq> 0\<close> by (rule unat_minus_one)
  ultimately have "unat (x - 1) div 2 ^ 31 = 0" by simp
  then have "unat (drop_bit 31 (x - 1)) = 0" by (simp add: drop_bit_eq_div unat_div)
  then show ?thesis using False by (simp add: ge_equal_def Let_def unat_eq_zero x_def)
qed (simp add: ge_equal_def)

lemma ge_negative_ok: "ge_negative b = (if sint b < 0 then 1 else 0)"
proof -
  have "ge_negative b = of_bool (bit b 31)"
    unfolding ge_negative_def by (rule bit_word_eqI) (auto simp: bit_simps bit_signed_drop_bit_iff bit_1_iff Suc_le_eq)
  then show ?thesis using bit_last_iff [of b] by simp
qed

lemma sint32: "- 1000 \<le> k \<Longrightarrow> k \<le> 1000 \<Longrightarrow> sint (of_int k :: i32) = k"
  by (rule sint_of_int) simp_all

lemma row_ok:
  assumes "p < 32"
  shows "length (base_table ! p) = 8" and "j < 8 \<Longrightarrow> pre_le (base_table ! p ! j)"
  using base_table_le assms by (simp_all add: list_all_length)

lemma pre_le_len: "pre_le q \<Longrightarrow> pre_len q"
  by (auto simp: pre_le_def pre_len_def dest: fe_le_length)

lemma pre_len_Zero: "pre_len PreComputed_Zero"
  by (simp add: pre_len_def PreComputed_Zero_def FeOne_def FeZero_def)

lemma pre_len_neg: "pre_len t \<Longrightarrow> pre_len (pre_neg t)"
  by (simp add: pre_len_def pre_neg_def FeNeg_def)

lemma select_loop:
  assumes "p < 32" and "0 \<le> k" and "k \<le> 8" and "m \<le> 8"
  shows "foldl (\<lambda>t i. PreComputedGroupElementCMove t (base_table ! p ! i) (ge_equal (of_int k) (of_nat i + 1))) PreComputed_Zero [0..<m]
    = (if 1 \<le> k \<and> k \<le> int m then base_table ! p ! nat (k - 1) else PreComputed_Zero)"
  using assms(4)
proof (induction m)
  case (Suc m)
  let ?t = "if 1 \<le> k \<and> k \<le> int m then base_table ! p ! nat (k - 1) else PreComputed_Zero"
  have len: "pre_len (base_table ! p ! j)" if "j < 8" for j using row_ok(2) [OF assms(1) that] by (rule pre_le_len)
  have t: "pre_len ?t" using len [of "nat (k - 1)"] pre_len_Zero assms(3) by auto
  have w: "(of_nat m + 1 :: i32) = of_int (int m + 1)" by simp
  have sk: "sint (of_int k :: i32) = k" "sint (of_nat m + 1 :: i32) = int m + 1"
    unfolding w by (rule sint32; use assms Suc.prems in simp)+
  have "ge_equal (of_int k) (of_nat m + 1) = (if k = int m + 1 then 1 else 0)"
  proof (cases "k = int m + 1")
    case True
    then have "(of_int k :: i32) = of_nat m + 1" by (simp only: w)
    then show ?thesis using True by (simp add: ge_equal_def)
  next
    case False
    have "(of_int k :: i32) \<noteq> of_nat m + 1"
    proof
      assume "(of_int k :: i32) = of_nat m + 1"
      then have "k = int m + 1" using sk by metis
      then show False using False by simp
    qed
    then show ?thesis using ge_equal_ok [of "of_int k" "of_nat m + 1", unfolded sk] assms(2) False by simp
  qed
  then have "foldl (\<lambda>t i. PreComputedGroupElementCMove t (base_table ! p ! i) (ge_equal (of_int k) (of_nat i + 1))) PreComputed_Zero [0..<Suc m]
      = PreComputedGroupElementCMove ?t (base_table ! p ! m) (if k = int m + 1 then 1 else 0)"
    using Suc by simp
  also have "\<dots> = (if 1 \<le> k \<and> k \<le> int (Suc m) then base_table ! p ! nat (k - 1) else PreComputed_Zero)"
    using CMove_ok [OF t len, of m] Suc.prems by auto
  finally show ?case .
qed auto

text \<open>\<open>selectPoint\<close> takes entry \<open>|b|\<close> of the row, negated for negative \<open>b\<close>, and the neutral element for 0.\<close>

theorem selectPoint_ok:
  assumes "unat pos < 32" and "- 8 \<le> sint b" and "sint b \<le> 8"
  shows "selectPoint pos b =
     (if sint b = 0 then PreComputed_Zero
      else if 0 < sint b then base_table ! unat pos ! nat (sint b - 1)
      else pre_neg (base_table ! unat pos ! nat (- sint b - 1)))"
proof -
  let ?k = "\<bar>sint b\<bar>"
  let ?t = "if 1 \<le> ?k then base_table ! unat pos ! nat (?k - 1) else PreComputed_Zero"
  have b: "of_int (sint b) = b" by (rule word_of_sint)
  have "b - push_bit 1 ((- ge_negative b) AND b) = of_int ?k"
    using b by (simp add: ge_negative_ok push_bit_eq_mult abs_if)
  moreover have "?k \<le> 8" using assms(2,3) by simp
  ultimately have s: "selectPoint pos b = PreComputedGroupElementCMove ?t (pre_neg ?t) (ge_negative b)"
    unfolding selectPoint_def Let_def pre_neg_def using select_loop [OF assms(1), of ?k 8] by simp
  have "pre_len ?t" using pre_le_len [OF row_ok(2) [OF assms(1), of "nat (?k - 1)"]] pre_len_Zero \<open>?k \<le> 8\<close> by auto
  from CMove_ok [OF this pre_len_neg [OF this]] show ?thesis unfolding s by (auto simp: ge_negative_ok)
qed

section \<open>Multiples of the base point\<close>

definition mixed_adds :: "i8 list \<Rightarrow> nat list \<Rightarrow> ExtendedGroupElement \<Rightarrow> ExtendedGroupElement" where
  "mixed_adds e is h =
     foldl (\<lambda>h i. Completed_ToExtended (geMixedAdd h (selectPoint (of_nat (i div 2)) (scast (e ! i))))) h is"

definition GeScalarMultBase :: "bytes \<Rightarrow> ExtendedGroupElement" where
  "GeScalarMultBase a =
     (let e = recode a; h = mixed_adds e (map (\<lambda>k. 2 * k + 1) [0..<32]) Extended_Zero;
          s = Completed_ToProjective (Extended_Double h); s = Completed_ToProjective (Projective_Double s);
          s = Completed_ToProjective (Projective_Double s); h = Completed_ToExtended (Projective_Double s)
      in mixed_adds e (map (\<lambda>k. 2 * k) [0..<32]) h)"

subsection \<open>The limbs stay within bounds\<close>

definition ext_le :: "ExtendedGroupElement \<Rightarrow> bool" where
  "ext_le p \<longleftrightarrow> fe_le 101 (ext_X p) \<and> fe_le 101 (ext_Y p) \<and> fe_le 101 (ext_Z p) \<and> fe_le 101 (ext_T p)"

definition proj_le :: "ProjectiveGroupElement \<Rightarrow> bool" where
  "proj_le p \<longleftrightarrow> fe_le 101 (proj_X p) \<and> fe_le 101 (proj_Y p) \<and> fe_le 101 (proj_Z p)"

definition comp_le :: "CompletedGroupElement \<Rightarrow> bool" where
  "comp_le p \<longleftrightarrow> fe_le 303 (comp_X p) \<and> fe_le 303 (comp_Y p) \<and> fe_le 303 (comp_Z p) \<and> fe_le 303 (comp_T p)"

definition cached_le :: "CachedGroupElement \<Rightarrow> bool" where
  "cached_le q \<longleftrightarrow> fe_le 301 (cached_yPlusX q) \<and> fe_le 301 (cached_yMinusX q) \<and> fe_le 101 (cached_Z q) \<and> fe_le 101 (cached_T2d q)"

lemma FeMul_101: "fe_le m f \<Longrightarrow> fe_le n g \<Longrightarrow> m \<le> 330 \<and> n \<le> 330 \<Longrightarrow> fe_le 101 (FeMul f g)"
  using FeMul_le by blast

lemma FeSquare_101: "fe_le m f \<Longrightarrow> m \<le> 330 \<Longrightarrow> fe_le 101 (FeSquare f)"
  using FeSquare_ok(1) fe_le_mono by blast

lemma FeSquare2_101: "fe_le m f \<Longrightarrow> m \<le> 330 \<Longrightarrow> fe_le 101 (FeSquare2 f)"
  using FeSquare2_ok(1) fe_le_mono by blast

lemma FeAdd_le: "fe_le m f \<Longrightarrow> fe_le n g \<Longrightarrow> m + n \<le> k \<and> k \<le> 330 \<Longrightarrow> fe_le k (FeAdd f g)"
  using FeAdd_ok(1) [of m f n g] fe_le_mono by simp

lemma FeSub_le: "fe_le m f \<Longrightarrow> fe_le n g \<Longrightarrow> m + n \<le> k \<and> k \<le> 330 \<Longrightarrow> fe_le k (FeSub f g)"
  using FeSub_ok(1) [of m f n g] fe_le_mono by simp

lemma sums_le: "fe_le 101 f \<Longrightarrow> fe_le 101 g \<Longrightarrow> fe_le 303 (FeAdd f g) \<and> fe_le 303 (FeSub f g)"
  using FeAdd_le [of 101 f 101 g 303] FeSub_le [of 101 f 101 g 303] by simp

lemma sums3_le: "fe_le 101 f \<Longrightarrow> fe_le 101 g \<Longrightarrow> fe_le 303 (FeAdd (FeAdd f f) g) \<and> fe_le 303 (FeSub (FeAdd f f) g)"
  using FeAdd_le [of 202 "FeAdd f f" 101 g 303] FeSub_le [of 202 "FeAdd f f" 101 g 303] FeAdd_le [of 101 f 101 f 202] by simp

lemma geMixedAdd_le:
  assumes "ext_le p" and "pre_le q"
  shows "comp_le (geMixedAdd p q)" and "comp_le (geMixedSub p q)"
proof -
  have p: "fe_le 101 (ext_X p)" "fe_le 101 (ext_Y p)" "fe_le 101 (ext_Z p)" "fe_le 101 (ext_T p)" using assms(1) by (simp_all add: ext_le_def)
  have q: "fe_le 101 (pre_yPlusX q)" "fe_le 101 (pre_yMinusX q)" "fe_le 101 (pre_xy2d q)" using assms(2) by (simp_all add: pre_le_def)
  have m: "fe_le 101 (FeMul (FeAdd (ext_Y p) (ext_X p)) f) \<and> fe_le 101 (FeMul (FeSub (ext_Y p) (ext_X p)) f)" if "fe_le 101 f" for f
    using FeMul_101 [of 303 _ 101 f] sums_le [OF p(2,1)] that by simp
  have T: "fe_le 101 (FeMul (pre_xy2d q) (ext_T p))" by (rule FeMul_101 [OF q(3) p(4)]) simp
  show "comp_le (geMixedAdd p q)" "comp_le (geMixedSub p q)"
    using sums_le m [OF q(1)] m [OF q(2)] sums3_le [OF p(3) T] by (simp_all add: comp_le_def geMixedAdd_def geMixedSub_def Let_def)
qed

lemma Completed_ToExtended_le: "comp_le r \<Longrightarrow> ext_le (Completed_ToExtended r)"
  by (simp add: comp_le_def ext_le_def Completed_ToExtended_def FeMul_101 [of 303 _ 303])

lemma Extended_ToProjective_le: "ext_le p \<Longrightarrow> proj_le (Extended_ToProjective p)"
  by (simp add: ext_le_def proj_le_def Extended_ToProjective_def)

lemma Completed_ToProjective_le: "comp_le r \<Longrightarrow> proj_le (Completed_ToProjective r)"
  by (simp add: Completed_ToProjective_eq Extended_ToProjective_le Completed_ToExtended_le)

lemma Projective_Double_le:
  assumes "fe_le 200 (proj_X p)" and "fe_le 101 (proj_Y p)" and "fe_le 101 (proj_Z p)"
  shows "comp_le (Projective_Double p)"
proof -
  have s: "fe_le 101 (FeSquare (proj_X p))" "fe_le 101 (FeSquare (proj_Y p))" "fe_le 101 (FeSquare2 (proj_Z p))"
    "fe_le 101 (FeSquare (FeAdd (proj_X p) (proj_Y p)))"
    using FeSquare_101 [OF assms(1)] FeSquare_101 [OF assms(2)] FeSquare2_101 [OF assms(3)] FeSquare_101 [OF FeAdd_le [OF assms(1,2)], of 301 ] by simp_all
  let ?Y = "FeAdd (FeSquare (proj_Y p)) (FeSquare (proj_X p))" and ?Z = "FeSub (FeSquare (proj_Y p)) (FeSquare (proj_X p))"
  have YZ: "fe_le 202 ?Y" "fe_le 202 ?Z" using FeAdd_le [OF s(2,1)] FeSub_le [OF s(2,1)] by simp_all
  show ?thesis
    using sums_le [OF s(2,1)] FeSub_le [OF s(4) YZ(1), of 303] FeSub_le [OF s(3) YZ(2), of 303]
    by (simp add: comp_le_def Projective_Double_def Let_def)
qed

lemma proj_le_Double: "proj_le p \<Longrightarrow> comp_le (Projective_Double p)"
  unfolding proj_le_def using Projective_Double_le [of p] fe_le_mono [of 101 "proj_X p" 200] by simp

lemma pre_le_neg: "pre_le q \<Longrightarrow> pre_le (pre_neg q)"
  using FeNeg_ok(1) [of 101 "pre_xy2d q"] by (simp add: pre_le_def pre_neg_def)

lemma pre_le_Zero: "pre_le PreComputed_Zero"
  using PreComputed_Zero_ok by (simp add: pre_is_def pre_le_def)

lemma selectPoint_le:
  assumes "unat pos < 32" and "- 8 \<le> sint b" and "sint b \<le> 8"
  shows "pre_le (selectPoint pos b)"
proof -
  have "pre_le (base_table ! unat pos ! j)" if "j < 8" for j by (rule row_ok(2) [OF assms(1) that])
  then show ?thesis using assms(2,3) by (simp add: selectPoint_ok [OF assms] pre_le_Zero pre_le_neg nat_less_iff)
qed

lemma digit_point:
  assumes "x \<in> set e" and "\<forall>x \<in> set e. - 8 \<le> sint x \<and> sint x \<le> 8"
  shows "- 8 \<le> sint (scast (x :: i8) :: i32) \<and> sint (scast x :: i32) \<le> 8"
proof -
  have "(scast x :: i32) = of_int (sint x)" by (rule scast_eq)
  moreover have "- 8 \<le> sint x \<and> sint x \<le> 8" using assms by blast
  ultimately show ?thesis using sint32 [of "sint x"] by simp
qed

lemma mixed_adds_le:
  assumes "ext_le h" and "\<forall>i \<in> set is. i < 64" and "length e = 64" and "\<forall>x \<in> set e. - 8 \<le> sint x \<and> sint x \<le> 8"
  shows "ext_le (mixed_adds e is h)"
  using assms(1,2)
proof (induction "is" arbitrary: h)
  case (Cons i "is")
  have "i div 2 < 32" using Cons.prems(2) by auto
  then have "unat (of_nat (i div 2) :: i32) < 32" by (simp add: unat_of_nat)
  moreover have "e ! i \<in> set e" using Cons.prems(2) assms(3) by simp
  ultimately have "pre_le (selectPoint (of_nat (i div 2)) (scast (e ! i)))"
    using digit_point [OF _ assms(4), of "e ! i"] by (intro selectPoint_le) simp_all
  then show ?case using Cons by (simp add: mixed_adds_def Completed_ToExtended_le geMixedAdd_le(1))
qed (simp add: mixed_adds_def)

lemma Extended_Zero_le: "ext_le Extended_Zero"
  using FeZero_ok(1) FeOne_ok(1) by (simp add: ext_le_def Extended_Zero_def fe_le_mono)

text \<open>For every scalar below \<open>2 ^ 255\<close>, all arithmetic of \<open>GeScalarMultBase\<close> is within the bounds for which it
  is exact modulo the prime.\<close>

theorem GeScalarMultBase_le:
  assumes "length a = 32" and "le_nat a < 2 ^ 255"
  shows "ext_le (GeScalarMultBase a)"
proof -
  note e = recode_ok [OF assms]
  show ?thesis
    unfolding GeScalarMultBase_def Let_def Extended_Double_def
    by (intro mixed_adds_le Completed_ToExtended_le proj_le_Double Completed_ToProjective_le Extended_ToProjective_le Extended_Zero_le)
      (use e in auto)
qed

subsection \<open>The sum follows the addition law\<close>

text \<open>\<open>adds Q is P R\<close>: \<open>R\<close> is \<open>P\<close> plus the points \<open>Q i\<close>, added in the order of the list by the affine law.\<close>

fun adds :: "(nat \<Rightarrow> int \<times> int) \<Rightarrow> nat list \<Rightarrow> int \<times> int \<Rightarrow> int \<times> int \<Rightarrow> bool" where
  "adds Q [] P R \<longleftrightarrow> R = P"
| "adds Q (i # is) P R \<longleftrightarrow> (\<exists>P'. ed_sum P (Q i) P' \<and> adds Q is P' R)"

definition doubles :: "int \<times> int \<Rightarrow> int \<times> int \<Rightarrow> bool" where
  "doubles P R \<longleftrightarrow> on_curve (fst P) (snd P) \<and> ed_sum P P R"

definition digit_points :: "i8 list \<Rightarrow> (nat \<Rightarrow> int \<times> int) \<Rightarrow> bool" where
  "digit_points e Q \<longleftrightarrow> (\<forall>i < 64. pre_is (selectPoint (of_nat (i div 2)) (scast (e ! i))) (Q i))"

lemma mixed_adds_ok:
  assumes "ext_is h P" and "digit_points e Q" and "\<forall>i \<in> set is. i < 64" and "adds Q is P R"
  shows "ext_is (mixed_adds e is h) R"
  using assms(1,3,4)
proof (induction "is" arbitrary: h P)
  case (Cons i "is")
  obtain P' where P': "ed_sum P (Q i) P'" "adds Q is P' R" using Cons.prems(3) by auto
  have "pre_is (selectPoint (of_nat (i div 2)) (scast (e ! i))) (Q i)" using assms(2) Cons.prems(2) by (simp add: digit_points_def)
  from Completed_ToExtended_ok [OF geMixedAdd_ok [OF Cons.prems(1) this P'(1)]]
  show ?case using Cons.IH [OF _ _ P'(2)] Cons.prems(2) by (simp add: mixed_adds_def)
qed (simp add: mixed_adds_def)

text \<open>\<open>GeScalarMultBase\<close> adds the points of the odd digits, doubles four times, and adds those of the even
  digits: with entry \<open>i\<close> of the table for the power \<open>256 ^ i\<close>, the sum of \<open>e[i] * 16 ^ i * B\<close>.\<close>

theorem GeScalarMultBase_ok:
  assumes "digit_points (recode a) Q" and "adds Q (map (\<lambda>k. 2 * k + 1) [0..<32]) (0, 1) P1"
    and "doubles P1 P2" and "doubles P2 P4" and "doubles P4 P8" and "doubles P8 P16"
    and "adds Q (map (\<lambda>k. 2 * k) [0..<32]) P16 R"
  shows "ext_is (GeScalarMultBase a) R"
proof -
  let ?e = "recode a"
  let ?h = "mixed_adds ?e (map (\<lambda>k. 2 * k + 1) [0..<32]) Extended_Zero"
  have "ext_is ?h P1" by (rule mixed_adds_ok [OF Extended_Zero_ok assms(1) _ assms(2)]) auto
  note d = Projective_Double_ok [OF _ conjunct1 [OF assms(3) [unfolded doubles_def]] conjunct2 [OF assms(3) [unfolded doubles_def]]]
    Projective_Double_ok [OF _ conjunct1 [OF assms(4) [unfolded doubles_def]] conjunct2 [OF assms(4) [unfolded doubles_def]]]
    Projective_Double_ok [OF _ conjunct1 [OF assms(5) [unfolded doubles_def]] conjunct2 [OF assms(5) [unfolded doubles_def]]]
    Projective_Double_ok [OF _ conjunct1 [OF assms(6) [unfolded doubles_def]] conjunct2 [OF assms(6) [unfolded doubles_def]]]
  have s4: "comp_is (Projective_Double (Completed_ToProjective (Projective_Double (Completed_ToProjective (Projective_Double
      (Completed_ToProjective (Extended_Double ?h))))))) P16"
    unfolding Extended_Double_def
    by (intro d(4) Completed_ToProjective_ok d(3) d(2) d(1) Extended_ToProjective_ok \<open>ext_is ?h P1\<close>)
  show ?thesis
    unfolding GeScalarMultBase_def Let_def
    by (rule mixed_adds_ok [OF Completed_ToExtended_ok [OF s4] assms(1) _ assms(7)]) auto
qed

text \<open>The base point.\<close>

definition base_point :: "int \<times> int" where
  "base_point =
     (15112221349535400772501151409588531511454012693041857206046113283949847762202,
      46316835694926478169428394003475163141307993866256225615783033603165251855960)"

lemma dd_value: "dd = - 20800338683988658368647408995589388737092878452977063003340006470870624536394"
  by (simp add: dd_def fe_d_def feval_list)

lemma base_square: "feq (fst base_point ^ 2) 26187595835145689230469591415084376402084551887632582719101735842039498021991" "feq (snd base_point ^ 2) 37053468555941182535542715202780130513046395093004980492626426882532201484768" "feq (dd * (26187595835145689230469591415084376402084551887632582719101735842039498021991 * 37053468555941182535542715202780130513046395093004980492626426882532201484768)) 10865872720795493305073123787695754110961843205372397773524691040492703462776"
proof -
  show "feq (fst base_point ^ 2) 26187595835145689230469591415084376402084551887632582719101735842039498021991" "feq (snd base_point ^ 2) 37053468555941182535542715202780130513046395093004980492626426882532201484768"
    by (simp_all add: base_point_def feq_def p25519_def)
  have "feq (26187595835145689230469591415084376402084551887632582719101735842039498021991 * 37053468555941182535542715202780130513046395093004980492626426882532201484768) 30655112042971184558329056706696549839726511367961720624960021019854854290862" by (simp add: feq_def p25519_def)
  then have "feq (dd * (26187595835145689230469591415084376402084551887632582719101735842039498021991 * 37053468555941182535542715202780130513046395093004980492626426882532201484768)) (dd * 30655112042971184558329056706696549839726511367961720624960021019854854290862)" by (rule feq_mult [OF feq_refl])
  also have "feq (dd * 30655112042971184558329056706696549839726511367961720624960021019854854290862) 10865872720795493305073123787695754110961843205372397773524691040492703462776" by (simp add: feq_def p25519_def dd_value)
  finally show "feq (dd * (26187595835145689230469591415084376402084551887632582719101735842039498021991 * 37053468555941182535542715202780130513046395093004980492626426882532201484768)) 10865872720795493305073123787695754110961843205372397773524691040492703462776" .
qed

lemma base_point_ok: "on_curve (fst base_point) (snd base_point)" "feq (5 * snd base_point) 4" "fst base_point mod p25519 mod 2 = 0"
proof -
  have "feq (snd base_point ^ 2 - fst base_point ^ 2) (37053468555941182535542715202780130513046395093004980492626426882532201484768 - 26187595835145689230469591415084376402084551887632582719101735842039498021991)" by (intro feq_diff base_square)
  also have "feq \<dots> (1 + 10865872720795493305073123787695754110961843205372397773524691040492703462776)" by (simp add: feq_def p25519_def)
  also have "feq (1 + 10865872720795493305073123787695754110961843205372397773524691040492703462776) (1 + dd * (26187595835145689230469591415084376402084551887632582719101735842039498021991 * 37053468555941182535542715202780130513046395093004980492626426882532201484768))" by (intro feq_add feq_refl feq_sym [OF base_square(3)])
  also have "feq \<dots> (1 + dd * (fst base_point ^ 2 * snd base_point ^ 2))" by (intro feq_add feq_mult feq_refl feq_sym [OF base_square(1)] feq_sym [OF base_square(2)])
  finally show "on_curve (fst base_point) (snd base_point)" by (simp only: on_curve_def mult.assoc)
  show "feq (5 * snd base_point) 4" "fst base_point mod p25519 mod 2 = 0" by (simp_all add: base_point_def feq_def p25519_def)
qed

lemma base_entry: "pre_is (base_table ! 0 ! 0) base_point"
proof -
  let ?f = "[25967493, - 14356035, 29566456, 3660896, - 12694345, 4014787, 27544626, - 11754271, - 6079156, 2047605]"
    and ?g = "[- 12545711, 934262, - 2722910, 3049990, - 727428, 9406986, 12720692, 5043384, 19500929, - 15469378]"
    and ?h = "[- 8738181, 4489570, 9688441, - 14785194, 10184609, - 12363380, 29287919, 11864899, - 24514362, - 4438546]"
  have "base_table ! 0 = base_0" by (simp add: base_table_def)
  then have e: "base_table ! 0 ! 0 = pre_of ?f ?g ?h" by (simp only: base_0_def nth_Cons_0)
  have s: "small_limbs ?f" "small_limbs ?g" "small_limbs ?h" by (simp_all add: small_limbs_def)
  note v = small_limbs_le(2) [OF s(1)] small_limbs_le(2) [OF s(2)] small_limbs_le(2) [OF s(3)]
  have "feq (value_of fe_weights ?f) (snd base_point + fst base_point)" "feq (value_of fe_weights ?g) (snd base_point - fst base_point)"
    by (simp_all add: fe_weights_def value_of_Cons value_of_Nil base_point_def feq_def p25519_def)
  moreover have "feq (value_of fe_weights ?h) (2 * dd * fst base_point * snd base_point)"
  proof -
    have xy: "feq (fst base_point * snd base_point) 46827403850823179245072216630277197565144205554125654976674165829533817101731" by (simp add: base_point_def feq_def p25519_def)
    have "feq (value_of fe_weights ?h) (2 * dd * 46827403850823179245072216630277197565144205554125654976674165829533817101731)"
      by (simp add: fe_weights_def value_of_Cons value_of_Nil feq_def p25519_def dd_value)
    also have "feq (2 * dd * 46827403850823179245072216630277197565144205554125654976674165829533817101731) (2 * dd * (fst base_point * snd base_point))" by (intro feq_mult feq_refl feq_sym [OF xy])
    finally show ?thesis by (simp only: mult.assoc)
  qed
  ultimately show ?thesis
    using small_limbs_le(1) [OF s(1)] small_limbs_le(1) [OF s(2)] small_limbs_le(1) [OF s(3)]
    by (simp only: pre_is_def e pre_of_def PreComputedGroupElement.select_convs v simp_thms)
qed

lemma ed_sum_zero: "ed_sum P (0, 1) P" "ed_sum (0, 1) P P"
  by (cases P; simp add: ed_sum_def fe_unit_1)+

lemma recode_one: "recode (1 # replicate 31 0) = 1 # replicate 63 0"
  by code_simp

theorem GeScalarMultBase_ok_witness: "ext_is (GeScalarMultBase (1 # replicate 31 0)) base_point"
proof -
  let ?Q = "\<lambda>i. if i = 0 then base_point else (0, 1) :: int \<times> int"
  have d: "digit_points (recode (1 # replicate 31 0)) ?Q"
    unfolding digit_points_def recode_one
  proof (intro allI impI)
    fix i :: nat assume i: "i < 64"
    have "i div 2 < 32" using i by auto
    then have p: "unat (of_nat (i div 2) :: i32) = i div 2" by (simp add: unat_of_nat)
    show "pre_is (selectPoint (of_nat (i div 2)) (scast ((1 # replicate 63 (0 :: i8)) ! i))) (?Q i)"
      using base_entry PreComputed_Zero_ok i \<open>i div 2 < 32\<close> p by (cases i) (simp_all add: selectPoint_ok nth_Cons')
  qed
  have z: "adds ?Q is P P" if "\<forall>i \<in> set is. i \<noteq> 0" for "is" P
    using that by (induction "is") (auto intro: ed_sum_zero simp del: split_paired_Ex)
  have odd: "adds ?Q (map (\<lambda>k. 2 * k + 1) [0..<32]) (0, 1) (0, 1)" by (rule z) auto
  have even: "adds ?Q (map (\<lambda>k. 2 * k) [0..<32]) (0, 1) base_point"
  proof -
    have e: "map (\<lambda>k. 2 * k) [0..<32 :: nat] = 0 # map (\<lambda>k. 2 * k) [1..<32]" by (simp add: upt_conv_Cons del: upt_rec_numeral)
    have "adds ?Q (map (\<lambda>k. 2 * k) [1..<32]) base_point base_point" by (rule z) auto
    moreover have "ed_sum (0, 1) (?Q 0) base_point" by (simp add: ed_sum_zero)
    ultimately show ?thesis unfolding e adds.simps by blast
  qed
  have "doubles (0, 1) (0, 1)" using ed_sum_zero by (simp add: doubles_def on_curve_def)
  from GeScalarMultBase_ok [OF d odd this this this this even] show ?thesis .
qed

section \<open>Sums of two multiples\<close>

text \<open>\<open>Ai\<close>: the multiples \<open>A, 3A, ..., 15A\<close>.\<close>

definition dsm_table :: "ExtendedGroupElement \<Rightarrow> CachedGroupElement list" where
  "dsm_table A =
     (let A2 = Completed_ToExtended (Extended_Double A)
      in foldl (\<lambda>Ai i. Ai @ [Extended_ToCached (Completed_ToExtended (geAdd A2 (Ai ! i)))]) [Extended_ToCached A] [0..<7])"

text \<open>One turn of the loop; the division is that of \<open>int8\<close>.\<close>

definition dsm_step :: "CachedGroupElement list \<Rightarrow> i8 list \<Rightarrow> i8 list \<Rightarrow> ProjectiveGroupElement \<Rightarrow> nat \<Rightarrow> ProjectiveGroupElement" where
  "dsm_step Ai aSlide bSlide r i =
     (let t = Projective_Double r;
          t = (if 0 < sint (aSlide ! i) then geAdd (Completed_ToExtended t) (Ai ! nat (sint (aSlide ! i) div 2))
               else if sint (aSlide ! i) < 0 then geSub (Completed_ToExtended t) (Ai ! nat (sint (- (aSlide ! i)) div 2))
               else t);
          t = (if 0 < sint (bSlide ! i) then geMixedAdd (Completed_ToExtended t) (bi_table ! nat (sint (bSlide ! i) div 2))
               else if sint (bSlide ! i) < 0 then geMixedSub (Completed_ToExtended t) (bi_table ! nat (sint (- (bSlide ! i)) div 2))
               else t)
      in Completed_ToProjective t)"

definition GeDoubleScalarMultVartime :: "bytes \<Rightarrow> ExtendedGroupElement \<Rightarrow> bytes \<Rightarrow> ProjectiveGroupElement" where
  "GeDoubleScalarMultVartime a A b =
     (let aSlide = slide a; bSlide = slide b
      in foldl (dsm_step (dsm_table A) aSlide bSlide) Projective_Zero
           (dropWhile (\<lambda>i. aSlide ! i = 0 \<and> bSlide ! i = 0) (rev [0..<256])))"

subsection \<open>Bounds\<close>

lemma geAdd_le:
  assumes "ext_le p" and "cached_le q"
  shows "comp_le (geAdd p q)" and "comp_le (geSub p q)"
proof -
  have p: "fe_le 101 (ext_X p)" "fe_le 101 (ext_Y p)" "fe_le 101 (ext_Z p)" "fe_le 101 (ext_T p)" using assms(1) by (simp_all add: ext_le_def)
  have q: "fe_le 301 (cached_yPlusX q)" "fe_le 301 (cached_yMinusX q)" "fe_le 101 (cached_Z q)" "fe_le 101 (cached_T2d q)" using assms(2) by (simp_all add: cached_le_def)
  have m: "fe_le 101 (FeMul (FeAdd (ext_Y p) (ext_X p)) f) \<and> fe_le 101 (FeMul (FeSub (ext_Y p) (ext_X p)) f)" if "fe_le 301 f" for f
    using FeMul_101 [of 303 _ 301 f] sums_le [OF p(2,1)] that by simp
  have T: "fe_le 101 (FeMul (cached_T2d q) (ext_T p))" by (rule FeMul_101 [OF q(4) p(4)]) simp
  have Z: "fe_le 101 (FeMul (ext_Z p) (cached_Z q))" by (rule FeMul_101 [OF p(3) q(3)]) simp
  show "comp_le (geAdd p q)" "comp_le (geSub p q)"
    using sums_le m [OF q(1)] m [OF q(2)] sums3_le [OF Z T] by (simp_all add: comp_le_def geAdd_def geSub_def Let_def)
qed

lemma Extended_ToCached_le:
  assumes "fe_le 200 (ext_X p)" and "fe_le 101 (ext_Y p)" and "fe_le 101 (ext_Z p)" and "fe_le 101 (ext_T p)"
  shows "cached_le (Extended_ToCached p)"
  using FeAdd_le [OF assms(2,1), of 301] FeSub_le [OF assms(2,1), of 301] assms(3) FeMul_101 [OF assms(4) consts_le(2)]
  by (simp add: cached_le_def Extended_ToCached_def)

lemma ext_le_ToCached: "ext_le p \<Longrightarrow> cached_le (Extended_ToCached p)"
  unfolding ext_le_def using Extended_ToCached_le [of p] fe_le_mono [of 101 "ext_X p" 200] by simp

lemma dsm_table_le:
  assumes "fe_le 200 (ext_X A)" and "fe_le 101 (ext_Y A)" and "fe_le 101 (ext_Z A)" and "fe_le 101 (ext_T A)"
  shows "length (dsm_table A) = 8 \<and> list_all cached_le (dsm_table A)"
proof -
  let ?A2 = "Completed_ToExtended (Extended_Double A)"
  let ?f = "\<lambda>Ai i. Ai @ [Extended_ToCached (Completed_ToExtended (geAdd ?A2 (Ai ! i)))]"
  have A2: "ext_le ?A2"
    unfolding Extended_Double_def by (intro Completed_ToExtended_le Projective_Double_le) (use assms in \<open>simp_all add: Extended_ToProjective_def\<close>)
  have "length (foldl ?f [Extended_ToCached A] [0..<n]) = Suc n \<and> list_all cached_le (foldl ?f [Extended_ToCached A] [0..<n])" for n
  proof (induction n)
    case 0
    then show ?case using Extended_ToCached_le [OF assms] by simp
  next
    case (Suc n)
    then have "cached_le (foldl ?f [Extended_ToCached A] [0..<n] ! n)" by (simp add: list_all_length)
    from ext_le_ToCached [OF Completed_ToExtended_le [OF geAdd_le(1) [OF A2 this]]] show ?case using Suc by simp
  qed
  from this [of 7] show ?thesis unfolding dsm_table_def Let_def by (simp only:) simp
qed

lemma digit_index:
  assumes "digit_ok x" and "x \<noteq> 0"
  shows "0 < sint x \<Longrightarrow> nat (sint x div 2) < 8" and "sint x < 0 \<Longrightarrow> nat (sint (- x) div 2) < 8"
    and "0 < sint x \<or> sint x < 0"
proof -
  have x: "odd (sint x)" "\<bar>sint x\<bar> \<le> 15" using assms by (auto simp: digit_ok_def)
  show "0 < sint x \<Longrightarrow> nat (sint x div 2) < 8" using x by (simp add: nat_less_iff)
  have "- x = of_int (- sint x)" by simp
  then have "sint (- x) = - sint x" using sint8 [of "- sint x"] x(2) by (simp add: abs_le_iff)
  then show "sint x < 0 \<Longrightarrow> nat (sint (- x) div 2) < 8" using x by (simp add: nat_less_iff abs_le_iff)
  show "0 < sint x \<or> sint x < 0" using x(1) by (cases "sint x = 0") auto
qed

lemma dsm_step_le:
  assumes "proj_le r" and "length Ai = 8 \<and> list_all cached_le Ai" and "digit_ok (aSlide ! i)" and "digit_ok (bSlide ! i)"
  shows "proj_le (dsm_step Ai aSlide bSlide r i)"
proof -
  have Ai: "cached_le (Ai ! j)" if "j < 8" for j using assms(2) that by (simp add: list_all_length)
  have bi: "pre_le (bi_table ! j)" if "j < 8" for j using bi_table_le that by (simp add: list_all_length)
  define t1 where "t1 = (if 0 < sint (aSlide ! i) then geAdd (Completed_ToExtended (Projective_Double r)) (Ai ! nat (sint (aSlide ! i) div 2))
      else if sint (aSlide ! i) < 0 then geSub (Completed_ToExtended (Projective_Double r)) (Ai ! nat (sint (- (aSlide ! i)) div 2))
      else Projective_Double r)"
  note D = proj_le_Double [OF assms(1)]
  have t1: "comp_le t1"
  proof (cases "aSlide ! i = 0")
    case True
    then show ?thesis using D by (simp add: t1_def)
  next
    case False
    note d = digit_index [OF assms(3) False]
    show ?thesis unfolding t1_def
      using d(3) by (auto intro!: geAdd_le Completed_ToExtended_le D Ai d(1,2))
  qed
  define t2 where "t2 = (if 0 < sint (bSlide ! i) then geMixedAdd (Completed_ToExtended t1) (bi_table ! nat (sint (bSlide ! i) div 2))
      else if sint (bSlide ! i) < 0 then geMixedSub (Completed_ToExtended t1) (bi_table ! nat (sint (- (bSlide ! i)) div 2))
      else t1)"
  have "comp_le t2"
  proof (cases "bSlide ! i = 0")
    case True
    then show ?thesis using t1 by (simp add: t2_def)
  next
    case False
    note d = digit_index [OF assms(4) False]
    show ?thesis unfolding t2_def
      using d(3) by (auto intro!: geMixedAdd_le Completed_ToExtended_le t1 bi d(1,2))
  qed
  then have "proj_le (Completed_ToProjective t2)" by (rule Completed_ToProjective_le)
  then show ?thesis by (simp only: dsm_step_def Let_def t1_def t2_def)
qed

text \<open>Whatever the point and the scalars, no limb overflows.\<close>

theorem GeDoubleScalarMultVartime_le:
  assumes "length a = 32" and "le_nat a < 2 ^ 255" and "length b = 32" and "le_nat b < 2 ^ 255"
    and "fe_le 200 (ext_X A)" and "fe_le 101 (ext_Y A)" and "fe_le 101 (ext_Z A)" and "fe_le 101 (ext_T A)"
  shows "proj_le (GeDoubleScalarMultVartime a A b)"
proof -
  note sa = slide_ok [OF assms(1,2)] and sb = slide_ok [OF assms(3,4)]
  have d: "digit_ok (slide a ! i)" "digit_ok (slide b ! i)" if "i < 256" for i using sa sb that by simp_all
  have "proj_le (foldl (dsm_step (dsm_table A) (slide a) (slide b)) r is)" if "proj_le r" "\<forall>i \<in> set is. i < 256" for r "is"
    using that
  proof (induction "is" arbitrary: r)
    case (Cons i "is")
    then show ?case using dsm_step_le [OF Cons.prems(1) dsm_table_le [OF assms(5-8)] d(1) [of i] d(2) [of i]] by simp
  qed simp
  moreover have "proj_le Projective_Zero"
    using FeZero_ok(1) FeOne_ok(1) by (simp add: proj_le_def Projective_Zero_def fe_le_mono)
  moreover have "\<forall>i \<in> set (dropWhile (\<lambda>i. slide a ! i = 0 \<and> slide b ! i = 0) (rev [0..<256])). i < 256"
    using set_dropWhileD by fastforce
  ultimately show ?thesis unfolding GeDoubleScalarMultVartime_def Let_def by blast
qed

end
