(* ===== verification/GeDouble.thy ===== *)
theory GeDouble
  imports GeScalar
begin

text \<open>
  The sum of two multiples (\<open>GeDoubleScalarMultVartime\<close> of \<open>ed25519/edwards25519/edwards25519.go\<close>)
  follows the addition law of the curve: for every run of the law over the signed digits of the two
  scalars, the code returns the point that the run ends in.
\<close>

definition signed_sum :: "i8 \<Rightarrow> int \<times> int \<Rightarrow> (nat \<Rightarrow> int \<times> int) \<Rightarrow> int \<times> int \<Rightarrow> bool" where
  "signed_sum x P Q R \<longleftrightarrow>
     (if 0 < sint x then ed_sum P (Q (nat (sint x div 2))) R
      else if sint x < 0 then ed_sum P (ed_neg (Q (nat (sint (- x) div 2)))) R
      else R = P)"

fun dsm_run :: "i8 list \<Rightarrow> i8 list \<Rightarrow> (nat \<Rightarrow> int \<times> int) \<Rightarrow> (nat \<Rightarrow> int \<times> int) \<Rightarrow> nat list \<Rightarrow> int \<times> int \<Rightarrow> int \<times> int \<Rightarrow> bool" where
  "dsm_run x y Qa Qb [] P R \<longleftrightarrow> R = P"
| "dsm_run x y Qa Qb (i # is) P R \<longleftrightarrow>
     (\<exists>D D1 D2. doubles P D \<and> signed_sum (x ! i) D Qa D1 \<and> signed_sum (y ! i) D1 Qb D2 \<and> dsm_run x y Qa Qb is D2 R)"

definition used :: "i8 list \<Rightarrow> nat \<Rightarrow> bool" where
  "used x j \<longleftrightarrow> (\<exists>d \<in> set x. 0 < sint d \<and> j = nat (sint d div 2) \<or> sint d < 0 \<and> j = nat (sint (- d) div 2))"

lemma dsm_step_ok:
  assumes r: "proj_is r P" and D: "doubles P D" and a: "signed_sum (x ! i) D Qa D1" and b: "signed_sum (y ! i) D1 Qb D2"
    and Ai: "\<And>j. used x j \<Longrightarrow> cached_is (Ai ! j) (Qa j)" and bi: "\<And>j. used y j \<Longrightarrow> pre_is (bi_table ! j) (Qb j)"
    and i: "i < length x" "i < length y"
  shows "proj_is (dsm_step Ai x y r i) D2"
proof -
  have d: "comp_is (Projective_Double r) D" using Projective_Double_ok [OF r] D by (simp add: doubles_def)
  have xi: "x ! i \<in> set x" "y ! i \<in> set y" using i by simp_all
  define t1 where "t1 = (if 0 < sint (x ! i) then geAdd (Completed_ToExtended (Projective_Double r)) (Ai ! nat (sint (x ! i) div 2))
      else if sint (x ! i) < 0 then geSub (Completed_ToExtended (Projective_Double r)) (Ai ! nat (sint (- (x ! i)) div 2))
      else Projective_Double r)"
  have ux: "0 < sint (x ! i) \<Longrightarrow> used x (nat (sint (x ! i) div 2))" "sint (x ! i) < 0 \<Longrightarrow> used x (nat (sint (- (x ! i)) div 2))"
    and uy: "0 < sint (y ! i) \<Longrightarrow> used y (nat (sint (y ! i) div 2))" "sint (y ! i) < 0 \<Longrightarrow> used y (nat (sint (- (y ! i)) div 2))"
    using xi unfolding used_def by blast+
  have t1: "comp_is t1 D1"
    using a d geAdd_ok [OF Completed_ToExtended_ok [OF d] Ai [OF ux(1)]] geSub_ok [OF Completed_ToExtended_ok [OF d] Ai [OF ux(2)]]
    unfolding t1_def signed_sum_def by (simp split: if_splits)
  define t2 where "t2 = (if 0 < sint (y ! i) then geMixedAdd (Completed_ToExtended t1) (bi_table ! nat (sint (y ! i) div 2))
      else if sint (y ! i) < 0 then geMixedSub (Completed_ToExtended t1) (bi_table ! nat (sint (- (y ! i)) div 2))
      else t1)"
  have "comp_is t2 D2"
    using b t1 geMixedAdd_ok [OF Completed_ToExtended_ok [OF t1] bi [OF uy(1)]] geMixedSub_ok [OF Completed_ToExtended_ok [OF t1] bi [OF uy(2)]]
    unfolding t2_def signed_sum_def by (simp split: if_splits)
  then have "proj_is (Completed_ToProjective t2) D2" by (rule Completed_ToProjective_ok)
  then show ?thesis by (simp only: dsm_step_def Let_def t1_def t2_def)
qed

lemma dsm_run_ok:
  assumes "proj_is r P" and "dsm_run x y Qa Qb is P R" and "\<forall>i \<in> set is. i < length x \<and> i < length y"
    and "\<And>j. used x j \<Longrightarrow> cached_is (Ai ! j) (Qa j)" and "\<And>j. used y j \<Longrightarrow> pre_is (bi_table ! j) (Qb j)"
  shows "proj_is (foldl (dsm_step Ai x y) r is) R"
  using assms(1-3)
proof (induction "is" arbitrary: r P)
  case (Cons i "is")
  obtain D D1 D2 where D: "doubles P D" "signed_sum (x ! i) D Qa D1" "signed_sum (y ! i) D1 Qb D2" "dsm_run x y Qa Qb is D2 R"
    using Cons.prems(2) unfolding dsm_run.simps by blast
  have "proj_is (dsm_step Ai x y r i) D2" by (rule dsm_step_ok [OF Cons.prems(1) D(1-3) assms(4,5)]) (use Cons.prems(3) in auto)
  from Cons.IH [OF this D(4)] show ?case using Cons.prems(3) by simp
qed simp

text \<open>\<open>GeDoubleScalarMultVartime\<close> doubles and adds as the digits of the two scalars say, by the affine law.\<close>

theorem GeDoubleScalarMultVartime_ok:
  assumes "length a = 32" and "le_nat a < 2 ^ 255" and "length b = 32" and "le_nat b < 2 ^ 255"
    and "\<forall>j. used (slide a) j \<longrightarrow> cached_is (dsm_table A ! j) (Qa j)" and "\<forall>j. used (slide b) j \<longrightarrow> pre_is (bi_table ! j) (Qb j)"
    and "dsm_run (slide a) (slide b) Qa Qb (dropWhile (\<lambda>i. slide a ! i = 0 \<and> slide b ! i = 0) (rev [0..<256])) (0, 1) R"
  shows "proj_is (GeDoubleScalarMultVartime a A b) R"
proof -
  have "proj_is Projective_Zero (0, 1)"
    using FeZero_ok FeOne_ok fe_unit_1 by (simp add: proj_is_def Projective_Zero_def fe_le_mono)
  moreover have "\<forall>i \<in> set (dropWhile (\<lambda>i. slide a ! i = 0 \<and> slide b ! i = 0) (rev [0..<256])). i < length (slide a) \<and> i < length (slide b)"
    using slide_ok [OF assms(1,2)] slide_ok [OF assms(3,4)] set_dropWhileD by fastforce
  ultimately show ?thesis
    unfolding GeDoubleScalarMultVartime_def Let_def by (intro dsm_run_ok [OF _ assms(7)]) (use assms(5,6) in blast)+
qed

lemma slide_zero: "slide (replicate 32 0) = replicate 256 0"
  by code_simp

lemma slide_one: "slide (1 # replicate 31 0) = 1 # replicate 255 0"
  by code_simp

theorem GeDoubleScalarMultVartime_ok_witness:
  "proj_is (GeDoubleScalarMultVartime (replicate 32 0) A (1 # replicate 31 0)) base_point"
proof -
  let ?a = "replicate 32 0 :: bytes" and ?b = "1 # replicate 31 0 :: bytes" and ?Q = "\<lambda>_ :: nat. base_point"
  let ?P = "\<lambda>i. slide ?a ! i = 0 \<and> slide ?b ! i = 0"
  have l: "length ?a = 32" "length ?b = 32" by simp_all
  have "le_nat ?a = 0" "le_nat ?b = 1" using le_nat_zeros [of 32] le_nat_zeros [of 31] by (simp_all only: le_nat_Cons) simp
  then have n: "le_nat ?a < 2 ^ 255" "le_nat ?b < 2 ^ 255" by simp_all
  have ua: "\<forall>j. used (slide ?a) j \<longrightarrow> cached_is (dsm_table A ! j) (?Q j)" unfolding slide_zero used_def set_replicate_conv_if by simp
  have e: "bi_table ! 0 = base_table ! 0 ! 0" by (simp add: bi_table_def base_table_def base_0_def)
  have "set (1 # replicate 255 (0 :: i8)) = {1, 0}" by (simp only: list.set(2) set_replicate_conv_if) simp
  then have ub: "\<forall>j. used (slide ?b) j \<longrightarrow> pre_is (bi_table ! j) (?Q j)"
    using base_entry unfolding slide_one used_def e [symmetric] by simp
  have z: "?P i" if "i \<noteq> 0" "i < 256" for i
    using that unfolding slide_zero slide_one by (cases i) (simp_all add: nth_Cons del: replicate.simps)
  have "rev [0..<256] = rev [1..<256] @ [0 :: nat]" by (simp only: upt_conv_Cons zero_less_numeral rev.simps) simp
  moreover have "dropWhile ?P (rev [1..<256] @ [0]) = dropWhile ?P [0]"
    by (rule dropWhile_append2) (use z in auto)
  moreover have "\<not> ?P 0" unfolding slide_one by simp
  ultimately have d: "dropWhile ?P (rev [0..<256]) = [0]" by simp
  have a: "doubles (0, 1) (0, 1)" using ed_sum_zero by (simp add: doubles_def on_curve_def)
  have b: "signed_sum (replicate 256 0 ! 0) (0, 1) ?Q (0, 1)" by (simp add: signed_sum_def)
  have c: "signed_sum ((1 # replicate 255 0) ! 0) (0, 1) ?Q base_point" using ed_sum_zero(2) by (simp add: signed_sum_def)
  have "dsm_run (slide ?a) (slide ?b) ?Q ?Q (dropWhile ?P (rev [0..<256])) (0, 1) base_point"
    unfolding d unfolding slide_zero slide_one dsm_run.simps using a b c by blast
  from GeDoubleScalarMultVartime_ok [OF l(1) n(1) l(2) n(2) ua ub this] show ?thesis .
qed

end
